(* ===== verification/Prelude.thy ===== *)
theory Prelude
  imports Main
begin

text \<open>
  What every component shares: computations that thread a state and may throw (the shape of an
  \<open>async\<close> method that mutates its object), their combinators with the rules that let the
  simplifier run them, and the proof rules for facts every state change of a computation keeps.
\<close>

section \<open>Collections of rules\<close>

named_theorems comp_defs \<open>unfolding rules of the state-and-error combinators\<close>
named_theorems run_simps \<open>the combinators applied to a state\<close>
named_theorems keeps_intros \<open>rules that split a preservation goal along a computation\<close>

section \<open>Computations with a state and an error\<close>

text \<open>
  A method that reads and writes its object and may throw is a function from the state to a
  result and the state it leaves. \<open>Inl\<close> is the thrown value, \<open>Inr\<close> the returned one; a throw
  keeps the state changes made before it, as in the source.
\<close>

type_synonym ('s, 'e, 'a) comp = "'s \<Rightarrow> ('e + 'a) \<times> 's"

definition ret :: "'a \<Rightarrow> ('s, 'e, 'a) comp" where
  [comp_defs]: "ret a = (\<lambda>s. (Inr a, s))"

definition throwC :: "'e \<Rightarrow> ('s, 'e, 'a) comp" where
  [comp_defs]: "throwC e = (\<lambda>s. (Inl e, s))"

definition bindC :: "('s, 'e, 'a) comp \<Rightarrow> ('a \<Rightarrow> ('s, 'e, 'b) comp) \<Rightarrow> ('s, 'e, 'b) comp" where
  [comp_defs]: "bindC m f = (\<lambda>s. case m s of (Inl e, s') \<Rightarrow> (Inl e, s') | (Inr a, s') \<Rightarrow> f a s')"

definition thenC :: "('s, 'e, 'a) comp \<Rightarrow> ('s, 'e, 'b) comp \<Rightarrow> ('s, 'e, 'b) comp" where
  [comp_defs]: "thenC m k = bindC m (\<lambda>_. k)"

definition catchC :: "('s, 'e, 'a) comp \<Rightarrow> ('e \<Rightarrow> ('s, 'e, 'a) comp) \<Rightarrow> ('s, 'e, 'a) comp" where
  [comp_defs]: "catchC m h = (\<lambda>s. case m s of (Inl e, s') \<Rightarrow> h e s' | (Inr a, s') \<Rightarrow> (Inr a, s'))"

definition getC :: "('s \<Rightarrow> 'a) \<Rightarrow> ('s, 'e, 'a) comp" where
  [comp_defs]: "getC f = (\<lambda>s. (Inr (f s), s))"

definition modifyC :: "('s \<Rightarrow> 's) \<Rightarrow> ('s, 'e, unit) comp" where
  [comp_defs]: "modifyC f = (\<lambda>s. (Inr (), f s))"

definition guardC :: "bool \<Rightarrow> 'e \<Rightarrow> ('s, 'e, unit) comp" where
  [comp_defs]: "guardC b e = (if b then ret () else throwC e)"

definition isOk :: "'e + 'a \<Rightarrow> bool" where
  "isOk r = (case r of Inl _ \<Rightarrow> False | Inr _ \<Rightarrow> True)"

text \<open>The same for a result without a state.\<close>

definition andThen :: "'e + 'a \<Rightarrow> ('a \<Rightarrow> 'e + 'b) \<Rightarrow> 'e + 'b" where
  "andThen r f = (case r of Inl e \<Rightarrow> Inl e | Inr a \<Rightarrow> f a)"

lemma andThen_Inr [simp]: "andThen r f = Inr b \<longleftrightarrow> (\<exists>a. r = Inr a \<and> f a = Inr b)"
  by (auto simp: andThen_def split: sum.splits)

text \<open>Running a list of computations in order, stopping at the first throw.\<close>

fun seqC :: "('s, 'e, unit) comp list \<Rightarrow> ('s, 'e, unit) comp" where
  "seqC [] = ret ()"
| "seqC (m # ms) = thenC m (seqC ms)"

lemma bindC_assoc: "bindC (bindC m f) g = bindC m (\<lambda>a. bindC (f a) g)"
  by (auto simp: comp_defs fun_eq_iff split: prod.splits sum.splits)

lemma bindC_ret [simp]: "bindC (ret a) f = f a" "bindC m ret = m"
  by (auto simp: comp_defs fun_eq_iff split: prod.splits sum.splits)

text \<open>The runs that return.\<close>

lemma returns_simps:
  "bindC m f s = (Inr b, t) \<longleftrightarrow> (\<exists>a u. m s = (Inr a, u) \<and> f a u = (Inr b, t))"
  "thenC m k s = (Inr b, t) \<longleftrightarrow> (\<exists>a u. m s = (Inr a, u) \<and> k u = (Inr b, t))"
  "ret a s = (Inr b, t) \<longleftrightarrow> b = a \<and> t = s"
  "throwC e s \<noteq> (Inr b, t)"
  "getC g s = (Inr b, t) \<longleftrightarrow> b = g s \<and> t = s"
  by (auto simp: bindC_def thenC_def ret_def throwC_def getC_def split: prod.splits sum.splits)

section \<open>Computations on a part of the state, and with another error type\<close>

definition liftE :: "'e + 'a \<Rightarrow> ('s, 'e, 'a) comp" where
  "liftE r = (case r of Inl e \<Rightarrow> throwC e | Inr a \<Rightarrow> ret a)"

text \<open>\<open>zoomC get put f m\<close> runs \<open>m\<close> on a part of the state and translates what it throws.\<close>

definition zoomC :: "('s \<Rightarrow> 't) \<Rightarrow> ('t \<Rightarrow> 's \<Rightarrow> 's) \<Rightarrow> ('d \<Rightarrow> 'e) \<Rightarrow> ('t, 'd, 'a) comp \<Rightarrow> ('s, 'e, 'a) comp" where
  "zoomC get put f m = (\<lambda>s. case m (get s) of
       (Inl d, t) \<Rightarrow> (Inl (f d), put t s)
     | (Inr a, t) \<Rightarrow> (Inr a, put t s))"

text \<open>\<open>tryC m\<close> never throws: it returns what \<open>m\<close> threw or returned.\<close>

definition tryC :: "('s, 'e, 'a) comp \<Rightarrow> ('s, 'd, 'e + 'a) comp" where
  "tryC m = (\<lambda>s. case m s of (r, t) \<Rightarrow> (Inr r, t))"

lemma run_rules [run_simps]:
  "ret a s = (Inr a, s)" "throwC e s = (Inl e, s)" "getC g s = (Inr (g s), s)" "modifyC h s = (Inr (), h s)"
  "bindC m f s = (case m s of (Inl e, t) \<Rightarrow> (Inl e, t) | (Inr a, t) \<Rightarrow> f a t)"
  "thenC m k s = (case m s of (Inl e, t) \<Rightarrow> (Inl e, t) | (Inr _, t) \<Rightarrow> k t)"
  "catchC m c s = (case m s of (Inl e, t) \<Rightarrow> c e t | (Inr a, t) \<Rightarrow> (Inr a, t))"
  "tryC m s = (case m s of (r, t) \<Rightarrow> (Inr r, t))"
  "guardC b e s = (if b then (Inr (), s) else (Inl e, s))"
  "liftE r s = (r, s)"
  by (simp_all add: comp_defs tryC_def liftE_def split: sum.split)

text \<open>How a sequence ended.\<close>

lemma bind_cases:
  assumes "bindC m f s = (r, t)"
  obtains (throws) e where "m s = (Inl e, t)" "r = Inl e" | (returns) a u where "m s = (Inr a, u)" "f a u = (r, t)"
  using assms by (auto simp: bindC_def split: prod.splits sum.splits)

lemma then_cases:
  assumes "thenC m k s = (r, t)"
  obtains (throws) e where "m s = (Inl e, t)" "r = Inl e" | (returns) a u where "m s = (Inr a, u)" "k u = (r, t)"
  using assms unfolding thenC_def by (rule bind_cases)

section \<open>What a computation keeps\<close>

text \<open>
  \<open>keeps R m\<close>: every run of \<open>m\<close> relates the state it starts in to the state it leaves, thrown
  or returned. For a reflexive and transitive \<open>R\<close> it follows the structure of \<open>m\<close>; an invariant
  \<open>I\<close> is the relation \<open>\<lambda>s t. I s \<longrightarrow> I t\<close>, a frame is equality of a field.
\<close>

definition keeps :: "('s \<Rightarrow> 's \<Rightarrow> bool) \<Rightarrow> ('s, 'e, 'a) comp \<Rightarrow> bool" where
  "keeps R m \<longleftrightarrow> (\<forall>s. R s (snd (m s)))"

lemma keepsI: "(\<And>s. R s (snd (m s))) \<Longrightarrow> keeps R m"
  by (simp add: keeps_def)

lemma keepsD: "keeps R m \<Longrightarrow> R s (snd (m s))"
  by (simp add: keeps_def)

lemma keeps_run: "keeps R m \<Longrightarrow> m s = (r, t) \<Longrightarrow> R s t"
  by (metis keeps_def snd_conv)

lemma keeps_ret [keeps_intros]: "reflp R \<Longrightarrow> keeps R (ret a)"
  by (simp add: keeps_def ret_def reflpD)

lemma keeps_throw [keeps_intros]: "reflp R \<Longrightarrow> keeps R (throwC e)"
  by (simp add: keeps_def throwC_def reflpD)

lemma keeps_get [keeps_intros]: "reflp R \<Longrightarrow> keeps R (getC f)"
  by (simp add: keeps_def getC_def reflpD)

lemma keeps_guard [keeps_intros]: "reflp R \<Longrightarrow> keeps R (guardC b e)"
  by (simp add: guardC_def keeps_ret keeps_throw)

lemma keeps_bind [keeps_intros]:
  assumes "transp R" "keeps R m" "\<And>a. keeps R (f a)"
  shows "keeps R (bindC m f)"
proof (rule keepsI)
  fix s
  obtain r t where m: "m s = (r, t)" by fastforce
  then have st: "R s t" using assms(2) by (rule keeps_run [rotated])
  show "R s (snd (bindC m f s))"
  proof (cases r)
    case (Inl e)
    with m st show ?thesis by (simp add: bindC_def)
  next
    case (Inr a)
    have "R t (snd (f a t))" using assms(3) by (rule keepsD)
    with Inr m st show ?thesis using transpD [OF assms(1)] by (simp add: bindC_def)
  qed
qed

lemma keeps_then [keeps_intros]:
  "transp R \<Longrightarrow> keeps R m \<Longrightarrow> keeps R k \<Longrightarrow> keeps R (thenC m k)"
  by (simp add: thenC_def keeps_bind)

lemma keeps_catch [keeps_intros]:
  assumes "transp R" "keeps R m" "\<And>e. keeps R (h e)"
  shows "keeps R (catchC m h)"
proof (rule keepsI)
  fix s
  obtain r t where m: "m s = (r, t)" by fastforce
  then have st: "R s t" using assms(2) by (rule keeps_run [rotated])
  show "R s (snd (catchC m h s))"
  proof (cases r)
    case (Inr a)
    with m st show ?thesis by (simp add: catchC_def)
  next
    case (Inl e)
    have "R t (snd (h e t))" using assms(3) by (rule keepsD)
    with Inl m st show ?thesis using transpD [OF assms(1)] by (simp add: catchC_def)
  qed
qed

lemma keeps_if [keeps_intros]:
  "keeps R m \<Longrightarrow> keeps R k \<Longrightarrow> keeps R (if b then m else k)"
  by simp

lemma keeps_modify: "(\<And>s. R s (f s)) \<Longrightarrow> keeps R (modifyC f)"
  by (simp add: keeps_def modifyC_def)

lemma keeps_seqC: "reflp R \<Longrightarrow> transp R \<Longrightarrow> (\<And>m. m \<in> set ms \<Longrightarrow> keeps R m) \<Longrightarrow> keeps R (seqC ms)"
  by (induction ms) (auto intro: keeps_intros)

end
