(* ===== verification/Runtime_State.thy ===== *)
theory Runtime_State
  imports Prelude
begin

text \<open>
  The workspace runtime states and their transition table
  (\<open>packages/workspace-runtime/src/state.ts\<close>).
\<close>

section \<open>States and transitions\<close>

datatype runtime_state =
    STOPPED | STARTING | RESTORING | READY | BUSY | CHECKPOINTING | STOPPING
  | ERROR | RESTORE_FAILED | CHECKPOINT_FAILED

definition WORKSPACE_RUNTIME_STATES :: "runtime_state list" where
  "WORKSPACE_RUNTIME_STATES =
     [STOPPED, STARTING, RESTORING, READY, BUSY, CHECKPOINTING, STOPPING,
      ERROR, RESTORE_FAILED, CHECKPOINT_FAILED]"

fun WORKSPACE_STATE_TRANSITIONS :: "runtime_state \<Rightarrow> runtime_state list" where
  "WORKSPACE_STATE_TRANSITIONS STOPPED = [STARTING]"
| "WORKSPACE_STATE_TRANSITIONS STARTING = [RESTORING, RESTORE_FAILED, ERROR, STOPPING]"
| "WORKSPACE_STATE_TRANSITIONS RESTORING = [READY, RESTORE_FAILED, ERROR, STOPPING]"
| "WORKSPACE_STATE_TRANSITIONS READY = [BUSY, CHECKPOINTING, STOPPING, ERROR]"
| "WORKSPACE_STATE_TRANSITIONS BUSY = [READY, CHECKPOINTING, STOPPING, ERROR]"
| "WORKSPACE_STATE_TRANSITIONS CHECKPOINTING = [READY, CHECKPOINT_FAILED, ERROR, STOPPING]"
| "WORKSPACE_STATE_TRANSITIONS STOPPING = [STOPPED, CHECKPOINT_FAILED, ERROR]"
| "WORKSPACE_STATE_TRANSITIONS ERROR = [STARTING, STOPPING]"
| "WORKSPACE_STATE_TRANSITIONS RESTORE_FAILED = [STARTING, STOPPING]"
| "WORKSPACE_STATE_TRANSITIONS CHECKPOINT_FAILED = [READY, STARTING, STOPPING]"

text \<open>
  The errors of the runtime package. An error thrown by a collaborator is \<open>External\<close>, with its name if it has one of its own; a thrown
  value is an \<open>Error\<close> object with its optional \<open>cause\<close>, or some other JavaScript value.
\<close>

datatype err_kind =
    IllegalTransitionError runtime_state runtime_state
  | AgentInputRefusedError runtime_state
  | InvalidOperationError string runtime_state
  | External string
  | ExternalNamed string string

datatype thrown = Error (kind: err_kind) (cause: "err_kind option") | NonError string

abbreviation throw_new :: "err_kind \<Rightarrow> thrown" where
  "throw_new k \<equiv> Error k None"

definition canTransition :: "runtime_state \<Rightarrow> runtime_state \<Rightarrow> bool" where
  "canTransition from to \<longleftrightarrow> to \<in> set (WORKSPACE_STATE_TRANSITIONS from)"

definition assertTransition :: "runtime_state \<Rightarrow> runtime_state \<Rightarrow> thrown + unit" where
  "assertTransition from to =
     (if \<not> canTransition from to then Inl (throw_new (IllegalTransitionError from to)) else Inr ())"

definition AGENT_INPUT_REFUSED_STATES :: "runtime_state list" where
  "AGENT_INPUT_REFUSED_STATES =
     [STOPPED, STARTING, RESTORING, STOPPING, ERROR, RESTORE_FAILED, CHECKPOINT_FAILED]"

definition isAgentInputAllowed :: "runtime_state \<Rightarrow> bool" where
  "isAgentInputAllowed st \<longleftrightarrow> st \<notin> set AGENT_INPUT_REFUSED_STATES"

section \<open>The states as a finite enumeration\<close>

instantiation runtime_state :: enum
begin

definition enum_runtime_state :: "runtime_state list" where
  "enum_runtime_state = WORKSPACE_RUNTIME_STATES"

definition enum_all_runtime_state :: "(runtime_state \<Rightarrow> bool) \<Rightarrow> bool" where
  "enum_all_runtime_state P = list_all P WORKSPACE_RUNTIME_STATES"

definition enum_ex_runtime_state :: "(runtime_state \<Rightarrow> bool) \<Rightarrow> bool" where
  "enum_ex_runtime_state P = list_ex P WORKSPACE_RUNTIME_STATES"

instance
proof
  have mem: "st \<in> set WORKSPACE_RUNTIME_STATES" for st
    by (cases st) (simp_all add: WORKSPACE_RUNTIME_STATES_def)
  then show univ: "UNIV = set (enum_class.enum :: runtime_state list)"
    by (auto simp: enum_runtime_state_def)
  show "distinct (enum_class.enum :: runtime_state list)"
    by (simp add: enum_runtime_state_def WORKSPACE_RUNTIME_STATES_def)
  fix P :: "runtime_state \<Rightarrow> bool"
  show "enum_class.enum_all P \<longleftrightarrow> Ball UNIV P"
    using mem by (auto simp: enum_all_runtime_state_def list_all_iff)
  show "enum_class.enum_ex P \<longleftrightarrow> Bex UNIV P"
    using mem by (auto simp: enum_ex_runtime_state_def list_ex_iff)
qed

end

lemma canTransition_simps [simp]:
  "canTransition STOPPED t \<longleftrightarrow> t = STARTING"
  "canTransition STARTING t \<longleftrightarrow> t \<in> {RESTORING, RESTORE_FAILED, ERROR, STOPPING}"
  "canTransition RESTORING t \<longleftrightarrow> t \<in> {READY, RESTORE_FAILED, ERROR, STOPPING}"
  "canTransition READY t \<longleftrightarrow> t \<in> {BUSY, CHECKPOINTING, STOPPING, ERROR}"
  "canTransition BUSY t \<longleftrightarrow> t \<in> {READY, CHECKPOINTING, STOPPING, ERROR}"
  "canTransition CHECKPOINTING t \<longleftrightarrow> t \<in> {READY, CHECKPOINT_FAILED, ERROR, STOPPING}"
  "canTransition STOPPING t \<longleftrightarrow> t \<in> {STOPPED, CHECKPOINT_FAILED, ERROR}"
  "canTransition ERROR t \<longleftrightarrow> t \<in> {STARTING, STOPPING}"
  "canTransition RESTORE_FAILED t \<longleftrightarrow> t \<in> {STARTING, STOPPING}"
  "canTransition CHECKPOINT_FAILED t \<longleftrightarrow> t \<in> {READY, STARTING, STOPPING}"
  by (auto simp: canTransition_def)

lemma isAgentInputAllowed_iff: "isAgentInputAllowed st \<longleftrightarrow> st \<in> {READY, BUSY, CHECKPOINTING}"
  by (cases st) (simp_all add: isAgentInputAllowed_def AGENT_INPUT_REFUSED_STATES_def)

section \<open>Paths through the table\<close>

text \<open>\<open>path s ss t\<close>: the table allows going from \<open>s\<close> through the states \<open>ss\<close>, the last of which is \<open>t\<close>.\<close>

inductive path :: "runtime_state \<Rightarrow> runtime_state list \<Rightarrow> runtime_state \<Rightarrow> bool" where
  path_nil: "path s [] s"
| path_step: "canTransition s u \<Longrightarrow> path u us t \<Longrightarrow> path s (u # us) t"

inductive_simps path_Nil [simp]: "path s [] t"
inductive_simps path_Cons [simp]: "path s (u # us) t"

lemma path_append: "path s us t \<Longrightarrow> path t vs w \<Longrightarrow> path s (us @ vs) w"
  by (induction rule: path.induct) auto

lemma path_last: "path s us t \<Longrightarrow> t = (if us = [] then s else last us)"
  by (induction rule: path.induct) auto

text \<open>
  A set of states that the table leaves only through a gate: a path that starts in the set and
  ends outside it passes the gate.
\<close>

lemma path_through_gate:
  assumes "path s us t" "s \<in> A" "t \<notin> A"
    and "\<And>x y. x \<in> A \<Longrightarrow> canTransition x y \<Longrightarrow> y \<notin> A \<Longrightarrow> y \<in> G"
  shows "\<exists>g \<in> set us. g \<in> G"
  using assms(1-3)
proof (induction rule: path.induct)
  case (path_step s u us t)
  then show ?case
    by (cases "u \<in> A") (auto dest: assms(4))
qed simp

text \<open>A stopped workspace reaches READY only by way of a restore, or back out of an aborted stop.\<close>

theorem ready_only_through_restoring:
  assumes "path STOPPED us READY"
  shows "RESTORING \<in> set us \<or> CHECKPOINT_FAILED \<in> set us"
proof -
  have "\<exists>g \<in> set us. g \<in> {RESTORING, CHECKPOINT_FAILED}"
    by (rule path_through_gate [OF assms, where A = "{STOPPED, STARTING, STOPPING, ERROR, RESTORE_FAILED}"])
       auto
  then show ?thesis by auto
qed

theorem ready_only_through_restoring_witness:
  "RESTORING \<in> set [STARTING, RESTORING, READY] \<or> CHECKPOINT_FAILED \<in> set [STARTING, RESTORING, READY]"
  by (rule ready_only_through_restoring) simp

end
