(* ===== verification/State_Store.thy ===== *)
theory State_Store
  imports Runtime_State
begin

text \<open>
  The transactional state store and the state machine that moves through it
  (\<open>packages/workspace-runtime/src/store.ts\<close> and \<open>machine.ts\<close>): the in-memory store, the
  contract \<open>TransactionalStateStore\<close> as a locale, the machine over any store, and the
  interpretation of the contract on the in-memory store.
\<close>

section \<open>The in-memory store\<close>

text \<open>Dates are milliseconds since the epoch. An absent \<open>reason\<close> is None.\<close>

record TransitionRecord =
  tr_workspaceId :: string
  tr_from :: runtime_state
  tr_to :: runtime_state
  tr_at :: int
  tr_reason :: "string option"

record 'd InMemoryTransactionalStore =
  states :: "string \<rightharpoonup> runtime_state"
  history :: "TransitionRecord list"
  persisted :: "(TransitionRecord \<times> 'd) list"

text \<open>
  A \<open>persist\<close> callback runs inside the transaction. It buffers some data and returns, or throws
  after having buffered some; what a throwing callback buffered is never appended.
\<close>

type_synonym 'd persist_callback = "TransitionRecord \<Rightarrow> 'd list \<times> (thrown + unit)"

definition newStore :: "(string \<times> runtime_state) list \<Rightarrow> 'd InMemoryTransactionalStore" where
  "newStore initial =
     \<lparr>states = foldl (\<lambda>m (i, st). m(i \<mapsto> st)) Map.empty initial, history = [], persisted = []\<rparr>"

definition store_load :: "string \<Rightarrow> 'd InMemoryTransactionalStore \<Rightarrow> runtime_state option" where
  "store_load w s = states s w"

text \<open>
  Transactions of one workspace are serialised by the lock chain, so a transaction is one step
  here: the check against the current row, the callback, then the row, the history and the
  buffered writes together.
\<close>

definition store_apply ::
  "int \<Rightarrow> string \<Rightarrow> runtime_state \<Rightarrow> runtime_state \<Rightarrow> string option \<Rightarrow> 'd persist_callback option
   \<Rightarrow> ('d InMemoryTransactionalStore, thrown, unit) comp" where
  "store_apply now w from to reason persist s =
     (let current = (case states s w of None \<Rightarrow> STOPPED | Some st \<Rightarrow> st) in
      if current \<noteq> from then (Inl (throw_new (IllegalTransitionError current to)), s)
      else
        (let rec = \<lparr>tr_workspaceId = w, tr_from = from, tr_to = to, tr_at = now, tr_reason = reason\<rparr>;
             (pendingWrites, outcome) = (case persist of None \<Rightarrow> ([], Inr ()) | Some f \<Rightarrow> f rec) in
         case outcome of
           Inl e \<Rightarrow> (Inl e, s)
         | Inr _ \<Rightarrow> (Inr (), s\<lparr>states := (states s)(w \<mapsto> to), history := history s @ [rec],
                             persisted := persisted s @ map (\<lambda>d. (rec, d)) pendingWrites\<rparr>)))"

definition clearHistory :: "'d InMemoryTransactionalStore \<Rightarrow> 'd InMemoryTransactionalStore" where
  "clearHistory s = s\<lparr>history := [], persisted := []\<rparr>"

section \<open>The state machine over a store\<close>

record WorkspaceStateMachine =
  workspaceId :: string
  current :: runtime_state

definition newMachine :: "string \<Rightarrow> WorkspaceStateMachine" where
  "newMachine w = \<lparr>workspaceId = w, current = STOPPED\<rparr>"

definition machine_canTransition :: "WorkspaceStateMachine \<Rightarrow> runtime_state \<Rightarrow> bool" where
  "machine_canTransition m to = canTransition (current m) to"

text \<open>
  The machine is given the store's \<open>apply\<close> with the reason and the callback already supplied; the
  state it threads is its own record and the store.
\<close>

definition machine_transition ::
  "(string \<Rightarrow> runtime_state \<Rightarrow> runtime_state \<Rightarrow> ('s, thrown, unit) comp) \<Rightarrow> runtime_state
   \<Rightarrow> (WorkspaceStateMachine \<times> 's, thrown, unit) comp" where
  "machine_transition ap to = (\<lambda>(m, s).
     (case assertTransition (current m) to of
        Inl e \<Rightarrow> (Inl e, (m, s))
      | Inr _ \<Rightarrow>
         (case ap (workspaceId m) (current m) to s of
            (Inl e, s') \<Rightarrow> (Inl e, (m, s'))
          | (Inr _, s') \<Rightarrow> (Inr (), (m\<lparr>current := to\<rparr>, s')))))"

definition machine_reload ::
  "(string \<Rightarrow> ('s, thrown, runtime_state option) comp)
   \<Rightarrow> (WorkspaceStateMachine \<times> 's, thrown, runtime_state) comp" where
  "machine_reload ld = (\<lambda>(m, s).
     (case ld (workspaceId m) s of
        (Inl e, s') \<Rightarrow> (Inl e, (m, s'))
      | (Inr p, s') \<Rightarrow>
         (let m' = (case p of None \<Rightarrow> m | Some st \<Rightarrow> m\<lparr>current := st\<rparr>) in
          (Inr (current m'), (m', s')))))"

section \<open>The contract of a transactional store\<close>

text \<open>
  \<open>row s w\<close> is the state a store \<open>s\<close> holds for a workspace; an unknown workspace counts as
  STOPPED. \<open>apply\<close> is a compare-and-set: it moves the row only from \<open>from\<close>, a failed one
  changes no row, and it touches no other workspace. \<open>load\<close> reads without changing a row. Both may
  also fail for reasons of their own (a lost connection).
\<close>

locale transactional_store =
  fixes load :: "string \<Rightarrow> ('s, thrown, runtime_state option) comp"
    and apply_tx :: "string \<Rightarrow> runtime_state \<Rightarrow> runtime_state \<Rightarrow> ('s, thrown, unit) comp"
    and row :: "'s \<Rightarrow> string \<Rightarrow> runtime_state"
  assumes load_row: "load w s = (Inr (Some st), s') \<Longrightarrow> row s w = st"
    and load_unknown: "load w s = (Inr None, s') \<Longrightarrow> row s w = STOPPED"
    and load_frame: "load w s = (r, s') \<Longrightarrow> row s' = row s"
    and apply_cas: "apply_tx w from to s = (Inr u, s') \<Longrightarrow> row s w = from"
    and apply_moves: "apply_tx w from to s = (Inr u, s') \<Longrightarrow> row s' = (row s)(w := to)"
    and apply_rollback: "apply_tx w from to s = (Inl e, s') \<Longrightarrow> row s' = row s"
begin

lemma transition_cases:
  assumes "machine_transition apply_tx to (m, s) = (r, (m', s'))"
  obtains
    (refused) "\<not> canTransition (current m) to"
      "r = Inl (throw_new (IllegalTransitionError (current m) to))" "m' = m" "s' = s"
  | (failed) e where "canTransition (current m) to" "r = Inl e" "m' = m" "row s' = row s"
  | (moved) "canTransition (row s (workspaceId m)) to" "current m = row s (workspaceId m)"
      "r = Inr ()" "m' = m\<lparr>current := to\<rparr>" "row s' = (row s)(workspaceId m := to)"
proof (cases "canTransition (current m) to")
  case False
  with assms show ?thesis
    by (intro refused) (auto simp: machine_transition_def assertTransition_def)
next
  case True
  obtain q t where ap: "apply_tx (workspaceId m) (current m) to s = (q, t)" by fastforce
  show ?thesis
  proof (cases q)
    case (Inl e)
    with ap have rows: "row t = row s" by (simp add: apply_rollback)
    from Inl True ap assms have "r = Inl e" "m' = m" "s' = t"
      by (simp_all add: machine_transition_def assertTransition_def)
    with True rows show ?thesis by (intro failed [of e]) simp_all
  next
    case (Inr u)
    with ap have rows: "row s (workspaceId m) = current m"
        "row t = (row s)(workspaceId m := to)"
      by (auto intro: apply_cas apply_moves)
    from Inr True ap assms have "r = Inr ()" "m' = m\<lparr>current := to\<rparr>" "s' = t"
      by (simp_all add: machine_transition_def assertTransition_def)
    with True rows show ?thesis by (intro moved) simp_all
  qed
qed

lemma reload_cases:
  assumes "machine_reload load (m, s) = (r, (m', s'))"
  obtains
    (failed) e where "r = Inl e" "m' = m" "row s' = row s"
  | (adopted) "r = Inr (row s (workspaceId m))" "m' = m\<lparr>current := row s (workspaceId m)\<rparr>" "row s' = row s"
  | (unknown) "r = Inr (current m)" "m' = m" "row s' = row s" "row s (workspaceId m) = STOPPED"
proof (cases "load (workspaceId m) s")
  case (Pair q t)
  then have t: "row t = row s" by (rule load_frame)
  show ?thesis
  proof (cases q)
    case (Inl e)
    with assms Pair t show ?thesis by (intro failed [of e]) (auto simp add: machine_reload_def)
  next
    case (Inr p)
    show ?thesis
    proof (cases p)
      case None
      with Inr Pair have "row s (workspaceId m) = STOPPED" by (simp add: load_unknown)
      with assms Pair t Inr None show ?thesis by (intro unknown) (auto simp add: machine_reload_def)
    next
      case (Some st)
      with Inr Pair have "row s (workspaceId m) = st" by (simp add: load_row)
      with assms Pair t Inr Some show ?thesis by (intro adopted) (auto simp add: machine_reload_def)
    qed
  qed
qed

text \<open>Every successful transition moves the row along an edge of the table, and only its own row.\<close>

lemma transition_legal:
  assumes "machine_transition apply_tx to (m, s) = (Inr u, (m', s'))"
  shows "canTransition (row s (workspaceId m)) (row s' (workspaceId m))"
    and "w \<noteq> workspaceId m \<Longrightarrow> row s' w = row s w"
    and "current m' = row s' (workspaceId m)"
  by (cases rule: transition_cases [OF assms]; simp)+

text \<open>
  Two machines of the same workspace with the same view: once one has moved the row somewhere else,
  the transition of the other is refused and changes nothing.
\<close>

lemma transition_race:
  assumes m1: "machine_transition apply_tx a (m, s) = (Inr u, (m1, s1))"
    and other: "workspaceId n = workspaceId m" "current n = current m" and "a \<noteq> current m"
    and m2: "machine_transition apply_tx b (n, s1) = (r, (n', s2))"
  shows "\<exists>e. r = Inl e" and "n' = n" and "row s2 = row s1"
proof -
  have "row s1 (workspaceId n) = a"
    by (cases rule: transition_cases [OF m1]) (simp_all add: other)
  then show "\<exists>e. r = Inl e" "n' = n" "row s2 = row s1"
    using assms by (cases rule: transition_cases [OF m2]; simp)+
qed

end

text \<open>
  A store that never fails on its own: every load answers, every transition from the right row
  commits, and a conflict is the IllegalTransitionError that names the row found.
\<close>

locale reliable_store = transactional_store +
  assumes load_total: "\<exists>p. load w s = (Inr p, s)"
    and apply_total: "row s w = from \<Longrightarrow> \<exists>s'. apply_tx w from to s = (Inr (), s')"
    and apply_conflict: "row s w \<noteq> from \<Longrightarrow>
          apply_tx w from to s = (Inl (throw_new (IllegalTransitionError (row s w) to)), s)"
begin

lemma transition_outcome:
  "fst (machine_transition apply_tx to (m, s)) =
     (if \<not> canTransition (current m) to then Inl (throw_new (IllegalTransitionError (current m) to))
      else if row s (workspaceId m) \<noteq> current m
      then Inl (throw_new (IllegalTransitionError (row s (workspaceId m)) to))
      else Inr ())"
proof (cases "row s (workspaceId m) = current m")
  case True
  then obtain s' where "apply_tx (workspaceId m) (current m) to s = (Inr (), s')"
    using apply_total by blast
  with True show ?thesis by (simp add: machine_transition_def assertTransition_def)
next
  case False
  then show ?thesis by (simp add: machine_transition_def assertTransition_def apply_conflict)
qed

end

section \<open>The in-memory store meets the contract\<close>

definition store_row :: "'d InMemoryTransactionalStore \<Rightarrow> string \<Rightarrow> runtime_state" where
  "store_row s w = (case states s w of None \<Rightarrow> STOPPED | Some st \<Rightarrow> st)"

lemma store_apply_conflict:
  "store_row s w \<noteq> from \<Longrightarrow>
   store_apply now w from to reason persist s =
     (Inl (throw_new (IllegalTransitionError (store_row s w) to)), s)"
  by (simp add: store_apply_def store_row_def Let_def)

lemma store_apply_rolls_back:
  "store_apply now w from to reason persist s = (Inl e, s') \<Longrightarrow> s' = s"
  by (auto simp: store_apply_def Let_def split: if_splits prod.splits sum.splits)

lemma store_apply_commits:
  assumes "store_apply now w from to reason persist s = (Inr u, s')"
  shows "store_row s w = from" and "states s' = (states s)(w \<mapsto> to)"
    and "store_row s' = (store_row s)(w := to)"
    and "\<exists>rec ds. tr_from rec = from \<and> tr_to rec = to \<and> tr_workspaceId rec = w
           \<and> history s' = history s @ [rec] \<and> persisted s' = persisted s @ map (Pair rec) ds"
  using assms
  by (auto simp: store_apply_def store_row_def Let_def fun_eq_iff
           split: if_splits prod.splits sum.splits)

interpretation mem: transactional_store
    "\<lambda>w s. (Inr (store_load w s), s)"
    "\<lambda>w from to. store_apply now w from to reason persist" store_row
  by unfold_locales
     (auto simp: store_load_def store_row_def
           dest: store_apply_rolls_back store_apply_commits(1) store_apply_commits(3))

interpretation memr: reliable_store
    "\<lambda>w s. (Inr (store_load w s), s)"
    "\<lambda>w from to. store_apply now w from to reason None" store_row
  by unfold_locales (auto simp: store_apply_def store_row_def Let_def)

text \<open>
  What the history of a store says: read oldest first, the records of one workspace form a path
  of the table from the state the workspace had at the start to the one it has now.
\<close>

fun chain :: "runtime_state \<Rightarrow> TransitionRecord list \<Rightarrow> runtime_state \<Rightarrow> bool" where
  "chain a [] b = (a = b)"
| "chain a (r # rs) b = (tr_from r = a \<and> canTransition a (tr_to r) \<and> chain (tr_to r) rs b)"

lemma chain_snoc:
  "chain a rs b \<Longrightarrow> tr_from r = b \<Longrightarrow> canTransition b (tr_to r) \<Longrightarrow> chain a (rs @ [r]) (tr_to r)"
  by (induction rs arbitrary: a) auto

definition of_workspace :: "string \<Rightarrow> TransitionRecord list \<Rightarrow> TransitionRecord list" where
  "of_workspace w = filter (\<lambda>r. tr_workspaceId r = w)"

text \<open>Requests of any number of machines, each with the view of the row its caller last saw.\<close>

fun run_transitions ::
  "(int \<times> WorkspaceStateMachine \<times> runtime_state \<times> 'd persist_callback option) list
   \<Rightarrow> 'd InMemoryTransactionalStore \<Rightarrow> 'd InMemoryTransactionalStore" where
  "run_transitions [] s = s"
| "run_transitions ((now, m, to, p) # rs) s =
     run_transitions rs (snd (snd (machine_transition (\<lambda>w f t. store_apply now w f t None p) to (m, s))))"

lemma transition_chain:
  assumes "chain a (of_workspace w (history s)) (store_row s w)"
    and "machine_transition (\<lambda>w f t. store_apply now w f t reason p) to (m, s) = (r, (m', s'))"
  shows "chain a (of_workspace w (history s')) (store_row s' w)"
proof (cases "store_apply now (workspaceId m) (current m) to reason p s")
  case (Pair q t)
  show ?thesis
  proof (cases "canTransition (current m) to \<and> (\<exists>u. q = Inr u)")
    case False
    then have "s' = s"
      using assms(2) Pair
      by (cases q) (auto simp: machine_transition_def assertTransition_def
                         dest: store_apply_rolls_back split: if_splits)
    with assms(1) show ?thesis by simp
  next
    case True
    then obtain u where ap: "store_apply now (workspaceId m) (current m) to reason p s = (Inr u, s')"
      using assms(2) Pair by (auto simp: machine_transition_def assertTransition_def)
    then obtain rec where rec: "tr_from rec = current m" "tr_to rec = to"
        "tr_workspaceId rec = workspaceId m" "history s' = history s @ [rec]"
      using store_apply_commits(4) by blast
    have "store_row s (workspaceId m) = current m" "store_row s' = (store_row s)(workspaceId m := to)"
      using ap by (rule store_apply_commits(1), rule store_apply_commits(3))
    with rec True assms(1) chain_snoc [of a _ "current m" rec] show ?thesis
      by (cases "w = workspaceId m") (auto simp: of_workspace_def)
  qed
qed

text \<open>After any sequence of requests by any number of machines, with any persist callbacks, what
  the history records for a workspace is a path of the transition table from its initial state to
  the row it has now.\<close>

theorem store_history_is_path:
  "chain (store_row (newStore initial :: 'd InMemoryTransactionalStore) w)
     (of_workspace w (history (run_transitions rs (newStore initial :: 'd InMemoryTransactionalStore))))
     (store_row (run_transitions rs (newStore initial)) w)"
proof -
  have "chain a (of_workspace w (history s)) (store_row s w) \<Longrightarrow>
        chain a (of_workspace w (history (run_transitions rs s))) (store_row (run_transitions rs s) w)" for a s
  proof (induction rs arbitrary: s)
    case (Cons q rs)
    obtain now m to p where q: "q = (now, m, to, p)" by (cases q)
    obtain r m' s' where run: "machine_transition (\<lambda>w f t. store_apply now w f t None p) to (m, s) = (r, (m', s'))"
      by (metis surj_pair)
    from transition_chain [OF Cons.prems run] Cons.IH [of s'] show ?case by (simp add: q run)
  qed simp
  from this [of "store_row (newStore initial :: 'd InMemoryTransactionalStore) w" "newStore initial"] show ?thesis
    by (simp add: newStore_def of_workspace_def)
qed

text \<open>Two machines of one workspace that saw the same row cannot both move it: once the first has
  moved it elsewhere, the second is refused with the row it would have to start from, and neither
  its own state nor the store changes.\<close>

theorem concurrent_transition_lost:
  assumes "machine_transition (\<lambda>w f t. store_apply now w f t reason p) a (m, s) = (Inr u, (m1, s1))"
    and "workspaceId n = workspaceId m" "current n = current m" "a \<noteq> current m"
  shows "machine_transition (\<lambda>w f t. store_apply now' w f t reason' p') b (n, s1)
           = (Inl (throw_new (IllegalTransitionError (if canTransition (current n) b then a else current n) b)),
              (n, s1))"
proof -
  have "store_row s1 (workspaceId n) = a"
    by (cases rule: mem.transition_cases [OF assms(1)]) (simp_all add: assms)
  with assms show ?thesis
    by (simp add: machine_transition_def assertTransition_def store_apply_conflict)
qed

theorem concurrent_transition_lost_witness:
  "fst (machine_transition (\<lambda>w f t. store_apply 7 w f t None None) STOPPING
      (\<lparr>workspaceId = ''w'', current = READY\<rparr>,
       snd (store_apply 5 ''w'' READY BUSY None None (newStore [(''w'', READY)]
              :: unit InMemoryTransactionalStore))))
   = Inl (throw_new (IllegalTransitionError BUSY STOPPING))"
  using concurrent_transition_lost [of 5 None None BUSY "\<lparr>workspaceId = ''w'', current = READY\<rparr>"
      "newStore [(''w'', READY)] :: unit InMemoryTransactionalStore" "()"
      "\<lparr>workspaceId = ''w'', current = BUSY\<rparr>"
      "snd (store_apply 5 ''w'' READY BUSY None None (newStore [(''w'', READY)]))"
      "\<lparr>workspaceId = ''w'', current = READY\<rparr>" 7 None None STOPPING]
  by (simp add: machine_transition_def assertTransition_def store_apply_def newStore_def)

end
