(* ===== verification/Idle.thy ===== *)
theory Idle
  imports Prelude
begin

text \<open>
  The idle manager (\<open>packages/workspace-runtime/src/idle.ts\<close>): which activities extend the idle
  timer and when a stop may be proposed. Times are integer milliseconds from the injected clock.
\<close>

definition IDLE_TIMEOUT_MS :: int where
  "IDLE_TIMEOUT_MS = 30 * 60 * 1000"

datatype ActivityKind =
    user_message | approval | agent_turn | tool_invocation | subprocess | filesystem_mutation
  | checkpoint | workspace_operation
  | health_check | sse_heartbeat | browser_connection | status_polling | metrics_collection

definition MEANINGFUL_ACTIVITIES :: "ActivityKind list" where
  "MEANINGFUL_ACTIVITIES =
     [user_message, approval, agent_turn, tool_invocation, subprocess, filesystem_mutation,
      checkpoint, workspace_operation]"

definition NON_MEANINGFUL_ACTIVITIES :: "ActivityKind list" where
  "NON_MEANINGFUL_ACTIVITIES =
     [health_check, sse_heartbeat, browser_connection, status_polling, metrics_collection]"

definition isMeaningfulActivity :: "ActivityKind \<Rightarrow> bool" where
  "isMeaningfulActivity k \<longleftrightarrow> k \<in> set MEANINGFUL_ACTIVITIES"

definition isNonMeaningfulActivity :: "ActivityKind \<Rightarrow> bool" where
  "isNonMeaningfulActivity k \<longleftrightarrow> k \<in> set NON_MEANINGFUL_ACTIVITIES"

record IdleManager =
  lastMeaningfulActivityAtMs :: "int option"
  agentRunning :: bool
  subprocessRunning :: bool
  checkpointRunning :: bool

definition newIdleManager :: IdleManager where
  "newIdleManager = \<lparr>lastMeaningfulActivityAtMs = None, agentRunning = False,
     subprocessRunning = False, checkpointRunning = False\<rparr>"

definition idle_recordActivity :: "int \<Rightarrow> ActivityKind \<Rightarrow> IdleManager \<Rightarrow> IdleManager" where
  "idle_recordActivity now k i =
     (if \<not> isMeaningfulActivity k then i else i\<lparr>lastMeaningfulActivityAtMs := Some now\<rparr>)"

definition setAgentRunning :: "bool \<Rightarrow> IdleManager \<Rightarrow> IdleManager" where
  "setAgentRunning b i = i\<lparr>agentRunning := b\<rparr>"

definition setSubprocessRunning :: "bool \<Rightarrow> IdleManager \<Rightarrow> IdleManager" where
  "setSubprocessRunning b i = i\<lparr>subprocessRunning := b\<rparr>"

definition setCheckpointRunning :: "bool \<Rightarrow> IdleManager \<Rightarrow> IdleManager" where
  "setCheckpointRunning b i = i\<lparr>checkpointRunning := b\<rparr>"

definition getIdleMs :: "int \<Rightarrow> IdleManager \<Rightarrow> int option" where
  "getIdleMs now i =
     (case lastMeaningfulActivityAtMs i of None \<Rightarrow> None | Some at \<Rightarrow> Some (now - at))"

definition shouldStop :: "int \<Rightarrow> IdleManager \<Rightarrow> bool" where
  "shouldStop now i =
     (case getIdleMs now i of
        None \<Rightarrow> False
      | Some idleMs \<Rightarrow>
          if idleMs < IDLE_TIMEOUT_MS then False
          else \<not> agentRunning i \<and> \<not> subprocessRunning i \<and> \<not> checkpointRunning i)"

lemmas idle_defs = idle_recordActivity_def setAgentRunning_def setSubprocessRunning_def
  setCheckpointRunning_def getIdleMs_def shouldStop_def

lemma idle_record_flags [simp]:
  "agentRunning (idle_recordActivity now k i) = agentRunning i"
  "subprocessRunning (idle_recordActivity now k i) = subprocessRunning i"
  "checkpointRunning (idle_recordActivity now k i) = checkpointRunning i"
  by (simp_all add: idle_recordActivity_def)

lemma set_running_simps [simp]:
  "agentRunning (setAgentRunning b i) = b"
  "subprocessRunning (setAgentRunning b i) = subprocessRunning i"
  "checkpointRunning (setAgentRunning b i) = checkpointRunning i"
  "agentRunning (setSubprocessRunning b i) = agentRunning i"
  "subprocessRunning (setSubprocessRunning b i) = b"
  "checkpointRunning (setSubprocessRunning b i) = checkpointRunning i"
  "agentRunning (setCheckpointRunning b i) = agentRunning i"
  "subprocessRunning (setCheckpointRunning b i) = subprocessRunning i"
  "checkpointRunning (setCheckpointRunning b i) = b"
  by (simp_all add: idle_defs)

text \<open>The two lists split the kinds: each kind is in exactly one of them.\<close>

lemma activity_partition: "isMeaningfulActivity k \<longleftrightarrow> \<not> isNonMeaningfulActivity k"
  by (cases k) (simp_all add: isMeaningfulActivity_def isNonMeaningfulActivity_def
    MEANINGFUL_ACTIVITIES_def NON_MEANINGFUL_ACTIVITIES_def)

section \<open>The idle timer over a sequence of reports\<close>

datatype idle_event =
    Activity ActivityKind | AgentRunning bool | SubprocessRunning bool | CheckpointRunning bool

fun idle_step :: "int \<times> idle_event \<Rightarrow> IdleManager \<Rightarrow> IdleManager" where
  "idle_step (t, Activity k) i = idle_recordActivity t k i"
| "idle_step (t, AgentRunning b) i = setAgentRunning b i"
| "idle_step (t, SubprocessRunning b) i = setSubprocessRunning b i"
| "idle_step (t, CheckpointRunning b) i = setCheckpointRunning b i"

definition idle_run :: "(int \<times> idle_event) list \<Rightarrow> IdleManager \<Rightarrow> IdleManager" where
  "idle_run es i = fold idle_step es i"

text \<open>The times at which the idle timer was reset in a list of reports.\<close>

fun meaningful_time :: "int \<times> idle_event \<Rightarrow> bool" where
  "meaningful_time (t, Activity k) = isMeaningfulActivity k"
| "meaningful_time (t, _) = False"

lemma idle_run_last:
  "lastMeaningfulActivityAtMs (idle_run es i) =
     (case filter meaningful_time es of
        [] \<Rightarrow> lastMeaningfulActivityAtMs i
      | ms \<Rightarrow> Some (fst (last ms)))"
proof (induction es rule: rev_induct)
  case Nil
  show ?case by (simp add: idle_run_def)
next
  case (snoc e es)
  obtain t ev where e: "e = (t, ev)" by fastforce
  from snoc show ?case
    by (cases ev) (auto simp: e idle_run_def idle_defs split: list.splits)
qed

text \<open>The last value reported for a flag; it is off before the first report.\<close>

definition last_report :: "(idle_event \<Rightarrow> bool option) \<Rightarrow> (int \<times> idle_event) list \<Rightarrow> bool" where
  "last_report sel es = (let bs = List.map_filter (sel \<circ> snd) es in bs \<noteq> [] \<and> last bs)"

fun agent_report :: "idle_event \<Rightarrow> bool option" where
  "agent_report (AgentRunning b) = Some b" | "agent_report _ = None"

fun subprocess_report :: "idle_event \<Rightarrow> bool option" where
  "subprocess_report (SubprocessRunning b) = Some b" | "subprocess_report _ = None"

fun checkpoint_report :: "idle_event \<Rightarrow> bool option" where
  "checkpoint_report (CheckpointRunning b) = Some b" | "checkpoint_report _ = None"

lemma last_report_snoc:
  "last_report sel (es @ [e]) = (case sel (snd e) of None \<Rightarrow> last_report sel es | Some b \<Rightarrow> b)"
  by (simp add: last_report_def Let_def map_filter_def split: option.splits)

lemma idle_run_snoc: "idle_run (es @ [e]) i = idle_step e (idle_run es i)"
  by (simp add: idle_run_def)

lemma snoc_split:
  "es @ [e] = pre @ x # post \<longleftrightarrow>
     (post = [] \<and> es = pre \<and> e = x) \<or> (\<exists>post'. post = post' @ [e] \<and> es = pre @ x # post')"
  by (cases post rule: rev_cases) auto

lemma idle_run_flags:
  "agentRunning (idle_run es newIdleManager) = last_report agent_report es"
  "subprocessRunning (idle_run es newIdleManager) = last_report subprocess_report es"
  "checkpointRunning (idle_run es newIdleManager) = last_report checkpoint_report es"
proof (induction es rule: rev_induct)
  case Nil
  {
    case 1 show ?case by (simp add: idle_run_def newIdleManager_def last_report_def map_filter_def)
  next
    case 2 show ?case by (simp add: idle_run_def newIdleManager_def last_report_def map_filter_def)
  next
    case 3 show ?case by (simp add: idle_run_def newIdleManager_def last_report_def map_filter_def)
  }
next
  case (snoc e es)
  obtain t ev where e: "e = (t, ev)" by fastforce
  {
    case 1 show ?case using snoc by (cases ev) (simp_all add: idle_run_snoc e last_report_snoc)
  next
    case 2 show ?case using snoc by (cases ev) (simp_all add: idle_run_snoc e last_report_snoc)
  next
    case 3 show ?case using snoc by (cases ev) (simp_all add: idle_run_snoc e last_report_snoc)
  }
qed

lemma idle_run_at:
  "lastMeaningfulActivityAtMs (idle_run es newIdleManager) = Some t \<longleftrightarrow>
     (\<exists>pre k post. es = pre @ (t, Activity k) # post \<and> isMeaningfulActivity k
        \<and> filter meaningful_time post = [])"
proof (induction es rule: rev_induct)
  case Nil
  show ?case by (simp add: idle_run_def newIdleManager_def)
next
  case (snoc e es)
  obtain u ev where e: "e = (u, ev)" by fastforce
  have split: "(\<exists>pre k post. es @ [e] = pre @ (t, Activity k) # post \<and> P k post) \<longleftrightarrow>
      (\<exists>k. e = (t, Activity k) \<and> P k []) \<or>
      (\<exists>pre k post. es = pre @ (t, Activity k) # post \<and> P k (post @ [e]))" for P
    unfolding snoc_split by blast
  show ?case
  proof (cases "meaningful_time e")
    case True
    then obtain k where "ev = Activity k" "isMeaningfulActivity k" by (cases ev) (auto simp: e)
    with True show ?thesis by (subst split) (auto simp: idle_run_snoc e idle_defs)
  next
    case False
    then have "idle_step e i = i \<or> (\<exists>b. ev = AgentRunning b \<or> ev = SubprocessRunning b \<or> ev = CheckpointRunning b)" for i
      by (cases ev) (auto simp: e idle_defs)
    then have "lastMeaningfulActivityAtMs (idle_step e i) = lastMeaningfulActivityAtMs i" for i
      by (cases ev) (auto simp: e idle_defs)
    with False snoc show ?thesis by (subst split) (auto simp: idle_run_snoc e)
  qed
qed

text \<open>After any reports, a stop is proposed exactly when the last meaningful activity was at least
  thirty minutes ago and the agent, the subprocess and the checkpoint were each last reported as not
  running; health checks, heartbeats, connections, polling and metrics never count.\<close>

theorem idle_stop_exactly:
  "shouldStop now (idle_run es newIdleManager) \<longleftrightarrow>
     (\<exists>pre t k post. es = pre @ (t, Activity k) # post
        \<and> k \<notin> {health_check, sse_heartbeat, browser_connection, status_polling, metrics_collection}
        \<and> filter meaningful_time post = [] \<and> 1800000 \<le> now - t)
     \<and> \<not> last_report agent_report es \<and> \<not> last_report subprocess_report es
     \<and> \<not> last_report checkpoint_report es"
proof -
  have k: "isMeaningfulActivity k \<longleftrightarrow>
      k \<notin> {health_check, sse_heartbeat, browser_connection, status_polling, metrics_collection}" for k
    by (simp add: activity_partition isNonMeaningfulActivity_def NON_MEANINGFUL_ACTIVITIES_def)
  have "shouldStop now (idle_run es newIdleManager) \<longleftrightarrow>
      (\<exists>t. lastMeaningfulActivityAtMs (idle_run es newIdleManager) = Some t \<and> 1800000 \<le> now - t)
      \<and> \<not> last_report agent_report es \<and> \<not> last_report subprocess_report es
      \<and> \<not> last_report checkpoint_report es"
    by (auto simp: shouldStop_def getIdleMs_def IDLE_TIMEOUT_MS_def idle_run_flags split: option.splits)
  then show ?thesis unfolding idle_run_at k by blast
qed

end
