(* ===== verification/Runtime.thy ===== *)
theory Runtime
  imports State_Store Idle
begin

text \<open>
  The workspace runtime (\<open>packages/workspace-runtime/src/runtime.ts\<close>): the operation tracker, the
  two phases of open, the agent gate and the tracked operations, the graceful stop with its drain,
  the failure bookkeeping and the coalescing of concurrent calls. The collaborators the source
  injects (store, instance client, lifecycle steps, clock) are the parameter \<open>d\<close>: functions of an
  arbitrary world \<open>'w\<close>, which other processes may change at every call.
\<close>

section \<open>The operation tracker\<close>

record OperationTracker =
  pending :: int
  waiters :: "nat list"

definition newTracker :: OperationTracker where
  "newTracker = \<lparr>pending = 0, waiters = []\<rparr>"

definition tracker_begin :: "OperationTracker \<Rightarrow> OperationTracker" where
  "tracker_begin t = t\<lparr>pending := pending t + 1\<rparr>"

text \<open>\<open>end\<close> resolves the waiters when it reaches zero; it returns the ones it woke.\<close>

definition tracker_end :: "OperationTracker \<Rightarrow> nat list \<times> OperationTracker" where
  "tracker_end t =
     (let t' = t\<lparr>pending := pending t - 1\<rparr> in
      if pending t' = 0 then (waiters t', t'\<lparr>waiters := []\<rparr>) else ([], t'))"

text \<open>\<open>waitAll\<close> of the caller \<open>i\<close>: True when it returns at once, otherwise the caller is queued.\<close>

definition tracker_waitAll :: "nat \<Rightarrow> OperationTracker \<Rightarrow> bool \<times> OperationTracker" where
  "tracker_waitAll i t =
     (if pending t = 0 then (True, t) else (False, t\<lparr>waiters := waiters t @ [i]\<rparr>))"

section \<open>Collaborators and the runtime's own state\<close>

datatype lifecycle_step =
    cloneRepository | checkoutBase | restoreCheckpoint | createSandbox | restoreHarness
  | runLifecycleCheckpoint | flushSessionPersistence | deleteSandbox

record 'w WorkspaceRuntimeDeps =
  d_load :: "string \<Rightarrow> ('w, thrown, runtime_state option) comp"
  d_apply :: "string \<Rightarrow> runtime_state \<Rightarrow> runtime_state \<Rightarrow> string \<Rightarrow> ('w, thrown, unit) comp"
  d_instanceStart :: "('w, thrown, unit) comp"
  d_instanceStop :: "('w, thrown, unit) comp"
  d_step :: "lifecycle_step \<Rightarrow> ('w, thrown, unit) comp"
  d_nowMs :: "'w \<Rightarrow> int"

text \<open>
  The world is kept with the list of calls made to the collaborators so far, in order and each
  with whether it returned: an observation of the model, on which the properties about what is
  called, and when, are stated.
\<close>

datatype call = CLoad | CApply runtime_state runtime_state string | CStart | CStop | CStep lifecycle_step

record 'w traced =
  wd :: 'w
  calls :: "(call \<times> bool) list"

definition traced :: "call \<Rightarrow> ('w, thrown, 'a) comp \<Rightarrow> ('w traced, thrown, 'a) comp" where
  "traced c f = (\<lambda>t. case f (wd t) of (r, w) \<Rightarrow> (r, \<lparr>wd = w, calls = calls t @ [(c, isOk r)]\<rparr>))"

datatype opkind = ToolInvocation | Subprocess | CheckpointOp

record 'w runtime =
  machine :: WorkspaceStateMachine
  tracker :: OperationTracker
  lastError :: "thrown option"
  agentTurnActive :: bool
  idle :: IdleManager
  inflight :: "opkind list"
  env :: "'w traced"

definition newRuntime :: "string \<Rightarrow> 'w \<Rightarrow> 'w runtime" where
  "newRuntime w world = \<lparr>machine = newMachine w, tracker = newTracker, lastError = None,
     agentTurnActive = False, idle = newIdleManager, inflight = [],
     env = \<lparr>wd = world, calls = []\<rparr>\<rparr>"

definition getState :: "'w runtime \<Rightarrow> runtime_state" where
  "getState s = current (machine s)"

definition rt_calls :: "'w runtime \<Rightarrow> (call \<times> bool) list" where
  "rt_calls s = calls (env s)"

definition onMachine ::
  "(WorkspaceStateMachine \<times> 'w traced, thrown, 'a) comp \<Rightarrow> ('w runtime, thrown, 'a) comp" where
  "onMachine f = (\<lambda>s. case f (machine s, env s) of (r, (m, t)) \<Rightarrow> (r, s\<lparr>machine := m, env := t\<rparr>))"

definition collaborator :: "call \<Rightarrow> ('w, thrown, 'a) comp \<Rightarrow> ('w runtime, thrown, 'a) comp" where
  "collaborator c f = (\<lambda>s. case traced c f (env s) of (r, t) \<Rightarrow> (r, s\<lparr>env := t\<rparr>))"

definition reloadState :: "'w WorkspaceRuntimeDeps \<Rightarrow> ('w runtime, thrown, runtime_state) comp" where
  "reloadState d = onMachine (machine_reload (\<lambda>w. traced CLoad (d_load d w)))"

definition transition ::
  "'w WorkspaceRuntimeDeps \<Rightarrow> runtime_state \<Rightarrow> string \<Rightarrow> ('w runtime, thrown, unit) comp" where
  "transition d to reason =
     onMachine (machine_transition (\<lambda>w f t. traced (CApply f t reason) (d_apply d w f t reason)) to)"

definition rt_recordActivity ::
  "'w WorkspaceRuntimeDeps \<Rightarrow> ActivityKind \<Rightarrow> ('w runtime, thrown, unit) comp" where
  "rt_recordActivity d k =
     modifyC (\<lambda>s. s\<lparr>idle := idle_recordActivity (d_nowMs d (wd (env s))) k (idle s)\<rparr>)"

definition setLastError :: "thrown option \<Rightarrow> ('w runtime, thrown, unit) comp" where
  "setLastError e = modifyC (\<lambda>s. s\<lparr>lastError := e\<rparr>)"

section \<open>Failure bookkeeping\<close>

text \<open>
  A failing bookkeeping transition becomes the \<open>cause\<close> of the original error, but only an
  IllegalTransitionError, and only where no cause is set yet.
\<close>

fun attachCause :: "thrown \<Rightarrow> thrown \<Rightarrow> thrown" where
  "attachCause (Error k None) (Error (IllegalTransitionError f t) c) =
     Error k (Some (IllegalTransitionError f t))"
| "attachCause e b = e"

definition recordFailureStateBestEffort ::
  "'w WorkspaceRuntimeDeps \<Rightarrow> thrown \<Rightarrow> runtime_state \<Rightarrow> string \<Rightarrow> ('w runtime, thrown, thrown) comp" where
  "recordFailureStateBestEffort d originalError to reason =
     catchC
       (thenC (reloadState d)
         (bindC (getC (\<lambda>s. machine_canTransition (machine s) to)) (\<lambda>ok.
            if \<not> ok then ret originalError
            else thenC (transition d to reason) (ret originalError))))
       (\<lambda>bookkeepingError. ret (attachCause originalError bookkeepingError))"

text \<open>
  The catch blocks of open and stop: remember the error, do the bookkeeping. The cause is set on
  the error object itself, which \<open>lastError\<close> points to.
\<close>

definition noteFailure ::
  "'w WorkspaceRuntimeDeps \<Rightarrow> thrown \<Rightarrow> runtime_state \<Rightarrow> string \<Rightarrow> ('w runtime, thrown, thrown) comp" where
  "noteFailure d e to reason =
     thenC (setLastError (Some e))
       (bindC (recordFailureStateBestEffort d e to reason) (\<lambda>e'.
          thenC (setLastError (Some e')) (ret e')))"

definition failWith ::
  "'w WorkspaceRuntimeDeps \<Rightarrow> thrown \<Rightarrow> runtime_state \<Rightarrow> string \<Rightarrow> ('w runtime, thrown, 'a) comp" where
  "failWith d e to reason = bindC (noteFailure d e to reason) throwC"

section \<open>Open\<close>

definition OPENABLE_STATES :: "runtime_state list" where
  "OPENABLE_STATES = [STOPPED, RESTORE_FAILED, ERROR, CHECKPOINT_FAILED]"

definition RESTORABLE_STATES :: "runtime_state list" where
  "RESTORABLE_STATES = [STARTING, RESTORING, RESTORE_FAILED, ERROR, CHECKPOINT_FAILED]"

definition doStartInstancePhase ::
  "'w WorkspaceRuntimeDeps \<Rightarrow> ('w runtime, thrown, runtime_state) comp" where
  "doStartInstancePhase d =
     bindC (reloadState d) (\<lambda>st.
       if st = READY then ret st
       else if st \<notin> set OPENABLE_STATES then throwC (throw_new (InvalidOperationError ''open'' st))
       else thenC (transition d STARTING ''open'')
         (catchC (thenC (collaborator CStart (d_instanceStart d)) (getC getState))
           (\<lambda>e. failWith d e RESTORE_FAILED ''restore-failed'')))"

definition restoreSteps :: "lifecycle_step list" where
  "restoreSteps = [cloneRepository, checkoutBase, restoreCheckpoint, createSandbox, restoreHarness]"

definition runSteps ::
  "'w WorkspaceRuntimeDeps \<Rightarrow> lifecycle_step list \<Rightarrow> ('w runtime, thrown, unit) comp" where
  "runSteps d steps = seqC (map (\<lambda>x. collaborator (CStep x) (d_step d x)) steps)"

definition doCompleteRestorePhase ::
  "'w WorkspaceRuntimeDeps \<Rightarrow> ('w runtime, thrown, runtime_state) comp" where
  "doCompleteRestorePhase d =
     bindC (reloadState d) (\<lambda>st.
       if st = READY then ret st
       else if st \<notin> set RESTORABLE_STATES then throwC (throw_new (InvalidOperationError ''open'' st))
       else catchC
         (thenC (if st \<noteq> STARTING \<and> st \<noteq> RESTORING then transition d STARTING ''open'' else ret ())
         (bindC (getC getState) (\<lambda>st'.
          thenC (if st' = STARTING then transition d RESTORING ''instance-healthy'' else ret ())
         (thenC (runSteps d restoreSteps)
         (thenC (transition d READY ''restore-complete'')
         (thenC (setLastError None)
         (thenC (rt_recordActivity d workspace_operation)
         (getC getState))))))))
         (\<lambda>e. failWith d e RESTORE_FAILED ''restore-failed''))"

definition doOpen :: "'w WorkspaceRuntimeDeps \<Rightarrow> ('w runtime, thrown, runtime_state) comp" where
  "doOpen d = thenC (doStartInstancePhase d) (doCompleteRestorePhase d)"

section \<open>Agent turns and tracked operations\<close>

definition assertAgentInputAllowed :: "'w WorkspaceRuntimeDeps \<Rightarrow> ('w runtime, thrown, unit) comp" where
  "assertAgentInputAllowed d =
     bindC (reloadState d) (\<lambda>st.
       if \<not> isAgentInputAllowed st then throwC (throw_new (AgentInputRefusedError st)) else ret ())"

definition beginOperation :: "('w runtime, thrown, unit) comp" where
  "beginOperation = modifyC (\<lambda>s. s\<lparr>tracker := tracker_begin (tracker s)\<rparr>)"

definition endOperation :: "('w runtime, thrown, unit) comp" where
  "endOperation = modifyC (\<lambda>s. s\<lparr>tracker := snd (tracker_end (tracker s))\<rparr>)"

definition beginAgentTurn :: "'w WorkspaceRuntimeDeps \<Rightarrow> ('w runtime, thrown, unit) comp" where
  "beginAgentTurn d =
     thenC (assertAgentInputAllowed d)
       (bindC (getC getState) (\<lambda>st.
          if st \<noteq> READY then throwC (throw_new (InvalidOperationError ''beginAgentTurn'' st))
          else thenC (transition d BUSY ''agent-turn-start'')
            (thenC (modifyC (\<lambda>s. s\<lparr>agentTurnActive := True\<rparr>))
            (thenC beginOperation
            (thenC (modifyC (\<lambda>s. s\<lparr>idle := setAgentRunning True (idle s)\<rparr>))
            (rt_recordActivity d agent_turn))))))"

definition endAgentTurn :: "'w WorkspaceRuntimeDeps \<Rightarrow> ('w runtime, thrown, unit) comp" where
  "endAgentTurn d =
     bindC (getC (\<lambda>s. (agentTurnActive s, getState s))) (\<lambda>(active, st).
       if \<not> active then throwC (throw_new (InvalidOperationError ''endAgentTurn'' st))
       else thenC
         (if st = BUSY then transition d READY ''agent-turn-complete''
          else if st \<noteq> STOPPING then throwC (throw_new (InvalidOperationError ''endAgentTurn'' st))
          else ret ())
         (thenC (modifyC (\<lambda>s. s\<lparr>agentTurnActive := False\<rparr>))
         (thenC endOperation
         (thenC (modifyC (\<lambda>s. s\<lparr>idle := setAgentRunning False (idle s)\<rparr>))
         (rt_recordActivity d agent_turn)))))"

text \<open>
  \<open>runToolInvocation\<close>, \<open>runSubprocess\<close> and \<open>runCheckpoint\<close> run a caller's function between two
  synchronous parts, and anything may happen while it runs. So each is two operations here: the
  part before the function, and the part after it settled (\<open>ok\<close>: it returned). \<open>inflight\<close> lists
  the functions that are running, an observation of the model.
\<close>

fun beginTracked :: "'w WorkspaceRuntimeDeps \<Rightarrow> opkind \<Rightarrow> ('w runtime, thrown, unit) comp" where
  "beginTracked d ToolInvocation =
     thenC (assertAgentInputAllowed d)
       (thenC (rt_recordActivity d tool_invocation)
       (thenC beginOperation
       (modifyC (\<lambda>s. s\<lparr>inflight := ToolInvocation # inflight s\<rparr>))))"
| "beginTracked d Subprocess =
     thenC (assertAgentInputAllowed d)
       (thenC (rt_recordActivity d subprocess)
       (thenC (modifyC (\<lambda>s. s\<lparr>idle := setSubprocessRunning True (idle s)\<rparr>))
       (thenC beginOperation
       (modifyC (\<lambda>s. s\<lparr>inflight := Subprocess # inflight s\<rparr>)))))"
| "beginTracked d CheckpointOp =
     thenC (assertAgentInputAllowed d)
       (thenC (modifyC (\<lambda>s. s\<lparr>idle := setCheckpointRunning True (idle s)\<rparr>))
       (thenC beginOperation
       (modifyC (\<lambda>s. s\<lparr>inflight := CheckpointOp # inflight s\<rparr>))))"

fun afterTracked :: "'w WorkspaceRuntimeDeps \<Rightarrow> opkind \<Rightarrow> bool \<Rightarrow> ('w runtime, thrown, unit) comp" where
  "afterTracked d ToolInvocation ok = ret ()"
| "afterTracked d Subprocess ok = modifyC (\<lambda>s. s\<lparr>idle := setSubprocessRunning False (idle s)\<rparr>)"
| "afterTracked d CheckpointOp ok =
     thenC (if ok then rt_recordActivity d checkpoint else ret ())
       (modifyC (\<lambda>s. s\<lparr>idle := setCheckpointRunning False (idle s)\<rparr>))"

definition endTracked :: "'w WorkspaceRuntimeDeps \<Rightarrow> opkind \<Rightarrow> bool \<Rightarrow> ('w runtime, thrown, unit) comp" where
  "endTracked d k ok =
     bindC (getC inflight) (\<lambda>running.
       if k \<notin> set running then ret ()
       else thenC (modifyC (\<lambda>s. s\<lparr>inflight := remove1 k (inflight s)\<rparr>))
         (thenC endOperation (afterTracked d k ok)))"

section \<open>What the other tasks do while a stop waits\<close>

datatype rt_event = BeginTurn | EndTurn | BeginOp opkind | EndOp opkind bool

fun rt_step :: "'w WorkspaceRuntimeDeps \<Rightarrow> rt_event \<Rightarrow> 'w runtime \<Rightarrow> 'w runtime" where
  "rt_step d BeginTurn s = snd (beginAgentTurn d s)"
| "rt_step d EndTurn s = snd (endAgentTurn d s)"
| "rt_step d (BeginOp k) s = snd (beginTracked d k s)"
| "rt_step d (EndOp k ok) s = snd (endTracked d k ok s)"

definition rt_run :: "'w WorkspaceRuntimeDeps \<Rightarrow> rt_event list \<Rightarrow> 'w runtime \<Rightarrow> 'w runtime" where
  "rt_run d es s = fold (rt_step d) es s"

text \<open>
  \<open>waitAll\<close>: the waiter is resolved when the count reaches zero. The other tasks' events are
  consumed until then; None when they run out first, that is, when the wait never ends.
\<close>

fun drain :: "'w WorkspaceRuntimeDeps \<Rightarrow> rt_event list \<Rightarrow> 'w runtime \<Rightarrow> 'w runtime option" where
  "drain d [] s = (if pending (tracker s) = 0 then Some s else None)"
| "drain d (e # es) s = (if pending (tracker s) = 0 then Some s else drain d es (rt_step d e s))"

section \<open>Graceful stop\<close>

definition canStopFrom :: "runtime_state \<Rightarrow> bool" where
  "canStopFrom st \<longleftrightarrow> st \<in> set [READY, BUSY, CHECKPOINTING, ERROR, CHECKPOINT_FAILED, RESTORE_FAILED]"

text \<open>The part of \<open>doPrepareStop\<close> before the wait: Some when it returns already.\<close>

definition prepareStopEnter ::
  "'w WorkspaceRuntimeDeps \<Rightarrow> ('w runtime, thrown, runtime_state option) comp" where
  "prepareStopEnter d =
     bindC (reloadState d) (\<lambda>st.
       if st = STOPPED then ret (Some st)
       else if st \<noteq> STOPPING \<and> \<not> canStopFrom st
       then throwC (throw_new (InvalidOperationError ''stop'' st))
       else thenC (if st \<noteq> STOPPING then transition d STOPPING ''graceful-stop'' else ret ())
         (ret None))"

text \<open>The part after the wait: checkpoint, then flush and sandbox delete.\<close>

definition prepareStopFinish ::
  "'w WorkspaceRuntimeDeps \<Rightarrow> ('w runtime, thrown, runtime_state) comp" where
  "prepareStopFinish d =
     bindC
       (catchC
         (thenC (collaborator (CStep runLifecycleCheckpoint) (d_step d runLifecycleCheckpoint))
           (thenC (rt_recordActivity d checkpoint) (ret True)))
         (\<lambda>e. thenC (noteFailure d e CHECKPOINT_FAILED ''lifecycle-checkpoint-failed'') (ret False)))
       (\<lambda>ok. if \<not> ok then getC getState
             else thenC
               (catchC (runSteps d [flushSessionPersistence, deleteSandbox])
                 (\<lambda>e. failWith d e ERROR ''graceful-stop-failed''))
               (getC getState))"

definition doPrepareStop ::
  "'w WorkspaceRuntimeDeps \<Rightarrow> rt_event list \<Rightarrow> 'w runtime
   \<Rightarrow> ((thrown + runtime_state) \<times> 'w runtime) option" where
  "doPrepareStop d es s =
     (case prepareStopEnter d s of
        (Inl e, s1) \<Rightarrow> Some (Inl e, s1)
      | (Inr (Some st), s1) \<Rightarrow> Some (Inr st, s1)
      | (Inr None, s1) \<Rightarrow>
          (case drain d es s1 of None \<Rightarrow> None | Some s2 \<Rightarrow> Some (prepareStopFinish d s2)))"

definition doStopAfterPrepare ::
  "'w WorkspaceRuntimeDeps \<Rightarrow> runtime_state \<Rightarrow> ('w runtime, thrown, runtime_state) comp" where
  "doStopAfterPrepare d prepared =
     (if prepared = CHECKPOINT_FAILED then ret prepared
      else if prepared = STOPPED then ret prepared
      else thenC
        (catchC (collaborator CStop (d_instanceStop d))
          (\<lambda>e. failWith d e ERROR ''graceful-stop-failed''))
        (thenC (transition d STOPPED ''graceful-stop-complete'') (getC getState)))"

definition doStop ::
  "'w WorkspaceRuntimeDeps \<Rightarrow> rt_event list \<Rightarrow> 'w runtime
   \<Rightarrow> ((thrown + runtime_state) \<times> 'w runtime) option" where
  "doStop d es s =
     (case doPrepareStop d es s of
        None \<Rightarrow> None
      | Some (Inl e, s1) \<Rightarrow> Some (Inl e, s1)
      | Some (Inr prepared, s1) \<Rightarrow> Some (doStopAfterPrepare d prepared s1))"

definition maybeStopForIdle ::
  "'w WorkspaceRuntimeDeps \<Rightarrow> rt_event list \<Rightarrow> 'w runtime \<Rightarrow> ((thrown + bool) \<times> 'w runtime) option" where
  "maybeStopForIdle d es s =
     (if getState s \<noteq> READY then Some (Inr False, s)
      else if \<not> shouldStop (d_nowMs d (wd (env s))) (idle s) then Some (Inr False, s)
      else (case doStop d es s of
              None \<Rightarrow> None
            | Some (Inl e, s1) \<Rightarrow> Some (Inl e, s1)
            | Some (Inr _, s1) \<Rightarrow> Some (Inr True, s1)))"

lemmas runtime_op_defs = reloadState_def transition_def rt_recordActivity_def setLastError_def
  beginOperation_def endOperation_def

end
