(* ===== verification/Runtime_Trace.thy ===== *)
theory Runtime_Trace
  imports Runtime
begin

text \<open>
  What the runtime asks of its collaborators, for any collaborators: a small logic of the calls a
  computation makes, and the facts about open and stop that follow from it.
\<close>

section \<open>The calls a computation makes\<close>

text \<open>\<open>emits m P\<close>: a run of \<open>m\<close> appends some calls \<open>cs\<close> and ends with a result \<open>r\<close> such that \<open>P r cs\<close>.\<close>

definition emits ::
  "('w runtime, thrown, 'a) comp \<Rightarrow> (thrown + 'a \<Rightarrow> (call \<times> bool) list \<Rightarrow> bool) \<Rightarrow> bool" where
  "emits m P \<longleftrightarrow> (\<forall>s. \<exists>cs. rt_calls (snd (m s)) = rt_calls s @ cs \<and> P (fst (m s)) cs)"

lemma emits_weaken: "emits m Q \<Longrightarrow> (\<And>r cs. Q r cs \<Longrightarrow> P r cs) \<Longrightarrow> emits m P"
  unfolding emits_def by blast

lemma emitsD: "emits m P \<Longrightarrow> m s = (r, t) \<Longrightarrow> \<exists>cs. rt_calls t = rt_calls s @ cs \<and> P r cs"
  unfolding emits_def by (metis fst_conv snd_conv)

lemma emits_ret: "P (Inr a) [] \<Longrightarrow> emits (ret a) P"
  by (simp add: emits_def ret_def)

lemma emits_throw: "P (Inl e) [] \<Longrightarrow> emits (throwC e) P"
  by (simp add: emits_def throwC_def)

lemma emits_get: "(\<And>a. P (Inr a) []) \<Longrightarrow> emits (getC f) P"
  by (simp add: emits_def getC_def)

lemma emits_modify: "(\<And>s. rt_calls (f s) = rt_calls s) \<Longrightarrow> P (Inr ()) [] \<Longrightarrow> emits (modifyC f) P"
  by (simp add: emits_def modifyC_def)

lemma emits_bind:
  assumes m: "emits m Q"
    and thrown: "\<And>e cs. Q (Inl e) cs \<Longrightarrow> P (Inl e) cs"
    and returned: "\<And>a cs. Q (Inr a) cs \<Longrightarrow> emits (f a) (\<lambda>r ds. P r (cs @ ds))"
  shows "emits (bindC m f) P"
  unfolding emits_def
proof
  fix s
  obtain r t where run: "m s = (r, t)" by fastforce
  with m obtain cs where cs: "rt_calls t = rt_calls s @ cs" "Q r cs" by (blast dest: emitsD)
  show "\<exists>cs. rt_calls (snd (bindC m f s)) = rt_calls s @ cs \<and> P (fst (bindC m f s)) cs"
  proof (cases r)
    case (Inl e)
    with run cs thrown show ?thesis by (auto simp: bindC_def)
  next
    case (Inr a)
    obtain r' t' where run': "f a t = (r', t')" by fastforce
    with returned [of a cs] Inr cs obtain ds where "rt_calls t' = rt_calls t @ ds" "P r' (cs @ ds)"
      by (blast dest: emitsD)
    with Inr run run' cs show ?thesis by (auto simp: bindC_def)
  qed
qed

lemma emits_then:
  assumes "emits m Q" "\<And>e cs. Q (Inl e) cs \<Longrightarrow> P (Inl e) cs"
    "\<And>a cs. Q (Inr a) cs \<Longrightarrow> emits k (\<lambda>r ds. P r (cs @ ds))"
  shows "emits (thenC m k) P"
  unfolding thenC_def using assms by (rule emits_bind)

lemma emits_catch:
  assumes m: "emits m Q"
    and returned: "\<And>a cs. Q (Inr a) cs \<Longrightarrow> P (Inr a) cs"
    and thrown: "\<And>e cs. Q (Inl e) cs \<Longrightarrow> emits (h e) (\<lambda>r ds. P r (cs @ ds))"
  shows "emits (catchC m h) P"
  unfolding emits_def
proof
  fix s
  obtain r t where run: "m s = (r, t)" by fastforce
  with m obtain cs where cs: "rt_calls t = rt_calls s @ cs" "Q r cs" by (blast dest: emitsD)
  show "\<exists>cs. rt_calls (snd (catchC m h s)) = rt_calls s @ cs \<and> P (fst (catchC m h s)) cs"
  proof (cases r)
    case (Inr a)
    with run cs returned show ?thesis by (auto simp: catchC_def)
  next
    case (Inl e)
    obtain r' t' where run': "h e t = (r', t')" by fastforce
    with thrown [of e cs] Inl cs obtain ds where "rt_calls t' = rt_calls t @ ds" "P r' (cs @ ds)"
      by (blast dest: emitsD)
    with Inl run run' cs show ?thesis by (auto simp: catchC_def)
  qed
qed

section \<open>The primitive calls\<close>

lemma emits_collaborator: "emits (collaborator c f) (\<lambda>r cs. cs = [(c, isOk r)])"
  by (auto simp: emits_def collaborator_def traced_def rt_calls_def split: prod.splits)

lemma emits_reload: "emits (reloadState d) (\<lambda>r cs. cs = [(CLoad, isOk r)])"
  by (auto simp: emits_def reloadState_def onMachine_def machine_reload_def traced_def
        rt_calls_def isOk_def Let_def split: prod.splits sum.splits option.splits)

lemma emits_transition:
  "emits (transition d to reason)
     (\<lambda>r cs. cs = [] \<and> \<not> isOk r \<or> (\<exists>f. canTransition f to \<and> cs = [(CApply f to reason, isOk r)]))"
  by (auto simp: emits_def transition_def onMachine_def machine_transition_def traced_def
        assertTransition_def rt_calls_def isOk_def split: prod.splits sum.splits if_splits)

lemma emits_setLastError: "P (Inr ()) [] \<Longrightarrow> emits (setLastError e) P"
  unfolding setLastError_def by (rule emits_modify) (simp_all add: rt_calls_def)

lemma emits_recordActivity: "P (Inr ()) [] \<Longrightarrow> emits (rt_recordActivity d k) P"
  unfolding rt_recordActivity_def by (rule emits_modify) (simp_all add: rt_calls_def)

section \<open>Facts about every single call\<close>

text \<open>
  \<open>emitsAll L m\<close>: every call of every run of \<open>m\<close> satisfies \<open>L\<close>. The rules follow the structure
  of the computation; what is left are the calls themselves.
\<close>

definition emitsAll :: "(call \<times> bool \<Rightarrow> bool) \<Rightarrow> ('w runtime, thrown, 'a) comp \<Rightarrow> bool" where
  "emitsAll L m = emits m (\<lambda>r cs. \<forall>c \<in> set cs. L c)"

named_theorems emits_intros \<open>rules for the calls of a computation\<close>

lemma all_bind [emits_intros]:
  assumes "emitsAll L m" "\<And>a. emitsAll L (f a)"
  shows "emitsAll L (bindC m f)"
  using assms(1) unfolding emitsAll_def
  by (rule emits_bind) (simp_all, rule emits_weaken [OF assms(2) [unfolded emitsAll_def]], auto)

lemma all_then [emits_intros]: "emitsAll L m \<Longrightarrow> emitsAll L k \<Longrightarrow> emitsAll L (thenC m k)"
  unfolding thenC_def by (rule all_bind)

lemma all_catch [emits_intros]:
  assumes "emitsAll L m" "\<And>e. emitsAll L (h e)"
  shows "emitsAll L (catchC m h)"
  using assms(1) unfolding emitsAll_def
  by (rule emits_catch) (simp_all, rule emits_weaken [OF assms(2) [unfolded emitsAll_def]], auto)

lemma all_if [emits_intros]:
  "(b \<Longrightarrow> emitsAll L m) \<Longrightarrow> (\<not> b \<Longrightarrow> emitsAll L k) \<Longrightarrow> emitsAll L (if b then m else k)"
  by simp

lemma all_split [emits_intros]: "(\<And>a b. emitsAll L (f a b)) \<Longrightarrow> emitsAll L (case p of (a, b) \<Rightarrow> f a b)"
  by (cases p) simp

lemma all_silent [emits_intros]:
  "emitsAll L (ret a)" "emitsAll L (throwC e)" "emitsAll L (getC g)"
  "emitsAll L (setLastError le)" "emitsAll L (rt_recordActivity d k)"
  unfolding emitsAll_def
  by (auto intro: emits_ret emits_throw emits_get emits_setLastError emits_recordActivity)

lemma all_modify [emits_intros]: "(\<And>s. rt_calls (f s) = rt_calls s) \<Longrightarrow> emitsAll L (modifyC f)"
  unfolding emitsAll_def by (rule emits_modify) simp_all

lemma all_reload [emits_intros]: "(\<And>b. L (CLoad, b)) \<Longrightarrow> emitsAll L (reloadState d)"
  unfolding emitsAll_def by (rule emits_weaken [OF emits_reload]) simp

lemma all_transition [emits_intros]:
  "(\<And>f b. canTransition f to \<Longrightarrow> L (CApply f to reason, b)) \<Longrightarrow> emitsAll L (transition d to reason)"
  unfolding emitsAll_def by (rule emits_weaken [OF emits_transition]) auto

lemma all_collaborator [emits_intros]: "(\<And>b. L (c, b)) \<Longrightarrow> emitsAll L (collaborator c f)"
  unfolding emitsAll_def by (rule emits_weaken [OF emits_collaborator]) simp

lemma all_seq: "(\<And>m. m \<in> set ms \<Longrightarrow> emitsAll L m) \<Longrightarrow> emitsAll L (seqC ms)"
  by (induction ms) (auto intro: emits_intros)

lemma all_runSteps [emits_intros]:
  "(\<And>x b. x \<in> set steps \<Longrightarrow> L (CStep x, b)) \<Longrightarrow> emitsAll L (runSteps d steps)"
  unfolding runSteps_def by (rule all_seq) (auto intro: emits_intros)

lemma emitsAll_run: "emitsAll L m \<Longrightarrow> \<exists>cs. rt_calls (snd (m s)) = rt_calls s @ cs \<and> (\<forall>c \<in> set cs. L c)"
  unfolding emitsAll_def emits_def by blast

lemma rt_calls_updates [simp]:
  "rt_calls (s\<lparr>tracker := tk\<rparr>) = rt_calls s" "rt_calls (s\<lparr>idle := i\<rparr>) = rt_calls s"
  "rt_calls (s\<lparr>agentTurnActive := b\<rparr>) = rt_calls s" "rt_calls (s\<lparr>inflight := fl\<rparr>) = rt_calls s"
  "rt_calls (s\<lparr>lastError := le\<rparr>) = rt_calls s" "rt_calls (s\<lparr>machine := mm\<rparr>) = rt_calls s"
  by (simp_all add: rt_calls_def)

section \<open>The operations of the runtime\<close>

text \<open>
  For a predicate \<open>L\<close> that accepts loads and the transitions of an operation, the operation's calls
  satisfy \<open>L\<close>: one lemma per operation, from which each fact about calls is an instance.
\<close>

lemma all_noteFailure [emits_intros]:
  "(\<And>b. L (CLoad, b)) \<Longrightarrow> (\<And>f b. canTransition f to \<Longrightarrow> L (CApply f to reason, b)) \<Longrightarrow>
   emitsAll L (noteFailure d e to reason)"
  unfolding noteFailure_def recordFailureStateBestEffort_def by (intro emits_intros; simp)

lemma all_failWith [emits_intros]:
  "(\<And>b. L (CLoad, b)) \<Longrightarrow> (\<And>f b. canTransition f to \<Longrightarrow> L (CApply f to reason, b)) \<Longrightarrow>
   emitsAll L (failWith d e to reason)"
  unfolding failWith_def by (intro emits_intros; simp)

lemma all_agent:
  assumes "\<And>b. L (CLoad, b)" "\<And>f t r b. canTransition f t \<Longrightarrow> L (CApply f t r, b)"
  shows all_assert: "emitsAll L (assertAgentInputAllowed d)"
    and all_beginTurn: "emitsAll L (beginAgentTurn d)"
    and all_endTurn: "emitsAll L (endAgentTurn d)"
    and all_beginTracked: "emitsAll L (beginTracked d k)"
    and all_endTracked: "emitsAll L (endTracked d k ok)"
proof -
  show a: "emitsAll L (assertAgentInputAllowed d)"
    unfolding assertAgentInputAllowed_def by (intro emits_intros; simp add: assms)
  show "emitsAll L (beginAgentTurn d)"
    unfolding beginAgentTurn_def beginOperation_def by (intro emits_intros a; simp add: assms)
  show "emitsAll L (endAgentTurn d)"
    unfolding endAgentTurn_def endOperation_def by (intro emits_intros; simp add: assms)
  show "emitsAll L (beginTracked d k)"
    by (cases k; simp add: beginOperation_def; intro emits_intros a; simp add: assms)
  have "emitsAll L (afterTracked d k ok)"
    by (cases k; simp; intro conjI impI emits_intros; simp)
  then show "emitsAll L (endTracked d k ok)"
    unfolding endTracked_def endOperation_def by (intro emits_intros; simp)
qed

section \<open>Every transition asked of the store is an edge of the table\<close>

fun legalCall :: "call \<times> bool \<Rightarrow> bool" where
  "legalCall (CApply f t reason, b) = canTransition f t"
| "legalCall (c, b) = True"

lemma legal_phases:
  "emitsAll legalCall (doStartInstancePhase d)" "emitsAll legalCall (doCompleteRestorePhase d)"
  "emitsAll legalCall (prepareStopEnter d)" "emitsAll legalCall (prepareStopFinish d)"
  "emitsAll legalCall (doStopAfterPrepare d st)"
  unfolding doStartInstancePhase_def doCompleteRestorePhase_def prepareStopEnter_def
    prepareStopFinish_def doStopAfterPrepare_def
  by (intro emits_intros; simp)+

lemma legal_step: "\<exists>cs. rt_calls (rt_step d e s) = rt_calls s @ cs \<and> (\<forall>c \<in> set cs. legalCall c)"
proof (cases e)
  case BeginTurn
  then show ?thesis by (simp add: emitsAll_run all_beginTurn)
next
  case EndTurn
  then show ?thesis by (simp add: emitsAll_run all_endTurn)
next
  case (BeginOp k)
  then show ?thesis by (simp add: emitsAll_run all_beginTracked)
next
  case (EndOp k ok)
  then show ?thesis by (simp add: emitsAll_run all_endTracked)
qed

end
