(* ===== verification/Runtime_World.thy ===== *)
theory Runtime_World
  imports Runtime_Trace
begin

text \<open>
  The runtime over the in-memory store: a concrete world in which every collaborator is a function
  of a script of failures, the behaviour of load and transition in it, and what each operation does
  to the row, to the calls and to its result.
\<close>

section \<open>The world\<close>

text \<open>
  The world holds the shared store, the clock and, for every call, the error it throws, if any.
  The lifecycle steps themselves do not touch the row.
\<close>

record world =
  sstore :: "unit InMemoryTransactionalStore"
  clock :: int
  fails :: "call \<Rightarrow> thrown option"

definition scripted :: "call \<Rightarrow> (world, thrown, 'a) comp \<Rightarrow> (world, thrown, 'a) comp" where
  "scripted c f = (\<lambda>x. case fails x c of Some e \<Rightarrow> (Inl e, x) | None \<Rightarrow> f x)"

definition world_apply ::
  "string \<Rightarrow> runtime_state \<Rightarrow> runtime_state \<Rightarrow> string \<Rightarrow> (world, thrown, unit) comp" where
  "world_apply w f t reason =
     scripted (CApply f t reason)
       (\<lambda>x. case store_apply (clock x) w f t (Some reason) None (sstore x) of
              (r, st) \<Rightarrow> (r, x\<lparr>sstore := st\<rparr>))"

definition world_deps :: "world WorkspaceRuntimeDeps" where
  "world_deps =
     \<lparr>d_load = (\<lambda>w. scripted CLoad (\<lambda>x. (Inr (store_load w (sstore x)), x))),
      d_apply = world_apply,
      d_instanceStart = scripted CStart (ret ()),
      d_instanceStop = scripted CStop (ret ()),
      d_step = (\<lambda>y. scripted (CStep y) (ret ())),
      d_nowMs = clock\<rparr>"

interpretation world_store: transactional_store
    "d_load world_deps" "\<lambda>w f t. d_apply world_deps w f t reason" "\<lambda>x. store_row (sstore x)"
proof
  fix w x x' st f t u e and r :: "thrown + runtime_state option"
  show "d_load world_deps w x = (Inr (Some st), x') \<Longrightarrow> store_row (sstore x) w = st"
    by (auto simp: world_deps_def scripted_def store_load_def store_row_def split: option.splits)
  show "d_load world_deps w x = (Inr None, x') \<Longrightarrow> store_row (sstore x) w = STOPPED"
    by (auto simp: world_deps_def scripted_def store_load_def store_row_def split: option.splits)
  show "d_load world_deps w x = (r, x') \<Longrightarrow> store_row (sstore x') = store_row (sstore x)"
    by (auto simp: world_deps_def scripted_def split: option.splits)
  show "d_apply world_deps w f t reason x = (Inr u, x') \<Longrightarrow> store_row (sstore x) w = f"
    by (auto simp: world_deps_def world_apply_def scripted_def split: option.splits prod.splits
             dest: store_apply_commits(1))
  show "d_apply world_deps w f t reason x = (Inr u, x') \<Longrightarrow>
        store_row (sstore x') = (store_row (sstore x))(w := t)"
    by (auto simp: world_deps_def world_apply_def scripted_def split: option.splits prod.splits
             dest: store_apply_commits(3))
  show "d_apply world_deps w f t reason x = (Inl e, x') \<Longrightarrow>
        store_row (sstore x') = store_row (sstore x)"
    by (auto simp: world_deps_def world_apply_def scripted_def split: option.splits prod.splits
             dest: store_apply_rolls_back)
qed

section \<open>Load and transition when the store answers\<close>

definition reliable :: "world \<Rightarrow> bool" where
  "reliable x \<longleftrightarrow> fails x CLoad = None \<and> (\<forall>f t r. fails x (CApply f t r) = None)"

text \<open>\<open>row_is st s\<close>: the store answers and holds \<open>st\<close> for the runtime's workspace.\<close>

definition row_is :: "runtime_state \<Rightarrow> world runtime \<Rightarrow> bool" where
  "row_is st s \<longleftrightarrow> reliable (wd (env s)) \<and> states (sstore (wd (env s))) (workspaceId (machine s)) = Some st"

definition failure_of :: "world runtime \<Rightarrow> call \<Rightarrow> thrown option" where
  "failure_of s c = fails (wd (env s)) c"

definition logged :: "call \<Rightarrow> bool \<Rightarrow> world runtime \<Rightarrow> world runtime" where
  "logged c b s = s\<lparr>env := (env s)\<lparr>calls := calls (env s) @ [(c, b)]\<rparr>\<rparr>"

definition adopt :: "runtime_state \<Rightarrow> world runtime \<Rightarrow> world runtime" where
  "adopt st s = logged CLoad True (s\<lparr>machine := (machine s)\<lparr>current := st\<rparr>\<rparr>)"

definition moved :: "runtime_state \<Rightarrow> runtime_state \<Rightarrow> string \<Rightarrow> world runtime \<Rightarrow> world runtime" where
  "moved f t reason s =
     logged (CApply f t reason) True
       (s\<lparr>machine := (machine s)\<lparr>current := t\<rparr>,
          env := (env s)\<lparr>wd := (wd (env s))\<lparr>sstore :=
            snd (store_apply (clock (wd (env s))) (workspaceId (machine s)) f t (Some reason) None
                   (sstore (wd (env s))))\<rparr>\<rparr>\<rparr>)"

lemma reload_row_is: "row_is st s \<Longrightarrow> reloadState world_deps s = (Inr st, adopt st s)"
  by (simp add: row_is_def reliable_def reloadState_def onMachine_def machine_reload_def traced_def
      world_deps_def scripted_def store_load_def adopt_def logged_def isOk_def)

lemma transition_row_is:
  assumes "row_is st s" "getState s = st" "canTransition st t"
  shows "transition world_deps t reason s = (Inr (), moved st t reason s)"
  using assms
  by (simp add: row_is_def reliable_def getState_def transition_def onMachine_def machine_transition_def
      assertTransition_def traced_def world_deps_def world_apply_def scripted_def store_apply_def
      moved_def logged_def isOk_def)

lemma row_is_adopt [simp]: "row_is u (adopt st s) = row_is u s"
  by (simp add: row_is_def adopt_def logged_def)

lemma row_is_logged [simp]: "row_is u (logged c b s) = row_is u s"
  by (simp add: row_is_def logged_def)

lemma row_is_moved: "row_is st s \<Longrightarrow> row_is u (moved st t reason s) \<longleftrightarrow> u = t"
  by (auto simp: row_is_def reliable_def moved_def logged_def store_apply_def)

lemma getState_simps [simp]:
  "getState (adopt st s) = st" "getState (moved f t reason s) = t" "getState (logged c b s) = getState s"
  by (simp_all add: getState_def adopt_def moved_def logged_def)

lemma rt_calls_simps [simp]:
  "rt_calls (adopt st s) = rt_calls s @ [(CLoad, True)]"
  "rt_calls (moved f t reason s) = rt_calls s @ [(CApply f t reason, True)]"
  "rt_calls (logged c b s) = rt_calls s @ [(c, b)]"
  by (simp_all add: rt_calls_def adopt_def moved_def logged_def)

lemma failure_of_simps [simp]:
  "failure_of (adopt st s) = failure_of s" "failure_of (moved f t reason s) = failure_of s"
  "failure_of (logged c b s) = failure_of s"
  by (simp_all add: failure_of_def adopt_def moved_def logged_def fun_eq_iff)

lemma world_collaborators:
  "collaborator CStart (d_instanceStart world_deps) s =
     (case failure_of s CStart of Some e \<Rightarrow> (Inl e, logged CStart False s) | None \<Rightarrow> (Inr (), logged CStart True s))"
  "collaborator CStop (d_instanceStop world_deps) s =
     (case failure_of s CStop of Some e \<Rightarrow> (Inl e, logged CStop False s) | None \<Rightarrow> (Inr (), logged CStop True s))"
  "collaborator (CStep y) (d_step world_deps y) s =
     (case failure_of s (CStep y) of Some e \<Rightarrow> (Inl e, logged (CStep y) False s)
      | None \<Rightarrow> (Inr (), logged (CStep y) True s))"
  by (simp_all add: collaborator_def traced_def world_deps_def scripted_def failure_of_def logged_def
        isOk_def ret_def split: option.splits)

text \<open>The fields a collaborator call or a transition does not see.\<close>

lemma row_is_frame [simp]:
  "row_is u (s\<lparr>tracker := tk\<rparr>) = row_is u s" "row_is u (s\<lparr>idle := i\<rparr>) = row_is u s"
  "row_is u (s\<lparr>agentTurnActive := b\<rparr>) = row_is u s" "row_is u (s\<lparr>inflight := fl\<rparr>) = row_is u s"
  "row_is u (s\<lparr>lastError := le\<rparr>) = row_is u s"
  by (simp_all add: row_is_def)

lemma getState_frame [simp]:
  "getState (s\<lparr>tracker := tk\<rparr>) = getState s" "getState (s\<lparr>idle := i\<rparr>) = getState s"
  "getState (s\<lparr>agentTurnActive := b\<rparr>) = getState s" "getState (s\<lparr>inflight := fl\<rparr>) = getState s"
  "getState (s\<lparr>lastError := le\<rparr>) = getState s"
  by (simp_all add: getState_def)

lemma failure_of_frame [simp]:
  "failure_of (s\<lparr>tracker := tk\<rparr>) = failure_of s" "failure_of (s\<lparr>idle := i\<rparr>) = failure_of s"
  "failure_of (s\<lparr>agentTurnActive := b\<rparr>) = failure_of s" "failure_of (s\<lparr>inflight := fl\<rparr>) = failure_of s"
  "failure_of (s\<lparr>lastError := le\<rparr>) = failure_of s"
  by (simp_all add: failure_of_def fun_eq_iff)

lemma own_fields_frame [simp]:
  "tracker (adopt st s) = tracker s" "tracker (moved f t r s) = tracker s" "tracker (logged c b s) = tracker s"
  "inflight (adopt st s) = inflight s" "inflight (moved f t r s) = inflight s" "inflight (logged c b s) = inflight s"
  "agentTurnActive (adopt st s) = agentTurnActive s" "agentTurnActive (moved f t r s) = agentTurnActive s"
  "agentTurnActive (logged c b s) = agentTurnActive s"
  "idle (adopt st s) = idle s" "idle (moved f t r s) = idle s" "idle (logged c b s) = idle s"
  "lastError (adopt st s) = lastError s" "lastError (moved f t r s) = lastError s"
  "lastError (logged c b s) = lastError s"
  by (simp_all add: adopt_def moved_def logged_def)

section \<open>The row after each phase\<close>

text \<open>
  \<open>ends m s P\<close>: what a run from \<open>s\<close> returns, and the state it leaves.
\<close>

lemma recordFailure_row_is:
  assumes "row_is st s"
  shows "recordFailureStateBestEffort world_deps e to reason s =
           (Inr e, if canTransition st to then moved st to reason (adopt st s) else adopt st s)"
  using assms
  by (simp add: recordFailureStateBestEffort_def comp_defs reload_row_is transition_row_is
      machine_canTransition_def getState_def [symmetric])

lemma failWith_row_is:
  assumes "row_is st s" "canTransition st to"
  shows "failWith world_deps e to reason s =
    (Inl e, (moved st to reason (adopt st (s\<lparr>lastError := Some e\<rparr>)))\<lparr>lastError := Some e\<rparr>)"
  using assms
  by (simp add: failWith_def noteFailure_def setLastError_def comp_defs recordFailure_row_is)

lemma noteFailure_row_is:
  assumes "row_is st s" "canTransition st to"
  shows "noteFailure world_deps e to reason s =
    (Inr e, (moved st to reason (adopt st (s\<lparr>lastError := Some e\<rparr>)))\<lparr>lastError := Some e\<rparr>)"
  using assms
  by (simp add: noteFailure_def setLastError_def comp_defs recordFailure_row_is)

lemmas world_run = comp_defs reload_row_is transition_row_is world_collaborators row_is_moved
  failWith_row_is noteFailure_row_is setLastError_def rt_recordActivity_def

end
