(* ===== verification/Runtime_Drain.thy ===== *)
theory Runtime_Drain
  imports Runtime_World
begin

text \<open>
  The operation count and the drain of a graceful stop: what each operation does to the count, for
  any collaborators, why a drain that ends leaves nothing running, and when it ends.
\<close>

section \<open>What each operation does to the running work\<close>

definition sameWork :: "'w runtime \<Rightarrow> 'w runtime \<Rightarrow> bool" where
  "sameWork s t \<longleftrightarrow> tracker t = tracker s \<and> inflight t = inflight s \<and> agentTurnActive t = agentTurnActive s
     \<and> subprocessRunning (idle t) = subprocessRunning (idle s)"

lemma sameWork_refl [simp]: "sameWork s s"
  by (simp add: sameWork_def)

lemma sameWork_trans: "sameWork s t \<Longrightarrow> sameWork t u \<Longrightarrow> sameWork s u"
  by (simp add: sameWork_def)

lemma reload_work: "reloadState d s = (r, t) \<Longrightarrow> sameWork s t"
  by (auto simp: reloadState_def onMachine_def sameWork_def split: prod.splits)

lemma transition_work: "transition d to reason s = (r, t) \<Longrightarrow> sameWork s t"
  by (auto simp: transition_def onMachine_def sameWork_def split: prod.splits)

lemma assert_work: "assertAgentInputAllowed d s = (r, t) \<Longrightarrow> sameWork s t"
  by (auto simp: assertAgentInputAllowed_def comp_defs split: prod.splits sum.splits if_splits
           dest: reload_work)

text \<open>A gate that lets the caller through has read a state that accepts agent input.\<close>

lemma assert_outcome:
  assumes "assertAgentInputAllowed d s = (r, t)"
  shows "isOk r \<Longrightarrow> isAgentInputAllowed (getState t)"
    and "reloadState d s = (Inr st, u) \<Longrightarrow> \<not> isAgentInputAllowed st \<Longrightarrow>
           r = Inl (throw_new (AgentInputRefusedError st)) \<and> t = u"
  using assms
  by (auto simp: assertAgentInputAllowed_def comp_defs reloadState_def onMachine_def machine_reload_def
        getState_def isOk_def Let_def split: prod.splits sum.splits if_splits option.splits)

lemma work_updates:
  "pending (tracker_begin tk) = pending tk + 1"
  "pending (snd (tracker_end tk)) = pending tk - 1"
  by (simp_all add: tracker_begin_def tracker_end_def Let_def)

lemma beginTurn_work:
  assumes "beginAgentTurn d s = (r, t)"
  shows "isOk r \<Longrightarrow> agentTurnActive t \<and> inflight t = inflight s \<and> pending (tracker t) = pending (tracker s) + 1
           \<and> subprocessRunning (idle t) = subprocessRunning (idle s)"
    and "\<not> isOk r \<Longrightarrow> sameWork s t"
proof -
  obtain r1 s1 where a: "assertAgentInputAllowed d s = (r1, s1)" by fastforce
  obtain r2 s2 where b: "transition d BUSY ''agent-turn-start'' s1 = (r2, s2)" by fastforce
  have w: "sameWork s s1" "sameWork s1 s2" using a b by (blast dest: assert_work transition_work)+
  show "isOk r \<Longrightarrow> agentTurnActive t \<and> inflight t = inflight s \<and> pending (tracker t) = pending (tracker s) + 1
           \<and> subprocessRunning (idle t) = subprocessRunning (idle s)"
    and "\<not> isOk r \<Longrightarrow> sameWork s t"
    using assms w
    by (auto simp: beginAgentTurn_def comp_defs a b runtime_op_defs(3) beginOperation_def isOk_def
          work_updates sameWork_def split: sum.splits if_splits)
qed

lemma endTurn_work:
  assumes "endAgentTurn d s = (r, t)"
  shows "isOk r \<Longrightarrow> agentTurnActive s \<and> \<not> agentTurnActive t \<and> inflight t = inflight s
           \<and> pending (tracker t) = pending (tracker s) - 1
           \<and> subprocessRunning (idle t) = subprocessRunning (idle s)"
    and "\<not> isOk r \<Longrightarrow> sameWork s t"
proof -
  obtain r2 s2 where b: "transition d READY ''agent-turn-complete'' s = (r2, s2)" by fastforce
  have w: "sameWork s s2" using b by (rule transition_work)
  show "isOk r \<Longrightarrow> agentTurnActive s \<and> \<not> agentTurnActive t \<and> inflight t = inflight s
           \<and> pending (tracker t) = pending (tracker s) - 1
           \<and> subprocessRunning (idle t) = subprocessRunning (idle s)"
    and "\<not> isOk r \<Longrightarrow> sameWork s t"
    using assms w
    by (auto simp: endAgentTurn_def comp_defs b runtime_op_defs(3) endOperation_def isOk_def
          work_updates sameWork_def split: sum.splits if_splits)
qed

lemma beginTracked_work:
  assumes "beginTracked d k s = (r, t)"
  shows "isOk r \<Longrightarrow> inflight t = k # inflight s \<and> agentTurnActive t = agentTurnActive s
           \<and> pending (tracker t) = pending (tracker s) + 1
           \<and> subprocessRunning (idle t) = (k = Subprocess \<or> subprocessRunning (idle s))"
    and "\<not> isOk r \<Longrightarrow> sameWork s t"
proof -
  obtain r1 s1 where a: "assertAgentInputAllowed d s = (r1, s1)" by fastforce
  have w: "sameWork s s1" using a by (rule assert_work)
  show "isOk r \<Longrightarrow> inflight t = k # inflight s \<and> agentTurnActive t = agentTurnActive s
           \<and> pending (tracker t) = pending (tracker s) + 1
           \<and> subprocessRunning (idle t) = (k = Subprocess \<or> subprocessRunning (idle s))"
    and "\<not> isOk r \<Longrightarrow> sameWork s t"
    using assms w
    by (cases k; auto simp: comp_defs a runtime_op_defs(3) beginOperation_def isOk_def
          work_updates sameWork_def split: sum.splits if_splits)+
qed

lemma endTracked_work:
  assumes "endTracked d k ok s = (r, t)"
  shows "r = Inr ()"
    and "k \<in> set (inflight s) \<Longrightarrow> inflight t = remove1 k (inflight s)
           \<and> agentTurnActive t = agentTurnActive s \<and> pending (tracker t) = pending (tracker s) - 1
           \<and> subprocessRunning (idle t) = (k \<noteq> Subprocess \<and> subprocessRunning (idle s))"
    and "k \<notin> set (inflight s) \<Longrightarrow> t = s"
  using assms
  by (cases k; auto simp: endTracked_def comp_defs runtime_op_defs(3) endOperation_def work_updates
        split: if_splits)+

section \<open>The count covers the running work\<close>

definition workload :: "'w runtime \<Rightarrow> int" where
  "workload s = int (length (inflight s)) + (if agentTurnActive s then 1 else 0)"

text \<open>Whatever the collaborators do, the count is never below the work that is running.\<close>

definition counted :: "'w runtime \<Rightarrow> bool" where
  "counted s \<longleftrightarrow> workload s \<le> pending (tracker s)"

lemma sameWork_counted: "sameWork s t \<Longrightarrow> counted t = counted s"
  by (simp add: counted_def workload_def sameWork_def)

lemma counted_step: "counted s \<Longrightarrow> counted (rt_step d e s)"
proof (cases e)
  case BeginTurn
  assume "counted s"
  with BeginTurn show ?thesis
    by (cases "beginAgentTurn d s"; cases "isOk (fst (beginAgentTurn d s))")
       (auto simp: counted_def workload_def dest: beginTurn_work(1) sameWork_counted [OF beginTurn_work(2)] split: if_splits)
next
  case EndTurn
  assume "counted s"
  with EndTurn show ?thesis
    by (cases "endAgentTurn d s"; cases "isOk (fst (endAgentTurn d s))")
       (auto simp: counted_def workload_def dest: endTurn_work(1) sameWork_counted [OF endTurn_work(2)] split: if_splits)
next
  case (BeginOp k)
  assume "counted s"
  with BeginOp show ?thesis
    by (cases "beginTracked d k s"; cases "isOk (fst (beginTracked d k s))")
       (auto simp: counted_def workload_def dest: beginTracked_work(1) sameWork_counted [OF beginTracked_work(2)] split: if_splits)
next
  case (EndOp k ok)
  assume c: "counted s"
  show ?thesis
  proof (cases "k \<in> set (inflight s)")
    case True
    then have "length (inflight s) = Suc (length (remove1 k (inflight s)))"
      using length_pos_if_in_set [OF True] by (simp add: length_remove1)
    moreover obtain r t where run: "endTracked d k ok s = (r, t)" by fastforce
    moreover note endTracked_work(2) [OF run True]
    ultimately show ?thesis
      using c EndOp by (simp add: counted_def workload_def)
  next
    case False
    with c EndOp show ?thesis
      using endTracked_work(3) [of d k ok s] by (cases "endTracked d k ok s") simp
  qed
qed

lemma drain_spec:
  assumes "drain d es s = Some t" "counted s"
  shows "inflight t = [] \<and> \<not> agentTurnActive t \<and> pending (tracker t) = 0
         \<and> (\<exists>us vs. es = us @ vs \<and> t = rt_run d us s)"
  using assms
proof (induction es arbitrary: s)
  case Nil
  then show ?case by (auto simp: counted_def workload_def rt_run_def split: if_splits)
next
  case (Cons e es)
  show ?case
  proof (cases "pending (tracker s) = 0")
    case True
    with Cons.prems show ?thesis
      by (auto simp: counted_def workload_def rt_run_def split: if_splits) (metis append_Nil fold_simps(1))+
  next
    case False
    with Cons.prems Cons.IH [of "rt_step d e s"] obtain us vs
      where "inflight t = [] \<and> \<not> agentTurnActive t \<and> pending (tracker t) = 0"
        "es = us @ vs" "t = rt_run d us (rt_step d e s)"
      by (auto simp: counted_step)
    then show ?thesis
      by (intro conjI exI [of _ "e # us"] exI [of _ vs]) (auto simp: rt_run_def)
  qed
qed

end
