(* ===== verification/Runtime_Stop.thy ===== *)
theory Runtime_Stop
  imports Runtime_Drain
begin

text \<open>
  Open and stop over the concrete world: when the drain ends, what a stop and an open return, what
  they leave in the row and which collaborators they called.
\<close>

section \<open>The drain while the row says STOPPING\<close>

definition stopping :: "world runtime \<Rightarrow> bool" where
  "stopping s \<longleftrightarrow> row_is STOPPING s \<and> getState s = STOPPING"

declare rt_step.simps [simp del]

lemma stoppingD: "stopping s \<Longrightarrow> row_is STOPPING s" "stopping s \<Longrightarrow> getState s = STOPPING"
  by (simp_all add: stopping_def)

lemma stopping_refuses:
  assumes "stopping s"
  shows "assertAgentInputAllowed world_deps s
           = (Inl (throw_new (AgentInputRefusedError STOPPING)), adopt STOPPING s)"
  using stoppingD [OF assms] by (simp add: assertAgentInputAllowed_def world_run isAgentInputAllowed_iff)

lemma stopping_begin:
  assumes "stopping s"
  shows "rt_step world_deps BeginTurn s = adopt STOPPING s"
    and "rt_step world_deps (BeginOp k) s = adopt STOPPING s"
  using stopping_refuses [OF assms] by (cases k; simp add: rt_step.simps beginAgentTurn_def comp_defs)+

lemma stopping_endTurn:
  assumes "stopping s"
  shows "\<not> agentTurnActive s \<Longrightarrow> rt_step world_deps EndTurn s = s"
    and "agentTurnActive s \<Longrightarrow> stopping (rt_step world_deps EndTurn s)
           \<and> \<not> agentTurnActive (rt_step world_deps EndTurn s)
           \<and> inflight (rt_step world_deps EndTurn s) = inflight s
           \<and> pending (tracker (rt_step world_deps EndTurn s)) = pending (tracker s) - 1"
  using assms
  by (auto simp: rt_step.simps stopping_def endAgentTurn_def comp_defs runtime_op_defs(3) endOperation_def work_updates)

lemma stopping_endOp: "stopping s \<Longrightarrow> stopping (rt_step world_deps (EndOp k ok) s)"
  by (cases k; auto simp: rt_step.simps stopping_def endTracked_def comp_defs runtime_op_defs(3) endOperation_def)

definition endsOp :: "opkind \<Rightarrow> rt_event \<Rightarrow> bool" where
  "endsOp k e \<longleftrightarrow> (case e of EndOp k' ok \<Rightarrow> k' = k | _ \<Rightarrow> False)"

text \<open>The events settle every running function, and the turn when one is running.\<close>

definition settles :: "rt_event list \<Rightarrow> 'w runtime \<Rightarrow> bool" where
  "settles es s \<longleftrightarrow> (\<forall>k. count_list (inflight s) k \<le> length (filter (endsOp k) es))
     \<and> (agentTurnActive s \<longrightarrow> EndTurn \<in> set es)"

lemma count_list_remove1: "count_list (remove1 k xs) j = count_list xs j - (if j = k then 1 else 0)"
  by (induction xs) (auto dest: count_notin)

lemma count_list_in: "k \<in> set xs \<Longrightarrow> 0 < count_list xs k"
  by (induction xs) auto

lemma stopping_step:
  assumes st: "stopping s" and pend: "pending (tracker s) = workload s" and "settles (e # es) s"
  shows "stopping (rt_step world_deps e s)
       \<and> pending (tracker (rt_step world_deps e s)) = workload (rt_step world_deps e s)
       \<and> settles es (rt_step world_deps e s)"
proof (cases e)
  case BeginTurn
  with assms show ?thesis
    by (auto simp: stopping_begin(1) [OF st] stopping_def workload_def settles_def endsOp_def)
next
  case EndTurn
  with assms stopping_endTurn [OF st] show ?thesis
    by (cases "agentTurnActive s") (auto simp: workload_def settles_def endsOp_def)
next
  case (BeginOp k)
  with assms show ?thesis
    by (auto simp: stopping_begin(2) [OF st] stopping_def workload_def settles_def endsOp_def)
next
  case (EndOp k ok)
  obtain r t where run: "endTracked world_deps k ok s = (r, t)" by fastforce
  then have t: "rt_step world_deps e s = t" by (simp add: EndOp rt_step.simps)
  have "stopping t" using stopping_endOp [OF st, of k ok] t by (simp add: EndOp)
  show ?thesis
  proof (cases "k \<in> set (inflight s)")
    case False
    have "count_list (inflight s) j \<le> length (filter (endsOp j) es)" for j
    proof (cases "j = k")
      case True
      with False show ?thesis by (simp add: count_list_0_iff)
    next
      case jk: False
      have "count_list (inflight s) j \<le> length (filter (endsOp j) (e # es))"
        using assms(3) by (simp add: settles_def)
      with jk show ?thesis by (simp add: EndOp endsOp_def)
    qed
    with assms(3) have "settles es s" by (simp add: settles_def EndOp)
    with endTracked_work(3) [OF run False] \<open>stopping t\<close> pend show ?thesis by (simp add: t)
  next
    case True
    note w = endTracked_work(2) [OF run True]
    have "length (inflight s) = Suc (length (remove1 k (inflight s)))"
      using length_pos_if_in_set [OF True] True by (simp add: length_remove1)
    with w pend have "pending (tracker t) = workload t" by (simp add: workload_def)
    moreover have "settles es t"
      using assms(3) w
      by (force simp: settles_def EndOp endsOp_def count_list_remove1 split: if_splits)
    ultimately show ?thesis using \<open>stopping t\<close> by (simp add: t)
  qed
qed

lemma drain_ends:
  assumes "stopping s" "pending (tracker s) = workload s" "settles es s"
  shows "\<exists>t. drain world_deps es s = Some t \<and> stopping t"
  using assms
proof (induction es arbitrary: s)
  case Nil
  then have "inflight s = []" by (metis count_list_in filter.simps(1) last_in_set le_zero_eq list.size(3)
      neq0_conv settles_def)
  with Nil show ?case by (auto simp: settles_def workload_def)
next
  case (Cons e es)
  show ?case
  proof (cases "pending (tracker s) = 0")
    case True
    with Cons.prems show ?thesis by simp
  next
    case False
    with Cons.IH [of "rt_step world_deps e s"] stopping_step [OF Cons.prems] show ?thesis by simp
  qed
qed

lemma stopping_kept:
  assumes "stopping s"
  shows "stopping (rt_step world_deps e s)"
proof (cases e)
  case EndTurn
  with assms stopping_endTurn [OF assms] show ?thesis by (cases "agentTurnActive s") simp_all
next
  case (EndOp k ok)
  with stopping_endOp [OF assms] show ?thesis by simp
qed (use assms stopping_begin [OF assms] in \<open>simp_all add: stopping_def\<close>)

lemma drain_keeps_stopping:
  assumes "drain world_deps es s = Some t" "stopping s"
  shows "stopping t"
  using assms
proof (induction es arbitrary: s)
  case Nil
  then show ?case by (auto split: if_splits)
next
  case (Cons e es)
  have "stopping (rt_step world_deps e s)" using Cons.prems(2) by (rule stopping_kept)
  with Cons show ?case by (auto split: if_splits)
qed

section \<open>Graceful stop\<close>

text \<open>After the drain: the outcome, by what fails.\<close>

lemma prepareStopFinish_outcome:
  assumes "stopping s" and run: "prepareStopFinish world_deps s = (r, t)"
  shows "failure_of s (CStep runLifecycleCheckpoint) = Some e \<Longrightarrow>
           r = Inr CHECKPOINT_FAILED \<and> row_is CHECKPOINT_FAILED t \<and> lastError t = Some e"
    and "failure_of s (CStep runLifecycleCheckpoint) = None \<Longrightarrow>
         failure_of s (CStep flushSessionPersistence) = Some e \<Longrightarrow>
           r = Inl e \<and> row_is ERROR t \<and> lastError t = Some e"
    and "failure_of s (CStep runLifecycleCheckpoint) = None \<Longrightarrow>
         failure_of s (CStep flushSessionPersistence) = None \<Longrightarrow>
         failure_of s (CStep deleteSandbox) = Some e \<Longrightarrow>
           r = Inl e \<and> row_is ERROR t \<and> lastError t = Some e"
    and "failure_of s (CStep runLifecycleCheckpoint) = None \<Longrightarrow>
         failure_of s (CStep flushSessionPersistence) = None \<Longrightarrow>
         failure_of s (CStep deleteSandbox) = None \<Longrightarrow> r = Inr STOPPING \<and> stopping t
           \<and> failure_of t = failure_of s"
  using assms
  by (auto simp: stopping_def prepareStopFinish_def runSteps_def world_run)

end
