(* ===== verification/Runtime_Props.thy ===== *)
theory Runtime_Props
  imports Runtime_Stop
begin

text \<open>The properties of the workspace runtime, and the lemmas that assemble them.\<close>

section \<open>Whole runs\<close>

text \<open>The public operations, in any order, with the other tasks' events during each stop.\<close>

datatype rt_op =
    Open | OpenInstance | CompleteRestore | PrepareStop "rt_event list" | Stop "rt_event list"
  | IdleStop "rt_event list" | Event rt_event

fun rt_exec :: "'w WorkspaceRuntimeDeps \<Rightarrow> rt_op \<Rightarrow> 'w runtime \<Rightarrow> 'w runtime option" where
  "rt_exec d Open s = Some (snd (doOpen d s))"
| "rt_exec d OpenInstance s = Some (snd (doStartInstancePhase d s))"
| "rt_exec d CompleteRestore s = Some (snd (doCompleteRestorePhase d s))"
| "rt_exec d (PrepareStop es) s = map_option snd (doPrepareStop d es s)"
| "rt_exec d (Stop es) s = map_option snd (doStop d es s)"
| "rt_exec d (IdleStop es) s = map_option snd (maybeStopForIdle d es s)"
| "rt_exec d (Event e) s = Some (rt_step d e s)"

fun rt_ops :: "'w WorkspaceRuntimeDeps \<Rightarrow> rt_op list \<Rightarrow> 'w runtime \<Rightarrow> 'w runtime option" where
  "rt_ops d [] s = Some s"
| "rt_ops d (p # ps) s = (case rt_exec d p s of None \<Rightarrow> None | Some t \<Rightarrow> rt_ops d ps t)"

text \<open>\<open>adds L s t\<close>: from \<open>s\<close> to \<open>t\<close> only calls that satisfy \<open>L\<close> were made.\<close>

definition adds :: "(call \<times> bool \<Rightarrow> bool) \<Rightarrow> 'w runtime \<Rightarrow> 'w runtime \<Rightarrow> bool" where
  "adds L s t \<longleftrightarrow> (\<exists>cs. rt_calls t = rt_calls s @ cs \<and> (\<forall>c \<in> set cs. L c))"

lemma adds_refl [simp]: "adds L s s"
  by (simp add: adds_def)

lemma adds_trans: "adds L s t \<Longrightarrow> adds L t u \<Longrightarrow> adds L s u"
  unfolding adds_def by (metis Un_iff append.assoc set_append)

lemma adds_run: "emitsAll L m \<Longrightarrow> m s = (r, t) \<Longrightarrow> adds L s t"
  unfolding adds_def by (metis emitsAll_run snd_conv)

lemma adds_step:
  assumes "\<And>b. L (CLoad, b)" "\<And>f t r b. canTransition f t \<Longrightarrow> L (CApply f t r, b)"
  shows "adds L s (rt_step d e s)"
  unfolding adds_def
  by (cases e) (simp_all add: rt_step.simps emitsAll_run assms all_beginTurn all_endTurn
                  all_beginTracked all_endTracked)

lemma adds_drain:
  assumes "\<And>b. L (CLoad, b)" "\<And>f t r b. canTransition f t \<Longrightarrow> L (CApply f t r, b)"
  shows "drain d es s = Some t \<Longrightarrow> adds L s t"
  by (induction es arbitrary: s) (auto split: if_splits intro: adds_trans adds_step [OF assms])

lemma adds_prepareStop:
  assumes "\<And>b. L (CLoad, b)" "\<And>f t r b. canTransition f t \<Longrightarrow> L (CApply f t r, b)"
    and "\<And>y b. y \<in> {runLifecycleCheckpoint, flushSessionPersistence, deleteSandbox} \<Longrightarrow> L (CStep y, b)"
    and "doPrepareStop d es s = Some (r, t)"
  shows "adds L s t"
proof -
  obtain q s1 where enter: "prepareStopEnter d s = (q, s1)" by fastforce
  have "emitsAll L (prepareStopEnter d)"
    unfolding prepareStopEnter_def by (intro emits_intros; simp add: assms)
  with enter have "adds L s s1" by (blast intro: adds_run)
  moreover have fin: "emitsAll L (prepareStopFinish d)"
    unfolding prepareStopFinish_def by (intro emits_intros; simp add: assms; blast intro: assms)
  moreover have dr: "drain d es s = Some u \<Longrightarrow> adds L s u" for es s u
    by (erule adds_drain [rotated 2]) (simp_all add: assms)
  moreover have "adds L s1 t"
    using assms(4)
    by (auto simp: doPrepareStop_def enter split: sum.splits option.splits
          dest!: adds_run [OF fin] dr intro: adds_trans)
  ultimately show ?thesis by (blast intro: adds_trans)
qed

lemma adds_legal_op:
  assumes "rt_exec d p s = Some t"
  shows "adds legalCall s t"
proof -
  have phase: "emitsAll legalCall m \<Longrightarrow> adds legalCall s (snd (m s))" for m :: "('a runtime, thrown, 'b) comp" and s
    by (cases "m s") (auto intro: adds_run)
  have prep: "doPrepareStop d es s = Some (r, t) \<Longrightarrow> adds legalCall s t" for es s r t
    by (rule adds_prepareStop) auto
  have after: "doStopAfterPrepare d st s = (r, t) \<Longrightarrow> adds legalCall s t" for st s r t
    by (rule adds_run [OF legal_phases(5)])
  have stop: "doStop d es s = Some (r, t) \<Longrightarrow> adds legalCall s t" for es s r t
    by (auto simp: doStop_def split: option.splits sum.splits prod.splits dest!: prep
             intro: adds_trans after)
  show ?thesis
  proof (cases p)
    case Open
    have "emitsAll legalCall (doOpen d)"
      unfolding doOpen_def by (intro emits_intros legal_phases)
    with Open assms show ?thesis by (auto intro: phase)
  next
    case OpenInstance
    with assms show ?thesis by (auto intro: phase legal_phases)
  next
    case CompleteRestore
    with assms show ?thesis by (auto intro: phase legal_phases)
  next
    case (PrepareStop es)
    with assms show ?thesis by (auto intro: prep)
  next
    case (Stop es)
    with assms show ?thesis by (auto intro: stop)
  next
    case (IdleStop es)
    with assms show ?thesis
      by (auto simp: maybeStopForIdle_def intro: stop split: if_splits option.splits sum.splits)
  next
    case (Event e)
    with assms adds_step [where L = legalCall and d = d and e = e and s = s] show ?thesis by auto
  qed
qed

text \<open>C6: whatever the collaborators do, in every run of the public operations every transition the
  runtime asks of the store is an edge of the transition table.\<close>

theorem every_transition_legal:
  assumes "rt_ops d ps (newRuntime w x) = Some t" "(CApply f u reason, b) \<in> set (rt_calls t)"
  shows "canTransition f u"
proof -
  have "rt_ops d ps s = Some t \<Longrightarrow> adds legalCall s t" for s
    by (induction ps arbitrary: s)
       (auto split: option.splits intro: adds_trans adds_legal_op)
  with assms show ?thesis by (force simp: adds_def rt_calls_def newRuntime_def)
qed

theorem every_transition_legal_witness:
  "canTransition STOPPED STARTING
   \<and> (CApply STOPPED STARTING ''open'', True) \<in> set (rt_calls (snd (doStartInstancePhase world_deps
        (newRuntime ''w'' \<lparr>sstore = newStore [], clock = 0, fails = \<lambda>_. None\<rparr>))))"
proof -
  let ?s = "newRuntime ''w'' \<lparr>sstore = newStore [], clock = 0, fails = \<lambda>_. None\<rparr> :: world runtime"
  let ?t = "snd (doStartInstancePhase world_deps ?s)"
  have run: "rt_ops world_deps [OpenInstance] ?s = Some ?t" by simp
  have call: "(CApply STOPPED STARTING ''open'', True) \<in> set (rt_calls ?t)"
    by (simp add: doStartInstancePhase_def comp_defs reloadState_def onMachine_def machine_reload_def
        traced_def world_deps_def scripted_def store_load_def newRuntime_def newMachine_def newStore_def
        transition_def machine_transition_def assertTransition_def OPENABLE_STATES_def world_apply_def
        store_apply_def isOk_def collaborator_def getState_def rt_calls_def)
  from every_transition_legal [OF run call] call show ?thesis by simp
qed

section \<open>The order of the restore steps\<close>

definition readyCall :: "call \<times> bool \<Rightarrow> bool" where
  "readyCall c \<longleftrightarrow> (\<exists>f b. c = (CApply f READY ''restore-complete'', b))"

definition stepsOk :: "lifecycle_step list \<Rightarrow> (call \<times> bool) list" where
  "stepsOk ys = map (\<lambda>y. (CStep y, True)) ys"

lemma emits_runSteps:
  "emits (runSteps d ys) (\<lambda>r cs. case r of
      Inr _ \<Rightarrow> cs = stepsOk ys
    | Inl _ \<Rightarrow> \<exists>us v vs. ys = us @ v # vs \<and> cs = stepsOk us @ [(CStep v, False)])"
  unfolding runSteps_def
proof (induction ys)
  case Nil
  then show ?case by (simp add: emits_ret stepsOk_def)
next
  case (Cons y ys)
  show ?case
  proof (simp, rule emits_then [OF emits_collaborator], goal_cases)
    case (1 e cs)
    then show ?case by (auto simp: isOk_def stepsOk_def intro!: exI [of _ "[]"])
  next
    case (2 a cs)
    show ?case
    proof (rule emits_weaken [OF Cons.IH], goal_cases)
      case (1 r ds)
      with 2 show ?case
        by (auto simp: isOk_def stepsOk_def split: sum.splits)
           (metis append_Cons list.simps(9))
    qed
  qed
qed

lemma emits_failRestore:
  "emitsAll (\<lambda>c. \<not> readyCall c) (failWith d e RESTORE_FAILED ''restore-failed'')"
  by (intro emits_intros) (simp_all add: readyCall_def)

definition orderly :: "(call \<times> bool) list \<Rightarrow> bool" where
  "orderly cs \<longleftrightarrow> ((\<exists>c \<in> set cs. readyCall c) \<longrightarrow>
     (\<exists>pre post. cs = pre @ stepsOk restoreSteps @ post \<and> (\<forall>c \<in> set pre. \<not> readyCall c)))"

lemma orderly_quiet: "(\<forall>c \<in> set cs. \<not> readyCall c) \<Longrightarrow> orderly cs"
  by (auto simp: orderly_def)

lemma orderly_prefix:
  assumes "\<forall>c \<in> set cs. \<not> readyCall c" "orderly ds"
  shows "orderly (cs @ ds)"
  unfolding orderly_def
proof
  assume "\<exists>c \<in> set (cs @ ds). readyCall c"
  with assms obtain pre post where "ds = pre @ stepsOk restoreSteps @ post"
      "\<forall>c \<in> set pre. \<not> readyCall c"
    unfolding orderly_def by auto
  with assms(1) show "\<exists>pre post. cs @ ds = pre @ stepsOk restoreSteps @ post \<and> (\<forall>c \<in> set pre. \<not> readyCall c)"
    by (intro exI [of _ "cs @ pre"] exI [of _ post]) auto
qed

lemma orderly_suffix:
  assumes "orderly cs" "\<forall>d \<in> set ds. \<not> readyCall d"
  shows "orderly (cs @ ds)"
  unfolding orderly_def
proof
  assume "\<exists>c \<in> set (cs @ ds). readyCall c"
  with assms obtain pre post where "cs = pre @ stepsOk restoreSteps @ post"
      "\<forall>c \<in> set pre. \<not> readyCall c"
    unfolding orderly_def by auto
  then show "\<exists>pre post. cs @ ds = pre @ stepsOk restoreSteps @ post \<and> (\<forall>c \<in> set pre. \<not> readyCall c)"
    by (intro exI [of _ pre] exI [of _ "post @ ds"]) auto
qed

lemma emits_quiet_then:
  assumes "emitsAll (\<lambda>c. \<not> readyCall c) m" "emits k (\<lambda>_. orderly)"
  shows "emits (thenC m k) (\<lambda>_. orderly)"
  using assms(1) unfolding emitsAll_def
proof (rule emits_then, goal_cases)
  case (1 e cs)
  then show ?case by (rule orderly_quiet)
next
  case (2 a cs)
  then show ?case by (intro emits_weaken [OF assms(2)] orderly_prefix)
qed

lemma split_before:
  assumes "us @ c # vs = xs @ ys" "c \<notin> set xs"
  shows "\<exists>mid. us = xs @ mid \<and> mid @ c # vs = ys"
  using assms
proof (induction xs arbitrary: us)
  case (Cons x xs)
  then show ?case by (cases us) auto
qed simp

lemma orderly_split:
  assumes "orderly (us @ c # vs)" "readyCall c"
  shows "\<exists>pre mid. us = pre @ stepsOk restoreSteps @ mid"
proof -
  have "\<exists>c' \<in> set (us @ c # vs). readyCall c'" using assms(2) by auto
  with assms(1) obtain pre post where eq: "us @ c # vs = (pre @ stepsOk restoreSteps) @ post"
      and pre: "\<forall>c' \<in> set pre. \<not> readyCall c'"
    unfolding orderly_def by auto
  have "c \<notin> set (pre @ stepsOk restoreSteps)"
    using pre assms(2) by (auto simp: stepsOk_def readyCall_def)
  from split_before [OF eq this] show ?thesis by auto
qed

lemma emits_get_bind:
  assumes "\<And>a. emits (k a) (\<lambda>_. orderly)"
  shows "emits (bindC (getC g) k) (\<lambda>_. orderly)"
  by (rule emits_bind [OF emits_get [where P = "\<lambda>_ cs. cs = []"]])
     (simp_all add: assms orderly_quiet)

lemma emits_steps_then_ready:
  assumes "emitsAll (\<lambda>c. \<not> readyCall c) k"
  shows "emits (thenC (runSteps d restoreSteps) (thenC (transition d READY reason) k)) (\<lambda>_. orderly)"
proof (rule emits_then [OF emits_runSteps], goal_cases)
  case (1 e cs)
  then show ?case by (auto simp: stepsOk_def readyCall_def intro!: orderly_quiet)
next
  case (2 a cs)
  then have cs: "cs = stepsOk restoreSteps" by simp
  have "emitsAll (\<lambda>_. True) k"
    using assms unfolding emitsAll_def by (rule emits_weaken) simp
  then have "emitsAll (\<lambda>_. True) (thenC (transition d READY reason) k)"
    by (intro emits_intros) simp_all
  then show ?case
    unfolding cs emitsAll_def
  proof (rule emits_weaken, goal_cases)
    case (1 r ds)
    show ?case
      unfolding orderly_def by (intro impI exI [of _ "[]"] exI [of _ ds]) simp
  qed
qed

lemma emits_if: "emits m P \<Longrightarrow> emits k P \<Longrightarrow> emits (if b then m else k) P"
  by simp

lemma restore_orderly: "emits (doCompleteRestorePhase d) (\<lambda>_. orderly)"
proof -
  let ?nr = "\<lambda>c. \<not> readyCall c"
  let ?tail = "thenC (setLastError None) (thenC (rt_recordActivity d workspace_operation) (getC getState))"
  let ?steps = "thenC (runSteps d restoreSteps) (thenC (transition d READY ''restore-complete'') ?tail)"
  have steps: "emits ?steps (\<lambda>_. orderly)"
    by (rule emits_steps_then_ready) (intro emits_intros)
  have "emits (thenC (if st \<noteq> STARTING \<and> st \<noteq> RESTORING then transition d STARTING ''open'' else ret ())
      (bindC (getC getState) (\<lambda>st'.
         thenC (if st' = STARTING then transition d RESTORING ''instance-healthy'' else ret ()) ?steps)))
      (\<lambda>_. orderly)" (is "emits (?body st) _") for st
    by (intro emits_quiet_then emits_get_bind steps emits_intros) (simp_all add: readyCall_def)
  then have caught: "emits (catchC (?body st) (\<lambda>e. failWith d e RESTORE_FAILED ''restore-failed''))
      (\<lambda>_. orderly)" for st
  proof (rule emits_catch, goal_cases)
    case (2 e cs)
    have "emits (failWith d e RESTORE_FAILED ''restore-failed'') (\<lambda>r ds. \<forall>c \<in> set ds. ?nr c)"
      using emits_failRestore unfolding emitsAll_def .
    with 2 show ?case by (auto elim!: emits_weaken intro: orderly_suffix)
  qed
  show ?thesis
    unfolding doCompleteRestorePhase_def
  proof (rule emits_bind [OF emits_reload], goal_cases)
    case (1 e cs)
    then show ?case by (simp add: orderly_def readyCall_def)
  next
    case (2 st cs)
    then have "\<forall>c \<in> set cs. ?nr c" by (simp add: readyCall_def)
    then have "emits (catchC (?body st) (\<lambda>e. failWith d e RESTORE_FAILED ''restore-failed''))
        (\<lambda>r ds. orderly (cs @ ds))"
      by (intro emits_weaken [OF caught] orderly_prefix)
    with \<open>\<forall>c \<in> set cs. ?nr c\<close> show ?case
      by (intro emits_if emits_ret emits_throw) (simp_all add: orderly_quiet)
  qed
qed



end
