(* ===== verification/Runtime_Lifecycle.thy ===== *)
theory Runtime_Lifecycle
  imports Runtime_Props
begin

text \<open>
  The lifecycle promises of the workspace runtime over the concrete world: what a graceful stop
  returns and leaves in the row, what a failed checkpoint prevents, the split of open over two
  processes, the agent gate, and two runs in which a promise of the source is broken.
\<close>

section \<open>The script of failures is never rewritten\<close>

definition sameScript :: "world runtime \<Rightarrow> world runtime \<Rightarrow> bool" where
  "sameScript s t \<longleftrightarrow> failure_of t = failure_of s"

lemma sameScript_order [intro]: "reflp sameScript" "transp sameScript"
  by (auto simp: sameScript_def intro!: reflpI transpI)

lemma keeps_script_store [keeps_intros]:
  "keeps sameScript (reloadState world_deps)" "keeps sameScript (transition world_deps to reason)"
  by (auto simp: keeps_def sameScript_def failure_of_def fun_eq_iff reloadState_def transition_def
        onMachine_def machine_reload_def machine_transition_def assertTransition_def traced_def
        world_deps_def world_apply_def scripted_def store_load_def store_apply_def Let_def
        split: option.splits sum.splits prod.splits if_splits)

lemma keeps_script_own [keeps_intros]:
  "keeps sameScript (rt_recordActivity d k)" "keeps sameScript beginOperation" "keeps sameScript endOperation"
  "keeps sameScript (modifyC (\<lambda>s. s\<lparr>agentTurnActive := b\<rparr>))"
  "keeps sameScript (modifyC (\<lambda>s. s\<lparr>idle := f (idle s)\<rparr>))"
  "keeps sameScript (modifyC (\<lambda>s. s\<lparr>inflight := g (inflight s)\<rparr>))"
  by (simp_all add: keeps_def sameScript_def runtime_op_defs comp_defs)

lemma keeps_script_gate [keeps_intros]: "keeps sameScript (assertAgentInputAllowed world_deps)"
  unfolding assertAgentInputAllowed_def by (intro keeps_intros sameScript_order)

lemma keeps_script_after: "keeps sameScript (afterTracked world_deps k ok)"
  by (cases k; simp; intro keeps_intros impI conjI sameScript_order)

lemma keeps_script_ops [keeps_intros]:
  "keeps sameScript (beginAgentTurn world_deps)" "keeps sameScript (endAgentTurn world_deps)"
  "keeps sameScript (beginTracked world_deps k)" "keeps sameScript (endTracked world_deps k ok)"
proof -
  show "keeps sameScript (beginAgentTurn world_deps)"
    unfolding beginAgentTurn_def by (intro keeps_intros sameScript_order)
  show "keeps sameScript (endAgentTurn world_deps)"
    unfolding endAgentTurn_def split_def by (intro keeps_intros sameScript_order)
  show "keeps sameScript (beginTracked world_deps k)"
    by (cases k; simp; intro keeps_intros sameScript_order)
  show "keeps sameScript (endTracked world_deps k ok)"
    unfolding endTracked_def by (intro keeps_intros sameScript_order keeps_script_after)
qed

lemma step_script: "failure_of (rt_step world_deps e s) = failure_of s"
proof (cases e)
  case BeginTurn
  then show ?thesis using keepsD [OF keeps_script_ops(1), of s] by (simp add: rt_step.simps sameScript_def)
next
  case EndTurn
  then show ?thesis using keepsD [OF keeps_script_ops(2), of s] by (simp add: rt_step.simps sameScript_def)
next
  case (BeginOp k)
  then show ?thesis using keepsD [OF keeps_script_ops(3), of s k] by (simp add: rt_step.simps sameScript_def)
next
  case (EndOp k ok)
  then show ?thesis using keepsD [OF keeps_script_ops(4), of s k ok] by (simp add: rt_step.simps sameScript_def)
qed

lemma drain_script: "drain world_deps es s = Some t \<Longrightarrow> failure_of t = failure_of s"
  by (induction es arbitrary: s) (auto simp: step_script split: if_splits)

section \<open>Graceful stop\<close>

text \<open>The steps of a stop that may fail, in order, with the state a failure of each is recorded as.\<close>

definition stop_plan :: "(call \<times> runtime_state) list" where
  "stop_plan = [(CStep runLifecycleCheckpoint, CHECKPOINT_FAILED), (CStep flushSessionPersistence, ERROR),
     (CStep deleteSandbox, ERROR), (CStop, ERROR)]"

text \<open>
  What a stop promises: the first failing step decides the row; a failing checkpoint is returned as
  a state, any other failure is thrown; with no failure the workspace is STOPPED.
\<close>

fun stop_spec ::
  "(call \<Rightarrow> thrown option) \<Rightarrow> (call \<times> runtime_state) list \<Rightarrow> (thrown + runtime_state) \<times> runtime_state" where
  "stop_spec fl [] = (Inr STOPPED, STOPPED)"
| "stop_spec fl ((c, st) # cs) =
     (case fl c of
        None \<Rightarrow> stop_spec fl cs
      | Some e \<Rightarrow> (if st = CHECKPOINT_FAILED then Inr st else Inl e, st))"

lemma stopAfterPrepare_row:
  assumes "stopping s"
  shows "failure_of s CStop = None \<Longrightarrow> \<exists>t. doStopAfterPrepare world_deps STOPPING s = (Inr STOPPED, t) \<and> row_is STOPPED t"
    and "failure_of s CStop = Some e \<Longrightarrow> \<exists>t. doStopAfterPrepare world_deps STOPPING s = (Inl e, t) \<and> row_is ERROR t"
  using stoppingD [OF assms] by (simp_all add: doStopAfterPrepare_def world_run)

lemma stop_finishes:
  assumes "stopping s"
  shows "\<exists>r t. (case prepareStopFinish world_deps s of
                  (Inl e, s1) \<Rightarrow> (Inl e, s1)
                | (Inr st, s1) \<Rightarrow> doStopAfterPrepare world_deps st s1) = (r, t)
           \<and> (case stop_spec (failure_of s) stop_plan of (r', st) \<Rightarrow> r = r' \<and> row_is st t)"
proof -
  obtain q t where run: "prepareStopFinish world_deps s = (q, t)" by fastforce
  note out = prepareStopFinish_outcome [OF assms run]
  show ?thesis
  proof (cases "failure_of s (CStep runLifecycleCheckpoint)")
    case Some
    from out(1) [OF Some] Some show ?thesis
      by (simp add: run stop_plan_def doStopAfterPrepare_def ret_def)
  next
    case ck: None
    show ?thesis
    proof (cases "failure_of s (CStep flushSessionPersistence)")
      case Some
      from out(2) [OF ck Some] ck Some show ?thesis by (simp add: run stop_plan_def)
    next
      case fl: None
      show ?thesis
      proof (cases "failure_of s (CStep deleteSandbox)")
        case Some
        from out(3) [OF ck fl Some] ck fl Some show ?thesis by (simp add: run stop_plan_def)
      next
        case del: None
        from out(4) [OF ck fl del] have t: "q = Inr STOPPING" "stopping t" "failure_of t = failure_of s"
          by simp_all
        show ?thesis
        proof (cases "failure_of s CStop")
          case None
          with stopAfterPrepare_row(1) [OF t(2)] t ck fl del show ?thesis by (auto simp: run stop_plan_def)
        next
          case (Some e)
          with stopAfterPrepare_row(2) [OF t(2)] t ck fl del show ?thesis by (auto simp: run stop_plan_def)
        qed
      qed
    qed
  qed
qed

lemma stop_enter:
  assumes "row_is st s" "canStopFrom st \<or> st = STOPPING"
  obtains s1 where "prepareStopEnter world_deps s = (Inr None, s1)" "stopping s1"
    "pending (tracker s1) = pending (tracker s)" "workload s1 = workload s" "settles es s1 = settles es s"
    "failure_of s1 = failure_of s"
proof -
  have "canTransition st STOPPING \<or> st = STOPPING" "st \<noteq> STOPPED" using assms(2) by (auto simp: canStopFrom_def)
  with assms show ?thesis
    by (intro that [of "snd (prepareStopEnter world_deps s)"])
       (auto simp: prepareStopEnter_def world_run stopping_def workload_def settles_def)
qed

text \<open>C1: a graceful stop from any stoppable state (or resumed from STOPPING), while the running work
  settles, returns, and its result and the row it leaves are the ones promised for the first step
  that fails.\<close>

theorem stop_refines_spec:
  assumes "row_is st s" "canStopFrom st \<or> st = STOPPING"
    and "pending (tracker s) = workload s" "settles es s"
  shows "\<exists>r t. doStop world_deps es s = Some (r, t)
           \<and> (case stop_spec (failure_of s) stop_plan of (r', st') \<Rightarrow> r = r' \<and> row_is st' t)"
proof -
  obtain s1 where s1: "prepareStopEnter world_deps s = (Inr None, s1)" "stopping s1"
      "pending (tracker s1) = pending (tracker s)" "workload s1 = workload s"
      "settles es s1 = settles es s" "failure_of s1 = failure_of s"
    using stop_enter [OF assms(1,2)] by blast
  with assms obtain s2 where dr: "drain world_deps es s1 = Some s2" and st2: "stopping s2"
    using drain_ends [of s1 es] by auto
  from dr s1(6) have "failure_of s2 = failure_of s" by (simp add: drain_script)
  with stop_finishes [OF st2] s1(1) dr show ?thesis
    by (fastforce simp: doStop_def doPrepareStop_def split: prod.splits sum.splits)
qed

definition sampleWorld :: "runtime_state \<Rightarrow> (call \<times> thrown) list \<Rightarrow> world" where
  "sampleWorld st fs = \<lparr>sstore = newStore [(''w'', st)], clock = 5, fails = map_of fs\<rparr>"

definition sampleRuntime :: "runtime_state \<Rightarrow> (call \<times> thrown) list \<Rightarrow> world runtime" where
  "sampleRuntime st fs = newRuntime ''w'' (sampleWorld st fs)"

lemmas sample_defs = sampleRuntime_def sampleWorld_def newRuntime_def newMachine_def newTracker_def
  newIdleManager_def newStore_def

lemma sample_row:
  "(\<And>c. c \<in> fst ` set fs \<Longrightarrow> \<exists>y. c = CStep y \<or> c = CStart \<or> c = CStop) \<Longrightarrow> row_is st (sampleRuntime st fs)"
  by (auto simp: row_is_def reliable_def sample_defs map_of_eq_None_iff)

theorem stop_refines_spec_witness:
  "\<exists>r t. doStop world_deps [] (sampleRuntime READY [(CStep deleteSandbox, NonError ''x'')]) = Some (r, t)
     \<and> r = Inl (NonError ''x'') \<and> row_is ERROR t"
proof -
  let ?s = "sampleRuntime READY [(CStep deleteSandbox, NonError ''x'')]"
  have "row_is READY ?s" by (rule sample_row) simp
  moreover have "canStopFrom READY \<or> READY = STOPPING" "pending (tracker ?s) = workload ?s" "settles [] ?s"
    by (simp_all add: canStopFrom_def workload_def settles_def sample_defs)
  ultimately show ?thesis
    using stop_refines_spec [of READY ?s "[]"]
    by (simp add: failure_of_def stop_plan_def sample_defs)
qed

text \<open>While the store answers, a stop whose lifecycle checkpoint fails is returned as
  CHECKPOINT_FAILED with the error remembered, never calls the instance stop, and leaves the
  workspace refusing agent input and open to a fresh open.\<close>

theorem failed_checkpoint_keeps_instance:
  assumes "row_is st s" "canStopFrom st \<or> st = STOPPING"
    and "pending (tracker s) = workload s" "settles es s"
    and "failure_of s (CStep runLifecycleCheckpoint) = Some e"
  shows "\<exists>t. doStop world_deps es s = Some (Inr CHECKPOINT_FAILED, t) \<and> row_is CHECKPOINT_FAILED t
           \<and> lastError t = Some e
           \<and> (\<exists>cs. rt_calls t = rt_calls s @ cs \<and> (\<forall>b. (CStop, b) \<notin> set cs))
           \<and> \<not> isAgentInputAllowed CHECKPOINT_FAILED \<and> CHECKPOINT_FAILED \<in> set OPENABLE_STATES"
proof -
  obtain s1 where s1: "prepareStopEnter world_deps s = (Inr None, s1)" "stopping s1"
      "pending (tracker s1) = pending (tracker s)" "workload s1 = workload s"
      "settles es s1 = settles es s" "failure_of s1 = failure_of s"
    using stop_enter [OF assms(1,2)] by blast
  with assms obtain s2 where dr: "drain world_deps es s1 = Some s2" and st2: "stopping s2"
    using drain_ends [of s1 es] by auto
  from dr s1(6) assms(5) have ck: "failure_of s2 (CStep runLifecycleCheckpoint) = Some e"
    by (simp add: drain_script)
  obtain q t where run: "prepareStopFinish world_deps s2 = (q, t)" by fastforce
  from prepareStopFinish_outcome(1) [OF st2 run ck]
  have t: "q = Inr CHECKPOINT_FAILED" "row_is CHECKPOINT_FAILED t" "lastError t = Some e" by simp_all
  have prep: "doPrepareStop world_deps es s = Some (q, t)"
    by (simp add: doPrepareStop_def s1(1) dr run)
  have "adds (\<lambda>c. fst c \<noteq> CStop) s t"
    by (rule adds_prepareStop [OF _ _ _ prep]) auto
  then have "\<exists>cs. rt_calls t = rt_calls s @ cs \<and> (\<forall>b. (CStop, b) \<notin> set cs)"
    by (fastforce simp: adds_def)
  with prep t show ?thesis
    by (simp add: doStop_def doStopAfterPrepare_def ret_def isAgentInputAllowed_iff OPENABLE_STATES_def)
qed

theorem failed_checkpoint_keeps_instance_witness:
  "\<exists>t. doStop world_deps [] (sampleRuntime READY [(CStep runLifecycleCheckpoint, NonError ''x'')])
     = Some (Inr CHECKPOINT_FAILED, t)"
proof -
  let ?s = "sampleRuntime READY [(CStep runLifecycleCheckpoint, NonError ''x'')]"
  have "row_is READY ?s" by (rule sample_row) simp
  moreover have "canStopFrom READY \<or> READY = STOPPING" "pending (tracker ?s) = workload ?s" "settles [] ?s"
      "failure_of ?s (CStep runLifecycleCheckpoint) = Some (NonError ''x'')"
    by (simp_all add: canStopFrom_def workload_def settles_def failure_of_def sample_defs)
  ultimately show ?thesis
    using failed_checkpoint_keeps_instance [of READY ?s "[]" "NonError ''x''"] by blast
qed

text \<open>When the bookkeeping write of CHECKPOINT_FAILED itself fails, the stop goes on with the
  state it had, STOPPING: the instance is stopped although its lifecycle checkpoint failed.\<close>

theorem failed_checkpoint_may_stop_instance:
  "\<exists>t. doStop world_deps []
        (sampleRuntime READY
          [(CStep runLifecycleCheckpoint, NonError ''checkpoint''),
           (CApply STOPPING CHECKPOINT_FAILED ''lifecycle-checkpoint-failed'', NonError ''connection lost'')])
        = Some (Inr STOPPED, t)
     \<and> (CStep runLifecycleCheckpoint, False) \<in> set (rt_calls t)
     \<and> (CStop, True) \<in> set (rt_calls t)
     \<and> store_row (sstore (wd (env t))) ''w'' = STOPPED"
  by (simp add: doStop_def doPrepareStop_def prepareStopEnter_def prepareStopFinish_def doStopAfterPrepare_def
      comp_defs reloadState_def onMachine_def machine_reload_def traced_def world_deps_def scripted_def
      store_load_def sample_defs canStopFrom_def transition_def machine_transition_def assertTransition_def
      world_apply_def store_apply_def isOk_def collaborator_def noteFailure_def setLastError_def
      recordFailureStateBestEffort_def machine_canTransition_def runSteps_def rt_recordActivity_def
      getState_def rt_calls_def store_row_def)

end
