(* ===== verification/Runtime_Open.thy ===== *)
theory Runtime_Open
  imports Runtime_Lifecycle
begin

text \<open>
  Opening a workspace over the concrete world, in one process or handed from the control plane to
  the agent host; the agent gate; the drain; the idle stop; and a run of overlapping subprocesses.
\<close>

section \<open>Open, in one process or in two\<close>

text \<open>What a restore promises: READY, or RESTORE_FAILED with the error of the first step that fails.\<close>

fun restore_spec ::
  "(call \<Rightarrow> thrown option) \<Rightarrow> lifecycle_step list \<Rightarrow> (thrown + runtime_state) \<times> runtime_state" where
  "restore_spec fl [] = (Inr READY, READY)"
| "restore_spec fl (y # ys) =
     (case fl (CStep y) of None \<Rightarrow> restore_spec fl ys | Some e \<Rightarrow> (Inl e, RESTORE_FAILED))"

definition open_spec :: "(call \<Rightarrow> thrown option) \<Rightarrow> (thrown + runtime_state) \<times> runtime_state" where
  "open_spec fl = (case fl CStart of None \<Rightarrow> restore_spec fl restoreSteps | Some e \<Rightarrow> (Inl e, RESTORE_FAILED))"

text \<open>The outcome of a run: its result and the row it leaves.\<close>

definition ends_as :: "(thrown + runtime_state) \<times> world runtime \<Rightarrow> (thrown + runtime_state) \<times> runtime_state \<Rightarrow> bool" where
  "ends_as out spec \<longleftrightarrow> fst out = fst spec \<and> row_is (snd spec) (snd out)"

lemma runSteps_world:
  assumes "row_is st s"
  shows "\<exists>t. runSteps world_deps ys s = (case restore_spec (failure_of s) ys of (Inl e, _) \<Rightarrow> Inl e | _ \<Rightarrow> Inr (), t)
           \<and> row_is st t \<and> getState t = getState s \<and> failure_of t = failure_of s"
  using assms
proof (induction ys arbitrary: s)
  case Nil
  then show ?case by (simp add: runSteps_def ret_def)
next
  case (Cons y ys)
  show ?case
  proof (cases "failure_of s (CStep y)")
    case None
    obtain t where "runSteps world_deps ys (logged (CStep y) True s)
          = (case restore_spec (failure_of s) ys of (Inl e, _) \<Rightarrow> Inl e | _ \<Rightarrow> Inr (), t)"
        "row_is st t" "getState t = getState s" "failure_of t = failure_of s"
      using Cons.IH [of "logged (CStep y) True s"] Cons.prems by auto
    with None show ?thesis by (simp add: runSteps_def comp_defs world_collaborators)
  next
    case (Some e)
    with Cons.prems show ?thesis by (simp add: runSteps_def comp_defs world_collaborators)
  qed
qed

lemma restore_spec_cases:
  "(\<exists>e. restore_spec fl ys = (Inl e, RESTORE_FAILED)) \<or> restore_spec fl ys = (Inr READY, READY)"
  by (induction ys) (auto split: option.splits)

lemma restore_from_RESTORING:
  assumes "row_is RESTORING s" "getState s = RESTORING"
  shows "ends_as (catchC (thenC (runSteps world_deps restoreSteps)
           (thenC (transition world_deps READY ''restore-complete'')
           (thenC (setLastError None)
           (thenC (rt_recordActivity world_deps workspace_operation) (getC getState)))))
         (\<lambda>e. failWith world_deps e RESTORE_FAILED ''restore-failed'') s)
         (restore_spec (failure_of s) restoreSteps)"
proof -
  obtain t where t: "runSteps world_deps restoreSteps s
        = (case restore_spec (failure_of s) restoreSteps of (Inl e, _) \<Rightarrow> Inl e | _ \<Rightarrow> Inr (), t)"
      "row_is RESTORING t" "getState t = RESTORING"
    using runSteps_world [OF assms(1), of restoreSteps] assms(2) by auto
  from restore_spec_cases [of "failure_of s" restoreSteps] show ?thesis
    using t by (auto simp: ends_as_def comp_defs transition_row_is row_is_moved failWith_row_is
                  setLastError_def rt_recordActivity_def simp del: restore_spec.simps)
qed

lemma restore_ends_as:
  assumes "row_is st s" "st \<in> set RESTORABLE_STATES"
  shows "ends_as (doCompleteRestorePhase world_deps s) (restore_spec (failure_of s) restoreSteps)"
proof -
  let ?starting = "if st = STARTING \<or> st = RESTORING then adopt st s else moved st STARTING ''open'' (adopt st s)"
  let ?restoring = "if st = RESTORING then ?starting else moved STARTING RESTORING ''instance-healthy'' ?starting"
  have st: "st \<noteq> READY" "st \<noteq> STARTING \<Longrightarrow> st \<noteq> RESTORING \<Longrightarrow> canTransition st STARTING"
    using assms(2) by (auto simp: RESTORABLE_STATES_def)
  have row: "row_is RESTORING ?restoring" "getState ?restoring = RESTORING"
    "failure_of ?restoring = failure_of s"
    using assms(1) st by (auto simp: row_is_moved)
  have "doCompleteRestorePhase world_deps s = catchC (thenC (runSteps world_deps restoreSteps)
           (thenC (transition world_deps READY ''restore-complete'')
           (thenC (setLastError None)
           (thenC (rt_recordActivity world_deps workspace_operation) (getC getState)))))
         (\<lambda>e. failWith world_deps e RESTORE_FAILED ''restore-failed'') ?restoring"
    using assms st
    by (auto simp: doCompleteRestorePhase_def bindC_def thenC_def catchC_def getC_def ret_def
          reload_row_is transition_row_is row_is_moved simp del: runSteps_def)
  with restore_from_RESTORING [OF row(1,2)] row(3) show ?thesis by simp
qed

lemma start_outcome:
  assumes "row_is st s" "st \<in> set OPENABLE_STATES"
  shows "failure_of s CStart = Some e \<Longrightarrow>
           \<exists>t. doStartInstancePhase world_deps s = (Inl e, t) \<and> row_is RESTORE_FAILED t"
    and "failure_of s CStart = None \<Longrightarrow>
           \<exists>t. doStartInstancePhase world_deps s = (Inr STARTING, t) \<and> row_is STARTING t
             \<and> failure_of t = failure_of s \<and> workspaceId (machine t) = workspaceId (machine s)"
proof -
  have st: "st \<noteq> READY" "canTransition st STARTING"
    using assms(2) by (auto simp: OPENABLE_STATES_def)
  show "failure_of s CStart = Some e \<Longrightarrow>
           \<exists>t. doStartInstancePhase world_deps s = (Inl e, t) \<and> row_is RESTORE_FAILED t"
    using assms st by (simp add: doStartInstancePhase_def world_run)
  show "failure_of s CStart = None \<Longrightarrow>
           \<exists>t. doStartInstancePhase world_deps s = (Inr STARTING, t) \<and> row_is STARTING t
             \<and> failure_of t = failure_of s \<and> workspaceId (machine t) = workspaceId (machine s)"
    using assms st
    by (simp add: doStartInstancePhase_def world_run) (simp add: moved_def adopt_def logged_def)
qed

lemma fresh_runtime_sees:
  assumes "row_is st t"
  shows "row_is st (newRuntime (workspaceId (machine t)) (wd (env t)))"
    and "failure_of (newRuntime (workspaceId (machine t)) (wd (env t))) = failure_of t"
  using assms by (simp_all add: row_is_def newRuntime_def newMachine_def failure_of_def fun_eq_iff)

text \<open>From every openable state, a single-process open ends as promised for the first step that
  fails; and when the instance starts, the control plane's half leaves STARTING, from which a fresh
  runtime in another process, sharing only the store, completes to the same outcome.\<close>

theorem open_split_over_processes:
  assumes "row_is st s" "st \<in> set OPENABLE_STATES"
  shows "ends_as (doOpen world_deps s) (open_spec (failure_of s))
       \<and> (failure_of s CStart = None \<longrightarrow>
            (\<exists>t. doStartInstancePhase world_deps s = (Inr STARTING, t) \<and> row_is STARTING t
              \<and> ends_as (doCompleteRestorePhase world_deps
                          (newRuntime (workspaceId (machine s)) (wd (env t))))
                        (open_spec (failure_of s))))"
proof (cases "failure_of s CStart")
  case (Some e)
  with start_outcome(1) [OF assms Some] show ?thesis
    by (auto simp: doOpen_def comp_defs open_spec_def ends_as_def)
next
  case None
  from start_outcome(2) [OF assms None] obtain t
    where t: "doStartInstancePhase world_deps s = (Inr STARTING, t)" "row_is STARTING t"
      "failure_of t = failure_of s" "workspaceId (machine t) = workspaceId (machine s)" by blast
  have "ends_as (doCompleteRestorePhase world_deps t) (open_spec (failure_of s))"
    using restore_ends_as [OF t(2)] t(3) None by (simp add: open_spec_def RESTORABLE_STATES_def)
  moreover have "ends_as (doCompleteRestorePhase world_deps
                    (newRuntime (workspaceId (machine t)) (wd (env t)))) (open_spec (failure_of s))"
    using restore_ends_as [OF fresh_runtime_sees(1) [OF t(2)]] fresh_runtime_sees(2) [OF t(2)] t(3) None
    by (simp add: open_spec_def RESTORABLE_STATES_def)
  ultimately show ?thesis using t None by (auto simp: doOpen_def thenC_def bindC_def)
qed

theorem open_split_over_processes_witness:
  "ends_as (doOpen world_deps (sampleRuntime ERROR [(CStep createSandbox, NonError ''x'')]))
     (Inl (NonError ''x''), RESTORE_FAILED)
   \<and> ends_as (doOpen world_deps (sampleRuntime STOPPED [])) (Inr READY, READY)"
proof -
  have "row_is ERROR (sampleRuntime ERROR [(CStep createSandbox, NonError ''x'')])"
    "row_is STOPPED (sampleRuntime STOPPED [])" by (rule sample_row; simp)+
  from open_split_over_processes [OF this(1)] open_split_over_processes [OF this(2)] show ?thesis
    by (simp add: OPENABLE_STATES_def open_spec_def failure_of_def restoreSteps_def sample_defs)
qed

section \<open>The agent gate\<close>

text \<open>Whatever the runtime last believed, while the row is in a state that refuses agent input
  every turn and every tracked operation is refused with that state, and nothing is started: the
  work in progress, the idle manager and the row are as before.\<close>

theorem agent_input_refused:
  assumes "row_is st s" "st \<in> set AGENT_INPUT_REFUSED_STATES"
  shows "\<exists>t. beginAgentTurn world_deps s = (Inl (throw_new (AgentInputRefusedError st)), t)
           \<and> beginTracked world_deps k s = (Inl (throw_new (AgentInputRefusedError st)), t)
           \<and> sameWork s t \<and> idle t = idle s \<and> row_is st t
           \<and> rt_calls t = rt_calls s @ [(CLoad, True)]"
proof (intro exI [of _ "adopt st s"] conjI)
  have "\<not> isAgentInputAllowed st" using assms(2) by (simp add: isAgentInputAllowed_def)
  with assms(1) have gate: "assertAgentInputAllowed world_deps s
      = (Inl (throw_new (AgentInputRefusedError st)), adopt st s)"
    by (simp add: assertAgentInputAllowed_def world_run)
  show "beginAgentTurn world_deps s = (Inl (throw_new (AgentInputRefusedError st)), adopt st s)"
    by (simp add: beginAgentTurn_def gate comp_defs)
  show "beginTracked world_deps k s = (Inl (throw_new (AgentInputRefusedError st)), adopt st s)"
    using gate by (cases k) (simp_all add: comp_defs)
qed (use assms(1) in \<open>simp_all add: sameWork_def\<close>)

theorem agent_input_refused_witness:
  "fst (beginTracked world_deps Subprocess (sampleRuntime RESTORE_FAILED []))
     = Inl (throw_new (AgentInputRefusedError RESTORE_FAILED))"
proof -
  have "row_is RESTORE_FAILED (sampleRuntime RESTORE_FAILED [])" by (rule sample_row) simp
  from agent_input_refused [OF this, of Subprocess] show ?thesis
    by (auto simp: AGENT_INPUT_REFUSED_STATES_def)
qed

section \<open>The drain\<close>


definition busySample :: "world runtime" where
  "busySample = snd (beginTracked world_deps ToolInvocation (sampleRuntime READY []))"

lemmas sample_run = comp_defs reloadState_def onMachine_def machine_reload_def traced_def world_deps_def
  scripted_def store_load_def sample_defs rt_recordActivity_def idle_defs beginOperation_def
  tracker_begin_def tracker_end_def endOperation_def assertAgentInputAllowed_def isAgentInputAllowed_iff isOk_def


section \<open>Overlapping subprocesses\<close>

text \<open>The flag of the idle manager is one boolean for all subprocesses: of two that overlap, the end
  of the first clears it, and after thirty minutes a stop is proposed while the second still runs.\<close>

theorem overlapping_subprocess_forgotten:
  "\<exists>s. s = rt_run world_deps [BeginOp Subprocess, BeginOp Subprocess, EndOp Subprocess True]
             (sampleRuntime READY [])
     \<and> inflight s = [Subprocess] \<and> getState s = READY \<and> shouldStop (5 + IDLE_TIMEOUT_MS) (idle s)"
  by (simp add: rt_run_def rt_step.simps endTracked_def sample_run getState_def
      isMeaningfulActivity_def MEANINGFUL_ACTIVITIES_def)

end
