(* ===== verification/Runtime_Coalesce.thy ===== *)
theory Runtime_Coalesce
  imports Prelude
begin

text \<open>
  The coalescing of concurrent calls in \<open>packages/workspace-runtime/src/runtime.ts\<close>: \<open>open\<close>,
  \<open>openInstance\<close>, \<open>completeRestore\<close>, \<open>stop\<close> and \<open>prepareStop\<close> each keep the promise of the operation
  that is running in a slot, hand it to every caller that comes meanwhile, and empty the slot when
  it settles. One such slot is modelled, for an operation with results of any type.
\<close>

section \<open>One slot\<close>

text \<open>
  Promises are numbered in the order their operations were started; \<open>callers\<close> says which promise
  each call was given, oldest first, and \<open>settled\<close> the results so far.
\<close>

record 'r coalescer =
  slot :: "nat option"
  started :: nat
  callers :: "(string \<times> nat) list"
  settled :: "(nat \<times> 'r) list"

definition newCoalescer :: "'r coalescer" where
  "newCoalescer = \<lparr>slot = None, started = 0, callers = [], settled = []\<rparr>"

definition coalesced_call :: "string \<Rightarrow> 'r coalescer \<Rightarrow> 'r coalescer" where
  "coalesced_call c s =
     (case slot s of
        Some p \<Rightarrow> s\<lparr>callers := callers s @ [(c, p)]\<rparr>
      | None \<Rightarrow> s\<lparr>slot := Some (started s), started := started s + 1,
                  callers := callers s @ [(c, started s)]\<rparr>)"

text \<open>The operation settles: its promise gets the result and \<open>finally\<close> empties the slot.\<close>

definition coalesced_settle :: "'r \<Rightarrow> 'r coalescer \<Rightarrow> 'r coalescer" where
  "coalesced_settle r s =
     (case slot s of None \<Rightarrow> s | Some p \<Rightarrow> s\<lparr>slot := None, settled := settled s @ [(p, r)]\<rparr>)"

text \<open>The operation that runs, if any, is the last one started, and all before it have settled.\<close>

definition one_running :: "'r coalescer \<Rightarrow> bool" where
  "one_running s \<longleftrightarrow>
     map fst (settled s) = [0 ..< started s - (if slot s = None then 0 else 1)]
     \<and> (\<forall>p. slot s = Some p \<longrightarrow> started s = Suc p)
     \<and> (\<forall>p \<in> snd ` set (callers s). p < started s)"

datatype 'r coalesced_event = Call string | Settle 'r

fun coalesced_step :: "'r coalesced_event \<Rightarrow> 'r coalescer \<Rightarrow> 'r coalescer" where
  "coalesced_step (Call c) s = coalesced_call c s"
| "coalesced_step (Settle r) s = coalesced_settle r s"

definition coalesced_run :: "'r coalesced_event list \<Rightarrow> 'r coalescer \<Rightarrow> 'r coalescer" where
  "coalesced_run es s = fold coalesced_step es s"

lemma one_running_call: "one_running s \<Longrightarrow> one_running (coalesced_call c s)"
  by (cases "slot s") (auto simp: one_running_def coalesced_call_def less_Suc_eq)

lemma one_running_settle:
  assumes "one_running s" shows "one_running (coalesced_settle r s)"
proof (cases "slot s")
  case (Some p)
  then have "started s = Suc p" "map fst (settled s) = [0..<p]"
    using assms by (auto simp: one_running_def)
  with Some assms show ?thesis by (auto simp: one_running_def coalesced_settle_def)
qed (use assms in \<open>simp add: coalesced_settle_def\<close>)

lemma one_running_run: "one_running s \<Longrightarrow> one_running (coalesced_run es s)"
proof (induction es arbitrary: s)
  case (Cons e es)
  from Cons.prems have "one_running (coalesced_step e s)"
    by (cases e) (simp_all add: one_running_call one_running_settle)
  from Cons.IH [OF this] show ?case by (simp add: coalesced_run_def)
qed (simp add: coalesced_run_def)

lemma calls_share:
  assumes "slot s = Some p" "filter (\<lambda>e. \<exists>r. e = Settle r) es = []"
  shows "slot (coalesced_run es s) = Some p" and "started (coalesced_run es s) = started s"
    and "callers (coalesced_run es s) = callers s @ map (\<lambda>e. (case e of Call c \<Rightarrow> c | Settle _ \<Rightarrow> [], p)) es"
proof -
  have "slot (coalesced_run es s) = Some p \<and> started (coalesced_run es s) = started s \<and>
     callers (coalesced_run es s) = callers s @ map (\<lambda>e. (case e of Call c \<Rightarrow> c | Settle _ \<Rightarrow> [], p)) es"
    using assms
  proof (induction es arbitrary: s)
    case (Cons e es)
    then obtain c where "e = Call c" by (cases e) auto
    with Cons show ?case by (simp add: coalesced_run_def coalesced_call_def)
  qed (simp add: coalesced_run_def)
  then show "slot (coalesced_run es s) = Some p" "started (coalesced_run es s) = started s"
    "callers (coalesced_run es s) = callers s @ map (\<lambda>e. (case e of Call c \<Rightarrow> c | Settle _ \<Rightarrow> [], p)) es"
    by simp_all
qed

text \<open>C7: in every sequence of calls and completions, each operation starts only after the one before it
  settled, and after it every call up to its completion starts nothing and is given its result.\<close>

theorem concurrent_calls_coalesce:
  assumes "slot (coalesced_run es newCoalescer) = None"
    and "filter (\<lambda>e. \<exists>r. e = Settle r) cs = []"
  shows "\<exists>p. p = started (coalesced_run es newCoalescer)
     \<and> map fst (settled (coalesced_run es newCoalescer)) = [0 ..< p]
     \<and> (let s = coalesced_run (es @ Call c # cs @ [Settle r]) newCoalescer in
          started s = Suc p \<and> slot s = None \<and> last (settled s) = (p, r)
          \<and> (\<exists>names. callers s = callers (coalesced_run es newCoalescer) @ (c, p) # map (\<lambda>n. (n, p)) names
                \<and> length names = length cs))"
proof -
  let ?s = "coalesced_run es newCoalescer"
  let ?t = "coalesced_call c ?s"
  have t: "slot ?t = Some (started ?s)" "started ?t = Suc (started ?s)"
      "callers ?t = callers ?s @ [(c, started ?s)]" "settled ?t = settled ?s"
    using assms(1) by (simp_all add: coalesced_call_def)
  have "one_running (newCoalescer :: 'a coalescer)" by (simp add: one_running_def newCoalescer_def)
  then have "one_running ?s" by (rule one_running_run)
  then have fin: "map fst (settled ?s) = [0 ..< started ?s]" using assms(1) by (simp add: one_running_def)
  have run: "coalesced_run (es @ Call c # cs @ [Settle r]) newCoalescer
      = coalesced_settle r (coalesced_run cs ?t)"
    by (simp add: coalesced_run_def)
  note sh = calls_share [OF t(1) assms(2)]
  have "callers (coalesced_run cs ?t) = callers ?s @ (c, started ?s) #
      map (\<lambda>n. (n, started ?s)) (map (\<lambda>e. case e of Call c \<Rightarrow> c | Settle _ \<Rightarrow> []) cs)"
    by (simp add: sh(3) t(3))
  moreover have "length (map (\<lambda>e. case e of Call c \<Rightarrow> c | Settle _ \<Rightarrow> []) cs) = length cs" by simp
  ultimately obtain names where "length names = length cs"
      "callers (coalesced_run cs ?t) = callers ?s @ (c, started ?s) # map (\<lambda>n. (n, started ?s)) names"
    by blast
  then show ?thesis
    using fin unfolding run
    by (intro exI [of _ "started ?s"]) (auto simp: coalesced_settle_def sh(1,2) t(2) Let_def)
qed

theorem concurrent_calls_coalesce_witness:
  "started (coalesced_run [Call ''a'', Call ''b'', Call ''c'', Settle (7::int)] newCoalescer) = 1
   \<and> last (settled (coalesced_run [Call ''a'', Call ''b'', Call ''c'', Settle (7::int)] newCoalescer)) = (0, 7)"
proof -
  have idle: "slot (coalesced_run [] newCoalescer :: int coalescer) = None"
    by (simp add: coalesced_run_def newCoalescer_def)
  from concurrent_calls_coalesce [OF idle, of "[Call ''b'', Call ''c'']" "''a''" 7] show ?thesis
    by (simp add: coalesced_run_def newCoalescer_def Let_def)
qed

end
