(* ===== verification/Lease.thy ===== *)
theory Lease
  imports Prelude
begin

text \<open>
  The controller lease (\<open>packages/controller-lease/src/index.ts\<close>): one controller per workspace,
  renewed by heartbeats, replaced by takeovers. The store contract \<open>LeaseStore\<close> is a locale, the
  service is defined over any store, and the contract is interpreted on the in-memory store of
  \<open>testing.ts\<close>. Times are integer milliseconds.
\<close>

section \<open>Records, errors and the store interface\<close>

definition HEARTBEAT_INTERVAL_MS :: int where
  "HEARTBEAT_INTERVAL_MS = 15000"

definition LEASE_EXPIRY_MS :: int where
  "LEASE_EXPIRY_MS = 45000"

record ControllerLeaseRecord =
  cl_workspaceId :: string
  controllerId :: string
  userId :: string
  expiresAt :: int
  updatedAt :: int

datatype lease_error =
    LeaseAlreadyHeldError string string
  | NotLeaseOwnerError string string
  | LeaseNotFoundError string
  | LeaseExpiredError string
  | StoreError string

text \<open>
  The operations of a store over its own state \<open>'s\<close>: the four of a transaction, and the two
  single-statement conditional writes.
\<close>

record 's LeaseStore =
  findByWorkspaceId :: "string \<Rightarrow> ('s, lease_error, ControllerLeaseRecord option) comp"
  tx_insert :: "ControllerLeaseRecord \<Rightarrow> ('s, lease_error, unit) comp"
  tx_update :: "ControllerLeaseRecord \<Rightarrow> ('s, lease_error, unit) comp"
  tx_delete :: "string \<Rightarrow> ('s, lease_error, unit) comp"
  upsertIfExpired :: "ControllerLeaseRecord \<Rightarrow> int \<Rightarrow> ('s, lease_error, ControllerLeaseRecord option) comp"
  extendIfOwner :: "string \<Rightarrow> string \<Rightarrow> int \<Rightarrow> int \<Rightarrow> ('s, lease_error, ControllerLeaseRecord option) comp"

text \<open>A transaction is serialised, so it is one step; when it throws, its writes are undone.\<close>

definition transaction :: "('s, lease_error, 'a) comp \<Rightarrow> ('s, lease_error, 'a) comp" where
  "transaction fn = (\<lambda>s. case fn s of (Inl e, _) \<Rightarrow> (Inl e, s) | (Inr a, s') \<Rightarrow> (Inr a, s'))"

section \<open>The lease service\<close>

definition new_lease :: "int \<Rightarrow> string \<Rightarrow> string \<Rightarrow> string \<Rightarrow> ControllerLeaseRecord" where
  "new_lease now w c u = \<lparr>cl_workspaceId = w, controllerId = c, userId = u,
     expiresAt = now + LEASE_EXPIRY_MS, updatedAt = now\<rparr>"

text \<open>
  A conditional write that fails is classified by a second read, and other processes may change the
  store in between: \<open>between\<close> is what they do.
\<close>

definition acquire ::
  "'s LeaseStore \<Rightarrow> int \<Rightarrow> ('s \<Rightarrow> 's) \<Rightarrow> string \<Rightarrow> string \<Rightarrow> string
   \<Rightarrow> ('s, lease_error, ControllerLeaseRecord) comp" where
  "acquire S now between w c u =
     bindC (upsertIfExpired S (new_lease now w c u) now) (\<lambda>stored. case stored of
         None \<Rightarrow>
           thenC (modifyC between)
             (bindC (transaction (findByWorkspaceId S w)) (\<lambda>holder.
                throwC (LeaseAlreadyHeldError w
                  (case holder of None \<Rightarrow> ''unknown'' | Some h \<Rightarrow> controllerId h))))
       | Some r \<Rightarrow> ret r)"

definition heartbeat ::
  "'s LeaseStore \<Rightarrow> int \<Rightarrow> ('s \<Rightarrow> 's) \<Rightarrow> string \<Rightarrow> string
   \<Rightarrow> ('s, lease_error, ControllerLeaseRecord) comp" where
  "heartbeat S now between w c =
     bindC (extendIfOwner S w c (now + LEASE_EXPIRY_MS) now) (\<lambda>updated. case updated of
         Some r \<Rightarrow> ret r
       | None \<Rightarrow>
           thenC (modifyC between)
             (bindC (transaction (findByWorkspaceId S w)) (\<lambda>existing. case existing of
                 None \<Rightarrow> throwC (LeaseNotFoundError w)
               | Some r \<Rightarrow>
                   if controllerId r \<noteq> c then throwC (NotLeaseOwnerError w c)
                   else if expiresAt r \<le> now then throwC (LeaseExpiredError w)
                   else throwC (NotLeaseOwnerError w c))))"

definition release :: "'s LeaseStore \<Rightarrow> string \<Rightarrow> string \<Rightarrow> ('s, lease_error, unit) comp" where
  "release S w c =
     transaction (bindC (findByWorkspaceId S w) (\<lambda>existing. case existing of
         None \<Rightarrow> throwC (LeaseNotFoundError w)
       | Some r \<Rightarrow> if controllerId r \<noteq> c then throwC (NotLeaseOwnerError w c) else tx_delete S w))"

record TakeoverResult =
  to_lease :: ControllerLeaseRecord
  previousControllerId :: "string option"
  previousUserId :: "string option"

definition takeover ::
  "'s LeaseStore \<Rightarrow> int \<Rightarrow> string \<Rightarrow> string \<Rightarrow> string \<Rightarrow> ('s, lease_error, TakeoverResult) comp" where
  "takeover S now w c u =
     transaction (bindC (findByWorkspaceId S w) (\<lambda>existing.
       thenC (if existing \<noteq> None then tx_update S (new_lease now w c u)
              else tx_insert S (new_lease now w c u))
         (ret \<lparr>to_lease = new_lease now w c u,
                previousControllerId = map_option controllerId existing,
                previousUserId = map_option userId existing\<rparr>)))"

definition lease_get :: "'s LeaseStore \<Rightarrow> string \<Rightarrow> ('s, lease_error, ControllerLeaseRecord option) comp" where
  "lease_get S w = transaction (findByWorkspaceId S w)"

definition getActive ::
  "'s LeaseStore \<Rightarrow> int \<Rightarrow> string \<Rightarrow> ('s, lease_error, ControllerLeaseRecord option) comp" where
  "getActive S now w =
     bindC (lease_get S w) (\<lambda>lease. ret (case lease of
         None \<Rightarrow> None
       | Some r \<Rightarrow> if expiresAt r \<le> now then None else Some r))"

lemmas lease_op_defs = acquire_def heartbeat_def release_def takeover_def lease_get_def getActive_def
  transaction_def

section \<open>The in-memory store\<close>

type_synonym lease_rows = "string \<rightharpoonup> ControllerLeaseRecord"

definition mem_insert :: "ControllerLeaseRecord \<Rightarrow> (lease_rows, lease_error, unit) comp" where
  "mem_insert r = (\<lambda>d. if d (cl_workspaceId r) \<noteq> None
     then (Inl (StoreError (''duplicate key: '' @ cl_workspaceId r)), d)
     else (Inr (), d(cl_workspaceId r \<mapsto> r)))"

definition mem_upsertIfExpired ::
  "ControllerLeaseRecord \<Rightarrow> int \<Rightarrow> (lease_rows, lease_error, ControllerLeaseRecord option) comp" where
  "mem_upsertIfExpired r now = (\<lambda>d.
     case d (cl_workspaceId r) of
       Some e \<Rightarrow> if expiresAt e > now then (Inr None, d) else (Inr (Some r), d(cl_workspaceId r \<mapsto> r))
     | None \<Rightarrow> (Inr (Some r), d(cl_workspaceId r \<mapsto> r)))"

definition mem_extendIfOwner ::
  "string \<Rightarrow> string \<Rightarrow> int \<Rightarrow> int \<Rightarrow> (lease_rows, lease_error, ControllerLeaseRecord option) comp" where
  "mem_extendIfOwner w c extendTo now = (\<lambda>d.
     case d w of
       None \<Rightarrow> (Inr None, d)
     | Some e \<Rightarrow>
         if controllerId e \<noteq> c \<or> expiresAt e \<le> now then (Inr None, d)
         else let r = e\<lparr>expiresAt := extendTo, updatedAt := now\<rparr> in (Inr (Some r), d(w \<mapsto> r)))"

definition InMemoryLeaseStore :: "lease_rows LeaseStore" where
  "InMemoryLeaseStore = \<lparr>
     findByWorkspaceId = (\<lambda>w. getC (\<lambda>d. d w)),
     tx_insert = mem_insert,
     tx_update = (\<lambda>r. modifyC (\<lambda>d. d(cl_workspaceId r \<mapsto> r))),
     tx_delete = (\<lambda>w. modifyC (\<lambda>d. d(w := None))),
     upsertIfExpired = mem_upsertIfExpired,
     extendIfOwner = mem_extendIfOwner\<rparr>"

section \<open>The SQL store\<close>

text \<open>
  \<open>BunSqlLeaseStore\<close> of \<open>apps/agent-host/src/adapters.ts\<close>: each operation is one statement on the
  table, whose primary key is the workspace; a statement may fail for reasons of the database,
  here scripted by \<open>down\<close>. An UPDATE changes only a row that is there.
\<close>

record lease_db =
  controller_leases :: lease_rows
  down :: "string \<Rightarrow> string option"

definition statement :: "string \<Rightarrow> (lease_rows \<Rightarrow> 'a \<times> lease_rows) \<Rightarrow> (lease_db, lease_error, 'a) comp" where
  "statement name f = (\<lambda>db. case down db name of
       Some msg \<Rightarrow> (Inl (StoreError msg), db)
     | None \<Rightarrow> (case f (controller_leases db) of (a, rows) \<Rightarrow> (Inr a, db\<lparr>controller_leases := rows\<rparr>)))"

definition sql_insert :: "ControllerLeaseRecord \<Rightarrow> (lease_db, lease_error, unit) comp" where
  "sql_insert r =
     bindC (statement ''insert'' (\<lambda>t. if t (cl_workspaceId r) \<noteq> None then (False, t) else (True, t(cl_workspaceId r \<mapsto> r))))
       (\<lambda>ok. guardC ok (StoreError ''unique violation''))"

definition sql_upsertIfExpired ::
  "ControllerLeaseRecord \<Rightarrow> int \<Rightarrow> (lease_db, lease_error, ControllerLeaseRecord option) comp" where
  "sql_upsertIfExpired r now = statement ''upsert'' (\<lambda>t.
     case t (cl_workspaceId r) of
       None \<Rightarrow> (Some r, t(cl_workspaceId r \<mapsto> r))
     | Some e \<Rightarrow> if expiresAt e \<le> now then (Some r, t(cl_workspaceId r \<mapsto> r)) else (None, t))"

definition sql_extendIfOwner ::
  "string \<Rightarrow> string \<Rightarrow> int \<Rightarrow> int \<Rightarrow> (lease_db, lease_error, ControllerLeaseRecord option) comp" where
  "sql_extendIfOwner w c extendTo now = statement ''extend'' (\<lambda>t.
     case t w of
       None \<Rightarrow> (None, t)
     | Some e \<Rightarrow>
         if controllerId e = c \<and> expiresAt e > now
         then let r = e\<lparr>expiresAt := extendTo, updatedAt := now\<rparr> in (Some r, t(w \<mapsto> r))
         else (None, t))"

definition BunSqlLeaseStore :: "lease_db LeaseStore" where
  "BunSqlLeaseStore = \<lparr>
     findByWorkspaceId = (\<lambda>w. statement ''select'' (\<lambda>t. (t w, t))),
     tx_insert = sql_insert,
     tx_update = (\<lambda>r. statement ''update'' (\<lambda>t.
        ((), if t (cl_workspaceId r) = None then t else t(cl_workspaceId r \<mapsto> r)))),
     tx_delete = (\<lambda>w. statement ''delete'' (\<lambda>t. ((), t(w := None)))),
     upsertIfExpired = sql_upsertIfExpired,
     extendIfOwner = sql_extendIfOwner\<rparr>"

section \<open>The contract of a lease store\<close>

text \<open>
  \<open>rows s w\<close> is the row of a workspace. Reads write nothing and report the row; the conditional
  writes succeed exactly under their condition; an operation that throws changes no row.
\<close>

locale lease_store =
  fixes S :: "'s LeaseStore" and rows :: "'s \<Rightarrow> lease_rows"
  assumes find_reads: "findByWorkspaceId S w s = (Inr p, s') \<Longrightarrow> p = rows s w \<and> rows s' = rows s"
    and insert_adds: "tx_insert S r s = (Inr u, s') \<Longrightarrow> rows s' = (rows s)(cl_workspaceId r \<mapsto> r)"
    and update_writes: "tx_update S r s = (Inr u, s') \<Longrightarrow> rows s (cl_workspaceId r) \<noteq> None \<Longrightarrow>
          rows s' = (rows s)(cl_workspaceId r \<mapsto> r)"
    and delete_drops: "tx_delete S w s = (Inr u, s') \<Longrightarrow> rows s' = (rows s)(w := None)"
    and upsert_writes: "upsertIfExpired S r now s = (Inr (Some r'), s') \<Longrightarrow>
          r' = r \<and> rows s' = (rows s)(cl_workspaceId r \<mapsto> r)
          \<and> (rows s (cl_workspaceId r) = None \<or> (\<exists>e. rows s (cl_workspaceId r) = Some e \<and> expiresAt e \<le> now))"
    and upsert_held: "upsertIfExpired S r now s = (Inr None, s') \<Longrightarrow>
          rows s' = rows s \<and> (\<exists>e. rows s (cl_workspaceId r) = Some e \<and> now < expiresAt e)"
    and extend_writes: "extendIfOwner S w c t now s = (Inr (Some r'), s') \<Longrightarrow>
          (\<exists>e. rows s w = Some e \<and> controllerId e = c \<and> now < expiresAt e
             \<and> r' = e\<lparr>expiresAt := t, updatedAt := now\<rparr> \<and> rows s' = (rows s)(w \<mapsto> r'))"
    and extend_refused: "extendIfOwner S w c t now s = (Inr None, s') \<Longrightarrow>
          rows s' = rows s \<and> (\<forall>e. rows s w = Some e \<longrightarrow> controllerId e \<noteq> c \<or> expiresAt e \<le> now)"
    and failed_writes: "findByWorkspaceId S w s = (Inl e, s') \<Longrightarrow> rows s' = rows s"
      "upsertIfExpired S r now s = (Inl e, s') \<Longrightarrow> rows s' = rows s"
      "extendIfOwner S w c t now s = (Inl e, s') \<Longrightarrow> rows s' = rows s"
begin

lemma acquire_ok:
  "acquire S now between w c u s = (Inr l, s') \<Longrightarrow>
     rows s' = (rows s)(w \<mapsto> new_lease now w c u) \<and> l = new_lease now w c u
     \<and> (rows s w = None \<or> (\<exists>e. rows s w = Some e \<and> expiresAt e \<le> now))"
  by (auto simp: acquire_def comp_defs new_lease_def split: prod.splits sum.splits option.splits
           dest!: upsert_writes)

lemma acquire_refused:
  assumes "acquire S now between w c u s = (Inl e, s')"
  shows "rows s' = rows s \<or> (\<exists>t. rows t = rows s \<and> rows s' = rows (between t))"
proof -
  obtain q t where up: "upsertIfExpired S (new_lease now w c u) now s = (q, t)" by fastforce
  show ?thesis
  proof (cases q)
    case (Inl e')
    with up assms show ?thesis by (auto simp: acquire_def bindC_def dest: failed_writes)
  next
    case (Inr o')
    with up assms have "o' = None" by (auto simp: acquire_def comp_defs split: option.splits)
    moreover from this Inr up have "rows t = rows s" by (auto dest: upsert_held)
    moreover have "rows s' = rows (between t)"
      using assms up Inr \<open>o' = None\<close>
      by (auto simp: acquire_def comp_defs transaction_def split: prod.splits sum.splits dest!: find_reads)
    ultimately show ?thesis by blast
  qed
qed

text \<open>A heartbeat writes only while the caller owns an unexpired lease; a failed one never writes.\<close>

lemma heartbeat_cases:
  assumes "heartbeat S now between w c s = (r, s')"
  obtains
    (renewed) l e where "r = Inr l" "rows s w = Some e" "controllerId e = c" "now < expiresAt e"
      "l = e\<lparr>expiresAt := now + LEASE_EXPIRY_MS, updatedAt := now\<rparr>" "rows s' = (rows s)(w \<mapsto> l)"
  | (broken) e where "r = Inl e" "rows s' = rows s"
  | (refused) e t where "r = Inl e" "rows t = rows s" "rows s' = rows (between t)"
      "\<And>l. rows s w = Some l \<Longrightarrow> controllerId l \<noteq> c \<or> expiresAt l \<le> now"
      "e = (case rows s' w of None \<Rightarrow> LeaseNotFoundError w
            | Some l \<Rightarrow> if controllerId l = c \<and> expiresAt l \<le> now then LeaseExpiredError w
                       else NotLeaseOwnerError w c) \<or> (\<exists>x u. findByWorkspaceId S w x = (Inl e, u))"
proof -
  obtain q t where ext: "extendIfOwner S w c (now + LEASE_EXPIRY_MS) now s = (q, t)" by fastforce
  show ?thesis
  proof (cases q)
    case (Inl e)
    with ext assms show ?thesis by (intro broken [of e]) (auto simp: heartbeat_def bindC_def dest: failed_writes)
  next
    case (Inr p)
    show ?thesis
    proof (cases p)
      case (Some l)
      with Inr ext assms show ?thesis
        by (auto simp: heartbeat_def comp_defs dest!: extend_writes intro!: renewed)
    next
      case None
      with Inr ext have t: "rows t = rows s"
          "\<And>l. rows s w = Some l \<Longrightarrow> controllerId l \<noteq> c \<or> expiresAt l \<le> now"
        by (auto dest: extend_refused)
      obtain f v where rd: "findByWorkspaceId S w (between t) = (f, v)" by fastforce
      show ?thesis
      proof (cases f)
        case (Inl e)
        with rd None Inr ext assms t show ?thesis
          by (intro refused [of e t]) (auto simp: heartbeat_def comp_defs transaction_def)
      next
        case f: (Inr o')
        with rd have v: "o' = rows (between t) w" "rows v = rows (between t)"
          by (auto dest: find_reads)
        with f rd None Inr ext assms t show ?thesis
          by (intro refused [of "projl r" t])
             (auto simp: heartbeat_def comp_defs transaction_def split: option.splits if_splits)
      qed
    qed
  qed
qed

lemma takeover_ok:
  assumes "takeover S now w c u s = (Inr r, s')"
  shows "rows s' = (rows s)(w \<mapsto> new_lease now w c u)"
    and "previousControllerId r = map_option controllerId (rows s w)"
    and "to_lease r = new_lease now w c u"
proof -
  obtain f t where rd: "findByWorkspaceId S w s = (f, t)" by fastforce
  with assms obtain p where "f = Inr p" by (cases f) (auto simp: takeover_def transaction_def comp_defs)
  with rd have t: "findByWorkspaceId S w s = (Inr (rows s w), t)" "rows t = rows s" by (auto dest: find_reads)
  have ws: "cl_workspaceId (new_lease now w c u) = w" by (simp add: new_lease_def)
  from assms t ws show "rows s' = (rows s)(w \<mapsto> new_lease now w c u)"
    by (auto simp: takeover_def transaction_def comp_defs split: prod.splits sum.splits if_splits
             dest!: insert_adds update_writes)
  from assms t show "previousControllerId r = map_option controllerId (rows s w)" "to_lease r = new_lease now w c u"
    by (auto simp: takeover_def transaction_def comp_defs split: prod.splits sum.splits if_splits)
qed

lemma release_cases:
  assumes "release S w c s = (r, s')"
  shows "(r = Inr () \<and> (\<exists>l. rows s w = Some l \<and> controllerId l = c) \<and> rows s' = (rows s)(w := None))
       \<or> ((\<exists>e. r = Inl e) \<and> s' = s)"
proof -
  obtain f t where rd: "findByWorkspaceId S w s = (f, t)" by fastforce
  show ?thesis
  proof (cases f)
    case (Inl e)
    with rd assms show ?thesis by (auto simp: release_def transaction_def comp_defs)
  next
    case (Inr p)
    with rd have "p = rows s w" "rows t = rows s" by (auto dest: find_reads)
    with Inr rd assms show ?thesis
      by (auto simp: release_def transaction_def comp_defs
            split: prod.splits sum.splits option.splits if_splits dest!: delete_drops)
  qed
qed

end

interpretation mem_lease: lease_store InMemoryLeaseStore "\<lambda>d. d"
  by unfold_locales
     (auto simp: InMemoryLeaseStore_def mem_insert_def mem_upsertIfExpired_def mem_extendIfOwner_def
        comp_defs Let_def split: option.splits if_splits)

interpretation sql_lease: lease_store BunSqlLeaseStore controller_leases
  by unfold_locales
     (auto simp: BunSqlLeaseStore_def sql_insert_def sql_upsertIfExpired_def sql_extendIfOwner_def
        statement_def comp_defs Let_def split: option.splits if_splits sum.splits prod.splits)

end
