(* ===== verification/Lease_Props.thy ===== *)
theory Lease_Props
  imports Lease
begin

text \<open>
  The lease over time: sequences of requests by any controllers, the renewal loop of the agent host
  (\<open>apps/agent-host/src/lease-heartbeat.ts\<close>, \<open>health.ts\<close>), and the properties of both.
\<close>

section \<open>Sequences of requests\<close>

datatype lease_op =
    Acquire string string string | Heartbeat string string | Release string string
  | Takeover string string string

fun lease_exec :: "'s LeaseStore \<Rightarrow> int \<times> lease_op \<Rightarrow> ('s, lease_error, unit) comp" where
  "lease_exec S (now, Acquire w c u) = thenC (acquire S now id w c u) (ret ())"
| "lease_exec S (now, Heartbeat w c) = thenC (heartbeat S now id w c) (ret ())"
| "lease_exec S (now, Release w c) = release S w c"
| "lease_exec S (now, Takeover w c u) = thenC (takeover S now w c u) (ret ())"

fun lease_run :: "'s LeaseStore \<Rightarrow> (int \<times> lease_op) list \<Rightarrow> 's \<Rightarrow> (lease_error + unit) list \<times> 's" where
  "lease_run S [] s = ([], s)"
| "lease_run S (x # xs) s =
     (case lease_exec S x s of (r, s') \<Rightarrow> (case lease_run S xs s' of (rs, s'') \<Rightarrow> (r # rs, s'')))"

fun op_workspace :: "lease_op \<Rightarrow> string" where
  "op_workspace (Acquire w c u) = w" | "op_workspace (Heartbeat w c) = w"
| "op_workspace (Release w c) = w" | "op_workspace (Takeover w c u) = w"

fun op_controller :: "lease_op \<Rightarrow> string" where
  "op_controller (Acquire w c u) = c" | "op_controller (Heartbeat w c) = c"
| "op_controller (Release w c) = c" | "op_controller (Takeover w c u) = c"

text \<open>The requests that may end the tenure of \<open>c\<close>: a takeover, or its own release.\<close>

definition displaces :: "string \<Rightarrow> string \<Rightarrow> lease_op \<Rightarrow> bool" where
  "displaces w c p \<longleftrightarrow> (\<exists>c' u. p = Takeover w c' u) \<or> p = Release w c"

definition rival :: "string \<Rightarrow> string \<Rightarrow> lease_op \<Rightarrow> bool" where
  "rival w c p \<longleftrightarrow> op_workspace p = w \<and> op_controller p \<noteq> c"

context lease_store
begin

text \<open>The row is \<open>c\<close>'s and does not expire before \<open>E\<close>.\<close>

definition held :: "string \<Rightarrow> string \<Rightarrow> int \<Rightarrow> 's \<Rightarrow> bool" where
  "held w c E s \<longleftrightarrow> (\<exists>l. rows s w = Some l \<and> controllerId l = c \<and> E \<le> expiresAt l)"

lemma held_exec:
  assumes "held w c E s" "\<not> displaces w c p" "t < E" "E \<le> t + LEASE_EXPIRY_MS"
    and run: "lease_exec S (t, p) s = (r, s')"
  shows "held w c E s'" and "rival w c p \<Longrightarrow> \<not> isOk r"
proof -
  obtain l where l: "rows s w = Some l" "controllerId l = c" "E \<le> expiresAt l"
    using assms(1) by (auto simp: held_def)
  have "held w c E s' \<and> (rival w c p \<longrightarrow> \<not> isOk r)"
  proof (cases p)
    case (Acquire w' c' u)
    then obtain q where ac: "acquire S t id w' c' u s = (q, s')" "isOk r = isOk q"
      using run by (auto simp: comp_defs isOk_def split: prod.splits sum.splits)
    show ?thesis
    proof (cases q)
      case (Inl e)
      with ac have "rows s' = rows s" by (auto dest: acquire_refused)
      with l ac Inl show ?thesis by (auto simp: held_def isOk_def)
    next
      case (Inr k)
      with ac have ok: "rows s' = (rows s)(w' \<mapsto> new_lease t w' c' u)"
          "rows s w' = None \<or> (\<exists>e. rows s w' = Some e \<and> expiresAt e \<le> t)" by (auto dest: acquire_ok)
      with l assms(3) have "w' \<noteq> w" by auto
      with ok l Acquire show ?thesis by (auto simp: held_def rival_def)
    qed
  next
    case (Heartbeat w' c')
    then obtain q where hb: "heartbeat S t id w' c' s = (q, s')" "isOk r = isOk q"
      using run by (auto simp: comp_defs isOk_def split: prod.splits sum.splits)
    show ?thesis
      using hb(1)
    proof (cases rule: heartbeat_cases)
      case (renewed k e)
      with l assms(4) hb(2) Heartbeat show ?thesis by (auto simp: held_def rival_def)
    qed (use l hb(2) in \<open>auto simp: held_def isOk_def\<close>)
  next
    case (Release w' c')
    with run assms(2) l release_cases [of w' c' s r s'] show ?thesis
      by (auto simp: held_def displaces_def rival_def isOk_def)
  next
    case (Takeover w' c' u)
    with assms(2) have w': "w' \<noteq> w" by (auto simp: displaces_def)
    obtain q where tk: "takeover S t w' c' u s = (q, s')" "isOk r = isOk q"
      using run Takeover by (auto simp: comp_defs isOk_def split: prod.splits sum.splits)
    show ?thesis
    proof (cases q)
      case (Inl e)
      with tk have "s' = s" by (auto simp: takeover_def transaction_def split: prod.splits sum.splits)
      with l w' Takeover show ?thesis by (auto simp: held_def rival_def)
    next
      case (Inr k)
      with tk takeover_ok(1) have "rows s' = (rows s)(w' \<mapsto> new_lease t w' c' u)" by blast
      with l w' Takeover show ?thesis by (auto simp: held_def rival_def)
    qed
  qed
  then show "held w c E s'" "rival w c p \<Longrightarrow> \<not> isOk r" by auto
qed

lemma held_run:
  assumes "held w c E s" "lease_run S ps s = (rs, s')"
    and "\<forall>(t, p) \<in> set ps. t < E \<and> E \<le> t + LEASE_EXPIRY_MS \<and> \<not> displaces w c p"
  shows "held w c E s' \<and> list_all2 (\<lambda>(t, p) r. rival w c p \<longrightarrow> \<not> isOk r) ps rs"
  using assms
proof (induction ps arbitrary: s rs)
  case (Cons x ps)
  obtain t p where x: "x = (t, p)" by fastforce
  obtain r s1 where ex: "lease_exec S (t, p) s = (r, s1)" by fastforce
  obtain rs1 where rest: "lease_run S ps s1 = (rs1, s')" "rs = r # rs1"
    using Cons.prems(2) by (auto simp: x ex split: prod.splits)
  have "held w c E s1" "rival w c p \<longrightarrow> \<not> isOk r"
    using Cons.prems held_exec [OF Cons.prems(1) _ _ _ ex] by (auto simp: x)
  with Cons.IH [OF _ rest(1)] Cons.prems(3) rest(2) show ?case by (simp add: x)
qed simp

end

text \<open>C8: on the SQL store, whatever statements fail, a lease that expires at \<open>E\<close> stays its controller's
  through every sequence of requests made before \<open>E\<close>, without a takeover or its own release: every
  acquire, heartbeat and release of another controller is refused.\<close>

theorem lease_exclusive:
  assumes "controller_leases db w = Some l" "controllerId l = c" "expiresAt l = E"
    and "\<forall>(t, p) \<in> set ps. t < E \<and> E \<le> t + 45000 \<and> \<not> displaces w c p"
    and "lease_run BunSqlLeaseStore ps db = (rs, db')"
  shows "(\<exists>l'. controller_leases db' w = Some l' \<and> controllerId l' = c \<and> E \<le> expiresAt l')
       \<and> list_all2 (\<lambda>(t, p) r. rival w c p \<longrightarrow> \<not> isOk r) ps rs"
proof -
  have "sql_lease.held w c E db" using assms(1-3) by (auto simp: sql_lease.held_def)
  from sql_lease.held_run [OF this assms(5)] assms(4) show ?thesis
    by (simp add: sql_lease.held_def LEASE_EXPIRY_MS_def)
qed

lemmas sql_store_defs = BunSqlLeaseStore_def sql_insert_def sql_upsertIfExpired_def
  sql_extendIfOwner_def statement_def

lemmas mem_store_defs = InMemoryLeaseStore_def mem_insert_def mem_upsertIfExpired_def
  mem_extendIfOwner_def

theorem lease_exclusive_witness:
  "\<not> isOk (last (fst (lease_run BunSqlLeaseStore [(30000, Heartbeat ''w'' ''a''), (40000, Acquire ''w'' ''b'' ''v'')]
       \<lparr>controller_leases = [''w'' \<mapsto> new_lease 0 ''w'' ''a'' ''u''], down = \<lambda>_. None\<rparr>)))"
proof -
  let ?db = "\<lparr>controller_leases = [''w'' \<mapsto> new_lease 0 ''w'' ''a'' ''u''], down = \<lambda>_. None\<rparr> :: lease_db"
  let ?ps = "[(30000 :: int, Heartbeat ''w'' ''a''), (40000, Acquire ''w'' ''b'' ''v'')]"
  obtain rs db' where run: "lease_run BunSqlLeaseStore ?ps ?db = (rs, db')" by fastforce
  have "list_all2 (\<lambda>(t, p) r. rival ''w'' ''a'' p \<longrightarrow> \<not> isOk r) ?ps rs"
    using lease_exclusive [OF _ _ _ _ run, of "''w''" "new_lease 0 ''w'' ''a'' ''u''" "''a''" 45000]
    by (simp add: new_lease_def LEASE_EXPIRY_MS_def displaces_def)
  then obtain r1 r2 where "rs = [r1, r2]" "\<not> isOk r2"
    by (auto simp: list_all2_Cons1 rival_def)
  with run show ?thesis by simp
qed

section \<open>Fencing\<close>

text \<open>C10: a takeover reports who was demoted, and from then on, at any clock and whatever statements
  fail, a heartbeat or a release of a controller other than the new one changes nothing and is
  refused, as NotLeaseOwnerError when the database answers.\<close>

theorem takeover_fences_old_controller:
  assumes "takeover BunSqlLeaseStore t w c u db = (Inr r, db')" "c' \<noteq> c"
  shows "previousControllerId r = map_option controllerId (controller_leases db w)
       \<and> (\<exists>e. heartbeat BunSqlLeaseStore now id w c' db' = (Inl e, db') \<and> (down db = (\<lambda>_. None) \<longrightarrow> e = NotLeaseOwnerError w c'))
       \<and> (\<exists>e. release BunSqlLeaseStore w c' db' = (Inl e, db') \<and> (down db = (\<lambda>_. None) \<longrightarrow> e = NotLeaseOwnerError w c'))"
proof -
  have row: "controller_leases db' w = Some (new_lease t w c u)"
    using sql_lease.takeover_ok(1) [OF assms(1)] by simp
  have dn: "down db' = down db"
    using assms(1)
    by (auto simp: takeover_def transaction_def comp_defs sql_store_defs
          split: prod.splits sum.splits option.splits if_splits)
  have other: "controllerId (new_lease t w c u) \<noteq> c'" using assms(2) by (simp add: new_lease_def)
  have "\<exists>e. heartbeat BunSqlLeaseStore now id w c' db' = (Inl e, db')
      \<and> (down db = (\<lambda>_. None) \<longrightarrow> e = NotLeaseOwnerError w c')"
    using row other dn
    by (auto simp: heartbeat_def transaction_def comp_defs sql_store_defs split: option.splits)
  moreover have "\<exists>e. release BunSqlLeaseStore w c' db' = (Inl e, db')
      \<and> (down db = (\<lambda>_. None) \<longrightarrow> e = NotLeaseOwnerError w c')"
    using row other dn
    by (auto simp: release_def transaction_def comp_defs sql_store_defs split: option.splits)
  ultimately show ?thesis using sql_lease.takeover_ok(2) [OF assms(1)] by simp
qed

theorem takeover_fences_old_controller_witness:
  "\<exists>db'. fst (heartbeat BunSqlLeaseStore 6 id ''w'' ''a'' db') = Inl (NotLeaseOwnerError ''w'' ''a'')
     \<and> controller_leases db' ''w'' = Some (new_lease 5 ''w'' ''b'' ''v'')"
proof -
  let ?db = "\<lparr>controller_leases = [''w'' \<mapsto> new_lease 0 ''w'' ''a'' ''u''], down = \<lambda>_. None\<rparr> :: lease_db"
  have tk: "takeover BunSqlLeaseStore 5 ''w'' ''b'' ''v'' ?db
      = (Inr \<lparr>to_lease = new_lease 5 ''w'' ''b'' ''v'', previousControllerId = Some ''a'', previousUserId = Some ''u''\<rparr>,
         \<lparr>controller_leases = [''w'' \<mapsto> new_lease 5 ''w'' ''b'' ''v''], down = \<lambda>_. None\<rparr>)"
    by (simp add: takeover_def transaction_def comp_defs sql_store_defs new_lease_def)
  from takeover_fences_old_controller [OF tk, of "''a''" 6] show ?thesis
    by (intro exI [of _ "\<lparr>controller_leases = [''w'' \<mapsto> new_lease 5 ''w'' ''b'' ''v''], down = \<lambda>_. None\<rparr>"]) auto
qed

section \<open>A lease that is renewed in time is kept\<close>

text \<open>
  The requests, in the order of their times, when the last renewal of \<open>c\<close> was at \<open>b\<close>: each comes
  within 45 seconds of the renewal before it, and none displaces \<open>c\<close>.
\<close>

fun renewed_in_time :: "string \<Rightarrow> string \<Rightarrow> int \<Rightarrow> (int \<times> lease_op) list \<Rightarrow> bool" where
  "renewed_in_time w c b [] = True"
| "renewed_in_time w c b ((t, p) # ps) =
     (b \<le> t \<and> t < b + LEASE_EXPIRY_MS \<and> \<not> displaces w c p
      \<and> renewed_in_time w c (if p = Heartbeat w c then t else b) ps)"

definition last_renewal :: "string \<Rightarrow> string \<Rightarrow> int \<Rightarrow> (int \<times> lease_op) list \<Rightarrow> int" where
  "last_renewal w c b ps = foldl (\<lambda>b (t, p). if p = Heartbeat w c then t else b) b ps"

lemma mem_step:
  assumes "d w = Some l" "controllerId l = c" "expiresAt l = b + LEASE_EXPIRY_MS"
    and "b \<le> t" "t < b + LEASE_EXPIRY_MS" "\<not> displaces w c p"
    and run: "lease_exec InMemoryLeaseStore (t, p) d = (r, d')"
  shows "\<exists>l'. d' w = Some l' \<and> controllerId l' = c
           \<and> expiresAt l' = (if p = Heartbeat w c then t else b) + LEASE_EXPIRY_MS"
    and "p = Heartbeat w c \<Longrightarrow> isOk r" and "rival w c p \<Longrightarrow> \<not> isOk r"
proof -
  have "(\<exists>l'. d' w = Some l' \<and> controllerId l' = c
           \<and> expiresAt l' = (if p = Heartbeat w c then t else b) + LEASE_EXPIRY_MS)
      \<and> (p = Heartbeat w c \<longrightarrow> isOk r)"
    using assms
    by (cases p)
       (auto simp: lease_op_defs comp_defs mem_store_defs isOk_def displaces_def new_lease_def Let_def
          split: prod.splits sum.splits option.splits if_splits)
  moreover have "mem_lease.held w c (b + LEASE_EXPIRY_MS) d"
    using assms(1-3) by (auto simp: mem_lease.held_def)
  from mem_lease.held_exec(2) [OF this assms(6) _ _ run] assms(4,5)
  have "rival w c p \<Longrightarrow> \<not> isOk r" by simp
  ultimately show "\<exists>l'. d' w = Some l' \<and> controllerId l' = c
           \<and> expiresAt l' = (if p = Heartbeat w c then t else b) + LEASE_EXPIRY_MS"
    and "p = Heartbeat w c \<Longrightarrow> isOk r" and "rival w c p \<Longrightarrow> \<not> isOk r"
    by auto
qed



section \<open>The renewal loop\<close>

datatype HealthStatus = Health_RESTORING | Health_READY | Health_RESTORE_FAILED

definition healthResponse_status :: "HealthStatus \<Rightarrow> int" where
  "healthResponse_status h = (if h = Health_READY then 200 else 503)"

record 's LeaseHeartbeatLoop =
  handle :: bool
  ticking :: bool
  stopped :: bool
  health :: HealthStatus
  lstore :: 's

definition loop_start :: "'s LeaseHeartbeatLoop \<Rightarrow> 's LeaseHeartbeatLoop" where
  "loop_start h = (if handle h then h else h\<lparr>stopped := False, handle := True\<rparr>)"

definition loop_stop :: "'s LeaseHeartbeatLoop \<Rightarrow> 's LeaseHeartbeatLoop" where
  "loop_stop h = h\<lparr>stopped := True, handle := False\<rparr>"

definition isLeaseLostError :: "lease_error \<Rightarrow> bool" where
  "isLeaseLostError e \<longleftrightarrow>
     (case e of LeaseExpiredError _ \<Rightarrow> True | NotLeaseOwnerError _ _ \<Rightarrow> True | LeaseNotFoundError _ \<Rightarrow> True
      | _ \<Rightarrow> False)"

text \<open>
  \<open>onLeaseRegained\<close> is the one of \<open>composition.ts\<close>: health becomes READY only if the runtime's
  state is READY (\<open>ready\<close>). A tick that finds the runtime STOPPED (\<open>isStopped\<close>) ends the loop.
\<close>

definition reacquire ::
  "'s LeaseStore \<Rightarrow> int \<Rightarrow> bool \<Rightarrow> string \<Rightarrow> string \<Rightarrow> string \<Rightarrow> 's LeaseHeartbeatLoop \<Rightarrow> 's LeaseHeartbeatLoop" where
  "reacquire S now ready w c u h =
     (case acquire S now id w c u (lstore h) of
        (Inr _, s) \<Rightarrow> h\<lparr>lstore := s, health := if ready then Health_READY else health h\<rparr>
      | (Inl _, s) \<Rightarrow> h\<lparr>lstore := s\<rparr>)"

text \<open>The part before the first wait; None when the tick does nothing more.\<close>

definition tick_enter :: "bool \<Rightarrow> 's LeaseHeartbeatLoop \<Rightarrow> bool \<times> 's LeaseHeartbeatLoop" where
  "tick_enter isStopped h =
     (if stopped h \<or> ticking h then (False, h)
      else if isStopped then (False, loop_stop h)
      else (True, h\<lparr>ticking := True\<rparr>))"

definition tick_work ::
  "'s LeaseStore \<Rightarrow> int \<Rightarrow> bool \<Rightarrow> string \<Rightarrow> string \<Rightarrow> string \<Rightarrow> 's LeaseHeartbeatLoop \<Rightarrow> 's LeaseHeartbeatLoop" where
  "tick_work S now ready w c u h =
     (case heartbeat S now id w c (lstore h) of
        (Inr _, s) \<Rightarrow> h\<lparr>lstore := s\<rparr>
      | (Inl e, s) \<Rightarrow>
          if isLeaseLostError e then reacquire S now ready w c u (h\<lparr>lstore := s, health := Health_RESTORE_FAILED\<rparr>)
          else h\<lparr>lstore := s\<rparr>)\<lparr>ticking := False\<rparr>"

definition tick ::
  "'s LeaseStore \<Rightarrow> int \<Rightarrow> bool \<Rightarrow> bool \<Rightarrow> string \<Rightarrow> string \<Rightarrow> string \<Rightarrow> 's LeaseHeartbeatLoop \<Rightarrow> 's LeaseHeartbeatLoop" where
  "tick S now isStopped ready w c u h =
     (case tick_enter isStopped h of
        (False, h') \<Rightarrow> h'
      | (True, h') \<Rightarrow> tick_work S now ready w c u h')"

lemmas loop_defs = tick_def tick_enter_def tick_work_def reacquire_def loop_stop_def loop_start_def
  isLeaseLostError_def

text \<open>A tick of a live loop, when the database answers: an unexpired lease of its own is extended
  and health kept; a missing or expired one is taken again, with health READY only if the runtime is;
  a live lease of another controller is left untouched and health says RESTORE_FAILED.\<close>

theorem tick_outcome:
  assumes "\<not> stopped h" "\<not> ticking h" "down (lstore h) = (\<lambda>_. None)"
  shows "\<exists>h'. tick BunSqlLeaseStore now False ready w c u h = h' \<and> \<not> ticking h' \<and>
     (case controller_leases (lstore h) w of
        Some l \<Rightarrow>
          if now < expiresAt l \<and> controllerId l = c
          then health h' = health h \<and> controller_leases (lstore h') = (controller_leases (lstore h))
                 (w \<mapsto> l\<lparr>expiresAt := now + LEASE_EXPIRY_MS, updatedAt := now\<rparr>)
          else if now < expiresAt l
          then health h' = Health_RESTORE_FAILED \<and> lstore h' = lstore h
          else health h' = (if ready then Health_READY else Health_RESTORE_FAILED)
               \<and> controller_leases (lstore h') = (controller_leases (lstore h))(w \<mapsto> new_lease now w c u)
      | None \<Rightarrow> health h' = (if ready then Health_READY else Health_RESTORE_FAILED)
               \<and> controller_leases (lstore h') = (controller_leases (lstore h))(w \<mapsto> new_lease now w c u))"
proof (cases "controller_leases (lstore h) w")
  case None
  with assms show ?thesis
    by (simp add: loop_defs heartbeat_def acquire_def transaction_def comp_defs sql_store_defs new_lease_def)
next
  case (Some l)
  with assms show ?thesis
    by (auto simp: loop_defs heartbeat_def acquire_def transaction_def comp_defs sql_store_defs
        new_lease_def Let_def)
qed

definition sampleLoop :: "lease_db LeaseHeartbeatLoop" where
  "sampleLoop = \<lparr>handle = True, ticking = False, stopped = False, health = Health_READY,
     lstore = \<lparr>controller_leases = [''w'' \<mapsto> new_lease 0 ''w'' ''b'' ''v''], down = \<lambda>_. None\<rparr>\<rparr>"

theorem tick_outcome_witness:
  "health (tick BunSqlLeaseStore 15000 False True ''w'' ''a'' ''u'' sampleLoop) = Health_RESTORE_FAILED
   \<and> health (tick BunSqlLeaseStore 45000 False True ''w'' ''a'' ''u'' sampleLoop) = Health_READY"
proof -
  have "\<not> stopped sampleLoop" "\<not> ticking sampleLoop" "down (lstore sampleLoop) = (\<lambda>_. None)"
    by (simp_all add: sampleLoop_def)
  from tick_outcome [OF this, of 15000 True "''w''" "''a''" "''u''"]
       tick_outcome [OF this, of 45000 True "''w''" "''a''" "''u''"]
  show ?thesis by (simp add: sampleLoop_def new_lease_def LEASE_EXPIRY_MS_def)
qed

end
