(* ===== verification/Scheduler.thy ===== *)
theory Scheduler
  imports Prelude
begin

text \<open>
  The checkpoint scheduler (\<open>packages/workspace-checkpoint/src/scheduler.ts\<close> with \<open>dirty.ts\<close>) as a
  state machine. A trigger runs up to its next wait, for \<open>git status\<close> or for the checkpoint
  function; the replies, the mutations of the workspace and further triggers come in any order.
\<close>

section \<open>State\<close>

datatype phase = TryGit | TryBody | LifeGit | LifeBody

datatype LifecycleResult = LifecycleOk bool | LifecycleFailed string

text \<open>
  \<open>tasks\<close> are the triggers that wait, by number, each with whether a mutation was notified since its
  wait began; \<open>uncovered\<close>: some notified mutation is in no finished checkpoint and was not seen by
  a clean \<open>git status\<close>. Both observe the code and never influence it.
\<close>

record CheckpointScheduler =
  dirty :: bool
  dirtySinceMs :: "int option"
  checkpointInProgress :: bool
  pendingDirtyDuringCheckpoint :: bool
  lastCheckpointMs :: "int option"
  tasks :: "nat \<rightharpoonup> phase \<times> bool"
  nextTask :: nat
  results :: "(nat \<times> LifecycleResult) list"
  uncovered :: bool

definition newScheduler :: CheckpointScheduler where
  "newScheduler = \<lparr>dirty = False, dirtySinceMs = None, checkpointInProgress = False,
     pendingDirtyDuringCheckpoint = False, lastCheckpointMs = None, tasks = Map.empty, nextTask = 0,
     results = [], uncovered = False\<rparr>"

section \<open>Synchronous parts\<close>

definition notifyMutation :: "int \<Rightarrow> CheckpointScheduler \<Rightarrow> CheckpointScheduler" where
  "notifyMutation now s =
     (let s = s\<lparr>uncovered := True, tasks := map_option (\<lambda>(p, _). (p, True)) \<circ> tasks s\<rparr> in
      if checkpointInProgress s then s\<lparr>pendingDirtyDuringCheckpoint := True\<rparr>
      else if \<not> dirty s then s\<lparr>dirty := True, dirtySinceMs := Some now\<rparr>
      else s)"

definition setDirty :: "int \<Rightarrow> bool \<Rightarrow> CheckpointScheduler \<Rightarrow> CheckpointScheduler" where
  "setDirty now v s =
     (if v then notifyMutation now s else s\<lparr>dirty := False, dirtySinceMs := None\<rparr>)"

definition claimCheckpoint :: "CheckpointScheduler \<Rightarrow> bool \<times> CheckpointScheduler" where
  "claimCheckpoint s =
     (if checkpointInProgress s then (False, s)
      else (True, s\<lparr>checkpointInProgress := True, pendingDirtyDuringCheckpoint := False\<rparr>))"

definition releaseCheckpoint :: "CheckpointScheduler \<Rightarrow> CheckpointScheduler" where
  "releaseCheckpoint s = s\<lparr>checkpointInProgress := False\<rparr>"

definition wait :: "nat \<Rightarrow> phase \<Rightarrow> CheckpointScheduler \<Rightarrow> CheckpointScheduler" where
  "wait i p s = s\<lparr>tasks := (tasks s)(i \<mapsto> (p, False))\<rparr>"

definition finish :: "nat \<Rightarrow> CheckpointScheduler \<Rightarrow> CheckpointScheduler" where
  "finish i s = s\<lparr>tasks := (tasks s)(i := None)\<rparr>"

definition answer :: "nat \<Rightarrow> LifecycleResult \<Rightarrow> CheckpointScheduler \<Rightarrow> CheckpointScheduler" where
  "answer i r s = finish i (s\<lparr>results := results s @ [(i, r)]\<rparr>)"

definition markDirty :: "int \<Rightarrow> CheckpointScheduler \<Rightarrow> CheckpointScheduler" where
  "markDirty now s = s\<lparr>dirty := True,
     dirtySinceMs := (case dirtySinceMs s of None \<Rightarrow> Some now | Some t \<Rightarrow> Some t)\<rparr>"

section \<open>Triggers\<close>

definition tryCheckpoint :: "CheckpointScheduler \<Rightarrow> CheckpointScheduler" where
  "tryCheckpoint s =
     (case claimCheckpoint s of
        (False, s) \<Rightarrow> s
      | (True, s) \<Rightarrow>
          (let i = nextTask s; s = s\<lparr>nextTask := i + 1\<rparr> in
           if \<not> dirty s then wait i TryGit s else wait i TryBody s))"

definition checkPeriodic :: "int \<Rightarrow> int \<Rightarrow> CheckpointScheduler \<Rightarrow> CheckpointScheduler" where
  "checkPeriodic threshold now s =
     (if \<not> dirty s then s
      else (case dirtySinceMs s of
              None \<Rightarrow> s
            | Some since \<Rightarrow> if now - since \<ge> threshold then tryCheckpoint s else s))"

text \<open>\<open>runLifecycleCheckpoint\<close> from its claim on, and its start.\<close>

definition lifecycleClaim :: "nat \<Rightarrow> CheckpointScheduler \<Rightarrow> CheckpointScheduler" where
  "lifecycleClaim i s =
     (case claimCheckpoint s of
        (False, s) \<Rightarrow> answer i (LifecycleFailed ''lifecycle checkpoint failed: concurrent checkpoint in progress'') s
      | (True, s) \<Rightarrow> wait i LifeBody s)"

definition sched_runLifecycleCheckpoint :: "CheckpointScheduler \<Rightarrow> CheckpointScheduler" where
  "sched_runLifecycleCheckpoint s =
     (let i = nextTask s; s = s\<lparr>nextTask := i + 1\<rparr> in
      if \<not> dirty s \<and> \<not> checkpointInProgress s then wait i LifeGit s else lifecycleClaim i s)"

section \<open>Replies\<close>

text \<open>\<open>git status\<close> answers: None when it failed, otherwise whether the tree is dirty.\<close>

definition isDirty :: "int \<Rightarrow> string \<Rightarrow> bool option" where
  "isDirty exitCode out = (if exitCode \<noteq> 0 then None
     else Some (\<exists>c \<in> set out. c \<notin> set [CHR 0x09, CHR 0x0A, CHR 0x0B, CHR 0x0C, CHR 0x0D, CHR '' '', CHR 0xA0]))"

definition seesClean :: "bool \<Rightarrow> CheckpointScheduler \<Rightarrow> CheckpointScheduler" where
  "seesClean mutated s = s\<lparr>uncovered := uncovered s \<and> mutated\<rparr>"

definition gitReply :: "nat \<Rightarrow> bool option \<Rightarrow> int \<Rightarrow> CheckpointScheduler \<Rightarrow> CheckpointScheduler" where
  "gitReply i r now s =
     (case tasks s i of
        Some (TryGit, m) \<Rightarrow>
          (case r of
             None \<Rightarrow> releaseCheckpoint (finish i s)
           | Some False \<Rightarrow> releaseCheckpoint (finish i (seesClean m s))
           | Some True \<Rightarrow> wait i TryBody (markDirty now s))
      | Some (LifeGit, m) \<Rightarrow>
          (case r of
             None \<Rightarrow> answer i (LifecycleFailed ''lifecycle checkpoint failed: git status error'') s
           | Some False \<Rightarrow> answer i (LifecycleOk True) (seesClean m s)
           | Some True \<Rightarrow> lifecycleClaim i (markDirty now s))
      | _ \<Rightarrow> s)"

text \<open>The checkpoint function settles: the body's bookkeeping, then what its trigger does with it.\<close>

definition runCheckpointBody :: "bool \<Rightarrow> int \<Rightarrow> CheckpointScheduler \<Rightarrow> CheckpointScheduler" where
  "runCheckpointBody ok now s =
     (if ok then
        (if pendingDirtyDuringCheckpoint s then s\<lparr>dirty := True, dirtySinceMs := Some now\<rparr>
         else s\<lparr>dirty := False, dirtySinceMs := None\<rparr>)
        \<lparr>lastCheckpointMs := Some now, pendingDirtyDuringCheckpoint := False\<rparr>
      else s\<lparr>dirty := True, pendingDirtyDuringCheckpoint := False\<rparr>)"

definition bodyReply :: "nat \<Rightarrow> bool \<Rightarrow> int \<Rightarrow> CheckpointScheduler \<Rightarrow> CheckpointScheduler" where
  "bodyReply i ok now s =
     (case tasks s i of
        Some (TryBody, m) \<Rightarrow>
          (let s = runCheckpointBody ok now s in
           releaseCheckpoint (finish i (if ok then seesClean m s else s\<lparr>dirty := True\<rparr>)))
      | Some (LifeBody, m) \<Rightarrow>
          (let s = runCheckpointBody ok now s in
           releaseCheckpoint
             (if ok then answer i (LifecycleOk False) (seesClean m s)
              else answer i (LifecycleFailed ''lifecycle checkpoint failed'') s))
      | _ \<Rightarrow> s)"

section \<open>Runs\<close>

datatype sched_event =
    Mutation int | SetDirty int bool | Trigger | Periodic int int | Lifecycle
  | GitReply nat "bool option" int | BodyReply nat bool int

fun sched_step :: "sched_event \<Rightarrow> CheckpointScheduler \<Rightarrow> CheckpointScheduler" where
  "sched_step (Mutation now) s = notifyMutation now s"
| "sched_step (SetDirty now v) s = setDirty now v s"
| "sched_step Trigger s = tryCheckpoint s"
| "sched_step (Periodic th now) s = checkPeriodic th now s"
| "sched_step Lifecycle s = sched_runLifecycleCheckpoint s"
| "sched_step (GitReply i r now) s = gitReply i r now s"
| "sched_step (BodyReply i ok now) s = bodyReply i ok now s"

definition sched_run :: "sched_event list \<Rightarrow> CheckpointScheduler \<Rightarrow> CheckpointScheduler" where
  "sched_run es s = fold sched_step es s"

lemma sched_run_simps [simp]:
  "sched_run [] s = s" "sched_run (e # es) s = sched_run es (sched_step e s)"
  by (simp_all add: sched_run_def)

lemmas sync_defs = notifyMutation_def setDirty_def claimCheckpoint_def releaseCheckpoint_def wait_def
  finish_def answer_def markDirty_def seesClean_def

lemmas trigger_defs = tryCheckpoint_def checkPeriodic_def lifecycleClaim_def
  sched_runLifecycleCheckpoint_def gitReply_def bodyReply_def runCheckpointBody_def

section \<open>One checkpoint at a time\<close>

definition holds_claim :: "phase \<Rightarrow> bool" where
  "holds_claim p \<longleftrightarrow> p \<noteq> LifeGit"

definition holders :: "(nat \<rightharpoonup> phase \<times> bool) \<Rightarrow> nat set" where
  "holders ts = {i. \<exists>p m. ts i = Some (p, m) \<and> holds_claim p}"

text \<open>The flag is set exactly while one waiting trigger holds the claim, and tasks are numbered below \<open>nextTask\<close>.\<close>

definition claims :: "(nat \<rightharpoonup> phase \<times> bool) \<Rightarrow> bool \<Rightarrow> nat \<Rightarrow> bool" where
  "claims ts busy n \<longleftrightarrow>
     (\<forall>i. ts i \<noteq> None \<longrightarrow> i < n) \<and> (if busy then \<exists>i. holders ts = {i} else holders ts = {})"

definition claim_inv :: "CheckpointScheduler \<Rightarrow> bool" where
  "claim_inv s \<longleftrightarrow> claims (tasks s) (checkpointInProgress s) (nextTask s)"

lemma holders_simps [simp]:
  "holders (ts(i \<mapsto> (p, m))) = (if holds_claim p then insert i (holders ts) else holders ts - {i})"
  "holders (ts(i := None)) = holders ts - {i}"
  "holders (map_option (\<lambda>(p, _). (p, True)) \<circ> ts) = holders ts"
  "holders Map.empty = {}"
  by (auto simp: holders_def split: if_splits)

lemma holders_mem: "ts i = Some (p, m) \<Longrightarrow> i \<in> holders ts \<longleftrightarrow> holds_claim p"
  by (simp add: holders_def)

lemma holds_claim_simps [simp]:
  "holds_claim TryGit" "holds_claim TryBody" "holds_claim LifeBody" "\<not> holds_claim LifeGit"
  by (simp_all add: holds_claim_def)

lemma claims_notify: "claims ts b n \<Longrightarrow> claims (map_option (\<lambda>(p, _). (p, True)) \<circ> ts) b n"
  by (simp add: claims_def)

lemma claims_new: "claims ts False n \<Longrightarrow> holds_claim p \<Longrightarrow> claims (ts(n \<mapsto> (p, m))) True (Suc n)"
  by (auto simp: claims_def less_Suc_eq)

lemma claims_none: "claims ts b n \<Longrightarrow> ts n = None"
  by (cases "ts n") (auto simp: claims_def)

lemma claims_wait:
  assumes "claims ts b n" shows "claims (ts(n \<mapsto> (LifeGit, m))) b (Suc n)"
proof -
  have "n \<notin> holders ts" using claims_none [OF assms] by (simp add: holders_def)
  with assms show ?thesis by (auto simp: claims_def less_Suc_eq)
qed

lemma claims_more: "claims ts b n \<Longrightarrow> claims ts b (Suc n)"
  by (auto simp: claims_def less_Suc_eq)

lemma claims_claim:
  "claims ts False n \<Longrightarrow> i < n \<Longrightarrow> holds_claim p \<Longrightarrow> claims (ts(i \<mapsto> (p, m))) True n"
  by (auto simp: claims_def)

lemma claims_release:
  "claims ts b n \<Longrightarrow> ts i = Some (p, m) \<Longrightarrow> holds_claim p \<Longrightarrow> claims (ts(i := None)) False n"
  using holders_mem [of ts i p m] by (auto simp: claims_def split: if_splits)

lemma claims_drop: "claims ts b n \<Longrightarrow> i \<notin> holders ts \<Longrightarrow> claims (ts(i := None)) b n"
  by (auto simp: claims_def)

lemma claims_body:
  "claims ts b n \<Longrightarrow> ts i = Some (TryGit, m) \<Longrightarrow> claims (ts(i \<mapsto> (TryBody, k))) b n"
  using holders_mem [of ts i TryGit m] by (auto simp: claims_def split: if_splits)

lemma claims_bound: "claims ts b n \<Longrightarrow> ts i = Some t \<Longrightarrow> i < n"
  by (auto simp: claims_def)

lemma claims_cancel: "claims ts b n \<Longrightarrow> claims (ts(n := None)) b (Suc n)"
  using claims_none [of ts b n] by (simp add: claims_more fun_upd_idem)

lemmas claims_rules = claims_cancel claims_notify claims_new claims_wait claims_more claims_claim claims_drop
  claims_body claims_bound

lemma claims_releases:
  "claims ts b n \<Longrightarrow> ts i = Some (TryGit, m) \<Longrightarrow> claims (ts(i := None)) False n"
  "claims ts b n \<Longrightarrow> ts i = Some (TryBody, m) \<Longrightarrow> claims (ts(i := None)) False n"
  "claims ts b n \<Longrightarrow> ts i = Some (LifeBody, m) \<Longrightarrow> claims (ts(i := None)) False n"
  by (erule claims_release, assumption, simp)+

lemma claim_inv_step: "claim_inv s \<Longrightarrow> claim_inv (sched_step e s)"
proof (cases e)
  case (GitReply i r now)
  assume inv: "claim_inv s"
  show ?thesis
  proof (cases "tasks s i")
    case (Some t)
    obtain p m where t: "t = (p, m)" by fastforce
    have "p = LifeGit \<Longrightarrow> i \<notin> holders (tasks s)" using holders_mem [of "tasks s" i p m] Some t by simp
    with inv Some t GitReply show ?thesis
      by (cases p)
         (auto simp: claim_inv_def gitReply_def lifecycleClaim_def sync_defs
           intro: claims_rules claims_releases split: option.splits bool.splits if_splits)
  qed (use inv GitReply in \<open>simp add: gitReply_def\<close>)
next
  case (BodyReply i ok now)
  assume inv: "claim_inv s"
  with BodyReply show ?thesis
    by (cases "tasks s i")
       (auto simp: claim_inv_def trigger_defs sync_defs Let_def intro: claims_releases split: phase.splits)
qed (auto simp: claim_inv_def trigger_defs sync_defs Let_def dest: claims_none
       intro: claims_rules split: option.splits)

lemma claim_inv_run: "claim_inv s \<Longrightarrow> claim_inv (sched_run es s)"
  by (induction es arbitrary: s) (auto intro: claim_inv_step)

lemma claim_inv_new: "claim_inv newScheduler"
  by (simp add: claim_inv_def claims_def newScheduler_def)

definition runs_body :: "CheckpointScheduler \<Rightarrow> nat \<Rightarrow> bool" where
  "runs_body s i \<longleftrightarrow> (\<exists>p m. tasks s i = Some (p, m) \<and> (p = TryBody \<or> p = LifeBody))"

text \<open>C11: in every interleaving of triggers, mutations and replies at most one checkpoint function runs,
  and while it runs the in-progress flag is set, so that every further trigger starts none.\<close>

theorem one_checkpoint_at_a_time:
  "(\<exists>i. Collect (runs_body (sched_run es newScheduler)) = {i}
        \<and> checkpointInProgress (sched_run es newScheduler)
        \<and> tryCheckpoint (sched_run es newScheduler) = sched_run es newScheduler)
   \<or> Collect (runs_body (sched_run es newScheduler)) = {}"
proof -
  let ?s = "sched_run es newScheduler"
  have inv: "claim_inv ?s" by (intro claim_inv_run claim_inv_new)
  have sub: "Collect (runs_body ?s) \<subseteq> holders (tasks ?s)"
    by (auto simp: runs_body_def holders_def)
  show ?thesis
  proof (cases "checkpointInProgress ?s")
    case True
    then obtain i where "holders (tasks ?s) = {i}" using inv by (auto simp: claim_inv_def claims_def)
    with sub have "Collect (runs_body ?s) = {i} \<or> Collect (runs_body ?s) = {}" by auto
    with True show ?thesis by (auto simp: tryCheckpoint_def claimCheckpoint_def)
  next
    case False
    with inv sub show ?thesis by (auto simp: claim_inv_def claims_def)
  qed
qed

section \<open>No mutation is lost\<close>

definition awaits_try_git :: "CheckpointScheduler \<Rightarrow> bool" where
  "awaits_try_git s \<longleftrightarrow> (\<exists>i m. tasks s i = Some (TryGit, m))"

text \<open>No mutation arrives while a trigger double-checks with git, and nobody clears the flag by hand.\<close>

fun careful :: "sched_event list \<Rightarrow> CheckpointScheduler \<Rightarrow> bool" where
  "careful [] s = True"
| "careful (e # es) s =
     ((case e of Mutation _ \<Rightarrow> \<not> awaits_try_git s | SetDirty _ v \<Rightarrow> v \<and> \<not> awaits_try_git s | _ \<Rightarrow> True)
      \<and> careful es (sched_step e s))"

definition mutation_inv :: "CheckpointScheduler \<Rightarrow> bool" where
  "mutation_inv s \<longleftrightarrow> claim_inv s
     \<and> (uncovered s \<longrightarrow> dirty s \<or> (checkpointInProgress s \<and> pendingDirtyDuringCheckpoint s))
     \<and> (\<forall>i m. tasks s i = Some (TryBody, m) \<or> tasks s i = Some (LifeBody, m) \<longrightarrow>
          (m \<longrightarrow> pendingDirtyDuringCheckpoint s) \<and> dirtySinceMs s \<noteq> None)
     \<and> (\<forall>i m. tasks s i = Some (TryGit, m) \<longrightarrow> \<not> pendingDirtyDuringCheckpoint s \<and> \<not> m)
     \<and> (dirty s \<longrightarrow> dirtySinceMs s \<noteq> None)"

lemma only_holder:
  assumes "claim_inv s" "tasks s i = Some (p, m)" "holds_claim p"
  shows "checkpointInProgress s" and "tasks s j = Some (q, n) \<Longrightarrow> j \<noteq> i \<Longrightarrow> q = LifeGit"
proof -
  have i: "i \<in> holders (tasks s)" using holders_mem [of "tasks s" i p m] assms(2,3) by simp
  with assms(1) show c: "checkpointInProgress s" by (auto simp: claim_inv_def claims_def split: if_splits)
  with assms(1) i have h: "holders (tasks s) = {i}" by (auto simp: claim_inv_def claims_def)
  show "tasks s j = Some (q, n) \<Longrightarrow> j \<noteq> i \<Longrightarrow> q = LifeGit"
    using h holders_mem [of "tasks s" j q n] by (auto simp: holds_claim_def)
qed

lemma idle_holder: "claim_inv s \<Longrightarrow> \<not> checkpointInProgress s \<Longrightarrow> tasks s j = Some (q, n) \<Longrightarrow> q = LifeGit"
  using holders_mem [of "tasks s" j q n] by (auto simp: claim_inv_def claims_def holds_claim_def)

lemma mutation_inv_notify:
  assumes "mutation_inv s" "\<not> awaits_try_git s"
  shows "mutation_inv (notifyMutation now s)"
proof -
  have "claim_inv (notifyMutation now s)"
    using assms claim_inv_step [of s "Mutation now"] by (simp add: mutation_inv_def)
  moreover have "\<not> checkpointInProgress s \<Longrightarrow> tasks s j = Some (q, n) \<Longrightarrow> q = LifeGit" for j q n
    using assms(1) idle_holder by (auto simp: mutation_inv_def)
  ultimately show ?thesis
    using assms
    by (auto simp: mutation_inv_def notifyMutation_def Let_def awaits_try_git_def map_option_case
        split: option.splits prod.splits if_splits)
qed

lemma mutation_inv_claimed:
  assumes "mutation_inv s"
  shows "mutation_inv (tryCheckpoint s)" "mutation_inv (sched_runLifecycleCheckpoint s)"
proof -
  have c: "claim_inv (tryCheckpoint s)" "claim_inv (sched_runLifecycleCheckpoint s)"
    using assms claim_inv_step [of s Trigger] claim_inv_step [of s Lifecycle] by (simp_all add: mutation_inv_def)
  have idle: "\<not> checkpointInProgress s \<Longrightarrow> tasks s j = Some (q, n) \<Longrightarrow> q = LifeGit" for j q n
    using assms(1) idle_holder by (auto simp: mutation_inv_def)
  show "mutation_inv (tryCheckpoint s)"
    using assms c(1) idle unfolding mutation_inv_def
    by (auto simp: trigger_defs sync_defs Let_def split: if_splits)
  show "mutation_inv (sched_runLifecycleCheckpoint s)"
    using assms c(2) idle unfolding mutation_inv_def
    by (auto simp: trigger_defs sync_defs Let_def split: if_splits)
qed

lemma mutation_inv_git:
  assumes "mutation_inv s" shows "mutation_inv (gitReply i r now s)"
proof (cases "tasks s i")
  case (Some t)
  obtain p m where t: "t = (p, m)" by fastforce
  have c: "claim_inv (gitReply i r now s)"
    using assms claim_inv_step [of s "GitReply i r now"] by (simp add: mutation_inv_def)
  have inv: "claim_inv s" using assms by (simp add: mutation_inv_def)
  have idle: "\<not> checkpointInProgress s \<Longrightarrow> tasks s j = Some (q, n) \<Longrightarrow> q = LifeGit" for j q n
    using inv idle_holder by auto
  show ?thesis
  proof (cases p)
    case TryGit
    have other: "tasks s j = Some (q, n) \<Longrightarrow> j \<noteq> i \<Longrightarrow> q = LifeGit" for j q n
      using only_holder(2) [OF inv] Some t TryGit by simp
    show ?thesis
      using assms c Some t TryGit other unfolding mutation_inv_def
      by (auto simp: gitReply_def sync_defs split: option.splits bool.splits if_splits)
  next
    case LifeGit
    show ?thesis
      using assms c Some t LifeGit idle unfolding mutation_inv_def
      by (auto simp: gitReply_def lifecycleClaim_def sync_defs split: option.splits bool.splits if_splits)
  qed (use assms Some t in \<open>simp_all add: gitReply_def\<close>)
qed (use assms in \<open>simp add: gitReply_def\<close>)

lemma mutation_inv_bodyReply:
  assumes "mutation_inv s" shows "mutation_inv (bodyReply i ok now s)"
proof (cases "tasks s i")
  case (Some t)
  obtain p m where t: "t = (p, m)" by fastforce
  have c: "claim_inv (bodyReply i ok now s)"
    using assms claim_inv_step [of s "BodyReply i ok now"] by (simp add: mutation_inv_def)
  have inv: "claim_inv s" using assms by (simp add: mutation_inv_def)
  show ?thesis
  proof (cases "p = TryBody \<or> p = LifeBody")
    case True
    have other: "tasks s j = Some (q, n) \<Longrightarrow> j \<noteq> i \<Longrightarrow> q = LifeGit" for j q n
      using only_holder(2) [OF inv] Some t True by auto
    have gone: "tasks (bodyReply i ok now s) j = (if j = i then None else tasks s j)" for j
      using Some t True by (auto simp: bodyReply_def runCheckpointBody_def sync_defs Let_def)
    have f: "m \<longrightarrow> pendingDirtyDuringCheckpoint s" "dirtySinceMs s \<noteq> None"
      using assms Some t True unfolding mutation_inv_def by blast+
    have dirt: "dirty (bodyReply i ok now s) \<longrightarrow> dirtySinceMs (bodyReply i ok now s) \<noteq> None"
      "uncovered (bodyReply i ok now s) \<longrightarrow> dirty (bodyReply i ok now s)"
      using f Some t True
      by (auto simp: bodyReply_def runCheckpointBody_def sync_defs Let_def)
    show ?thesis
      using c dirt unfolding mutation_inv_def gone by (auto dest: other)
  next
    case False
    with assms Some t show ?thesis by (cases p) (simp_all add: bodyReply_def)
  qed
qed (use assms in \<open>simp add: bodyReply_def\<close>)

lemma mutation_inv_step:
  assumes "mutation_inv s" "careful [e] s" shows "mutation_inv (sched_step e s)"
proof (cases e)
  case (SetDirty now v)
  with assms show ?thesis by (simp add: setDirty_def mutation_inv_notify)
next
  case (Periodic th now)
  with assms show ?thesis
    by (auto simp: checkPeriodic_def mutation_inv_claimed split: option.splits)
qed (use assms in \<open>simp_all add: mutation_inv_notify mutation_inv_claimed mutation_inv_git mutation_inv_bodyReply\<close>)

lemma mutation_inv_run: "mutation_inv s \<Longrightarrow> careful es s \<Longrightarrow> mutation_inv (sched_run es s)"
proof (induction es arbitrary: s)
  case (Cons e es)
  then show ?case using mutation_inv_step [of s e] by simp
qed simp

text \<open>C12: as long as no mutation is notified while a trigger double-checks with git, a mutation that no
  finished checkpoint covers keeps the scheduler dirty once it is idle, and the periodic check made
  two minutes later, or at any threshold, starts a checkpoint.\<close>

theorem mutation_is_checkpointed:
  assumes "careful es newScheduler" "uncovered (sched_run es newScheduler)"
    and "\<not> checkpointInProgress (sched_run es newScheduler)"
  shows "\<exists>since. dirty (sched_run es newScheduler) \<and> dirtySinceMs (sched_run es newScheduler) = Some since
     \<and> (since + threshold \<le> now \<longrightarrow>
          (\<exists>i. runs_body (checkPeriodic threshold now (sched_run es newScheduler)) i))"
proof -
  let ?s = "sched_run es newScheduler"
  have "mutation_inv newScheduler"
    using claim_inv_new by (simp add: mutation_inv_def) (simp add: newScheduler_def)
  then have "mutation_inv ?s" using assms(1) by (rule mutation_inv_run)
  with assms(2,3) obtain since where since: "dirty ?s" "dirtySinceMs ?s = Some since"
    by (auto simp: mutation_inv_def)
  with assms(3) have "since + threshold \<le> now \<Longrightarrow> runs_body (checkPeriodic threshold now ?s) (nextTask ?s)"
    by (auto simp: checkPeriodic_def tryCheckpoint_def claimCheckpoint_def wait_def runs_body_def Let_def
        intro: exI [of _ False])
  with since show ?thesis by auto
qed

theorem mutation_is_checkpointed_witness:
  "\<exists>i. runs_body (checkPeriodic 120000 120005 (sched_run [Mutation 5] newScheduler)) i"
proof -
  have "careful [Mutation 5] newScheduler" "uncovered (sched_run [Mutation 5] newScheduler)"
    "\<not> checkpointInProgress (sched_run [Mutation 5] newScheduler)"
    by (simp_all add: newScheduler_def awaits_try_git_def notifyMutation_def)
  from mutation_is_checkpointed [OF this, of 120000 120005] show ?thesis
    by (auto simp: newScheduler_def notifyMutation_def)
qed

text \<open>A mutation notified while a trigger waits for its git double-check, whose answer was already
  clean, is forgotten: the scheduler ends idle and not dirty, and no periodic check ever saves it.\<close>

theorem mutation_during_git_check_lost:
  "\<exists>s. s = sched_run [Trigger, Mutation 5, GitReply 0 (Some False) 6] newScheduler
     \<and> uncovered s \<and> \<not> dirty s \<and> \<not> checkpointInProgress s \<and> checkPeriodic 120000 now s = s"
  by (simp add: newScheduler_def trigger_defs sync_defs Let_def)

end
