(* ===== verification/Text.thy ===== *)
theory Text
  imports Prelude "HOL-Library.Sublist"
begin

text \<open>
  JavaScript text and bytes. A byte is a \<open>char\<close>, a \<open>Uint8Array\<close> a list of them; a JavaScript string
  is represented by its UTF-8 encoding, so that \<open>TextEncoder\<close> is the identity and searching,
  splitting and slicing at ASCII characters are list operations. \<open>js_length\<close> counts UTF-16 units.
\<close>

section \<open>Characters\<close>

abbreviation slash :: char where "slash \<equiv> CHR 0x2F"
abbreviation backslash :: char where "backslash \<equiv> CHR 0x5C"
abbreviation newline :: char where "newline \<equiv> CHR 0x0A"
abbreviation NUL :: char where "NUL \<equiv> CHR 0x00"

definition byte :: "char \<Rightarrow> nat" where
  "byte c = of_char c"

definition in_range :: "nat \<Rightarrow> nat \<Rightarrow> char \<Rightarrow> bool" where
  "in_range lo hi c \<longleftrightarrow> lo \<le> byte c \<and> byte c \<le> hi"

lemma nibble_cases: "n < 16 \<Longrightarrow> list_all P [0..<16] \<Longrightarrow> P n"
  by (simp add: list_all_iff)

lemma byte_less [simp]: "byte c < 256"
  by (simp add: byte_def)

lemma byte_inject [simp]: "byte c = byte d \<longleftrightarrow> c = d"
  by (simp add: byte_def)

section \<open>Decoding UTF-8\<close>

text \<open>
  The length of the scalar value that the bytes start with, 0 if they start with none; and how many
  bytes the decoder replaces by U+FFFD then (the longest prefix of a scalar value, at least one).
\<close>

definition second_range :: "char \<Rightarrow> nat \<times> nat" where
  "second_range c =
     (if byte c = 0xE0 then (0xA0, 0xBF) else if byte c = 0xED then (0x80, 0x9F)
      else if byte c = 0xF0 then (0x90, 0xBF) else if byte c = 0xF4 then (0x80, 0x8F) else (0x80, 0xBF))"

definition needed :: "char \<Rightarrow> nat" where
  "needed c =
     (if in_range 0xC2 0xDF c then 1 else if in_range 0xE0 0xEF c then 2
      else if in_range 0xF0 0xF4 c then 3 else 0)"

fun continuation :: "nat \<times> nat \<Rightarrow> nat \<Rightarrow> string \<Rightarrow> nat" where
  "continuation r 0 s = 0"
| "continuation r (Suc n) [] = 0"
| "continuation r (Suc n) (c # s) =
     (if in_range (fst r) (snd r) c then Suc (continuation (0x80, 0xBF) n s) else 0)"

definition scalar_length :: "string \<Rightarrow> nat" where
  "scalar_length s =
     (case s of
        [] \<Rightarrow> 0
      | c # t \<Rightarrow>
          if byte c < 0x80 then 1
          else if needed c \<noteq> 0 \<and> continuation (second_range c) (needed c) t = needed c then Suc (needed c)
          else 0)"

definition subpart_length :: "string \<Rightarrow> nat" where
  "subpart_length s =
     (case s of [] \<Rightarrow> 0 | c # t \<Rightarrow> if needed c = 0 then 1 else Suc (continuation (second_range c) (needed c) t))"

definition replacement :: string where
  "replacement = [CHR 0xEF, CHR 0xBF, CHR 0xBD]"

definition byte_order_mark :: string where
  "byte_order_mark = [CHR 0xEF, CHR 0xBB, CHR 0xBF]"

lemma continuation_le: "continuation r n s \<le> length s"
  by (induction r n s rule: continuation.induct) auto

lemma scalar_length_le: "scalar_length s \<le> length s"
proof (cases s)
  case (Cons c t)
  then show ?thesis
    using continuation_le [of "second_range c" "needed c" t] by (auto simp: scalar_length_def)
qed (simp add: scalar_length_def)

function scrub :: "string \<Rightarrow> string" where
  "scrub s =
     (if s = [] then []
      else if scalar_length s > 0 then take (scalar_length s) s @ scrub (drop (scalar_length s) s)
      else replacement @ scrub (drop (subpart_length s) s))"
  by auto
termination
  by (relation "measure length") (auto simp: subpart_length_def split: list.splits)

declare scrub.simps [simp del]

text \<open>\<open>new TextDecoder().decode\<close>: a leading byte order mark is dropped.\<close>

definition decodeText :: "string \<Rightarrow> string" where
  "decodeText s = scrub (if prefix byte_order_mark s then drop 3 s else s)"

text \<open>Well-formed text.\<close>

function utf8 :: "string \<Rightarrow> bool" where
  "utf8 s = (if s = [] then True
     else if scalar_length s > 0 then utf8 (drop (scalar_length s) s) else False)"
  by auto
termination
  by (relation "measure length") (auto simp: scalar_length_def split: list.splits)

declare utf8.simps [simp del]

lemma utf8_Nil [simp]: "utf8 []"
  by (subst utf8.simps) simp

lemma scrub_utf8: "utf8 s \<Longrightarrow> scrub s = s"
proof (induction s rule: utf8.induct)
  case (1 s)
  then show ?case
    by (cases "s = []")
       (auto simp: scrub.simps [of s] scrub.simps [of "[]"] utf8.simps [of s] split: if_splits)
qed

lemma decodeText_utf8: "utf8 s \<Longrightarrow> \<not> sublist byte_order_mark s \<Longrightarrow> decodeText s = s"
  by (auto simp: decodeText_def scrub_utf8 dest: prefix_imp_sublist)

text \<open>An ASCII character cuts well-formed text into well-formed pieces.\<close>

lemma continuation_append:
  "byte c < 0x80 \<Longrightarrow> continuation r n (a @ c # b) = continuation r n a"
  if "0x80 \<le> fst r"
  using that
  by (induction r n a rule: continuation.induct)
     (auto simp: in_range_def gr0_conv_Suc; (case_tac n; simp add: in_range_def)?)+

lemma second_range_lo: "0x80 \<le> fst (second_range c)"
  by (simp add: second_range_def)

lemma scalar_length_append:
  "a \<noteq> [] \<Longrightarrow> byte c < 0x80 \<Longrightarrow> scalar_length (a @ c # b) = scalar_length a"
  by (cases a) (auto simp: scalar_length_def continuation_append [OF second_range_lo])

lemma utf8_cut: "utf8 (a @ c # b) \<Longrightarrow> byte c < 0x80 \<Longrightarrow> utf8 a \<and> utf8 b"
proof (induction a rule: utf8.induct)
  case (1 s)
  show ?case
  proof (cases "s = []")
    case True
    with "1.prems" show ?thesis
      by (subst (asm) utf8.simps) (simp add: scalar_length_def)
  next
    case False
    let ?n = "scalar_length s"
    have n: "scalar_length (s @ c # b) = ?n" "?n \<le> length s"
      using False "1.prems"(2) by (simp_all add: scalar_length_append scalar_length_le)
    with "1.prems"(1) have "0 < ?n \<and> utf8 (drop ?n s @ c # b)"
      by (subst (asm) utf8.simps) (simp split: if_splits)
    with "1.IH" "1.prems"(2) False show ?thesis by (subst utf8.simps) simp
  qed
qed

section \<open>String operations\<close>

text \<open>Every character up to U+FFFF is one unit, the others (four bytes) are two.\<close>

definition js_length :: "string \<Rightarrow> nat" where
  "js_length s = sum_list (map (\<lambda>c. if in_range 0x80 0xBF c then 0 else if in_range 0xF0 0xFF c then 2 else 1) s)"

text \<open>\<open>replace(/\\/g, "/")\<close>\<close>

definition to_slashes :: "string \<Rightarrow> string" where
  "to_slashes s = map (\<lambda>c. if c = backslash then slash else c) s"

text \<open>\<open>split\<close> at a one-character separator.\<close>

fun split_at :: "char \<Rightarrow> string \<Rightarrow> string list" where
  "split_at c [] = [[]]"
| "split_at c (x # xs) = (if x = c then [] # split_at c xs
     else (case split_at c xs of [] \<Rightarrow> [[x]] | p # ps \<Rightarrow> (x # p) # ps))"

fun join_with :: "string \<Rightarrow> string list \<Rightarrow> string" where
  "join_with sep [] = []"
| "join_with sep [s] = s"
| "join_with sep (s # t # ts) = s @ sep @ join_with sep (t # ts)"

definition starts_with :: "string \<Rightarrow> string \<Rightarrow> bool" where
  "starts_with p s \<longleftrightarrow> take (length p) s = p"

definition ends_with :: "string \<Rightarrow> string \<Rightarrow> bool" where
  "ends_with p s \<longleftrightarrow> starts_with (rev p) (rev s)"

text \<open>\<open>trim\<close>, for the white space of ASCII.\<close>

definition is_space :: "char \<Rightarrow> bool" where
  "is_space c \<longleftrightarrow> in_range 9 13 c \<or> byte c = 32"

definition trim_start :: "string \<Rightarrow> string" where
  "trim_start s = dropWhile is_space s"

definition trim :: "string \<Rightarrow> string" where
  "trim s = rev (trim_start (rev (trim_start s)))"

definition em_dash :: string where
  "em_dash = [CHR 0xE2, CHR 0x80, CHR 0x94]"

lemma split_at_ne [simp]: "split_at c s \<noteq> []"
  by (induction s) (auto split: list.splits)

lemma split_at_pieces: "p \<in> set (split_at c s) \<Longrightarrow> c \<notin> set p"
proof (induction s arbitrary: p)
  case (Cons x xs)
  then show ?case
    by (cases "split_at c xs") (auto split: if_splits list.splits)
qed simp

lemma join_split: "join_with [c] (split_at c s) = s"
proof (induction s)
  case (Cons x xs)
  then show ?case
  proof (cases "split_at c xs")
    case Nil
    then show ?thesis by simp
  next
    case split: (Cons p ps)
    with Cons show ?thesis by (cases ps) auto
  qed
qed simp

lemma split_at_no: "c \<notin> set s \<Longrightarrow> split_at c s = [s]"
  by (induction s) auto

lemma split_at_append: "c \<notin> set p \<Longrightarrow> split_at c (p @ c # s) = p # split_at c s"
  by (induction p) auto

lemma split_join:
  "ps \<noteq> [] \<Longrightarrow> (\<forall>p \<in> set ps. c \<notin> set p) \<Longrightarrow> split_at c (join_with [c] ps) = ps"
proof (induction ps rule: induct_list012)
  case (3 x y zs)
  then show ?case by (simp add: split_at_append)
qed (simp_all add: split_at_no)

lemma starts_with_iff: "starts_with p s \<longleftrightarrow> (\<exists>t. s = p @ t)"
  by (metis append_eq_conv_conj append_take_drop_id starts_with_def)

lemma to_slashes_idem [simp]: "to_slashes (to_slashes s) = to_slashes s"
  by (simp add: to_slashes_def)

lemma to_slashes_id: "backslash \<notin> set s \<Longrightarrow> to_slashes s = s"
  by (auto simp: to_slashes_def intro!: map_idI)

section \<open>Decimal numbers\<close>

text \<open>\<open>String(n)\<close> of a natural number, and the value of a string of digits.\<close>

fun show_nat :: "nat \<Rightarrow> string" where
  "show_nat n = (if n < 10 then [char_of (48 + n)] else show_nat (n div 10) @ [char_of (48 + n mod 10)])"

declare show_nat.simps [simp del]

definition is_digit :: "char \<Rightarrow> bool" where
  "is_digit c = in_range 0x30 0x39 c"

definition digits_nat :: "string \<Rightarrow> nat" where
  "digits_nat ds = foldl (\<lambda>v d. v * 10 + (byte d - 48)) 0 ds"

definition parse_nat :: "string \<Rightarrow> nat option" where
  "parse_nat s = (if s \<noteq> [] \<and> list_all is_digit s then Some (digits_nat s) else None)"

lemma digit_char: "n < 10 \<Longrightarrow> byte (char_of (48 + n)) = 48 + n" "n < 10 \<Longrightarrow> is_digit (char_of (48 + n))"
  by (simp_all add: byte_def is_digit_def in_range_def)

lemma show_nat_digits: "show_nat n \<noteq> [] \<and> list_all is_digit (show_nat n) \<and> digits_nat (show_nat n) = n"
proof (induction n rule: show_nat.induct)
  case (1 n)
  show ?case
  proof (cases "n < 10")
    case True
    then show ?thesis by (simp add: show_nat.simps [of n] digit_char digits_nat_def)
  next
    case False
    with 1 show ?thesis
      by (simp add: show_nat.simps [of n] digit_char digits_nat_def)
  qed
qed

lemma parse_show_nat [simp]: "parse_nat (show_nat n) = Some n"
  using show_nat_digits [of n] by (simp add: parse_nat_def)

lemma show_nat_ne [simp]: "show_nat n \<noteq> []"
  using show_nat_digits by blast

section \<open>Searching\<close>

text \<open>\<open>toLowerCase\<close> of the ASCII letters, and \<open>includes\<close>.\<close>

definition lower_char :: "char \<Rightarrow> char" where
  "lower_char c = (if in_range 0x41 0x5A c then char_of (byte c + 32) else c)"

definition lower :: "string \<Rightarrow> string" where
  "lower s = map lower_char s"

fun contains :: "string \<Rightarrow> string \<Rightarrow> bool" where
  "contains p [] = (p = [])"
| "contains p (c # s) = (starts_with p (c # s) \<or> contains p s)"

lemma contains_iff: "contains p s \<longleftrightarrow> (\<exists>a b. s = a @ p @ b)"
proof (induction s)
  case (Cons c s)
  show ?case
  proof
    assume "contains p (c # s)"
    then consider t where "c # s = p @ t" | a b where "s = a @ p @ b"
      using Cons by (auto simp: starts_with_iff)
    then show "\<exists>a b. c # s = a @ p @ b"
    proof cases
      case (1 t)
      then show ?thesis by (intro exI [of _ "[]"] exI [of _ t]) simp
    next
      case (2 a b)
      then show ?thesis by (intro exI [of _ "c # a"] exI [of _ b]) simp
    qed
  next
    assume "\<exists>a b. c # s = a @ p @ b"
    then obtain a b where ab: "c # s = a @ p @ b" by blast
    show "contains p (c # s)"
    proof (cases a)
      case Nil
      with ab have "starts_with p (c # s)" by (simp add: starts_with_iff)
      then show ?thesis by simp
    next
      case (Cons x xs)
      with ab have "s = xs @ p @ b" by simp
      with Cons.IH show ?thesis by auto
    qed
  qed
qed auto

end
