(* ===== verification/Tar.thy ===== *)
theory Tar
  imports Text
begin

text \<open>
  The ustar writer and reader of \<open>packages/workspace-checkpoint/src/tar.ts\<close>, byte by byte. The
  reader's loop may never end (its offset can be sent backwards), so it is a partial function:
  None is not returning.
\<close>

section \<open>Headers\<close>

record TarEntry =
  path :: string
  content :: string

definition BLOCK :: nat where
  "BLOCK = 512"

definition isAllZero :: "string \<Rightarrow> bool" where
  "isAllZero block \<longleftrightarrow> (\<forall>c \<in> set block. c = NUL)"

text \<open>\<open>buf.set(bytes, offset)\<close> and \<open>buf.subarray(offset, offset + n)\<close>.\<close>

definition blit :: "nat \<Rightarrow> string \<Rightarrow> string \<Rightarrow> string" where
  "blit off bs buf = take off buf @ bs @ drop (off + length bs) buf"

definition subarray :: "nat \<Rightarrow> nat \<Rightarrow> string \<Rightarrow> string" where
  "subarray off n buf = take n (drop off buf)"

fun octal_digits :: "nat \<Rightarrow> string" where
  "octal_digits n = (if n < 8 then [char_of (0x30 + n)] else octal_digits (n div 8) @ [char_of (0x30 + n mod 8)])"

declare octal_digits.simps [simp del]

definition writeOctal :: "nat \<Rightarrow> nat \<Rightarrow> nat \<Rightarrow> string \<Rightarrow> string + string" where
  "writeOctal off len value buf =
     (let digits = octal_digits value;
          padded = replicate (len - 1 - length digits) (CHR ''0'') @ digits in
      if length padded \<noteq> len - 1 then Inl ''ustar: value does not fit''
      else Inr (blit (off + len - 1) [NUL] (blit off padded buf)))"

definition writeString :: "nat \<Rightarrow> nat \<Rightarrow> string \<Rightarrow> string \<Rightarrow> string + string" where
  "writeString off len value buf =
     (if length value > len then Inl ''ustar: string exceeds field'' else Inr (blit off value buf))"

definition computeChecksum :: "string \<Rightarrow> nat" where
  "computeChecksum header =
     (\<Sum>i\<leftarrow>[0..<BLOCK]. if 148 \<le> i \<and> i < 156 then 0x20
                       else if i < length header then byte (header ! i) else 0)"

text \<open>
  \<open>parseInt(s, 8)\<close>: leading white space, a sign, then the longest run of octal digits; None is NaN.
\<close>

fun octal_value :: "int \<Rightarrow> string \<Rightarrow> int" where
  "octal_value acc [] = acc"
| "octal_value acc (c # s) = (if in_range 0x30 0x37 c then octal_value (acc * 8 + int (byte c) - 0x30) s else acc)"

definition parseInt8 :: "string \<Rightarrow> int option" where
  "parseInt8 s =
     (let t = trim_start s;
          (sign, u) = (case t of [] \<Rightarrow> (1, t)
                       | c # v \<Rightarrow> if c = CHR ''-'' then (-1, v) else if c = CHR ''+'' then (1, v) else (1, t)) in
      case u of
        [] \<Rightarrow> None
      | c # _ \<Rightarrow> if in_range 0x30 0x37 c then Some (sign * octal_value 0 u) else None)"

definition parseOctal :: "nat \<Rightarrow> nat \<Rightarrow> string \<Rightarrow> string + int" where
  "parseOctal off len block =
     (if off < length block \<and> byte (block ! off) \<ge> 0x80
      then Inl ''ustar: GNU base-256 numeric fields are not supported''
      else
        (let s = takeWhile (\<lambda>c. c \<noteq> NUL \<and> byte c \<noteq> 0x20) (subarray off len block) in
         if s = [] then Inr 0
         else (case parseInt8 s of None \<Rightarrow> Inl ''ustar: invalid octal field'' | Some v \<Rightarrow> Inr v)))"

definition readString :: "nat \<Rightarrow> nat \<Rightarrow> string \<Rightarrow> string" where
  "readString off len block = decodeText (takeWhile (\<lambda>c. c \<noteq> NUL) (subarray off len block))"

text \<open>The part before the last slash and the part after it; None without a slash.\<close>

definition cut_last_slash :: "string \<Rightarrow> (string \<times> string) option" where
  "cut_last_slash p =
     (if slash \<notin> set p then None
      else (let name = rev (takeWhile (\<lambda>c. c \<noteq> slash) (rev p)) in
            Some (take (length p - length name - 1) p, name)))"

definition splitUstarPath :: "string \<Rightarrow> (string \<times> string) option" where
  "splitUstarPath p =
     (if js_length p \<le> 100 then Some ([], p)
      else (case cut_last_slash p of
              None \<Rightarrow> None
            | Some (pre, name) \<Rightarrow>
                if js_length name = 0 \<or> js_length name > 100 \<or> js_length pre > 155 then None
                else Some (pre, name)))"

section \<open>Writing\<close>

definition zeros :: "nat \<Rightarrow> string" where
  "zeros n = replicate n NUL"

definition padded :: "string \<Rightarrow> string" where
  "padded bs = bs @ zeros ((length bs + (BLOCK - 1)) div BLOCK * BLOCK - length bs)"

definition makeHeader :: "string \<Rightarrow> string \<Rightarrow> nat \<Rightarrow> string + string" where
  "makeHeader pre name n =
     andThen (writeString 0 100 name (zeros BLOCK)) (\<lambda>h.
     andThen (writeOctal 100 8 420 h) (\<lambda>h.
     andThen (writeOctal 108 8 0 h) (\<lambda>h.
     andThen (writeOctal 116 8 0 h) (\<lambda>h.
     andThen (writeOctal 124 12 n h) (\<lambda>h.
     andThen (writeOctal 136 12 0 h) (\<lambda>h.
     andThen (Inr (blit 148 (replicate 8 (CHR 0x20)) h)) (\<lambda>h.
     andThen (Inr (blit 156 [CHR 0x30] h)) (\<lambda>h.
     andThen (writeString 257 6 (''ustar'' @ [NUL]) h) (\<lambda>h.
     andThen (writeString 263 2 ''00'' h) (\<lambda>h.
     andThen (writeString 265 32 [] h) (\<lambda>h.
     andThen (writeString 297 32 [] h) (\<lambda>h.
     andThen (if pre \<noteq> [] then writeString 345 155 pre h else Inr h) (\<lambda>h.
     writeOctal 148 8 (computeChecksum h) h)))))))))))))"

fun createEntries :: "TarEntry list \<Rightarrow> string + string" where
  "createEntries [] = Inr []"
| "createEntries (e # es) =
     (let p = to_slashes (path e) in
      if js_length p = 0 \<or> ends_with [slash] p then Inl ''ustar: invalid entry path''
      else (case splitUstarPath p of
              None \<Rightarrow> Inl ''ustar: path too long for ustar format''
            | Some (pre, name) \<Rightarrow>
                andThen (makeHeader pre name (length (content e))) (\<lambda>h.
                andThen (createEntries es) (\<lambda>rest. Inr (h @ padded (content e) @ rest)))))"

definition createUntrackedTar :: "TarEntry list \<Rightarrow> string + string" where
  "createUntrackedTar es = andThen (createEntries es) (\<lambda>bs. Inr (bs @ zeros (BLOCK * 2)))"

section \<open>Reading\<close>

text \<open>\<open>subarray(begin, end)\<close>: a negative index counts from the end, and both are clamped.\<close>

definition js_index :: "nat \<Rightarrow> int \<Rightarrow> nat" where
  "js_index len i = nat (if i < 0 then max 0 (int len + i) else min (int len) i)"

definition js_subarray :: "int \<Rightarrow> int \<Rightarrow> string \<Rightarrow> string" where
  "js_subarray b e bs = subarray (js_index (length bs) b) (js_index (length bs) e - js_index (length bs) b) bs"

text \<open>What one header says: the size, whether the entry is a regular file, and its path.\<close>

definition readHeader :: "string \<Rightarrow> string + int \<times> bool \<times> string" where
  "readHeader header =
     (let magic = decodeText (subarray 257 6 header) in
      if magic \<noteq> ''ustar'' @ [NUL] \<and> magic \<noteq> ''ustar ''
      then Inl ''ustar: not a ustar archive (bad magic)''
      else andThen (parseOctal 148 8 header) (\<lambda>storedChksum.
        if storedChksum \<noteq> int (computeChecksum header) then Inl ''ustar: header checksum mismatch''
        else andThen (parseOctal 124 12 header) (\<lambda>n.
          let typeflag = (if 156 < length header then header ! 156 else NUL);
              name = readString 0 100 header;
              pre = readString 345 155 header;
              p = (if pre \<noteq> [] then pre @ slash # name else name) in
          if p = [] then Inl ''ustar: entry with empty path''
          else Inr (n, typeflag = CHR ''0'' \<or> typeflag = NUL, p))))"

definition padded_size :: "int \<Rightarrow> int" where
  "padded_size n = - ((- n) div int BLOCK) * int BLOCK"

partial_function (option) extractLoop ::
  "string \<Rightarrow> int \<Rightarrow> TarEntry list \<Rightarrow> (string + TarEntry list) option" where
  "extractLoop bs offset entries =
     (if \<not> offset + int BLOCK \<le> int (length bs) then Some (Inr entries)
      else
        (let header = js_subarray offset (offset + int BLOCK) bs in
         if isAllZero header then Some (Inr entries)
         else (case readHeader header of
             Inl e \<Rightarrow> Some (Inl e)
           | Inr (n, regular, p) \<Rightarrow>
               (let offset = offset + int BLOCK in
                if offset + padded_size n > int (length bs) then Some (Inl ''ustar: truncated entry data'')
                else extractLoop bs (offset + padded_size n)
                  (if regular then entries @ [\<lparr>path = p, content = js_subarray offset (offset + n) bs\<rparr>]
                   else entries)))))"

definition extractUntrackedTar :: "string \<Rightarrow> (string + TarEntry list) option" where
  "extractUntrackedTar bs =
     (if bs = [] then Some (Inr [])
      else if length bs mod BLOCK \<noteq> 0 then Some (Inl ''ustar: archive size is not a multiple of 512 bytes'')
      else extractLoop bs 0 [])"

end
