(* ===== verification/Posix_Path.thy ===== *)
theory Posix_Path
  imports Text
begin

text \<open>
  The functions of Node's \<open>path.posix\<close> the source calls, and the check that keeps a restored file
  inside the workspace (\<open>resolveWorkspaceEntryPath\<close> of
  \<open>packages/workspace-checkpoint/src/restore.ts\<close>).
\<close>

section \<open>Node's path.posix\<close>

text \<open>The segments kept, last first, after dropping empty ones, dots and pairs undone by two dots.\<close>

fun norm_segs :: "bool \<Rightarrow> string list \<Rightarrow> string list \<Rightarrow> string list" where
  "norm_segs up acc [] = acc"
| "norm_segs up acc (s # ss) =
     (if s = [] \<or> s = ''.'' then norm_segs up acc ss
      else if s = ''..'' then
        (if acc \<noteq> [] \<and> hd acc \<noteq> ''..'' then norm_segs up (tl acc) ss
         else if up then norm_segs up (''..'' # acc) ss
         else norm_segs up acc ss)
      else norm_segs up (s # acc) ss)"

definition join_segs :: "string list \<Rightarrow> string" where
  "join_segs segs = join_with [slash] segs"

definition posix_normalize :: "string \<Rightarrow> string" where
  "posix_normalize p =
     (if p = [] then ''.''
      else (let absolute = starts_with [slash] p;
                body = join_segs (rev (norm_segs (\<not> absolute) [] (split_at slash p)));
                trailing = ends_with [slash] p in
            if body = [] then (if absolute then [slash] else if trailing then ''./'' else ''.'')
            else (if absolute then [slash] else []) @ body @ (if trailing then [slash] else [])))"

definition posix_join :: "string list \<Rightarrow> string" where
  "posix_join ps =
     (let qs = filter (\<lambda>p. p \<noteq> []) ps in if qs = [] then ''.'' else posix_normalize (join_segs qs))"

text \<open>Segments are taken from the right until the path is absolute; \<open>cwd\<close> is absolute.\<close>

fun absolute_tail :: "string \<Rightarrow> string list \<Rightarrow> string" where
  "absolute_tail cwd [] = cwd"
| "absolute_tail cwd (p # ps) =
     (if p = [] then absolute_tail cwd ps
      else if starts_with [slash] p then p
      else absolute_tail cwd ps @ [slash] @ p)"

definition posix_resolve :: "string \<Rightarrow> string list \<Rightarrow> string" where
  "posix_resolve cwd ps =
     [slash] @ join_segs (rev (norm_segs False [] (split_at slash (absolute_tail cwd (rev ps)))))"

text \<open>\<open>dirname\<close> of a normalised absolute path.\<close>

definition posix_dirname :: "string \<Rightarrow> string" where
  "posix_dirname p =
     (let parent = rev (drop 1 (dropWhile (\<lambda>c. c \<noteq> slash) (rev p))) in
      if parent = [] then [slash] else parent)"

section \<open>Entries of the archive\<close>

datatype restore_error =
    RestoreValidationError string | PlainError string | Thrown string

definition is_letter :: "char \<Rightarrow> bool" where
  "is_letter c \<longleftrightarrow> in_range 0x41 0x5A c \<or> in_range 0x61 0x7A c"

text \<open>\<open>/^[A-Za-z]:/\<close>\<close>

fun drive_prefix :: "string \<Rightarrow> bool" where
  "drive_prefix (c # d # _) = (is_letter c \<and> d = CHR '':'')"
| "drive_prefix _ = False"

definition resolveWorkspaceEntryPath :: "string \<Rightarrow> string \<Rightarrow> string \<Rightarrow> restore_error + string" where
  "resolveWorkspaceEntryPath cwd workspaceDir entryPath =
     (let normalized = to_slashes entryPath in
      if starts_with [slash] normalized \<or> drive_prefix normalized
      then Inl (RestoreValidationError (''restore validation failed: absolute path in untracked tar entry: '' @ entryPath))
      else if \<exists>seg \<in> set (split_at slash normalized). seg = ''..''
      then Inl (RestoreValidationError (''restore validation failed: path traversal in untracked tar entry: '' @ entryPath))
      else
        (let workspaceRoot = posix_resolve cwd [workspaceDir];
             resolved = posix_resolve cwd [workspaceRoot, normalized] in
         if resolved \<noteq> workspaceRoot \<and> \<not> starts_with (workspaceRoot @ [slash]) resolved
         then Inl (RestoreValidationError (''restore validation failed: path escapes workspace: '' @ entryPath))
         else if resolved = workspaceRoot \<or> normalized = [] \<or> normalized = ''.''
         then Inl (RestoreValidationError ''restore validation failed: empty untracked tar entry path'')
         else Inr resolved))"

section \<open>Segments\<close>

definition plain_segment :: "string \<Rightarrow> bool" where
  "plain_segment s \<longleftrightarrow> s \<noteq> [] \<and> s \<noteq> ''.'' \<and> s \<noteq> ''..'' \<and> slash \<notin> set s"

lemma norm_segs_append: "norm_segs a acc (xs @ ys) = norm_segs a (norm_segs a acc xs) ys"
  by (induction xs arbitrary: acc) auto

lemma norm_segs_no_dots:
  "''..'' \<notin> set ss \<Longrightarrow> norm_segs a acc ss = rev (filter (\<lambda>s. s \<noteq> [] \<and> s \<noteq> ''.'') ss) @ acc"
  by (induction ss arbitrary: acc) auto

lemma norm_segs_plain:
  "(\<forall>s \<in> set ss. slash \<notin> set s) \<Longrightarrow> (\<forall>s \<in> set acc. plain_segment s) \<Longrightarrow>
     \<forall>s \<in> set (norm_segs False acc ss). plain_segment s"
proof (induction ss arbitrary: acc)
  case (Cons s ss)
  have ss: "\<forall>s \<in> set ss. slash \<notin> set s" using Cons.prems(1) by simp
  have tl: "\<forall>s \<in> set (tl acc). plain_segment s" using Cons.prems(2) by (cases acc) simp_all
  show ?case
  proof (cases "s = [] \<or> s = ''.'' \<or> s = ''..''")
    case True
    with Cons.IH [OF ss tl] Cons.IH [OF ss Cons.prems(2)] show ?thesis by auto
  next
    case False
    then have "\<forall>s \<in> set (s # acc). plain_segment s"
      using Cons.prems by (simp add: plain_segment_def)
    from Cons.IH [OF ss this] False show ?thesis by simp
  qed
qed simp

lemma norm_segs_id: "(\<forall>s \<in> set ss. plain_segment s) \<Longrightarrow> norm_segs a acc ss = rev ss @ acc"
  by (induction ss arbitrary: acc) (auto simp: plain_segment_def)

lemma split_snoc: "split_at c (p @ c # q) = split_at c p @ split_at c q"
proof (induction p)
  case (Cons x p)
  then show ?case
  proof (cases "x = c")
    case False
    with Cons show ?thesis by (cases "split_at c p") auto
  qed simp
qed simp

lemma split_join_segs:
  "(\<forall>s \<in> set ss. slash \<notin> set s) \<Longrightarrow> split_at slash (join_segs ss) = (if ss = [] then [[]] else ss)"
  by (simp add: join_segs_def split_join)

lemma join_segs_append:
  "ss \<noteq> [] \<Longrightarrow> ts \<noteq> [] \<Longrightarrow> join_segs (ss @ ts) = join_segs ss @ slash # join_segs ts"
proof (induction ss rule: induct_list012)
  case (2 x)
  then show ?case by (cases ts) (simp_all add: join_segs_def)
qed (auto simp: join_segs_def)

lemma posix_resolve_shape:
  "\<exists>R. posix_resolve cwd ps = slash # join_segs R \<and> (\<forall>s \<in> set R. plain_segment s)"
proof -
  let ?S = "split_at slash (absolute_tail cwd (rev ps))"
  have "\<forall>s \<in> set ?S. slash \<notin> set s" using split_at_pieces by blast
  then have "\<forall>s \<in> set (norm_segs False [] ?S). plain_segment s" by (rule norm_segs_plain) simp
  then show ?thesis by (intro exI [of _ "rev (norm_segs False [] ?S)"]) (simp add: posix_resolve_def)
qed

text \<open>Resolving a relative path without two dots against a root that is already resolved.\<close>

lemma posix_resolve_below:
  assumes "root = slash # join_segs R" "\<forall>s \<in> set R. plain_segment s"
    and "\<not> starts_with [slash] p" "''..'' \<notin> set (split_at slash p)"
  shows "posix_resolve cwd [root, p] = slash # join_segs (R @ filter (\<lambda>s. s \<noteq> [] \<and> s \<noteq> ''.'') (split_at slash p))"
proof -
  have sl: "\<forall>s \<in> set R. slash \<notin> set s" using assms(2) by (simp add: plain_segment_def)
  have R: "norm_segs False [] (split_at slash root) = rev R"
  proof (cases "R = []")
    case True
    then show ?thesis using assms(1) by (simp add: join_segs_def)
  next
    case False
    then have "split_at slash root = [] # R" using assms(1) split_join_segs [OF sl] by simp
    then show ?thesis using norm_segs_id [OF assms(2), of False "[]"] by simp
  qed
  have abs: "absolute_tail cwd (rev [root, p]) = (if p = [] then root else root @ slash # p)"
    using assms(1,3) by (simp add: starts_with_def)
  have "norm_segs False [] (split_at slash (absolute_tail cwd (rev [root, p])))
      = rev (filter (\<lambda>s. s \<noteq> [] \<and> s \<noteq> ''.'') (split_at slash p)) @ rev R"
    unfolding abs using R norm_segs_no_dots [OF assms(4), of False "rev R"]
    by (cases "p = []") (simp_all add: split_snoc norm_segs_append)
  then show ?thesis unfolding posix_resolve_def by simp
qed

text \<open>C15: whatever the entry says, a path that is accepted lies strictly inside the workspace: it is the
  resolved root followed by one or more plain segments, none of them empty, a dot or two dots.\<close>

theorem entry_path_stays_inside:
  assumes "resolveWorkspaceEntryPath cwd wd e = Inr p"
  shows "\<exists>segs. segs \<noteq> [] \<and> p = posix_resolve cwd [wd] @ [slash] @ join_segs segs
     \<and> list_all plain_segment segs"
proof -
  let ?n = "to_slashes e" and ?root = "posix_resolve cwd [wd]"
  let ?N = "filter (\<lambda>s. s \<noteq> [] \<and> s \<noteq> ''.'') (split_at slash ?n)"
  obtain R where R: "?root = slash # join_segs R" "\<forall>s \<in> set R. plain_segment s"
    using posix_resolve_shape by blast
  from assms have n: "\<not> starts_with [slash] ?n" "''..'' \<notin> set (split_at slash ?n)"
    and p: "p = posix_resolve cwd [?root, ?n]" "p \<noteq> ?root" "starts_with (?root @ [slash]) p"
    by (auto simp: resolveWorkspaceEntryPath_def Let_def split: if_splits)
  have pn: "p = slash # join_segs (R @ ?N)" using p(1) posix_resolve_below [OF R n] by simp
  have N: "?N \<noteq> []" using p(2) R(1) pn by auto
  have plain: "list_all plain_segment ?N"
    using n(2) split_at_pieces by (auto simp: list_all_iff plain_segment_def)
  have "R \<noteq> []"
  proof
    assume "R = []"
    with p(3) R(1) have sw: "starts_with (slash # slash # []) p" by (simp add: join_segs_def)
    obtain x xs where "?N = x # xs" using N by (cases ?N) auto
    moreover from this plain have "x \<noteq> [] \<and> slash \<notin> set x" by (auto simp: list_all_iff plain_segment_def)
    ultimately show False
      using sw pn \<open>R = []\<close> by (cases x; cases xs) (auto simp: join_segs_def starts_with_def)
  qed
  with pn R(1) N join_segs_append have "p = ?root @ [slash] @ join_segs ?N" by simp
  with N plain show ?thesis by blast
qed

theorem entry_path_stays_inside_witness:
  "\<exists>segs. segs \<noteq> [] \<and> ''/workspace/a/b.txt'' = posix_resolve ''/'' [''/workspace''] @ [slash] @ join_segs segs
     \<and> list_all plain_segment segs"
proof -
  have "resolveWorkspaceEntryPath ''/'' ''/workspace'' ''a/./b.txt'' = Inr ''/workspace/a/b.txt''"
    by code_simp
  then show ?thesis by (rule entry_path_stays_inside)
qed

end
