(* ===== verification/Js_Regex.thy ===== *)
theory Js_Regex
  imports Text
begin

text \<open>
  The regular expressions of JavaScript as far as the program uses them: matching by backtracking,
  with the alternatives in the order the language tries them, greedy and lazy repetition, capture
  groups, word boundaries and assertions about one neighbouring character, and \<open>String.prototype.replace\<close> with a global expression.
\<close>

section \<open>Expressions and their matches\<close>

datatype rx =
    Eps
  | Cls "char \<Rightarrow> bool"
  | Cat rx rx
  | Alt rx rx
  | Star rx
  | Lazy rx
  | Grp nat rx
  | Bnd
  | NotBefore "char \<Rightarrow> bool"
  | NotAfter "char \<Rightarrow> bool"

text \<open>What has been read, in reverse, what is left, and the captures (an unset one is empty).\<close>

record mstate =
  m_done :: string
  m_rest :: string
  m_caps :: "nat \<Rightarrow> string"

fun eat :: "(char \<Rightarrow> bool) \<Rightarrow> string \<Rightarrow> mstate \<Rightarrow> mstate list" where
  "eat P [] m = []"
| "eat P (c # s) m = (if P c then [m\<lparr>m_done := c # m_done m, m_rest := s\<rparr>] else [])"

definition longer :: "mstate \<Rightarrow> mstate \<Rightarrow> bool" where
  "longer m' m \<longleftrightarrow> length (m_rest m') < length (m_rest m)"

text \<open>A repetition tries its body again only after the body has consumed something.\<close>

fun greedy :: "(mstate \<Rightarrow> mstate list) \<Rightarrow> nat \<Rightarrow> mstate \<Rightarrow> mstate list" where
  "greedy step 0 m = [m]"
| "greedy step (Suc n) m = concat (map (greedy step n) (filter (\<lambda>m'. longer m' m) (step m))) @ [m]"

fun reluctant :: "(mstate \<Rightarrow> mstate list) \<Rightarrow> nat \<Rightarrow> mstate \<Rightarrow> mstate list" where
  "reluctant step 0 m = [m]"
| "reluctant step (Suc n) m = m # concat (map (reluctant step n) (filter (\<lambda>m'. longer m' m) (step m)))"

definition word_char :: "char \<Rightarrow> bool" where
  "word_char c \<longleftrightarrow> in_range 0x30 0x39 c \<or> in_range 0x41 0x5A c \<or> in_range 0x61 0x7A c \<or> c = CHR ''_''"

definition at_boundary :: "mstate \<Rightarrow> bool" where
  "at_boundary m \<longleftrightarrow>
     (m_done m \<noteq> [] \<and> word_char (hd (m_done m))) \<noteq> (m_rest m \<noteq> [] \<and> word_char (hd (m_rest m)))"

definition capture :: "nat \<Rightarrow> mstate \<Rightarrow> mstate \<Rightarrow> mstate" where
  "capture n m m' = m'\<lparr>m_caps := (m_caps m')(n := take (length (m_rest m) - length (m_rest m')) (m_rest m))\<rparr>"

primrec matches :: "rx \<Rightarrow> mstate \<Rightarrow> mstate list" where
  "matches Eps = (\<lambda>m. [m])"
| "matches (Cls P) = (\<lambda>m. eat P (m_rest m) m)"
| "matches (Cat r q) = (\<lambda>m. concat (map (matches q) (matches r m)))"
| "matches (Alt r q) = (\<lambda>m. matches r m @ matches q m)"
| "matches (Star r) = (\<lambda>m. greedy (matches r) (length (m_rest m)) m)"
| "matches (Lazy r) = (\<lambda>m. reluctant (matches r) (length (m_rest m)) m)"
| "matches (Grp n r) = (\<lambda>m. map (capture n m) (matches r m))"
| "matches Bnd = (\<lambda>m. if at_boundary m then [m] else [])"
| "matches (NotBefore P) = (\<lambda>m. if m_rest m \<noteq> [] \<and> P (hd (m_rest m)) then [] else [m])"
| "matches (NotAfter P) = (\<lambda>m. if m_done m \<noteq> [] \<and> P (hd (m_done m)) then [] else [m])"

section \<open>Shorthands\<close>

definition chr :: "char \<Rightarrow> rx" where
  "chr c = Cls (\<lambda>d. d = c)"

definition chr_i :: "char \<Rightarrow> rx" where
  "chr_i c = Cls (\<lambda>d. lower_char d = lower_char c)"

fun lit :: "string \<Rightarrow> rx" where
  "lit [] = Eps"
| "lit (c # s) = Cat (chr c) (lit s)"

fun lit_i :: "string \<Rightarrow> rx" where
  "lit_i [] = Eps"
| "lit_i (c # s) = Cat (chr_i c) (lit_i s)"

definition Opt :: "rx \<Rightarrow> rx" where
  "Opt r = Alt r Eps"

definition Plus :: "rx \<Rightarrow> rx" where
  "Plus r = Cat r (Star r)"

fun at_least :: "nat \<Rightarrow> rx \<Rightarrow> rx" where
  "at_least 0 r = Star r"
| "at_least (Suc n) r = Cat r (at_least n r)"

fun one_of :: "rx list \<Rightarrow> rx" where
  "one_of [] = Cls (\<lambda>_. False)"
| "one_of [r] = r"
| "one_of (r # q # rs) = Alt r (one_of (q # rs))"

fun times_rx :: "nat \<Rightarrow> rx \<Rightarrow> rx" where
  "times_rx 0 r = Eps"
| "times_rx (Suc n) r = Cat r (times_rx n r)"

section \<open>Global replacement\<close>

definition start_at :: "string \<Rightarrow> string \<Rightarrow> mstate" where
  "start_at d s = \<lparr>m_done = d, m_rest = s, m_caps = (\<lambda>_. [])\<rparr>"

fun replace_from :: "rx \<Rightarrow> ((nat \<Rightarrow> string) \<Rightarrow> string) \<Rightarrow> nat \<Rightarrow> string \<Rightarrow> string \<Rightarrow> string" where
  "replace_from r f 0 d s = s"
| "replace_from r f (Suc n) d s =
     (let copy = (case s of [] \<Rightarrow> [] | c # t \<Rightarrow> c # replace_from r f n (c # d) t) in
      case matches r (start_at d s) of
        [] \<Rightarrow> copy
      | m # _ \<Rightarrow> if length (m_rest m) < length s then f (m_caps m) @ replace_from r f n (m_done m) (m_rest m)
                 else f (m_caps m) @ copy)"

definition replace_all :: "rx \<Rightarrow> ((nat \<Rightarrow> string) \<Rightarrow> string) \<Rightarrow> string \<Rightarrow> string" where
  "replace_all r f s = replace_from r f (Suc (length s)) [] s"

text \<open>With a function of the offset and the text of the match.\<close>

fun replace_at :: "rx \<Rightarrow> (nat \<Rightarrow> string \<Rightarrow> string) \<Rightarrow> nat \<Rightarrow> string \<Rightarrow> string \<Rightarrow> string" where
  "replace_at r f 0 d s = s"
| "replace_at r f (Suc n) d s =
     (case matches r (start_at d s) of
        [] \<Rightarrow> (case s of [] \<Rightarrow> [] | c # t \<Rightarrow> c # replace_at r f n (c # d) t)
      | m # _ \<Rightarrow> f (length d) (take (length s - length (m_rest m)) s) @
          (if length (m_rest m) < length s then replace_at r f n (m_done m) (m_rest m)
           else (case s of [] \<Rightarrow> [] | c # t \<Rightarrow> c # replace_at r f n (c # d) t)))"

text \<open>\<open>test\<close> of an expression between \<open>^\<close> and \<open>$\<close>, and of one that may match anywhere.\<close>

definition rx_whole :: "rx \<Rightarrow> string \<Rightarrow> bool" where
  "rx_whole r s \<longleftrightarrow> list_ex (\<lambda>m. m_rest m = []) (matches r (start_at [] s))"

fun rx_test :: "rx \<Rightarrow> string \<Rightarrow> string \<Rightarrow> bool" where
  "rx_test r d s = (matches r (start_at d s) \<noteq> [] \<or> (case s of [] \<Rightarrow> False | c # t \<Rightarrow> rx_test r (c # d) t))"

section \<open>What a match reads\<close>

text \<open>A match reads on from where it starts, and captures only what it has read.\<close>

definition reads_on :: "mstate \<Rightarrow> mstate \<Rightarrow> bool" where
  "reads_on m m' \<longleftrightarrow> suffix (m_rest m') (m_rest m) \<and> (\<forall>n. set (m_caps m' n) \<subseteq> set (m_caps m n) \<union> set (m_rest m))"

lemma reads_on_refl [simp]: "reads_on m m"
  by (simp add: reads_on_def)

lemma reads_on_trans: "reads_on m m' \<Longrightarrow> reads_on m' m'' \<Longrightarrow> reads_on m m''"
  unfolding reads_on_def by (meson suffix_order.trans set_mono_suffix subset_trans Un_least Un_upper1 Un_mono subsetD subsetI UnE UnI1 UnI2)

lemma reads_on_greedy:
  assumes "\<And>m m'. m' \<in> set (step m) \<Longrightarrow> reads_on m m'"
  shows "m' \<in> set (greedy step n m) \<Longrightarrow> reads_on m m'"
  by (induction n arbitrary: m) (auto intro: reads_on_trans assms)

lemma reads_on_reluctant:
  assumes "\<And>m m'. m' \<in> set (step m) \<Longrightarrow> reads_on m m'"
  shows "m' \<in> set (reluctant step n m) \<Longrightarrow> reads_on m m'"
  by (induction n arbitrary: m) (auto intro: reads_on_trans assms)

lemma reads_on_eat: "m' \<in> set (eat P (m_rest m) m) \<Longrightarrow> reads_on m m'"
  by (cases "m_rest m") (auto simp: reads_on_def suffix_Cons split: if_splits)

lemma reads_on_capture: "reads_on m m' \<Longrightarrow> reads_on m (capture n m m')"
  by (auto simp: reads_on_def capture_def dest: in_set_takeD)

lemma matches_read_on: "m' \<in> set (matches r m) \<Longrightarrow> reads_on m m'"
proof (induction r arbitrary: m m')
  case (Cat r q)
  from Cat.prems obtain x where "x \<in> set (matches r m)" "m' \<in> set (matches q x)" by auto
  then show ?case using reads_on_trans Cat.IH by blast
next
  case (Star r)
  then show ?case using reads_on_greedy [of "matches r"] by auto
next
  case (Lazy r)
  then show ?case using reads_on_reluctant [of "matches r"] by auto
qed (auto intro: reads_on_eat reads_on_capture split: if_splits)

text \<open>Every character of a replacement comes from the text or from what was put in.\<close>

lemma replace_from_chars:
  assumes "\<And>k. (\<And>i. set (k i) \<subseteq> S) \<Longrightarrow> set (f k) \<subseteq> S \<union> A"
  shows "set s \<subseteq> S \<Longrightarrow> set (replace_from r f n d s) \<subseteq> S \<union> A"
proof (induction n arbitrary: d s)
  case (Suc n)
  let ?copy = "case s of [] \<Rightarrow> [] | c # t \<Rightarrow> c # replace_from r f n (c # d) t"
  have copy: "set ?copy \<subseteq> S \<union> A"
  proof (cases s)
    case (Cons c t)
    with Suc.IH [of t "c # d"] Suc.prems show ?thesis by auto
  qed simp
  show ?case
  proof (cases "matches r (start_at d s)")
    case Nil
    with copy show ?thesis by simp
  next
    case (Cons m ms)
    then have on: "reads_on (start_at d s) m" by (intro matches_read_on [of m r]) simp
    then have caps: "set (m_caps m i) \<subseteq> S" for i
      using Suc.prems by (auto simp: reads_on_def start_at_def)
    have rest: "set (m_rest m) \<subseteq> S"
      using on Suc.prems set_mono_suffix by (fastforce simp: reads_on_def start_at_def)
    from Cons copy assms [OF caps] Suc.IH [OF rest] show ?thesis by (simp add: Let_def)
  qed
qed auto

lemma replace_all_chars:
  "(\<And>k. (\<And>i. set (k i) \<subseteq> S) \<Longrightarrow> set (f k) \<subseteq> S \<union> A) \<Longrightarrow> set s \<subseteq> S \<Longrightarrow> set (replace_all r f s) \<subseteq> S \<union> A"
  unfolding replace_all_def by (rule replace_from_chars) blast+

text \<open>A run of a character class is replaced whole: none of its characters is left.\<close>

lemma greedy_ne: "greedy step n m \<noteq> []"
  by (cases n) auto

lemma matches_Plus_Cls_Nil: "matches (Plus (Cls P)) (start_at d s) = [] \<longleftrightarrow> s = [] \<or> \<not> P (hd s)"
  by (cases s) (auto simp: Plus_def start_at_def greedy_ne)

lemma matches_Plus_Cls_longer: "m \<in> set (matches (Plus (Cls P)) (start_at d s)) \<Longrightarrow> length (m_rest m) < length s"
proof (cases s)
  case (Cons c t)
  assume "m \<in> set (matches (Plus (Cls P)) (start_at d s))"
  with Cons obtain m1 where "m \<in> set (matches (Star (Cls P)) m1)" "m_rest m1 = t"
    by (auto simp: Plus_def start_at_def split: if_splits)
  with matches_read_on [of m "Star (Cls P)" m1] Cons show ?thesis
    by (auto simp: reads_on_def dest!: suffix_length_le)
qed (simp add: Plus_def start_at_def)

lemma replace_from_class:
  assumes "\<And>k. set (f k) \<subseteq> A"
  shows "length s \<le> n \<Longrightarrow> set (replace_from (Plus (Cls P)) f n d s) \<subseteq> {c. \<not> P c} \<union> A"
proof (induction n arbitrary: d s)
  case (Suc n)
  show ?case
  proof (cases "matches (Plus (Cls P)) (start_at d s)")
    case Nil
    show ?thesis
    proof (cases s)
      case (Cons c t)
      with Suc.IH [of t "c # d"] Suc.prems Nil matches_Plus_Cls_Nil [of P d s] show ?thesis by simp
    qed (use Nil in simp)
  next
    case (Cons m ms)
    then have len: "length (m_rest m) < length s" by (intro matches_Plus_Cls_longer [of m P d]) simp
    with Suc have "set (replace_from (Plus (Cls P)) f n (m_done m) (m_rest m)) \<subseteq> {c. \<not> P c} \<union> A" by simp
    with Cons len assms [of "m_caps m"] show ?thesis by (auto simp: Let_def)
  qed
qed simp

text \<open>A literal, whatever the case of its letters.\<close>

definition advance :: "nat \<Rightarrow> mstate \<Rightarrow> mstate" where
  "advance n m = m\<lparr>m_done := rev (take n (m_rest m)) @ m_done m, m_rest := drop n (m_rest m)\<rparr>"

lemma advance_simps [simp]:
  "advance 0 m = m" "m_rest (advance n m) = drop n (m_rest m)" "m_caps (advance n m) = m_caps m"
  by (simp_all add: advance_def)

lemma matches_chr_i [simp]: "matches (chr_i c) m =
    (if m_rest m \<noteq> [] \<and> lower_char (hd (m_rest m)) = lower_char c then [advance 1 m] else [])"
  by (cases "m_rest m") (auto simp: chr_i_def advance_def)

lemma matches_chr [simp]: "matches (chr c) m = (if m_rest m \<noteq> [] \<and> hd (m_rest m) = c then [advance 1 m] else [])"
  by (cases "m_rest m") (auto simp: chr_def advance_def)

lemma advance_advance: "advance n (advance k m) = advance (k + n) m"
  by (simp add: advance_def take_add add.commute)

lemma matches_lit_i [simp]: "matches (lit_i p) m =
    (if lower (take (length p) (m_rest m)) = lower p then [advance (length p) m] else [])"
proof (induction p arbitrary: m)
  case (Cons c p)
  show ?case
    by (cases "m_rest m") (auto simp: Cons.IH lower_def advance_advance simp del: advance_simps(1))
qed (simp add: lower_def)

lemma matches_lit [simp]: "matches (lit p) m = (if take (length p) (m_rest m) = p then [advance (length p) m] else [])"
proof (induction p arbitrary: m)
  case (Cons c p)
  show ?case by (cases "m_rest m") (auto simp: Cons.IH advance_advance simp del: advance_simps(1))
qed simp

lemma matches_Plus_ne: "matches (Plus (Cls P)) m = [] \<longleftrightarrow> m_rest m = [] \<or> \<not> P (hd (m_rest m))"
  by (cases "m_rest m") (auto simp: Plus_def greedy_ne)

end
