(* ===== verification/Json.thy ===== *)
theory Json
  imports Text "HOL-Library.AList"
begin

text \<open>
  JSON values and \<open>JSON.parse\<close>, over the UTF-8 text of theory \<open>Text\<close>. A number whose value is an
  integer that a double holds exactly is a \<open>JNum\<close>; any other number keeps its token. Objects keep the
  order of their keys; a repeated key keeps its place and takes the last value.
\<close>

section \<open>Values\<close>

datatype json =
    JNull
  | JBool bool
  | JNum int
  | JFloat string
  | JStr string
  | JArr "json list"
  | JObj "(string \<times> json) list"

text \<open>\<open>o[key]\<close> of an object; \<open>None\<close> is \<open>undefined\<close>.\<close>

fun json_field :: "json \<Rightarrow> string \<Rightarrow> json option" where
  "json_field (JObj fs) k = map_of fs k"
| "json_field _ k = None"

section \<open>Escapes\<close>

definition hex_digit :: "char \<Rightarrow> nat option" where
  "hex_digit c =
     (if in_range 0x30 0x39 c then Some (byte c - 0x30)
      else if in_range 0x41 0x46 c then Some (byte c - 0x41 + 10)
      else if in_range 0x61 0x66 c then Some (byte c - 0x61 + 10) else None)"

definition hex4 :: "string \<Rightarrow> nat option" where
  "hex4 s =
     (case map hex_digit (take 4 s) of
        [Some a, Some b, Some c, Some d] \<Rightarrow> Some (((a * 16 + b) * 16 + c) * 16 + d)
      | _ \<Rightarrow> None)"

definition utf8_encode :: "nat \<Rightarrow> string" where
  "utf8_encode c =
     (if c < 0x80 then [char_of c]
      else if c < 0x800 then [char_of (0xC0 + c div 64), char_of (0x80 + c mod 64)]
      else if c < 0x10000
      then [char_of (0xE0 + c div 4096), char_of (0x80 + c div 64 mod 64), char_of (0x80 + c mod 64)]
      else [char_of (0xF0 + c div 262144), char_of (0x80 + c div 4096 mod 64),
            char_of (0x80 + c div 64 mod 64), char_of (0x80 + c mod 64)])"

definition simple_escape :: "char \<Rightarrow> char option" where
  "simple_escape c =
     (if c = CHR 0x22 \<or> c = backslash \<or> c = slash then Some c
      else if c = CHR ''b'' then Some (CHR 0x08) else if c = CHR ''f'' then Some (CHR 0x0C)
      else if c = CHR ''n'' then Some newline else if c = CHR ''r'' then Some (CHR 0x0D)
      else if c = CHR ''t'' then Some (CHR 0x09) else None)"

section \<open>Parsing\<close>

definition json_space :: "char \<Rightarrow> bool" where
  "json_space c \<longleftrightarrow> c = CHR 0x20 \<or> c = CHR 0x09 \<or> c = newline \<or> c = CHR 0x0D"

definition skip_space :: "string \<Rightarrow> string" where
  "skip_space s = dropWhile json_space s"

text \<open>The characters of a string up to its closing quote, and what follows it.\<close>

fun parse_chars :: "nat \<Rightarrow> string \<Rightarrow> (string \<times> string) option" where
  "parse_chars 0 s = None"
| "parse_chars (Suc n) s =
     (case s of
        [] \<Rightarrow> None
      | c # t \<Rightarrow>
          if c = CHR 0x22 then Some ([], t)
          else if byte c < 0x20 then None
          else if c \<noteq> backslash then map_option (apfst ((#) c)) (parse_chars n t)
          else (case t of
              [] \<Rightarrow> None
            | e # u \<Rightarrow>
                if e = CHR ''u''
                then (case hex4 u of
                    None \<Rightarrow> None
                  | Some h \<Rightarrow>
                      if 0xD800 \<le> h \<and> h < 0xDC00 \<and> take 2 (drop 4 u) = [backslash, CHR ''u'']
                      then (case hex4 (drop 6 u) of
                          None \<Rightarrow> None
                        | Some l \<Rightarrow>
                            if 0xDC00 \<le> l \<and> l < 0xE000
                            then map_option (apfst ((@) (utf8_encode (0x10000 + (h - 0xD800) * 1024 + (l - 0xDC00)))))
                                   (parse_chars n (drop 10 u))
                            else map_option (apfst ((@) (utf8_encode h))) (parse_chars n (drop 4 u)))
                      else map_option (apfst ((@) (utf8_encode h))) (parse_chars n (drop 4 u)))
                else (case simple_escape e of
                    None \<Rightarrow> None
                  | Some x \<Rightarrow> map_option (apfst ((#) x)) (parse_chars n u))))"

definition digit :: "char \<Rightarrow> bool" where
  "digit c = in_range 0x30 0x39 c"

definition digits_value :: "string \<Rightarrow> int" where
  "digits_value ds = foldl (\<lambda>v d. v * 10 + (int (byte d) - 0x30)) 0 ds"

text \<open>A number: sign, digits without a leading zero, fraction, exponent.\<close>

definition number_value :: "bool \<Rightarrow> string \<Rightarrow> string \<Rightarrow> int \<Rightarrow> string \<Rightarrow> json" where
  "number_value neg ds fs e token =
     (let m = digits_value (ds @ fs); x = e - int (length fs);
          v = (if 0 \<le> x then Some (m * 10 ^ nat x)
               else if m mod 10 ^ nat (- x) = 0 then Some (m div 10 ^ nat (- x)) else None) in
      case v of
        Some i \<Rightarrow> if i \<le> 2 ^ 53 then JNum (if neg then - i else i) else JFloat token
      | None \<Rightarrow> JFloat token)"

definition parse_fraction :: "string \<Rightarrow> (string \<times> string) option" where
  "parse_fraction s =
     (if starts_with ''.'' s
      then (let fs = takeWhile digit (tl s) in if fs = [] then None else Some (fs, drop (Suc (length fs)) s))
      else Some ([], s))"

definition parse_exponent :: "string \<Rightarrow> (int \<times> string) option" where
  "parse_exponent s =
     (if starts_with ''e'' s \<or> starts_with ''E'' s
      then (let t = tl s; neg = starts_with ''-'' t; u = (if neg \<or> starts_with ''+'' t then tl t else t);
                es = takeWhile digit u in
            if es = [] then None
            else Some (if neg then - digits_value es else digits_value es, drop (length es) u))
      else Some (0, s))"

definition parse_number :: "string \<Rightarrow> (json \<times> string) option" where
  "parse_number s =
     (let neg = starts_with ''-'' s; t = (if neg then tl s else s);
          ds = (if starts_with ''0'' t then ''0'' else takeWhile digit t) in
      if ds = [] then None
      else (case parse_fraction (drop (length ds) t) of
          None \<Rightarrow> None
        | Some (fs, u) \<Rightarrow>
            (case parse_exponent u of
               None \<Rightarrow> None
             | Some (e, v) \<Rightarrow> Some (number_value neg ds fs e (take (length s - length v) s), v))))"

text \<open>
  Values, the elements of an array and the members of an object. Every call consumes a character of
  the text, so its length is fuel enough.
\<close>

fun parse_value :: "nat \<Rightarrow> string \<Rightarrow> (json \<times> string) option"
  and parse_elements :: "nat \<Rightarrow> string \<Rightarrow> (json list \<times> string) option"
  and parse_members :: "nat \<Rightarrow> (string \<times> json) list \<Rightarrow> string \<Rightarrow> ((string \<times> json) list \<times> string) option"
where
  "parse_value 0 s = None"
| "parse_value (Suc n) s =
     (case s of
        [] \<Rightarrow> None
      | c # t \<Rightarrow>
          if c = CHR 0x22 then map_option (apfst JStr) (parse_chars (length s) t)
          else if c = CHR 0x7B
          then (let u = skip_space t in
                if starts_with [CHR 0x7D] u then Some (JObj [], tl u)
                else map_option (apfst JObj) (parse_members n [] u))
          else if c = CHR 0x5B
          then (let u = skip_space t in
                if starts_with [CHR 0x5D] u then Some (JArr [], tl u)
                else map_option (apfst JArr) (parse_elements n u))
          else if starts_with ''true'' s then Some (JBool True, drop 4 s)
          else if starts_with ''false'' s then Some (JBool False, drop 5 s)
          else if starts_with ''null'' s then Some (JNull, drop 4 s)
          else parse_number s)"
| "parse_elements 0 s = None"
| "parse_elements (Suc n) s =
     (case parse_value n s of
        None \<Rightarrow> None
      | Some (v, t) \<Rightarrow>
          (case skip_space t of
             [] \<Rightarrow> None
           | c # u \<Rightarrow>
               if c = CHR 0x5D then Some ([v], u)
               else if c = CHR 0x2C then map_option (apfst ((#) v)) (parse_elements n (skip_space u))
               else None))"
| "parse_members 0 fs s = None"
| "parse_members (Suc n) fs s =
     (if \<not> starts_with [CHR 0x22] s then None
      else (case parse_chars (length s) (tl s) of
          None \<Rightarrow> None
        | Some (k, t) \<Rightarrow>
            (let u = skip_space t in
             if \<not> starts_with '':'' u then None
             else (case parse_value n (skip_space (tl u)) of
                 None \<Rightarrow> None
               | Some (v, w) \<Rightarrow>
                   (case skip_space w of
                      [] \<Rightarrow> None
                    | c # x \<Rightarrow>
                        if c = CHR 0x7D then Some (AList.update k v fs, x)
                        else if c = CHR 0x2C then parse_members n (AList.update k v fs) (skip_space x)
                        else None)))))"

definition json_parse :: "string \<Rightarrow> json option" where
  "json_parse s =
     (case parse_value (Suc (length s)) (skip_space s) of
        Some (v, rest) \<Rightarrow> if skip_space rest = [] then Some v else None
      | None \<Rightarrow> None)"

end
