(* ===== verification/Restore_Error.thy ===== *)
theory Restore_Error
  imports Js_Regex Json
begin

text \<open>
  \<open>packages/session-persistence-postgres/src/restore-error.ts\<close>: the summary of a failure that is
  stored in \<open>workspaces.last_error\<close>. Text is ASCII; the ellipsis of the marker is its UTF-8 bytes.
\<close>

section \<open>The patterns\<close>

definition RESTORE_ERROR_MAX_LENGTH :: nat where
  "RESTORE_ERROR_MAX_LENGTH = 500"

definition RESTORE_ERROR_EMPTY_FALLBACK :: string where
  "RESTORE_ERROR_EMPTY_FALLBACK = ''restore failed (no details)''"

abbreviation double_quote :: char where "double_quote \<equiv> CHR 0x22"
abbreviation single_quote :: char where "single_quote \<equiv> CHR 0x27"
abbreviation backtick :: char where "backtick \<equiv> CHR 0x60"

definition letter :: "char \<Rightarrow> bool" where
  "letter c \<longleftrightarrow> in_range 0x41 0x5A c \<or> in_range 0x61 0x7A c"

definition alnum :: "char \<Rightarrow> bool" where
  "alnum c \<longleftrightarrow> letter c \<or> is_digit c"

text \<open>The class that ends a URL or a connection string: white space or a quote.\<close>

definition unquoted_char :: "char \<Rightarrow> bool" where
  "unquoted_char c \<longleftrightarrow> \<not> is_space c \<and> c \<notin> {double_quote, single_quote, backtick}"

definition pem_re :: rx where
  "pem_re = Cat (lit ''-----BEGIN '') (Cat (Star (Cls (\<lambda>c. in_range 0x41 0x5A c \<or> c = CHR '' '')))
     (Cat (lit ''PRIVATE KEY-----'') (Cat (Lazy (Cls (\<lambda>_. True)))
     (Cat (lit ''-----END '') (Cat (Star (Cls (\<lambda>c. in_range 0x41 0x5A c \<or> c = CHR '' '')))
     (lit ''PRIVATE KEY-----''))))))"

definition postgres_re :: rx where
  "postgres_re = Cat (lit_i ''postgres'') (Cat (Opt (lit_i ''ql'')) (Cat (lit ''://'') (Plus (Cls unquoted_char))))"

definition mysql_re :: rx where
  "mysql_re = Cat (lit_i ''mysql://'') (Plus (Cls unquoted_char))"

definition bearer_re :: rx where
  "bearer_re = Cat (lit_i ''Bearer'') (Cat (Plus (Cls is_space))
     (Cat (Plus (Cls (\<lambda>c. alnum c \<or> c \<in> set ''-._~+/''))) (Star (chr (CHR ''='')))))"

definition api_key_re :: rx where
  "api_key_re = Cat (lit ''sk-'') (Cat (Opt (lit ''or-v1-'')) (at_least 16 (Cls (\<lambda>c. alnum c \<or> c = CHR ''-''))))"

definition github_token_re :: rx where
  "github_token_re = Cat Bnd (Cat (one_of (map lit [''ghp_'', ''ghs_'', ''ghu_'', ''github_pat_'']))
     (at_least 20 (Cls (\<lambda>c. alnum c \<or> c = CHR ''_''))))"

definition SECRET_PATTERNS :: "(rx \<times> string) list" where
  "SECRET_PATTERNS =
     [(pem_re, ''[redacted-pem]''), (postgres_re, ''[redacted-connection-string]''),
      (mysql_re, ''[redacted-connection-string]''), (bearer_re, ''Bearer [redacted]''),
      (api_key_re, ''[redacted-api-key]''), (github_token_re, ''[redacted-github-token]'')]"

definition quote_re :: rx where
  "quote_re = Opt (Cls (\<lambda>c. c = double_quote \<or> c = single_quote))"

definition dash_or_underscore :: rx where
  "dash_or_underscore = Opt (Cls (\<lambda>c. c = CHR ''_'' \<or> c = CHR ''-''))"

definition secret_name_re :: rx where
  "secret_name_re = one_of
     [Cat (lit_i ''api'') (Cat dash_or_underscore (lit_i ''key'')), lit_i ''secret'', lit_i ''token'',
      Cat (lit_i ''private'') (Cat dash_or_underscore (lit_i ''key'')), lit_i ''password'', lit_i ''passwd'',
      lit_i ''pwd'', lit_i ''database_url'', lit_i ''connection_string'']"

definition SECRET_ASSIGNMENT_RE :: rx where
  "SECRET_ASSIGNMENT_RE = Cat (Grp 1 quote_re) (Cat (Grp 2 secret_name_re) (Cat (Grp 3 quote_re)
     (Cat (Grp 4 (Cat (Star (Cls is_space)) (Cat (Cls (\<lambda>c. c = CHR '':'' \<or> c = CHR ''='')) (Star (Cls is_space)))))
     (Cat (Grp 5 quote_re) (Plus (Cls (\<lambda>c. unquoted_char c \<and> c \<notin> set ''{},;]'')))))))"

definition URL_RE :: rx where
  "URL_RE = Cat (lit_i ''http'') (Cat (Opt (lit_i ''s'')) (Cat (lit ''://'') (Plus (Cls unquoted_char))))"

section \<open>The summary\<close>

text \<open>A thrown value: \<open>null\<close> or \<open>undefined\<close>, an \<open>Error\<close>, a string, or a value with its JSON text, if any.\<close>

datatype failure_value = Nullish | ErrorValue string string | StringValue string | OtherValue "string option"

fun extractMessage :: "failure_value \<Rightarrow> string" where
  "extractMessage Nullish = []"
| "extractMessage (ErrorValue name message) =
     (if name \<noteq> [] \<and> name \<noteq> ''Error'' then name @ '': '' else []) @ message"
| "extractMessage (StringValue s) = s"
| "extractMessage (OtherValue j) = (case j of None \<Rightarrow> [] | Some t \<Rightarrow> t)"

definition redact_patterns :: "string \<Rightarrow> string" where
  "redact_patterns text = fold (\<lambda>(re, repl) t. replace_all re (\<lambda>_. repl) t) SECRET_PATTERNS text"

definition collapse :: "string \<Rightarrow> string" where
  "collapse text = trim (replace_all (Plus (Cls is_space)) (\<lambda>_. '' '') text)"

definition redact_assignments :: "string \<Rightarrow> string" where
  "redact_assignments text =
     replace_all SECRET_ASSIGNMENT_RE (\<lambda>k. k 1 @ k 2 @ k 3 @ k 4 @ k 5 @ ''[redacted]'') text"

definition strip_urls :: "string \<Rightarrow> string" where
  "strip_urls text = replace_all URL_RE (\<lambda>_. ''[url]'') text"

definition truncated_marker :: string where
  "truncated_marker = [CHR 0xE2, CHR 0x80, CHR 0xA6] @ ''(truncated)''"

definition summarizeRestoreError :: "failure_value \<Rightarrow> string" where
  "summarizeRestoreError e =
     (let text = strip_urls (redact_assignments (collapse (redact_patterns (extractMessage e)))) in
      if text = [] then RESTORE_ERROR_EMPTY_FALLBACK
      else if RESTORE_ERROR_MAX_LENGTH < length text
      then take RESTORE_ERROR_MAX_LENGTH text @ truncated_marker
      else text)"

section \<open>One bounded line without addresses\<close>

definition line_chars :: "char set" where
  "line_chars = {c. \<not> is_space c \<or> c = CHR '' ''}"

lemma trim_subset: "set (trim s) \<subseteq> set s"
  by (auto simp: trim_def trim_start_def dest!: set_dropWhileD)

lemma collapse_line: "set (collapse t) \<subseteq> line_chars"
proof -
  have "set (replace_all (Plus (Cls is_space)) (\<lambda>_. '' '') t) \<subseteq> {c. \<not> is_space c} \<union> {CHR '' ''}"
    unfolding replace_all_def by (rule replace_from_class) simp_all
  with trim_subset show ?thesis unfolding collapse_def line_chars_def by fastforce
qed

lemma redact_assignments_line: "set t \<subseteq> line_chars \<Longrightarrow> set (redact_assignments t) \<subseteq> line_chars"
proof -
  assume t: "set t \<subseteq> line_chars"
  have "set (redact_assignments t) \<subseteq> line_chars \<union> set ''[redacted]''"
    unfolding redact_assignments_def by (rule replace_all_chars) (use t in auto)
  then show ?thesis by (auto simp: line_chars_def is_space_def in_range_def byte_def)
qed

lemma strip_urls_line: "set t \<subseteq> line_chars \<Longrightarrow> set (strip_urls t) \<subseteq> line_chars"
proof -
  assume t: "set t \<subseteq> line_chars"
  have "set (strip_urls t) \<subseteq> line_chars \<union> set ''[url]''"
    unfolding strip_urls_def by (rule replace_all_chars) (use t in auto)
  then show ?thesis by (auto simp: line_chars_def is_space_def in_range_def byte_def)
qed

text \<open>A URL at the start of a text: a scheme in any case, then a character that is no space and no quote.\<close>

definition url_at :: "string \<Rightarrow> bool" where
  "url_at u \<longleftrightarrow> (\<exists>p \<in> {''http://'', ''https://''}. lower (take (length p) u) = p
     \<and> drop (length p) u \<noteq> [] \<and> unquoted_char (hd (drop (length p) u)))"

lemma take_append_iff: "take (length p + length q) s = p @ q \<longleftrightarrow> take (length p) s = p \<and> take (length q) (drop (length p) s) = q"
  by (auto simp: take_add) (metis append_eq_append_conv append_take_drop_id length_append length_take min.absorb2 nat_le_linear take_all_iff add_leD1)+

lemma lower_take_append: "lower (take (length p + length q) s) = p @ q \<longleftrightarrow>
    lower (take (length p) s) = p \<and> lower (take (length q) (drop (length p) s)) = q"
  using take_append_iff [of p q "lower s"] by (simp add: lower_def take_map drop_map)

lemma lower_symbol: "lower_char d = CHR '':'' \<longleftrightarrow> d = CHR '':''" "lower_char d = CHR ''/'' \<longleftrightarrow> d = CHR ''/''"
proof -
  have "lower_char d = d \<or> 97 \<le> byte (lower_char d)"
    by (simp add: lower_char_def in_range_def byte_def)
  moreover have "lower_char (CHR '':'') = CHR '':''" "lower_char (CHR ''/'') = CHR ''/''"
    by (simp_all add: lower_char_def in_range_def byte_def)
  ultimately show "lower_char d = CHR '':'' \<longleftrightarrow> d = CHR '':''" "lower_char d = CHR ''/'' \<longleftrightarrow> d = CHR ''/''"
    by (auto simp: byte_def)
qed

lemma lower_slashes: "lower w = ''://'' \<longleftrightarrow> w = ''://''"
  by (auto simp: lower_def map_eq_Cons_conv lower_symbol)

lemma scheme_matches:
  "matches (Cat (lit_i p) (Cat (Alt (lit_i q) Eps) r)) m \<noteq> [] \<longleftrightarrow>
     lower (take (length p) (m_rest m)) = lower p \<and>
     (lower (take (length q) (drop (length p) (m_rest m))) = lower q \<and> matches r (advance (length p + length q) m) \<noteq> []
      \<or> matches r (advance (length p) m) \<noteq> [])"
  by (auto simp: advance_advance split: if_splits)

lemma URL_RE_matches: "matches URL_RE (start_at d u) \<noteq> [] \<longleftrightarrow> url_at u"
proof -
  let ?tail = "\<lambda>m. take 3 (m_rest m) = ''://'' \<and> drop 3 (m_rest m) \<noteq> [] \<and> unquoted_char (hd (drop 3 (m_rest m)))"
  have tail: "matches (Cat (lit ''://'') (Plus (Cls unquoted_char))) m \<noteq> [] \<longleftrightarrow> ?tail m" for m
    by (simp add: matches_Plus_ne numeral_3_eq_3 del: lit.simps)
  have "matches URL_RE (start_at d u) \<noteq> [] \<longleftrightarrow> lower (take 4 u) = ''http'' \<and>
      (lower (take 1 (drop 4 u)) = ''s'' \<and> ?tail (advance 5 (start_at d u)) \<or> ?tail (advance 4 (start_at d u)))"
    unfolding tail [symmetric] URL_RE_def Opt_def scheme_matches
    by (simp add: start_at_def lower_def lower_char_def in_range_def byte_def numeral_eq_Suc del: matches.simps)
  also have "\<dots> \<longleftrightarrow> url_at u"
  proof -
    have "lower (take 7 u) = ''http://'' \<longleftrightarrow> lower (take 4 u) = ''http'' \<and> take 3 (drop 4 u) = ''://''"
      using lower_take_append [of "''http''" "''://''" u] by (simp add: lower_slashes numeral_eq_Suc)
    moreover have "lower (take 8 u) = ''https://'' \<longleftrightarrow> lower (take 5 u) = ''https'' \<and> take 3 (drop 5 u) = ''://''"
      using lower_take_append [of "''https''" "''://''" u] by (simp add: lower_slashes numeral_eq_Suc)
    moreover have "lower (take 5 u) = ''https'' \<longleftrightarrow> lower (take 4 u) = ''http'' \<and> lower (take 1 (drop 4 u)) = ''s''"
      using lower_take_append [of "''http''" "''s''" u] by (simp add: numeral_eq_Suc)
    moreover have "url_at u \<longleftrightarrow> lower (take 7 u) = ''http://'' \<and> drop 7 u \<noteq> [] \<and> unquoted_char (hd (drop 7 u))
        \<or> lower (take 8 u) = ''https://'' \<and> drop 8 u \<noteq> [] \<and> unquoted_char (hd (drop 8 u))"
      by (simp add: url_at_def numeral_eq_Suc)
    ultimately show ?thesis by (simp add: start_at_def) blast
  qed
  finally show ?thesis .
qed

lemma url_at_split: "url_at u \<longleftrightarrow> (\<exists>w c v. u = w @ c # v \<and> lower w \<in> {''http://'', ''https://''} \<and> unquoted_char c)"
proof
  assume "url_at u"
  then obtain p where p: "p \<in> {''http://'', ''https://''}" "lower (take (length p) u) = p"
    "drop (length p) u \<noteq> []" "unquoted_char (hd (drop (length p) u))" unfolding url_at_def by blast
  from p(3) have "u = take (length p) u @ hd (drop (length p) u) # tl (drop (length p) u)" by simp
  with p show "\<exists>w c v. u = w @ c # v \<and> lower w \<in> {''http://'', ''https://''} \<and> unquoted_char c" by metis
next
  assume "\<exists>w c v. u = w @ c # v \<and> lower w \<in> {''http://'', ''https://''} \<and> unquoted_char c"
  then obtain w c v where w: "u = w @ c # v" "lower w \<in> {''http://'', ''https://''}" "unquoted_char c" by blast
  then have "length (lower w) = length w" by (simp add: lower_def)
  with w show "url_at u" unfolding url_at_def by (intro bexI [of _ "lower w"]) simp_all
qed

lemma byte_lower: "byte (lower_char c) = (if in_range 0x41 0x5A c then byte c + 32 else byte c)"
  by (simp add: lower_char_def byte_def in_range_def)

lemma lower_h: "lower_char c = CHR ''h'' \<Longrightarrow> c \<in> {CHR ''h'', CHR ''H''}"
proof -
  assume "lower_char c = CHR ''h''"
  then have "byte c = byte (CHR ''h'') \<or> byte c = byte (CHR ''H'')"
    using byte_lower [of c] by (auto simp: byte_def split: if_splits)
  then show ?thesis by (simp only: byte_inject) blast
qed

lemma url_at_hd: "url_at (c # u) \<Longrightarrow> c \<in> {CHR ''h'', CHR ''H''}"
  by (rule lower_h) (auto simp: url_at_def lower_def)

lemma h_unquoted: "c \<in> {CHR ''h'', CHR ''H''} \<Longrightarrow> unquoted_char c"
  by (auto simp: unquoted_char_def is_space_def in_range_def byte_def)

abbreviation strip :: "nat \<Rightarrow> string \<Rightarrow> string \<Rightarrow> string" where
  "strip \<equiv> replace_from URL_RE (\<lambda>_. ''[url]'')"

lemma matches_lit_i_then:
  "m \<in> set (matches (Cat (lit_i p) r) m0) \<Longrightarrow>
     lower (take (length p) (m_rest m0)) = lower p \<and> m \<in> set (matches r (advance (length p) m0))"
  by (auto split: if_splits)

lemma strip_cases:
  assumes "s \<noteq> []"
  obtains (url) d' t where "url_at s" "length t < length s" "strip (Suc n) d s = ''[url]'' @ strip n d' t"
  | (copy) c t where "\<not> url_at s" "s = c # t" "strip (Suc n) d s = c # strip n (c # d) t"
proof (cases "matches URL_RE (start_at d s)")
  case Nil
  with assms copy URL_RE_matches [of d s] show ?thesis by (cases s) auto
next
  case (Cons m ms)
  have "m \<in> set (matches URL_RE (start_at d s))" by (simp add: Cons)
  from matches_lit_i_then [OF this [unfolded URL_RE_def]] have
    "m \<in> set (matches (Cat (Opt (lit_i ''s'')) (Cat (lit ''://'') (Plus (Cls unquoted_char)))) (advance 4 (start_at d s)))"
    by (simp add: numeral_eq_Suc)
  from matches_read_on [OF this] have "length (m_rest m) \<le> length (drop 4 s)"
    by (simp add: reads_on_def start_at_def) (metis length_drop suffix_length_le)
  then have "length (m_rest m) < length s" using assms by (cases s) auto
  with Cons url URL_RE_matches [of d s] show ?thesis by (auto simp: Let_def)
qed

lemma strip_prefix:
  "length s \<le> n \<Longrightarrow> CHR ''['' \<notin> set w \<Longrightarrow> strip n d s = w @ x # v \<Longrightarrow>
     \<exists>y t. s = w @ y # t \<and> (x = y \<or> url_at (y # t))"
proof (induction n arbitrary: d s w)
  case (Suc n)
  have "s \<noteq> []" using Suc.prems(3) URL_RE_matches [of d "[]"] by (auto simp: url_at_def split: list.splits)
  then show ?case
  proof (cases rule: strip_cases [of s n d])
    case (url d' t)
    with Suc.prems have "w = []" by (cases w) auto
    with url(1) \<open>s \<noteq> []\<close> show ?thesis by (cases s) auto
  next
    case (copy c t)
    show ?thesis
    proof (cases w)
      case Nil
      with copy Suc.prems(3) show ?thesis by auto
    next
      case (Cons c' w')
      with copy Suc.prems(3) have "c' = c" "strip n (c # d) t = w' @ x # v" by auto
      with Suc.IH [of t w' "c # d"] Suc.prems Cons copy(2) show ?thesis by auto
    qed
  qed
qed (auto simp: Cons_eq_append_conv)

lemma strip_no_url: "length s \<le> n \<Longrightarrow> strip n d s = a @ u \<Longrightarrow> \<not> url_at u"
proof (induction n arbitrary: d s a)
  case 0
  then show ?case by (auto simp: url_at_def)
next
  case (Suc n)
  show ?case
  proof (cases "s = []")
    case True
    with Suc.prems(2) URL_RE_matches [of d "[]"] show ?thesis by (auto simp: url_at_def)
  next
    case False
    then show ?thesis
    proof (cases rule: strip_cases [of s n d])
      case (url d' t)
      with Suc.prems have eq: "''[url]'' @ strip n d' t = a @ u" by simp
      show ?thesis
      proof (cases "length a < 5")
        case True
        have "u = drop (length a) (''[url]'' @ strip n d' t)" by (subst eq) simp
        moreover have "length a = 0 \<or> length a = 1 \<or> length a = 2 \<or> length a = 3 \<or> length a = 4"
          using True by linarith
        ultimately show ?thesis by (auto simp: numeral_eq_Suc dest: url_at_hd)
      next
        case False
        then have "strip n d' t = drop 5 a @ u" using arg_cong [OF eq, of "drop 5"] by simp
        moreover have "length t \<le> n" using url(2) Suc.prems(1) by simp
        ultimately show ?thesis by (intro Suc.IH)
      qed
    next
      case (copy c t)
      show ?thesis
      proof (cases a)
        case (Cons c' a')
        with copy Suc show ?thesis by auto
      next
        case Nil
        show ?thesis
        proof
          assume "url_at u"
          then obtain w x v where w: "c # strip n (c # d) t = w @ x # v" "lower w \<in> {''http://'', ''https://''}" "unquoted_char x"
            using Nil copy Suc.prems(2) by (auto simp: url_at_split)
          from w(2) have "w \<noteq> []" "CHR ''['' \<notin> set w"
            by (auto simp: lower_def lower_char_def in_range_def byte_def)
          then obtain w' where w': "w = c # w'" "strip n (c # d) t = w' @ x # v" "CHR ''['' \<notin> set w'"
            using w(1) by (cases w) auto
          from strip_prefix [OF _ w'(3,2)] Suc.prems(1) copy(2) obtain y r where
            y: "t = w' @ y # r" "x = y \<or> url_at (y # r)" by auto
          then have "unquoted_char y" using w(3) url_at_hd h_unquoted by blast
          moreover have "s = w @ y # r" using y(1) w'(1) copy(2) by simp
          ultimately have "url_at s" unfolding url_at_split using w(2) by blast
          with copy(1) show False by contradiction
        qed
      qed
    qed
  qed
qed

text \<open>C23: whatever was thrown, the stored reason is not empty, holds at most 500 characters and the marker,
  and is one line (no white space but spaces); and before it is cut its text has no URL: at no place of it does an
  http or https scheme, in any case, stand before a character other than a space or a quote.\<close>

theorem summary_bounded:
  "summarizeRestoreError e \<noteq> [] \<and> length (summarizeRestoreError e) \<le> 500 + length truncated_marker
   \<and> set (summarizeRestoreError e) \<subseteq> line_chars
   \<and> (\<exists>line. (\<nexists>a u. line = a @ u \<and> url_at u) \<and> (summarizeRestoreError e = line
       \<or> line = [] \<and> summarizeRestoreError e = RESTORE_ERROR_EMPTY_FALLBACK
       \<or> 500 < length line \<and> summarizeRestoreError e = take 500 line @ truncated_marker))"
proof -
  define line where "line = strip_urls (redact_assignments (collapse (redact_patterns (extractMessage e))))"
  have s: "summarizeRestoreError e = (if line = [] then RESTORE_ERROR_EMPTY_FALLBACK
      else if 500 < length line then take 500 line @ truncated_marker else line)"
    by (simp add: summarizeRestoreError_def line_def Let_def RESTORE_ERROR_MAX_LENGTH_def)
  have chars: "set line \<subseteq> line_chars"
    unfolding line_def by (intro strip_urls_line redact_assignments_line collapse_line)
  have fixed: "set RESTORE_ERROR_EMPTY_FALLBACK \<subseteq> line_chars" "set truncated_marker \<subseteq> line_chars"
    by (auto simp: RESTORE_ERROR_EMPTY_FALLBACK_def truncated_marker_def line_chars_def is_space_def in_range_def byte_def)
  have "\<forall>a u. line = a @ u \<longrightarrow> \<not> url_at u"
    unfolding line_def strip_urls_def replace_all_def using strip_no_url le_SucI by blast
  moreover have "set (summarizeRestoreError e) \<subseteq> line_chars"
    using chars fixed by (auto simp: s dest: in_set_takeD)
  ultimately show ?thesis
    by (auto simp: s RESTORE_ERROR_EMPTY_FALLBACK_def intro!: exI [of _ line])
qed

end
