(* ===== verification/Encoding.thy ===== *)
theory Encoding
  imports Restore_Error
begin

text \<open>
  The encodings of the standard library that the program writes: base64 and hexadecimal of bytes, the
  percent encodings of URLs, and \<open>JSON.stringify\<close>.
\<close>

section \<open>Base64 and hexadecimal\<close>

text \<open>\<open>toString("base64")\<close>, and its URL variant without padding.\<close>

definition base64_alphabet :: string where
  "base64_alphabet = ''ABCDEFGHIJKLMNOPQRSTUVWXYZabcdefghijklmnopqrstuvwxyz0123456789+/''"

definition base64_char :: "nat \<Rightarrow> char" where
  "base64_char n = base64_alphabet ! (n mod 64)"

fun base64 :: "string \<Rightarrow> string" where
  "base64 [] = []"
| "base64 [a] = [base64_char (byte a div 4), base64_char (byte a * 16), CHR ''='', CHR ''='']"
| "base64 [a, b] = [base64_char (byte a div 4), base64_char (byte a * 16 + byte b div 16),
     base64_char (byte b * 4), CHR ''='']"
| "base64 (a # b # c # s) = base64_char (byte a div 4) # base64_char (byte a * 16 + byte b div 16)
     # base64_char (byte b * 4 + byte c div 64) # base64_char (byte c) # base64 s"

definition base64Url :: "string \<Rightarrow> string" where
  "base64Url bytes = rev (dropWhile (\<lambda>c. c = CHR ''='') (rev
     (map (\<lambda>c. if c = CHR ''/'' then CHR ''_'' else c) (map (\<lambda>c. if c = CHR ''+'' then CHR ''-'' else c) (base64 bytes)))))"

text \<open>
  \<open>Buffer.from(s, "base64")\<close>: what is no digit is skipped, and four digits are three bytes; an incomplete
  group gives the bytes it has.
\<close>

definition base64_digit :: "char \<Rightarrow> nat option" where
  "base64_digit c =
     (if in_range 0x41 0x5A c then Some (byte c - 0x41) else if in_range 0x61 0x7A c then Some (byte c - 0x61 + 26)
      else if in_range 0x30 0x39 c then Some (byte c - 0x30 + 52)
      else if c = CHR ''+'' \<or> c = CHR ''-'' then Some 62 else if c = CHR ''/'' \<or> c = CHR ''_'' then Some 63 else None)"

fun base64_bytes :: "nat list \<Rightarrow> string" where
  "base64_bytes (a # b # c # d # ns) = char_of (a * 4 + b div 16) # char_of (b mod 16 * 16 + c div 4)
     # char_of (c mod 4 * 64 + d) # base64_bytes ns"
| "base64_bytes [a, b, c] = [char_of (a * 4 + b div 16), char_of (b mod 16 * 16 + c div 4)]"
| "base64_bytes [a, b] = [char_of (a * 4 + b div 16)]"
| "base64_bytes _ = []"

definition from_base64 :: "string \<Rightarrow> string" where
  "from_base64 s = base64_bytes (List.map_filter base64_digit (takeWhile (\<lambda>c. c \<noteq> CHR ''='') s))"

text \<open>\<open>toString("hex")\<close>, and \<open>Buffer.from(s, "hex")\<close>, which stops at the first bad pair.\<close>

definition hex_char :: "nat \<Rightarrow> char" where
  "hex_char n = ''0123456789abcdef'' ! (n mod 16)"

fun hex :: "string \<Rightarrow> string" where
  "hex [] = []"
| "hex (c # s) = hex_char (byte c div 16) # hex_char (byte c) # hex s"

fun from_hex :: "string \<Rightarrow> string" where
  "from_hex (a # b # s) = (case (hex_digit a, hex_digit b) of
       (Some x, Some y) \<Rightarrow> char_of (x * 16 + y) # from_hex s
     | _ \<Rightarrow> [])"
| "from_hex s = []"

section \<open>Percent encodings\<close>

text \<open>\<open>URLSearchParams.toString\<close>: the form encoding of UTF-8 bytes.\<close>

definition upper_hex :: "nat \<Rightarrow> char" where
  "upper_hex n = ''0123456789ABCDEF'' ! n"

definition form_char :: "char \<Rightarrow> string" where
  "form_char c =
     (if alnum c \<or> c \<in> set ''*-._'' then [c]
      else if c = CHR '' '' then ''+''
      else [CHR ''%'', upper_hex (byte c div 16), upper_hex (byte c mod 16)])"

definition form_encode :: "string \<Rightarrow> string" where
  "form_encode s = concat (map form_char s)"

definition search_params :: "(string \<times> string) list \<Rightarrow> string" where
  "search_params ps = join_with ''&'' (map (\<lambda>(k, v). form_encode k @ ''='' @ form_encode v) ps)"

text \<open>\<open>encodeURIComponent\<close>.\<close>

definition uri_char :: "char \<Rightarrow> string" where
  "uri_char c =
     (if alnum c \<or> c \<in> set ''-_.!~*()'' \<or> c = single_quote then [c]
      else [CHR ''%'', upper_hex (byte c div 16), upper_hex (byte c mod 16)])"

definition encodeURIComponent :: "string \<Rightarrow> string" where
  "encodeURIComponent s = concat (map uri_char s)"

text \<open>\<open>decodeURIComponent\<close>: percent escapes to bytes, which must be UTF-8.\<close>

fun percent_decode :: "string \<Rightarrow> string option" where
  "percent_decode [] = Some []"
| "percent_decode (c # s) =
     (if c \<noteq> CHR ''%'' then map_option ((#) c) (percent_decode s)
      else (case s of
          a # b # t \<Rightarrow> (case (hex_digit a, hex_digit b) of
              (Some x, Some y) \<Rightarrow> map_option ((#) (char_of (x * 16 + y))) (percent_decode t)
            | _ \<Rightarrow> None)
        | _ \<Rightarrow> None))"

definition decodeURIComponent :: "string \<Rightarrow> string option" where
  "decodeURIComponent s = (case percent_decode s of
       None \<Rightarrow> None
     | Some b \<Rightarrow> if utf8 b then Some b else None)"

section \<open>\<open>JSON.stringify\<close>\<close>

definition show_int :: "int \<Rightarrow> string" where
  "show_int i = (if i < 0 then ''-'' @ show_nat (nat (- i)) else show_nat (nat i))"

definition show_char :: "char \<Rightarrow> string" where
  "show_char c =
     (if c = CHR 0x22 then [backslash, c] else if c = backslash then [backslash, c]
      else if c = CHR 0x08 then [backslash, CHR ''b''] else if c = CHR 0x0C then [backslash, CHR ''f'']
      else if c = newline then [backslash, CHR ''n''] else if c = CHR 0x0D then [backslash, CHR ''r'']
      else if c = CHR 0x09 then [backslash, CHR ''t'']
      else if byte c < 0x20 then [backslash] @ ''u00'' @ [hex_char (byte c div 16), hex_char (byte c mod 16)]
      else [c])"

definition show_string :: "string \<Rightarrow> string" where
  "show_string s = [CHR 0x22] @ concat (map show_char s) @ [CHR 0x22]"

fun json_show :: "json \<Rightarrow> string" where
  "json_show JNull = ''null''"
| "json_show (JBool b) = (if b then ''true'' else ''false'')"
| "json_show (JNum i) = show_int i"
| "json_show (JFloat s) = s"
| "json_show (JStr s) = show_string s"
| "json_show (JArr vs) = ''['' @ join_with '','' (map json_show vs) @ '']''"
| "json_show (JObj fs) = ''{'' @ join_with '','' (map (\<lambda>(k, v). show_string k @ '':'' @ json_show v) fs) @ ''}''"

section \<open>Other readings of a JSON value\<close>

text \<open>\<open>String(v)\<close> of a JSON value and \<open>typeof v === "number"\<close>.\<close>

fun js_string :: "json \<Rightarrow> string" where
  "js_string JNull = ''null''"
| "js_string (JBool b) = (if b then ''true'' else ''false'')"
| "js_string (JNum i) = show_int i"
| "js_string (JFloat s) = s"
| "js_string (JStr s) = s"
| "js_string (JArr vs) = join_with '','' (map (\<lambda>v. if v = JNull then [] else js_string v) vs)"
| "js_string (JObj _) = ''[object Object]''"

fun js_number :: "json \<Rightarrow> bool" where
  "js_number (JNum _) = True" | "js_number (JFloat _) = True" | "js_number _ = False"

end
