(* ===== verification/Checkpoint_Bundle.thy ===== *)
theory Checkpoint_Bundle
  imports Tar Posix_Path Encoding
begin

text \<open>
  Creating a checkpoint (\<open>bundle.ts\<close>, \<open>exclusions.ts\<close>), parsing git's output and restoring a
  checkpoint with its validation (\<open>restore.ts\<close>), all of \<open>packages/workspace-checkpoint/src\<close>. Git, the
  file system and the storage are parameters; the offsets in the messages of the status parser are left out.
\<close>

section \<open>Exclusions\<close>

definition EXCLUDED_PREFIXES :: "string list" where
  "EXCLUDED_PREFIXES = [''node_modules/'', ''.next/'', ''dist/'', ''build/'', ''coverage/'', ''.cache/'', ''.git/'']"

definition strip_last_slash :: "string \<Rightarrow> string" where
  "strip_last_slash s = (if ends_with [slash] s then butlast s else s)"

definition isExcluded :: "string \<Rightarrow> bool" where
  "isExcluded filePath =
     (let normalized = to_slashes filePath in
      if normalized = ''.git'' \<or> starts_with ''.git/'' normalized then True
      else list_ex (\<lambda>p. normalized = strip_last_slash p \<or> starts_with p normalized) EXCLUDED_PREFIXES)"

definition filterExcluded :: "string list \<Rightarrow> string list" where
  "filterExcluded fs = filter (\<lambda>f. \<not> isExcluded f) fs"

section \<open>Data and collaborators\<close>

record CheckpointManifest =
  version :: int
  baseCommit :: string
  createdAt :: string
  patch :: string
  untracked :: string

record CheckpointBundle =
  manifest :: CheckpointManifest
  patchDiff :: string
  untrackedFiles :: "string list"
  untrackedTar :: string

record GitResult =
  stdout :: string
  stderr :: string
  exitCode :: int

record 'w CheckpointDeps =
  git_run :: "string list \<Rightarrow> string option \<Rightarrow> ('w, restore_error, GitResult) comp"
  fs_readFile :: "string \<Rightarrow> ('w, restore_error, string) comp"
  fs_writeFile :: "string \<Rightarrow> string \<Rightarrow> ('w, restore_error, unit) comp"
  fs_exists :: "string \<Rightarrow> ('w, restore_error, bool) comp"
  fs_unlink :: "string \<Rightarrow> ('w, restore_error, unit) comp"
  fs_mkdir :: "string \<Rightarrow> ('w, restore_error, unit) comp"
  storage_put :: "string \<Rightarrow> string \<Rightarrow> ('w, restore_error, unit) comp"
  storage_get :: "string \<Rightarrow> ('w, restore_error, string option) comp"
  storage_head :: "string \<Rightarrow> ('w, restore_error, bool) comp"
  nowIso :: "'w \<Rightarrow> string"
  randomUUID :: "'w \<Rightarrow> string"
  processCwd :: string

definition gitOk ::
  "'w CheckpointDeps \<Rightarrow> string list \<Rightarrow> string option \<Rightarrow> (string \<Rightarrow> restore_error) \<Rightarrow> ('w, restore_error, string) comp" where
  "gitOk d args cwd err =
     bindC (git_run d args cwd) (\<lambda>r. if exitCode r \<noteq> 0 then throwC (err (stderr r)) else ret (stdout r))"

section \<open>Creating a bundle\<close>

definition listedFiles :: "string \<Rightarrow> string list" where
  "listedFiles out = filter (\<lambda>s. s \<noteq> []) (map trim (split_at newline out))"

text \<open>Each file is read; one that cannot be read is skipped.\<close>

fun readEntries :: "'w CheckpointDeps \<Rightarrow> string \<Rightarrow> string list \<Rightarrow> ('w, restore_error, TarEntry list) comp" where
  "readEntries d root [] = ret []"
| "readEntries d root (f # fs) =
     bindC (catchC (bindC (fs_readFile d (root @ [slash] @ f)) (\<lambda>c. ret [\<lparr>path = f, content = c\<rparr>]))
              (\<lambda>_. ret []))
       (\<lambda>e. bindC (readEntries d root fs) (\<lambda>es. ret (e @ es)))"

definition createCheckpointBundle ::
  "'w CheckpointDeps \<Rightarrow> string \<Rightarrow> string \<Rightarrow> ('w, restore_error, CheckpointBundle) comp" where
  "createCheckpointBundle d workspaceDir base =
     bindC (gitOk d [''diff'', ''--binary'', ''HEAD''] (Some workspaceDir) (\<lambda>m. PlainError (''git diff failed: '' @ m))) (\<lambda>diff.
     bindC (gitOk d [''ls-files'', ''--others'', ''--exclude-standard''] (Some workspaceDir)
              (\<lambda>m. PlainError (''git ls-files failed: '' @ m))) (\<lambda>ls.
     (let filtered = filterExcluded (listedFiles ls) in
      bindC (readEntries d (strip_last_slash workspaceDir) filtered) (\<lambda>entries.
      bindC (liftE (case createUntrackedTar entries of Inl m \<Rightarrow> Inl (PlainError m) | Inr t \<Rightarrow> Inr t)) (\<lambda>tar.
      bindC (getC (nowIso d)) (\<lambda>now.
      ret \<lparr>manifest = \<lparr>version = 1, baseCommit = base, createdAt = now, patch = ''patch.diff'', untracked = ''untracked.tar''\<rparr>,
           patchDiff = diff, untrackedFiles = filtered, untrackedTar = tar\<rparr>))))))"

section \<open>Storing a bundle\<close>

text \<open>
  JSON with the archive in base64. The code trusts the fields of what it reads back: a payload of another shape, on
  which it fails later or not at all, is an error here at once.
\<close>

definition bundle_json :: "CheckpointBundle \<Rightarrow> json" where
  "bundle_json b = (let m = manifest b in JObj
     [(''manifest'', JObj [(''version'', JNum (version m)), (''baseCommit'', JStr (baseCommit m)), (''createdAt'', JStr (createdAt m)),
        (''patch'', JStr (patch m)), (''untracked'', JStr (untracked m))]),
      (''patchDiff'', JStr (patchDiff b)), (''untrackedFiles'', JArr (map JStr (untrackedFiles b))),
      (''untrackedTar'', JStr (base64 (untrackedTar b)))])"

definition serializeBundle :: "CheckpointBundle \<Rightarrow> string" where
  "serializeBundle b = json_show (bundle_json b)"

fun manifest_of :: "json \<Rightarrow> CheckpointManifest option" where
  "manifest_of v = (case map (json_field v) [''version'', ''baseCommit'', ''createdAt'', ''patch'', ''untracked''] of
       [Some (JNum n), Some (JStr c), Some (JStr t), Some (JStr p), Some (JStr u)] \<Rightarrow>
         Some \<lparr>version = n, baseCommit = c, createdAt = t, patch = p, untracked = u\<rparr>
     | _ \<Rightarrow> None)"

fun strings_of :: "json list \<Rightarrow> string list option" where
  "strings_of [] = Some []"
| "strings_of (JStr s # vs) = map_option ((#) s) (strings_of vs)"
| "strings_of _ = None"

definition bundle_of :: "json \<Rightarrow> CheckpointBundle option" where
  "bundle_of v = (case map (json_field v) [''manifest'', ''patchDiff'', ''untrackedFiles'', ''untrackedTar''] of
       [Some m, Some (JStr p), Some (JArr fs), Some (JStr t)] \<Rightarrow>
         (case (manifest_of m, strings_of fs) of
            (Some mf, Some files) \<Rightarrow> Some \<lparr>manifest = mf, patchDiff = p, untrackedFiles = files, untrackedTar = from_base64 t\<rparr>
          | _ \<Rightarrow> None)
     | _ \<Rightarrow> None)"

definition deserializeBundle :: "string \<Rightarrow> restore_error + CheckpointBundle" where
  "deserializeBundle bytes = (case json_parse (decodeText bytes) of
       None \<Rightarrow> Inl (Thrown ''SyntaxError'')
     | Some v \<Rightarrow> (case bundle_of v of None \<Rightarrow> Inl (Thrown ''TypeError'') | Some b \<Rightarrow> Inr b))"

section \<open>Parsing git's output\<close>

record porcelain =
  index :: char
  workTree :: char
  recordPath :: string

text \<open>One record is two characters, a space, and a path ended by NUL.\<close>

lemma length_after_NUL: "length (tl (dropWhile P s)) < Suc (Suc (Suc (length s)))"
  using length_dropWhile_le [of P s] by simp

function parsePorcelainZ :: "string \<Rightarrow> restore_error + porcelain list" where
  "parsePorcelainZ [] = Inr []"
| "parsePorcelainZ (x # y # sp # rest) =
     (if sp \<noteq> CHR '' '' then Inl (PlainError ''git status -z parse error: malformed record'')
      else if NUL \<notin> set rest then Inl (PlainError ''git status -z parse error: unterminated record'')
      else (case parsePorcelainZ (tl (dropWhile (\<lambda>c. c \<noteq> NUL) rest)) of
              Inl e \<Rightarrow> Inl e
            | Inr rs \<Rightarrow> Inr (\<lparr>index = x, workTree = y, recordPath = takeWhile (\<lambda>c. c \<noteq> NUL) rest\<rparr> # rs)))"
| "parsePorcelainZ [x] = Inl (PlainError ''git status -z parse error: malformed record'')"
| "parsePorcelainZ [x, y] = Inl (PlainError ''git status -z parse error: malformed record'')"
  by pat_completeness auto
termination
  by (relation "measure length") (simp_all add: length_after_NUL del: length_tl)

text \<open>The value of a JSON string literal without its quotes; None when \<open>JSON.parse\<close> throws.\<close>

function json_unquote :: "string \<Rightarrow> string option" where
  "json_unquote s =
     (case s of
        [] \<Rightarrow> Some []
      | c # t \<Rightarrow>
          if byte c < 0x20 \<or> c = CHR 0x22 then None
          else if c \<noteq> backslash then map_option ((#) c) (json_unquote t)
          else (case t of
              [] \<Rightarrow> None
            | e # u \<Rightarrow>
                if e = CHR ''u''
                then (case hex4 u of
                    None \<Rightarrow> None
                  | Some h \<Rightarrow>
                      if 0xD800 \<le> h \<and> h < 0xDC00 \<and> take 2 (drop 4 u) = [backslash, CHR ''u'']
                      then (case hex4 (drop 6 u) of
                          None \<Rightarrow> None
                        | Some l \<Rightarrow>
                            if 0xDC00 \<le> l \<and> l < 0xE000
                            then map_option ((@) (utf8_encode (0x10000 + (h - 0xD800) * 1024 + (l - 0xDC00))))
                                   (json_unquote (drop 10 u))
                            else map_option ((@) (utf8_encode h)) (json_unquote (drop 4 u)))
                      else map_option ((@) (utf8_encode h)) (json_unquote (drop 4 u)))
                else (case simple_escape e of
                    None \<Rightarrow> None
                  | Some x \<Rightarrow> map_option ((#) x) (json_unquote u))))"
  by auto
termination
  by (relation "measure length") auto

declare json_unquote.simps [simp del]

definition snoc_new :: "'a \<Rightarrow> 'a list \<Rightarrow> 'a list" where
  "snoc_new x xs = (if x \<in> set xs then xs else xs @ [x])"

definition unquoted :: "string \<Rightarrow> string" where
  "unquoted p =
     (if starts_with [CHR 0x22] p \<and> ends_with [CHR 0x22] p
      then (let inner = butlast (tl p) in
            case (if length p < 2 then None else json_unquote inner) of None \<Rightarrow> inner | Some q \<Rightarrow> q)
      else p)"

definition patchCandidates :: "string \<Rightarrow> string list \<Rightarrow> string list" where
  "patchCandidates line cs =
     (if \<not> starts_with ''+++ '' line then cs
      else (let raw = trim (drop 4 line) in
        if raw = ''/dev/null'' then cs
        else (let u = unquoted raw;
                  p = (if starts_with [slash] u then tl u else u) in
          if p = [] then cs
          else (let cs' = snoc_new p cs; rest = dropWhile (\<lambda>c. c \<noteq> slash) p in
            if length rest > 1 then snoc_new (tl rest) cs' else cs'))))"

definition extractPatchNewFiles :: "string \<Rightarrow> string list" where
  "extractPatchNewFiles diff = fold patchCandidates (split_at newline diff) []"

section \<open>Restoring\<close>

fun writeEntries :: "'w CheckpointDeps \<Rightarrow> string \<Rightarrow> TarEntry list \<Rightarrow> ('w, restore_error, unit) comp" where
  "writeEntries d wd [] = ret ()"
| "writeEntries d wd (e # es) =
     bindC (liftE (resolveWorkspaceEntryPath (processCwd d) wd (path e))) (\<lambda>fullPath.
     thenC (if posix_dirname fullPath \<noteq> [] \<and> posix_dirname fullPath \<noteq> fullPath
            then fs_mkdir d (posix_dirname fullPath) else ret ())
     (thenC (fs_writeFile d fullPath (content e))
     (writeEntries d wd es)))"

definition applyPatch :: "'w CheckpointDeps \<Rightarrow> string \<Rightarrow> string \<Rightarrow> string \<Rightarrow> ('w, restore_error, unit) comp" where
  "applyPatch d tmpDir wd diff =
     bindC (getC (randomUUID d)) (\<lambda>uuid.
     let patchPath = posix_join [tmpDir, ''workspace-checkpoint-patch-'' @ uuid @ ''.diff''];
         cleanup = catchC (fs_unlink d patchPath) (\<lambda>_. ret ()) in
     thenC (fs_writeFile d patchPath diff)
       (bindC
         (catchC
           (bindC (gitOk d [''apply'', ''--binary'', patchPath] (Some wd) (\<lambda>m. PlainError (''git apply failed: '' @ m)))
              (\<lambda>_. ret (Inr ())))
           (\<lambda>e. ret (Inl e)))
         (\<lambda>r. thenC cleanup (liftE r))))"

fun checkExist :: "'w CheckpointDeps \<Rightarrow> string \<Rightarrow> string list \<Rightarrow> ('w, restore_error, unit) comp" where
  "checkExist d wd [] = ret ()"
| "checkExist d wd (f # fs) =
     bindC (fs_exists d (posix_join [strip_last_slash wd, f])) (\<lambda>ok.
       if \<not> ok then throwC (RestoreValidationError (''restore validation failed: untracked file missing: '' @ f)) else checkExist d wd fs)"

definition blank :: "string \<Rightarrow> bool" where
  "blank s \<longleftrightarrow> trim s = []"

text \<open>The check of \<open>git status\<close> against the bundle.\<close>

definition validateStatus :: "CheckpointBundle \<Rightarrow> porcelain list \<Rightarrow> restore_error + unit" where
  "validateStatus b records =
     (let hasPatch = \<not> blank (patchDiff b);
          expectsDirty = hasPatch \<or> untrackedFiles b \<noteq> [];
          dirty = records \<noteq> [];
          allowed = untrackedFiles b @ (if hasPatch then extractPatchNewFiles (patchDiff b) else []);
          actualUntracked = map recordPath (filter (\<lambda>r. index r = CHR ''?'' \<and> workTree r = CHR ''?'') records);
          extra = filter (\<lambda>p. p \<notin> set allowed) (remdups actualUntracked);
          missing = filter (\<lambda>p. p \<notin> set actualUntracked) (remdups (untrackedFiles b)) in
      if expectsDirty \<and> \<not> dirty
      then Inl (RestoreValidationError ''restore validation failed: expected dirty workspace but git status is clean'')
      else if \<not> expectsDirty \<and> dirty
      then Inl (RestoreValidationError ''restore validation failed: expected clean workspace but git status shows changes'')
      else if extra \<noteq> [] \<or> missing \<noteq> []
      then Inl (RestoreValidationError ''restore validation failed: untracked files in git status do not match manifest.untrackedFiles'')
      else Inr ())"

definition extractTar :: "string \<Rightarrow> (restore_error + TarEntry list) option" where
  "extractTar bs = map_option (\<lambda>r. case r of Inl m \<Rightarrow> Inl (PlainError m) | Inr es \<Rightarrow> Inr es) (extractUntrackedTar bs)"

text \<open>Up to the archive, and from the archive's entries on; None when the archive reader does not return.\<close>

definition restoreFetch ::
  "'w CheckpointDeps \<Rightarrow> string \<Rightarrow> string \<Rightarrow> string option \<Rightarrow> string option \<Rightarrow> string
   \<Rightarrow> ('w, restore_error, CheckpointBundle) comp" where
  "restoreFetch d tmpDir wd repoUrl base key =
     thenC (case repoUrl of
              Some url \<Rightarrow> if url \<noteq> [] then bindC (gitOk d [''clone'', url, wd] None (\<lambda>m. PlainError (''git clone failed: '' @ m))) (\<lambda>_. ret ()) else ret ()
            | None \<Rightarrow> ret ())
     (bindC (storage_get d key) (\<lambda>dat. case dat of
         None \<Rightarrow> throwC (PlainError (''checkpoint not found: '' @ key))
       | Some bytes \<Rightarrow>
           bindC (liftE (deserializeBundle bytes)) (\<lambda>b.
           thenC (case base of
                    Some c \<Rightarrow> if c \<noteq> [] \<and> c \<noteq> baseCommit (manifest b)
                              then throwC (RestoreValidationError (''restore validation failed: explicit baseCommit '' @ c @
                                '' does not match bundle manifest baseCommit '' @ baseCommit (manifest b))) else ret ()
                  | None \<Rightarrow> ret ())
           (bindC (gitOk d [''checkout'', baseCommit (manifest b)] (Some wd) (\<lambda>m. PlainError (''git checkout failed: '' @ m))) (\<lambda>_.
            thenC (if \<not> blank (patchDiff b) then applyPatch d tmpDir wd (patchDiff b) else ret ())
              (ret b))))))"

definition status_failed :: "string \<Rightarrow> restore_error" where
  "status_failed m = RestoreValidationError (''git status validation failed: '' @ m)"

definition restoreFinish ::
  "'w CheckpointDeps \<Rightarrow> string \<Rightarrow> CheckpointBundle \<Rightarrow> TarEntry list \<Rightarrow> ('w, restore_error, unit) comp" where
  "restoreFinish d wd b entries =
     thenC (writeEntries d wd entries)
     (bindC (gitOk d [''status'', ''--porcelain'', ''-uall'', ''-z''] (Some wd)
               status_failed) (\<lambda>out.
      bindC (liftE (parsePorcelainZ out)) (\<lambda>records.
      thenC (liftE (validateStatus b records))
        (checkExist d wd (untrackedFiles b)))))"

definition restoreWorkspace ::
  "'w CheckpointDeps \<Rightarrow> string \<Rightarrow> string \<Rightarrow> string option \<Rightarrow> string option \<Rightarrow> string
   \<Rightarrow> 'w \<Rightarrow> ((restore_error + unit) \<times> 'w) option" where
  "restoreWorkspace d tmpDir wd repoUrl base key w =
     (case restoreFetch d tmpDir wd repoUrl base key w of
        (Inl e, w1) \<Rightarrow> Some (Inl e, w1)
      | (Inr b, w1) \<Rightarrow>
          (if untrackedTar b = [] then Some (restoreFinish d wd b [] w1)
           else (case extractTar (untrackedTar b) of
                   None \<Rightarrow> None
                 | Some (Inl e) \<Rightarrow> Some (Inl e, w1)
                 | Some (Inr entries) \<Rightarrow> Some (restoreFinish d wd b entries w1))))"

end
