(* ===== verification/Tar_Roundtrip.thy ===== *)
theory Tar_Roundtrip
  imports Tar
begin

text \<open>
  The ustar archive read back: the fields of a header one by one, the loop over the entries, when the
  writer succeeds, and an archive on which the reader does not return.
\<close>

section \<open>Fields of a block\<close>

lemma blit_simps:
  assumes "off + length bs \<le> length b"
  shows "length (blit off bs b) = length b"
    and "i < length b \<Longrightarrow> blit off bs b ! i = (if off \<le> i \<and> i < off + length bs then bs ! (i - off) else b ! i)"
proof -
  show "length (blit off bs b) = length b" using assms by (simp add: blit_def)
  show "i < length b \<Longrightarrow> blit off bs b ! i = (if off \<le> i \<and> i < off + length bs then bs ! (i - off) else b ! i)"
    using assms by (auto simp: blit_def nth_append min_def)
qed

lemma subarray_nth:
  "off + n \<le> length b \<Longrightarrow> length (subarray off n b) = n \<and> (\<forall>i < n. subarray off n b ! i = b ! (off + i))"
  by (simp add: subarray_def)

lemma subarray_same:
  assumes "off + length bs \<le> length b" shows "subarray off (length bs) (blit off bs b) = bs"
  using assms by (simp add: subarray_def blit_def)

lemma subarray_other:
  assumes "o' + length bs \<le> length b" "off + n \<le> length b" "off + n \<le> o' \<or> o' + length bs \<le> off"
  shows "subarray off n (blit o' bs b) = subarray off n b"
  using assms
  by (intro nth_equalityI) (auto simp: subarray_nth blit_simps)

lemma subarray_zeros: "off + n \<le> m \<Longrightarrow> subarray off n (zeros m) = zeros n"
  by (simp add: subarray_def zeros_def)

lemma subarray_string:
  assumes "off + n \<le> length b" "length bs \<le> n" "subarray off n b = zeros n"
  shows "subarray off n (blit off bs b) = bs @ zeros (n - length bs)"
proof (intro nth_equalityI)
  show "length (subarray off n (blit off bs b)) = length (bs @ zeros (n - length bs))"
    using assms by (simp add: subarray_nth blit_simps zeros_def)
  fix i assume "i < length (subarray off n (blit off bs b))"
  then have i: "i < n" using assms by (simp add: subarray_nth blit_simps)
  have "b ! (off + i) = NUL"
    using subarray_nth [OF assms(1)] assms(3) i by (metis nth_replicate zeros_def)
  with i assms show "subarray off n (blit off bs b) ! i = (bs @ zeros (n - length bs)) ! i"
    by (auto simp: subarray_nth blit_simps nth_append zeros_def)
qed

lemma length_zeros [simp]: "length (zeros n) = n"
  by (simp add: zeros_def)

lemma subarray_same':
  "length bs = n \<Longrightarrow> off + n \<le> length b \<Longrightarrow> subarray off n (blit off bs b) = bs"
  using subarray_same by blast

lemma byte_char_of: "n < 256 \<Longrightarrow> byte (char_of n) = n"
  by (simp add: byte_def)

definition is_octal :: "char \<Rightarrow> bool" where
  "is_octal c \<longleftrightarrow> in_range 0x30 0x37 c"

lemma octal_digits_octal: "\<forall>c \<in> set (octal_digits n). is_octal c"
proof (induction n rule: octal_digits.induct)
  case (1 n)
  then show ?case
    by (subst octal_digits.simps) (auto simp: is_octal_def in_range_def byte_char_of)
qed

lemma octal_digits_ne [simp]: "octal_digits n \<noteq> []"
  by (subst octal_digits.simps) simp

lemma octal_value_append:
  "\<forall>c \<in> set s. is_octal c \<Longrightarrow> octal_value acc (s @ t) = octal_value (octal_value acc s) t"
  by (induction s arbitrary: acc) (auto simp: is_octal_def)

lemma octal_value_digits: "octal_value 0 (octal_digits n) = int n"
proof (induction n rule: octal_digits.induct)
  case (1 n)
  show ?case
  proof (cases "n < 8")
    case True
    then show ?thesis by (subst octal_digits.simps) (simp add: in_range_def byte_char_of)
  next
    case False
    have "int (n div 8) * 8 + int (n mod 8) = int n"
      by (metis div_mult_mod_eq mult.commute of_nat_add of_nat_mult of_nat_numeral)
    with False 1 show ?thesis
      by (subst octal_digits.simps)
         (simp add: octal_value_append octal_digits_octal in_range_def byte_char_of zdiv_int zmod_int)
  qed
qed

lemma octal_value_zeros: "octal_value 0 (replicate k (CHR ''0'')) = 0"
  by (induction k) (auto simp: in_range_def byte_def)

lemma parse_digits:
  assumes "s \<noteq> []" "\<forall>c \<in> set s. is_octal c"
  shows "parseInt8 s = Some (octal_value 0 s)"
proof -
  obtain c t where s: "s = c # t" using assms(1) by (cases s) auto
  with assms(2) have c: "in_range 0x30 0x37 c" by (simp add: is_octal_def)
  then have "\<not> is_space c" "c \<noteq> CHR ''-''" "c \<noteq> CHR ''+''"
    by (auto simp: in_range_def is_space_def byte_def)
  with c s show ?thesis by (simp add: parseInt8_def trim_start_def Let_def)
qed

text \<open>What \<open>writeOctal\<close> leaves: the field as digits and a NUL, the rest of the block as it was.\<close>

lemma writeOctal_ok:
  assumes "writeOctal off len v b = Inr h" "off + len \<le> length b" "2 \<le> len"
  obtains ds where "subarray off len h = ds @ [NUL]" "ds \<noteq> []" "\<forall>c \<in> set ds. is_octal c"
    "octal_value 0 ds = int v" "length h = length b"
    "\<And>o' n. o' + n \<le> length b \<Longrightarrow> o' + n \<le> off \<or> off + len \<le> o' \<Longrightarrow> subarray o' n h = subarray o' n b"
    "\<And>i. i < length b \<Longrightarrow> i < off \<or> off + len \<le> i \<Longrightarrow> h ! i = b ! i"
proof -
  define ds where "ds = replicate (len - 1 - length (octal_digits v)) (CHR ''0'') @ octal_digits v"
  from assms(1) have len: "length ds = len - 1" and h: "h = blit (off + len - 1) [NUL] (blit off ds b)"
    by (auto simp: writeOctal_def Let_def ds_def split: if_splits)
  have ne: "ds \<noteq> []" by (simp add: ds_def)
  have oct: "\<forall>c \<in> set ds. is_octal c"
    using octal_digits_octal by (auto simp: ds_def is_octal_def in_range_def byte_def)
  have val: "octal_value 0 ds = int v"
    unfolding ds_def
    by (subst octal_value_append) (auto simp: octal_value_zeros octal_value_digits is_octal_def in_range_def byte_def)
  have b1: "length (blit off ds b) = length b" using assms len by (simp add: blit_simps)
  then have lh: "length h = length b" using assms len by (simp add: h blit_simps)
  have nth: "i < length b \<Longrightarrow> h ! i = (if i = off + len - 1 then NUL
      else if off \<le> i \<and> i < off + len - 1 then ds ! (i - off) else b ! i)" for i
    using assms len b1 by (auto simp: h blit_simps)
  have "subarray off len h = ds @ [NUL]"
    using assms len lh nth by (intro nth_equalityI) (auto simp: subarray_nth nth_append)
  moreover have "o' + n \<le> length b \<Longrightarrow> o' + n \<le> off \<or> off + len \<le> o' \<Longrightarrow>
      subarray o' n h = subarray o' n b" for o' n
    using assms len lh by (intro nth_equalityI) (auto simp: subarray_nth nth)
  moreover have "i < length b \<Longrightarrow> i < off \<or> off + len \<le> i \<Longrightarrow> h ! i = b ! i" for i
    using assms(3) by (auto simp: nth)
  ultimately show ?thesis using that ne oct val lh by blast
qed

lemma writeOctal_ex:
  assumes "writeOctal off len v b = Inr h" "off + len \<le> 512" "2 \<le> len" "length b = 512"
  shows "\<exists>ds. subarray off len h = ds @ [NUL] \<and> ds \<noteq> [] \<and> (\<forall>c \<in> set ds. is_octal c)
    \<and> octal_value 0 ds = int v \<and> length h = 512
    \<and> (\<forall>o' n. o' + n \<le> 512 \<and> (o' + n \<le> off \<or> off + len \<le> o') \<longrightarrow> subarray o' n h = subarray o' n b)
    \<and> (\<forall>i. i < 512 \<and> (i < off \<or> off + len \<le> i) \<longrightarrow> h ! i = b ! i)"
proof (rule writeOctal_ok [OF assms(1)])
  fix ds
  assume "subarray off len h = ds @ [NUL]" "ds \<noteq> []" "\<forall>c \<in> set ds. is_octal c"
    "octal_value 0 ds = int v" "length h = length b"
    "\<And>o' n. o' + n \<le> length b \<Longrightarrow> o' + n \<le> off \<or> off + len \<le> o' \<Longrightarrow> subarray o' n h = subarray o' n b"
    "\<And>i. i < length b \<Longrightarrow> i < off \<or> off + len \<le> i \<Longrightarrow> h ! i = b ! i"
  with assms(4) show ?thesis by (intro exI [of _ ds]) simp
qed (use assms in simp_all)

lemma parseOctal_field:
  assumes "subarray off len h = ds @ [NUL]" "ds \<noteq> []" "\<forall>c \<in> set ds. is_octal c" "off < length h"
  shows "parseOctal off len h = Inr (octal_value 0 ds)"
proof -
  obtain k where "len = Suc k" using assms(1) by (cases len) (auto simp: subarray_def)
  then have "subarray off len h = h ! off # take k (drop (Suc off) h)"
    using assms(4) by (simp add: subarray_def Cons_nth_drop_Suc [symmetric])
  with assms(1-3) have "is_octal (h ! off)" by (cases ds) auto
  moreover have "takeWhile (\<lambda>c. c \<noteq> NUL \<and> byte c \<noteq> 0x20) (ds @ [NUL]) = ds"
    using assms(3) by (subst takeWhile_append2) (auto simp: is_octal_def in_range_def byte_def)
  ultimately show ?thesis
    using assms parse_digits [OF assms(2,3)] by (auto simp: parseOctal_def is_octal_def in_range_def)
qed

lemma checksum_cong:
  assumes "length a = BLOCK" "length b = BLOCK" "\<And>i. i < BLOCK \<Longrightarrow> i < 148 \<or> 156 \<le> i \<Longrightarrow> a ! i = b ! i"
  shows "computeChecksum a = computeChecksum b"
  unfolding computeChecksum_def using assms
  by (intro arg_cong [where f = sum_list] map_cong refl) auto

lemma takeWhile_zeros: "NUL \<notin> set s \<Longrightarrow> takeWhile (\<lambda>c. c \<noteq> NUL) (s @ zeros n) = s"
  by (cases n) (auto simp: zeros_def takeWhile_append2 takeWhile_tail)

lemma writeString_ok:
  "writeString off len v b = Inr h \<longleftrightarrow> length v \<le> len \<and> h = blit off v b"
  by (auto simp: writeString_def)

lemma ascii_utf8: "(\<forall>c \<in> set s. byte c < 0x80) \<Longrightarrow> utf8 s"
  by (induction s) (simp_all add: utf8.simps [of "_ # _"] scalar_length_def)

lemma decode_ascii:
  assumes "\<forall>c \<in> set s. byte c < 0x80" shows "decodeText s = s"
proof -
  have "\<not> sublist byte_order_mark s"
  proof
    assume "sublist byte_order_mark s"
    then have "CHR 0xEF \<in> set s" by (auto simp: sublist_def byte_order_mark_def)
    with assms show False by (auto simp: byte_def)
  qed
  with assms show ?thesis by (simp add: decodeText_utf8 ascii_utf8)
qed

text \<open>Text that a tar field can hold and give back.\<close>

definition tar_text :: "string \<Rightarrow> bool" where
  "tar_text s \<longleftrightarrow> utf8 s \<and> \<not> sublist byte_order_mark s \<and> NUL \<notin> set s"

lemma readString_field:
  "subarray off n h = s @ zeros k \<Longrightarrow> tar_text s \<Longrightarrow> readString off n h = s"
  by (simp add: readString_def takeWhile_zeros tar_text_def decodeText_utf8)

lemma writeString_pre:
  "(if pre \<noteq> [] then writeString off n pre b else Inr b) = writeString off n pre b"
  by (simp add: writeString_def blit_def)

text \<open>The fields after the modification time, with the checksum field still blank.\<close>

definition finishHeader :: "string \<Rightarrow> string \<Rightarrow> string" where
  "finishHeader pre h = blit 345 pre (blit 297 [] (blit 265 [] (blit 263 ''00'' (blit 257 (''ustar'' @ [NUL])
     (blit 156 [CHR 0x30] (blit 148 (replicate 8 (CHR 0x20)) h))))))"

lemma makeHeader_read:
  assumes "makeHeader pre name n = Inr h" "tar_text pre" "tar_text name" "name \<noteq> []"
  shows "length h = BLOCK" "\<not> isAllZero h"
    "readHeader h = Inr (int n, True, if pre \<noteq> [] then pre @ slash # name else name)"
proof -
  define h1 where "h1 = blit 0 name (zeros BLOCK)"
  have "\<exists>h2 h3 h4 h5 h6. length name \<le> 100 \<and> length pre \<le> 155
      \<and> writeOctal 100 8 420 h1 = Inr h2 \<and> writeOctal 108 8 0 h2 = Inr h3
      \<and> writeOctal 116 8 0 h3 = Inr h4 \<and> writeOctal 124 12 n h4 = Inr h5 \<and> writeOctal 136 12 0 h5 = Inr h6
      \<and> (let b = finishHeader pre h6 in writeOctal 148 8 (computeChecksum b) b = Inr h)"
    using assms(1)
    by (simp add: makeHeader_def writeString_pre writeString_ok h1_def finishHeader_def Let_def) blast
  then obtain h2 h3 h4 h5 h6 where name: "length name \<le> 100"
    and o: "writeOctal 100 8 420 h1 = Inr h2" "writeOctal 108 8 0 h2 = Inr h3"
      "writeOctal 116 8 0 h3 = Inr h4" "writeOctal 124 12 n h4 = Inr h5" "writeOctal 136 12 0 h5 = Inr h6"
    and pre: "length pre \<le> 155"
    and chk0: "writeOctal 148 8 (computeChecksum (finishHeader pre h6)) (finishHeader pre h6) = Inr h"
    by (auto simp: Let_def)
  define b where "b = finishHeader pre h6"
  have chk: "writeOctal 148 8 (computeChecksum b) b = Inr h" using chk0 by (simp add: b_def)
  note b = b_def finishHeader_def
  note name = name h1_def
  note B = BLOCK_def blit_simps subarray_other subarray_nth
  have l1: "length h1 = 512" using name by (simp add: B)
  have d2: "length h2 = 512" "\<forall>o' n. o' + n \<le> 512 \<and> (o' + n \<le> 100 \<or> 108 \<le> o') \<longrightarrow> subarray o' n h2 = subarray o' n h1"
    using writeOctal_ex [OF o(1)] l1 by auto
  have d3: "length h3 = 512" "\<forall>o' n. o' + n \<le> 512 \<and> (o' + n \<le> 108 \<or> 116 \<le> o') \<longrightarrow> subarray o' n h3 = subarray o' n h2"
    using writeOctal_ex [OF o(2)] d2(1) by auto
  have d4: "length h4 = 512" "\<forall>o' n. o' + n \<le> 512 \<and> (o' + n \<le> 116 \<or> 124 \<le> o') \<longrightarrow> subarray o' n h4 = subarray o' n h3"
    using writeOctal_ex [OF o(3)] d3(1) by auto
  obtain ds where d5: "subarray 124 12 h5 = ds @ [NUL]" "ds \<noteq> []" "\<forall>c \<in> set ds. is_octal c"
      "octal_value 0 ds = int n" "length h5 = 512"
      "\<forall>o' n. o' + n \<le> 512 \<and> (o' + n \<le> 124 \<or> 136 \<le> o') \<longrightarrow> subarray o' n h5 = subarray o' n h4"
    using writeOctal_ex [OF o(4)] d4(1) by auto
  have d6: "length h6 = 512" "\<forall>o' n. o' + n \<le> 512 \<and> (o' + n \<le> 136 \<or> 148 \<le> o') \<longrightarrow> subarray o' n h6 = subarray o' n h5"
    using writeOctal_ex [OF o(5)] d5(5) by auto
  have lb: "length b = 512" using d6(1) pre by (simp add: b B)
  obtain cs where c: "subarray 148 8 h = cs @ [NUL]" "cs \<noteq> []" "\<forall>c \<in> set cs. is_octal c"
      "octal_value 0 cs = int (computeChecksum b)" "length h = 512"
      "\<forall>o' n. o' + n \<le> 512 \<and> (o' + n \<le> 148 \<or> 156 \<le> o') \<longrightarrow> subarray o' n h = subarray o' n b"
      "\<forall>i. i < 512 \<and> (i < 148 \<or> 156 \<le> i) \<longrightarrow> h ! i = b ! i"
    using writeOctal_ex [OF chk] lb by auto
  show lh: "length h = BLOCK" using c(5) by (simp add: BLOCK_def)
  have type: "h ! 156 = CHR 0x30" using c(7) [rule_format, of 156] d6(1) pre by (simp add: b B)
  show "\<not> isAllZero h"
  proof
    assume "isAllZero h"
    then have "h ! 156 = NUL" using c(5) by (simp add: isAllZero_def)
    with type show False by simp
  qed
  have sum: "computeChecksum h = computeChecksum b"
    using lh lb c(7) by (intro checksum_cong) (auto simp: BLOCK_def)
  have n1: "subarray 0 100 h1 = name @ zeros (100 - length name)"
    unfolding h1_def using name(1)
    by (intro subarray_string) (simp_all add: subarray_zeros BLOCK_def)
  have rest: "subarray o' k h6 = zeros k" if "136 + 12 \<le> o'" "o' + k \<le> 512" for o' k
    using that name d2 d3 d4 d5(6) d6 l1
    by (simp add: subarray_other subarray_zeros BLOCK_def)
  have f: "subarray 0 100 h = name @ zeros (100 - length name)"
    using c(6) [rule_format, of 0 100] d6 d5(5,6) d4 d3 d2 n1 pre by (simp add: b B)
  have s: "subarray 124 12 h = ds @ [NUL]"
    using c(6) [rule_format, of 124 12] d6 d5(1,5) pre by (simp add: b B)
  have m: "subarray 257 6 h = ''ustar'' @ [NUL]"
    using c(6) [rule_format, of 257 6] d6(1) pre by (simp add: b B subarray_same')
  have p: "subarray 345 155 h = pre @ zeros (155 - length pre)"
    using c(6) [rule_format, of 345 155] d6(1) pre rest [of 345 155] by (simp add: b B subarray_string)
  show "readHeader h = Inr (int n, True, if pre \<noteq> [] then pre @ slash # name else name)"
    using m type sum assms(2-4) readString_field [OF f] readString_field [OF p] c(5)
      parseOctal_field [OF c(1-3)] parseOctal_field [OF s d5(2,3)] c(4) d5(4)
    by (auto simp: readHeader_def Let_def andThen_def decode_ascii byte_def)
qed

section \<open>Round trip\<close>

lemma cut_last_slash_ok:
  assumes "cut_last_slash p = Some (pre, name)" shows "p = pre @ slash # name \<and> slash \<notin> set name"
proof -
  have sl: "slash \<in> set (rev p)" and name: "name = rev (takeWhile (\<lambda>c. c \<noteq> slash) (rev p))"
    and pre: "pre = take (length p - length name - 1) p"
    using assms by (auto simp: cut_last_slash_def Let_def split: if_splits)
  then obtain a b where ab: "rev p = a @ slash # b" "slash \<notin> set a" by (meson split_list_first)
  then have a: "takeWhile (\<lambda>c. c \<noteq> slash) (rev p) = a"
    by (subst ab(1), subst takeWhile_append2) (use ab(2) in auto)
  have p: "p = rev b @ slash # rev a" using arg_cong [OF ab(1), of rev] by simp
  have "pre = rev b" unfolding pre name a by (simp add: p)
  with p a name ab(2) show ?thesis by simp
qed

lemma splitUstarPath_ok:
  assumes "splitUstarPath p = Some (pre, name)" "\<not> starts_with [slash] p"
  shows "p = (if pre \<noteq> [] then pre @ slash # name else name)"
proof (cases "js_length p \<le> 100")
  case True
  with assms show ?thesis by (simp add: splitUstarPath_def)
next
  case False
  with assms(1) have "cut_last_slash p = Some (pre, name)"
    by (auto simp: splitUstarPath_def split: option.splits if_splits)
  then have p: "p = pre @ slash # name" using cut_last_slash_ok by blast
  with assms(2) have "pre \<noteq> []" by (auto simp: starts_with_def)
  with p show ?thesis by simp
qed

lemma sublist_parts: "sublist x a \<or> sublist x b \<Longrightarrow> sublist x (a @ c # b)"
  unfolding sublist_def by (metis append.assoc append_Cons)

lemma tar_text_cut: "tar_text (a @ slash # b) \<Longrightarrow> tar_text a \<and> tar_text b"
  using sublist_parts [of byte_order_mark a b slash] by (auto simp: tar_text_def byte_def dest: utf8_cut)

lemma tar_text_Nil [simp]: "tar_text []"
  by (simp add: tar_text_def byte_order_mark_def)

lemma ceil_512: "- ((- m) div 512) = (m + 511) div (512 :: int)"
proof (cases "m mod 512 = 0")
  case True
  then obtain k where "m = 512 * k" by (metis mod_0_imp_dvd dvdE)
  then show ?thesis by simp
next
  case False
  have "0 \<le> m mod 512" "m mod 512 < 512" by simp_all
  moreover have m: "m = 512 * (m div 512) + m mod 512" by simp
  ultimately have "(m + 511) div 512 = m div 512 + 1" using False by linarith
  with False show ?thesis by (simp add: zdiv_zminus1_eq_if)
qed

lemma padded_simps:
  "int (length (padded c)) = padded_size (int (length c))" "take (length c) (padded c) = c"
  "length c \<le> length (padded c)"
proof -
  have "length (padded c) = (length c + 511) div 512 * 512" by (simp add: padded_def BLOCK_def)
  then show "int (length (padded c)) = padded_size (int (length c))"
    by (simp add: padded_size_def BLOCK_def ceil_512 zdiv_int)
  show "take (length c) (padded c) = c" "length c \<le> length (padded c)" by (simp_all add: padded_def)
qed

lemma js_subarray_mid:
  assumes "bs = pre @ mid @ post" "b = int (length pre)" "e = b + int n" "n \<le> length mid"
  shows "js_subarray b e bs = take n mid"
  using assms by (cases post) (auto simp: js_subarray_def js_index_def subarray_def nat_add_distrib min_def)

text \<open>What the entry is read back as: the path with forward slashes.\<close>

definition normalised :: "TarEntry \<Rightarrow> TarEntry" where
  "normalised e = e\<lparr>path := to_slashes (path e)\<rparr>"

text \<open>Entries whose path survives a header: no NUL, no byte order mark, well-formed, relative.\<close>

definition storable :: "TarEntry \<Rightarrow> bool" where
  "storable e \<longleftrightarrow> tar_text (to_slashes (path e)) \<and> \<not> starts_with [slash] (to_slashes (path e))"

lemma js_length_pos: "js_length p \<noteq> 0 \<Longrightarrow> p \<noteq> []"
  by (auto simp: js_length_def)

lemma createEntries_Cons:
  assumes "createEntries (e # es) = Inr bs" "storable e"
  obtains h rest where "bs = h @ padded (content e) @ rest" "createEntries es = Inr rest"
    "length h = BLOCK" "\<not> isAllZero h" "to_slashes (path e) \<noteq> []"
    "readHeader h = Inr (int (length (content e)), True, to_slashes (path e))"
proof -
  let ?p = "to_slashes (path e)"
  obtain pre name h rest where s: "splitUstarPath ?p = Some (pre, name)"
    and h: "makeHeader pre name (length (content e)) = Inr h"
    and rest: "createEntries es = Inr rest" and bs: "bs = h @ padded (content e) @ rest"
    and p: "js_length ?p \<noteq> 0" "\<not> ends_with [slash] ?p"
    using assms(1) by (auto simp: Let_def split: if_splits option.splits)
  have ok: "tar_text ?p" "\<not> starts_with [slash] ?p" using assms(2) by (simp_all add: storable_def)
  have ps: "?p = (if pre \<noteq> [] then pre @ slash # name else name)" by (rule splitUstarPath_ok [OF s ok(2)])
  have "tar_text pre \<and> tar_text name" using ok(1) ps tar_text_cut [of pre name] by (auto split: if_splits)
  moreover have "name \<noteq> []"
    using ps p js_length_pos [OF p(1)] by (auto simp: ends_with_def starts_with_def split: if_splits)
  ultimately show ?thesis
    using that [OF bs rest] makeHeader_read [OF h] ps js_length_pos [OF p(1)] by simp
qed

lemma extractLoop_entries:
  assumes "createEntries es = Inr bs" "\<forall>e \<in> set es. storable e" "all = pre0 @ bs @ zeros (BLOCK * 2)"
  shows "extractLoop all (int (length pre0)) acc = Some (Inr (acc @ map normalised es))"
  using assms
proof (induction es arbitrary: bs pre0 acc)
  case Nil
  then have all: "all = pre0 @ zeros 1024 @ []" by (simp add: BLOCK_def)
  have "js_subarray (int (length pre0)) (int (length pre0) + int BLOCK) all = take 512 (zeros 1024)"
    by (rule js_subarray_mid [OF all]) (simp_all add: BLOCK_def)
  then show ?case
    by (subst extractLoop.simps) (simp add: all isAllZero_def zeros_def Let_def)
next
  case (Cons e es)
  have "storable e" using Cons.prems(2) by simp
  then obtain h rest where bs: "bs = h @ padded (content e) @ rest" and rest: "createEntries es = Inr rest"
    and hd: "length h = BLOCK" "\<not> isAllZero h"
      "readHeader h = Inr (int (length (content e)), True, to_slashes (path e))"
    using createEntries_Cons [OF Cons.prems(1)] by blast
  let ?o = "int (length pre0)" and ?n = "int (length (content e))"
  have all: "all = pre0 @ h @ (padded (content e) @ rest @ zeros (BLOCK * 2))"
    using Cons.prems(3) bs by simp
  have sub: "js_subarray ?o (?o + int BLOCK) all = h"
    using js_subarray_mid [OF all refl refl, of BLOCK] hd(1) by simp
  have all2: "all = (pre0 @ h) @ padded (content e) @ (rest @ zeros (BLOCK * 2))" using all by simp
  have cont: "js_subarray (?o + int BLOCK) (?o + int BLOCK + ?n) all = content e"
    using js_subarray_mid [OF all2, of "?o + int BLOCK" "?o + int BLOCK + ?n" "length (content e)"]
      hd(1) padded_simps by simp
  have pad: "padded_size ?n = int (length (padded (content e)))" using padded_simps(1) by simp
  have IH: "extractLoop all (?o + int BLOCK + padded_size ?n) (acc @ [normalised e])
      = Some (Inr ((acc @ [normalised e]) @ map normalised es))"
    using Cons.IH [OF rest _, of "pre0 @ h @ padded (content e)" "acc @ [normalised e]"] Cons.prems(2,3)
      bs pad hd(1) by (simp add: add.assoc)
  have len: "int (length all) = ?o + int BLOCK + padded_size ?n + int (length rest) + 2 * int BLOCK"
    using all hd(1) pad by simp
  have norm: "\<lparr>path = to_slashes (path e), content = content e\<rparr> = normalised e" by (simp add: normalised_def)
  show ?case
    using IH hd sub cont len pad norm by (subst extractLoop.simps) (simp add: Let_def)
qed

lemma tar_read_back:
  assumes "createUntrackedTar es = Inr bs" "\<forall>e \<in> set es. storable e"
  shows "extractUntrackedTar bs = Some (Inr (map normalised es))"
proof -
  obtain cs where cs: "createEntries es = Inr cs" "bs = cs @ zeros (BLOCK * 2)"
    using assms(1) by (auto simp: createUntrackedTar_def)
  have "BLOCK dvd length cs" using cs(1) assms(2)
  proof (induction es arbitrary: cs)
    case (Cons e es)
    have "storable e" using Cons.prems(2) by simp
    with Cons.prems(1) obtain h rest where bs: "cs = h @ padded (content e) @ rest"
      and rest: "createEntries es = Inr rest" and h: "length h = BLOCK"
      by (rule createEntries_Cons)
    have "BLOCK dvd length (padded (content e))" by (simp add: padded_def BLOCK_def)
    with h show ?case using Cons.IH [OF rest] Cons.prems(2) by (simp add: bs)
  qed simp
  then have "length bs mod BLOCK = 0" "bs \<noteq> []" by (simp_all add: cs(2) BLOCK_def zeros_def mod_eq_0_iff_dvd)
  moreover have "extractLoop bs 0 [] = Some (Inr (map normalised es))"
    using extractLoop_entries [OF cs(1) assms(2), of bs "[]" "[]"] cs(2) by simp
  ultimately show ?thesis by (simp add: extractUntrackedTar_def)
qed

text \<open>C13: an archive written from entries with storable paths is read back as the same entries, contents
  byte for byte and in order, with backslashes of the paths turned into slashes.\<close>

theorem tar_roundtrip:
  assumes "createUntrackedTar es = Inr bs" "\<forall>e \<in> set es. storable e"
  shows "extractUntrackedTar bs = Some (Inr (map normalised es))"
  using assms by (rule tar_read_back)
section \<open>The writer succeeds\<close>

lemma ascii_no_bom: "(\<forall>c \<in> set s. byte c < 0x80) \<Longrightarrow> \<not> sublist byte_order_mark s"
  by (auto simp: sublist_def byte_order_mark_def byte_def)

lemma ascii_tar_text: "(\<forall>c \<in> set s. byte c < 0x80 \<and> c \<noteq> NUL) \<Longrightarrow> tar_text s"
  using ascii_no_bom [of s] ascii_utf8 [of s] by (auto simp: tar_text_def)

lemma octal_digits_length: "n < 8 ^ Suc k \<Longrightarrow> length (octal_digits n) \<le> Suc k"
proof (induction k arbitrary: n)
  case 0
  then show ?case by (subst octal_digits.simps) simp
next
  case (Suc k)
  show ?case
  proof (cases "n < 8")
    case True
    then show ?thesis by (subst octal_digits.simps) simp
  next
    case False
    have "n div 8 < 8 ^ Suc k" using Suc.prems by (simp add: div_less_iff_less_mult mult.commute)
    from Suc.IH [OF this] False show ?thesis by (subst octal_digits.simps) simp
  qed
qed

lemma writeOctal_total:
  assumes "v < 8 ^ Suc k" "len = Suc (Suc k)"
  shows "\<exists>h. writeOctal off len v b = Inr h"
  using octal_digits_length [OF assms(1)] assms(2) by (simp add: writeOctal_def Let_def)

lemma writeOctal_8: "v < 8 ^ Suc 6 \<Longrightarrow> \<exists>h. writeOctal off 8 v b = Inr h"
  by (rule writeOctal_total, assumption) simp

lemma writeOctal_12: "v < 8 ^ Suc 10 \<Longrightarrow> \<exists>h. writeOctal off 12 v b = Inr h"
  by (rule writeOctal_total, assumption) simp

lemma computeChecksum_bound: "computeChecksum h < 8 ^ Suc 6"
proof -
  have "(\<Sum>i\<leftarrow>xs. if 148 \<le> i \<and> i < 156 then 0x20 else if i < length h then byte (h ! i) else 0)
      \<le> 255 * length xs" for xs
  proof (induction xs)
    case (Cons i xs)
    have "byte (h ! i) \<le> 255" using byte_less [of "h ! i"] by linarith
    with Cons show ?case by auto
  qed simp
  from this [of "[0..<BLOCK]"] show ?thesis by (simp add: computeChecksum_def BLOCK_def)
qed

lemma makeHeader_total:
  assumes "length name \<le> 100" "length pre \<le> 155" "n < 8 ^ 11"
  shows "\<exists>h. makeHeader pre name n = Inr h"
proof -
  define h1 where "h1 = blit 0 name (zeros BLOCK)"
  have n: "n < 8 ^ Suc 10" using assms(3) by simp
  have small: "420 < (8::nat) ^ Suc 6" "0 < (8::nat) ^ Suc 6" "0 < (8::nat) ^ Suc 10" by simp_all
  from writeOctal_8 [OF small(1), of 100 h1] obtain h2 where h2: "writeOctal 100 8 420 h1 = Inr h2" ..
  from writeOctal_8 [OF small(2), of 108 h2] obtain h3 where h3: "writeOctal 108 8 0 h2 = Inr h3" ..
  from writeOctal_8 [OF small(2), of 116 h3] obtain h4 where h4: "writeOctal 116 8 0 h3 = Inr h4" ..
  from writeOctal_12 [OF n, of 124 h4] obtain h5 where h5: "writeOctal 124 12 n h4 = Inr h5" ..
  from writeOctal_12 [OF small(3), of 136 h5] obtain h6 where h6: "writeOctal 136 12 0 h5 = Inr h6" ..
  define b where "b = finishHeader pre h6"
  from writeOctal_8 [OF computeChecksum_bound [of b], of 148 b]
  obtain h where h: "writeOctal 148 8 (computeChecksum b) b = Inr h" ..
  have w: "writeString 0 100 name (zeros BLOCK) = Inr h1" "writeString off len [] x = Inr (blit off [] x)"
    "writeString 257 6 (''ustar'' @ [NUL]) x = Inr (blit 257 (''ustar'' @ [NUL]) x)"
    "writeString 263 2 ''00'' x = Inr (blit 263 ''00'' x)"
    "writeString 345 155 pre x = Inr (blit 345 pre x)" for off len x
    using assms(1,2) by (simp_all add: writeString_def h1_def)
  have "makeHeader pre name n = Inr h"
    unfolding makeHeader_def writeString_pre
    using h unfolding b_def finishHeader_def
    by (simp only: w andThen_def sum.case h2 h3 h4 h5 h6)
  then show ?thesis ..
qed

theorem tar_roundtrip_witness:
  "\<exists>bs. createUntrackedTar [\<lparr>path = ''src'' @ [backslash] @ ''a.txt'', content = ''hello''\<rparr>] = Inr bs
     \<and> extractUntrackedTar bs = Some (Inr [\<lparr>path = ''src/a.txt'', content = ''hello''\<rparr>])"
proof -
  let ?e = "\<lparr>path = ''src'' @ [backslash] @ ''a.txt'', content = ''hello''\<rparr>"
  have p: "to_slashes (path ?e) = ''src/a.txt''" by (simp add: to_slashes_def)
  have len: "js_length ''src/a.txt'' = 9" by (simp add: js_length_def in_range_def byte_def)
  obtain h where h: "makeHeader [] ''src/a.txt'' (length ''hello'') = Inr h"
    using makeHeader_total [of "''src/a.txt''" "[]" "length ''hello''"] by auto
  have "\<exists>bs. createUntrackedTar [?e] = Inr bs"
    using h len p
    by (simp add: createUntrackedTar_def andThen_def Let_def splitUstarPath_def ends_with_def starts_with_def)
  then obtain bs where bs: "createUntrackedTar [?e] = Inr bs" ..
  have "tar_text ''src/a.txt''" by (rule ascii_tar_text) (simp add: byte_def)
  then have "\<forall>e \<in> set [?e]. storable e"
    using p by (simp add: storable_def starts_with_def)
  from tar_roundtrip [OF bs this] bs p show ?thesis by (auto simp: normalised_def)
qed

section \<open>A header that sends the reader back\<close>

definition looping_block :: string where
  "looping_block = finishHeader [] (blit 124 ''-1000'' (blit 0 ''x'' (zeros BLOCK)))"

lemma extractLoop_back:
  assumes "BLOCK \<le> length bs" "\<not> isAllZero (js_subarray 0 (int BLOCK) bs)"
    and "readHeader (js_subarray 0 (int BLOCK) bs) = Inr (n, regular, p)" "padded_size n = - int BLOCK"
  shows "extractLoop bs 0 acc = None"
proof (rule ccontr)
  assume "extractLoop bs 0 acc \<noteq> None"
  then obtain r where "extractLoop bs 0 acc = Some r" by blast
  then have "\<not> (bs = bs \<and> (0::int) = 0)"
  proof (rule extractLoop.raw_induct [where P = "\<lambda>b off acc r. \<not> (b = bs \<and> off = 0)", rotated], goal_cases)
    case (1 f b off acc r)
    show ?case
    proof
      assume "b = bs \<and> off = 0"
      with 1 assms show False by (auto simp: Let_def BLOCK_def split: if_splits)
    qed
  qed
  then show False by simp
qed

lemma looping_header:
  assumes "writeOctal 148 8 (computeChecksum looping_block) looping_block = Inr h"
  shows "length h = BLOCK" "\<not> isAllZero h" "readHeader h = Inr (-512, True, ''x'')"
proof -
  define s where "s = blit 124 ''-1000'' (blit 0 ''x'' (zeros BLOCK))"
  have ls: "length s = 512" by (simp add: s_def blit_simps BLOCK_def)
  note B = blit_simps subarray_other looping_block_def s_def [symmetric] finishHeader_def
  have lb: "length looping_block = 512" using ls by (simp add: B)
  obtain cs where c: "subarray 148 8 h = cs @ [NUL]" "cs \<noteq> []" "\<forall>c \<in> set cs. is_octal c"
      "octal_value 0 cs = int (computeChecksum looping_block)" "length h = 512"
      "\<forall>o' n. o' + n \<le> 512 \<and> (o' + n \<le> 148 \<or> 156 \<le> o') \<longrightarrow> subarray o' n h = subarray o' n looping_block"
      "\<forall>i. i < 512 \<and> (i < 148 \<or> 156 \<le> i) \<longrightarrow> h ! i = looping_block ! i"
    using writeOctal_ex [OF assms] lb by auto
  show lh: "length h = BLOCK" using c(5) by (simp add: BLOCK_def)
  have type: "h ! 156 = CHR 0x30" using c(7) [rule_format, of 156] ls by (simp add: B)
  show "\<not> isAllZero h"
  proof
    assume "isAllZero h"
    then have "h ! 156 = NUL" using c(5) by (simp add: isAllZero_def)
    with type show False by simp
  qed
  have sum: "computeChecksum h = computeChecksum looping_block"
    using lh lb c(7) by (intro checksum_cong) (auto simp: BLOCK_def)
  have f: "subarray 0 100 h = ''x'' @ zeros 99"
    using c(6) [rule_format, of 0 100] ls
    by (simp add: B) (simp add: s_def subarray_other blit_simps BLOCK_def subarray_string subarray_zeros)
  have z: "subarray 124 12 h = ''-1000'' @ zeros 7"
    using c(6) [rule_format, of 124 12] ls
    by (simp add: B) (simp add: s_def subarray_other blit_simps BLOCK_def subarray_string subarray_zeros)
  have m: "subarray 257 6 h = ''ustar'' @ [NUL]"
    using c(6) [rule_format, of 257 6] ls by (simp add: B subarray_same')
  have p: "subarray 345 155 h = [] @ zeros 155"
    using c(6) [rule_format, of 345 155] ls
    by (simp add: B) (simp add: s_def subarray_other blit_simps BLOCK_def subarray_zeros)
  have n: "h ! 124 = CHR ''-''"
    using c(7) [rule_format, of 124] ls by (simp add: B) (simp add: s_def blit_simps BLOCK_def)
  have "parseOctal 124 12 h = Inr (-512)"
    using n c(5)
    by (simp add: parseOctal_def z byte_def zeros_def parseInt8_def trim_start_def is_space_def in_range_def Let_def)
  moreover have "tar_text ''x''" by (rule ascii_tar_text) (simp add: byte_def)
  ultimately show "readHeader h = Inr (-512, True, ''x'')"
    using m type sum c(4,5) readString_field [OF f] readString_field [OF p] parseOctal_field [OF c(1-3)]
    by (auto simp: readHeader_def Let_def andThen_def decode_ascii byte_def)
qed

text \<open>C14: the reader does not check the sign of a size: on some archive of two blocks, with a right
  checksum, it goes back to the same header for ever and never returns.\<close>

theorem tar_negative_size_loops:
  "\<exists>bs. length bs = 1024 \<and> extractUntrackedTar bs = None"
proof -
  from writeOctal_8 [OF computeChecksum_bound [of looping_block], of 148 looping_block]
  obtain h where h: "writeOctal 148 8 (computeChecksum looping_block) looping_block = Inr h" ..
  note hd = looping_header [OF h]
  let ?bs = "h @ zeros 512"
  have sub: "js_subarray 0 (int BLOCK) ?bs = h"
    using js_subarray_mid [of ?bs "[]" h "zeros 512" 0 "int BLOCK" BLOCK] hd(1) by simp
  have "extractLoop ?bs 0 [] = None"
    by (rule extractLoop_back [of ?bs "-512" True "''x''"])
       (use hd sub in \<open>simp_all add: padded_size_def BLOCK_def\<close>)
  moreover have "?bs \<noteq> []" using hd(1) by (auto simp: BLOCK_def)
  ultimately show ?thesis
    using hd(1) by (intro exI [of _ ?bs]) (simp add: extractUntrackedTar_def BLOCK_def)
qed

end
