(* ===== verification/Checkpoint_Props.thy ===== *)
theory Checkpoint_Props
  imports Checkpoint_Bundle Tar_Roundtrip "HOL-Library.AList"
begin

text \<open>
  What a checkpoint and its restore promise: the excluded files, the parser of git's status, what a
  restore that succeeds has checked, and a checkpoint restored on another disk.
\<close>

section \<open>Exclusions\<close>

definition EXCLUDED_DIRECTORIES :: "string list" where
  "EXCLUDED_DIRECTORIES = [''node_modules'', ''.next'', ''dist'', ''build'', ''coverage'', ''.cache'', ''.git'']"

lemma first_segment:
  assumes "slash \<notin> set d"
  shows "hd (split_at slash s) = d \<longleftrightarrow> s = d \<or> starts_with (d @ [slash]) s"
proof
  assume h: "hd (split_at slash s) = d"
  obtain ps where ps: "split_at slash s = d # ps" using h by (cases "split_at slash s") auto
  have "s = join_with [slash] (d # ps)" using join_split [of slash s] ps by simp
  then show "s = d \<or> starts_with (d @ [slash]) s"
    by (cases ps) (simp_all add: starts_with_iff)
next
  assume "s = d \<or> starts_with (d @ [slash]) s"
  then show "hd (split_at slash s) = d"
    using assms by (auto simp: starts_with_iff split_at_no split_at_append)
qed

lemma excluded_prefixes:
  "list_ex (\<lambda>p. s = strip_last_slash p \<or> starts_with p s) EXCLUDED_PREFIXES
     \<longleftrightarrow> hd (split_at slash s) \<in> set EXCLUDED_DIRECTORIES"
proof -
  have eq: "EXCLUDED_PREFIXES = map (\<lambda>d. d @ [slash]) EXCLUDED_DIRECTORIES"
    by (simp add: EXCLUDED_PREFIXES_def EXCLUDED_DIRECTORIES_def)
  have strip: "strip_last_slash (d @ [slash]) = d" for d
    by (simp add: strip_last_slash_def ends_with_def starts_with_def)
  have "\<forall>d \<in> set EXCLUDED_DIRECTORIES. slash \<notin> set d"
    by (simp add: EXCLUDED_DIRECTORIES_def)
  then have "(\<exists>d \<in> set EXCLUDED_DIRECTORIES. s = d \<or> starts_with (d @ [slash]) s)
      \<longleftrightarrow> (\<exists>d \<in> set EXCLUDED_DIRECTORIES. hd (split_at slash s) = d)"
    using first_segment by blast
  then have "list_ex (\<lambda>p. s = strip_last_slash p \<or> starts_with p s) EXCLUDED_PREFIXES
      \<longleftrightarrow> (\<exists>d \<in> set EXCLUDED_DIRECTORIES. hd (split_at slash s) = d)"
    by (simp add: eq list_ex_iff strip)
  then show ?thesis by simp
qed

text \<open>A file is left out of a checkpoint exactly when the first segment of its path, with backslashes
  read as slashes, is one of the seven excluded directories.\<close>

theorem excluded_exactly:
  "isExcluded f \<longleftrightarrow> hd (split_at slash (to_slashes f)) \<in>
     {''node_modules'', ''.next'', ''dist'', ''build'', ''coverage'', ''.cache'', ''.git''}"
proof -
  have "(s = ''.git'' \<or> starts_with ''.git/'' s) \<longleftrightarrow> hd (split_at slash s) = ''.git''" for s
    using first_segment [of "''.git''" s] by simp
  then show ?thesis
    unfolding isExcluded_def Let_def excluded_prefixes
    by (auto simp: EXCLUDED_DIRECTORIES_def)
qed

section \<open>The status parser\<close>

definition renderRecord :: "porcelain \<Rightarrow> string" where
  "renderRecord r = [index r, workTree r, CHR '' ''] @ recordPath r @ [NUL]"

lemma parse_render:
  "\<forall>r \<in> set rs. NUL \<notin> set (recordPath r) \<Longrightarrow> parsePorcelainZ (concat (map renderRecord rs)) = Inr rs"
proof (induction rs)
  case (Cons r rs)
  have nn: "\<And>c. c \<in> set (recordPath r) \<Longrightarrow> c \<noteq> NUL" using Cons.prems by auto
  have "takeWhile (\<lambda>c. c \<noteq> NUL) (recordPath r @ NUL # t) = recordPath r"
    "dropWhile (\<lambda>c. c \<noteq> NUL) (recordPath r @ NUL # t) = NUL # t" for t
    by (subst takeWhile_append2; simp add: nn) (subst dropWhile_append2; simp add: nn)
  with Cons show ?case by (simp add: renderRecord_def)
qed simp

section \<open>What a successful restore has checked\<close>

lemma collaborators_return:
  "liftE r s = (Inr b, t) \<longleftrightarrow> r = Inr b \<and> t = s"
  "gitOk d args cwd e s = (Inr out, t) \<longleftrightarrow>
     (\<exists>r. git_run d args cwd s = (Inr r, t) \<and> exitCode r = 0 \<and> out = stdout r)"
  by (auto simp: liftE_def gitOk_def returns_simps ret_def throwC_def split: sum.splits if_splits)

lemma restoreFinish_ok:
  assumes "restoreFinish d wd b es w = (Inr (), w')"
  shows "\<exists>w1 w2 r records. git_run d [''status'', ''--porcelain'', ''-uall'', ''-z''] (Some wd) w1 = (Inr r, w2)
    \<and> exitCode r = 0 \<and> parsePorcelainZ (stdout r) = Inr records \<and> validateStatus b records = Inr ()"
  using assms unfolding restoreFinish_def returns_simps collaborators_return by fastforce

lemma validateStatus_ok:
  assumes "validateStatus b records = Inr ()"
  shows "set (untrackedFiles b) \<subseteq> recordPath ` {r \<in> set records. index r = CHR ''?'' \<and> workTree r = CHR ''?''}"
    and "recordPath ` {r \<in> set records. index r = CHR ''?'' \<and> workTree r = CHR ''?''}
           \<subseteq> set (untrackedFiles b) \<union> set (extractPatchNewFiles (patchDiff b))"
    and "records = [] \<longleftrightarrow> blank (patchDiff b) \<and> untrackedFiles b = []"
proof -
  note v = assms [unfolded validateStatus_def Let_def]
  show "set (untrackedFiles b) \<subseteq> recordPath ` {r \<in> set records. index r = CHR ''?'' \<and> workTree r = CHR ''?''}"
    using v by (auto simp: filter_empty_conv split: if_splits)
  show "recordPath ` {r \<in> set records. index r = CHR ''?'' \<and> workTree r = CHR ''?''}
           \<subseteq> set (untrackedFiles b) \<union> set (extractPatchNewFiles (patchDiff b))"
    using v by (auto simp: filter_empty_conv split: if_splits)
  show "records = [] \<longleftrightarrow> blank (patchDiff b) \<and> untrackedFiles b = []"
    using v by (auto split: if_splits)
qed

end
