(* ===== verification/Json_Show.thy ===== *)
theory Json_Show
  imports Encoding
begin

text \<open>
  Reading back what \<open>JSON.stringify\<close> wrote gives the value again: for every value whose numbers are integers a
  double holds and whose objects have no repeated keys.
\<close>

fun plain :: "json \<Rightarrow> bool" where
  "plain (JNum i) = (\<bar>i\<bar> \<le> 2 ^ 53)"
| "plain (JFloat _) = False"
| "plain (JArr vs) = list_all plain vs"
| "plain (JObj fs) = (distinct (map fst fs) \<and> list_all (\<lambda>(k, v). plain v) fs)"
| "plain _ = True"

section \<open>Strings\<close>

lemma shown_hex_digit: "n < 16 \<Longrightarrow> hex_digit (hex_char n) = Some n"
by (erule nibble_cases) (simp add: upt_rec hex_char_def hex_digit_def in_range_def byte_def)

lemma control_escape:
  "byte c < 0x20 \<Longrightarrow> hex4 (CHR ''0'' # CHR ''0'' # hex_char (byte c div 16) # hex_char (byte c mod 16) # t) = Some (byte c)"
proof -
  assume "byte c < 0x20"
  then have "hex_digit (hex_char (byte c div 16)) = Some (byte c div 16)" "hex_digit (hex_char (byte c mod 16)) = Some (byte c mod 16)"
    by (simp_all add: shown_hex_digit)
  moreover have "hex_digit (CHR ''0'') = Some 0" by (simp add: hex_digit_def in_range_def byte_def)
  ultimately show ?thesis by (simp add: hex4_def)
qed

lemma Cons_append: "(@) [c] = (#) c"
  by (simp add: fun_eq_iff)

lemma parse_show_char:
  "parse_chars (Suc n) (show_char c @ s) = map_option (apfst ((#) c)) (parse_chars n s)"
proof -
  have small: "byte c < 0x20 \<Longrightarrow> utf8_encode (byte c) = [c]" by (simp add: utf8_encode_def byte_def)
  consider "c = CHR 0x22" | "c = backslash" | "c = CHR 0x08" | "c = CHR 0x0C" | "c = newline" | "c = CHR 0x0D" | "c = CHR 0x09"
    | "c \<notin> {CHR 0x22, backslash, CHR 0x08, CHR 0x0C, newline, CHR 0x0D, CHR 0x09}"
    by auto
  then show ?thesis
  proof cases
    case 8
    show ?thesis
    proof (cases "byte c < 0x20")
      case True
      with 8 control_escape [OF True, of s] small [OF True] show ?thesis
        by (simp add: show_char_def byte_def Cons_append)
    next
      case False
      with 8 show ?thesis by (simp add: show_char_def)
    qed
  qed (simp_all add: show_char_def simple_escape_def byte_def)
qed

lemma parse_shown_chars:
  "length s < n \<Longrightarrow> parse_chars n (concat (map show_char s) @ CHR 0x22 # t) = Some (s, t)"
proof (induction s arbitrary: n)
  case Nil
  then show ?case by (cases n) simp_all
next
  case (Cons c s)
  then obtain m where "n = Suc m" by (cases n) auto
  with Cons show ?case by (simp add: parse_show_char del: parse_chars.simps)
qed

lemma show_char_ne: "show_char c \<noteq> []"
  by (simp add: show_char_def)

lemma length_shown: "length s \<le> length (concat (map show_char s))"
proof (induction s)
  case (Cons c s)
  from show_char_ne [of c] have "0 < length (show_char c)" by simp
  with Cons show ?case by (cases "show_char c") simp_all
qed simp

section \<open>Numbers\<close>

text \<open>What may follow a value inside a text: nothing, a comma or a closing bracket.\<close>

definition stops :: "string \<Rightarrow> bool" where
  "stops s \<longleftrightarrow> s = [] \<or> hd s \<in> {CHR '','', CHR '']'', CHR ''}''}"

lemma stops_simps [simp]: "stops []" "stops (c # s) \<longleftrightarrow> c \<in> {CHR '','', CHR '']'', CHR ''}''}"
  by (simp_all add: stops_def)

lemma digit_is: "digit c = is_digit c"
  by (simp add: digit_def is_digit_def in_range_def)

lemma foldl_digits:
  "list_all is_digit ds \<Longrightarrow>
   foldl (\<lambda>v d. v * 10 + (int (byte d) - 0x30)) (int a) ds = int (foldl (\<lambda>v d. v * 10 + (byte d - 48)) a ds)"
proof (induction ds arbitrary: a)
  case (Cons d ds)
  then have ds: "list_all is_digit ds" and "is_digit d" by simp_all
  then have "48 \<le> byte d" by (simp add: is_digit_def in_range_def)
  then have "int a * 10 + (int (byte d) - 0x30) = int (a * 10 + (byte d - 48))" by simp
  then show ?case using Cons.IH [OF ds] by (simp only: foldl.simps)
qed simp

lemma digits_value_nat: "list_all is_digit ds \<Longrightarrow> digits_value ds = int (digits_nat ds)"
  unfolding digits_value_def digits_nat_def using foldl_digits [of ds 0] by (simp only: of_nat_0)

lemma stops_no_digit: "stops rest \<Longrightarrow> rest = [] \<or> \<not> is_digit (hd rest)"
  by (auto simp: stops_def is_digit_def in_range_def byte_def)

lemma take_digits: "list_all is_digit ds \<Longrightarrow> stops rest \<Longrightarrow> takeWhile digit (ds @ rest) = ds"
  using stops_no_digit [of rest]
  by (induction ds) (auto simp: digit_is takeWhile_eq_Nil_iff hd_conv_nth)

lemma stops_number: "stops rest \<Longrightarrow> parse_fraction rest = Some ([], rest) \<and> parse_exponent rest = Some (0, rest)"
  by (cases rest) (auto simp: parse_fraction_def parse_exponent_def starts_with_def)

lemma show_nat_zero: "show_nat 0 = ''0''"
  by code_simp

lemma show_nat_head: "0 < n \<Longrightarrow> hd (show_nat n) \<noteq> CHR ''0''"
proof (induction n rule: show_nat.induct)
  case (1 n)
  show ?case
  proof (cases "n < 10")
    case True
    have "byte (char_of (48 + n)) \<noteq> byte (CHR ''0'')" using True "1.prems" by (simp add: digit_char byte_def)
    then show ?thesis using True by (auto simp: show_nat.simps [of n])
  next
    case False
    with 1 have "hd (show_nat (n div 10)) \<noteq> CHR ''0''" by simp
    with False show ?thesis by (simp add: show_nat.simps [of n])
  qed
qed

lemma parse_shown_digits:
  assumes "stops rest"
  shows "(if starts_with ''0'' (show_nat n @ rest) then ''0'' else takeWhile digit (show_nat n @ rest)) = show_nat n"
proof (cases "n = 0")
  case True
  then show ?thesis by (simp add: show_nat_zero starts_with_def)
next
  case False
  then have "hd (show_nat n) \<noteq> CHR ''0''" by (simp add: show_nat_head)
  moreover from show_nat_ne obtain d ds where "show_nat n = d # ds" by (cases "show_nat n") auto
  ultimately have "\<not> starts_with ''0'' (show_nat n @ rest)" by (simp add: starts_with_def)
  with take_digits [OF _ assms, of "show_nat n"] show_nat_digits [of n] show ?thesis by simp
qed

lemma shown_number_value:
  "n \<le> 2 ^ 53 \<Longrightarrow> number_value neg (show_nat n) [] 0 token = JNum (if neg then - int n else int n)"
proof -
  assume n: "n \<le> 2 ^ 53"
  from show_nat_digits [of n] have "digits_value (show_nat n) = int n" by (simp add: digits_value_nat)
  moreover from n have "int n \<le> 2 ^ 53" by (metis of_nat_le_iff of_nat_numeral of_nat_power)
  ultimately show ?thesis by (simp add: number_value_def)
qed

lemma show_nat_no_minus: "\<not> starts_with ''-'' (show_nat n @ rest)"
proof -
  obtain d ds where d: "show_nat n = d # ds" by (cases "show_nat n") auto
  with show_nat_digits [of n] have "is_digit d" by simp
  then have "d \<noteq> CHR ''-''" by (auto simp: is_digit_def in_range_def byte_def)
  with d show ?thesis by (simp add: starts_with_def)
qed

lemma parse_number_run:
  assumes "(if starts_with ''-'' s then tl s else s) = t" "(if starts_with ''0'' t then ''0'' else takeWhile digit t) = ds" "ds \<noteq> []"
    "drop (length ds) t = rest" "stops rest"
  shows "parse_number s = Some (number_value (starts_with ''-'' s) ds [] 0 (take (length s - length rest) s), rest)"
  unfolding parse_number_def Let_def assms(1) assms(2) using assms(3-5) stops_number by simp

lemma parse_shown_int:
  assumes "\<bar>i\<bar> \<le> 2 ^ 53" and "stops rest"
  shows "parse_number (show_int i @ rest) = Some (JNum i, rest)"
proof -
  let ?n = "nat \<bar>i\<bar>"
  have n: "?n \<le> 2 ^ 53" using assms(1) by simp
  have neg: "starts_with ''-'' (show_int i @ rest) \<longleftrightarrow> i < 0"
    using show_nat_no_minus [of "nat i" rest] by (auto simp: show_int_def starts_with_def)
  have t: "(if starts_with ''-'' (show_int i @ rest) then tl (show_int i @ rest) else show_int i @ rest) = show_nat ?n @ rest"
    unfolding neg by (simp add: show_int_def)
  have "parse_number (show_int i @ rest) = Some (number_value (i < 0) (show_nat ?n) [] 0
      (take (length (show_int i @ rest) - length rest) (show_int i @ rest)), rest)"
    using parse_number_run [OF t parse_shown_digits [OF assms(2)] show_nat_ne _ assms(2)] unfolding neg by simp
  then show ?thesis using shown_number_value [OF n] by simp
qed

section \<open>Values\<close>

lemma shown_head:
  assumes "plain v"
  obtains c t where "json_show v = c # t" "\<not> json_space c" "c \<noteq> CHR ''}''" "c \<noteq> CHR '']''"
proof -
  have num: "\<exists>d ds. show_nat n = d # ds \<and> is_digit d" for n
    using show_nat_digits [of n] by (cases "show_nat n") auto
  have dig: "is_digit d \<Longrightarrow> \<not> json_space d \<and> d \<noteq> CHR ''}'' \<and> d \<noteq> CHR '']''" for d
    by (auto simp: is_digit_def in_range_def json_space_def byte_def)
  show thesis
  proof (cases v)
    case (JNum i)
    show ?thesis
    proof (cases "i < 0")
      case True
      with JNum that show ?thesis by (simp add: show_int_def json_space_def)
    next
      case False
      from num [of "nat i"] obtain d ds where d: "show_nat (nat i) = d # ds" "is_digit d" by blast
      with False JNum dig [OF d(2)] that [of d ds] show ?thesis by (simp add: show_int_def)
    qed
  next
    case (JBool b)
    with that show ?thesis by (cases b) (simp_all add: json_space_def)
  qed (use assms that in \<open>auto simp: show_string_def json_space_def\<close>)
qed

lemma skip_shown: "plain v \<Longrightarrow> skip_space (json_show v @ s) = json_show v @ s"
  by (erule shown_head) (simp add: skip_space_def)

lemma skip_simps [simp]:
  "skip_space (CHR '','' # s) = CHR '','' # s" "skip_space (CHR '']'' # s) = CHR '']'' # s" "skip_space (CHR ''}'' # s) = CHR ''}'' # s"
  "skip_space (CHR 0x22 # s) = CHR 0x22 # s" "skip_space (CHR '':'' # s) = CHR '':'' # s" "skip_space [] = []"
  by (simp_all add: skip_space_def json_space_def)

lemma parse_shown_string:
  "length (show_string k) \<le> n \<Longrightarrow> parse_chars n (concat (map show_char k) @ CHR 0x22 # t) = Some (k, t)"
  using length_shown [of k] by (intro parse_shown_chars) (simp add: show_string_def)

definition parses :: "json \<Rightarrow> bool" where
  "parses v \<longleftrightarrow> (\<forall>n rest. length (json_show v) \<le> n \<longrightarrow> stops rest \<longrightarrow> parse_value n (json_show v @ rest) = Some (v, rest))"

lemma parsesD: "parses v \<Longrightarrow> length (json_show v) \<le> n \<Longrightarrow> stops rest \<Longrightarrow> parse_value n (json_show v @ rest) = Some (v, rest)"
  by (simp add: parses_def)

lemma parse_shown_elements:
  "list_all (\<lambda>v. plain v \<and> parses v) vs \<Longrightarrow> vs \<noteq> [] \<Longrightarrow> length (join_with '','' (map json_show vs)) < n \<Longrightarrow>
   parse_elements n (join_with '','' (map json_show vs) @ CHR '']'' # rest) = Some (vs, rest)"
proof (induction vs arbitrary: n)
  case (Cons v vs)
  then obtain m where n: "n = Suc m" by (cases n) auto
  show ?case
  proof (cases vs)
    case Nil
    with Cons.prems n have "parse_value m (json_show v @ CHR '']'' # rest) = Some (v, CHR '']'' # rest)"
      by (intro parsesD) auto
    with Nil n show ?thesis by simp
  next
    case (Cons w ws)
    with Cons.prems n have "parse_value m (json_show v @ CHR '','' # join_with '','' (map json_show vs) @ CHR '']'' # rest)
        = Some (v, CHR '','' # join_with '','' (map json_show vs) @ CHR '']'' # rest)"
      by (intro parsesD) auto
    moreover have "parse_elements m (join_with '','' (map json_show vs) @ CHR '']'' # rest) = Some (vs, rest)"
      using Cons.IH [of m] Cons.prems Cons n by simp
    moreover have "skip_space (join_with '','' (map json_show vs) @ CHR '']'' # rest) = join_with '','' (map json_show vs) @ CHR '']'' # rest"
      using Cons Cons.prems by (cases ws) (simp_all add: skip_shown)
    ultimately show ?thesis using Cons n by simp
  qed
qed simp

definition show_member :: "string \<times> json \<Rightarrow> string" where
  "show_member = (\<lambda>(k, v). show_string k @ '':'' @ json_show v)"

lemma update_absent: "k \<notin> fst ` set fs \<Longrightarrow> AList.update k v fs = fs @ [(k, v)]"
  by (induction fs) auto

lemma parse_shown_members:
  "list_all (\<lambda>(k, v). plain v \<and> parses v) fs \<Longrightarrow> fs \<noteq> [] \<Longrightarrow> distinct (map fst (pre @ fs)) \<Longrightarrow>
   length (join_with '','' (map show_member fs)) < n \<Longrightarrow>
   parse_members n pre (join_with '','' (map show_member fs) @ CHR ''}'' # rest) = Some (pre @ fs, rest)"
proof (induction fs arbitrary: n pre)
  case (Cons p fs)
  obtain k v where p: "p = (k, v)" by (cases p)
  from Cons.prems obtain m where n: "n = Suc m" by (cases n) auto
  have plain: "plain v" "parses v" using Cons.prems p by auto
  have new: "AList.update k v pre = pre @ [p]" using Cons.prems(3) p by (simp add: update_absent)
  let ?member = "\<lambda>tail. show_string k @ '':'' @ json_show v @ tail"
  have one: "parse_members n pre (?member (c # tail)) = (if c = CHR ''}'' then Some (pre @ [p], tail)
        else parse_members m (pre @ [p]) (skip_space tail))"
    if c: "c = CHR ''}'' \<or> c = CHR '',''" and len: "length (show_string k) + length (json_show v) \<le> m" for c tail
  proof -
    have "stops (c # tail)" "skip_space (c # tail) = c # tail" using c by auto
    moreover have "parse_chars (length (?member (c # tail))) (concat (map show_char k) @ CHR 0x22 # '':'' @ json_show v @ c # tail)
        = Some (k, '':'' @ json_show v @ c # tail)"
      by (rule parse_shown_string) simp
    moreover have "parse_value m (json_show v @ c # tail) = Some (v, c # tail)"
      using parsesD [OF plain(2) _ \<open>stops (c # tail)\<close>] len by simp
    moreover have "skip_space (json_show v @ c # tail) = json_show v @ c # tail" by (rule skip_shown [OF plain(1)])
    ultimately show ?thesis
      using c new by (auto simp: n show_string_def starts_with_def)
  qed
  show ?case
  proof (cases fs)
    case Nil
    with Cons.prems one [of "CHR ''}''" rest] show ?thesis by (simp add: show_member_def p n)
  next
    case (Cons q qs)
    let ?tail = "join_with '','' (map show_member fs) @ CHR ''}'' # rest"
    have "length (show_string k) + length (json_show v) \<le> m"
      using Cons.prems(4) Cons n p by (simp add: show_member_def)
    from one [of "CHR '',''" ?tail, OF _ this] have "parse_members n pre (?member (CHR '','' # ?tail))
        = parse_members m (pre @ [p]) (skip_space ?tail)" by simp
    moreover have "skip_space ?tail = ?tail"
      using Cons by (cases q; cases qs) (simp_all add: show_member_def show_string_def)
    moreover have "parse_members m (pre @ [p]) ?tail = Some ((pre @ [p]) @ fs, rest)"
      using Cons.IH [of "pre @ [p]" m] Cons.prems Cons n by simp
    ultimately show ?thesis using Cons p by (simp add: show_member_def)
  qed
qed simp

lemma shown_int_head: "\<exists>c t. show_int i = c # t \<and> (c = CHR ''-'' \<or> is_digit c)"
proof -
  have "\<exists>d ds. show_nat n = d # ds \<and> is_digit d" for n
    using show_nat_digits [of n] by (cases "show_nat n") auto
  from this [of "nat i"] show ?thesis by (auto simp: show_int_def)
qed

lemma parse_value_number:
  "c = CHR ''-'' \<or> is_digit c \<Longrightarrow> parse_value (Suc n) (c # t) = parse_number (c # t)"
proof -
  assume "c = CHR ''-'' \<or> is_digit c"
  then have "c \<notin> {CHR 0x22, CHR 0x7B, CHR 0x5B, CHR ''t'', CHR ''f'', CHR ''n''}"
    by (auto simp: is_digit_def in_range_def byte_def)
  then show ?thesis by (simp add: starts_with_def)
qed

lemma plain_parses: "plain v \<Longrightarrow> parses v"
proof (induction v)
  case (JNum i)
  show ?case
    unfolding parses_def
  proof (intro allI impI)
    fix n rest
    assume len: "length (json_show (JNum i)) \<le> n" and "stops rest"
    obtain c t where c: "show_int i = c # t" "c = CHR ''-'' \<or> is_digit c" using shown_int_head by blast
    with len obtain m where "n = Suc m" by (cases n) auto
    with parse_value_number [OF c(2), of m "t @ rest"] c(1) parse_shown_int [OF _ \<open>stops rest\<close>, of i] JNum.prems
    show "parse_value n (json_show (JNum i) @ rest) = Some (JNum i, rest)" by simp
  qed
next
  case (JStr s)
  show ?case
    unfolding parses_def
  proof (intro allI impI)
    fix n rest
    assume "length (json_show (JStr s)) \<le> n"
    then obtain m where n: "n = Suc m" by (cases n) (auto simp: show_string_def)
    have "parse_chars (length (show_string s @ rest)) (concat (map show_char s) @ CHR 0x22 # rest) = Some (s, rest)"
      by (rule parse_shown_string) simp
    with n show "parse_value n (json_show (JStr s) @ rest) = Some (JStr s, rest)" by (simp add: show_string_def)
  qed
next
  case (JArr vs)
  show ?case
    unfolding parses_def
  proof (intro allI impI)
    fix n rest
    let ?join = "join_with '','' (map json_show vs)"
    assume "length (json_show (JArr vs)) \<le> n" "stops rest"
    then obtain m where n: "n = Suc m" "length ?join < m" by (cases n) auto
    show "parse_value n (json_show (JArr vs) @ rest) = Some (JArr vs, rest)"
    proof (cases vs)
      case Nil
      with n show ?thesis by (simp add: starts_with_def)
    next
      case (Cons w ws)
      from JArr have all: "list_all (\<lambda>v. plain v \<and> parses v) vs" by (auto simp: list_all_iff)
      then have w: "plain w" using Cons by simp
      then obtain c t where "json_show w = c # t" "c \<noteq> CHR '']''" by (rule shown_head)
      then have "\<not> starts_with [CHR 0x5D] (?join @ CHR '']'' # rest)"
        using Cons by (cases ws) (simp_all add: starts_with_def)
      moreover have "skip_space (?join @ CHR '']'' # rest) = ?join @ CHR '']'' # rest"
        using Cons skip_shown [OF w] by (cases ws) simp_all
      moreover have "parse_elements m (?join @ CHR '']'' # rest) = Some (vs, rest)"
        using parse_shown_elements [OF all _ n(2)] Cons by blast
      ultimately show ?thesis using n(1) by simp
    qed
  qed
next
  case (JObj fs)
  show ?case
    unfolding parses_def
  proof (intro allI impI)
    fix n rest
    let ?join = "join_with '','' (map show_member fs)"
    assume "length (json_show (JObj fs)) \<le> n" "stops rest"
    then obtain m where n: "n = Suc m" "length ?join < m" by (cases n) (auto simp: show_member_def)
    have written: "json_show (JObj fs) = CHR ''{'' # ?join @ ''}''" by (simp add: show_member_def)
    show "parse_value n (json_show (JObj fs) @ rest) = Some (JObj fs, rest)"
    proof (cases fs)
      case Nil
      with n show ?thesis by (simp add: starts_with_def)
    next
      case (Cons p ps)
      from JObj have all: "list_all (\<lambda>(k, v). plain v \<and> parses v) fs" by (fastforce simp: list_all_iff)
      have head: "\<exists>t. ?join @ CHR ''}'' # rest = CHR 0x22 # t"
        using Cons by (cases p; cases ps) (simp_all add: show_member_def show_string_def)
      then have "\<not> starts_with [CHR 0x7D] (?join @ CHR ''}'' # rest)"
        by (auto simp: starts_with_def simp del: take_append)
      moreover have "skip_space (?join @ CHR ''}'' # rest) = ?join @ CHR ''}'' # rest" using head by auto
      moreover have "parse_members m [] (?join @ CHR ''}'' # rest) = Some (fs, rest)"
        using parse_shown_members [OF all _ _ n(2), of "[]"] Cons JObj.prems by simp
      ultimately show ?thesis unfolding n(1) written by simp
    qed
  qed
next
  case JNull
  show ?case
    unfolding parses_def
  proof (intro allI impI)
    fix n rest
    assume "length (json_show JNull) \<le> n"
    then show "parse_value n (json_show JNull @ rest) = Some (JNull, rest)" by (cases n) (simp_all add: starts_with_def)
  qed
next
  case (JBool b)
  show ?case
    unfolding parses_def
  proof (intro allI impI)
    fix n rest
    assume "length (json_show (JBool b)) \<le> n"
    then show "parse_value n (json_show (JBool b) @ rest) = Some (JBool b, rest)"
      by (cases n; cases b) (simp_all add: starts_with_def)
  qed
qed simp

theorem json_roundtrip: "plain v \<Longrightarrow> json_parse (json_show v) = Some v"
proof -
  assume plain: "plain v"
  have "parse_value (Suc (length (json_show v))) (json_show v) = Some (v, [])"
    using parsesD [OF plain_parses [OF plain], of "Suc (length (json_show v))" "[]"] by (simp del: parse_value.simps)
  moreover have "skip_space (json_show v) = json_show v" using skip_shown [OF plain, of "[]"] by simp
  ultimately show ?thesis by (simp add: json_parse_def del: parse_value.simps)
qed

section \<open>Well-formed text\<close>

lemma continuation_full: "continuation r n s = n \<Longrightarrow> continuation r n (s @ t) = n"
  by (induction r n s rule: continuation.induct) (auto split: if_splits)

lemma scalar_length_more: "0 < scalar_length s \<Longrightarrow> scalar_length (s @ t) = scalar_length s"
  by (cases s) (auto simp: scalar_length_def continuation_full split: if_splits)

lemma utf8_append [intro]: "utf8 a \<Longrightarrow> utf8 b \<Longrightarrow> utf8 (a @ b)"
proof (induction a rule: utf8.induct)
  case (1 s)
  show ?case
  proof (cases "s = []")
    case False
    with 1 have pos: "0 < scalar_length s" and rest: "utf8 (drop (scalar_length s) s)"
      by (simp_all add: utf8.simps [of s] split: if_splits)
    from "1.IH" [OF False pos rest "1.prems"(2)] show ?thesis
      using pos False scalar_length_more [OF pos, of b] scalar_length_le [of s] by (simp add: utf8.simps [of "s @ b"])
  qed (use "1.prems" in simp)
qed

lemma utf8_ascii: "list_all (\<lambda>c. byte c < 0x80) s \<Longrightarrow> utf8 s"
proof (induction s)
  case (Cons c s)
  then show ?case by (simp add: utf8.simps [of "c # s"] scalar_length_def)
qed simp

lemma utf8_Cons_ascii: "byte c < 0x80 \<Longrightarrow> utf8 (c # s) = utf8 s"
  by (simp add: utf8.simps [of "c # s"] scalar_length_def)

lemma continuation_high:
  "0x80 \<le> fst r \<Longrightarrow> continuation r n s = n \<Longrightarrow> list_all (\<lambda>c. 0x80 \<le> byte c) (take n s)"
  by (induction r n s rule: continuation.induct) (auto simp: in_range_def split: if_splits)

lemma ascii_literals:
  "byte (CHR 0x22) < 0x80" "byte backslash < 0x80" "byte (CHR 0x08) < 0x80" "byte (CHR 0x0C) < 0x80" "byte newline < 0x80"
  "byte (CHR 0x0D) < 0x80" "byte (CHR 0x09) < 0x80" "byte (CHR ''b'') < 0x80" "byte (CHR ''f'') < 0x80"
  "byte (CHR ''n'') < 0x80" "byte (CHR ''r'') < 0x80" "byte (CHR ''t'') < 0x80" "byte (CHR ''u'') < 0x80" "byte (CHR ''0'') < 0x80"
  by (simp_all add: byte_def)

lemma show_char_high: "0x80 \<le> byte c \<Longrightarrow> show_char c = [c]"
proof -
  assume high: "0x80 \<le> byte c"
  then have "c \<noteq> d" if "byte d < 0x80" for d using that by auto
  with high show ?thesis by (simp add: show_char_def ascii_literals)
qed

lemma hex_char_ascii: "byte (hex_char n) < 0x80"
proof -
  have "n mod 16 < 16" by simp
  moreover have "list_all (\<lambda>d. byte d < 0x80) ''0123456789abcdef''" by (simp add: byte_def)
  ultimately show ?thesis unfolding hex_char_def list_all_length by force
qed

lemma show_char_ascii: "byte c < 0x80 \<Longrightarrow> list_all (\<lambda>d. byte d < 0x80) (show_char c)"
  by (simp add: show_char_def ascii_literals hex_char_ascii)

lemma continuation_take: "continuation r n s = n \<Longrightarrow> continuation r n (take n s) = n"
  by (induction r n s rule: continuation.induct) (auto split: if_splits)

lemma scalar_is_utf8: "0 < scalar_length s \<Longrightarrow> utf8 (take (scalar_length s) s)"
proof -
  assume pos: "0 < scalar_length s"
  then obtain c t where s: "s = c # t" by (cases s) (simp_all add: scalar_length_def)
  have "scalar_length (take (scalar_length s) s) = scalar_length s"
    using pos by (auto simp: s scalar_length_def continuation_take split: if_splits)
  with pos show ?thesis by (subst utf8.simps) simp
qed

lemma shown_high: "\<forall>c \<in> set s. 0x80 \<le> byte c \<Longrightarrow> concat (map show_char s) = s"
  by (induction s) (simp_all add: show_char_high)

lemma utf8_shown: "utf8 s \<Longrightarrow> utf8 (concat (map show_char s))"
proof (induction s rule: utf8.induct)
  case (1 s)
  show ?case
  proof (cases "s = []")
    case False
    let ?n = "scalar_length s"
    from 1 False have pos: "0 < ?n" and rest: "utf8 (drop ?n s)" by (simp_all add: utf8.simps [of s] split: if_splits)
    have IH: "utf8 (concat (map show_char (drop ?n s)))" using "1.IH" [OF False pos rest] .
    have split: "concat (map show_char s) = concat (map show_char (take ?n s)) @ concat (map show_char (drop ?n s))"
      by (metis append_take_drop_id concat_append map_append)
    from False obtain c t where s: "s = c # t" by (cases s) auto
    have "utf8 (concat (map show_char (take ?n s)))"
    proof (cases "byte c < 0x80")
      case True
      then have "take ?n s = [c]" by (simp add: s scalar_length_def)
      then show ?thesis using utf8_ascii [OF show_char_ascii [OF True]] by simp
    next
      case False
      with pos have n: "?n = Suc (needed c)" "continuation (second_range c) (needed c) t = needed c"
        by (simp_all add: s scalar_length_def split: if_splits)
      have "\<forall>d \<in> set (take ?n s). 0x80 \<le> byte d"
        using continuation_high [OF second_range_lo n(2)] False n(1) s by (auto simp: list_all_iff)
      from shown_high [OF this] scalar_is_utf8 [OF pos] show ?thesis by simp
    qed
    with IH split show ?thesis by auto
  qed simp
qed

text \<open>A value whose strings are well-formed is written as well-formed text.\<close>

fun proper :: "json \<Rightarrow> bool" where
  "proper (JStr s) = utf8 s"
| "proper (JFloat t) = utf8 t"
| "proper (JArr vs) = list_all proper vs"
| "proper (JObj fs) = list_all (\<lambda>(k, v). utf8 k \<and> proper v) fs"
| "proper _ = True"

lemma utf8_join: "utf8 sep \<Longrightarrow> list_all utf8 ss \<Longrightarrow> utf8 (join_with sep ss)"
  by (induction sep ss rule: join_with.induct) auto

lemma utf8_show_int: "utf8 (show_int i)"
proof -
  have "list_all (\<lambda>c. byte c < 0x80) (show_nat n)" for n
    using show_nat_digits [of n] by (auto simp: list_all_iff is_digit_def in_range_def)
  then show ?thesis by (auto intro!: utf8_ascii simp: show_int_def) (simp add: byte_def)
qed

lemma utf8_show_string: "utf8 s \<Longrightarrow> utf8 (show_string s)"
proof -
  assume s: "utf8 s"
  have "utf8 [CHR 0x22]" by (rule utf8_ascii) (simp add: ascii_literals)
  with utf8_shown [OF s] show ?thesis unfolding show_string_def by blast
qed

lemma utf8_json_show: "proper v \<Longrightarrow> utf8 (json_show v)"
proof (induction v)
  case (JArr vs)
  then have "list_all utf8 (map json_show vs)" by (auto simp: list_all_iff)
  then have "utf8 (join_with '','' (map json_show vs))" by (rule utf8_join [rotated]) (simp add: utf8_ascii byte_def)
  moreover have "utf8 ''[''" "utf8 '']''" by (simp_all add: utf8_ascii byte_def)
  ultimately show ?case unfolding json_show.simps by blast
next
  case (JObj fs)
  have "utf8 (show_member p)" if "p \<in> set fs" for p
    using JObj that by (cases p) (fastforce simp: show_member_def list_all_iff utf8_Cons_ascii byte_def intro!: utf8_append utf8_show_string)
  then have "list_all utf8 (map show_member fs)" by (auto simp: list_all_iff)
  then have "utf8 (join_with '','' (map show_member fs))" by (rule utf8_join [rotated]) (simp add: utf8_ascii byte_def)
  moreover have "utf8 ''{''" "utf8 ''}''" by (simp_all add: utf8_ascii byte_def)
  ultimately have "utf8 (''{'' @ join_with '','' (map show_member fs) @ ''}'')" by blast
  then show ?case by (simp add: show_member_def)
qed (auto simp: utf8_show_int utf8_show_string intro!: utf8_ascii simp: byte_def)

text \<open>What a server reads of a request that was sent a value.\<close>

lemma decode_shown: "proper (JObj fs) \<Longrightarrow> decodeText (json_show (JObj fs)) = json_show (JObj fs)"
proof -
  assume "proper (JObj fs)"
  then have "scrub (json_show (JObj fs)) = json_show (JObj fs)" by (intro scrub_utf8 utf8_json_show)
  moreover have "\<not> prefix byte_order_mark (json_show (JObj fs))" by (simp add: byte_order_mark_def)
  ultimately show ?thesis by (simp add: decodeText_def)
qed

end
