(* ===== verification/Bundle_Codec.thy ===== *)
theory Bundle_Codec
  imports Checkpoint_Bundle Json_Show
begin

text \<open>
  What is stored of a bundle is read back as it was: the round trips of base64 and of the JSON text of a checkpoint.
\<close>

section \<open>Base64\<close>

lemma base64_digits: "n < 64 \<Longrightarrow> base64_digit (base64_char n) = Some n \<and> base64_char n \<noteq> CHR ''=''"
proof -
  have "list_all (\<lambda>k. base64_digit (base64_char k) = Some k \<and> base64_char k \<noteq> CHR ''='') [0..<64]" by code_simp
  then show "n < 64 \<Longrightarrow> ?thesis" by (simp add: list_all_iff)
qed

lemma base64_char_mod: "base64_char n = base64_char (n mod 64)"
  by (simp add: base64_char_def)

lemma base64_digit_char [simp]: "base64_digit (base64_char n) = Some (n mod 64)" "base64_char n \<noteq> CHR ''=''"
  using base64_digits [of "n mod 64"] base64_char_mod [of n] by simp_all

lemma char_of_byte: "n = byte c \<Longrightarrow> char_of n = c"
  by (simp add: byte_def)

lemma shifted: "q < 16 \<Longrightarrow> (a * 16 + q) mod 64 = a mod 4 * 16 + q" "r < 4 \<Longrightarrow> (a * 4 + r) mod 64 = a mod 16 * 4 + r" for a q r :: nat
proof -
  show "(a * 16 + q) mod 64 = a mod 4 * 16 + q" if "q < 16"
  proof -
    have "a * 16 + q = a div 4 * 64 + (a mod 4 * 16 + q)" using div_mult_mod_eq [of a 4] by linarith
    moreover have "a mod 4 * 16 + q < 64" using that mod_less_divisor [of 4 a] by linarith
    ultimately show ?thesis by (metis mod_mult_self3 mod_less)
  qed
  show "(a * 4 + r) mod 64 = a mod 16 * 4 + r" if "r < 4"
  proof -
    have "a * 4 + r = a div 16 * 64 + (a mod 16 * 4 + r)" using div_mult_mod_eq [of a 16] by linarith
    moreover have "a mod 16 * 4 + r < 64" using that mod_less_divisor [of 16 a] by linarith
    ultimately show ?thesis by (metis mod_mult_self3 mod_less)
  qed
qed

lemma first_byte: "a < 256 \<Longrightarrow> q < 16 \<Longrightarrow> a div 4 mod 64 * 4 + (a * 16 + q) mod 64 div 16 = a" for a q :: nat
proof -
  assume "a < 256" "q < 16"
  then have "a div 4 mod 64 = a div 4" "(a * 16 + q) mod 64 div 16 = a mod 4" by (simp_all add: shifted)
  then show ?thesis using div_mult_mod_eq [of a 4] by linarith
qed

lemma second_byte: "b < 256 \<Longrightarrow> r < 4 \<Longrightarrow> (a * 16 + b div 16) mod 64 mod 16 * 16 + (b * 4 + r) mod 64 div 4 = b" for a b r :: nat
proof -
  assume b: "b < 256" "r < 4"
  then have "b div 16 < 16" by simp
  then have "(a * 16 + b div 16) mod 64 mod 16 = b div 16" by (simp add: shifted)
  moreover have "(b * 4 + r) mod 64 div 4 = b mod 16" using b by (simp add: shifted)
  ultimately show ?thesis using div_mult_mod_eq [of b 16] by linarith
qed

lemma third_byte: "c < 256 \<Longrightarrow> (b * 4 + c div 64) mod 64 mod 4 * 64 + c mod 64 = c" for b c :: nat
proof -
  assume "c < 256"
  then have "c div 64 < 4" by simp
  then have "(b * 4 + c div 64) mod 64 mod 4 = c div 64" by (simp add: shifted)
  then show ?thesis using div_mult_mod_eq [of c 64] by linarith
qed

lemma decoded_bytes:
  "char_of (byte a div 4 mod 64 * 4 + (byte a * 16 + byte b div 16) mod 64 div 16) = a"
  "char_of (byte a div 4 mod 64 * 4 + byte a * 16 mod 64 div 16) = a"
  "char_of ((byte a * 16 + byte b div 16) mod 64 mod 16 * 16 + (byte b * 4 + byte c div 64) mod 64 div 4) = b"
  "char_of ((byte a * 16 + byte b div 16) mod 64 mod 16 * 16 + byte b * 4 mod 64 div 4) = b"
  "char_of ((byte b * 4 + byte c div 64) mod 64 mod 4 * 64 + byte c mod 64) = c"
proof -
  have small: "byte x div 16 < 16" "byte x div 64 < 4" for x using byte_less [of x] by (simp_all add: less_mult_imp_div_less)
  show "char_of (byte a div 4 mod 64 * 4 + (byte a * 16 + byte b div 16) mod 64 div 16) = a"
    by (rule char_of_byte, rule first_byte) (rule byte_less small)+
  show "char_of (byte a div 4 mod 64 * 4 + byte a * 16 mod 64 div 16) = a"
    by (rule char_of_byte, rule first_byte [where q = 0, unfolded add_0_right]) (rule byte_less zero_less_numeral)+
  show "char_of ((byte a * 16 + byte b div 16) mod 64 mod 16 * 16 + (byte b * 4 + byte c div 64) mod 64 div 4) = b"
    by (rule char_of_byte, rule second_byte) (rule byte_less small)+
  show "char_of ((byte a * 16 + byte b div 16) mod 64 mod 16 * 16 + byte b * 4 mod 64 div 4) = b"
    by (rule char_of_byte, rule second_byte [where r = 0, unfolded add_0_right]) (rule byte_less zero_less_numeral)+
  show "char_of ((byte b * 4 + byte c div 64) mod 64 mod 4 * 64 + byte c mod 64) = c"
    by (rule char_of_byte, rule third_byte) (rule byte_less)
qed

lemma base64_read: "base64_bytes (List.map_filter base64_digit (takeWhile (\<lambda>c. c \<noteq> CHR ''='') (base64 s))) = s"
  by (induction s rule: base64.induct) (simp_all only: base64.simps takeWhile.simps map_filter_simps base64_digit_char
      option.case base64_bytes.simps decoded_bytes if_True if_False simp_thms takeWhile.simps)

lemma base64_roundtrip: "from_base64 (base64 s) = s"
  by (simp add: from_base64_def base64_read)

lemma base64_ascii: "c \<in> set (base64 s) \<Longrightarrow> byte c < 0x80"
proof -
  have "list_all (\<lambda>k. byte (base64_char k) < 0x80) [0..<64]" by code_simp
  then have digit: "byte (base64_char n) < 0x80" for n
    using base64_char_mod [of n] by (simp add: list_all_iff)
  have pad: "byte (CHR ''='') < 0x80" by (simp add: byte_def)
  show "c \<in> set (base64 s) \<Longrightarrow> ?thesis"
    by (induction s rule: base64.induct) (auto simp: digit pad simp del: base64_digit_char)
qed

lemma base64_utf8: "utf8 (base64 s)"
  by (rule utf8_ascii) (use base64_ascii in \<open>simp add: list_all_iff\<close>)

section \<open>A stored bundle\<close>

text \<open>A bundle of well-formed text, with a version that a number holds exactly.\<close>

definition well_formed_bundle :: "CheckpointBundle \<Rightarrow> bool" where
  "well_formed_bundle b \<longleftrightarrow> plain (JNum (version (manifest b)))
     \<and> list_all utf8 ([baseCommit (manifest b), createdAt (manifest b), patch (manifest b), untracked (manifest b), patchDiff b]
         @ untrackedFiles b)"

lemma strings_of_strings: "strings_of (map JStr ss) = Some ss"
  by (induction ss) simp_all

lemma bundle_of_json: "bundle_of (bundle_json b) = Some b"
  by (simp add: bundle_of_def bundle_json_def Let_def strings_of_strings base64_roundtrip)

text \<open>What is stored of a checkpoint is read back as the same bundle: the patch, the names, and the archive byte by byte.\<close>

lemma bundle_roundtrip:
  assumes "well_formed_bundle b"
  shows "deserializeBundle (serializeBundle b) = Inr b"
proof -
  have "plain (bundle_json b)"
    using assms by (simp add: bundle_json_def Let_def well_formed_bundle_def list_all_iff)
  moreover have "decodeText (json_show (bundle_json b)) = json_show (bundle_json b)"
    unfolding bundle_json_def Let_def
    using assms base64_utf8 by (intro decode_shown) (simp add: well_formed_bundle_def list_all_iff utf8_ascii byte_def)
  ultimately show ?thesis by (simp add: deserializeBundle_def serializeBundle_def json_roundtrip bundle_of_json)
qed

end
