(* ===== verification/Checkpoint_Disk.thy ===== *)
theory Checkpoint_Disk
  imports Checkpoint_Props Bundle_Codec
begin

text \<open>
  A checkpoint taken on one disk and restored on another: a concrete world of files in which git
  lists and reports exactly the untracked files, the round trip, and a listed file that cannot be
  read, whose checkpoint no restore accepts.
\<close>

section \<open>The disk\<close>

text \<open>
  \<open>files\<close> are the files with their contents by absolute path, \<open>listed\<close> the names that
  \<open>git ls-files --others\<close> prints. The repository has no other change, so \<open>git diff\<close> is empty and
  \<open>git status\<close> reports the files under the workspace as untracked.
\<close>

record disk =
  files :: "(string \<times> string) list"
  listed :: "string list"
  objects :: "string \<rightharpoonup> string"

definition below :: "string \<Rightarrow> string \<Rightarrow> string" where
  "below root f = root @ [slash] @ f"

definition untracked_names :: "string \<Rightarrow> disk \<Rightarrow> string list" where
  "untracked_names root w =
     map (drop (length root + 1)) (filter (starts_with (root @ [slash])) (map fst (files w)))"

definition untracked_record :: "string \<Rightarrow> porcelain" where
  "untracked_record f = \<lparr>index = CHR ''?'', workTree = CHR ''?'', recordPath = f\<rparr>"

definition disk_git :: "string \<Rightarrow> string list \<Rightarrow> string option \<Rightarrow> (disk, restore_error, GitResult) comp" where
  "disk_git root args cwd =
     getC (\<lambda>w. \<lparr>stdout =
        (if hd args = ''ls-files'' then concat (map (\<lambda>f. f @ [newline]) (listed w))
         else if hd args = ''status'' then concat (map renderRecord (map untracked_record (untracked_names root w)))
         else []), stderr = [], exitCode = 0\<rparr>)"

definition disk_deps :: "string \<Rightarrow> disk CheckpointDeps" where
  "disk_deps root = \<lparr>git_run = disk_git root,
     fs_readFile = (\<lambda>p w. case map_of (files w) p of None \<Rightarrow> (Inl (Thrown ''ENOENT''), w) | Some c \<Rightarrow> (Inr c, w)),
     fs_writeFile = (\<lambda>p c. modifyC (\<lambda>w. w\<lparr>files := AList.update p c (files w)\<rparr>)),
     fs_exists = (\<lambda>p. getC (\<lambda>w. map_of (files w) p \<noteq> None)),
     fs_unlink = (\<lambda>p. modifyC (\<lambda>w. w\<lparr>files := AList.delete p (files w)\<rparr>)),
     fs_mkdir = (\<lambda>p. ret ()),
     storage_put = (\<lambda>k c. modifyC (\<lambda>w. w\<lparr>objects := (objects w)(k \<mapsto> c)\<rparr>)),
     storage_get = (\<lambda>k. getC (\<lambda>w. objects w k)), storage_head = (\<lambda>k. getC (\<lambda>w. objects w k \<noteq> None)),
     nowIso = (\<lambda>w. ''2026-01-01T00:00:00.000Z''),
     randomUUID = (\<lambda>w. ''uuid''),
     processCwd = [slash]\<rparr>"

lemmas disk_defs = disk_deps_def disk_git_def gitOk_def liftE_def comp_defs

lemma disk_fields [simp]:
  "git_run (disk_deps r) = disk_git r" "storage_get (disk_deps r) k = getC (\<lambda>w. objects w k)"
  "processCwd (disk_deps r) = [slash]"
  "fs_mkdir (disk_deps r) p = ret ()" "nowIso (disk_deps r) w = ''2026-01-01T00:00:00.000Z''"
  by (simp_all add: disk_deps_def)

lemma below_eq [simp]: "below r f = below r g \<longleftrightarrow> f = g"
  by (simp add: below_def)

section \<open>Good names\<close>

text \<open>
  A name git lists and a restore accepts: plain segments, storable in the archive, printed by git
  as it is (no newline, no surrounding white space, nothing that git would quote).
\<close>

definition good_name :: "string \<Rightarrow> bool" where
  "good_name f \<longleftrightarrow> (\<exists>segs. f = join_segs segs \<and> segs \<noteq> [] \<and> (\<forall>s \<in> set segs. plain_segment s))
     \<and> tar_text f \<and> backslash \<notin> set f \<and> \<not> drive_prefix f \<and> trim f = f \<and> newline \<notin> set f"

definition good_root :: "string \<Rightarrow> bool" where
  "good_root r \<longleftrightarrow> (\<exists>R. r = slash # join_segs R \<and> R \<noteq> [] \<and> (\<forall>s \<in> set R. plain_segment s))"

lemma good_segments:
  assumes "f = join_segs segs" "segs \<noteq> []" "\<forall>s \<in> set segs. plain_segment s"
  shows "split_at slash f = segs"
  using assms split_join_segs [of segs] by (auto simp: plain_segment_def)

lemma good_nameD:
  assumes "good_name f"
  shows "f \<noteq> []" "\<not> starts_with [slash] f" "\<not> ends_with [slash] f" "''..'' \<notin> set (split_at slash f)"
    "filter (\<lambda>s. s \<noteq> [] \<and> s \<noteq> ''.'') (split_at slash f) = split_at slash f" "f \<noteq> ''.''"
    "join_segs (split_at slash f) = f" "to_slashes f = f" "NUL \<notin> set f"
proof -
  obtain segs where segs: "f = join_segs segs" "segs \<noteq> []" "\<forall>s \<in> set segs. plain_segment s"
    using assms by (auto simp: good_name_def)
  note sp = good_segments [OF segs]
  have pl: "\<forall>s \<in> set (split_at slash f). plain_segment s" using segs(3) unfolding sp .
  have nil: "[] \<notin> set (split_at slash f)" and dot: "''.'' \<notin> set (split_at slash f)"
    and dots: "''..'' \<notin> set (split_at slash f)"
    using pl by (auto simp only: plain_segment_def)
  show "f \<noteq> []" using nil by (cases f) simp_all
  show "\<not> starts_with [slash] f"
    using nil by (cases f) (auto simp: starts_with_iff)
  show "\<not> ends_with [slash] f"
  proof
    assume "ends_with [slash] f"
    then obtain t where "rev f = slash # t" by (auto simp: ends_with_def starts_with_iff)
    then have "f = rev t @ slash # []" by (simp add: rev_swap)
    then have "[] \<in> set (split_at slash f)" by (simp add: split_snoc)
    with nil show False by simp
  qed
  show "''..'' \<notin> set (split_at slash f)" by (fact dots)
  show "f \<noteq> ''.''"
  proof
    assume "f = ''.''"
    then have "split_at slash f = [''.'']" by simp
    with dot show False by simp
  qed
  have "\<forall>s \<in> set (split_at slash f). s \<noteq> [] \<and> s \<noteq> ''.''" using nil dot by metis
  then show "filter (\<lambda>s. s \<noteq> [] \<and> s \<noteq> ''.'') (split_at slash f) = split_at slash f"
    by (simp only: filter_True)
  show "join_segs (split_at slash f) = f" by (simp add: join_segs_def join_split)
  show "to_slashes f = f" using assms by (simp add: good_name_def to_slashes_id)
  show "NUL \<notin> set f" using assms by (simp add: good_name_def tar_text_def)
qed

lemma good_rootD:
  assumes "good_root r"
  shows "posix_resolve cwd [r] = r" "strip_last_slash r = r"
    "\<exists>R. r = slash # join_segs R \<and> R \<noteq> [] \<and> (\<forall>s \<in> set R. plain_segment s) \<and> split_at slash r = [] # R"
proof -
  obtain R where R: "r = slash # join_segs R" "R \<noteq> []" "\<forall>s \<in> set R. plain_segment s"
    using assms by (auto simp: good_root_def)
  have sp: "split_at slash r = [] # R" using R good_segments [OF refl R(2,3)] by simp
  then show "\<exists>R. r = slash # join_segs R \<and> R \<noteq> [] \<and> (\<forall>s \<in> set R. plain_segment s) \<and> split_at slash r = [] # R"
    using R by blast
  show "posix_resolve cwd [r] = r"
    using R(1) sp norm_segs_id [OF R(3), of False "[]"] by (simp add: posix_resolve_def starts_with_def)
  show "strip_last_slash r = r"
  proof -
    have "\<not> ends_with [slash] r"
    proof
      assume "ends_with [slash] r"
      then obtain t where "rev r = slash # t" by (auto simp: ends_with_def starts_with_iff)
      then have "r = rev t @ slash # []" by (simp add: rev_swap)
      then have "split_at slash r = split_at slash (rev t) @ [[]]" by (simp add: split_snoc)
      with sp have "last ([] # R) = []" by (metis last_snoc)
      with R(2,3) show False by (auto simp: plain_segment_def)
    qed
    then show ?thesis by (simp add: strip_last_slash_def)
  qed
qed

lemma resolve_good:
  assumes "good_root r" "good_name f"
  shows "resolveWorkspaceEntryPath cwd r f = Inr (below r f)"
proof -
  obtain R where R: "r = slash # join_segs R" "R \<noteq> []" "\<forall>s \<in> set R. plain_segment s"
    using good_rootD(3) [OF assms(1)] by blast
  note f = good_nameD [OF assms(2)]
  have "posix_resolve cwd [r, f] = slash # join_segs (R @ split_at slash f)"
    using posix_resolve_below [OF R(1,3) f(2,4), of cwd] f(5) by simp
  also have "\<dots> = below r f" using join_segs_append [OF R(2), of "split_at slash f"] f(7) R(1)
    by (simp add: below_def)
  finally have res: "posix_resolve cwd [r, f] = below r f" .
  have "starts_with (r @ [slash]) (below r f)" by (auto simp: starts_with_iff below_def)
  moreover have "\<not> drive_prefix f" using assms(2) by (simp add: good_name_def)
  moreover have "\<not> (\<exists>seg \<in> set (split_at slash f). seg = ''..'')" using f(4) by blast
  ultimately show ?thesis
    using f(1,2,6,8) good_rootD(1) [OF assms(1)] res
    by (simp add: resolveWorkspaceEntryPath_def Let_def) (simp add: below_def)
qed

lemma join_good:
  assumes "good_root r" "good_name f" shows "posix_join [r, f] = below r f"
proof -
  obtain R where R: "r = slash # join_segs R" "R \<noteq> []" "\<forall>s \<in> set R. plain_segment s" "split_at slash r = [] # R"
    using good_rootD(3) [OF assms(1)] by blast
  note f = good_nameD [OF assms(2)]
  let ?F = "split_at slash f"
  have pl: "\<forall>s \<in> set (R @ ?F). plain_segment s"
    using R(3) f(4,5) split_at_pieces [of _ slash f] by (auto simp: filter_id_conv plain_segment_def)
  have j: "join_segs [r, f] = below r f" by (simp add: join_segs_def below_def)
  have sp: "split_at slash (below r f) = [] # R @ ?F" by (simp add: below_def split_snoc R(4))
  have b: "join_segs (R @ ?F) = join_segs R @ slash # f"
    using join_segs_append [OF R(2), of ?F] f(7) by simp
  have "\<not> ends_with [slash] (below r f)"
    using f(1,3) by (cases "rev f") (auto simp: ends_with_def starts_with_def below_def)
  moreover have "starts_with [slash] (below r f)" by (simp add: below_def R(1) starts_with_def)
  moreover have "norm_segs False [] ([] # R @ ?F) = rev (R @ ?F)" using norm_segs_id [OF pl, of False "[]"] by simp
  moreover have "below r f \<noteq> []" by (simp add: below_def)
  ultimately have "posix_normalize (below r f) = below r f"
    using b by (simp add: posix_normalize_def sp Let_def del: norm_segs.simps) (simp add: below_def R(1))
  then show ?thesis using f(1) R(1) j by (simp add: posix_join_def)
qed

section \<open>Taking the checkpoint\<close>

lemma split_lines:
  "(\<forall>f \<in> set fs. newline \<notin> set f) \<Longrightarrow> split_at newline (concat (map (\<lambda>f. f @ [newline]) fs)) = fs @ [[]]"
  by (induction fs) (simp_all add: split_at_append)

lemma listedFiles_good:
  assumes "\<forall>f \<in> set fs. good_name f"
  shows "listedFiles (concat (map (\<lambda>f. f @ [newline]) fs)) = fs"
proof -
  have "split_at newline (concat (map (\<lambda>f. f @ [newline]) fs)) = fs @ [[]]"
    using assms by (intro split_lines) (simp add: good_name_def)
  moreover have "map trim fs = fs" using assms by (simp add: good_name_def map_idI)
  moreover have "filter (\<lambda>s. s \<noteq> []) fs = fs" using assms good_nameD(1) by (simp add: filter_id_conv)
  ultimately show ?thesis by (simp add: listedFiles_def trim_def trim_start_def)
qed

definition placed :: "string \<Rightarrow> (string \<times> string) list \<Rightarrow> (string \<times> string) list" where
  "placed r fs = map (\<lambda>(f, c). (below r f, c)) fs"

lemma map_of_placed: "map_of (placed r fs) (below r f) = map_of fs f"
  by (induction fs) (auto simp: placed_def below_def)

lemma readEntries_placed:
  assumes "files w = placed r fs"
  shows "readEntries (disk_deps r) r ns w
     = (Inr (map (\<lambda>f. \<lparr>path = f, content = the (map_of fs f)\<rparr>) (filter (\<lambda>f. map_of fs f \<noteq> None) ns)), w)"
proof (induction ns)
  case (Cons n ns)
  have "map_of (files w) (r @ slash # n) = map_of fs n"
    using assms map_of_placed [of r fs n] by (simp add: below_def)
  with Cons show ?case
    by (cases "map_of fs n") (simp_all add: comp_defs, simp_all add: disk_deps_def)
qed (simp add: ret_def)

lemma create_outcome:
  assumes "good_root r" "\<forall>f \<in> set (listed w). good_name f" "files w = placed r fs"
    and "createCheckpointBundle (disk_deps r) r base w = (Inr b, w')"
  shows "untrackedFiles b = filterExcluded (listed w)" "patchDiff b = []" "baseCommit (manifest b) = base"
    "createUntrackedTar (map (\<lambda>f. \<lparr>path = f, content = the (map_of fs f)\<rparr>)
       (filter (\<lambda>f. map_of fs f \<noteq> None) (filterExcluded (listed w)))) = Inr (untrackedTar b)"
proof -
  have git: "git_run (disk_deps r) = disk_git r" "nowIso (disk_deps r) = (\<lambda>_. ''2026-01-01T00:00:00.000Z'')"
    by (simp_all add: disk_deps_def)
  note lf = listedFiles_good [OF assms(2)]
  show "untrackedFiles b = filterExcluded (listed w)" "patchDiff b = []" "baseCommit (manifest b) = base"
    "createUntrackedTar (map (\<lambda>f. \<lparr>path = f, content = the (map_of fs f)\<rparr>)
       (filter (\<lambda>f. map_of fs f \<noteq> None) (filterExcluded (listed w)))) = Inr (untrackedTar b)"
    using assms(4) lf good_rootD(2) [OF assms(1)] readEntries_placed [OF assms(3)]
    by (auto simp: createCheckpointBundle_def returns_simps collaborators_return git disk_git_def Let_def
        split: sum.splits)
qed

lemma created_well_formed:
  assumes "good_root r" "\<forall>f \<in> set (listed w). good_name f" "utf8 base" "files w = placed r fs"
    and "createCheckpointBundle (disk_deps r) r base w = (Inr b, w')"
  shows "well_formed_bundle b"
proof -
  have "\<forall>f \<in> set (filterExcluded (listed w)). utf8 f"
    using assms(2) by (auto simp: filterExcluded_def good_name_def tar_text_def)
  moreover have "untrackedFiles b = filterExcluded (listed w)" "patchDiff b = []"
      "manifest b = \<lparr>version = 1, baseCommit = base, createdAt = ''2026-01-01T00:00:00.000Z'', patch = ''patch.diff'', untracked = ''untracked.tar''\<rparr>"
    using assms(5) listedFiles_good [OF assms(2)] good_rootD(2) [OF assms(1)] readEntries_placed [OF assms(4)]
    by (auto simp: createCheckpointBundle_def returns_simps collaborators_return disk_git_def Let_def split: sum.splits)
  ultimately show ?thesis
    using assms(3) by (simp add: well_formed_bundle_def list_all_iff utf8_ascii byte_def)
qed

section \<open>Restoring it\<close>

lemma update_new: "k \<notin> fst ` set xs \<Longrightarrow> AList.update k v xs = xs @ [(k, v)]"
  by (induction xs) auto

lemma write_entries:
  assumes "good_root r" "\<forall>e \<in> set es. good_name (path e)" "distinct (map path es)"
    and "\<forall>e \<in> set es. below r (path e) \<notin> fst ` set (files w)"
  shows "writeEntries (disk_deps r) r es w
     = (Inr (), w\<lparr>files := files w @ placed r (map (\<lambda>e. (path e, content e)) es)\<rparr>)"
  using assms(2-4)
proof (induction es arbitrary: w)
  case (Cons e es)
  have upd: "AList.update (below r (path e)) (content e) (files w) = files w @ [(below r (path e), content e)]"
    using Cons.prems(3) by (simp add: update_new)
  let ?w = "w\<lparr>files := files w @ [(below r (path e), content e)]\<rparr>"
  have "writeEntries (disk_deps r) r es ?w
      = (Inr (), ?w\<lparr>files := files ?w @ placed r (map (\<lambda>e. (path e, content e)) es)\<rparr>)"
  proof (rule Cons.IH)
    show "\<forall>e' \<in> set es. below r (path e') \<notin> fst ` set (files ?w)"
    proof
      fix e' assume "e' \<in> set es"
      then have "path e' \<noteq> path e" using Cons.prems(2) by (metis distinct.simps(2) imageI list.simps(9) set_map)
      moreover have "below r (path e') \<notin> fst ` set (files w)"
        using Cons.prems(3) \<open>e' \<in> set es\<close> by simp
      ultimately show "below r (path e') \<notin> fst ` set (files ?w)" by simp
    qed
  qed (use Cons.prems in simp_all)
  moreover have "resolveWorkspaceEntryPath (processCwd (disk_deps r)) r (path e) = Inr (below r (path e))"
    using assms(1) Cons.prems(1) by (simp add: resolve_good)
  ultimately show ?case
    by (simp add: comp_defs liftE_def upd) (simp add: disk_deps_def comp_defs upd placed_def)
qed (simp add: ret_def placed_def)

lemma names_placed: "files w = placed r fs \<Longrightarrow> untracked_names r w = map fst fs"
  by (induction fs arbitrary: w)
     (auto simp: untracked_names_def placed_def below_def starts_with_def o_def case_prod_beta)

lemma restoreFetch_disk:
  assumes "patchDiff b = []" "objects w key = Some (serializeBundle b)" "well_formed_bundle b"
  shows "restoreFetch (disk_deps r) tmp r None None key w = (Inr b, w)"
  using assms bundle_roundtrip
  by (simp add: restoreFetch_def returns_simps collaborators_return blank_def trim_def trim_start_def
      disk_git_def)

lemma checkExist_disk:
  assumes "good_root r" "\<forall>f \<in> set ns. good_name f" "\<forall>f \<in> set ns. map_of (files w) (below r f) \<noteq> None"
  shows "checkExist (disk_deps r) r ns w = (Inr (), w)"
  using assms(2,3)
proof (induction ns)
  case (Cons f ns)
  then have "posix_join [strip_last_slash r, f] = below r f"
    using join_good [OF assms(1)] good_rootD(2) [OF assms(1)] by simp
  moreover have "fs_exists (disk_deps r) (below r f) w = (Inr True, w)"
    using Cons.prems by (simp add: disk_deps_def getC_def)
  ultimately show ?case using Cons by (simp add: bindC_def)
qed (simp add: ret_def)

lemma status_disk:
  assumes "files w = placed r fs" "\<forall>f \<in> set (map fst fs). good_name f"
  shows "\<exists>out. gitOk (disk_deps r) [''status'', ''--porcelain'', ''-uall'', ''-z''] (Some r) e w = (Inr out, w)
     \<and> parsePorcelainZ out = Inr (map untracked_record (map fst fs))"
proof -
  have "\<forall>r \<in> set (map untracked_record (map fst fs)). NUL \<notin> set (recordPath r)"
    using assms(2) good_nameD(9) by (auto simp: untracked_record_def)
  from parse_render [OF this] show ?thesis
    using names_placed [OF assms(1)] by (simp add: disk_defs o_def)
qed

lemma restoreFinish_disk:
  assumes "good_root r" "patchDiff b = []" "\<forall>e \<in> set es. good_name (path e)" "distinct (map path es)"
    and "files w = []"
  shows "restoreFinish (disk_deps r) r b es w =
     (if set (untrackedFiles b) = set (map path es)
      then (Inr (), w\<lparr>files := placed r (map (\<lambda>e. (path e, content e)) es)\<rparr>)
      else (fst (restoreFinish (disk_deps r) r b es w), w\<lparr>files := placed r (map (\<lambda>e. (path e, content e)) es)\<rparr>))
   \<and> (set (untrackedFiles b) \<noteq> set (map path es) \<longrightarrow>
        (\<exists>m. fst (restoreFinish (disk_deps r) r b es w) = Inl (RestoreValidationError m)))"
proof -
  let ?fs = "map (\<lambda>e. (path e, content e)) es"
  let ?w = "w\<lparr>files := placed r ?fs\<rparr>"
  have wr: "writeEntries (disk_deps r) r es w = (Inr (), ?w)"
    using write_entries [OF assms(1,3,4), of w] assms(5) by simp
  have fs: "map fst ?fs = map path es" by (simp add: o_def)
  have good: "\<forall>f \<in> set (map fst ?fs). good_name f" using assms(3) by auto
  obtain out where out: "gitOk (disk_deps r) [''status'', ''--porcelain'', ''-uall'', ''-z''] (Some r)
        status_failed ?w = (Inr out, ?w)"
      "parsePorcelainZ out = Inr (map untracked_record (map path es))"
    using status_disk [of ?w r ?fs, OF _ good] unfolding fs by auto
  have val: "validateStatus b (map untracked_record (map path es)) =
      (if set (untrackedFiles b) = set (map path es) then Inr ()
       else Inl (case validateStatus b (map untracked_record (map path es)) of Inl e \<Rightarrow> e))
     \<and> (set (untrackedFiles b) \<noteq> set (map path es) \<longrightarrow>
         (\<exists>m. validateStatus b (map untracked_record (map path es)) = Inl (RestoreValidationError m)))"
    using assms(2)
    by (auto simp: validateStatus_def Let_def untracked_record_def blank_def trim_def trim_start_def
        filter_empty_conv o_def)
  have ex: "set (untrackedFiles b) = set (map path es) \<Longrightarrow>
      checkExist (disk_deps r) r (untrackedFiles b) ?w = (Inr (), ?w)"
    using assms(3) map_of_placed [of r ?fs]
    by (intro checkExist_disk [OF assms(1)]) (auto simp: map_of_eq_None_iff image_image)
  show ?thesis
  proof (cases "set (untrackedFiles b) = set (map path es)")
    case True
    with val ex show ?thesis
      by (simp add: restoreFinish_def bindC_def thenC_def wr out liftE_def ret_def)
  next
    case False
    then obtain m where "validateStatus b (map untracked_record (map path es)) = Inl (RestoreValidationError m)"
      using val by blast
    with False show ?thesis
      by (simp add: restoreFinish_def bindC_def thenC_def wr out liftE_def throwC_def ret_def)
  qed
qed

lemma restore_disk:
  assumes "good_root r" "patchDiff b = []" "\<forall>e \<in> set es. good_name (path e)" "distinct (map path es)"
    and "files w = []" "createUntrackedTar es = Inr (untrackedTar b)"
    and "objects w key = Some (serializeBundle b)" "well_formed_bundle b"
  shows "restoreWorkspace (disk_deps r) tmp r None None key w = Some (restoreFinish (disk_deps r) r b es w)"
proof -
  have "\<forall>e \<in> set es. storable e"
  proof
    fix e assume "e \<in> set es"
    then have "good_name (path e)" using assms(3) by simp
    then show "storable e" using good_nameD(2,8) by (simp add: storable_def good_name_def)
  qed
  moreover have "map normalised es = es"
  proof (rule map_idI)
    fix e assume "e \<in> set es"
    then have "to_slashes (path e) = path e" using assms(3) good_nameD(8) by simp
    then show "normalised e = e" by (simp add: normalised_def)
  qed
  ultimately have "extractTar (untrackedTar b) = Some (Inr es)"
    using tar_read_back [OF assms(6)] by (simp add: extractTar_def)
  moreover have "untrackedTar b \<noteq> []"
    using assms(6) by (auto simp: createUntrackedTar_def BLOCK_def zeros_def)
  ultimately show ?thesis
    by (simp add: restoreWorkspace_def restoreFetch_disk [OF assms(2,7,8)])
qed


definition sampleDisk :: "(string \<times> string) list \<Rightarrow> string list \<Rightarrow> disk" where
  "sampleDisk fs ns = \<lparr>files = placed ''/w'' fs, listed = ns, objects = Map.empty\<rparr>"

definition holding :: "CheckpointBundle \<Rightarrow> disk" where
  "holding b = (sampleDisk [] [])\<lparr>objects := [''k'' \<mapsto> serializeBundle b]\<rparr>"

lemma sample_root: "good_root ''/w''"
  unfolding good_root_def by (intro exI [of _ "[''w'']"]) (simp add: join_segs_def plain_segment_def)

lemma sample_name: "good_name ''a''"
proof -
  have "\<exists>segs. ''a'' = join_segs segs \<and> segs \<noteq> [] \<and> (\<forall>s \<in> set segs. plain_segment s)"
    by (intro exI [of _ "[''a'']"]) (simp add: join_segs_def plain_segment_def)
  moreover have "tar_text ''a''" by (rule ascii_tar_text) (simp add: byte_def)
  ultimately show ?thesis by (simp add: good_name_def trim_def trim_start_def is_space_def in_range_def byte_def)
qed

lemma sample_not_excluded: "\<not> isExcluded ''a''"
  by code_simp

lemma create_sample:
  assumes "createUntrackedTar (map (\<lambda>f. \<lparr>path = f, content = the (map_of fs f)\<rparr>)
       (filter (\<lambda>f. map_of fs f \<noteq> None) [''a''])) = Inr t"
  shows "\<exists>b. createCheckpointBundle (disk_deps ''/w'') ''/w'' ''c'' (sampleDisk fs [''a'']) = (Inr b, sampleDisk fs [''a''])"
proof -
  have "listedFiles (''a'' @ [newline]) = [''a'']" using listedFiles_good [of "[''a'']"] sample_name by simp
  moreover have "filterExcluded [''a''] = [''a'']" by (simp add: filterExcluded_def sample_not_excluded)
  moreover have "readEntries (disk_deps ''/w'') ''/w'' [''a''] (sampleDisk fs [''a''])
      = (Inr (map (\<lambda>f. \<lparr>path = f, content = the (map_of fs f)\<rparr>) (filter (\<lambda>f. map_of fs f \<noteq> None) [''a''])),
         sampleDisk fs [''a''])"
    by (rule readEntries_placed) (simp add: sampleDisk_def)
  ultimately show ?thesis
    using assms good_rootD(2) [OF sample_root]
    by (simp add: createCheckpointBundle_def returns_simps collaborators_return disk_git_def sampleDisk_def Let_def
        del: readEntries.simps)
qed


text \<open>A file that git lists but that cannot be read is skipped silently when the checkpoint is taken
  and yet stays in its list, so that no restore of the checkpoint is ever accepted.\<close>

theorem unreadable_file_blocks_restore:
  assumes "good_root r" "\<forall>f \<in> set ns. good_name f" "distinct ns"
    and "listed w = ns" "files w = placed r fs" "files w' = []"
    and "createCheckpointBundle (disk_deps r) r base w = (Inr b, w1)"
    and "f \<in> set ns" "map_of fs f = None" "\<not> isExcluded f"
    and "utf8 base" "objects w' key = Some (serializeBundle b)"
  shows "\<exists>m w2. restoreWorkspace (disk_deps r) tmp r None None key w'
     = Some (Inl (RestoreValidationError m), w2)"
proof -
  let ?ns = "filter (\<lambda>f. map_of fs f \<noteq> None) (filterExcluded ns)"
  let ?es = "map (\<lambda>f. \<lparr>path = f, content = the (map_of fs f)\<rparr>) ?ns"
  note c = create_outcome [OF assms(1) _ assms(5,7)]
  have listed: "\<forall>f \<in> set (listed w). good_name f" using assms(2,4) by simp
  have tar: "createUntrackedTar ?es = Inr (untrackedTar b)"
    using c(4) [OF listed] assms(4) by simp
  have paths: "map path ?es = ?ns" by (simp add: o_def)
  have good: "\<forall>e \<in> set ?es. good_name (path e)" using assms(2) by (auto simp: filterExcluded_def)
  have dist: "distinct (map path ?es)" unfolding paths using assms(3) by (simp add: filterExcluded_def)
  have "f \<in> set (untrackedFiles b)" "f \<notin> set ?ns"
    using c(1) [OF listed] assms(4,8-10) by (simp_all add: filterExcluded_def)
  then have "set (untrackedFiles b) \<noteq> set (map path ?es)" unfolding paths by blast
  with restoreFinish_disk [OF assms(1) c(2) [OF listed] good dist assms(6)]
  obtain m where "fst (restoreFinish (disk_deps r) r b ?es w') = Inl (RestoreValidationError m)" by blast
  then obtain w2 where "restoreFinish (disk_deps r) r b ?es w' = (Inl (RestoreValidationError m), w2)"
    by (cases "restoreFinish (disk_deps r) r b ?es w'") simp
  with restore_disk [OF assms(1) c(2) [OF listed] good dist assms(6) tar assms(12)
      created_well_formed [OF assms(1) listed assms(11,5,7)], of tmp]
  show ?thesis by auto
qed

theorem unreadable_file_blocks_restore_witness:
  "\<exists>b m w2. restoreWorkspace (disk_deps ''/w'') ''/tmp'' ''/w'' None None ''k'' (holding b)
     = Some (Inl (RestoreValidationError m), w2)"
proof -
  have "createUntrackedTar [] = Inr (zeros (BLOCK * 2))" by (simp add: createUntrackedTar_def andThen_def)
  then obtain b where b: "createCheckpointBundle (disk_deps ''/w'') ''/w'' ''c'' (sampleDisk [] [''a''])
      = (Inr b, sampleDisk [] [''a''])"
    using create_sample [of "[]"] by auto
  have "\<exists>m w2. restoreWorkspace (disk_deps ''/w'') ''/tmp'' ''/w'' None None ''k'' (holding b)
      = Some (Inl (RestoreValidationError m), w2)"
    by (rule unreadable_file_blocks_restore [OF sample_root _ _ _ _ _ b, where f = "''a''" and fs = "[]" and ns = "[''a'']"])
       (simp_all add: sample_name sampleDisk_def placed_def sample_not_excluded holding_def utf8_ascii byte_def)
  then show ?thesis by blast
qed

section \<open>What a successful restore has checked\<close>

text \<open>Whatever git, the file system and the storage do, a restore that reports success has seen a
  final git status in which every file the bundle lists is untracked, every untracked file is
  listed or introduced by the patch, and the tree is clean exactly if the bundle is empty.\<close>

theorem restore_success_validated:
  assumes "restoreWorkspace d tmpDir wd repoUrl base key w = Some (Inr (), w')"
  shows "\<exists>b records w0 w1 w2 r. restoreFetch d tmpDir wd repoUrl base key w = (Inr b, w0)
    \<and> git_run d [''status'', ''--porcelain'', ''-uall'', ''-z''] (Some wd) w1 = (Inr r, w2)
    \<and> exitCode r = 0 \<and> parsePorcelainZ (stdout r) = Inr records
    \<and> set (untrackedFiles b) \<subseteq> recordPath ` {r \<in> set records. index r = CHR ''?'' \<and> workTree r = CHR ''?''}
    \<and> recordPath ` {r \<in> set records. index r = CHR ''?'' \<and> workTree r = CHR ''?''}
         \<subseteq> set (untrackedFiles b) \<union> set (extractPatchNewFiles (patchDiff b))
    \<and> (records = [] \<longleftrightarrow> blank (patchDiff b) \<and> untrackedFiles b = [])"
proof -
  obtain b w0 es where fetch: "restoreFetch d tmpDir wd repoUrl base key w = (Inr b, w0)"
    and fin: "restoreFinish d wd b es w0 = (Inr (), w')"
    using assms by (auto simp: restoreWorkspace_def split: prod.splits sum.splits option.splits if_splits)
  from restoreFinish_ok [OF fin] obtain w1 w2 r records
    where st: "git_run d [''status'', ''--porcelain'', ''-uall'', ''-z''] (Some wd) w1 = (Inr r, w2)"
      "exitCode r = 0" "parsePorcelainZ (stdout r) = Inr records" "validateStatus b records = Inr ()" by blast
  note v = validateStatus_ok [OF st(4)]
  show ?thesis
    by (intro exI [of _ b] exI [of _ records] exI [of _ w0] exI [of _ w1] exI [of _ w2] exI [of _ r] conjI
        fetch st(1-3) v)
qed

definition emptyBundle :: CheckpointBundle where
  "emptyBundle = \<lparr>manifest = \<lparr>version = 1, baseCommit = ''c'', createdAt = [], patch = [], untracked = []\<rparr>,
     patchDiff = [], untrackedFiles = [], untrackedTar = []\<rparr>"

theorem restore_success_validated_witness:
  "\<exists>w1 w2 r. git_run (disk_deps ''/w'') [''status'', ''--porcelain'', ''-uall'', ''-z''] (Some ''/w'') w1
       = (Inr r, w2) \<and> parsePorcelainZ (stdout r) = Inr []"
proof -
  have fin: "restoreFinish (disk_deps ''/w'') ''/w'' emptyBundle [] (holding emptyBundle)
      = (Inr (), holding emptyBundle)"
    using restoreFinish_disk [OF sample_root, of emptyBundle "[]" "holding emptyBundle"]
    by (simp add: emptyBundle_def sampleDisk_def placed_def holding_def)
  have "well_formed_bundle emptyBundle" by code_simp
  then have fetch: "restoreFetch (disk_deps ''/w'') ''/tmp'' ''/w'' None None ''k'' (holding emptyBundle) = (Inr emptyBundle, holding emptyBundle)"
    by (intro restoreFetch_disk) (simp_all add: emptyBundle_def holding_def)
  then have "restoreWorkspace (disk_deps ''/w'') ''/tmp'' ''/w'' None None ''k'' (holding emptyBundle)
      = Some (Inr (), holding emptyBundle)"
    using fin by (simp add: restoreWorkspace_def) (simp add: emptyBundle_def)
  from restore_success_validated [OF this] fetch show ?thesis
    by (auto simp: emptyBundle_def blank_def trim_def trim_start_def)
qed

end
