(* ===== verification/Database.thy ===== *)
theory Database
  imports Runtime_State Lease Json
begin

text \<open>
  The tables of \<open>infra/migrations\<close> that the persistence repository uses, and the statements it sends,
  by their documented effect on PostgreSQL: keys and references are enforced, \<open>now()\<close> is a field of
  the database, a transaction that throws is rolled back. Any statement, and any commit, may also
  fail for reasons of the server: \<open>outages\<close> scripts the next outcomes, and when it is used up
  statements succeed. A transaction is one step, as the row locks it takes make it.
\<close>

section \<open>Rows\<close>

record WorkspaceRow =
  row_id :: string
  owner_id :: string
  repository_owner :: string
  repository_name :: string
  base_branch :: string
  instance_name :: "string option"
  instance_url :: "string option"
  runtime_state_col :: runtime_state
  last_error :: "string option"
  last_activity_at :: "int option"
  created_at :: int
  updated_at :: int

record SessionRow =
  session_row_id :: string
  session_workspace :: string
  metadata_col :: json
  session_created_at :: int
  session_updated_at :: int

record EventRow =
  ev_session :: string
  ev_seq :: nat
  ev_type :: string
  ev_time :: int
  ev_data :: json
  ev_sources :: "json option"
  ev_surface :: "json option"

record CheckpointRow =
  ck_id :: string
  ck_workspace :: string
  ck_base_commit :: string
  ck_gcs_object :: string
  ck_created_at :: int

record SessionAuthRow =
  auth_id :: string
  token_hash :: string
  auth_user_id :: string
  github_user_id :: nat
  github_login :: string
  auth_created_at :: int
  auth_expires_at :: int

record LoginFlowRow =
  state_hash :: string
  code_verifier :: string
  return_to :: "string option"
  binding_hash :: "string option"
  flow_expires_at :: int

record db =
  workspaces :: "WorkspaceRow list"
  sessions :: "SessionRow list"
  session_events :: "EventRow list"
  workspace_checkpoints :: "CheckpointRow list"
  leases_table :: lease_rows
  auth_sessions :: "SessionAuthRow list"
  oauth_login_flows :: "LoginFlowRow list"
  db_now :: int
  outages :: "bool list"

definition empty_db :: "int \<Rightarrow> bool list \<Rightarrow> db" where
  "empty_db t os = \<lparr>workspaces = [], sessions = [], session_events = [], workspace_checkpoints = [],
     leases_table = Map.empty, auth_sessions = [], oauth_login_flows = [], db_now = t, outages = os\<rparr>"

datatype repo_error = DbError string | RepoError string | GapDetected string nat nat

type_synonym 'a sql = "(db, repo_error, 'a) comp"

section \<open>Statements and transactions\<close>

definition sql :: "'a sql \<Rightarrow> 'a sql" where
  "sql f = (\<lambda>d. case outages d of
       [] \<Rightarrow> f d
     | True # os \<Rightarrow> (Inl (DbError ''unavailable''), d\<lparr>outages := os\<rparr>)
     | False # os \<Rightarrow> f (d\<lparr>outages := os\<rparr>))"

definition select :: "(db \<Rightarrow> 'a) \<Rightarrow> 'a sql" where
  "select q = sql (getC q)"

definition violates :: "string \<Rightarrow> 'a sql" where
  "violates c = throwC (DbError (''violates constraint '' @ c))"

definition transactionC :: "'a sql \<Rightarrow> 'a sql" where
  "transactionC body = (\<lambda>d. case body d of
       (Inl e, d') \<Rightarrow> (Inl e, d\<lparr>outages := outages d'\<rparr>)
     | (Inr a, d') \<Rightarrow> (case sql (ret ()) d' of
           (Inl e, d'') \<Rightarrow> (Inl e, d\<lparr>outages := outages d''\<rparr>)
         | (Inr _, d'') \<Rightarrow> (Inr a, d'')))"

section \<open>The table of workspaces\<close>

definition workspace_row :: "string \<Rightarrow> db \<Rightarrow> WorkspaceRow option" where
  "workspace_row i d = List.find (\<lambda>r. row_id r = i) (workspaces d)"

definition name_taken :: "string option \<Rightarrow> string \<Rightarrow> db \<Rightarrow> bool" where
  "name_taken n i d \<longleftrightarrow> n \<noteq> None \<and> (\<exists>r \<in> set (workspaces d). row_id r \<noteq> i \<and> instance_name r = n)"

definition insert_workspace :: "WorkspaceRow \<Rightarrow> unit sql" where
  "insert_workspace r = sql (\<lambda>d.
     if workspace_row (row_id r) d \<noteq> None then violates ''workspaces_pkey'' d
     else if name_taken (instance_name r) (row_id r) d then violates ''workspaces_instance_name_key'' d
     else (Inr (), d\<lparr>workspaces := workspaces d @ [r\<lparr>created_at := db_now d, updated_at := db_now d\<rparr>]\<rparr>))"

definition update_workspace :: "string \<Rightarrow> (WorkspaceRow \<Rightarrow> WorkspaceRow) \<Rightarrow> unit sql" where
  "update_workspace i f = sql (\<lambda>d.
     case workspace_row i d of
       None \<Rightarrow> (Inr (), d)
     | Some r \<Rightarrow>
         if name_taken (instance_name (f r)) i d then violates ''workspaces_instance_name_key'' d
         else (Inr (), d\<lparr>workspaces := map (\<lambda>r. if row_id r = i then (f r)\<lparr>updated_at := db_now d\<rparr> else r)
                                       (workspaces d)\<rparr>))"

definition delete_workspace_row :: "string \<Rightarrow> unit sql" where
  "delete_workspace_row i = sql (\<lambda>d.
     if workspace_row i d \<noteq> None \<and>
        ((\<exists>s \<in> set (sessions d). session_workspace s = i)
         \<or> (\<exists>c \<in> set (workspace_checkpoints d). ck_workspace c = i) \<or> leases_table d i \<noteq> None)
     then violates ''workspaces is still referenced'' d
     else (Inr (), d\<lparr>workspaces := filter (\<lambda>r. row_id r \<noteq> i) (workspaces d)\<rparr>))"

section \<open>The tables of sessions and events\<close>

definition session_row :: "string \<Rightarrow> db \<Rightarrow> SessionRow option" where
  "session_row i d = List.find (\<lambda>s. session_row_id s = i) (sessions d)"

definition insert_session :: "SessionRow \<Rightarrow> unit sql" where
  "insert_session s = sql (\<lambda>d.
     if session_row (session_row_id s) d \<noteq> None then violates ''sessions_pkey'' d
     else if workspace_row (session_workspace s) d = None then violates ''sessions_workspace_id_fkey'' d
     else (Inr (), d\<lparr>sessions := sessions d @ [s\<lparr>session_created_at := db_now d, session_updated_at := db_now d\<rparr>]\<rparr>))"

definition events_of :: "string \<Rightarrow> db \<Rightarrow> EventRow list" where
  "events_of i d = sort_key ev_seq (filter (\<lambda>e. ev_session e = i) (session_events d))"

definition max_seq :: "string \<Rightarrow> db \<Rightarrow> nat option" where
  "max_seq i d = (case events_of i d of [] \<Rightarrow> None | es \<Rightarrow> Some (ev_seq (last es)))"

definition insert_event :: "EventRow \<Rightarrow> unit sql" where
  "insert_event e = sql (\<lambda>d.
     if session_row (ev_session e) d = None then violates ''session_events_session_id_fkey'' d
     else if \<exists>x \<in> set (session_events d). ev_session x = ev_session e \<and> ev_seq x = ev_seq e
     then violates ''session_events_pkey'' d
     else (Inr (), d\<lparr>session_events := session_events d @ [e]\<rparr>))"

definition delete_events_of_workspace :: "string \<Rightarrow> unit sql" where
  "delete_events_of_workspace i = sql (modifyC (\<lambda>d. d\<lparr>session_events := filter (\<lambda>e.
     \<not> (\<exists>s \<in> set (sessions d). session_row_id s = ev_session e \<and> session_workspace s = i)) (session_events d)\<rparr>))"

definition delete_sessions_of_workspace :: "string \<Rightarrow> unit sql" where
  "delete_sessions_of_workspace i = sql (\<lambda>d.
     if \<exists>s \<in> set (sessions d). session_workspace s = i
          \<and> (\<exists>e \<in> set (session_events d). ev_session e = session_row_id s)
     then violates ''sessions is still referenced'' d
     else (Inr (), d\<lparr>sessions := filter (\<lambda>s. session_workspace s \<noteq> i) (sessions d)\<rparr>))"

section \<open>The tables of checkpoints and leases\<close>

definition insert_checkpoint :: "CheckpointRow \<Rightarrow> CheckpointRow list sql" where
  "insert_checkpoint c = sql (\<lambda>d.
     if \<exists>x \<in> set (workspace_checkpoints d). ck_id x = ck_id c then violates ''workspace_checkpoints_pkey'' d
     else if workspace_row (ck_workspace c) d = None then violates ''workspace_checkpoints_workspace_id_fkey'' d
     else let r = c\<lparr>ck_created_at := db_now d\<rparr> in
       (Inr [r], d\<lparr>workspace_checkpoints := workspace_checkpoints d @ [r]\<rparr>))"

definition delete_checkpoints_of_workspace :: "string \<Rightarrow> unit sql" where
  "delete_checkpoints_of_workspace i = sql (modifyC (\<lambda>d.
     d\<lparr>workspace_checkpoints := filter (\<lambda>c. ck_workspace c \<noteq> i) (workspace_checkpoints d)\<rparr>))"

definition delete_lease_of_workspace :: "string \<Rightarrow> unit sql" where
  "delete_lease_of_workspace i = sql (modifyC (\<lambda>d. d\<lparr>leases_table := (leases_table d)(i := None)\<rparr>))"

end
