(* ===== verification/Repository.thy ===== *)
theory Repository
  imports Database
begin

text \<open>
  \<open>PostgresSessionPersistenceRepository\<close> (\<open>packages/session-persistence-postgres/src/repository.ts\<close>):
  every operation, over the statements of theory \<open>Database\<close>. A JSON column comes back from the driver
  as a parsed value; the repository parses it once more when that value is a string.
\<close>

section \<open>Values\<close>

text \<open>A time stamp text: one that \<open>Date.parse\<close> reads, with its milliseconds, or any other text.\<close>

datatype stamp = ISO int | Unreadable string

fun date_parse :: "stamp \<Rightarrow> int option" where
  "date_parse (ISO n) = Some n"
| "date_parse (Unreadable _) = None"

record Workspace =
  w_id :: string
  ownerId :: string
  repositoryOwner :: string
  repositoryName :: string
  baseBranch :: string
  instanceName :: "string option"
  instanceUrl :: "string option"
  runtimeState :: runtime_state
  lastError :: "string option"
  lastActivityAt :: "stamp option"
  w_createdAt :: stamp
  w_updatedAt :: stamp

record CreateWorkspaceInput =
  in_id :: string
  in_ownerId :: string
  in_repositoryOwner :: string
  in_repositoryName :: string
  in_baseBranch :: string
  in_instanceName :: "string option"
  in_instanceUrl :: "string option"
  in_runtimeState :: "runtime_state option"

text \<open>In a patch, \<open>None\<close> is \<open>undefined\<close> and \<open>Some None\<close> is \<open>null\<close>.\<close>

record UpdateWorkspacePatch =
  p_runtimeState :: "runtime_state option"
  p_lastActivityAt :: "stamp option option"
  p_instanceName :: "string option option"
  p_instanceUrl :: "string option option"
  p_lastError :: "string option option"

definition no_patch :: UpdateWorkspacePatch where
  "no_patch = \<lparr>p_runtimeState = None, p_lastActivityAt = None, p_instanceName = None,
     p_instanceUrl = None, p_lastError = None\<rparr>"

record Session =
  s_id :: string
  s_workspaceId :: string
  metadata :: json
  s_createdAt :: stamp
  s_updatedAt :: stamp

record NewSessionEvent =
  eventType :: string
  eventTime :: int
  data :: json
  sourceEventSeqs :: "json option"
  surfaceOp :: "json option"

record SessionEvent = NewSessionEvent +
  e_sessionId :: string
  seq :: nat

record WorkspaceCheckpoint =
  c_id :: string
  c_workspaceId :: string
  baseCommitSha :: string
  gcsObject :: string
  c_createdAt :: stamp

definition rowToWorkspace :: "WorkspaceRow \<Rightarrow> Workspace" where
  "rowToWorkspace r = \<lparr>w_id = row_id r, ownerId = owner_id r, repositoryOwner = repository_owner r,
     repositoryName = repository_name r, baseBranch = base_branch r, instanceName = instance_name r,
     instanceUrl = instance_url r, runtimeState = runtime_state_col r, lastError = last_error r,
     lastActivityAt = map_option ISO (last_activity_at r), w_createdAt = ISO (created_at r),
     w_updatedAt = ISO (updated_at r)\<rparr>"

text \<open>\<open>metadata ?? {}\<close>.\<close>

definition rowToSession :: "SessionRow \<Rightarrow> Session" where
  "rowToSession r = \<lparr>s_id = session_row_id r, s_workspaceId = session_workspace r,
     metadata = (if metadata_col r = JNull then JObj [] else metadata_col r),
     s_createdAt = ISO (session_created_at r), s_updatedAt = ISO (session_updated_at r)\<rparr>"

definition rowToCheckpoint :: "CheckpointRow \<Rightarrow> WorkspaceCheckpoint" where
  "rowToCheckpoint r = \<lparr>c_id = ck_id r, c_workspaceId = ck_workspace r, baseCommitSha = ck_base_commit r,
     gcsObject = ck_gcs_object r, c_createdAt = ISO (ck_created_at r)\<rparr>"

text \<open>A JSON column that the driver gives as a string is parsed, and left as it is if it does not parse.\<close>

definition decodeColumn :: "json \<Rightarrow> json" where
  "decodeColumn v = (case v of
       JStr s \<Rightarrow> (case json_parse s of Some w \<Rightarrow> w | None \<Rightarrow> v)
     | _ \<Rightarrow> v)"

text \<open>The value of a nullable column: SQL NULL is \<open>null\<close>, never \<open>undefined\<close>.\<close>

definition nullable :: "json option \<Rightarrow> json option" where
  "nullable c = Some (case c of None \<Rightarrow> JNull | Some v \<Rightarrow> decodeColumn v)"

definition rowToEvent :: "EventRow \<Rightarrow> SessionEvent" where
  "rowToEvent r = \<lparr>eventType = ev_type r, eventTime = ev_time r, data = decodeColumn (ev_data r),
     sourceEventSeqs = nullable (ev_sources r), surfaceOp = nullable (ev_surface r),
     e_sessionId = ev_session r, seq = ev_seq r\<rparr>"

definition truthy :: "json \<Rightarrow> bool" where
  "truthy v \<longleftrightarrow> v \<noteq> JNull \<and> v \<noteq> JBool False \<and> v \<noteq> JNum 0 \<and> v \<noteq> JStr []"

section \<open>Workspaces\<close>

definition getWorkspace :: "string \<Rightarrow> Workspace option sql" where
  "getWorkspace i = select (\<lambda>d. map_option rowToWorkspace (workspace_row i d))"

definition fetchOr :: "string \<Rightarrow> string \<Rightarrow> Workspace sql" where
  "fetchOr msg i = bindC (getWorkspace i) (\<lambda>w. case w of
       None \<Rightarrow> throwC (RepoError (msg @ i))
     | Some w \<Rightarrow> ret w)"

definition createWorkspace :: "CreateWorkspaceInput \<Rightarrow> Workspace sql" where
  "createWorkspace inp =
     thenC (insert_workspace \<lparr>row_id = in_id inp, owner_id = in_ownerId inp,
         repository_owner = in_repositoryOwner inp, repository_name = in_repositoryName inp,
         base_branch = in_baseBranch inp, instance_name = in_instanceName inp,
         instance_url = in_instanceUrl inp,
         runtime_state_col = (case in_runtimeState inp of None \<Rightarrow> STOPPED | Some st \<Rightarrow> st),
         last_error = None, last_activity_at = None, created_at = 0, updated_at = 0\<rparr>)
       (fetchOr ''failed to create workspace '' (in_id inp))"

definition listWorkspaces :: "Workspace list sql" where
  "listWorkspaces = select (\<lambda>d. map rowToWorkspace (sort_key created_at (workspaces d)))"

definition listWorkspacesByIds :: "string list \<Rightarrow> Workspace list sql" where
  "listWorkspacesByIds ids =
     (if ids = [] then ret []
      else select (\<lambda>d. map rowToWorkspace (sort_key created_at (filter (\<lambda>r. row_id r \<in> set ids) (workspaces d)))))"

text \<open>The columns the SET clause of a patch assigns; a text that is no time stamp fails the statement.\<close>

definition apply_patch :: "UpdateWorkspacePatch \<Rightarrow> WorkspaceRow \<Rightarrow> WorkspaceRow" where
  "apply_patch p r =
     (let r1 = (case p_runtimeState p of None \<Rightarrow> r | Some st \<Rightarrow> r\<lparr>runtime_state_col := st\<rparr>);
          r2 = (case p_lastActivityAt p of None \<Rightarrow> r1
                | Some t \<Rightarrow> r1\<lparr>last_activity_at := (case t of None \<Rightarrow> None | Some u \<Rightarrow> date_parse u)\<rparr>);
          r3 = (case p_instanceName p of None \<Rightarrow> r2 | Some n \<Rightarrow> r2\<lparr>instance_name := n\<rparr>);
          r4 = (case p_instanceUrl p of None \<Rightarrow> r3 | Some u \<Rightarrow> r3\<lparr>instance_url := u\<rparr>) in
      case p_lastError p of None \<Rightarrow> r4 | Some e \<Rightarrow> r4\<lparr>last_error := e\<rparr>)"

definition bad_stamp :: "UpdateWorkspacePatch \<Rightarrow> bool" where
  "bad_stamp p \<longleftrightarrow> (case p_lastActivityAt p of Some (Some t) \<Rightarrow> date_parse t = None | _ \<Rightarrow> False)"

definition updateWorkspace :: "string \<Rightarrow> UpdateWorkspacePatch \<Rightarrow> Workspace sql" where
  "updateWorkspace i p =
     (if p = no_patch then fetchOr ''workspace not found: '' i
      else thenC (if bad_stamp p then sql (throwC (DbError ''invalid timestamp''))
                  else update_workspace i (apply_patch p))
             (fetchOr ''workspace not found after update: '' i))"

definition updateRuntimeState :: "string \<Rightarrow> runtime_state \<Rightarrow> Workspace sql" where
  "updateRuntimeState i st = updateWorkspace i (no_patch\<lparr>p_runtimeState := Some st\<rparr>)"

definition updateLastActivityAt :: "string \<Rightarrow> stamp \<Rightarrow> Workspace sql" where
  "updateLastActivityAt i t = updateWorkspace i (no_patch\<lparr>p_lastActivityAt := Some (Some t)\<rparr>)"

text \<open>Both failure writes read the locked row first and write only in the states they are for.\<close>

definition fetchIf :: "string \<Rightarrow> bool \<Rightarrow> Workspace option sql" where
  "fetchIf i marked =
     (if \<not> marked then ret None
      else bindC (fetchOr ''workspace not found after update: '' i) (\<lambda>w. ret (Some w)))"

definition markRestoreFailedIfStarting :: "string \<Rightarrow> string \<Rightarrow> Workspace option sql" where
  "markRestoreFailedIfStarting i e =
     bindC (transactionC (bindC (select (workspace_row i)) (\<lambda>row. case row of
         None \<Rightarrow> ret False
       | Some r \<Rightarrow>
           if runtime_state_col r \<noteq> STARTING \<and> runtime_state_col r \<noteq> RESTORING then ret False
           else thenC (update_workspace i (\<lambda>r. r\<lparr>runtime_state_col := RESTORE_FAILED, last_error := Some e\<rparr>))
                  (ret True))))
       (fetchIf i)"

definition recordRestoreErrorIfFailed :: "string \<Rightarrow> string \<Rightarrow> Workspace option sql" where
  "recordRestoreErrorIfFailed i e =
     bindC (transactionC (bindC (select (workspace_row i)) (\<lambda>row. case row of
         None \<Rightarrow> ret False
       | Some r \<Rightarrow>
           if runtime_state_col r = STARTING \<or> runtime_state_col r = RESTORING
           then thenC (update_workspace i (\<lambda>r. r\<lparr>runtime_state_col := RESTORE_FAILED, last_error := Some e\<rparr>))
                  (ret True)
           else if runtime_state_col r = RESTORE_FAILED \<and> last_error r = None
           then thenC (update_workspace i (\<lambda>r. r\<lparr>last_error := Some e\<rparr>)) (ret True)
           else ret False)))
       (fetchIf i)"

definition deleteWorkspace :: "string \<Rightarrow> bool sql" where
  "deleteWorkspace i =
     transactionC (bindC (select (workspace_row i)) (\<lambda>row. case row of
         None \<Rightarrow> ret False
       | Some r \<Rightarrow>
           thenC (delete_events_of_workspace i)
          (thenC (delete_sessions_of_workspace i)
          (thenC (delete_checkpoints_of_workspace i)
          (thenC (delete_lease_of_workspace i)
          (thenC (delete_workspace_row i) (ret True)))))))"

section \<open>Sessions\<close>

definition decode_metadata :: "SessionRow \<Rightarrow> SessionRow" where
  "decode_metadata r = r\<lparr>metadata_col := decodeColumn (metadata_col r)\<rparr>"

definition getSession :: "string \<Rightarrow> Session option sql" where
  "getSession i = select (\<lambda>d. map_option (rowToSession \<circ> decode_metadata) (session_row i d))"

definition createSession :: "string \<Rightarrow> string \<Rightarrow> json option \<Rightarrow> Session sql" where
  "createSession i w m =
     thenC (insert_session \<lparr>session_row_id = i, session_workspace = w,
         metadata_col = (case m of None \<Rightarrow> JObj [] | Some v \<Rightarrow> v), session_created_at = 0, session_updated_at = 0\<rparr>)
       (bindC (getSession i) (\<lambda>s. case s of
            None \<Rightarrow> throwC (RepoError (''failed to create session '' @ i))
          | Some s \<Rightarrow> ret s))"

definition listSessions :: "string \<Rightarrow> Session list sql" where
  "listSessions w = select (\<lambda>d. map (rowToSession \<circ> decode_metadata)
     (sort_key session_created_at (filter (\<lambda>s. session_workspace s = w) (sessions d))))"

section \<open>The event log\<close>

definition event_row :: "string \<Rightarrow> nat \<Rightarrow> NewSessionEvent \<Rightarrow> EventRow" where
  "event_row i n e = \<lparr>ev_session = i, ev_seq = n, ev_type = eventType e, ev_time = eventTime e, ev_data = data e,
     ev_sources = (case sourceEventSeqs e of Some v \<Rightarrow> if truthy v then Some v else None | None \<Rightarrow> None),
     ev_surface = (case surfaceOp e of Some v \<Rightarrow> if truthy v then Some v else None | None \<Rightarrow> None)\<rparr>"

definition persisted_event :: "string \<Rightarrow> nat \<Rightarrow> NewSessionEvent \<Rightarrow> SessionEvent" where
  "persisted_event i n e = \<lparr>eventType = eventType e, eventTime = eventTime e, data = data e,
     sourceEventSeqs = sourceEventSeqs e, surfaceOp = surfaceOp e, e_sessionId = i, seq = n\<rparr>"

fun insert_events :: "string \<Rightarrow> nat \<Rightarrow> NewSessionEvent list \<Rightarrow> SessionEvent list sql" where
  "insert_events i n [] = ret []"
| "insert_events i n (e # es) =
     thenC (insert_event (event_row i n e))
       (bindC (insert_events i (Suc n) es) (\<lambda>ps. ret (persisted_event i n e # ps)))"

text \<open>The first position of a sorted list of sequence numbers that does not hold its own index.\<close>

fun first_gap :: "nat \<Rightarrow> nat list \<Rightarrow> (nat \<times> nat) option" where
  "first_gap k [] = None"
| "first_gap k (n # ns) = (if n \<noteq> k then Some (k, n) else first_gap (Suc k) ns)"

definition gap_check :: "string \<Rightarrow> nat list \<Rightarrow> unit sql" where
  "gap_check i ns = (case first_gap 0 ns of
       None \<Rightarrow> ret ()
     | Some (expected, found) \<Rightarrow> throwC (GapDetected i expected found))"

definition append_body :: "string \<Rightarrow> NewSessionEvent list \<Rightarrow> SessionEvent list sql" where
  "append_body i es =
     bindC (select (session_row i)) (\<lambda>row. case row of
         None \<Rightarrow> throwC (RepoError (''session not found: '' @ i))
       | Some _ \<Rightarrow>
           bindC (select (max_seq i)) (\<lambda>currentMax.
           bindC (insert_events i (case currentMax of None \<Rightarrow> 0 | Some m \<Rightarrow> Suc m) es) (\<lambda>persisted.
           bindC (select (\<lambda>d. sort (map ev_seq (events_of i d)))) (\<lambda>seqs.
             thenC (gap_check i seqs) (ret persisted)))))"

definition append_events :: "string \<Rightarrow> NewSessionEvent list \<Rightarrow> SessionEvent list sql" where
  "append_events i es = (if es = [] then ret [] else transactionC (append_body i es))"

definition readEvents :: "string \<Rightarrow> nat option \<Rightarrow> SessionEvent list sql" where
  "readEvents i from_seq =
     select (\<lambda>d. map rowToEvent (case from_seq of
         None \<Rightarrow> events_of i d
       | Some n \<Rightarrow> filter (\<lambda>e. n \<le> ev_seq e) (events_of i d)))"

definition assertContiguous :: "string \<Rightarrow> unit sql" where
  "assertContiguous i = bindC (readEvents i None) (\<lambda>es. gap_check i (map seq es))"

section \<open>Checkpoints\<close>

text \<open>The identifier is the database's \<open>gen_random_uuid()\<close>, an argument here.\<close>

definition recordCheckpoint :: "string \<Rightarrow> string \<Rightarrow> string \<Rightarrow> string \<Rightarrow> WorkspaceCheckpoint sql" where
  "recordCheckpoint uuid w sha obj =
     bindC (insert_checkpoint \<lparr>ck_id = uuid, ck_workspace = w, ck_base_commit = sha, ck_gcs_object = obj, ck_created_at = 0\<rparr>)
       (\<lambda>rows. case rows of
          [] \<Rightarrow> throwC (RepoError (''failed to record checkpoint for workspace '' @ w))
        | r # _ \<Rightarrow> ret (rowToCheckpoint r))"

definition listCheckpoints :: "string \<Rightarrow> WorkspaceCheckpoint list sql" where
  "listCheckpoints w = select (\<lambda>d. map rowToCheckpoint
     (sort_key ck_created_at (filter (\<lambda>c. ck_workspace c = w) (workspace_checkpoints d))))"

end
