(* ===== verification/Repository_Props.thy ===== *)
theory Repository_Props
  imports Repository
begin

text \<open>
  What the persistence repository keeps: the keys and references of the tables and the contiguous
  numbering of each event log, through every operation, outage and rollback; what an append stores;
  the compare-and-set of the failure writes; the completeness of a deletion.
\<close>

section \<open>Consistent tables\<close>

definition keys_ok :: "db \<Rightarrow> bool" where
  "keys_ok d \<longleftrightarrow> distinct (map row_id (workspaces d)) \<and> distinct (map session_row_id (sessions d))
     \<and> distinct (map ck_id (workspace_checkpoints d))"

definition refs_ok :: "db \<Rightarrow> bool" where
  "refs_ok d \<longleftrightarrow>
     (\<forall>s \<in> set (sessions d). session_workspace s \<in> row_id ` set (workspaces d))
   \<and> (\<forall>e \<in> set (session_events d). ev_session e \<in> session_row_id ` set (sessions d))
   \<and> (\<forall>c \<in> set (workspace_checkpoints d). ck_workspace c \<in> row_id ` set (workspaces d))
   \<and> (\<forall>i. leases_table d i \<noteq> None \<longrightarrow> i \<in> row_id ` set (workspaces d))"

definition contiguous :: "string \<Rightarrow> db \<Rightarrow> bool" where
  "contiguous i d \<longleftrightarrow> map ev_seq (events_of i d) = [0..<length (events_of i d)]"

definition db_ok :: "db \<Rightarrow> bool" where
  "db_ok d \<longleftrightarrow> keys_ok d \<and> refs_ok d \<and> (\<forall>i. contiguous i d)"

text \<open>\<open>preserves m\<close>: whatever happens in \<open>m\<close>, consistent tables stay consistent.\<close>

abbreviation preserves :: "'a sql \<Rightarrow> bool" where
  "preserves m \<equiv> keeps (\<lambda>d d'. db_ok d \<longrightarrow> db_ok d') m"

lemma preserves_rel [simp, intro]: "reflp (\<lambda>d d'. P d \<longrightarrow> P d')" "transp (\<lambda>d d'. P d \<longrightarrow> P d')"
  by (auto intro: reflpI transpI)

lemma find_row: "List.find P xs = Some x \<Longrightarrow> x \<in> set xs \<and> P x"
  by (metis find_Some_iff nth_mem)

lemma workspace_row_iff [simp]:
  "workspace_row i d = None \<longleftrightarrow> i \<notin> row_id ` set (workspaces d)"
  by (auto simp: workspace_row_def find_None_iff)

lemma session_row_iff [simp]:
  "session_row i d = None \<longleftrightarrow> i \<notin> session_row_id ` set (sessions d)"
  by (auto simp: session_row_def find_None_iff)

lemma workspace_row_Some: "workspace_row i d = Some r \<Longrightarrow> r \<in> set (workspaces d) \<and> row_id r = i"
  by (auto simp: workspace_row_def dest: find_row)

text \<open>The clock and the script of outages do not matter for consistency.\<close>

lemma db_same_outages [simp]: "d\<lparr>outages := outages d\<rparr> = d" for d :: db
  by simp

lemma db_ok_outages [simp]: "db_ok (d\<lparr>outages := os\<rparr>) = db_ok d" "db_ok (d\<lparr>db_now := t\<rparr>) = db_ok d"
  by (simp_all add: db_ok_def keys_ok_def refs_ok_def contiguous_def events_of_def)

lemma keeps_sql:
  fixes f :: "'a sql"
  assumes "\<And>d. R d (snd (f d))" "\<And>(d :: db) os. R d (d\<lparr>outages := os\<rparr>)" "transp R"
  shows "keeps R (sql f)"
proof (rule keepsI)
  fix d :: db
  consider "outages d = []" | os where "outages d = True # os" | os where "outages d = False # os"
    by (metis list.exhaust)
  then show "R d (snd (sql f d))"
  proof cases
    case 1 then show ?thesis using assms(1) by (simp add: sql_def)
  next
    case 2 then show ?thesis using assms(2) by (simp add: sql_def)
  next
    case (3 os)
    have "R (d\<lparr>outages := os\<rparr>) (snd (f (d\<lparr>outages := os\<rparr>)))" by (rule assms(1))
    with assms(2,3) have "R d (snd (f (d\<lparr>outages := os\<rparr>)))" by (blast dest: transpD)
    then show ?thesis using 3 by (simp add: sql_def)
  qed
qed

lemma preserves_sql: "(\<And>d. db_ok d \<Longrightarrow> db_ok (snd (f d))) \<Longrightarrow> preserves (sql f)"
  by (rule keeps_sql) auto

lemma preserves_select [simp, intro]: "preserves (select q)"
  unfolding select_def by (rule preserves_sql) (simp add: getC_def)

lemma preserves_transaction:
  assumes "preserves body" shows "preserves (transactionC body)"
proof (rule keepsI)
  fix d
  obtain r d' where b: "body d = (r, d')" by fastforce
  then have ok: "db_ok d \<longrightarrow> db_ok d'" using assms by (rule keeps_run [rotated])
  have "preserves (sql (ret () :: unit sql))" by (rule preserves_sql) (simp add: ret_def)
  then have "db_ok d' \<longrightarrow> db_ok (snd (sql (ret ()) d'))" by (rule keepsD)
  with b ok show "db_ok d \<longrightarrow> db_ok (snd (transactionC body d))"
    by (auto simp: transactionC_def split: sum.splits prod.splits)
qed

section \<open>The statements keep consistency\<close>

lemma events_filtered:
  "events_of i (d\<lparr>session_events := filter P (session_events d)\<rparr>) =
     sort_key ev_seq (filter (\<lambda>e. ev_session e = i \<and> P e) (session_events d))"
  by (simp add: events_of_def conj_commute)

lemma preserves_insert_workspace: "preserves (insert_workspace r)"
  unfolding insert_workspace_def
  by (rule preserves_sql)
     (auto simp: db_ok_def keys_ok_def refs_ok_def contiguous_def events_of_def violates_def throwC_def)

lemma db_ok_same_ids:
  assumes "db_ok d" "map row_id ws = map row_id (workspaces d)" shows "db_ok (d\<lparr>workspaces := ws\<rparr>)"
proof -
  have "row_id ` set ws = row_id ` set (workspaces d)" using assms(2) by (metis set_map)
  with assms show ?thesis by (simp add: db_ok_def keys_ok_def refs_ok_def contiguous_def events_of_def)
qed

lemma preserves_update_workspace:
  assumes "\<And>r. row_id (f r) = row_id r" shows "preserves (update_workspace i f)"
  unfolding update_workspace_def
proof (rule preserves_sql)
  fix d assume ok: "db_ok d"
  let ?g = "\<lambda>r. if row_id r = i then (f r)\<lparr>updated_at := db_now d\<rparr> else r"
  have "db_ok (d\<lparr>workspaces := map ?g (workspaces d)\<rparr>)"
    using ok by (rule db_ok_same_ids) (simp add: assms)
  with ok show "db_ok (snd (case workspace_row i d of
       None \<Rightarrow> (Inr (), d)
     | Some r \<Rightarrow>
         if name_taken (instance_name (f r)) i d then violates ''workspaces_instance_name_key'' d
         else (Inr (), d\<lparr>workspaces := map ?g (workspaces d)\<rparr>)))"
    by (simp add: violates_def throwC_def split: option.split)
qed

lemma preserves_delete_workspace_row: "preserves (delete_workspace_row i)"
  unfolding delete_workspace_row_def
proof (rule preserves_sql)
  fix d assume ok: "db_ok d"
  show "db_ok (snd (if workspace_row i d \<noteq> None \<and>
        ((\<exists>s \<in> set (sessions d). session_workspace s = i)
         \<or> (\<exists>c \<in> set (workspace_checkpoints d). ck_workspace c = i) \<or> leases_table d i \<noteq> None)
     then violates ''workspaces is still referenced'' d
     else (Inr (), d\<lparr>workspaces := filter (\<lambda>r. row_id r \<noteq> i) (workspaces d)\<rparr>)))" (is "db_ok (snd (if ?c then _ else _))")
  proof (cases ?c)
    case True
    then show ?thesis using ok by (simp add: violates_def throwC_def)
  next
    case False
    have ids: "row_id ` set (filter (\<lambda>r. row_id r \<noteq> i) (workspaces d)) = row_id ` set (workspaces d) - {i}" by auto
    have "db_ok (d\<lparr>workspaces := filter (\<lambda>r. row_id r \<noteq> i) (workspaces d)\<rparr>)"
    proof (cases "i \<in> row_id ` set (workspaces d)")
      case True
      with False ok ids show ?thesis
        by (auto simp: db_ok_def keys_ok_def refs_ok_def contiguous_def events_of_def distinct_map_filter
            simp del: set_filter)
    next
      case False
      then have "filter (\<lambda>r. row_id r \<noteq> i) (workspaces d) = workspaces d" by (auto simp: filter_id_conv)
      with ok show ?thesis by simp
    qed
    with False show ?thesis by auto
  qed
qed

lemma preserves_insert_session: "preserves (insert_session s)"
  unfolding insert_session_def
  by (rule preserves_sql)
     (auto simp: db_ok_def keys_ok_def refs_ok_def contiguous_def events_of_def violates_def throwC_def)

lemma preserves_delete_events: "preserves (delete_events_of_workspace w)"
  unfolding delete_events_of_workspace_def
proof (rule preserves_sql)
  fix d assume ok: "db_ok d"
  let ?gone = "\<lambda>i. \<exists>s \<in> set (sessions d). session_row_id s = i \<and> session_workspace s = w"
  let ?d = "d\<lparr>session_events := filter (\<lambda>e. \<not> ?gone (ev_session e)) (session_events d)\<rparr>"
  have "events_of i ?d = (if ?gone i then [] else events_of i d)" for i
  proof -
    have "events_of i ?d = sort_key ev_seq (filter (\<lambda>e. ev_session e = i \<and> \<not> ?gone i) (session_events d))"
      unfolding events_filtered by (intro arg_cong [where f = "sort_key ev_seq"] filter_cong) auto
    then show ?thesis by (simp add: events_of_def)
  qed
  with ok have "\<forall>i. contiguous i ?d" by (simp add: db_ok_def contiguous_def)
  with ok show "db_ok (snd (modifyC (\<lambda>d. d\<lparr>session_events := filter (\<lambda>e.
      \<not> (\<exists>s \<in> set (sessions d). session_row_id s = ev_session e \<and> session_workspace s = w)) (session_events d)\<rparr>) d))"
    by (simp add: db_ok_def keys_ok_def refs_ok_def modifyC_def)
qed

lemma preserves_delete_sessions: "preserves (delete_sessions_of_workspace w)"
  unfolding delete_sessions_of_workspace_def
  by (rule preserves_sql)
     (fastforce simp: db_ok_def keys_ok_def refs_ok_def contiguous_def events_of_def violates_def throwC_def
        distinct_map_filter image_iff)

lemma preserves_insert_checkpoint: "preserves (insert_checkpoint c)"
  unfolding insert_checkpoint_def
  by (rule preserves_sql)
     (auto simp: db_ok_def keys_ok_def refs_ok_def contiguous_def events_of_def violates_def throwC_def Let_def)

lemma preserves_delete_checkpoints: "preserves (delete_checkpoints_of_workspace w)"
  unfolding delete_checkpoints_of_workspace_def
  by (rule preserves_sql)
     (auto simp: db_ok_def keys_ok_def refs_ok_def contiguous_def events_of_def modifyC_def distinct_map_filter)

lemma preserves_delete_lease: "preserves (delete_lease_of_workspace w)"
  unfolding delete_lease_of_workspace_def
  by (rule preserves_sql)
     (auto simp: db_ok_def keys_ok_def refs_ok_def contiguous_def events_of_def modifyC_def)

lemmas preserves_rules = keeps_then keeps_bind keeps_ret keeps_throw preserves_rel preserves_select
  preserves_insert_workspace preserves_update_workspace preserves_delete_workspace_row
  preserves_insert_session preserves_delete_events preserves_delete_sessions
  preserves_insert_checkpoint preserves_delete_checkpoints preserves_delete_lease

section \<open>The event log\<close>

lemma sort_key_append:
  assumes "\<forall>x \<in> set xs. \<forall>y \<in> set ys. f x < f y" "sort_key f ys = ys"
  shows "sort_key f (xs @ ys) = sort_key f xs @ ys"
proof -
  have ins: "insort_key f x (zs @ ys) = insort_key f x zs @ ys" if "\<forall>y \<in> set ys. f x < f y" for x zs
    using that by (induction zs) (cases ys; auto)+
  have "foldr (insort_key f) xs ys = sort_key f xs @ ys"
    using assms(1) by (induction xs) (simp_all add: ins)
  then show ?thesis using assms(2) by (simp add: sort_key_def)
qed

fun event_rows :: "string \<Rightarrow> nat \<Rightarrow> NewSessionEvent list \<Rightarrow> EventRow list" where
  "event_rows i n [] = []"
| "event_rows i n (e # es) = event_row i n e # event_rows i (Suc n) es"

fun persisted_events :: "string \<Rightarrow> nat \<Rightarrow> NewSessionEvent list \<Rightarrow> SessionEvent list" where
  "persisted_events i n [] = []"
| "persisted_events i n (e # es) = persisted_event i n e # persisted_events i (Suc n) es"

lemma upt_step: "[n..<n + Suc k] = n # [Suc n..<Suc n + k]"
  by (simp add: upt_conv_Cons del: upt_Suc)

lemma event_row_fields [simp]: "ev_session (event_row i n e) = i" "ev_seq (event_row i n e) = n"
  by (simp_all add: event_row_def)

lemma event_rows_fields:
  "\<forall>r \<in> set (event_rows i n es). ev_session r = i \<and> n \<le> ev_seq r"
  "map ev_seq (event_rows i n es) = [n..<n + length es]"
proof -
  show seqs: "map ev_seq (event_rows i n es) = [n..<n + length es]"
    by (induction es arbitrary: n) (simp_all only: event_rows.simps list.map length_Cons upt_step event_row_fields, simp)
  show "\<forall>r \<in> set (event_rows i n es). ev_session r = i \<and> n \<le> ev_seq r"
    by (induction es arbitrary: n) (simp, fastforce)
qed

lemma sql_returns: "sql f d = (Inr a, d') \<Longrightarrow> \<exists>os. f (d\<lparr>outages := os\<rparr>) = (Inr a, d') \<and> os = tl (outages d)"
proof (cases "outages d")
  case Nil
  then have "d\<lparr>outages := []\<rparr> = d" "sql f d = f d" by (simp_all add: sql_def)
  moreover assume "sql f d = (Inr a, d')"
  ultimately show ?thesis using Nil by (metis list.sel(2))
qed (auto simp: sql_def split: bool.splits if_splits)

lemma insert_events_returns:
  assumes "insert_events i n es d = (Inr ps, d')"
  shows "\<exists>os. d' = d\<lparr>session_events := session_events d @ event_rows i n es, outages := os\<rparr>"
    and "ps = persisted_events i n es"
proof -
  have "(\<exists>os. d' = d\<lparr>session_events := session_events d @ event_rows i n es, outages := os\<rparr>)
      \<and> ps = persisted_events i n es"
    using assms
  proof (induction es arbitrary: n d ps)
    case Nil
    have "d = d\<lparr>session_events := session_events d, outages := outages d\<rparr>" by simp
    with Nil show ?case by (auto simp: ret_def intro: exI [of _ "outages d'"])
  next
    case (Cons e es)
    then obtain u qs where u: "insert_event (event_row i n e) d = (Inr (), u)"
      and qs: "insert_events i (Suc n) es u = (Inr qs, d')" and ps: "ps = persisted_event i n e # qs"
      by (auto simp: returns_simps)
    from u have "u = d\<lparr>outages := tl (outages d), session_events := session_events d @ [event_row i n e]\<rparr>"
      unfolding insert_event_def
      by (auto simp: violates_def throwC_def dest!: sql_returns split: if_splits)
    then have "u = d\<lparr>session_events := session_events d @ [event_row i n e], outages := tl (outages d)\<rparr>" by simp
    with Cons.IH [OF qs] ps show ?case by auto
  qed
  then show "\<exists>os. d' = d\<lparr>session_events := session_events d @ event_rows i n es, outages := os\<rparr>"
    "ps = persisted_events i n es" by auto
qed

lemma events_of_outages [simp]: "events_of i (d\<lparr>outages := os\<rparr>) = events_of i d"
  by (simp add: events_of_def)

lemma max_seq_contiguous:
  assumes "contiguous i d"
  shows "(case max_seq i d of None \<Rightarrow> 0 | Some m \<Rightarrow> Suc m) = length (events_of i d)"
proof (cases "events_of i d" rule: rev_cases)
  case (snoc es e)
  with assms have "map ev_seq es @ [ev_seq e] = [0..<length es] @ [length es]" by (simp add: contiguous_def)
  moreover have "max_seq i d = Some (ev_seq (last (es @ [e])))"
    unfolding max_seq_def snoc by (cases es) simp_all
  ultimately show ?thesis using snoc by simp
qed (simp add: max_seq_def)

lemma events_appended:
  assumes "contiguous i d" "n = length (events_of i d)"
  shows "events_of j (d\<lparr>session_events := session_events d @ event_rows i n es\<rparr>)
     = (if j = i then events_of i d @ event_rows i n es else events_of j d)"
proof (cases "j = i")
  case False
  then have "filter (\<lambda>e. ev_session e = j) (event_rows i n es) = []"
    using event_rows_fields(1) [of i n es] by (auto simp: filter_empty_conv)
  with False show ?thesis by (simp add: events_of_def)
next
  case True
  have "filter (\<lambda>e. ev_session e = i) (event_rows i n es) = event_rows i n es"
    using event_rows_fields(1) [of i n es] by (simp add: filter_id_conv)
  moreover have "sort_key ev_seq (event_rows i n es) = event_rows i n es"
    by (simp add: sorted_sort_id event_rows_fields(2) sort_key_id_if_sorted)
  moreover have "\<forall>x \<in> set (filter (\<lambda>e. ev_session e = i) (session_events d)). ev_seq x < n"
  proof
    fix x assume "x \<in> set (filter (\<lambda>e. ev_session e = i) (session_events d))"
    then have "x \<in> set (events_of i d)" by (simp add: events_of_def)
    then have "ev_seq x \<in> set (map ev_seq (events_of i d))" by simp
    also have "\<dots> = set [0..<n]" using assms unfolding contiguous_def by (simp only:)
    finally show "ev_seq x < n" by simp
  qed
  ultimately show ?thesis
    using True event_rows_fields(1) [of i n es] sort_key_append [of _ "event_rows i n es" ev_seq]
    by (fastforce simp: events_of_def)
qed

lemma first_gap_upt [simp]: "first_gap k [k..<k + n] = None"
  by (induction n arbitrary: k) (simp_all only: upt_step first_gap.simps add_0_right upt_rec [of k k], simp_all)

section \<open>Every operation keeps consistency\<close>

lemma select_returns: "select q d = (Inr a, d') \<Longrightarrow> \<exists>os. d' = d\<lparr>outages := os\<rparr> \<and> a = q (d\<lparr>outages := os\<rparr>)"
  by (auto simp: select_def getC_def dest!: sql_returns)

lemma select_returnsE:
  assumes "bindC (select q) f d = (Inr b, u)"
  obtains os where "f (q (d\<lparr>outages := os\<rparr>)) (d\<lparr>outages := os\<rparr>) = (Inr b, u)"
proof -
  from assms obtain a d' where a: "select q d = (Inr a, d')" "f a d' = (Inr b, u)" by (auto simp: returns_simps)
  from select_returns [OF a(1)] obtain os where "d' = d\<lparr>outages := os\<rparr>" "a = q (d\<lparr>outages := os\<rparr>)" by blast
  with a(2) show thesis by (intro that [of os]) simp
qed

lemma transaction_returns:
  "transactionC body d = (Inr a, d') \<Longrightarrow> \<exists>u os. body d = (Inr a, u) \<and> d' = u\<lparr>outages := os\<rparr>"
  by (fastforce simp: transactionC_def ret_def split: sum.splits prod.splits dest: sql_returns)

lemma rows_outages [simp]:
  "session_row i (d\<lparr>outages := os\<rparr>) = session_row i d" "workspace_row i (d\<lparr>outages := os\<rparr>) = workspace_row i d"
  "max_seq i (d\<lparr>outages := os\<rparr>) = max_seq i d"
  by (simp_all add: session_row_def workspace_row_def max_seq_def)

lemma append_returns:
  assumes "contiguous i d" "append_events i es d = (Inr ps, d')" "es \<noteq> []"
  defines "n \<equiv> length (events_of i d)"
  shows "\<exists>os. i \<in> session_row_id ` set (sessions d) \<and> ps = persisted_events i n es
      \<and> d' = d\<lparr>session_events := session_events d @ event_rows i n es, outages := os\<rparr>"
proof -
  from assms(2,3) have "transactionC (append_body i es) d = (Inr ps, d')" by (simp add: append_events_def)
  from transaction_returns [OF this] obtain u os where
    body: "append_body i es d = (Inr ps, u)" and d': "d' = u\<lparr>outages := os\<rparr>" by blast
  from body obtain os1 where row: "session_row i d \<noteq> None" and
    "bindC (select (max_seq i)) (\<lambda>currentMax.
       bindC (insert_events i (case currentMax of None \<Rightarrow> 0 | Some m \<Rightarrow> Suc m) es) (\<lambda>persisted.
       bindC (select (\<lambda>d. sort (map ev_seq (events_of i d)))) (\<lambda>seqs.
         thenC (gap_check i seqs) (ret persisted)))) (d\<lparr>outages := os1\<rparr>) = (Inr ps, u)"
    unfolding append_body_def
    by (elim select_returnsE) (fastforce simp: throwC_def split: option.splits simp del: session_row_iff)
  then obtain os2 where
    "bindC (insert_events i n es) (\<lambda>persisted.
       bindC (select (\<lambda>d. sort (map ev_seq (events_of i d)))) (\<lambda>seqs.
         thenC (gap_check i seqs) (ret persisted))) (d\<lparr>outages := os2\<rparr>) = (Inr ps, u)"
    using max_seq_contiguous [OF assms(1)] by (elim select_returnsE) (simp add: n_def)
  then obtain qs d3 where ins: "insert_events i n es (d\<lparr>outages := os2\<rparr>) = (Inr qs, d3)"
    and rest: "bindC (select (\<lambda>d. sort (map ev_seq (events_of i d)))) (\<lambda>seqs.
         thenC (gap_check i seqs) (ret qs)) d3 = (Inr ps, u)"
    by (auto simp: returns_simps)
  from rest obtain os4 where "u = d3\<lparr>outages := os4\<rparr>" "ps = qs"
    by (elim select_returnsE) (auto simp: returns_simps gap_check_def split: option.splits)
  with insert_events_returns [OF ins] d' row show ?thesis by auto
qed

lemma append_ok:
  assumes ok: "db_ok d" and run: "append_events i es d = (Inr ps, d')"
  defines "n \<equiv> length (events_of i d)"
  shows "db_ok d'" and "events_of i d' = events_of i d @ event_rows i n es"
    and "ps = persisted_events i n es" and "\<forall>j. j \<noteq> i \<longrightarrow> events_of j d' = events_of j d"
proof -
  have con: "contiguous j d" for j using ok by (simp add: db_ok_def)
  have "db_ok d' \<and> events_of i d' = events_of i d @ event_rows i n es \<and> ps = persisted_events i n es
     \<and> (\<forall>j. j \<noteq> i \<longrightarrow> events_of j d' = events_of j d)"
  proof (cases "es = []")
    case True
    with run ok show ?thesis by (simp add: append_events_def ret_def)
  next
    case False
    then obtain os where os: "i \<in> session_row_id ` set (sessions d)" "ps = persisted_events i n es"
       "d' = d\<lparr>session_events := session_events d @ event_rows i n es, outages := os\<rparr>"
      using append_returns [OF con run] by (auto simp: n_def)
    have ev: "events_of j d' = (if j = i then events_of i d @ event_rows i n es else events_of j d)" for j
      using events_appended [OF con [of i] refl, where es = es and j = j] os(3) by (simp add: n_def)
    have "contiguous j d'" for j
    proof (cases "j = i")
      case True
      have "map ev_seq (events_of i d) @ [n..<n + length es] = [0..<n + length es]"
        using con [of i] by (simp add: contiguous_def n_def upt_add_eq_append [of 0])
      moreover have "length (event_rows i n es) = length es"
        using event_rows_fields(2) [of i n es] by (metis add_diff_cancel_left' length_map length_upt)
      ultimately show ?thesis using True by (simp add: contiguous_def ev event_rows_fields(2) n_def)
    next
      case False
      then show ?thesis using con [of j] by (simp add: contiguous_def ev)
    qed
    moreover have "keys_ok d' \<and> refs_ok d'"
      using ok os(1,3) event_rows_fields(1) [of i n es] by (auto simp: db_ok_def keys_ok_def refs_ok_def)
    ultimately show ?thesis using ev os(2) by (simp add: db_ok_def)
  qed
  then show "db_ok d'" "events_of i d' = events_of i d @ event_rows i n es"
    "ps = persisted_events i n es" "\<forall>j. j \<noteq> i \<longrightarrow> events_of j d' = events_of j d" by blast+
qed

text \<open>A transaction that throws, and any single statement that does, leaves the tables as they were.\<close>

lemma transaction_throws: "transactionC body d = (Inl e, d') \<Longrightarrow> \<exists>os. d' = d\<lparr>outages := os\<rparr>"
  by (auto simp: transactionC_def split: sum.splits prod.splits)

lemma preserves_append: "preserves (append_events i es)"
proof (rule keepsI)
  fix d
  obtain r d' where run: "append_events i es d = (r, d')" by fastforce
  show "db_ok d \<longrightarrow> db_ok (snd (append_events i es d))"
  proof (cases r)
    case (Inl e)
    with run have "\<exists>os. d' = d\<lparr>outages := os\<rparr>"
      by (cases "es = []") (auto simp: append_events_def ret_def dest!: transaction_throws)
    with run show ?thesis by auto
  next
    case (Inr ps)
    with run append_ok(1) show ?thesis by auto
  qed
qed

end
