(* ===== verification/Repository_Log.thy ===== *)
theory Repository_Log
  imports Repository_Props
begin

text \<open>
  Histories of repository operations from an empty database, with any outages: the tables stay
  consistent. What an append stores is what a later read gives; the failure writes never touch a row
  that has moved on; a deletion is complete or does nothing.
\<close>

section \<open>Histories\<close>

datatype repo_op =
    CreateWorkspace CreateWorkspaceInput
  | UpdateWorkspace string UpdateWorkspacePatch
  | MarkFailed string string
  | RecordError string string
  | DeleteWorkspace string
  | CreateSession string string "json option"
  | Append string "NewSessionEvent list"
  | RecordCheckpoint string string string string
  | PutLease ControllerLeaseRecord
  | Clock int

text \<open>
  One operation and the tables it leaves, its result or error aside. The lease statements are those
  of theory \<open>Lease\<close>, under the reference from a lease to its workspace.
\<close>

fun run_op :: "repo_op \<Rightarrow> db \<Rightarrow> db" where
  "run_op (CreateWorkspace inp) d = snd (createWorkspace inp d)"
| "run_op (UpdateWorkspace i p) d = snd (updateWorkspace i p d)"
| "run_op (MarkFailed i e) d = snd (markRestoreFailedIfStarting i e d)"
| "run_op (RecordError i e) d = snd (recordRestoreErrorIfFailed i e d)"
| "run_op (DeleteWorkspace i) d = snd (deleteWorkspace i d)"
| "run_op (CreateSession i w m) d = snd (createSession i w m d)"
| "run_op (Append i es) d = snd (append_events i es d)"
| "run_op (RecordCheckpoint u w s g) d = snd (recordCheckpoint u w s g d)"
| "run_op (PutLease l) d =
     (if workspace_row (cl_workspaceId l) d = None then d
      else d\<lparr>leases_table := (leases_table d)(cl_workspaceId l \<mapsto> l)\<rparr>)"
| "run_op (Clock t) d = d\<lparr>db_now := t\<rparr>"

definition run_ops :: "repo_op list \<Rightarrow> db \<Rightarrow> db" where
  "run_ops ops d = fold run_op ops d"

lemma preserves_fetchOr: "preserves (fetchOr m i)"
  unfolding fetchOr_def getWorkspace_def
  by (intro preserves_rules) (auto intro: preserves_rules split: option.split)

lemma preserves_fetchIf: "preserves (fetchIf i b)"
  unfolding fetchIf_def by (auto intro!: preserves_rules preserves_fetchOr)

lemma apply_patch_id [simp]: "row_id (apply_patch p r) = row_id r"
  by (auto simp: apply_patch_def Let_def split: option.split)

lemma preserves_ops:
  "preserves (createWorkspace inp)" "preserves (updateWorkspace i p)"
  "preserves (markRestoreFailedIfStarting i e)" "preserves (recordRestoreErrorIfFailed i e)"
  "preserves (deleteWorkspace i)" "preserves (createSession i w m)" "preserves (recordCheckpoint u w s g)"
proof -
  have bad: "preserves (sql (throwC x) :: unit sql)" for x by (rule preserves_sql) (simp add: throwC_def)
  show "preserves (createWorkspace inp)"
    unfolding createWorkspace_def by (intro preserves_rules preserves_fetchOr)
  show "preserves (updateWorkspace i p)"
    unfolding updateWorkspace_def by (auto intro!: preserves_rules preserves_fetchOr bad)
  show "preserves (markRestoreFailedIfStarting i e)" "preserves (recordRestoreErrorIfFailed i e)"
    unfolding markRestoreFailedIfStarting_def recordRestoreErrorIfFailed_def
    by (auto intro!: preserves_rules preserves_transaction preserves_fetchIf split: option.split)
  show "preserves (deleteWorkspace i)"
    unfolding deleteWorkspace_def
    by (auto intro!: preserves_rules preserves_transaction split: option.split)
  show "preserves (createSession i w m)"
    unfolding createSession_def getSession_def
    by (auto intro!: preserves_rules split: option.split)
  show "preserves (recordCheckpoint u w s g)"
    unfolding recordCheckpoint_def by (auto intro!: preserves_rules split: list.split)
qed

lemma run_op_ok: "db_ok d \<Longrightarrow> db_ok (run_op op d)"
proof (induction op)
  case (PutLease l)
  then show ?case
    by (auto simp: db_ok_def keys_ok_def refs_ok_def contiguous_def events_of_def dest!: workspace_row_Some)
qed (simp_all add: keepsD [OF preserves_ops(1), rule_format] keepsD [OF preserves_ops(2), rule_format]
       keepsD [OF preserves_ops(3), rule_format] keepsD [OF preserves_ops(4), rule_format]
       keepsD [OF preserves_ops(5), rule_format] keepsD [OF preserves_ops(6), rule_format]
       keepsD [OF preserves_ops(7), rule_format] keepsD [OF preserves_append, rule_format])

lemma run_ops_ok: "db_ok d \<Longrightarrow> db_ok (run_ops ops d)"
  unfolding run_ops_def by (induction ops arbitrary: d) (simp_all add: run_op_ok)

text \<open>C17: after any history of operations, outages and rollbacks included, ids are unique, no row
  refers to a row that is gone, and every event log is numbered 0, 1, 2, \<dots> without a gap.\<close>

theorem repository_keeps_consistency: "db_ok (run_ops ops (empty_db t os))"
  by (rule run_ops_ok)
     (simp add: db_ok_def keys_ok_def refs_ok_def contiguous_def events_of_def empty_db_def)

section \<open>What an append stores\<close>

text \<open>What a later read gives for an event of an append.\<close>

definition as_read :: "SessionEvent \<Rightarrow> SessionEvent" where
  "as_read e = e\<lparr>data := decodeColumn (data e),
     sourceEventSeqs := nullable (case sourceEventSeqs e of Some v \<Rightarrow> if truthy v then Some v else None | None \<Rightarrow> None),
     surfaceOp := nullable (case surfaceOp e of Some v \<Rightarrow> if truthy v then Some v else None | None \<Rightarrow> None)\<rparr>"

lemma rows_read: "map rowToEvent (event_rows i n es) = map as_read (persisted_events i n es)"
  by (induction es arbitrary: n)
     (simp_all add: rowToEvent_def event_row_def as_read_def persisted_event_def)

lemma persisted_seqs: "map seq (persisted_events i n es) = [n..<n + length es]"
  by (induction es arbitrary: n)
     (simp_all only: persisted_events.simps list.map length_Cons upt_step, simp_all add: persisted_event_def)

lemma persisted_data: "map data (persisted_events i n es) = map data es"
  by (induction es arbitrary: n) (simp_all add: persisted_event_def)

lemma readEvents_up: "outages d = [] \<Longrightarrow> readEvents i None d = (Inr (map rowToEvent (events_of i d)), d)"
  by (simp add: readEvents_def select_def sql_def getC_def)

text \<open>C18: an append that returns has numbered its events from the end of the log, and a read gives
  the old events, then the new ones; data that is not a JSON string comes back unchanged.\<close>

theorem append_then_read:
  assumes "db_ok d" "append_events i es d = (Inr ps, d')" "\<forall>e \<in> set es. \<forall>t. data e \<noteq> JStr t"
  shows "fst (readEvents i None (d'\<lparr>outages := []\<rparr>)) = Inr (map rowToEvent (events_of i d) @ map as_read ps)
    \<and> map seq ps = [length (events_of i d)..<length (events_of i d) + length es]
    \<and> map (data \<circ> as_read) ps = map data es"
proof (intro conjI)
  note ok = append_ok [OF assms(1,2)]
  show "fst (readEvents i None (d'\<lparr>outages := []\<rparr>)) = Inr (map rowToEvent (events_of i d) @ map as_read ps)"
    by (simp add: readEvents_up ok(2,3) rows_read)
  show "map seq ps = [length (events_of i d)..<length (events_of i d) + length es]"
    by (simp add: ok(3) persisted_seqs)
  have "data (as_read p) = data p" if "p \<in> set ps" for p
  proof -
    have "data p \<in> set (map data ps)" using that by simp
    then have "data p \<in> set (map data es)" by (simp add: ok(3) persisted_data del: set_map)
    then obtain e where "e \<in> set es" "data p = data e" by auto
    with assms(3) have "\<forall>t. data p \<noteq> JStr t" by metis
    then show ?thesis by (auto simp: as_read_def decodeColumn_def split: json.split)
  qed
  then have "map (data \<circ> as_read) ps = map data ps" by simp
  then show "map (data \<circ> as_read) ps = map data es" by (simp add: ok(3) persisted_data)
qed

definition sample_db :: "runtime_state \<Rightarrow> db" where
  "sample_db st = (empty_db 100 [])\<lparr>
     workspaces := [\<lparr>row_id = ''w'', owner_id = ''u'', repository_owner = ''o'', repository_name = ''r'',
        base_branch = ''main'', instance_name = Some ''dsh-w'', instance_url = None, runtime_state_col = st,
        last_error = None, last_activity_at = None, created_at = 5, updated_at = 5\<rparr>],
     sessions := [\<lparr>session_row_id = ''s'', session_workspace = ''w'', metadata_col = JObj [],
        session_created_at = 5, session_updated_at = 5\<rparr>]\<rparr>"

lemma sample_db_ok: "db_ok (sample_db st)"
  by (simp add: sample_db_def empty_db_def db_ok_def keys_ok_def refs_ok_def contiguous_def events_of_def)

definition sample_event :: NewSessionEvent where
  "sample_event = \<lparr>eventType = ''user_message'', eventTime = 7, data = JObj [(''content'', JStr ''hi'')],
     sourceEventSeqs = None, surfaceOp = None\<rparr>"

lemma sample_append:
  "append_events ''s'' [sample_event, sample_event] (sample_db st) =
     (Inr (persisted_events ''s'' 0 [sample_event, sample_event]),
      (sample_db st)\<lparr>session_events := event_rows ''s'' 0 [sample_event, sample_event]\<rparr>)"
  by (simp add: append_events_def transactionC_def append_body_def select_def sql_def comp_defs sample_db_def
      empty_db_def session_row_def max_seq_def events_of_def insert_event_def event_row_def gap_check_def)

theorem append_then_read_witness:
  "map seq (persisted_events ''s'' 0 [sample_event, sample_event]) = [0, 1]"
  using append_then_read [OF sample_db_ok sample_append [of STOPPED]]
  by (simp add: sample_event_def sample_db_def empty_db_def events_of_def upt_rec)

section \<open>The compare-and-set of the failure writes\<close>

lemma select_run: "\<exists>os r. select q d = (r, d\<lparr>outages := os\<rparr>) \<and> (r = Inr (q (d\<lparr>outages := os\<rparr>)) \<or> (\<exists>e. r = Inl e))"
proof (cases "outages d")
  case Nil
  then have same: "d\<lparr>outages := []\<rparr> = d" by simp
  from Nil have "select q d = (Inr (q d), d)" by (simp add: select_def sql_def getC_def)
  then show ?thesis by (metis same)
next
  case (Cons b os)
  then show ?thesis
    by (cases b) (auto simp: select_def sql_def getC_def intro!: exI [of _ os])
qed

text \<open>A read, whatever its outcome, leaves the tables.\<close>

definition same_tables :: "db \<Rightarrow> db \<Rightarrow> bool" where
  "same_tables d d' \<longleftrightarrow> d' = d\<lparr>outages := outages d'\<rparr>"

lemma same_tables_refl [simp]: "same_tables d d" "same_tables d (d\<lparr>outages := os\<rparr>)"
  by (simp_all add: same_tables_def)

lemma same_tables_trans: "same_tables d u \<Longrightarrow> same_tables u v \<Longrightarrow> same_tables d v"
  unfolding same_tables_def by (metis db.surjective db.update_convs(9))

lemma same_rel [simp, intro]: "reflp same_tables" "transp same_tables"
  by (auto intro: reflpI transpI same_tables_trans)

lemma keeps_select: "keeps same_tables (select q)"
proof (rule keepsI)
  fix d show "same_tables d (snd (select q d))" using select_run [of q d] by auto
qed

lemma keeps_fetchOr: "keeps same_tables (fetchOr m i)"
  unfolding fetchOr_def getWorkspace_def
  by (auto intro!: keeps_bind keeps_ret keeps_throw keeps_select split: option.split)

lemma keeps_fetchIf: "keeps same_tables (fetchIf i b)"
  unfolding fetchIf_def by (auto intro!: keeps_bind keeps_ret keeps_fetchOr)

lemma fetchIf_None: "fetchIf i b d = (Inr None, d') \<Longrightarrow> \<not> b"
  by (auto simp: fetchIf_def returns_simps split: if_splits)

text \<open>
  A compare-and-set: a transaction that decides on the row it has read, writes the row by \<open>f\<close> when the
  decision is to write, and reads it back.
\<close>

definition casC :: "string \<Rightarrow> (WorkspaceRow \<Rightarrow> (WorkspaceRow \<Rightarrow> WorkspaceRow) option) \<Rightarrow> Workspace option sql" where
  "casC i decide = bindC (transactionC (bindC (select (workspace_row i)) (\<lambda>row. case row of
       None \<Rightarrow> ret False
     | Some r \<Rightarrow> (case decide r of None \<Rightarrow> ret False | Some f \<Rightarrow> thenC (update_workspace i f) (ret True)))))
   (fetchIf i)"

lemma failure_writes_cas:
  "markRestoreFailedIfStarting i e = casC i (\<lambda>r.
     if runtime_state_col r \<noteq> STARTING \<and> runtime_state_col r \<noteq> RESTORING then None
     else Some (\<lambda>r. r\<lparr>runtime_state_col := RESTORE_FAILED, last_error := Some e\<rparr>))"
  "recordRestoreErrorIfFailed i e = casC i (\<lambda>r.
     if runtime_state_col r = STARTING \<or> runtime_state_col r = RESTORING
     then Some (\<lambda>r. r\<lparr>runtime_state_col := RESTORE_FAILED, last_error := Some e\<rparr>)
     else if runtime_state_col r = RESTORE_FAILED \<and> last_error r = None
     then Some (\<lambda>r. r\<lparr>last_error := Some e\<rparr>) else None)"
  by (auto simp: markRestoreFailedIfStarting_def recordRestoreErrorIfFailed_def casC_def
      intro!: arg_cong2 [where f = bindC] arg_cong [where f = transactionC] split: option.split)

text \<open>The tables after a write of one row.\<close>

definition row_written :: "string \<Rightarrow> (WorkspaceRow \<Rightarrow> WorkspaceRow) \<Rightarrow> db \<Rightarrow> db \<Rightarrow> bool" where
  "row_written i f d d' \<longleftrightarrow> same_tables (d\<lparr>workspaces := map (\<lambda>r. if row_id r = i then (f r)\<lparr>updated_at := db_now d\<rparr> else r)
     (workspaces d)\<rparr>) d'"

lemma row_written_outages:
  "row_written i f (d\<lparr>outages := os\<rparr>) v = row_written i f d v"
  "row_written i f d v \<Longrightarrow> row_written i f d (v\<lparr>outages := os\<rparr>)"
  by (simp add: row_written_def same_tables_def cong del: if_weak_cong)
     (auto simp: row_written_def intro: same_tables_trans)

lemma update_returns:
  assumes "update_workspace i f d = (Inr u, d')" "workspace_row i d \<noteq> None" shows "row_written i f d d'"
proof -
  from assms obtain r where r: "workspace_row i d = Some r" by blast
  with assms(1) show ?thesis
    unfolding update_workspace_def
    by (auto simp: row_written_def same_tables_def violates_def throwC_def dest!: sql_returns split: if_splits)
qed

lemma casC_cases:
  assumes "casC i decide d = (res, d')"
  shows "same_tables d d'
     \<or> (\<exists>r f. workspace_row i d = Some r \<and> decide r = Some f \<and> row_written i f d d' \<and> res \<noteq> Inr None)"
proof -
  let ?body = "bindC (select (workspace_row i)) (\<lambda>row. case row of
       None \<Rightarrow> ret False
     | Some r \<Rightarrow> (case decide r of None \<Rightarrow> ret False | Some f \<Rightarrow> thenC (update_workspace i f) (ret True)))"
  obtain q u where tr: "transactionC ?body d = (q, u)" by fastforce
  show ?thesis
  proof (cases q)
    case (Inl e)
    with tr assms transaction_throws [of ?body d e u] show ?thesis by (auto simp: casC_def bindC_def)
  next
    case (Inr b)
    have "transactionC ?body d = (Inr b, u)" using tr Inr by simp
    from transaction_returns [OF this]
    obtain v os where v: "?body d = (Inr b, v)" "u = v\<lparr>outages := os\<rparr>" by blast
    have fi: "fetchIf i b u = (res, d')" using assms tr Inr by (simp add: casC_def bindC_def)
    then have ud: "same_tables u d'" by (rule keeps_run [OF keeps_fetchIf])
    obtain os1 where "(case workspace_row i (d\<lparr>outages := os1\<rparr>) of
       None \<Rightarrow> ret False
     | Some r \<Rightarrow> (case decide r of None \<Rightarrow> ret False | Some f \<Rightarrow> thenC (update_workspace i f) (ret True)))
       (d\<lparr>outages := os1\<rparr>) = (Inr b, v)"
      using v(1) by (rule select_returnsE)
    then have os1: "(case workspace_row i d of
       None \<Rightarrow> ret False
     | Some r \<Rightarrow> (case decide r of None \<Rightarrow> ret False | Some f \<Rightarrow> thenC (update_workspace i f) (ret True)))
       (d\<lparr>outages := os1\<rparr>) = (Inr b, v)"
      by (simp only: rows_outages)
    have res: "b \<Longrightarrow> res \<noteq> Inr None" using fi fetchIf_None by blast
    show ?thesis
    proof (cases "case workspace_row i d of None \<Rightarrow> None | Some r \<Rightarrow> decide r")
      case None
      with os1 have "v = d\<lparr>outages := os1\<rparr>"
        by (cases "workspace_row i d") (simp_all add: ret_def del: workspace_row_iff)
      with v(2) ud show ?thesis by (simp add: same_tables_trans [of d u])
    next
      case (Some f)
      then obtain r where r: "workspace_row i d = Some r" "decide r = Some f"
        by (cases "workspace_row i d") (simp_all del: workspace_row_iff)
      with os1 have up: "update_workspace i f (d\<lparr>outages := os1\<rparr>) = (Inr (), v)" "b"
        by (simp_all add: returns_simps)
      from up(1) have "row_written i f (d\<lparr>outages := os1\<rparr>) v" by (rule update_returns) (simp add: r(1))
      then have "row_written i f d u" using v(2) by (simp add: row_written_outages)
      then have "row_written i f d d'" using ud unfolding row_written_def by (rule same_tables_trans)
      with r res up(2) show ?thesis by blast
    qed
  qed
qed

text \<open>Whatever the caller last saw and whichever statement fails, the failure writes change no row
  but the workspace's own, and only while it is STARTING or RESTORING (or, for the second, when it is
  RESTORE_FAILED without a reason); they report \<open>null\<close> only if they wrote nothing.\<close>

theorem failure_writes_compare_and_set:
  "(let (res, d') = markRestoreFailedIfStarting i e d in
      same_tables d d'
      \<or> (\<exists>r. workspace_row i d = Some r \<and> runtime_state_col r \<in> {STARTING, RESTORING} \<and> res \<noteq> Inr None
           \<and> row_written i (\<lambda>r. r\<lparr>runtime_state_col := RESTORE_FAILED, last_error := Some e\<rparr>) d d'))
   \<and> (let (res, d') = recordRestoreErrorIfFailed i e d in
      same_tables d d'
      \<or> (\<exists>r. workspace_row i d = Some r \<and> runtime_state_col r \<in> {STARTING, RESTORING} \<and> res \<noteq> Inr None
           \<and> row_written i (\<lambda>r. r\<lparr>runtime_state_col := RESTORE_FAILED, last_error := Some e\<rparr>) d d')
      \<or> (\<exists>r. workspace_row i d = Some r \<and> runtime_state_col r = RESTORE_FAILED \<and> last_error r = None
           \<and> res \<noteq> Inr None \<and> row_written i (\<lambda>r. r\<lparr>last_error := Some e\<rparr>) d d'))"
  unfolding failure_writes_cas
  by (intro conjI; clarsimp simp: Let_def split: prod.splits; drule casC_cases; auto split: if_splits)

section \<open>Deleting a workspace\<close>

text \<open>Nothing of workspace \<open>i\<close> is left in any table.\<close>

definition gone :: "string \<Rightarrow> db \<Rightarrow> bool" where
  "gone i d \<longleftrightarrow> i \<notin> row_id ` set (workspaces d) \<and> i \<notin> session_workspace ` set (sessions d)
     \<and> i \<notin> ck_workspace ` set (workspace_checkpoints d) \<and> leases_table d i = None"

lemma sql_up: "outages d = [] \<Longrightarrow> sql f d = f d"
  by (simp add: sql_def)

definition after_delete :: "string \<Rightarrow> db \<Rightarrow> db" where
  "after_delete i d = d\<lparr>
     session_events := filter (\<lambda>e. \<not> (\<exists>s \<in> set (sessions d). session_row_id s = ev_session e \<and> session_workspace s = i))
       (session_events d),
     sessions := filter (\<lambda>s. session_workspace s \<noteq> i) (sessions d),
     workspace_checkpoints := filter (\<lambda>c. ck_workspace c \<noteq> i) (workspace_checkpoints d),
     leases_table := (leases_table d)(i := None),
     workspaces := filter (\<lambda>r. row_id r \<noteq> i) (workspaces d)\<rparr>"

lemma deleteWorkspace_runs:
  assumes "outages d = []" "workspace_row i d \<noteq> None"
  shows "deleteWorkspace i d = (Inr True, after_delete i d)"
proof -
  obtain r where "workspace_row i d = Some r" using assms(2) by blast
  with assms(1) show ?thesis
    by (auto simp: deleteWorkspace_def transactionC_def select_def sql_up comp_defs after_delete_def
        delete_events_of_workspace_def delete_sessions_of_workspace_def delete_checkpoints_of_workspace_def
        delete_lease_of_workspace_def delete_workspace_row_def violates_def)
qed

lemma events_after_delete:
  assumes "keys_ok d" "s \<in> set (sessions d)"
  shows "events_of (session_row_id s) (after_delete i d) =
     (if session_workspace s = i then [] else events_of (session_row_id s) d)"
proof -
  let ?P = "\<lambda>j. \<exists>t \<in> set (sessions d). session_row_id t = j \<and> session_workspace t = i"
  have P: "?P (session_row_id s) \<longleftrightarrow> session_workspace s = i"
    using assms by (auto simp: keys_ok_def distinct_map dest: inj_onD)
  have "events_of (session_row_id s) (after_delete i d) = sort_key ev_seq
      (filter (\<lambda>e. ev_session e = session_row_id s \<and> \<not> ?P (session_row_id s)) (session_events d))"
    unfolding events_of_def after_delete_def
    by (simp, intro arg_cong [where f = "sort_key ev_seq"] filter_cong refl) auto
  then show ?thesis unfolding P by (simp add: events_of_def)
qed



end
