(* ===== verification/Instance_GC.thy ===== *)
theory Instance_GC
  imports Repository_Log
begin

text \<open>
  The sweep that deletes the Cloud Run Instances of workspaces stopped long ago
  (\<open>apps/control-plane/src/instance-gc.ts\<close>), over the repository of theory \<open>Repository\<close>. The call to
  the Instances API is a parameter, and so is what other processes do before each re-read of a row.
\<close>

section \<open>Eligibility\<close>

definition DEFAULT_STALE_AFTER_MS :: int where
  "DEFAULT_STALE_AFTER_MS = 30 * 24 * 60 * 60 * 1000"

definition DEFAULT_MAX_DELETES_PER_SWEEP :: int where
  "DEFAULT_MAX_DELETES_PER_SWEEP = 10"

definition lastUsedAtMs :: "Workspace \<Rightarrow> int option" where
  "lastUsedAtMs w =
     (let candidates = List.map_filter (\<lambda>v. case v of None \<Rightarrow> None | Some t \<Rightarrow> date_parse t)
                         [lastActivityAt w, Some (w_updatedAt w), Some (w_createdAt w)] in
      if candidates = [] then None else Some (Max (set candidates)))"

text \<open>\<open>!name\<close>: absent or empty.\<close>

definition falsy :: "string option \<Rightarrow> bool" where
  "falsy n \<longleftrightarrow> n = None \<or> n = Some []"

definition isGcEligible :: "Workspace \<Rightarrow> int \<Rightarrow> int \<Rightarrow> bool" where
  "isGcEligible w nowMs staleAfterMs \<longleftrightarrow>
     (if runtimeState w \<noteq> STOPPED then False
      else if falsy (instanceName w) then False
      else case lastUsedAtMs w of
          None \<Rightarrow> False
        | Some lastUsed \<Rightarrow> staleAfterMs \<le> nowMs - lastUsed)"

section \<open>One sweep\<close>

datatype gc_error = GcRepo repo_error | GcExternal string

datatype gc_line =
    Deferred nat int
  | SkippedLine string string string "runtime_state option"
  | DeletedLine string string
  | FailedLine string string gc_error
  | SweepFailed gc_error

text \<open>The database, the calls made to the Instances API so far, and the log.\<close>

record gc_state =
  gc_db :: db
  gc_calls :: "Workspace list"
  gc_log :: "gc_line list"

record ReapDeps =
  deleteInstance :: "Workspace \<Rightarrow> (gc_state, gc_error, unit) comp"
  staleAfterMs :: int
  maxDeletesPerSweep :: int
  others :: "gc_state \<Rightarrow> gc_state"

record ReapResult =
  checked :: nat
  eligible :: nat
  deleted :: nat
  failed :: nat
  skipped :: nat
  deferred :: nat
  failures :: "(string \<times> string \<times> gc_error) list"

definition repoC :: "'a sql \<Rightarrow> (gc_state, gc_error, 'a) comp" where
  "repoC m = zoomC gc_db (\<lambda>d s. s\<lparr>gc_db := d\<rparr>) GcRepo m"

definition gcLog :: "gc_line \<Rightarrow> (gc_state, gc_error, unit) comp" where
  "gcLog l = modifyC (\<lambda>s. s\<lparr>gc_log := gc_log s @ [l]\<rparr>)"

text \<open>\<open>await deps.runtimes.get(fresh)\<close> and \<open>deleteInstance()\<close> of the handle, noted as a call.\<close>

definition callDelete :: "ReapDeps \<Rightarrow> Workspace \<Rightarrow> (gc_state, gc_error, unit) comp" where
  "callDelete deps w = thenC (modifyC (\<lambda>s. s\<lparr>gc_calls := gc_calls s @ [w]\<rparr>)) (deleteInstance deps w)"

datatype outcome = Deleted | Skipped

definition skip :: "Workspace \<Rightarrow> string \<Rightarrow> string \<Rightarrow> runtime_state option \<Rightarrow> (gc_state, gc_error, outcome) comp" where
  "skip w name reason st = thenC (gcLog (SkippedLine (w_id w) name reason st)) (ret Skipped)"

text \<open>The body of the loop for one candidate: re-read, check, delete, clear the URL.\<close>

definition reapOne :: "ReapDeps \<Rightarrow> Workspace \<Rightarrow> string \<Rightarrow> (gc_state, gc_error, outcome) comp" where
  "reapOne deps w name =
     thenC (modifyC (others deps))
     (bindC (repoC (getWorkspace (w_id w))) (\<lambda>fresh. case fresh of
         None \<Rightarrow> skip w name ''workspace-gone'' None
       | Some f \<Rightarrow>
           if runtimeState f \<noteq> STOPPED then skip w name ''state-changed'' (Some (runtimeState f))
           else if instanceName f \<noteq> Some name then skip w name ''instance-renamed'' None
           else thenC (callDelete deps f)
               (thenC (bindC (repoC (updateWorkspace (w_id w) (no_patch\<lparr>p_instanceUrl := Some None\<rparr>))) (\<lambda>_. ret ()))
               (thenC (gcLog (DeletedLine (w_id w) name)) (ret Deleted)))))"

fun reapLoop :: "ReapDeps \<Rightarrow> Workspace list \<Rightarrow> ReapResult \<Rightarrow> (gc_state, gc_error, ReapResult) comp" where
  "reapLoop deps [] res = ret res"
| "reapLoop deps (w # ws) res =
     (case instanceName w of
        None \<Rightarrow> reapLoop deps ws res
      | Some name \<Rightarrow>
          if name = [] then reapLoop deps ws res
          else bindC (tryC (reapOne deps w name)) (\<lambda>r. case r of
              Inr Deleted \<Rightarrow> reapLoop deps ws (res\<lparr>deleted := Suc (deleted res)\<rparr>)
            | Inr Skipped \<Rightarrow> reapLoop deps ws (res\<lparr>skipped := Suc (skipped res)\<rparr>)
            | Inl e \<Rightarrow> thenC (gcLog (FailedLine (w_id w) name e))
                 (reapLoop deps ws (res\<lparr>failures := failures res @ [(w_id w, name, e)]\<rparr>))))"

definition candidates :: "int \<Rightarrow> int \<Rightarrow> Workspace list \<Rightarrow> Workspace list" where
  "candidates nowMs stale ws = sort_key (\<lambda>w. the (lastUsedAtMs w)) (filter (\<lambda>w. isGcEligible w nowMs stale) ws)"

definition reapBatch :: "ReapDeps \<Rightarrow> nat \<Rightarrow> nat \<Rightarrow> Workspace list \<Rightarrow> (gc_state, gc_error, ReapResult) comp" where
  "reapBatch deps n el batch =
     (let rest = el - length batch in
      thenC (if rest > 0 then gcLog (Deferred rest (maxDeletesPerSweep deps)) else ret ())
      (bindC (reapLoop deps batch \<lparr>checked = n, eligible = el, deleted = 0, failed = 0,
                skipped = 0, deferred = rest, failures = []\<rparr>) (\<lambda>res.
         ret (res\<lparr>failed := length (failures res)\<rparr>))))"

definition reapStaleStoppedInstances :: "ReapDeps \<Rightarrow> int \<Rightarrow> (gc_state, gc_error, ReapResult) comp" where
  "reapStaleStoppedInstances deps nowMs =
     bindC (repoC listWorkspaces) (\<lambda>ws.
       let cs = candidates nowMs (staleAfterMs deps) ws in
       reapBatch deps (length ws) (length cs) (take (nat (max 0 (maxDeletesPerSweep deps))) cs))"

text \<open>A tick of the sweeper: an error of the sweep itself is logged, never thrown.\<close>

definition sweep :: "ReapDeps \<Rightarrow> int \<Rightarrow> (gc_state, gc_error, unit) comp" where
  "sweep deps nowMs =
     catchC (bindC (reapStaleStoppedInstances deps nowMs) (\<lambda>_. ret ())) (\<lambda>e. gcLog (SweepFailed e))"

section \<open>What a sweep deletes\<close>

text \<open>The collaborators do not forge calls: only the sweep itself calls the Instances API.\<close>

definition honest :: "ReapDeps \<Rightarrow> bool" where
  "honest deps \<longleftrightarrow> (\<forall>s. gc_calls (others deps s) = gc_calls s)
     \<and> (\<forall>w s. gc_calls (snd (deleteInstance deps w s)) = gc_calls s)"

lemma repoC_calls [simp]: "gc_calls (snd (repoC m s)) = gc_calls s"
  by (simp add: repoC_def zoomC_def split: prod.splits sum.splits)

lemma gcLog_runs [simp]: "gcLog l s = (Inr (), s\<lparr>gc_log := gc_log s @ [l]\<rparr>)"
  by (simp add: gcLog_def modifyC_def)

lemma repoC_run: "repoC m s = (r, t) \<Longrightarrow> gc_calls t = gc_calls s"
  using repoC_calls [of m s] by simp

lemma skip_runs [simp]: "skip w n r o' s = (Inr Skipped, s\<lparr>gc_log := gc_log s @ [SkippedLine (w_id w) n r o']\<rparr>)"
  by (simp add: skip_def thenC_def bindC_def ret_def)

text \<open>One candidate makes at most one call, for the row as re-read, which is stopped under the same name.\<close>

lemma reapOne_calls:
  assumes "honest deps"
  shows "\<exists>cs. gc_calls (snd (reapOne deps w n s)) = gc_calls s @ cs \<and> length cs \<le> 1
     \<and> (\<forall>c \<in> set cs. runtimeState c = STOPPED \<and> instanceName c = Some n)"
proof -
  obtain r t where rd: "repoC (getWorkspace (w_id w)) (others deps s) = (r, t)" by fastforce
  have t: "gc_calls t = gc_calls s" using repoC_run [OF rd] assms by (simp add: honest_def)
  have run: "reapOne deps w n s = (case r of Inl e \<Rightarrow> (Inl e, t) | Inr fresh \<Rightarrow> (case fresh of
         None \<Rightarrow> skip w n ''workspace-gone'' None
       | Some f \<Rightarrow>
           if runtimeState f \<noteq> STOPPED then skip w n ''state-changed'' (Some (runtimeState f))
           else if instanceName f \<noteq> Some n then skip w n ''instance-renamed'' None
           else thenC (callDelete deps f)
               (thenC (bindC (repoC (updateWorkspace (w_id w) (no_patch\<lparr>p_instanceUrl := Some None\<rparr>))) (\<lambda>_. ret ()))
               (thenC (gcLog (DeletedLine (w_id w) n)) (ret Deleted)))) t)"
    by (simp add: reapOne_def run_simps rd split: sum.split)
  show ?thesis
  proof (cases "\<exists>f. r = Inr (Some f) \<and> runtimeState f = STOPPED \<and> instanceName f = Some n")
    case False
    then have "gc_calls (snd (reapOne deps w n s)) = gc_calls s"
      by (auto simp: run t split: sum.split option.split)
    then show ?thesis by auto
  next
    case True
    then obtain f where f: "r = Inr (Some f)" "runtimeState f = STOPPED" "instanceName f = Some n" by blast
    let ?u = "t\<lparr>gc_calls := gc_calls t @ [f]\<rparr>"
    obtain q u where del: "deleteInstance deps f ?u = (q, u)" by fastforce
    then have "gc_calls u = gc_calls s @ [f]" using assms t by (metis (no_types, lifting) gc_state.select_convs(2)
          gc_state.surjective gc_state.update_convs(2) honest_def snd_conv)
    moreover have "gc_calls (snd (reapOne deps w n s)) = gc_calls u"
      by (auto simp: run f callDelete_def run_simps del split: sum.splits prod.splits dest: repoC_run)
    ultimately show ?thesis using f by auto
  qed
qed

lemma eligible_named: "isGcEligible w n st \<Longrightarrow> \<not> falsy (instanceName w)"
  by (simp add: isGcEligible_def split: if_splits)

definition counted :: "ReapResult \<Rightarrow> nat" where
  "counted res = deleted res + skipped res + length (failures res)"

lemma reapLoop_ok:
  assumes "honest deps" "\<forall>w \<in> set ws. \<not> falsy (instanceName w)"
  shows "\<exists>res' t cs. reapLoop deps ws res s = (Inr res', t)
     \<and> counted res' = counted res + length ws \<and> checked res' = checked res \<and> eligible res' = eligible res
     \<and> deferred res' = deferred res \<and> gc_calls t = gc_calls s @ cs \<and> length cs \<le> length ws
     \<and> (\<forall>c \<in> set cs. runtimeState c = STOPPED \<and> (\<exists>w \<in> set ws. instanceName c = instanceName w))"
  using assms(2)
proof (induction ws arbitrary: res s)
  case (Cons w ws)
  then obtain n where n: "instanceName w = Some n" "n \<noteq> []" by (auto simp: falsy_def)
  obtain r t where one: "reapOne deps w n s = (r, t)" by fastforce
  with reapOne_calls [OF assms(1), of w n s] obtain cs where cs: "gc_calls t = gc_calls s @ cs" "length cs \<le> 1"
    "\<forall>c \<in> set cs. runtimeState c = STOPPED \<and> instanceName c = Some n" by auto
  define res1 t1 where "res1 = (case r of Inr Deleted \<Rightarrow> res\<lparr>deleted := Suc (deleted res)\<rparr>
      | Inr Skipped \<Rightarrow> res\<lparr>skipped := Suc (skipped res)\<rparr> | Inl e \<Rightarrow> res\<lparr>failures := failures res @ [(w_id w, n, e)]\<rparr>)"
    and "t1 = (case r of Inr _ \<Rightarrow> t | Inl e \<Rightarrow> t\<lparr>gc_log := gc_log t @ [FailedLine (w_id w) n e]\<rparr>)"
  have step: "reapLoop deps (w # ws) res s = reapLoop deps ws res1 t1"
    by (simp add: n one tryC_def bindC_def thenC_def res1_def t1_def split: sum.split outcome.split)
  have c1: "counted res1 = Suc (counted res)" "checked res1 = checked res" "eligible res1 = eligible res"
    "deferred res1 = deferred res" "gc_calls t1 = gc_calls s @ cs"
    by (simp_all add: res1_def t1_def counted_def cs(1) split: sum.split outcome.split)
  from Cons.prems have "\<forall>w \<in> set ws. \<not> falsy (instanceName w)" by simp
  from Cons.IH [OF this, of res1 t1] obtain res' u ds where
    "reapLoop deps ws res1 t1 = (Inr res', u)" "counted res' = counted res1 + length ws"
    "checked res' = checked res1" "eligible res' = eligible res1" "deferred res' = deferred res1"
    "gc_calls u = gc_calls t1 @ ds" "length ds \<le> length ws"
    "\<forall>c \<in> set ds. runtimeState c = STOPPED \<and> (\<exists>w \<in> set ws. instanceName c = instanceName w)" by blast
  then show ?case using step c1 cs(2,3) n(1)
    by (intro exI [of _ res'] exI [of _ u] exI [of _ "cs @ ds"]) auto
qed (auto simp: ret_def)

lemma reapBatch_ok:
  assumes "honest deps" "\<forall>w \<in> set batch. \<not> falsy (instanceName w)"
  shows "\<exists>res t cs. reapBatch deps n el batch s = (Inr res, t)
     \<and> deleted res + skipped res + failed res = length batch \<and> checked res = n \<and> eligible res = el
     \<and> deferred res = el - length batch \<and> gc_calls t = gc_calls s @ cs \<and> length cs \<le> length batch
     \<and> (\<forall>c \<in> set cs. runtimeState c = STOPPED \<and> (\<exists>w \<in> set batch. instanceName c = instanceName w))"
proof -
  define s1 where "s1 = (if el - length batch > 0
     then s\<lparr>gc_log := gc_log s @ [Deferred (el - length batch) (maxDeletesPerSweep deps)]\<rparr> else s)"
  define r0 where "r0 = \<lparr>checked = n, eligible = el, deleted = 0, failed = 0,
     skipped = 0, deferred = el - length batch, failures = []\<rparr>"
  have "reapBatch deps n el batch s = (case reapLoop deps batch r0 s1 of
      (Inl e, t) \<Rightarrow> (Inl e, t) | (Inr res, t) \<Rightarrow> (Inr (res\<lparr>failed := length (failures res)\<rparr>), t))"
    by (simp add: reapBatch_def Let_def run_simps s1_def r0_def split: sum.split prod.split)
  moreover have "gc_calls s1 = gc_calls s" by (simp add: s1_def)
  ultimately show ?thesis
    using reapLoop_ok [OF assms, of r0 s1] by (fastforce simp: r0_def counted_def)
qed


definition sample_deps :: ReapDeps where
  "sample_deps = \<lparr>deleteInstance = (\<lambda>w. ret ()), staleAfterMs = 50, maxDeletesPerSweep = 10, others = (\<lambda>s. s)\<rparr>"

definition sample_gc :: gc_state where
  "sample_gc = \<lparr>gc_db = sample_db STOPPED, gc_calls = [], gc_log = []\<rparr>"

lemma sample_sweep:
  "\<exists>res t. reapStaleStoppedInstances sample_deps 100 sample_gc = (Inr res, t) \<and> deleted res = 1
     \<and> map w_id (gc_calls t) = [''w'']"
  by (simp add: reapStaleStoppedInstances_def reapBatch_def run_simps repoC_def zoomC_def listWorkspaces_def select_def sql_def
      sample_gc_def sample_db_def empty_db_def candidates_def isGcEligible_def falsy_def lastUsedAtMs_def
      rowToWorkspace_def sample_deps_def map_filter_simps reapOne_def getWorkspace_def workspace_row_def
      callDelete_def updateWorkspace_def no_patch_def bad_stamp_def update_workspace_def name_taken_def
      apply_patch_def fetchOr_def Let_def)


end
