(* ===== verification/Http.thy ===== *)
theory Http
  imports Repository
begin

text \<open>
  Requests, responses and errors of the control plane: the typed errors of
  \<open>apps/control-plane/src/errors.ts\<close>, the body validation of \<open>validate.ts\<close>, and the identity of
  \<open>auth.ts\<close>. A JSON body is the value it is printed from.
\<close>

section \<open>Errors\<close>

text \<open>
  What a handler can throw: a typed API error, an error of the workspace runtime, of a store, or any
  other \<open>Error\<close> with its message.
\<close>

datatype cp_error =
    ApiError (api_status: nat) (api_code: string) string
  | RuntimeError err_kind
  | LeaseError lease_error
  | RepositoryError repo_error
  | OtherError string

definition badRequest :: "string \<Rightarrow> cp_error" where
  "badRequest m = ApiError 400 ''bad_request'' m"

definition unauthorized :: "string \<Rightarrow> cp_error" where
  "unauthorized m = ApiError 401 ''unauthorized'' m"

definition forbidden :: "string \<Rightarrow> cp_error" where
  "forbidden m = ApiError 403 ''forbidden'' m"

definition notFound :: "string \<Rightarrow> cp_error" where
  "notFound m = ApiError 404 ''not_found'' m"

definition conflict :: "string \<Rightarrow> cp_error" where
  "conflict m = ApiError 409 ''conflict'' m"

definition badGateway :: "string \<Rightarrow> cp_error" where
  "badGateway m = ApiError 502 ''bad_gateway'' m"

definition internalError :: cp_error where
  "internalError = ApiError 500 ''internal'' ''internal server error''"

definition unavailable :: "string \<Rightarrow> cp_error" where
  "unavailable m = ApiError 503 ''unavailable'' m"

lemmas api_errors = badRequest_def unauthorized_def forbidden_def notFound_def conflict_def
  badGateway_def internalError_def unavailable_def

text \<open>Name and message of the typed errors.\<close>

fun state_text :: "runtime_state \<Rightarrow> string" where
  "state_text STOPPED = ''STOPPED''" | "state_text STARTING = ''STARTING''"
| "state_text RESTORING = ''RESTORING''" | "state_text READY = ''READY''" | "state_text BUSY = ''BUSY''"
| "state_text CHECKPOINTING = ''CHECKPOINTING''" | "state_text STOPPING = ''STOPPING''"
| "state_text ERROR = ''ERROR''" | "state_text RESTORE_FAILED = ''RESTORE_FAILED''"
| "state_text CHECKPOINT_FAILED = ''CHECKPOINT_FAILED''"

fun runtime_error_text :: "err_kind \<Rightarrow> string \<times> string" where
  "runtime_error_text (IllegalTransitionError a b) =
     (''IllegalTransitionError'', ''illegal state transition: '' @ state_text a @ '' -> '' @ state_text b)"
| "runtime_error_text (AgentInputRefusedError st) =
     (''AgentInputRefusedError'', ''agent input refused in state '' @ state_text st)"
| "runtime_error_text (InvalidOperationError op st) =
     (''InvalidOperationError'', op @ '' is not allowed in state '' @ state_text st)"
| "runtime_error_text (External m) = (''Error'', m)"
| "runtime_error_text (ExternalNamed n m) = (n, m)"

fun lease_error_text :: "lease_error \<Rightarrow> string \<times> string" where
  "lease_error_text (LeaseAlreadyHeldError w c) =
     (''LeaseAlreadyHeldError'', ''lease already held for workspace '' @ w @ '' by '' @ c)"
| "lease_error_text (NotLeaseOwnerError w c) =
     (''NotLeaseOwnerError'', ''controller '' @ c @ '' is not owner of lease for workspace '' @ w)"
| "lease_error_text (LeaseNotFoundError w) = (''LeaseNotFoundError'', ''no lease found for workspace '' @ w)"
| "lease_error_text (LeaseExpiredError w) = (''LeaseExpiredError'', ''lease expired for workspace '' @ w)"
| "lease_error_text (StoreError m) = (''Error'', m)"

section \<open>Requests and responses\<close>

text \<open>Header names are lower case, as \<open>Headers.get\<close> compares them.\<close>

record Request =
  rq_method :: string
  rq_path :: string
  rq_query :: "string \<rightharpoonup> string"
  rq_headers :: "string \<rightharpoonup> string"
  rq_body :: string

text \<open>A body is absent, a JSON value, a file, the event stream of a session from a cursor, or the heartbeat
  stream of the agent host.\<close>

datatype body = NoBody | JsonBody json | FileBody string | EventStream string nat | HeartbeatStream string

record Response =
  rs_status :: nat
  rs_body :: body
  rs_headers :: "(string \<times> string) list"

definition json_response :: "json \<Rightarrow> nat \<Rightarrow> Response" where
  "json_response v st = \<lparr>rs_status = st, rs_body = JsonBody v,
     rs_headers = [(''content-type'', ''application/json; charset=utf-8'')]\<rparr>"

section \<open>Identity\<close>

record AuthenticatedUser =
  user_id :: string
  providerUserId :: string
  user_login :: string

definition githubUserId :: "string \<Rightarrow> string" where
  "githubUserId numericId = ''github:'' @ numericId"

definition githubUser :: "string \<Rightarrow> string \<Rightarrow> AuthenticatedUser" where
  "githubUser numericId login = \<lparr>user_id = githubUserId numericId, providerUserId = numericId, user_login = login\<rparr>"

section \<open>Validation of bodies\<close>

definition header_or_empty :: "Request \<Rightarrow> string \<Rightarrow> string" where
  "header_or_empty rq h = (case rq_headers rq h of None \<Rightarrow> [] | Some v \<Rightarrow> v)"

definition parseJsonBody :: "Request \<Rightarrow> cp_error + json" where
  "parseJsonBody rq =
     (if \<not> contains ''application/json'' (lower (header_or_empty rq ''content-type''))
      then Inl (badRequest ''content-type must be application/json'')
      else (case json_parse (decodeText (rq_body rq)) of
          None \<Rightarrow> Inl (badRequest ''request body is not valid JSON'')
        | Some v \<Rightarrow> (case v of
              JObj fs \<Rightarrow> Inr v
            | _ \<Rightarrow> Inl (badRequest ''request body must be a JSON object''))))"

definition parseOptionalJsonBody :: "Request \<Rightarrow> cp_error + json" where
  "parseOptionalJsonBody rq =
     (if \<not> contains ''application/json'' (lower (header_or_empty rq ''content-type''))
      then (if trim (decodeText (rq_body rq)) = [] then Inr (JObj [])
            else Inl (badRequest ''content-type must be application/json''))
      else parseJsonBody rq)"

abbreviation quote_mark :: char where "quote_mark \<equiv> CHR 0x27"

definition field_message :: "string \<Rightarrow> string \<Rightarrow> cp_error" where
  "field_message field m = badRequest (''field '' @ [quote_mark] @ field @ [quote_mark] @ m)"

definition requireString :: "json \<Rightarrow> string \<Rightarrow> cp_error + string" where
  "requireString body field = (case json_field body field of
       Some (JStr s) \<Rightarrow> if s = [] then Inl (field_message field '' must be a non-empty string'') else Inr s
     | _ \<Rightarrow> Inl (field_message field '' must be a non-empty string''))"

definition optionalString :: "json \<Rightarrow> string \<Rightarrow> cp_error + string option" where
  "optionalString body field = (case json_field body field of
       None \<Rightarrow> Inr None
     | Some (JStr s) \<Rightarrow> if s = [] then Inl (field_message field '' must be a non-empty string when present'') else Inr (Some s)
     | Some _ \<Rightarrow> Inl (field_message field '' must be a non-empty string when present''))"

definition optionalObject :: "json \<Rightarrow> string \<Rightarrow> cp_error + json option" where
  "optionalObject body field = (case json_field body field of
       None \<Rightarrow> Inr None
     | Some JNull \<Rightarrow> Inr None
     | Some (JObj fs) \<Rightarrow> Inr (Some (JObj fs))
     | Some _ \<Rightarrow> Inl (field_message field '' must be an object when present''))"

definition requireSegment :: "string option \<Rightarrow> string \<Rightarrow> cp_error + string" where
  "requireSegment v name = (case v of
       Some s \<Rightarrow> if s = [] then Inl (badRequest (''path parameter '' @ [quote_mark] @ name @ [quote_mark] @ '' is required'')) else Inr s
     | None \<Rightarrow> Inl (badRequest (''path parameter '' @ [quote_mark] @ name @ [quote_mark] @ '' is required'')))"

end
