(* ===== verification/Auth_Session.thy ===== *)
theory Auth_Session
  imports Encoding Http Repository_Log
begin

text \<open>
  Server-side authentication sessions and OAuth login flows (\<open>apps/control-plane/src/auth-session.ts\<close>):
  tokens and cookies, the session-store interface with its in-memory and its PostgreSQL
  implementation, and the authentication of a request. SHA-256 is a parameter \<open>sha\<close> of bytes; random
  tokens and ids are arguments.
\<close>

section \<open>Tokens\<close>

definition SESSION_COOKIE_NAME :: string where
  "SESSION_COOKIE_NAME = ''__Host-dsh_session''"

definition OAUTH_BINDING_COOKIE_NAME :: string where
  "OAUTH_BINDING_COOKIE_NAME = ''__Host-dsh_oauth''"

definition SESSION_LIFETIME_MS :: int where
  "SESSION_LIFETIME_MS = 7 * 24 * 60 * 60 * 1000"

definition LOGIN_FLOW_LIFETIME_MS :: int where
  "LOGIN_FLOW_LIFETIME_MS = 5 * 60 * 1000"

definition pkceChallenge :: "(string \<Rightarrow> string) \<Rightarrow> string \<Rightarrow> string" where
  "pkceChallenge sha verifier = base64Url (sha verifier)"

lemma hex_digit_char: "n < 16 \<Longrightarrow> hex_digit (hex_char n) = Some n"
proof -
  have "\<forall>n < 16. hex_digit (hex_char n) = Some n" by (simp add: All_less_Suc numeral_eq_Suc) code_simp
  then show "n < 16 \<Longrightarrow> hex_digit (hex_char n) = Some n" by blast
qed

lemma hex_char_mod: "hex_char n = hex_char (n mod 16)"
  by (simp add: hex_char_def)

lemma from_hex_hex [simp]: "from_hex (hex s) = s"
proof (induction s)
  case (Cons c s)
  have "byte c div 16 < 16" using byte_less [of c] by linarith
  moreover have "byte c div 16 * 16 + byte c mod 16 = byte c" by simp
  ultimately show ?case using Cons
    by (simp add: hex_digit_char hex_char_mod [of "byte c"]) (simp add: byte_def)
qed simp

lemma hex_inject [simp]: "hex a = hex b \<longleftrightarrow> a = b"
  by (metis from_hex_hex)

section \<open>Cookies\<close>

definition SESSION_COOKIE_ATTRIBUTES :: string where
  "SESSION_COOKIE_ATTRIBUTES = ''Path=/; Secure; HttpOnly; SameSite=Lax''"

definition set_cookie :: "string \<Rightarrow> string \<Rightarrow> nat \<Rightarrow> string" where
  "set_cookie name v maxAge = name @ ''='' @ v @ ''; Max-Age='' @ show_nat maxAge @ ''; '' @ SESSION_COOKIE_ATTRIBUTES"

definition buildSessionSetCookie :: "string \<Rightarrow> string" where
  "buildSessionSetCookie rawToken = set_cookie SESSION_COOKIE_NAME rawToken (nat (SESSION_LIFETIME_MS div 1000))"

definition buildSessionClearCookie :: string where
  "buildSessionClearCookie = set_cookie SESSION_COOKIE_NAME [] 0"

definition buildOAuthBindingSetCookie :: "string \<Rightarrow> string" where
  "buildOAuthBindingSetCookie rawNonce = set_cookie OAUTH_BINDING_COOKIE_NAME rawNonce (nat (LOGIN_FLOW_LIFETIME_MS div 1000))"

definition buildOAuthBindingClearCookie :: string where
  "buildOAuthBindingClearCookie = set_cookie OAUTH_BINDING_COOKIE_NAME [] 0"

text \<open>The values of the cookies of one name in a \<open>Cookie\<close> header, every occurrence in order.\<close>

fun cookie_values :: "string \<Rightarrow> string list \<Rightarrow> string list" where
  "cookie_values name [] = []"
| "cookie_values name (part # ps) =
     (if CHR ''='' \<notin> set part then cookie_values name ps
      else if trim (takeWhile (\<lambda>c. c \<noteq> CHR ''='') part) \<noteq> name then cookie_values name ps
      else trim (tl (dropWhile (\<lambda>c. c \<noteq> CHR ''='') part)) # cookie_values name ps)"

definition parse_cookies :: "string \<Rightarrow> string option \<Rightarrow> string list" where
  "parse_cookies name header = (case header of
       None \<Rightarrow> []
     | Some h \<Rightarrow> if h = [] then [] else cookie_values name (split_at (CHR '';'') h))"

definition parseSessionCookies :: "string option \<Rightarrow> string list" where
  "parseSessionCookies = parse_cookies SESSION_COOKIE_NAME"

definition parseOAuthBindingCookies :: "string option \<Rightarrow> string list" where
  "parseOAuthBindingCookies = parse_cookies OAUTH_BINDING_COOKIE_NAME"

definition bindingMatches :: "(string \<Rightarrow> string) \<Rightarrow> string \<Rightarrow> string \<Rightarrow> bool" where
  "bindingMatches sha rawNonce expectedHex =
     (if rawNonce = [] \<or> expectedHex = [] then False
      else (let actual = sha rawNonce; expected = from_hex expectedHex in
        if length expected \<noteq> length actual then False else actual = expected))"

section \<open>The store interface\<close>

record SessionRecord =
  sr_id :: string
  sr_user :: AuthenticatedUser
  sr_createdAt :: int
  sr_expiresAt :: int

record CreatedSession =
  cs_id :: string
  cs_rawToken :: string
  cs_expiresAt :: int

record ConsumedLoginFlow =
  cf_codeVerifier :: string
  cf_returnTo :: "string option"
  cf_bindingHash :: string

record 's SessionStore =
  ss_createSession :: "AuthenticatedUser \<Rightarrow> int \<Rightarrow> string \<Rightarrow> string \<Rightarrow> ('s, cp_error, CreatedSession) comp"
  ss_lookupSession :: "string \<Rightarrow> int \<Rightarrow> ('s, cp_error, SessionRecord option) comp"
  ss_revokeSession :: "string \<Rightarrow> ('s, cp_error, unit) comp"
  ss_createLoginFlow :: "string \<Rightarrow> ConsumedLoginFlow \<Rightarrow> int \<Rightarrow> ('s, cp_error, int) comp"
  ss_consumeLoginFlow :: "string \<Rightarrow> int \<Rightarrow> ('s, cp_error, ConsumedLoginFlow option) comp"
  ss_revokeLoginFlow :: "string \<Rightarrow> ('s, cp_error, unit) comp"
  ss_cleanupExpired :: "int \<Rightarrow> nat \<Rightarrow> ('s, cp_error, nat \<times> nat) comp"

definition CLEANUP_DEFAULT_LIMIT :: nat where
  "CLEANUP_DEFAULT_LIMIT = 500"

section \<open>The in-memory store\<close>

text \<open>A \<open>Map\<close> keeps the place of a key that is set again: association lists with \<open>AList.update\<close>.\<close>

record mem_sessions =
  ms_sessions :: "(string \<times> SessionRecord) list"
  ms_flows :: "(string \<times> ConsumedLoginFlow \<times> int) list"

definition hashToken :: "(string \<Rightarrow> string) \<Rightarrow> string \<Rightarrow> string" where
  "hashToken sha raw = sha raw"

abbreviation hash_key :: "(string \<Rightarrow> string) \<Rightarrow> string \<Rightarrow> string" where
  "hash_key sha raw \<equiv> hex (hashToken sha raw)"

definition mem_createSession ::
  "(string \<Rightarrow> string) \<Rightarrow> AuthenticatedUser \<Rightarrow> int \<Rightarrow> string \<Rightarrow> string \<Rightarrow> (mem_sessions, cp_error, CreatedSession) comp" where
  "mem_createSession sha u now rawToken i =
     thenC (modifyC (\<lambda>s. s\<lparr>ms_sessions := AList.update (hash_key sha rawToken)
               \<lparr>sr_id = i, sr_user = u, sr_createdAt = now, sr_expiresAt = now + SESSION_LIFETIME_MS\<rparr> (ms_sessions s)\<rparr>))
       (ret \<lparr>cs_id = i, cs_rawToken = rawToken, cs_expiresAt = now + SESSION_LIFETIME_MS\<rparr>)"

definition mem_lookupSession ::
  "(string \<Rightarrow> string) \<Rightarrow> string \<Rightarrow> int \<Rightarrow> (mem_sessions, cp_error, SessionRecord option) comp" where
  "mem_lookupSession sha raw now =
     (if raw = [] then ret None
      else getC (\<lambda>s. case map_of (ms_sessions s) (hash_key sha raw) of
          None \<Rightarrow> None
        | Some r \<Rightarrow> if sr_expiresAt r \<le> now then None else Some r))"

definition mem_revokeSession :: "(string \<Rightarrow> string) \<Rightarrow> string \<Rightarrow> (mem_sessions, cp_error, unit) comp" where
  "mem_revokeSession sha raw =
     (if raw = [] then ret () else modifyC (\<lambda>s. s\<lparr>ms_sessions := AList.delete (hash_key sha raw) (ms_sessions s)\<rparr>))"

definition mem_createLoginFlow ::
  "(string \<Rightarrow> string) \<Rightarrow> string \<Rightarrow> ConsumedLoginFlow \<Rightarrow> int \<Rightarrow> (mem_sessions, cp_error, int) comp" where
  "mem_createLoginFlow sha rawState f now =
     thenC (modifyC (\<lambda>s. s\<lparr>ms_flows := AList.update (hash_key sha rawState) (f, now + LOGIN_FLOW_LIFETIME_MS) (ms_flows s)\<rparr>))
       (ret (now + LOGIN_FLOW_LIFETIME_MS))"

definition mem_consumeLoginFlow ::
  "(string \<Rightarrow> string) \<Rightarrow> string \<Rightarrow> int \<Rightarrow> (mem_sessions, cp_error, ConsumedLoginFlow option) comp" where
  "mem_consumeLoginFlow sha rawState now =
     (if rawState = [] then ret None
      else bindC (getC (\<lambda>s. map_of (ms_flows s) (hash_key sha rawState))) (\<lambda>flow.
        thenC (modifyC (\<lambda>s. s\<lparr>ms_flows := AList.delete (hash_key sha rawState) (ms_flows s)\<rparr>))
          (ret (case flow of None \<Rightarrow> None | Some (f, e) \<Rightarrow> if e \<le> now then None else Some f))))"

definition mem_revokeLoginFlow :: "(string \<Rightarrow> string) \<Rightarrow> string \<Rightarrow> (mem_sessions, cp_error, unit) comp" where
  "mem_revokeLoginFlow sha rawState =
     (if rawState = [] then ret () else modifyC (\<lambda>s. s\<lparr>ms_flows := AList.delete (hash_key sha rawState) (ms_flows s)\<rparr>))"

text \<open>The loop over a map that deletes what has expired, until the limit: the count, and what is left.\<close>

fun drop_expired :: "('a \<Rightarrow> bool) \<Rightarrow> nat \<Rightarrow> 'a list \<Rightarrow> nat \<times> 'a list" where
  "drop_expired dead 0 xs = (0, xs)"
| "drop_expired dead (Suc n) [] = (0, [])"
| "drop_expired dead (Suc n) (x # xs) =
     (if dead x then (case drop_expired dead n xs of (k, ys) \<Rightarrow> (Suc k, ys))
      else (case drop_expired dead (Suc n) xs of (k, ys) \<Rightarrow> (k, x # ys)))"

definition mem_cleanupExpired :: "int \<Rightarrow> nat \<Rightarrow> (mem_sessions, cp_error, nat \<times> nat) comp" where
  "mem_cleanupExpired now limit = (\<lambda>s.
     let (n, ss) = drop_expired (\<lambda>(k, r). sr_expiresAt r \<le> now) limit (ms_sessions s);
         (m, fs) = drop_expired (\<lambda>(k, f, e). e \<le> now) limit (ms_flows s) in
     (Inr (n, m), s\<lparr>ms_sessions := ss, ms_flows := fs\<rparr>))"

definition InMemorySessionStore :: "(string \<Rightarrow> string) \<Rightarrow> mem_sessions SessionStore" where
  "InMemorySessionStore sha = \<lparr>
     ss_createSession = mem_createSession sha, ss_lookupSession = mem_lookupSession sha,
     ss_revokeSession = mem_revokeSession sha, ss_createLoginFlow = mem_createLoginFlow sha,
     ss_consumeLoginFlow = mem_consumeLoginFlow sha, ss_revokeLoginFlow = mem_revokeLoginFlow sha,
     ss_cleanupExpired = mem_cleanupExpired\<rparr>"

section \<open>The PostgreSQL store\<close>

definition dbC :: "'a sql \<Rightarrow> (db, cp_error, 'a) comp" where
  "dbC m = zoomC (\<lambda>d. d) (\<lambda>d _. d) RepositoryError m"

definition pg_createSession ::
  "(string \<Rightarrow> string) \<Rightarrow> AuthenticatedUser \<Rightarrow> int \<Rightarrow> string \<Rightarrow> string \<Rightarrow> (db, cp_error, CreatedSession) comp" where
  "pg_createSession sha u now rawToken i =
     thenC (dbC (sql (\<lambda>d. case parse_nat (providerUserId u) of
          None \<Rightarrow> (Inl (DbError ''github_user_id is not an integer''), d)
        | Some n \<Rightarrow>
            if \<exists>r \<in> set (auth_sessions d). auth_id r = i \<or> token_hash r = hashToken sha rawToken
            then violates ''auth_sessions_token_hash_key'' d
            else (Inr (), d\<lparr>auth_sessions := auth_sessions d @ [\<lparr>auth_id = i, token_hash = hashToken sha rawToken,
                auth_user_id = user_id u, github_user_id = n, github_login = user_login u,
                auth_created_at = now, auth_expires_at = now + SESSION_LIFETIME_MS\<rparr>]\<rparr>))))
       (ret \<lparr>cs_id = i, cs_rawToken = rawToken, cs_expiresAt = now + SESSION_LIFETIME_MS\<rparr>)"

definition row_session :: "SessionAuthRow \<Rightarrow> SessionRecord" where
  "row_session r = \<lparr>sr_id = auth_id r, sr_user = githubUser (show_nat (github_user_id r)) (github_login r),
     sr_createdAt = auth_created_at r, sr_expiresAt = auth_expires_at r\<rparr>"

definition pg_lookupSession ::
  "(string \<Rightarrow> string) \<Rightarrow> string \<Rightarrow> int \<Rightarrow> (db, cp_error, SessionRecord option) comp" where
  "pg_lookupSession sha raw now =
     (if raw = [] then ret None
      else dbC (select (\<lambda>d. map_option row_session
        (List.find (\<lambda>r. token_hash r = hashToken sha raw \<and> now < auth_expires_at r) (auth_sessions d)))))"

definition pg_revokeSession :: "(string \<Rightarrow> string) \<Rightarrow> string \<Rightarrow> (db, cp_error, unit) comp" where
  "pg_revokeSession sha raw =
     (if raw = [] then ret ()
      else dbC (sql (modifyC (\<lambda>d. d\<lparr>auth_sessions := filter (\<lambda>r. token_hash r \<noteq> hashToken sha raw) (auth_sessions d)\<rparr>))))"

text \<open>Of the rows that have expired the oldest, up to the limit, by a sub-select on the key.\<close>

definition victims :: "('a \<Rightarrow> int) \<Rightarrow> int \<Rightarrow> nat \<Rightarrow> 'a list \<Rightarrow> 'a list" where
  "victims expires now limit rows = take limit (sort_key expires (filter (\<lambda>r. expires r < now) rows))"

definition delete_dead_sessions :: "int \<Rightarrow> nat \<Rightarrow> nat sql" where
  "delete_dead_sessions now limit = sql (\<lambda>d.
     let dead = auth_id ` set (victims auth_expires_at now limit (auth_sessions d)) in
     (Inr (length (filter (\<lambda>r. auth_id r \<in> dead) (auth_sessions d))),
      d\<lparr>auth_sessions := filter (\<lambda>r. auth_id r \<notin> dead) (auth_sessions d)\<rparr>))"

definition delete_dead_flows :: "int \<Rightarrow> nat \<Rightarrow> nat sql" where
  "delete_dead_flows now limit = sql (\<lambda>d.
     let dead = state_hash ` set (victims flow_expires_at now limit (oauth_login_flows d)) in
     (Inr (length (filter (\<lambda>r. state_hash r \<in> dead) (oauth_login_flows d))),
      d\<lparr>oauth_login_flows := filter (\<lambda>r. state_hash r \<notin> dead) (oauth_login_flows d)\<rparr>))"

definition pg_cleanupExpired :: "int \<Rightarrow> nat \<Rightarrow> (db, cp_error, nat \<times> nat) comp" where
  "pg_cleanupExpired now limit =
     bindC (dbC (delete_dead_sessions now limit)) (\<lambda>n.
     bindC (dbC (delete_dead_flows now limit)) (\<lambda>m. ret (n, m)))"

definition pg_createLoginFlow ::
  "(string \<Rightarrow> string) \<Rightarrow> string \<Rightarrow> ConsumedLoginFlow \<Rightarrow> int \<Rightarrow> (db, cp_error, int) comp" where
  "pg_createLoginFlow sha rawState f now =
     thenC (tryC (pg_cleanupExpired now CLEANUP_DEFAULT_LIMIT))
     (thenC (dbC (sql (\<lambda>d.
         if \<exists>r \<in> set (oauth_login_flows d). state_hash r = hashToken sha rawState
         then violates ''oauth_login_flows_pkey'' d
         else (Inr (), d\<lparr>oauth_login_flows := oauth_login_flows d @ [\<lparr>state_hash = hashToken sha rawState,
             code_verifier = cf_codeVerifier f, return_to = cf_returnTo f,
             binding_hash = Some (from_hex (cf_bindingHash f)),
             flow_expires_at = now + LOGIN_FLOW_LIFETIME_MS\<rparr>]\<rparr>))))
       (ret (now + LOGIN_FLOW_LIFETIME_MS)))"

definition row_flow :: "LoginFlowRow \<Rightarrow> ConsumedLoginFlow" where
  "row_flow r = \<lparr>cf_codeVerifier = code_verifier r, cf_returnTo = return_to r,
     cf_bindingHash = (case binding_hash r of None \<Rightarrow> [] | Some b \<Rightarrow> hex b)\<rparr>"

definition pg_consumeLoginFlow ::
  "(string \<Rightarrow> string) \<Rightarrow> string \<Rightarrow> int \<Rightarrow> (db, cp_error, ConsumedLoginFlow option) comp" where
  "pg_consumeLoginFlow sha rawState now =
     (if rawState = [] then ret None
      else dbC (sql (\<lambda>d.
        let hit = (\<lambda>r. state_hash r = hashToken sha rawState \<and> now < flow_expires_at r) in
        (Inr (map_option row_flow (List.find hit (oauth_login_flows d))),
         d\<lparr>oauth_login_flows := filter (\<lambda>r. \<not> hit r) (oauth_login_flows d)\<rparr>))))"

definition pg_revokeLoginFlow :: "(string \<Rightarrow> string) \<Rightarrow> string \<Rightarrow> (db, cp_error, unit) comp" where
  "pg_revokeLoginFlow sha rawState =
     (if rawState = [] then ret ()
      else dbC (sql (modifyC (\<lambda>d. d\<lparr>oauth_login_flows :=
        filter (\<lambda>r. state_hash r \<noteq> hashToken sha rawState) (oauth_login_flows d)\<rparr>))))"

definition PostgresSessionStore :: "(string \<Rightarrow> string) \<Rightarrow> db SessionStore" where
  "PostgresSessionStore sha = \<lparr>
     ss_createSession = pg_createSession sha, ss_lookupSession = pg_lookupSession sha,
     ss_revokeSession = pg_revokeSession sha, ss_createLoginFlow = pg_createLoginFlow sha,
     ss_consumeLoginFlow = pg_consumeLoginFlow sha, ss_revokeLoginFlow = pg_revokeLoginFlow sha,
     ss_cleanupExpired = pg_cleanupExpired\<rparr>"

section \<open>Authenticating a request\<close>

definition authenticateSession :: "'s SessionStore \<Rightarrow> int \<Rightarrow> Request \<Rightarrow> ('s, cp_error, AuthenticatedUser) comp" where
  "authenticateSession S now rq =
     (let presented = parseSessionCookies (rq_headers rq ''cookie'') in
      if length presented \<noteq> 1 \<or> hd presented = [] then throwC (unauthorized ''missing session cookie'')
      else bindC (ss_lookupSession S (hd presented) now) (\<lambda>r. case r of
          None \<Rightarrow> throwC (unauthorized ''invalid or expired session'')
        | Some r \<Rightarrow> ret (sr_user r)))"

end
