(* ===== verification/Control_State.thy ===== *)
theory Control_State
  imports Auth_Session Repository_Log Idle Restore_Error
begin

text \<open>
  What the handlers of the control plane work on: the state of one control-plane process and its
  database, the collaborators it is composed with (\<open>apps/control-plane/src/deps.ts\<close>), and the two
  membership stores (\<open>membership.ts\<close>, \<open>prod-adapters.ts\<close>).
\<close>

section \<open>The state\<close>

text \<open>A runtime handle is built by the factory from a workspace and a controller id.\<close>

type_synonym handle_key = "Workspace \<times> string option"

record registered =
  reg_key :: handle_key
  reg_pinned :: bool

text \<open>What a request asks of the runtime handles, of the agent host and of GitHub, noted in order.\<close>

text \<open>The identity that travels to the agent host: id and login.\<close>

type_synonym ForwardIdentity = "string \<times> string"

definition identity :: "AuthenticatedUser \<Rightarrow> ForwardIdentity" where
  "identity u = (user_id u, user_login u)"

datatype call =
    OpenCall handle_key
  | StopCall handle_key ForwardIdentity
  | ActivityCall handle_key ActivityKind
  | GateCall handle_key
  | CheckpointCall handle_key ForwardIdentity
  | DeleteCall handle_key
  | UrlCall handle_key
  | DescribeCall handle_key
  | ForwardMessage string string string nat string ForwardIdentity
  | ForwardApproval string string string string string ForwardIdentity
  | ForwardCancel string string string ForwardIdentity
  | AuthorizerCall string string string string
  | ExchangeCall string string
  | ProfileCall

record 'w cp =
  cp_db :: db
  cp_members :: "(string \<times> string list) list"
  cp_registry :: "string \<rightharpoonup> registered"
  cp_trace :: "call list"
  cp_log :: "(string \<times> (string \<times> string) list) list"
  cp_world :: 'w

text \<open>Changes that nobody but the process itself can see: outages passed, lines logged.\<close>

definition tables :: "db \<Rightarrow> db" where
  "tables d = d\<lparr>outages := []\<rparr>"

definition quiet :: "'w cp \<Rightarrow> 'w cp \<Rightarrow> bool" where
  "quiet s t \<longleftrightarrow> tables (cp_db t) = tables (cp_db s) \<and> cp_members t = cp_members s
     \<and> cp_registry t = cp_registry s \<and> cp_trace t = cp_trace s \<and> cp_world t = cp_world s"

lemma quiet_refl [simp, intro]: "quiet s s"
  by (simp add: quiet_def)

lemma quiet_trans: "quiet s t \<Longrightarrow> quiet t u \<Longrightarrow> quiet s u"
  by (simp add: quiet_def)

lemma quiet_rel [simp]: "reflp quiet" "transp quiet"
  by (auto simp: reflp_def transp_def intro: quiet_trans)

lemma tables_outages [simp]: "tables (d\<lparr>outages := os\<rparr>) = tables d"
  by (simp add: tables_def)

definition dbq :: "'a sql \<Rightarrow> ('w cp, cp_error, 'a) comp" where
  "dbq m = zoomC cp_db (\<lambda>d s. s\<lparr>cp_db := d\<rparr>) RepositoryError m"

definition noteC :: "call \<Rightarrow> ('w cp, 'e, unit) comp" where
  "noteC c = modifyC (\<lambda>s. s\<lparr>cp_trace := cp_trace s @ [c]\<rparr>)"

definition logC :: "string \<Rightarrow> (string \<times> string) list \<Rightarrow> ('w cp, 'e, unit) comp" where
  "logC e fs = modifyC (\<lambda>s. s\<lparr>cp_log := cp_log s @ [(e, fs)]\<rparr>)"

section \<open>Membership\<close>

record 's MembershipStore =
  ms_isMember :: "string \<Rightarrow> string \<Rightarrow> ('s, cp_error, bool) comp"
  ms_addMember :: "string \<Rightarrow> string \<Rightarrow> ('s, cp_error, unit) comp"
  ms_removeMember :: "string \<Rightarrow> string \<Rightarrow> ('s, cp_error, unit) comp"
  ms_listMembers :: "string \<Rightarrow> ('s, cp_error, string list) comp"
  ms_listWorkspaceIdsForUser :: "string \<Rightarrow> ('s, cp_error, string list) comp"

definition assertMember :: "'s MembershipStore \<Rightarrow> string \<Rightarrow> string \<Rightarrow> ('s, cp_error, unit) comp" where
  "assertMember M w u =
     bindC (ms_isMember M w u) (\<lambda>b. if \<not> b then throwC (forbidden ''not a member of this workspace'') else ret ())"

text \<open>The in-memory store: a \<open>Map\<close> of \<open>Set\<close>s, both in the order of insertion.\<close>

definition InMemoryMembershipStore :: "'w cp MembershipStore" where
  "InMemoryMembershipStore = \<lparr>
     ms_isMember = (\<lambda>w u. getC (\<lambda>s. case map_of (cp_members s) w of None \<Rightarrow> False | Some us \<Rightarrow> u \<in> set us)),
     ms_addMember = (\<lambda>w u. modifyC (\<lambda>s. s\<lparr>cp_members :=
        (case map_of (cp_members s) w of
           None \<Rightarrow> cp_members s @ [(w, [u])]
         | Some us \<Rightarrow> AList.update w (if u \<in> set us then us else us @ [u]) (cp_members s))\<rparr>)),
     ms_removeMember = (\<lambda>w u. modifyC (\<lambda>s. s\<lparr>cp_members :=
        (case map_of (cp_members s) w of
           None \<Rightarrow> cp_members s
         | Some us \<Rightarrow> AList.update w (filter (\<lambda>v. v \<noteq> u) us) (cp_members s))\<rparr>)),
     ms_listMembers = (\<lambda>w. getC (\<lambda>s. case map_of (cp_members s) w of None \<Rightarrow> [] | Some us \<Rightarrow> us)),
     ms_listWorkspaceIdsForUser = (\<lambda>u. getC (\<lambda>s. map fst (filter (\<lambda>(w, us). u \<in> set us) (cp_members s))))\<rparr>"

text \<open>The store of production derives membership from \<open>workspaces.owner_id\<close>.\<close>

definition owner_of :: "string \<Rightarrow> db \<Rightarrow> string option" where
  "owner_of w d = map_option owner_id (workspace_row w d)"

definition owner_isMember :: "string \<Rightarrow> string \<Rightarrow> ('w cp, cp_error, bool) comp" where
  "owner_isMember w u = bindC (dbq (select (owner_of w))) (\<lambda>ow. ret (ow = Some u))"

definition OwnerMembershipStore :: "'w cp MembershipStore" where
  "OwnerMembershipStore = \<lparr>
     ms_isMember = owner_isMember,
     ms_addMember = (\<lambda>w u. bindC (dbq (select (owner_of w))) (\<lambda>ow. case ow of
         None \<Rightarrow> throwC (OtherError (''cannot add member: workspace not found: '' @ w))
       | Some v \<Rightarrow> if v \<noteq> u
           then throwC (OtherError (''membership store is owner-only in this milestone: cannot add non-owner member ''
                  @ u @ '' to workspace '' @ w))
           else ret ())),
     ms_removeMember = (\<lambda>w u. bindC (owner_isMember w u) (\<lambda>b.
         if b then throwC (OtherError (''cannot remove the workspace owner: '' @ u)) else ret ())),
     ms_listMembers = (\<lambda>w. bindC (dbq (select (owner_of w))) (\<lambda>ow. ret (case ow of None \<Rightarrow> [] | Some v \<Rightarrow> [v]))),
     ms_listWorkspaceIdsForUser = (\<lambda>u. dbq (select (\<lambda>d.
         map row_id (sort_key created_at (filter (\<lambda>r. owner_id r = u) (workspaces d))))))\<rparr>"

subsection \<open>The contract\<close>

text \<open>
  \<open>mem s w u\<close>: user \<open>u\<close> is a member of workspace \<open>w\<close>. All reads answer from the same set and change
  nothing; adding and removing change the membership they name only.
\<close>

locale membership_store =
  fixes M :: "'w cp MembershipStore" and ok :: "'w cp \<Rightarrow> bool" and mem :: "'w cp \<Rightarrow> string \<Rightarrow> string \<Rightarrow> bool"
  assumes reads_quiet: "keeps quiet (ms_isMember M w u)" "keeps quiet (ms_listMembers M w)"
      "keeps quiet (ms_listWorkspaceIdsForUser M u)"
    and mem_quiet: "quiet s t \<Longrightarrow> mem t = mem s"
    and is_member: "ms_isMember M w u s = (Inr b, s') \<Longrightarrow> b = mem s w u"
    and list_members: "ms_listMembers M w s = (Inr us, s') \<Longrightarrow> set us = {u. mem s w u}"
    and list_workspaces: "ok s \<Longrightarrow> ms_listWorkspaceIdsForUser M u s = (Inr ws, s') \<Longrightarrow> set ws = {w. mem s w u}"
    and add_member: "ok s \<Longrightarrow> ms_addMember M w u s = (Inr z, s') \<Longrightarrow>
          ok s' \<and> mem s' = (\<lambda>w' u'. (w' = w \<and> u' = u) \<or> mem s w' u')"
    and remove_member: "ok s \<Longrightarrow> ms_removeMember M w u s = (Inr y, s') \<Longrightarrow>
          ok s' \<and> mem s' = (\<lambda>w' u'. \<not> (w' = w \<and> u' = u) \<and> mem s w' u')"
begin

lemma assertMember_quiet: "keeps quiet (assertMember M w u)"
  unfolding assertMember_def by (intro keeps_intros reads_quiet quiet_rel)

lemma assertMember_passes: "assertMember M w u s = (Inr z, s') \<Longrightarrow> mem s w u"
  by (auto simp: assertMember_def returns_simps dest: is_member split: if_splits)

lemma assertMember_refuses:
  assumes "\<not> mem s w u"
  shows "\<exists>e t. assertMember M w u s = (Inl e, t) \<and> quiet s t"
proof -
  obtain r t where rt: "assertMember M w u s = (r, t)" by fastforce
  with keepsD [OF assertMember_quiet] have "quiet s t" by (metis snd_conv)
  with rt assertMember_passes assms show ?thesis by (cases r) auto
qed

text \<open>A workspace is on the list of a user exactly if the user passes the check.\<close>

lemma listed_iff_member:
  "ok s \<Longrightarrow> ms_listWorkspaceIdsForUser M u s = (Inr ws, s') \<Longrightarrow> ms_isMember M w u s = (Inr b, s'') \<Longrightarrow> w \<in> set ws \<longleftrightarrow> b"
  using list_workspaces is_member by blast

end

lemma select_cases:
  obtains (down) e os where "select f d = (Inl e, d\<lparr>outages := os\<rparr>)"
  | (up) os where "select f d = (Inr (f (d\<lparr>outages := os\<rparr>)), d\<lparr>outages := os\<rparr>)"
proof (cases "outages d")
  case Nil
  then have "d\<lparr>outages := []\<rparr> = d" by simp
  with Nil up [of "[]"] show thesis by (simp add: select_def sql_def run_simps)
next
  case (Cons b os)
  with up [of os] down [of _ os] show thesis by (cases b) (auto simp: select_def sql_def run_simps)
qed

lemma dbq_select_cases:
  obtains (down) e os where "dbq (select f) s = (Inl e, s\<lparr>cp_db := (cp_db s)\<lparr>outages := os\<rparr>\<rparr>)"
  | (up) os where "dbq (select f) s = (Inr (f ((cp_db s)\<lparr>outages := os\<rparr>)), s\<lparr>cp_db := (cp_db s)\<lparr>outages := os\<rparr>\<rparr>)"
proof (rule select_cases [of f "cp_db s"])
  fix e os
  assume "select f (cp_db s) = (Inl e, (cp_db s)\<lparr>outages := os\<rparr>)"
  then show thesis by (intro down [of "RepositoryError e" os]) (simp add: dbq_def zoomC_def)
next
  fix os
  assume "select f (cp_db s) = (Inr (f ((cp_db s)\<lparr>outages := os\<rparr>)), (cp_db s)\<lparr>outages := os\<rparr>)"
  then show thesis by (intro up [of os]) (simp add: dbq_def zoomC_def)
qed

lemma dbq_select_quiet: "keeps quiet (dbq (select f))"
proof (rule keepsI)
  show "quiet s (snd (dbq (select f) s))" for s :: "'w cp"
    by (rule dbq_select_cases [of f s]) (auto simp: quiet_def)
qed

lemma dbq_select_returns: "dbq (select f) s = (Inr a, t) \<Longrightarrow> \<exists>os. a = f ((cp_db s)\<lparr>outages := os\<rparr>) \<and> quiet s t"
  by (rule dbq_select_cases [of f s]) (auto simp: quiet_def)

lemma workspace_row_unique:
  "distinct (map row_id (workspaces d)) \<Longrightarrow> r \<in> set (workspaces d) \<Longrightarrow> workspace_row (row_id r) d = Some r"
proof -
  assume d: "distinct (map row_id (workspaces d))" "r \<in> set (workspaces d)"
  then obtain q where "workspace_row (row_id r) d = Some q" by (metis image_eqI not_None_eq workspace_row_iff)
  with workspace_row_Some [OF this] d show ?thesis by (metis distinct_map inj_onD)
qed

definition owner_member :: "'w cp \<Rightarrow> string \<Rightarrow> string \<Rightarrow> bool" where
  "owner_member s w u \<longleftrightarrow> owner_of w (cp_db s) = Some u"

lemma owner_of_outages [simp]: "owner_of w (d\<lparr>outages := os\<rparr>) = owner_of w d"
  by (simp add: owner_of_def workspace_row_def)

lemma owner_isMember_returns: "owner_isMember w u s = (Inr b, t) \<Longrightarrow> b = owner_member s w u \<and> quiet s t"
  by (auto simp: owner_isMember_def returns_simps owner_member_def dest!: dbq_select_returns)

lemma owner_of_tables: "owner_of w (tables d) = owner_of w d"
  by (simp add: tables_def)

lemma quiet_owner: "quiet s t \<Longrightarrow> owner_member t = owner_member s"
  unfolding quiet_def owner_member_def fun_eq_iff by (metis owner_of_tables)

lemma quiet_ids: "quiet s t \<Longrightarrow> map row_id (workspaces (cp_db t)) = map row_id (workspaces (cp_db s))"
proof -
  assume "quiet s t"
  then have "workspaces (tables (cp_db t)) = workspaces (tables (cp_db s))" by (simp add: quiet_def)
  then show ?thesis by (simp add: tables_def)
qed

interpretation owner_membership: membership_store OwnerMembershipStore "\<lambda>s. distinct (map row_id (workspaces (cp_db s)))" owner_member
proof (unfold_locales, goal_cases)
  case (6 w s us s')
  then show ?case
    by (auto simp: OwnerMembershipStore_def returns_simps owner_member_def dest!: dbq_select_returns split: option.splits)
next
  case (7 s u ws s')
  then have "ws = map row_id (sort_key created_at (filter (\<lambda>r. owner_id r = u) (workspaces (cp_db s))))"
    by (auto simp: OwnerMembershipStore_def dest!: dbq_select_returns)
  with 7(1) show ?case
    by (auto simp: owner_member_def owner_of_def image_iff dest: workspace_row_unique workspace_row_Some)
next
  case (8 s w u z s')
  then obtain t where "quiet s s'" "owner_of w (cp_db s) = Some u"
    by (auto simp: OwnerMembershipStore_def returns_simps dest!: dbq_select_returns split: option.splits if_splits)
  with 8(1) quiet_owner [of s s'] quiet_ids [of s s'] show ?case by (auto simp: owner_member_def fun_eq_iff)
next
  case (9 s w u y s')
  then have "quiet s s'" "\<not> owner_member s w u"
    by (auto simp: OwnerMembershipStore_def returns_simps dest!: owner_isMember_returns split: if_splits)
  with 9(1) quiet_owner [of s s'] quiet_ids [of s s'] show ?case by (auto simp: fun_eq_iff)
qed (auto simp: OwnerMembershipStore_def owner_isMember_def intro!: keeps_intros dbq_select_quiet
      dest: owner_isMember_returns [unfolded owner_isMember_def] quiet_owner)

definition map_member :: "'w cp \<Rightarrow> string \<Rightarrow> string \<Rightarrow> bool" where
  "map_member s w u \<longleftrightarrow> (case map_of (cp_members s) w of None \<Rightarrow> False | Some us \<Rightarrow> u \<in> set us)"

interpretation map_membership: membership_store InMemoryMembershipStore "\<lambda>s. distinct (map fst (cp_members s))" map_member
proof (unfold_locales, goal_cases)
  case (6 w s us s')
  then show ?case
    by (cases "map_of (cp_members s) w")
       (auto simp: InMemoryMembershipStore_def run_simps map_member_def simp del: map_of_eq_Some_iff Some_eq_map_of_iff)
next
  case (7 s u ws s')
  then have "ws = map fst (filter (\<lambda>(w, us). u \<in> set us) (cp_members s))"
    by (auto simp: InMemoryMembershipStore_def run_simps)
  moreover have "map_member s w u \<longleftrightarrow> (\<exists>us. (w, us) \<in> set (cp_members s) \<and> u \<in> set us)" for w
  proof (cases "map_of (cp_members s) w")
    case None
    then have "(w, us) \<notin> set (cp_members s)" for us by (force simp: map_of_eq_None_iff)
    with None show ?thesis by (simp add: map_member_def)
  next
    case (Some v)
    then have "(w, us) \<in> set (cp_members s) \<longleftrightarrow> us = v" for us
      using map_of_eq_Some_iff [OF 7(1), of w us, symmetric] by auto
    with Some show ?thesis by (simp add: map_member_def)
  qed
  ultimately show ?case by (simp only:) (auto simp: image_iff)
qed (auto simp: InMemoryMembershipStore_def run_simps map_member_def keeps_def quiet_def update_conv' distinct_update
      fun_eq_iff map_add_def simp del: map_of_eq_Some_iff Some_eq_map_of_iff split: option.splits if_splits)

end
