(* ===== verification/Control_Leases.thy ===== *)
theory Control_Leases
  imports Control_State
begin

text \<open>
  \<open>BunSqlLeaseStore\<close> of \<open>apps/control-plane/src/prod-adapters.ts\<close>: the leases in the table
  \<open>controller_leases\<close> of the shared database, whose workspaces must exist; its interpretation as a
  lease store gives the control plane the properties of the lease service.
\<close>

fun repo_message :: "repo_error \<Rightarrow> string" where
  "repo_message (DbError m) = m"
| "repo_message (RepoError m) = m"
| "repo_message (GapDetected i n m) =
     ''gap detected in session '' @ i @ '': expected seq '' @ show_nat n @ '' but found '' @ show_nat m"

definition lease_sql :: "(db \<Rightarrow> (repo_error + 'a) \<times> db) \<Rightarrow> ('w cp, lease_error, 'a) comp" where
  "lease_sql f = zoomC cp_db (\<lambda>d s. s\<lparr>cp_db := d\<rparr>) (\<lambda>e. StoreError (repo_message e)) (sql f)"

definition db_insert :: "ControllerLeaseRecord \<Rightarrow> ('w cp, lease_error, unit) comp" where
  "db_insert r = lease_sql (\<lambda>d.
     if leases_table d (cl_workspaceId r) \<noteq> None then violates ''controller_leases_pkey'' d
     else if workspace_row (cl_workspaceId r) d = None then violates ''controller_leases_workspace_id_fkey'' d
     else (Inr (), d\<lparr>leases_table := (leases_table d)(cl_workspaceId r \<mapsto> r)\<rparr>))"

definition db_update :: "ControllerLeaseRecord \<Rightarrow> ('w cp, lease_error, unit) comp" where
  "db_update r = lease_sql (\<lambda>d. (Inr (),
     if leases_table d (cl_workspaceId r) = None then d
     else d\<lparr>leases_table := (leases_table d)(cl_workspaceId r \<mapsto> r)\<rparr>))"

definition db_upsertIfExpired ::
  "ControllerLeaseRecord \<Rightarrow> int \<Rightarrow> ('w cp, lease_error, ControllerLeaseRecord option) comp" where
  "db_upsertIfExpired r now = lease_sql (\<lambda>d.
     case leases_table d (cl_workspaceId r) of
       None \<Rightarrow> if workspace_row (cl_workspaceId r) d = None then violates ''controller_leases_workspace_id_fkey'' d
               else (Inr (Some r), d\<lparr>leases_table := (leases_table d)(cl_workspaceId r \<mapsto> r)\<rparr>)
     | Some e \<Rightarrow> if expiresAt e \<le> now
               then (Inr (Some r), d\<lparr>leases_table := (leases_table d)(cl_workspaceId r \<mapsto> r)\<rparr>)
               else (Inr None, d))"

definition db_extendIfOwner ::
  "string \<Rightarrow> string \<Rightarrow> int \<Rightarrow> int \<Rightarrow> ('w cp, lease_error, ControllerLeaseRecord option) comp" where
  "db_extendIfOwner w c extendTo now = lease_sql (\<lambda>d.
     case leases_table d w of
       None \<Rightarrow> (Inr None, d)
     | Some e \<Rightarrow>
         if controllerId e = c \<and> expiresAt e > now
         then let r = e\<lparr>expiresAt := extendTo, updatedAt := now\<rparr> in
              (Inr (Some r), d\<lparr>leases_table := (leases_table d)(w \<mapsto> r)\<rparr>)
         else (Inr None, d))"

definition DbLeaseStore :: "'w cp LeaseStore" where
  "DbLeaseStore = \<lparr>
     findByWorkspaceId = (\<lambda>w. lease_sql (getC (\<lambda>d. leases_table d w))),
     tx_insert = db_insert,
     tx_update = db_update,
     tx_delete = (\<lambda>w. lease_sql (\<lambda>d. (Inr (), d\<lparr>leases_table := (leases_table d)(w := None)\<rparr>))),
     upsertIfExpired = db_upsertIfExpired,
     extendIfOwner = db_extendIfOwner\<rparr>"

lemma lease_sql_cases:
  obtains (down) e os where "lease_sql f s = (Inl (StoreError e), s\<lparr>cp_db := (cp_db s)\<lparr>outages := os\<rparr>\<rparr>)"
  | (up) os r d where "f ((cp_db s)\<lparr>outages := os\<rparr>) = (r, d)"
      "lease_sql f s = (map_sum (\<lambda>e. StoreError (repo_message e)) id r, s\<lparr>cp_db := d\<rparr>)"
proof (cases "outages (cp_db s)")
  case Nil
  then have same: "(cp_db s)\<lparr>outages := []\<rparr> = cp_db s" by simp
  obtain r d where f: "f (cp_db s) = (r, d)" by fastforce
  with Nil have "lease_sql f s = (map_sum (\<lambda>e. StoreError (repo_message e)) id r, s\<lparr>cp_db := d\<rparr>)"
    by (simp add: lease_sql_def zoomC_def sql_def split: sum.split)
  with f same up [of "[]" r d] show thesis by simp
next
  case (Cons b os)
  obtain r d where f: "f ((cp_db s)\<lparr>outages := os\<rparr>) = (r, d)" by fastforce
  show thesis
  proof (cases b)
    case True
    with Cons down show thesis by (simp add: lease_sql_def zoomC_def sql_def)
  next
    case False
    with Cons f have "lease_sql f s = (map_sum (\<lambda>e. StoreError (repo_message e)) id r, s\<lparr>cp_db := d\<rparr>)"
      by (simp add: lease_sql_def zoomC_def sql_def split: sum.split)
    with f up show thesis by blast
  qed
qed

text \<open>What a statement did, read off its result.\<close>

lemma lease_sql_returns:
  assumes "lease_sql f s = (Inr a, t)"
  shows "\<exists>os d. f ((cp_db s)\<lparr>outages := os\<rparr>) = (Inr a, d) \<and> t = s\<lparr>cp_db := d\<rparr>"
proof (rule lease_sql_cases [of f s])
  fix os r d
  assume "f ((cp_db s)\<lparr>outages := os\<rparr>) = (r, d)"
    "lease_sql f s = (map_sum (\<lambda>e. StoreError (repo_message e)) id r, s\<lparr>cp_db := d\<rparr>)"
  with assms show ?thesis by (cases r) auto
qed (use assms in auto)

lemma lease_sql_throws:
  assumes "lease_sql f s = (Inl e, t)"
  shows "\<exists>os. t = s\<lparr>cp_db := (cp_db s)\<lparr>outages := os\<rparr>\<rparr> \<or> (\<exists>e' d. f ((cp_db s)\<lparr>outages := os\<rparr>) = (Inl e', d) \<and> t = s\<lparr>cp_db := d\<rparr>)"
proof (rule lease_sql_cases [of f s])
  fix os r d
  assume "f ((cp_db s)\<lparr>outages := os\<rparr>) = (r, d)"
    "lease_sql f s = (map_sum (\<lambda>e. StoreError (repo_message e)) id r, s\<lparr>cp_db := d\<rparr>)"
  with assms show ?thesis by (cases r) auto
qed (use assms in auto)

lemmas db_lease_defs = DbLeaseStore_def db_insert_def db_update_def db_upsertIfExpired_def db_extendIfOwner_def

interpretation db_lease: lease_store DbLeaseStore "\<lambda>s. leases_table (cp_db s)"
  by unfold_locales
     (auto simp: db_lease_defs violates_def run_simps Let_def
           dest!: lease_sql_returns lease_sql_throws split: option.splits if_splits)

end
