(* ===== verification/Iso_Date.thy ===== *)
theory Iso_Date
  imports Repository
begin

text \<open>
  \<open>Date.prototype.toISOString\<close>: the proleptic Gregorian date and the time of day of a number of
  milliseconds since 1970, with \<open>div\<close> and \<open>mod\<close> rounding towards minus infinity.
\<close>

definition MS_PER_DAY :: int where
  "MS_PER_DAY = 86400000"

text \<open>Year, month and day of a day number; eras of 400 years begin on 1 March.\<close>

definition civil :: "int \<Rightarrow> int \<times> int \<times> int" where
  "civil days =
     (let z = days + 719468;
          era = z div 146097;
          doe = z mod 146097;
          yoe = (doe - doe div 1460 + doe div 36524 - doe div 146096) div 365;
          doy = doe - (365 * yoe + yoe div 4 - yoe div 100);
          mp = (5 * doy + 2) div 153;
          m = (if mp < 10 then mp + 3 else mp - 9) in
      (yoe + era * 400 + (if m \<le> 2 then 1 else 0), m, doy - (153 * mp + 2) div 5 + 1))"

definition pad :: "nat \<Rightarrow> int \<Rightarrow> string" where
  "pad n i = (let s = show_nat (nat i) in replicate (n - length s) (CHR ''0'') @ s)"

definition year_string :: "int \<Rightarrow> string" where
  "year_string y = (if 0 \<le> y \<and> y \<le> 9999 then pad 4 y
     else (if y < 0 then ''-'' else ''+'') @ pad 6 (abs y))"

definition iso_string :: "int \<Rightarrow> string" where
  "iso_string t =
     (let (y, m, d) = civil (t div MS_PER_DAY); ms = t mod MS_PER_DAY in
      year_string y @ ''-'' @ pad 2 m @ ''-'' @ pad 2 d @ ''T'' @ pad 2 (ms div 3600000) @ '':''
      @ pad 2 (ms div 60000 mod 60) @ '':'' @ pad 2 (ms div 1000 mod 60) @ ''.'' @ pad 3 (ms mod 1000) @ ''Z'')"

fun stamp_text :: "stamp \<Rightarrow> string" where
  "stamp_text (ISO t) = iso_string t"
| "stamp_text (Unreadable s) = s"

end
