(* ===== verification/Handlers.thy ===== *)
theory Handlers
  imports Control_Leases Iso_Date
begin

text \<open>
  The route handlers of the control plane (\<open>apps/control-plane/src/handlers.ts\<close>). The runtime handles,
  the agent host, GitHub and the readiness probe are parameters, each call of them noted in the state.
  The clock of a request is one reading of it, its random ids are given; what other processes do
  between the two statements of a lost race is \<open>dp_others\<close>.
\<close>

section \<open>Collaborators\<close>

datatype InstanceDiagnostic = Missing | Present string

record 'w RuntimeHandle =
  h_open :: "('w cp, cp_error, runtime_state) comp"
  h_stop :: "ForwardIdentity \<Rightarrow> ('w cp, cp_error, runtime_state) comp"
  h_recordActivity :: "ActivityKind \<Rightarrow> ('w cp, cp_error, unit) comp"
  h_assertAgentInputAllowed :: "('w cp, cp_error, unit) comp"
  h_runManualCheckpoint :: "ForwardIdentity \<Rightarrow> ('w cp, cp_error, bool) comp"
  h_deleteInstance :: "('w cp, cp_error, unit) comp"
  h_getInstanceUrl :: "('w cp, cp_error, string option) comp"
  h_describeInstance :: "('w cp, cp_error, InstanceDiagnostic) comp option"

datatype forward_error = AgentHostConflictError string | AgentHostForwardError string

record 'w MessageForwarder =
  fw_forward :: "string \<Rightarrow> string \<Rightarrow> string \<Rightarrow> nat \<Rightarrow> string \<Rightarrow> ForwardIdentity \<Rightarrow> ('w cp, forward_error, unit) comp"
  fw_forwardApproval :: "string \<Rightarrow> string \<Rightarrow> string \<Rightarrow> string \<Rightarrow> string \<Rightarrow> ForwardIdentity \<Rightarrow> ('w cp, forward_error, unit) comp"
  fw_forwardCancel :: "string \<Rightarrow> string \<Rightarrow> string \<Rightarrow> ForwardIdentity \<Rightarrow> ('w cp, forward_error, unit) comp"

datatype authz_error = RepositoryInputError string | RepositoryAuthorizerTransientError | AuthorizerError cp_error

record OAuthConfig =
  appOrigin :: string
  githubClientId :: string
  githubClientSecret :: string

datatype oauth_error = GitHubOAuthError string | OtherOAuthError cp_error

text \<open>\<open>exchangeCode\<close> with code, verifier, redirect URI and configuration; \<open>getUser\<close> with the token.\<close>

record 'w GitHubUserAuthClient =
  gh_exchangeCode :: "string \<Rightarrow> string \<Rightarrow> string \<Rightarrow> OAuthConfig \<Rightarrow> ('w cp, oauth_error, string) comp"
  gh_getUser :: "string \<Rightarrow> ('w cp, oauth_error, nat \<times> string) comp"

record 'w deps =
  dp_membership :: "'w cp MembershipStore"
  dp_leases :: "'w cp LeaseStore"
  dp_sessions :: "'w cp SessionStore"
  dp_oauth :: "OAuthConfig option"
  dp_githubAuth :: "'w GitHubUserAuthClient option"
  dp_authorizer :: "(string \<Rightarrow> string \<Rightarrow> string \<Rightarrow> string \<Rightarrow> ('w cp, authz_error, bool) comp) option"
  dp_factory :: "handle_key \<Rightarrow> ('w cp, cp_error, unit) comp"
  dp_handle :: "handle_key \<Rightarrow> 'w RuntimeHandle"
  dp_forwarder :: "'w MessageForwarder option"
  dp_readiness :: "('w cp, cp_error, bool \<times> string) comp option"
  dp_sha :: "string \<Rightarrow> string"
  dp_others :: "'w cp \<Rightarrow> 'w cp"
  dp_public :: "string \<Rightarrow> string option"

text \<open>The clock and the random values of one request.\<close>

record env =
  en_now :: int
  en_uuid :: string
  en_errorId :: string
  en_state :: string
  en_verifier :: string
  en_nonce :: string
  en_token :: string

record RouteContext =
  cx_request :: Request
  cx_params :: "string \<rightharpoonup> string"
  cx_env :: env
  cx_user :: AuthenticatedUser

type_synonym 'w handler = "'w deps \<Rightarrow> RouteContext \<Rightarrow> ('w cp, cp_error, Response) comp"

section \<open>The registry of runtime handles\<close>

definition callC :: "call \<Rightarrow> ('w cp, 'e, 'a) comp \<Rightarrow> ('w cp, 'e, 'a) comp" where
  "callC c m = thenC (noteC c) m"

definition runtimes_get :: "'w deps \<Rightarrow> Workspace \<Rightarrow> string option \<Rightarrow> ('w cp, cp_error, handle_key) comp" where
  "runtimes_get deps w ctl =
     bindC (getC (\<lambda>s. cp_registry s (w_id w))) (\<lambda>cached.
       case (case cached of
               None \<Rightarrow> None
             | Some r \<Rightarrow> if reg_pinned r \<or> ctl = None \<or> snd (reg_key r) = ctl then Some (reg_key r) else None) of
         Some k \<Rightarrow> ret k
       | None \<Rightarrow>
           thenC (dp_factory deps (w, ctl))
          (thenC (modifyC (\<lambda>s. s\<lparr>cp_registry := (cp_registry s)(w_id w \<mapsto> \<lparr>reg_key = (w, ctl), reg_pinned = False\<rparr>)\<rparr>))
             (ret (w, ctl))))"

section \<open>Lookups and checks\<close>

definition loadWorkspace :: "string \<Rightarrow> ('w cp, cp_error, Workspace) comp" where
  "loadWorkspace i = bindC (dbq (getWorkspace i)) (\<lambda>w. case w of
       None \<Rightarrow> throwC (notFound (''workspace '' @ i @ '' not found''))
     | Some w \<Rightarrow> ret w)"

definition loadSession :: "string \<Rightarrow> ('w cp, cp_error, Session) comp" where
  "loadSession i = bindC (dbq (getSession i)) (\<lambda>s. case s of
       None \<Rightarrow> throwC (notFound (''session '' @ i @ '' not found''))
     | Some s \<Rightarrow> ret s)"

definition loadSessionForMember :: "'w deps \<Rightarrow> string \<Rightarrow> string \<Rightarrow> ('w cp, cp_error, Session) comp" where
  "loadSessionForMember deps i u =
     bindC (loadSession i) (\<lambda>s. thenC (assertMember (dp_membership deps) (s_workspaceId s) u) (ret s))"

definition leaseC :: "('w cp, lease_error, 'a) comp \<Rightarrow> ('w cp, cp_error, 'a) comp" where
  "leaseC m = zoomC (\<lambda>s. s) (\<lambda>t _. t) LeaseError m"

definition requireController :: "'w deps \<Rightarrow> int \<Rightarrow> string \<Rightarrow> string \<Rightarrow> ('w cp, cp_error, ControllerLeaseRecord) comp" where
  "requireController deps now w u =
     bindC (leaseC (getActive (dp_leases deps) now w)) (\<lambda>lease. case lease of
         None \<Rightarrow> throwC (conflict ''no active controller for this workspace'')
       | Some l \<Rightarrow>
           if userId l \<noteq> u then throwC (conflict ''only the controller can perform this operation'')
           else ret l)"

text \<open>The prefix every workspace route shares: the row, then membership.\<close>

definition memberWorkspace :: "'w deps \<Rightarrow> RouteContext \<Rightarrow> string \<Rightarrow> ('w cp, cp_error, Workspace) comp" where
  "memberWorkspace deps ctx i =
     bindC (loadWorkspace i) (\<lambda>w.
       thenC (assertMember (dp_membership deps) (w_id w) (user_id (cx_user ctx))) (ret w))"

section \<open>DTOs\<close>

definition toWorkspaceDto :: "Workspace \<Rightarrow> json" where
  "toWorkspaceDto w = JObj [(''id'', JStr (w_id w)), (''ownerId'', JStr (ownerId w)),
     (''repositoryOwner'', JStr (repositoryOwner w)), (''repositoryName'', JStr (repositoryName w)),
     (''baseBranch'', JStr (baseBranch w)), (''runtimeState'', JStr (state_text (runtimeState w))),
     (''createdAt'', JStr (stamp_text (w_createdAt w))), (''updatedAt'', JStr (stamp_text (w_updatedAt w)))]"

definition toSessionDto :: "Session \<Rightarrow> json" where
  "toSessionDto s = JObj [(''id'', JStr (s_id s)), (''workspaceId'', JStr (s_workspaceId s)), (''metadata'', metadata s),
     (''createdAt'', JStr (stamp_text (s_createdAt s))), (''updatedAt'', JStr (stamp_text (s_updatedAt s)))]"

definition toEventDto :: "SessionEvent \<Rightarrow> json" where
  "toEventDto e = JObj [(''sessionId'', JStr (e_sessionId e)), (''seq'', JNum (int (seq e))),
     (''eventType'', JStr (eventType e)), (''eventTime'', JNum (eventTime e)), (''data'', data e)]"

definition toLeaseDto :: "ControllerLeaseRecord \<Rightarrow> json" where
  "toLeaseDto l = JObj [(''workspaceId'', JStr (cl_workspaceId l)), (''controllerId'', JStr (controllerId l)),
     (''expiresAt'', JStr (iso_string (expiresAt l)))]"

section \<open>Creating, reading and listing workspaces\<close>

definition name_char :: "char \<Rightarrow> bool" where
  "name_char c \<longleftrightarrow> alnum c \<or> c \<in> set ''_.-''"

definition validateRepositoryCoordinates :: "string \<Rightarrow> string \<Rightarrow> authz_error + unit" where
  "validateRepositoryCoordinates owner repo =
     (if \<not> (owner \<noteq> [] \<and> length owner \<le> 39 \<and> alnum (hd owner) \<and> alnum (last owner)
            \<and> (\<forall>c \<in> set owner. alnum c \<or> c = CHR ''-''))
      then Inl (RepositoryInputError (''invalid repository owner (want 1-39 chars of [A-Za-z0-9-], not leading/trailing ''
             @ [quote_mark] @ ''-'' @ [quote_mark] @ '')''))
      else if \<not> (repo \<noteq> [] \<and> length repo \<le> 100 \<and> (\<forall>c \<in> set repo. name_char c)) \<or> repo = ''.'' \<or> repo = ''..''
      then Inl (RepositoryInputError ''invalid repository name (want 1-100 chars of [A-Za-z0-9_.-])'')
      else Inr ())"

fun authz_to_api :: "authz_error \<Rightarrow> cp_error" where
  "authz_to_api (RepositoryInputError m) = badRequest m"
| "authz_to_api RepositoryAuthorizerTransientError =
     badGateway (''repository authorization is temporarily unavailable '' @ em_dash @ '' retry later'')"
| "authz_to_api (AuthorizerError e) = e"

definition authorizeRepository :: "'w deps \<Rightarrow> AuthenticatedUser \<Rightarrow> string \<Rightarrow> string \<Rightarrow> ('w cp, cp_error, unit) comp" where
  "authorizeRepository deps u owner repo = (case dp_authorizer deps of
       None \<Rightarrow> ret ()
     | Some can \<Rightarrow>
         (case validateRepositoryCoordinates owner repo of
            Inl e \<Rightarrow> throwC (authz_to_api e)
          | Inr _ \<Rightarrow>
              bindC (tryC (callC (AuthorizerCall owner repo (providerUserId u) (user_login u))
                  (can owner repo (providerUserId u) (user_login u)))) (\<lambda>r. case r of
                  Inl e \<Rightarrow> throwC (authz_to_api e)
                | Inr allowed \<Rightarrow>
                    if \<not> allowed then throwC (forbidden ''repository is not accessible with this identity'')
                    else ret ())))"

definition createWorkspace_handler :: "'w handler" where
  "createWorkspace_handler deps ctx =
     bindC (liftE (parseJsonBody (cx_request ctx))) (\<lambda>body.
     bindC (liftE (requireString body ''repositoryOwner'')) (\<lambda>owner.
     bindC (liftE (requireString body ''repositoryName'')) (\<lambda>name.
     bindC (liftE (optionalString body ''baseBranch'')) (\<lambda>branch.
     thenC (authorizeRepository deps (cx_user ctx) owner name)
    (bindC (dbq (createWorkspace \<lparr>in_id = en_uuid (cx_env ctx), in_ownerId = user_id (cx_user ctx),
         in_repositoryOwner = owner, in_repositoryName = name,
         in_baseBranch = (case branch of None \<Rightarrow> ''main'' | Some b \<Rightarrow> b),
         in_instanceName = None, in_instanceUrl = None, in_runtimeState = Some STOPPED\<rparr>)) (\<lambda>w.
     thenC (ms_addMember (dp_membership deps) (w_id w) (user_id (cx_user ctx)))
       (ret (json_response (toWorkspaceDto w) 201))))))))"

definition STALE_STARTING_THRESHOLD_MS :: int where
  "STALE_STARTING_THRESHOLD_MS = 10 * 60 * 1000"

definition FAST_FAIL_INSTANCE_GRACE_MS :: int where
  "FAST_FAIL_INSTANCE_GRACE_MS = 2 * 60 * 1000"

definition STALE_STARTING_STATES :: "runtime_state list" where
  "STALE_STARTING_STATES = [STARTING, RESTORING]"

definition instance_name_or_default :: "Workspace \<Rightarrow> string" where
  "instance_name_or_default w = (case instanceName w of Some n \<Rightarrow> n | None \<Rightarrow> ''dsh-'' @ w_id w)"

definition probeInstanceFailureOnce :: "'w deps \<Rightarrow> Workspace \<Rightarrow> ('w cp, cp_error, string option) comp" where
  "probeInstanceFailureOnce deps w =
     bindC (tryC (runtimes_get deps w None)) (\<lambda>g. case g of
       Inl (_ :: cp_error) \<Rightarrow> ret None
     | Inr k \<Rightarrow> (case h_describeInstance (dp_handle deps k) of
         None \<Rightarrow> ret None
       | Some describe \<Rightarrow>
           bindC (tryC (callC (DescribeCall k) describe)) (\<lambda>r. case r of
             Inl (_ :: cp_error) \<Rightarrow> ret None
           | Inr Missing \<Rightarrow> ret (Some (''instance '' @ instance_name_or_default w
                 @ '' not found (never created or already deleted)''))
           | Inr (Present st) \<Rightarrow>
               if st = ''FAILED'' then ret (Some (''instance '' @ instance_name_or_default w @ '' is FAILED''))
               else ret None)))"

definition markOrServeWinner :: "'w deps \<Rightarrow> Workspace \<Rightarrow> string \<Rightarrow> ('w cp, cp_error, Workspace) comp" where
  "markOrServeWinner deps w reason =
     thenC (modifyC (dp_others deps))
    (bindC (dbq (markRestoreFailedIfStarting (w_id w) reason)) (\<lambda>marked. case marked of
         Some m \<Rightarrow> ret m
       | None \<Rightarrow> bindC (dbq (getWorkspace (w_id w))) (\<lambda>current.
           ret (case current of None \<Rightarrow> w | Some c \<Rightarrow> c))))"

definition stale_reason :: "Workspace \<Rightarrow> string" where
  "stale_reason w = ''no progress for 10m while '' @ state_text (runtimeState w)
     @ '' (agent-host never reported READY; instance was present but unready, or the lookup failed)''"

definition failStaleStartingWorkspace :: "'w deps \<Rightarrow> int \<Rightarrow> Workspace \<Rightarrow> ('w cp, cp_error, Workspace) comp" where
  "failStaleStartingWorkspace deps now w =
     (if runtimeState w \<notin> set STALE_STARTING_STATES then ret w
      else (case date_parse (w_updatedAt w) of
          None \<Rightarrow> ret w
        | Some updatedMs \<Rightarrow>
            let ageMs = now - updatedMs in
            bindC (if ageMs > FAST_FAIL_INSTANCE_GRACE_MS then probeInstanceFailureOnce deps w else ret None)
              (\<lambda>fastReason. case fastReason of
                Some reason \<Rightarrow>
                  thenC (logC ''control-plane.open.fast-fail-starting'' [(''workspaceId'', w_id w),
                           (''runtimeState'', state_text (runtimeState w)),
                           (''instanceName'', instance_name_or_default w), (''reason'', reason)])
                    (markOrServeWinner deps w reason)
              | None \<Rightarrow>
                  if ageMs \<le> STALE_STARTING_THRESHOLD_MS then ret w
                  else thenC (logC ''control-plane.open.stale-starting-failed'' [(''workspaceId'', w_id w),
                           (''runtimeState'', state_text (runtimeState w)),
                           (''updatedAt'', stamp_text (w_updatedAt w)), (''reason'', stale_reason w)])
                    (markOrServeWinner deps w (stale_reason w)))))"

definition getWorkspace_handler :: "'w handler" where
  "getWorkspace_handler deps ctx =
     bindC (liftE (requireSegment (cx_params ctx ''id'') ''id'')) (\<lambda>i.
     bindC (memberWorkspace deps ctx i) (\<lambda>w.
     bindC (failStaleStartingWorkspace deps (en_now (cx_env ctx)) w) (\<lambda>fresh.
       ret (json_response (toWorkspaceDto fresh) 200))))"

definition listWorkspaces_handler :: "'w handler" where
  "listWorkspaces_handler deps ctx =
     bindC (ms_listWorkspaceIdsForUser (dp_membership deps) (user_id (cx_user ctx))) (\<lambda>ids.
       if ids = [] then ret (json_response (JObj [(''workspaces'', JArr [])]) 200)
       else bindC (dbq (listWorkspacesByIds ids)) (\<lambda>ws.
         ret (json_response (JObj [(''workspaces'', JArr (map toWorkspaceDto ws))]) 200)))"

end
