(* ===== verification/Handlers_Runtime.thy ===== *)
theory Handlers_Runtime
  imports Handlers
begin

text \<open>
  The handlers of \<open>handlers.ts\<close> that reach the runtime of a workspace or the controller lease: open,
  stop, delete, sessions, checkpoint, the three agent inputs and the lease routes.
\<close>

section \<open>Thrown values as text\<close>

text \<open>Name and message of what is thrown.\<close>

fun error_text :: "cp_error \<Rightarrow> string \<times> string" where
  "error_text (ApiError _ _ m) = (''ApiError'', m)"
| "error_text (RuntimeError k) = runtime_error_text k"
| "error_text (LeaseError e) = lease_error_text e"
| "error_text (RepositoryError e) = (''Error'', repo_message e)"
| "error_text (OtherError m) = (''Error'', m)"

definition error_value :: "cp_error \<Rightarrow> failure_value" where
  "error_value e = (case error_text e of (n, m) \<Rightarrow> ErrorValue n m)"

section \<open>Opening\<close>

definition ensureControllerLeaseForOpen :: "'w deps \<Rightarrow> env \<Rightarrow> string \<Rightarrow> string \<Rightarrow> ('w cp, cp_error, string) comp" where
  "ensureControllerLeaseForOpen deps en w u =
     bindC (leaseC (getActive (dp_leases deps) (en_now en) w)) (\<lambda>active. case active of
         Some l \<Rightarrow> ret (controllerId l)
       | None \<Rightarrow>
           bindC (tryC (leaseC (acquire (dp_leases deps) (en_now en) (dp_others deps) w (en_uuid en) u))) (\<lambda>r. case r of
             Inr l \<Rightarrow> ret (controllerId l)
           | Inl e \<Rightarrow> (case e of
               LeaseError (LeaseAlreadyHeldError _ _) \<Rightarrow>
                 bindC (leaseC (getActive (dp_leases deps) (en_now en) w)) (\<lambda>winner. case winner of
                     Some l \<Rightarrow> ret (controllerId l)
                   | None \<Rightarrow> throwC e)
             | _ \<Rightarrow> throwC e)))"

definition recordInRequestOpenFailureBestEffort :: "string \<Rightarrow> cp_error \<Rightarrow> ('w cp, cp_error, unit) comp" where
  "recordInRequestOpenFailureBestEffort w e =
     (let reason = summarizeRestoreError (error_value e) in
      bindC (tryC (dbq (recordRestoreErrorIfFailed w reason))) (\<lambda>r. case r of
          Inl (_ :: cp_error) \<Rightarrow> ret ()
        | Inr recorded \<Rightarrow> logC ''control-plane.open.in-request-failed'' [(''workspaceId'', w), (''reason'', reason),
            (''recorded'', if recorded \<noteq> None then ''true'' else ''false'')]))"

definition state_response :: "string \<Rightarrow> runtime_state \<Rightarrow> nat \<Rightarrow> Response" where
  "state_response w st n = json_response (JObj [(''workspaceId'', JStr w), (''state'', JStr (state_text st))]) n"

definition openWorkspace :: "'w handler" where
  "openWorkspace deps ctx =
     bindC (liftE (requireSegment (cx_params ctx ''id'') ''id'')) (\<lambda>i.
     bindC (liftE (parseOptionalJsonBody (cx_request ctx))) (\<lambda>_.
     bindC (memberWorkspace deps ctx i) (\<lambda>w.
     bindC (ensureControllerLeaseForOpen deps (cx_env ctx) (w_id w) (user_id (cx_user ctx))) (\<lambda>c.
     bindC (failStaleStartingWorkspace deps (en_now (cx_env ctx)) w) (\<lambda>current.
       if runtimeState current = STARTING \<or> runtimeState current = RESTORING
       then ret (state_response (w_id current) (runtimeState current) 202)
       else bindC (runtimes_get deps current (Some c)) (\<lambda>k.
            bindC (catchC (callC (OpenCall k) (h_open (dp_handle deps k)))
                (\<lambda>e. thenC (recordInRequestOpenFailureBestEffort (w_id current) e) (throwC e))) (\<lambda>st.
              ret (state_response (w_id current) st (if st = READY then 200 else 202)))))))))"

definition stopWorkspace :: "'w handler" where
  "stopWorkspace deps ctx =
     bindC (liftE (requireSegment (cx_params ctx ''id'') ''id'')) (\<lambda>i.
     bindC (liftE (parseOptionalJsonBody (cx_request ctx))) (\<lambda>_.
     bindC (memberWorkspace deps ctx i) (\<lambda>w.
     bindC (runtimes_get deps w None) (\<lambda>k.
     bindC (callC (StopCall k (identity (cx_user ctx))) (h_stop (dp_handle deps k) (identity (cx_user ctx)))) (\<lambda>st.
       ret (state_response (w_id w) st 200))))))"

section \<open>Deleting\<close>

fun forget_members :: "'w deps \<Rightarrow> string \<Rightarrow> string list \<Rightarrow> ('w cp, cp_error, unit) comp" where
  "forget_members deps w [] = ret ()"
| "forget_members deps w (u # us) =
     bindC (tryC (ms_removeMember (dp_membership deps) w u)) (\<lambda>(_ :: cp_error + unit). forget_members deps w us)"

definition deleteWorkspace_handler :: "'w handler" where
  "deleteWorkspace_handler deps ctx =
     bindC (liftE (requireSegment (cx_params ctx ''id'') ''id'')) (\<lambda>i.
     bindC (memberWorkspace deps ctx i) (\<lambda>w.
     bindC (runtimes_get deps w None) (\<lambda>k.
     bindC (tryC (callC (DeleteCall k) (h_deleteInstance (dp_handle deps k)))) (\<lambda>r. case r of
         Inl e \<Rightarrow>
           thenC (logC ''control-plane.workspace-delete.instance-failed''
             ([(''workspaceId'', w_id w)] @ (case instanceName w of None \<Rightarrow> [] | Some n \<Rightarrow> [(''instanceName'', n)])
              @ [(''error'', snd (error_text e))]))
             (throwC (badGateway (''workspace instance could not be deleted '' @ em_dash
                @ '' the workspace was kept; retry later'')))
       | Inr _ \<Rightarrow>
           bindC (dbq (deleteWorkspace (w_id w))) (\<lambda>deleted.
             if \<not> deleted then throwC (notFound (''workspace '' @ i @ '' not found''))
             else
               thenC (bindC (tryC (bindC (ms_listMembers (dp_membership deps) (w_id w)) (forget_members deps (w_id w))))
                        (\<lambda>(_ :: cp_error + unit). ret ()))
              (thenC (logC ''control-plane.workspace-deleted'' ([(''workspaceId'', w_id w)]
                        @ (case instanceName w of None \<Rightarrow> [] | Some n \<Rightarrow> [(''instanceName'', n)])))
                 (ret (json_response (JObj [(''workspaceId'', JStr (w_id w)), (''deleted'', JBool True)]) 200))))))))"

section \<open>Sessions and checkpoints\<close>

definition listSessions_handler :: "'w handler" where
  "listSessions_handler deps ctx =
     bindC (liftE (requireSegment (cx_params ctx ''id'') ''id'')) (\<lambda>i.
     bindC (memberWorkspace deps ctx i) (\<lambda>w.
     bindC (dbq (listSessions (w_id w))) (\<lambda>ss.
       ret (json_response (JObj [(''sessions'', JArr (map toSessionDto ss))]) 200))))"

definition createSession_handler :: "'w handler" where
  "createSession_handler deps ctx =
     bindC (liftE (requireSegment (cx_params ctx ''id'') ''id'')) (\<lambda>i.
     bindC (liftE (parseOptionalJsonBody (cx_request ctx))) (\<lambda>body.
     bindC (liftE (optionalObject body ''metadata'')) (\<lambda>m.
     bindC (memberWorkspace deps ctx i) (\<lambda>w.
     bindC (dbq (createSession (en_uuid (cx_env ctx)) (w_id w) (Some (case m of None \<Rightarrow> JObj [] | Some v \<Rightarrow> v)))) (\<lambda>s.
       ret (json_response (toSessionDto s) 201))))))"

definition manualCheckpoint :: "'w handler" where
  "manualCheckpoint deps ctx =
     bindC (liftE (requireSegment (cx_params ctx ''id'') ''id'')) (\<lambda>i.
     bindC (liftE (parseOptionalJsonBody (cx_request ctx))) (\<lambda>_.
     bindC (memberWorkspace deps ctx i) (\<lambda>w.
     bindC (requireController deps (en_now (cx_env ctx)) (w_id w) (user_id (cx_user ctx))) (\<lambda>_.
     bindC (runtimes_get deps w None) (\<lambda>k.
     bindC (callC (CheckpointCall k (identity (cx_user ctx)))
              (h_runManualCheckpoint (dp_handle deps k) (identity (cx_user ctx)))) (\<lambda>wasSkipped.
       ret (json_response (JObj [(''workspaceId'', JStr (w_id w)), (''checkpointed'', JBool True),
              (''skipped'', JBool wasSkipped)]) 200)))))))"

section \<open>Agent input\<close>

text \<open>
  Messages, approvals and cancels share their steps: the caller must hold the lease, the runtime must
  accept input, the activity is reported, and the URL to forward to is found before anything is written.
\<close>

definition agentInput :: "'w deps \<Rightarrow> RouteContext \<Rightarrow> Session \<Rightarrow> ActivityKind \<Rightarrow>
    ('w cp, cp_error, Workspace \<times> string option) comp" where
  "agentInput deps ctx s activity =
     bindC (requireController deps (en_now (cx_env ctx)) (s_workspaceId s) (user_id (cx_user ctx))) (\<lambda>_.
     bindC (loadWorkspace (s_workspaceId s)) (\<lambda>w.
     bindC (runtimes_get deps w None) (\<lambda>k.
     thenC (callC (GateCall k) (h_assertAgentInputAllowed (dp_handle deps k)))
    (thenC (callC (ActivityCall k activity) (h_recordActivity (dp_handle deps k) activity))
    (bindC (if dp_forwarder deps = None then ret None
            else bindC (callC (UrlCall k) (h_getInstanceUrl (dp_handle deps k))) (\<lambda>url.
              if url = None \<or> url = Some []
              then throwC (conflict (''workspace instance is not running '' @ em_dash @ '' open the workspace first, then retry''))
              else ret url)) (\<lambda>url. ret (w, url)))))))"

definition appendOne :: "Session \<Rightarrow> env \<Rightarrow> string \<Rightarrow> json \<Rightarrow> ('w cp, cp_error, SessionEvent) comp" where
  "appendOne s en type v =
     bindC (dbq (append_events (s_id s) [\<lparr>eventType = type, eventTime = en_now en, data = v,
                   sourceEventSeqs = None, surfaceOp = None\<rparr>])) (\<lambda>es. case es of
         [] \<Rightarrow> throwC (OtherError ''event is undefined'')
       | e # _ \<Rightarrow> ret e)"

definition forwarding :: "(string \<times> string) list \<Rightarrow> string \<Rightarrow> ('w cp, forward_error, unit) comp \<Rightarrow> ('w cp, cp_error, unit) comp" where
  "forwarding line failure m =
     bindC (tryC m) (\<lambda>r. case r of
         Inr _ \<Rightarrow> ret ()
       | Inl (AgentHostConflictError msg) \<Rightarrow> throwC (conflict msg)
       | Inl (AgentHostForwardError msg) \<Rightarrow>
           thenC (logC ''control-plane.forward.failed'' (line @ [(''error'', msg)])) (throwC (badGateway failure)))"

definition postMessage :: "'w handler" where
  "postMessage deps ctx =
     bindC (liftE (requireSegment (cx_params ctx ''id'') ''id'')) (\<lambda>i.
     bindC (liftE (parseJsonBody (cx_request ctx))) (\<lambda>body.
     bindC (liftE (requireString body ''content'')) (\<lambda>content.
     bindC (loadSessionForMember deps i (user_id (cx_user ctx))) (\<lambda>s.
     bindC (agentInput deps ctx s user_message) (\<lambda>(w, url).
     bindC (appendOne s (cx_env ctx) ''user_message'' (JObj [(''content'', JStr content)])) (\<lambda>e.
     thenC (case (dp_forwarder deps, url) of
         (Some fw, Some u) \<Rightarrow>
           forwarding [(''workspaceId'', w_id w), (''sessionId'', s_id s), (''seq'', show_nat (seq e))]
             (''message recorded but the workspace instance did not accept it '' @ em_dash @ '' the turn did not start'')
             (callC (ForwardMessage u (w_id w) (s_id s) (seq e) content (identity (cx_user ctx)))
               (fw_forward fw u (w_id w) (s_id s) (seq e) content (identity (cx_user ctx))))
       | _ \<Rightarrow> ret ())
       (ret (json_response (toEventDto e) 201))))))))"

definition postApproval :: "'w handler" where
  "postApproval deps ctx =
     bindC (liftE (requireSegment (cx_params ctx ''id'') ''id'')) (\<lambda>i.
     bindC (liftE (requireSegment (cx_params ctx ''approvalId'') ''approvalId'')) (\<lambda>a.
     bindC (liftE (parseOptionalJsonBody (cx_request ctx))) (\<lambda>body.
     bindC (liftE (optionalString body ''decision'')) (\<lambda>given.
     (let decision = (case given of None \<Rightarrow> ''approved'' | Some d \<Rightarrow> d) in
      if decision \<noteq> ''approved'' \<and> decision \<noteq> ''rejected''
      then throwC (field_message ''decision'' ('' must be '' @ [quote_mark] @ ''approved'' @ [quote_mark] @ '' or ''
             @ [quote_mark] @ ''rejected'' @ [quote_mark]))
      else
     bindC (loadSessionForMember deps i (user_id (cx_user ctx))) (\<lambda>s.
     bindC (agentInput deps ctx s approval) (\<lambda>(w, url).
     bindC (appendOne s (cx_env ctx) ''approval'' (JObj [(''approvalId'', JStr a), (''decision'', JStr decision)])) (\<lambda>e.
     thenC (case (dp_forwarder deps, url) of
         (Some fw, Some u) \<Rightarrow>
           forwarding [(''kind'', ''approval''), (''workspaceId'', w_id w), (''sessionId'', s_id s), (''approvalId'', a)]
             (''approval recorded but the workspace instance did not accept it '' @ em_dash
                @ '' the decision did not reach the turn'')
             (callC (ForwardApproval u (w_id w) (s_id s) a decision (identity (cx_user ctx)))
               (fw_forwardApproval fw u (w_id w) (s_id s) a decision (identity (cx_user ctx))))
       | _ \<Rightarrow> ret ())
       (ret (json_response (toEventDto e) 201))))))))))"

definition postCancel :: "'w handler" where
  "postCancel deps ctx =
     bindC (liftE (requireSegment (cx_params ctx ''id'') ''id'')) (\<lambda>i.
     bindC (liftE (parseOptionalJsonBody (cx_request ctx))) (\<lambda>_.
     bindC (loadSessionForMember deps i (user_id (cx_user ctx))) (\<lambda>s.
     bindC (agentInput deps ctx s workspace_operation) (\<lambda>(w, url).
     bindC (appendOne s (cx_env ctx) ''cancel'' (JObj [(''cancelledBy'', JStr (user_id (cx_user ctx)))])) (\<lambda>e.
     thenC (case (dp_forwarder deps, url) of
         (Some fw, Some u) \<Rightarrow>
           forwarding [(''kind'', ''cancel''), (''workspaceId'', w_id w), (''sessionId'', s_id s)]
             (''cancel recorded but the workspace instance did not accept it '' @ em_dash @ '' the turn was not interrupted'')
             (callC (ForwardCancel u (w_id w) (s_id s) (identity (cx_user ctx)))
               (fw_forwardCancel fw u (w_id w) (s_id s) (identity (cx_user ctx))))
       | _ \<Rightarrow> ret ())
       (ret (json_response (toEventDto e) 201)))))))"

section \<open>The controller lease\<close>

definition not_owned :: cp_error where
  "not_owned = conflict ''controller lease is not owned by this controller''"

definition acquireController :: "'w handler" where
  "acquireController deps ctx =
     bindC (liftE (requireSegment (cx_params ctx ''id'') ''id'')) (\<lambda>i.
     bindC (liftE (parseOptionalJsonBody (cx_request ctx))) (\<lambda>_.
     bindC (memberWorkspace deps ctx i) (\<lambda>w.
     bindC (catchC (leaseC (acquire (dp_leases deps) (en_now (cx_env ctx)) (dp_others deps) (w_id w)
                       (en_uuid (cx_env ctx)) (user_id (cx_user ctx))))
              (\<lambda>e. case e of
                  LeaseError (LeaseAlreadyHeldError _ holder) \<Rightarrow> throwC (conflict (''controller lease already held by '' @ holder))
                | _ \<Rightarrow> throwC e)) (\<lambda>l.
       ret (json_response (toLeaseDto l) 200)))))"

definition heartbeatController :: "'w handler" where
  "heartbeatController deps ctx =
     bindC (liftE (requireSegment (cx_params ctx ''id'') ''id'')) (\<lambda>i.
     bindC (liftE (parseJsonBody (cx_request ctx))) (\<lambda>body.
     bindC (liftE (requireString body ''controllerId'')) (\<lambda>c.
     bindC (memberWorkspace deps ctx i) (\<lambda>w.
     bindC (catchC (leaseC (heartbeat (dp_leases deps) (en_now (cx_env ctx)) (dp_others deps) (w_id w) c))
              (\<lambda>e. case e of
                  LeaseError (LeaseNotFoundError _) \<Rightarrow> throwC (notFound (''no controller lease for workspace '' @ w_id w))
                | LeaseError (NotLeaseOwnerError _ _) \<Rightarrow> throwC not_owned
                | LeaseError (LeaseExpiredError _) \<Rightarrow> throwC not_owned
                | _ \<Rightarrow> throwC e)) (\<lambda>l.
       ret (json_response (toLeaseDto l) 200))))))"

definition releaseController :: "'w handler" where
  "releaseController deps ctx =
     bindC (liftE (requireSegment (cx_params ctx ''id'') ''id'')) (\<lambda>i.
     bindC (liftE (parseJsonBody (cx_request ctx))) (\<lambda>body.
     bindC (liftE (requireString body ''controllerId'')) (\<lambda>c.
     bindC (memberWorkspace deps ctx i) (\<lambda>w.
     thenC (catchC (leaseC (release (dp_leases deps) (w_id w) c))
              (\<lambda>e. case e of
                  LeaseError (LeaseNotFoundError _) \<Rightarrow> throwC (notFound (''no controller lease for workspace '' @ w_id w))
                | LeaseError (NotLeaseOwnerError _ _) \<Rightarrow> throwC not_owned
                | _ \<Rightarrow> throwC e))
       (ret (json_response (JObj [(''released'', JBool True)]) 200))))))"

definition getControllerStatus :: "'w handler" where
  "getControllerStatus deps ctx =
     bindC (liftE (requireSegment (cx_params ctx ''id'') ''id'')) (\<lambda>i.
     bindC (memberWorkspace deps ctx i) (\<lambda>w.
     bindC (leaseC (getActive (dp_leases deps) (en_now (cx_env ctx)) (w_id w))) (\<lambda>lease. ret (json_response (JObj (case lease of
         None \<Rightarrow> [(''held'', JBool False), (''mine'', JBool False), (''expiresAt'', JNull)]
       | Some l \<Rightarrow> [(''held'', JBool True), (''mine'', JBool (userId l = user_id (cx_user ctx))),
           (''expiresAt'', JStr (iso_string (expiresAt l)))])) 200))))"

end
