(* ===== verification/Auth_Github.thy ===== *)
theory Auth_Github
  imports Handlers_Runtime
begin

text \<open>
  The GitHub login (\<open>apps/control-plane/src/auth-github.ts\<close>): the client over a \<open>fetch\<close> that is a
  parameter, the helpers of the flow, and its four route handlers.
\<close>

section \<open>The client\<close>

text \<open>How a fetch raced against its timeout ends: a reply with its status and text, a timeout, or an error.\<close>

datatype fetch_result = Reply nat string | TimedOut | FetchError string

definition short_error :: "string \<Rightarrow> string" where
  "short_error m = take 120 m"

definition with_timeout :: "string \<Rightarrow> string \<Rightarrow> nat \<Rightarrow> fetch_result \<Rightarrow> oauth_error + (nat \<times> string)" where
  "with_timeout label unreachable timeoutMs r = (case r of
       Reply st b \<Rightarrow> Inr (st, b)
     | TimedOut \<Rightarrow> Inl (GitHubOAuthError (label @ '' timed out after '' @ show_nat timeoutMs @ ''ms''))
     | FetchError m \<Rightarrow> Inl (GitHubOAuthError (unreachable @ '' unreachable: '' @ short_error m)))"

definition ok_status :: "nat \<Rightarrow> bool" where
  "ok_status st \<longleftrightarrow> 200 \<le> st \<and> st \<le> 299"

definition exchangeCode :: "nat \<Rightarrow> fetch_result \<Rightarrow> oauth_error + string" where
  "exchangeCode timeoutMs r =
     (case with_timeout ''token endpoint'' ''token endpoint'' timeoutMs r of
        Inl e \<Rightarrow> Inl e
      | Inr (st, b) \<Rightarrow>
          if \<not> ok_status st then Inl (GitHubOAuthError (''token endpoint answered '' @ show_nat st))
          else (case json_parse (decodeText b) of
              None \<Rightarrow> Inl (GitHubOAuthError ''token endpoint answered non-JSON'')
            | Some v \<Rightarrow> (case json_field v ''access_token'' of
                  Some (JStr token) \<Rightarrow>
                    if token = [] then Inl (GitHubOAuthError ''token endpoint returned no access token'') else Inr token
                | _ \<Rightarrow> Inl (GitHubOAuthError ''token endpoint returned no access token''))))"

definition getUser :: "nat \<Rightarrow> fetch_result \<Rightarrow> oauth_error + (nat \<times> string)" where
  "getUser timeoutMs r =
     (case with_timeout ''GitHub API'' ''GitHub API'' timeoutMs r of
        Inl e \<Rightarrow> Inl e
      | Inr (st, b) \<Rightarrow>
          if \<not> ok_status st then Inl (GitHubOAuthError (''GitHub API answered '' @ show_nat st))
          else (case json_parse (decodeText b) of
              None \<Rightarrow> Inl (GitHubOAuthError ''GitHub API answered non-JSON'')
            | Some v \<Rightarrow> (case json_field v ''id'' of
                  Some (JNum i) \<Rightarrow>
                    if i \<le> 0 then Inl (GitHubOAuthError ''GitHub /user answered a malformed id'')
                    else (case json_field v ''login'' of
                        Some (JStr l) \<Rightarrow>
                          if l = [] then Inl (GitHubOAuthError ''GitHub /user answered a malformed login'') else Inr (nat i, l)
                      | _ \<Rightarrow> Inl (GitHubOAuthError ''GitHub /user answered a malformed login''))
                | _ \<Rightarrow> Inl (GitHubOAuthError ''GitHub /user answered a malformed id''))))"

text \<open>The production client: \<open>fetch\<close> may change the state, by the two requests it is given.\<close>

definition FetchGitHubUserAuthClient ::
  "(call \<Rightarrow> ('w cp, oauth_error, fetch_result) comp) \<Rightarrow> nat \<Rightarrow> 'w GitHubUserAuthClient" where
  "FetchGitHubUserAuthClient fetch timeoutMs = \<lparr>
     gh_exchangeCode = (\<lambda>code verifier redirectUri config.
       bindC (fetch (ExchangeCall code verifier)) (\<lambda>r. liftE (exchangeCode timeoutMs r))),
     gh_getUser = (\<lambda>token. bindC (fetch ProfileCall) (\<lambda>r. liftE (getUser timeoutMs r)))\<rparr>"

section \<open>Helpers of the flow\<close>

definition callbackUrl :: "OAuthConfig \<Rightarrow> string" where
  "callbackUrl config =
     (let origin = appOrigin config in
      (if ends_with ''/'' origin then butlast origin else origin) @ ''/auth/callback'')"

definition buildAuthorizeUrl :: "string \<Rightarrow> string \<Rightarrow> string \<Rightarrow> string \<Rightarrow> string" where
  "buildAuthorizeUrl clientId redirectUri state codeChallenge =
     ''https://github.com/login/oauth/authorize?'' @ search_params
       [(''client_id'', clientId), (''redirect_uri'', redirectUri), (''state'', state),
        (''code_challenge'', codeChallenge), (''code_challenge_method'', ''S256'')]"

text \<open>The scheme test \<open>/^[a-zA-Z][a-zA-Z0-9+.-]*:/\<close>.\<close>

definition has_scheme :: "string \<Rightarrow> bool" where
  "has_scheme s \<longleftrightarrow> s \<noteq> [] \<and> letter (hd s)
     \<and> (case dropWhile (\<lambda>c. alnum c \<or> c \<in> set ''+.-'') (tl s) of [] \<Rightarrow> False | c # _ \<Rightarrow> c = CHR '':'')"

definition resolveReturnTo :: "string option \<Rightarrow> string \<Rightarrow> string" where
  "resolveReturnTo raw fallback = (case raw of
       None \<Rightarrow> fallback
     | Some r \<Rightarrow>
         if r = [] then fallback
         else if \<not> starts_with ''/'' r \<or> starts_with ''//'' r then fallback
         else if backslash \<in> set r \<or> newline \<in> set r \<or> CHR 0x0D \<in> set r then fallback
         else if has_scheme r then fallback
         else r)"

definition redirect :: "string \<Rightarrow> string list \<Rightarrow> Response" where
  "redirect to setCookies = \<lparr>rs_status = 302, rs_body = NoBody,
     rs_headers = (''location'', to) # map (\<lambda>v. (''set-cookie'', v)) setCookies\<rparr>"

section \<open>The routes\<close>

definition requireOAuth :: "'w deps \<Rightarrow> cp_error + (OAuthConfig \<times> 'w GitHubUserAuthClient)" where
  "requireOAuth deps = (case (dp_oauth deps, dp_githubAuth deps) of
       (Some config, Some client) \<Rightarrow> Inr (config, client)
     | _ \<Rightarrow> Inl (unavailable ''GitHub OAuth login is not configured''))"

definition handleAuthLogin :: "'w deps \<Rightarrow> env \<Rightarrow> Request \<Rightarrow> ('w cp, cp_error, Response) comp" where
  "handleAuthLogin deps en rq =
     bindC (liftE (requireOAuth deps)) (\<lambda>(config, client).
     thenC (ss_createLoginFlow (dp_sessions deps) (en_state en)
         \<lparr>cf_codeVerifier = en_verifier en, cf_returnTo = Some (resolveReturnTo (rq_query rq ''return_to'') ''/app''),
          cf_bindingHash = hex (hashToken (dp_sha deps) (en_nonce en))\<rparr> (en_now en))
       (ret (redirect (buildAuthorizeUrl (githubClientId config) (callbackUrl config) (en_state en)
                (pkceChallenge (dp_sha deps) (en_verifier en)))
          [buildOAuthBindingSetCookie (en_nonce en)])))"

definition handleAuthCallback :: "'w deps \<Rightarrow> env \<Rightarrow> Request \<Rightarrow> ('w cp, cp_error, Response) comp" where
  "handleAuthCallback deps en rq =
     bindC (liftE (requireOAuth deps)) (\<lambda>(config, client).
       case (rq_query rq ''code'', rq_query rq ''state'') of
         (Some code, Some state) \<Rightarrow>
           if code = [] \<or> state = [] then throwC (badRequest ''missing code or state'')
           else bindC (ss_consumeLoginFlow (dp_sessions deps) state (en_now en)) (\<lambda>flow. case flow of
               None \<Rightarrow> throwC (badRequest ''invalid or expired OAuth state'')
             | Some f \<Rightarrow>
                 (let bindings = parseOAuthBindingCookies (rq_headers rq ''cookie'') in
                  if length bindings \<noteq> 1 \<or> hd bindings = [] \<or> \<not> bindingMatches (dp_sha deps) (hd bindings) (cf_bindingHash f)
                  then throwC (badRequest ''invalid OAuth browser binding'')
                  else bindC (tryC (bindC (callC (ExchangeCall code (cf_codeVerifier f))
                                 (gh_exchangeCode client code (cf_codeVerifier f) (callbackUrl config) config))
                               (\<lambda>token. callC ProfileCall (gh_getUser client token)))) (\<lambda>r. case r of
                      Inl (GitHubOAuthError _) \<Rightarrow> throwC (badGateway (''GitHub login failed '' @ em_dash @ '' please retry''))
                    | Inl (OtherOAuthError e) \<Rightarrow> throwC e
                    | Inr (ghId, l) \<Rightarrow>
                        bindC (ss_createSession (dp_sessions deps) (githubUser (show_nat ghId) l) (en_now en)
                                 (en_token en) (en_uuid en)) (\<lambda>created.
                          ret (redirect (resolveReturnTo (cf_returnTo f) ''/app'')
                            [buildSessionSetCookie (cs_rawToken created), buildOAuthBindingClearCookie])))))
       | _ \<Rightarrow> throwC (badRequest ''missing code or state''))"

fun revoke_all :: "'w deps \<Rightarrow> string list \<Rightarrow> ('w cp, cp_error, unit) comp" where
  "revoke_all deps [] = ret ()"
| "revoke_all deps (raw # rs) =
     thenC (if raw \<noteq> [] then ss_revokeSession (dp_sessions deps) raw else ret ()) (revoke_all deps rs)"

definition handleAuthLogout :: "'w deps \<Rightarrow> Request \<Rightarrow> ('w cp, cp_error, Response) comp" where
  "handleAuthLogout deps rq =
     thenC (revoke_all deps (parseSessionCookies (rq_headers rq ''cookie'')))
       (ret \<lparr>rs_status = 200, rs_body = JsonBody (JObj [(''loggedOut'', JBool True)]),
          rs_headers = [(''content-type'', ''application/json; charset=utf-8''), (''set-cookie'', buildSessionClearCookie)]\<rparr>)"

definition handleAuthSession :: "'w deps \<Rightarrow> env \<Rightarrow> Request \<Rightarrow> ('w cp, cp_error, Response) comp" where
  "handleAuthSession deps en rq =
     (let presented = parseSessionCookies (rq_headers rq ''cookie'') in
      if length presented \<noteq> 1 \<or> hd presented = [] then throwC (unauthorized ''no session'')
      else bindC (ss_lookupSession (dp_sessions deps) (hd presented) (en_now en)) (\<lambda>r. case r of
          None \<Rightarrow> throwC (unauthorized ''invalid or expired session'')
        | Some r \<Rightarrow> ret (json_response (JObj [(''user'', JObj [(''id'', JStr (user_id (sr_user r))),
            (''login'', JStr (user_login (sr_user r)))])]) 200)))"

end
