(* ===== verification/Sse.thy ===== *)
theory Sse
  imports Handlers
begin

text \<open>
  The event stream of a session (\<open>apps/control-plane/src/sse.ts\<close>): the cursor of the request, the
  text of an event, and the loop that replays and then polls, one tick per sleep.
\<close>

section \<open>The cursor\<close>

text \<open>
  \<open>Number(text)\<close> when it is a non-negative integer: a blank text is 0, then hexadecimal, octal and
  binary literals, then decimal ones with a sign, a fraction and an exponent.
\<close>

definition radix_value :: "nat \<Rightarrow> string \<Rightarrow> nat option" where
  "radix_value r s =
     (if s \<noteq> [] \<and> (\<forall>c \<in> set s. case hex_digit c of None \<Rightarrow> False | Some d \<Rightarrow> d < r)
      then Some (foldl (\<lambda>v c. v * r + the (hex_digit c)) 0 s) else None)"

definition decimal_value :: "string \<Rightarrow> int option" where
  "decimal_value s =
     (let ds = takeWhile digit s; t = drop (length ds) s;
          fs = (if starts_with ''.'' t then takeWhile digit (tl t) else []);
          u = (if starts_with ''.'' t then drop (Suc (length fs)) t else t) in
      if ds @ fs = [] then None
      else (case parse_exponent u of
          Some (e, []) \<Rightarrow>
            (let m = digits_value (ds @ fs); x = e - int (length fs) in
             if 0 \<le> x then Some (m * 10 ^ nat x)
             else if m mod 10 ^ nat (- x) = 0 then Some (m div 10 ^ nat (- x)) else None)
        | _ \<Rightarrow> None))"

definition seq_number :: "string \<Rightarrow> nat option" where
  "seq_number raw =
     (let s = trim raw in
      if s = [] then Some 0
      else if starts_with ''0x'' s \<or> starts_with ''0X'' s then radix_value 16 (drop 2 s)
      else if starts_with ''0o'' s \<or> starts_with ''0O'' s then radix_value 8 (drop 2 s)
      else if starts_with ''0b'' s \<or> starts_with ''0B'' s then radix_value 2 (drop 2 s)
      else (let neg = starts_with ''-'' s; t = (if neg \<or> starts_with ''+'' s then tl s else s) in
            case decimal_value t of
              None \<Rightarrow> None
            | Some v \<Rightarrow> if neg \<and> v \<noteq> 0 then None else Some (nat v)))"

definition handleSessionEvents :: "'w handler" where
  "handleSessionEvents deps ctx =
     bindC (liftE (requireSegment (cx_params ctx ''id'') ''id'')) (\<lambda>i.
     bindC (loadSessionForMember deps i (user_id (cx_user ctx))) (\<lambda>s.
       let stream = (\<lambda>cursor. ret \<lparr>rs_status = 200, rs_body = EventStream i cursor,
             rs_headers = [(''content-type'', ''text/event-stream; charset=utf-8''), (''cache-control'', ''no-cache''),
                           (''connection'', ''keep-alive'')]\<rparr>) in
       case rq_query (cx_request ctx) ''seq'' of
         None \<Rightarrow> stream 0
       | Some raw \<Rightarrow> (case seq_number raw of
             None \<Rightarrow> ret (json_response (JObj [(''error'', JObj [(''code'', JStr ''bad_request''),
                 (''message'', JStr (''query parameter '' @ [quote_mark] @ ''seq'' @ [quote_mark]
                    @ '' must be a non-negative integer''))])]) 400)
           | Some cursor \<Rightarrow> stream cursor)))"

section \<open>The stream\<close>

definition DEFAULT_HEARTBEAT_MS :: int where
  "DEFAULT_HEARTBEAT_MS = 15000"

definition formatSseEvent :: "SessionEvent \<Rightarrow> string" where
  "formatSseEvent e =
     ''id: '' @ show_nat (seq e) @ [newline] @ ''event: '' @ eventType e @ [newline]
     @ ''data: '' @ json_show (data e) @ [newline, newline]"

text \<open>The next event wanted, when something was last sent, what was sent, and whether the stream has ended.\<close>

record sse =
  sse_next :: nat
  sse_lastEmit :: int
  sse_sent :: "string list"
  sse_closed :: bool

definition sse_write :: "string \<Rightarrow> sse \<Rightarrow> sse" where
  "sse_write chunk q = (if sse_closed q then q else q\<lparr>sse_sent := sse_sent q @ [chunk]\<rparr>)"

fun sse_emit :: "int \<Rightarrow> SessionEvent list \<Rightarrow> sse \<Rightarrow> sse" where
  "sse_emit now [] q = q"
| "sse_emit now (e # es) q =
     sse_emit now es ((sse_write (formatSseEvent e) q)\<lparr>sse_next := Suc (seq e), sse_lastEmit := now\<rparr>)"

text \<open>One poll; a failing read ends the stream.\<close>

definition sse_poll :: "string \<Rightarrow> int \<Rightarrow> sse \<Rightarrow> db \<Rightarrow> sse \<times> db" where
  "sse_poll i now q d = (case readEvents i (Some (sse_next q)) d of
       (Inl _, d') \<Rightarrow> (q\<lparr>sse_closed := True\<rparr>, d')
     | (Inr es, d') \<Rightarrow> (sse_emit now es q, d'))"

definition sse_start :: "string \<Rightarrow> nat \<Rightarrow> int \<Rightarrow> db \<Rightarrow> sse \<times> db" where
  "sse_start i cursor now d =
     (case sse_poll i now \<lparr>sse_next = cursor, sse_lastEmit = now, sse_sent = [], sse_closed = False\<rparr> d of
        (q, d') \<Rightarrow> (sse_write ('': stream open'' @ [newline, newline]) q, d'))"

definition sse_tick :: "string \<Rightarrow> int \<Rightarrow> int \<Rightarrow> sse \<Rightarrow> db \<Rightarrow> sse \<times> db" where
  "sse_tick i heartbeatMs now q d =
     (if sse_closed q then (q, d)
      else sse_poll i now
        (if now - sse_lastEmit q \<ge> heartbeatMs
         then (sse_write ('': ping'' @ [newline, newline]) q)\<lparr>sse_lastEmit := now\<rparr> else q) d)"

text \<open>A run: between its ticks the database is what other processes make of it; the client may abort.\<close>

datatype sse_event = Tick int db | Abort

fun sse_run :: "string \<Rightarrow> int \<Rightarrow> sse_event list \<Rightarrow> sse \<Rightarrow> sse" where
  "sse_run i hb [] q = q"
| "sse_run i hb (Tick now d # es) q = sse_run i hb es (fst (sse_tick i hb now q d))"
| "sse_run i hb (Abort # es) q = sse_run i hb es (q\<lparr>sse_closed := True\<rparr>)"

end
