(* ===== verification/Server.thy ===== *)
theory Server
  imports Auth_Github Sse
begin

text \<open>
  The HTTP server of the control plane (\<open>apps/control-plane/src/server.ts\<close>, \<open>static.ts\<close>): routing, the
  guards of mutations, static files, and the one place where an error becomes a response. A request
  has its path already parsed out of the URL.
\<close>

section \<open>Routes\<close>

datatype route =
    CreateWorkspaceR | ListWorkspacesR | GetWorkspaceR | DeleteWorkspaceR | OpenR | StopR
  | ListSessionsR | CreateSessionR | CheckpointR | AcquireR | HeartbeatR | ReleaseR | ControllerR
  | MessageR | EventsR | ApprovalR | CancelR

definition routes :: "(string \<times> string list \<times> route) list" where
  "routes =
     [(''POST'', [''v1'', ''workspaces''], CreateWorkspaceR),
      (''GET'', [''v1'', ''workspaces''], ListWorkspacesR),
      (''GET'', [''v1'', ''workspaces'', '':id''], GetWorkspaceR),
      (''DELETE'', [''v1'', ''workspaces'', '':id''], DeleteWorkspaceR),
      (''POST'', [''v1'', ''workspaces'', '':id'', ''open''], OpenR),
      (''POST'', [''v1'', ''workspaces'', '':id'', ''stop''], StopR),
      (''GET'', [''v1'', ''workspaces'', '':id'', ''sessions''], ListSessionsR),
      (''POST'', [''v1'', ''workspaces'', '':id'', ''sessions''], CreateSessionR),
      (''POST'', [''v1'', ''workspaces'', '':id'', ''checkpoints''], CheckpointR),
      (''POST'', [''v1'', ''workspaces'', '':id'', ''controller'', ''acquire''], AcquireR),
      (''POST'', [''v1'', ''workspaces'', '':id'', ''controller'', ''heartbeat''], HeartbeatR),
      (''POST'', [''v1'', ''workspaces'', '':id'', ''controller'', ''release''], ReleaseR),
      (''GET'', [''v1'', ''workspaces'', '':id'', ''controller''], ControllerR),
      (''POST'', [''v1'', ''sessions'', '':id'', ''messages''], MessageR),
      (''GET'', [''v1'', ''sessions'', '':id'', ''events''], EventsR),
      (''POST'', [''v1'', ''sessions'', '':id'', ''approvals'', '':approvalId''], ApprovalR),
      (''POST'', [''v1'', ''sessions'', '':id'', ''cancel''], CancelR)]"

fun run_route :: "route \<Rightarrow> 'w handler" where
  "run_route CreateWorkspaceR = createWorkspace_handler"
| "run_route ListWorkspacesR = listWorkspaces_handler"
| "run_route GetWorkspaceR = getWorkspace_handler"
| "run_route DeleteWorkspaceR = deleteWorkspace_handler"
| "run_route OpenR = openWorkspace"
| "run_route StopR = stopWorkspace"
| "run_route ListSessionsR = listSessions_handler"
| "run_route CreateSessionR = createSession_handler"
| "run_route CheckpointR = manualCheckpoint"
| "run_route AcquireR = acquireController"
| "run_route HeartbeatR = heartbeatController"
| "run_route ReleaseR = releaseController"
| "run_route ControllerR = getControllerStatus"
| "run_route MessageR = postMessage"
| "run_route EventsR = handleSessionEvents"
| "run_route ApprovalR = postApproval"
| "run_route CancelR = postCancel"

fun match_segments :: "string list \<Rightarrow> string list \<Rightarrow> (string \<rightharpoonup> string) \<Rightarrow> cp_error + (string \<rightharpoonup> string) option" where
  "match_segments (p # ps) (a # as) params =
     (if starts_with '':'' p
      then (case decodeURIComponent a of
          None \<Rightarrow> Inl (badRequest ''malformed path segment'')
        | Some v \<Rightarrow> match_segments ps as (params(tl p \<mapsto> v)))
      else if p \<noteq> a then Inr None
      else match_segments ps as params)"
| "match_segments _ _ params = Inr (Some params)"

fun match_routes :: "(string \<times> string list \<times> route) list \<Rightarrow> string \<Rightarrow> string list \<Rightarrow>
    cp_error + (route \<times> (string \<rightharpoonup> string)) option" where
  "match_routes [] m segs = Inr None"
| "match_routes ((rm, pattern, r) # rs) m segs =
     (if rm \<noteq> m \<or> length pattern \<noteq> length segs then match_routes rs m segs
      else (case match_segments pattern segs Map.empty of
          Inl e \<Rightarrow> Inl e
        | Inr None \<Rightarrow> match_routes rs m segs
        | Inr (Some params) \<Rightarrow> Inr (Some (r, params))))"

section \<open>Guards of mutations\<close>

definition MUTATION_METHODS :: "string list" where
  "MUTATION_METHODS = [''POST'', ''PUT'', ''PATCH'', ''DELETE'']"

definition isMutationTarget :: "string \<Rightarrow> bool" where
  "isMutationTarget p \<longleftrightarrow> p = ''/auth/logout'' \<or> p = ''/v1'' \<or> starts_with ''/v1/'' p"

definition checkMutationGuards :: "Request \<Rightarrow> string option \<Rightarrow> cp_error + unit" where
  "checkMutationGuards rq origin =
     (if rq_method rq \<notin> set MUTATION_METHODS \<or> \<not> isMutationTarget (rq_path rq) then Inr ()
      else if origin \<noteq> None \<and> rq_headers rq ''origin'' \<noteq> origin then Inl (forbidden ''cross-origin request refused'')
      else (case rq_headers rq ''content-type'' of
          Some t \<Rightarrow>
            if \<not> contains ''application/json'' (lower t) then Inl (badRequest ''content-type must be application/json'')
            else Inr ()
        | None \<Rightarrow> (case rq_headers rq ''content-length'' of
              None \<Rightarrow> Inr ()
            | Some len \<Rightarrow>
                if trim len \<noteq> [] \<and> trim len \<noteq> ''0'' then Inl (badRequest ''content-type must be application/json'')
                else Inr ())))"

section \<open>Static files\<close>

definition html :: string where "html = ''text/html; charset=utf-8''"
definition javascript :: string where "javascript = ''text/javascript; charset=utf-8''"
definition css :: string where "css = ''text/css; charset=utf-8''"

definition STATIC_ALLOWLIST :: "(string \<times> string \<times> string) list" where
  "STATIC_ALLOWLIST =
     [(''/'', ''index.html'', html), (''/ui'', ''index.html'', html), (''/ui/'', ''index.html'', html),
      (''/ui/app.js'', ''app.js'', javascript), (''/ui/app.css'', ''app.css'', css), (''/ui/sse.js'', ''sse.js'', javascript),
      (''/app'', ''app/index.html'', html), (''/app/'', ''app/index.html'', html),
      (''/app/app.js'', ''app/app.js'', javascript), (''/app/render.js'', ''app/render.js'', javascript),
      (''/app/app.css'', ''app/app.css'', css), (''/app/sse.js'', ''sse.js'', javascript)]"

definition serveStaticFile :: "'w deps \<Rightarrow> string \<Rightarrow> string \<Rightarrow> Response option" where
  "serveStaticFile deps method pathname =
     (if method \<noteq> ''GET'' \<and> method \<noteq> ''HEAD'' then None
      else (case map_of STATIC_ALLOWLIST pathname of
          None \<Rightarrow> None
        | Some (file, contentType) \<Rightarrow> (case dp_public deps file of
              None \<Rightarrow> None
            | Some content \<Rightarrow> Some \<lparr>rs_status = 200,
                rs_body = (if method = ''HEAD'' then NoBody else FileBody content),
                rs_headers = [(''content-type'', contentType), (''content-length'', show_nat (length content))]\<rparr>)))"

section \<open>Errors as responses\<close>

definition errorResponse :: "nat \<Rightarrow> string \<Rightarrow> string \<Rightarrow> Response" where
  "errorResponse st code message =
     json_response (JObj [(''error'', JObj [(''code'', JStr code), (''message'', JStr message)])]) st"

definition errorContextFromRequest ::
  "string \<Rightarrow> string \<Rightarrow> (string \<rightharpoonup> string) \<Rightarrow> AuthenticatedUser option \<Rightarrow> (string \<times> string) list" where
  "errorContextFromRequest method pathname params u =
     (if method \<noteq> [] then [(''method'', method)] else []) @ (if pathname \<noteq> [] then [(''path'', pathname)] else [])
     @ (case u of None \<Rightarrow> [] | Some u \<Rightarrow> [(''userId'', user_id u)])
     @ (case params ''id'' of
          None \<Rightarrow> []
        | Some i \<Rightarrow>
            if i = [] then []
            else if starts_with ''/v1/sessions/'' pathname then [(''sessionId'', i)]
            else if starts_with ''/v1/workspaces/'' pathname then [(''workspaceId'', i)] else [])"

definition toErrorResponse :: "env \<Rightarrow> (string \<times> string) list \<Rightarrow> cp_error \<Rightarrow> 'w cp \<Rightarrow> Response \<times> 'w cp" where
  "toErrorResponse en context e s =
     (let unexpected = (json_response (JObj [(''error'', JObj [(''code'', JStr ''internal''),
            (''message'', JStr ''internal server error''), (''errorId'', JStr (en_errorId en))])]) 500,
          s\<lparr>cp_log := cp_log s @ [(''http.unexpected_error'',
            [(''errorId'', en_errorId en), (''errorName'', fst (error_text e)), (''errorMessage'', snd (error_text e))] @ context)]\<rparr>) in
      case e of
        ApiError st code m \<Rightarrow> (errorResponse st code m, s)
      | RuntimeError k \<Rightarrow> (case k of
            External _ \<Rightarrow> unexpected
          | ExternalNamed _ _ \<Rightarrow> unexpected
          | _ \<Rightarrow> (errorResponse 409 ''conflict'' (snd (runtime_error_text k)), s))
      | _ \<Rightarrow> unexpected)"

section \<open>The request\<close>

definition status_response :: "string \<Rightarrow> nat \<Rightarrow> Response" where
  "status_response st n = json_response (JObj [(''status'', JStr st)]) n"

text \<open>Everything that is served before authentication; \<open>None\<close> is falling through to it.\<close>

definition servePublic :: "'w deps \<Rightarrow> env \<Rightarrow> Request \<Rightarrow> ('w cp, cp_error, Response option) comp" where
  "servePublic deps en rq =
     (let m = rq_method rq; p = rq_path rq; some = (\<lambda>h. bindC h (\<lambda>r. ret (Some r))) in
      if p = ''/livez'' \<and> m = ''GET'' then ret (Some (status_response ''ok'' 200))
      else if p = ''/readyz'' \<and> m = ''GET'' then
        (case dp_readiness deps of
           None \<Rightarrow> ret (Some (status_response ''ready'' 200))
         | Some probe \<Rightarrow> bindC probe (\<lambda>(ready, reason).
             if ready then ret (Some (status_response ''ready'' 200))
             else thenC (logC ''readyz.not_ready'' [(''reason'', reason)])
                    (ret (Some (status_response ''not_ready'' 503)))))
      else
        bindC (liftE (checkMutationGuards rq (map_option appOrigin (dp_oauth deps)))) (\<lambda>_.
          case serveStaticFile deps m p of
            Some r \<Rightarrow> ret (Some r)
          | None \<Rightarrow>
              if p = ''/auth/login'' \<and> m = ''GET'' then some (handleAuthLogin deps en rq)
              else if p = ''/auth/callback'' \<and> m = ''GET'' then some (handleAuthCallback deps en rq)
              else if p = ''/auth/logout'' \<and> m = ''POST'' then some (handleAuthLogout deps rq)
              else if p = ''/auth/session'' \<and> m = ''GET'' then some (handleAuthSession deps en rq)
              else ret None))"

definition path_segments :: "string \<Rightarrow> string list" where
  "path_segments p = filter (\<lambda>s. s \<noteq> []) (split_at slash p)"

definition no_route :: "Request \<Rightarrow> cp_error" where
  "no_route rq = notFound (''no route for '' @ rq_method rq @ '' '' @ rq_path rq)"

definition createFetchHandler :: "'w deps \<Rightarrow> env \<Rightarrow> Request \<Rightarrow> 'w cp \<Rightarrow> Response \<times> 'w cp" where
  "createFetchHandler deps en rq s =
     (let fail = (\<lambda>params u. toErrorResponse en (errorContextFromRequest (rq_method rq) (rq_path rq) params u)) in
      case servePublic deps en rq s of
        (Inl e, t) \<Rightarrow> fail Map.empty None e t
      | (Inr (Some r), t) \<Rightarrow> (r, t)
      | (Inr None, t) \<Rightarrow>
          (case authenticateSession (dp_sessions deps) (en_now en) rq t of
             (Inl e, v) \<Rightarrow> fail Map.empty None e v
           | (Inr u, v) \<Rightarrow>
               (case match_routes routes (rq_method rq) (path_segments (rq_path rq)) of
                  Inl e \<Rightarrow> fail Map.empty (Some u) e v
                | Inr None \<Rightarrow> fail Map.empty (Some u) (no_route rq) v
                | Inr (Some (r, params)) \<Rightarrow>
                    (case run_route r deps \<lparr>cx_request = rq, cx_params = params, cx_env = en, cx_user = u\<rparr> v of
                       (Inl e, x) \<Rightarrow> fail params (Some u) e x
                     | (Inr resp, x) \<Rightarrow> (resp, x)))))"

end
