(* ===== verification/Server_Props.thy ===== *)
theory Server_Props
  imports Server
begin

text \<open>
  The composition of production (owner membership, leases and sessions in the database) and what the
  whole server guarantees over it: a request changes nothing and calls nobody unless its session, its
  membership and, where it is needed, its lease entitle it.
\<close>

section \<open>The composition of production\<close>

definition zoom_db :: "(db, cp_error, 'a) comp \<Rightarrow> ('w cp, cp_error, 'a) comp" where
  "zoom_db m = zoomC cp_db (\<lambda>d s. s\<lparr>cp_db := d\<rparr>) (\<lambda>e. e) m"

definition DbSessionStore :: "(string \<Rightarrow> string) \<Rightarrow> 'w cp SessionStore" where
  "DbSessionStore sha = \<lparr>
     ss_createSession = (\<lambda>u now raw i. zoom_db (pg_createSession sha u now raw i)),
     ss_lookupSession = (\<lambda>raw now. zoom_db (pg_lookupSession sha raw now)),
     ss_revokeSession = (\<lambda>raw. zoom_db (pg_revokeSession sha raw)),
     ss_createLoginFlow = (\<lambda>st f now. zoom_db (pg_createLoginFlow sha st f now)),
     ss_consumeLoginFlow = (\<lambda>st now. zoom_db (pg_consumeLoginFlow sha st now)),
     ss_revokeLoginFlow = (\<lambda>st. zoom_db (pg_revokeLoginFlow sha st)),
     ss_cleanupExpired = (\<lambda>now n. zoom_db (pg_cleanupExpired now n))\<rparr>"

definition production :: "(string \<Rightarrow> string) \<Rightarrow> 'w deps \<Rightarrow> 'w deps" where
  "production sha base = base\<lparr>dp_membership := OwnerMembershipStore, dp_leases := DbLeaseStore,
     dp_sessions := DbSessionStore sha, dp_sha := sha\<rparr>"

lemma production_simps [simp]:
  "dp_membership (production sha base) = OwnerMembershipStore" "dp_leases (production sha base) = DbLeaseStore"
  "dp_sessions (production sha base) = DbSessionStore sha"
  by (simp_all add: production_def)

section \<open>Who may do what\<close>

text \<open>The user a request authenticates as, read off the tables.\<close>

definition principal :: "(string \<Rightarrow> string) \<Rightarrow> db \<Rightarrow> int \<Rightarrow> Request \<Rightarrow> AuthenticatedUser option" where
  "principal sha d now rq = (case parseSessionCookies (rq_headers rq ''cookie'') of
       [raw] \<Rightarrow> if raw = [] then None
         else map_option (\<lambda>r. sr_user (row_session r))
                (List.find (\<lambda>r. token_hash r = sha raw \<and> now < auth_expires_at r) (auth_sessions d))
     | _ \<Rightarrow> None)"

text \<open>The workspace a route acts on: the one of its path, or the one of the session of its path.\<close>

definition session_routes :: "route set" where
  "session_routes = {MessageR, EventsR, ApprovalR, CancelR}"

definition controller_routes :: "route set" where
  "controller_routes = {MessageR, ApprovalR, CancelR, CheckpointR}"

definition acts_on :: "db \<Rightarrow> route \<Rightarrow> (string \<rightharpoonup> string) \<Rightarrow> string option" where
  "acts_on d r params = (case params ''id'' of
       None \<Rightarrow> None
     | Some i \<Rightarrow> if r \<in> session_routes then map_option session_workspace (session_row i d) else Some i)"

definition entitled :: "db \<Rightarrow> int \<Rightarrow> route \<Rightarrow> (string \<rightharpoonup> string) \<Rightarrow> AuthenticatedUser \<Rightarrow> bool" where
  "entitled d now r params u \<longleftrightarrow> r \<in> {CreateWorkspaceR, ListWorkspacesR} \<or>
     (\<exists>w. acts_on d r params = Some w \<and> owner_of w d = Some (user_id u)
        \<and> (r \<in> controller_routes \<longrightarrow>
             (\<exists>l. leases_table d w = Some l \<and> now < expiresAt l \<and> userId l = user_id u)))"

section \<open>Refusals\<close>

fun error_status :: "cp_error \<Rightarrow> nat" where
  "error_status (ApiError st _ _) = st"
| "error_status (RuntimeError k) = (case k of External _ \<Rightarrow> 500 | ExternalNamed _ _ \<Rightarrow> 500 | _ \<Rightarrow> 409)"
| "error_status _ = 500"

text \<open>\<open>calm m\<close>: \<open>m\<close> changes nothing visible and throws only error statuses. \<open>refuses m s\<close>: from \<open>s\<close> it does throw.\<close>

definition calm :: "('w cp, cp_error, 'a) comp \<Rightarrow> bool" where
  "calm m \<longleftrightarrow> (\<forall>s r t. m s = (r, t) \<longrightarrow> quiet s t \<and> (\<forall>e. r = Inl e \<longrightarrow> 400 \<le> error_status e))"

definition refuses :: "('w cp, cp_error, 'a) comp \<Rightarrow> 'w cp \<Rightarrow> bool" where
  "refuses m s \<longleftrightarrow> (\<exists>e t. m s = (Inl e, t) \<and> quiet s t \<and> 400 \<le> error_status e)"

lemma refuses_bind:
  assumes "calm m" "\<And>a t. m s = (Inr a, t) \<Longrightarrow> quiet s t \<Longrightarrow> refuses (f a) t"
  shows "refuses (bindC m f) s"
proof -
  obtain r t where m: "m s = (r, t)" by fastforce
  with assms(1) have t: "quiet s t" "\<And>e. r = Inl e \<Longrightarrow> 400 \<le> error_status e" by (auto simp: calm_def)
  show ?thesis
  proof (cases r)
    case (Inl e)
    with m t show ?thesis by (auto simp: refuses_def run_simps)
  next
    case (Inr a)
    with assms(2) m t(1) have "refuses (f a) t" by blast
    with m Inr t(1) show ?thesis by (auto simp: refuses_def run_simps intro: quiet_trans)
  qed
qed

lemma calm_bind: "calm m \<Longrightarrow> (\<And>a. calm (f a)) \<Longrightarrow> calm (bindC m f)"
  unfolding calm_def by (fastforce simp: run_simps split: prod.splits sum.splits intro: quiet_trans)

lemma calm_then: "calm m \<Longrightarrow> calm k \<Longrightarrow> calm (thenC m k)"
  by (simp add: thenC_def calm_bind)

lemma calm_ret [simp]: "calm (ret a)"
  by (simp add: calm_def run_simps)

lemma calm_throw: "400 \<le> error_status e \<Longrightarrow> calm (throwC e)"
  by (simp add: calm_def run_simps)

lemma calm_liftE: "(\<And>e. r = Inl e \<Longrightarrow> 400 \<le> error_status e) \<Longrightarrow> calm (liftE r)"
  by (simp add: calm_def run_simps)

lemma calm_select [simp]: "calm (dbq (select f))"
  unfolding calm_def
proof (intro allI impI)
  fix s r t
  assume run: "dbq (select f) s = (r, t)"
  then have "quiet s t" by (rule keeps_run [OF dbq_select_quiet])
  with run show "quiet s t \<and> (\<forall>e. r = Inl e \<longrightarrow> 400 \<le> error_status e)"
    by (auto simp: dbq_def zoomC_def split: prod.splits sum.splits)
qed

lemma bad_input [simp]:
  "error_status (badRequest m) = 400" "error_status (notFound m) = 404" "error_status (forbidden m) = 403"
  "error_status (conflict m) = 409" "error_status (unauthorized m) = 401"
  by (simp_all add: api_errors)

lemma calm_inputs [simp]:
  "calm (liftE (requireSegment v n))" "calm (liftE (parseJsonBody rq))" "calm (liftE (parseOptionalJsonBody rq))"
  "calm (liftE (requireString b f))" "calm (liftE (optionalString b f))" "calm (liftE (optionalObject b f))"
  by (auto intro!: calm_liftE simp: requireSegment_def parseOptionalJsonBody_def parseJsonBody_def requireString_def
      optionalString_def optionalObject_def field_message_def split: option.splits if_splits json.splits)

lemma calm_loads [simp]: "calm (loadWorkspace i)" "calm (loadSession i)"
  unfolding loadWorkspace_def loadSession_def getWorkspace_def getSession_def
  by (auto intro!: calm_bind calm_throw split: option.split)

lemma calm_owner [simp]: "calm (owner_isMember w u)"
  unfolding owner_isMember_def by (intro calm_bind) simp_all

lemma calm_assertMember [simp]: "calm (assertMember OwnerMembershipStore w u)"
  unfolding assertMember_def by (auto intro!: calm_bind calm_throw simp: OwnerMembershipStore_def)

lemma refuses_first: "refuses m s \<Longrightarrow> refuses (bindC m f) s"
  by (auto simp: refuses_def run_simps)

lemma refuses_throw: "400 \<le> error_status e \<Longrightarrow> refuses (throwC e) s"
  by (simp add: refuses_def run_simps)

lemma quiet_tables:
  assumes "quiet s t"
  shows "workspaces (cp_db t) = workspaces (cp_db s)" "sessions (cp_db t) = sessions (cp_db s)"
    "leases_table (cp_db t) = leases_table (cp_db s)" "auth_sessions (cp_db t) = auth_sessions (cp_db s)"
    "session_events (cp_db t) = session_events (cp_db s)"
proof -
  have eq: "tables (cp_db t) = tables (cp_db s)" using assms by (simp add: quiet_def)
  show "workspaces (cp_db t) = workspaces (cp_db s)" using arg_cong [OF eq, of workspaces] by (simp add: tables_def)
  show "sessions (cp_db t) = sessions (cp_db s)" using arg_cong [OF eq, of sessions] by (simp add: tables_def)
  show "leases_table (cp_db t) = leases_table (cp_db s)" using arg_cong [OF eq, of leases_table] by (simp add: tables_def)
  show "auth_sessions (cp_db t) = auth_sessions (cp_db s)" using arg_cong [OF eq, of auth_sessions] by (simp add: tables_def)
  show "session_events (cp_db t) = session_events (cp_db s)" using arg_cong [OF eq, of session_events] by (simp add: tables_def)
qed

lemma quiet_rights:
  assumes "quiet s t"
  shows "owner_of w (cp_db t) = owner_of w (cp_db s)" "session_row i (cp_db t) = session_row i (cp_db s)"
    "entitled (cp_db t) now r params u = entitled (cp_db s) now r params u"
    "principal sha (cp_db t) now rq = principal sha (cp_db s) now rq"
proof -
  note eq = quiet_tables [OF assms]
  show ow: "owner_of w (cp_db t) = owner_of w (cp_db s)" for w
    unfolding owner_of_def workspace_row_def eq by (rule refl)
  show se: "session_row i (cp_db t) = session_row i (cp_db s)" for i
    unfolding session_row_def eq by (rule refl)
  show "entitled (cp_db t) now r params u = entitled (cp_db s) now r params u"
    unfolding entitled_def acts_on_def ow se eq by (rule refl)
  show "principal sha (cp_db t) now rq = principal sha (cp_db s) now rq"
    unfolding principal_def eq by (rule refl)
qed

section \<open>The steps that check\<close>

lemma row_outages [simp]:
  "workspace_row i (d\<lparr>outages := os\<rparr>) = workspace_row i d" "session_row i (d\<lparr>outages := os\<rparr>) = session_row i d"
  by (simp_all add: workspace_row_def session_row_def)

lemma loadWorkspace_returns:
  assumes "loadWorkspace i s = (Inr w, t)"
  shows "w_id w = i \<and> (\<exists>r. workspace_row i (cp_db s) = Some r \<and> w = rowToWorkspace r)"
proof -
  from assms obtain a u where a: "dbq (select (\<lambda>d. map_option rowToWorkspace (workspace_row i d))) s = (Inr a, u)" "a = Some w"
    by (auto simp: loadWorkspace_def getWorkspace_def returns_simps split: option.splits)
  from dbq_select_returns [OF a(1)] a(2) obtain r where "workspace_row i (cp_db s) = Some r" "w = rowToWorkspace r"
    by (cases "workspace_row i (cp_db s)") auto
  with workspace_row_Some [of i "cp_db s" r] show ?thesis by (auto simp: rowToWorkspace_def)
qed

lemma loadSession_returns:
  assumes "loadSession i s = (Inr x, t)"
  shows "s_id x = i \<and> session_row i (cp_db s) \<noteq> None
     \<and> Some (s_workspaceId x) = map_option session_workspace (session_row i (cp_db s))"
proof -
  from assms obtain a u where a: "dbq (select (\<lambda>d. map_option (rowToSession \<circ> decode_metadata) (session_row i d))) s = (Inr a, u)"
    "a = Some x"
    by (auto simp: loadSession_def getSession_def returns_simps split: option.splits)
  from dbq_select_returns [OF a(1)] a(2) obtain r where r: "session_row i (cp_db s) = Some r" "x = rowToSession (decode_metadata r)"
    by (cases "session_row i (cp_db s)") auto
  from r(1) have "session_row_id r = i" by (auto simp: session_row_def dest: find_row)
  with r show ?thesis by (simp add: rowToSession_def decode_metadata_def del: session_row_iff)
qed

lemma requireSegment_returns: "liftE (requireSegment v n) s = (Inr i, t) \<Longrightarrow> v = Some i \<and> t = s"
  by (auto simp: run_simps requireSegment_def split: option.splits if_splits)

lemma assertMember_outsider:
  "owner_of w (cp_db s) \<noteq> Some u \<Longrightarrow> refuses (assertMember OwnerMembershipStore w u) s"
proof -
  assume "owner_of w (cp_db s) \<noteq> Some u"
  then have "\<not> owner_member s w u" by (simp add: owner_member_def)
  from owner_membership.assertMember_refuses [OF this] obtain e t
    where r: "assertMember OwnerMembershipStore w u s = (Inl e, t)" "quiet s t" by blast
  with calm_assertMember [of w u] show ?thesis by (auto simp: refuses_def calm_def)
qed

lemma memberWorkspace_outsider:
  "owner_of i (cp_db s) \<noteq> Some (user_id (cx_user ctx)) \<Longrightarrow> refuses (memberWorkspace (production sha base) ctx i) s"
  unfolding memberWorkspace_def
proof (rule refuses_bind)
  fix w t
  assume "owner_of i (cp_db s) \<noteq> Some (user_id (cx_user ctx))" "loadWorkspace i s = (Inr w, t)" "quiet s t"
  then show "refuses (thenC (assertMember (dp_membership (production sha base)) (w_id w) (user_id (cx_user ctx))) (ret w)) t"
    unfolding thenC_def by (simp add: refuses_first assertMember_outsider loadWorkspace_returns quiet_rights)
qed simp

lemma calm_memberWorkspace [simp]: "calm (memberWorkspace (production sha base) ctx i)"
  unfolding memberWorkspace_def by (auto intro!: calm_bind calm_then)

lemma memberWorkspace_returns: "memberWorkspace deps ctx i s = (Inr w, t) \<Longrightarrow> w_id w = i"
  by (auto simp: memberWorkspace_def returns_simps dest: loadWorkspace_returns)

lemma loadSessionForMember_outsider:
  "map_option session_workspace (session_row i (cp_db s)) = Some w \<Longrightarrow> owner_of w (cp_db s) \<noteq> Some u \<Longrightarrow>
     refuses (loadSessionForMember (production sha base) i u) s"
  unfolding loadSessionForMember_def
proof (rule refuses_bind)
  fix x t
  assume a: "map_option session_workspace (session_row i (cp_db s)) = Some w" "owner_of w (cp_db s) \<noteq> Some u"
    "loadSession i s = (Inr x, t)" "quiet s t"
  then have "s_workspaceId x = w" using loadSession_returns by (metis option.inject)
  with a show "refuses (thenC (assertMember (dp_membership (production sha base)) (s_workspaceId x) u) (ret x)) t"
    unfolding thenC_def by (simp add: refuses_first assertMember_outsider quiet_rights)
qed simp

lemma loadSessionForMember_missing:
  assumes "session_row i (cp_db s) = None"
  shows "refuses (loadSessionForMember deps i u) s"
  unfolding loadSessionForMember_def
proof (rule refuses_bind)
  fix x t
  assume "loadSession i s = (Inr x, t)"
  from loadSession_returns [OF this] assms show "refuses (thenC (assertMember (dp_membership deps) (s_workspaceId x) u) (ret x)) t"
    by blast
qed simp

lemma calm_loadSessionForMember [simp]: "calm (loadSessionForMember (production sha base) i u)"
  unfolding loadSessionForMember_def by (auto intro!: calm_bind calm_then)

lemma loadSessionForMember_returns:
  "loadSessionForMember deps i u s = (Inr x, t) \<Longrightarrow>
     s_id x = i \<and> Some (s_workspaceId x) = map_option session_workspace (session_row i (cp_db s))"
  by (auto simp: loadSessionForMember_def returns_simps dest!: loadSession_returns)

text \<open>The lease: only its holder passes.\<close>

lemma find_lease:
  "findByWorkspaceId DbLeaseStore w s = (r, t) \<Longrightarrow> quiet s t \<and> (\<forall>l. r = Inr l \<longrightarrow> l = leases_table (cp_db s) w)
     \<and> (\<forall>e. r = Inl e \<longrightarrow> (\<exists>m. e = StoreError m))"
  by (rule lease_sql_cases [of "getC (\<lambda>d. leases_table d w)" s])
     (auto simp: DbLeaseStore_def run_simps quiet_def)

lemma getActive_reads:
  assumes "leaseC (getActive DbLeaseStore now w) s = (r, t)"
  shows "quiet s t \<and> (\<forall>l. r = Inr (Some l) \<longrightarrow> leases_table (cp_db s) w = Some l \<and> now < expiresAt l)
     \<and> (\<forall>e. r = Inl e \<longrightarrow> error_status e = 500)"
proof -
  obtain q v where q: "findByWorkspaceId DbLeaseStore w s = (q, v)" by fastforce
  from find_lease [OF q] have f: "quiet s v" "\<And>l. q = Inr l \<Longrightarrow> l = leases_table (cp_db s) w" by auto
  show ?thesis
  proof (cases q)
    case (Inl e)
    with assms q show ?thesis
      by (auto simp: leaseC_def zoomC_def getActive_def lease_get_def transaction_def run_simps)
  next
    case (Inr l)
    with f(2) have "l = leases_table (cp_db s) w" by simp
    with assms q Inr f(1) show ?thesis
      by (auto simp: leaseC_def zoomC_def getActive_def lease_get_def transaction_def run_simps split: option.splits if_splits)
  qed
qed

lemma requireController_observer:
  assumes "\<not> (\<exists>l. leases_table (cp_db s) w = Some l \<and> now < expiresAt l \<and> userId l = u)"
  shows "refuses (requireController (production sha base) now w u) s"
  unfolding requireController_def
proof (rule refuses_bind)
  show "calm (leaseC (getActive (dp_leases (production sha base)) now w))"
    using getActive_reads by (fastforce simp: calm_def)
next
  fix a t
  assume "leaseC (getActive (dp_leases (production sha base)) now w) s = (Inr a, t)"
  then have "\<forall>l. a = Some l \<longrightarrow> leases_table (cp_db s) w = Some l \<and> now < expiresAt l"
    using getActive_reads by fastforce
  with assms show "refuses (case a of None \<Rightarrow> throwC (conflict ''no active controller for this workspace'')
      | Some l \<Rightarrow> if userId l \<noteq> u then throwC (conflict ''only the controller can perform this operation'') else ret l) t"
    by (auto intro!: refuses_throw split: option.split)
qed

section \<open>Every route refuses who is not entitled\<close>

text \<open>
  A request that reaches its handler unentitled: either nobody may act on what it names, or the caller
  is no member, or is no holder of the lease. \<open>shut s i\<close>: from every state as good as \<open>s\<close> the check fails.
\<close>

lemma refuses_input: "calm m \<Longrightarrow> (\<And>a t. quiet s t \<Longrightarrow> refuses (f a) t) \<Longrightarrow> refuses (bindC m f) s"
  by (rule refuses_bind)

lemma refuses_segment:
  assumes "\<And>i. v = Some i \<Longrightarrow> refuses (k i) s"
  shows "refuses (bindC (liftE (requireSegment v n)) k) s"
proof (rule refuses_bind)
  fix i t
  assume "liftE (requireSegment v n) s = (Inr i, t)"
  from requireSegment_returns [OF this] assms show "refuses (k i) t" by simp
qed simp

lemma refuses_segment_Some: "refuses (k i) s \<Longrightarrow> refuses (bindC (liftE (requireSegment (Some i) n)) k) s"
  by (rule refuses_segment) simp

lemma memberWorkspace_then_controller:
  assumes "\<not> (\<exists>l. leases_table (cp_db s) i = Some l \<and> en_now (cx_env ctx) < expiresAt l \<and> userId l = user_id (cx_user ctx))"
  shows "refuses (bindC (memberWorkspace (production sha base) ctx i) (\<lambda>w.
      bindC (requireController (production sha base) (en_now (cx_env ctx)) (w_id w) (user_id (cx_user ctx))) (f w))) s"
proof (rule refuses_bind)
  fix w t
  show "memberWorkspace (production sha base) ctx i s = (Inr w, t) \<Longrightarrow> quiet s t \<Longrightarrow> refuses (bindC (requireController (production sha base) (en_now (cx_env ctx)) (w_id w) (user_id (cx_user ctx))) (f w)) t"
  proof -
    assume "memberWorkspace (production sha base) ctx i s = (Inr w, t)" and q: "quiet s t"
    then have "w_id w = i" by (intro memberWorkspace_returns)
    with assms show ?thesis
      unfolding quiet_tables(3) [OF q, symmetric] by (intro refuses_first requireController_observer) simp
  qed
qed simp

lemma session_then_controller:
  assumes "map_option session_workspace (session_row i (cp_db s)) = Some w"
    "\<not> (\<exists>l. leases_table (cp_db s) w = Some l \<and> en_now (cx_env ctx) < expiresAt l \<and> userId l = user_id (cx_user ctx))"
  shows "refuses (bindC (loadSessionForMember (production sha base) i (user_id (cx_user ctx))) (\<lambda>x.
      bindC (agentInput (production sha base) ctx x a) (f x))) s"
proof (rule refuses_bind)
  fix x t
  assume "loadSessionForMember (production sha base) i (user_id (cx_user ctx)) s = (Inr x, t)" and q: "quiet s t"
  from loadSessionForMember_returns [OF this(1)] assms(1) have "s_workspaceId x = w" by simp
  with assms(2) q show "refuses (bindC (agentInput (production sha base) ctx x a) (f x)) t"
    unfolding agentInput_def quiet_tables(3) [OF q, symmetric]
    by (intro refuses_first requireController_observer) simp
qed simp

lemma workspace_route_refuses:
  assumes "cx_params ctx ''id'' = Some i" "r \<in> {GetWorkspaceR, DeleteWorkspaceR, OpenR, StopR, ListSessionsR,
      CreateSessionR, CheckpointR, AcquireR, HeartbeatR, ReleaseR, ControllerR}"
    "owner_of i (cp_db s) \<noteq> Some (user_id (cx_user ctx))"
  shows "refuses (run_route r (production sha base) ctx) s"
proof -
  have shut: "refuses (memberWorkspace (production sha base) ctx i) t" if "quiet s t" for t
    using assms(3) quiet_rights(1) [OF that] by (intro memberWorkspace_outsider) simp
  note h = getWorkspace_handler_def deleteWorkspace_handler_def openWorkspace_def stopWorkspace_def listSessions_handler_def
    createSession_handler_def manualCheckpoint_def acquireController_def heartbeatController_def releaseController_def
    getControllerStatus_def
  show ?thesis
    by (insert assms(2), unfold insert_iff empty_iff, elim disjE FalseE, simp_all only: run_route.simps h assms(1),
        ((rule refuses_segment_Some) | (rule refuses_first, rule shut, blast intro: quiet_trans quiet_refl)
         | (rule refuses_input, simp))+)
qed

lemma session_route_refuses:
  assumes "cx_params ctx ''id'' = Some i" "r \<in> session_routes"
    "\<not> (\<exists>w. map_option session_workspace (session_row i (cp_db s)) = Some w
        \<and> owner_of w (cp_db s) = Some (user_id (cx_user ctx)))"
  shows "refuses (run_route r (production sha base) ctx) s"
proof -
  have shut: "refuses (loadSessionForMember (production sha base) i (user_id (cx_user ctx))) t" if "quiet s t" for t
  proof (cases "session_row i (cp_db s)")
    case None
    then show ?thesis using quiet_rights(2) [OF that] by (intro loadSessionForMember_missing) simp
  next
    case (Some x)
    with assms(3) quiet_rights(1,2) [OF that] show ?thesis
      by (intro loadSessionForMember_outsider [of i t "session_workspace x"]) simp_all
  qed
  show ?thesis
    by (insert assms(2), unfold session_routes_def insert_iff empty_iff, elim disjE FalseE, simp_all only: run_route.simps postMessage_def postApproval_def postCancel_def
          handleSessionEvents_def assms(1) Let_def,
        ((rule refuses_segment_Some) | (rule refuses_segment) | (rule refuses_first, rule shut, blast intro: quiet_trans quiet_refl)
         | (rule refuses_input, simp)
         | (simp only: split: if_split, intro conjI impI, rule refuses_throw, simp add: field_message_def))+)
qed

lemma lease_route_refuses:
  assumes "acts_on (cp_db s) r (cx_params ctx) = Some w" "r \<in> controller_routes"
    "\<not> (\<exists>l. leases_table (cp_db s) w = Some l \<and> en_now (cx_env ctx) < expiresAt l \<and> userId l = user_id (cx_user ctx))"
  shows "refuses (run_route r (production sha base) ctx) s"
proof -
  from assms(1) obtain i where i: "cx_params ctx ''id'' = Some i" by (auto simp: acts_on_def split: option.splits)
  have lease: "\<not> (\<exists>l. leases_table (cp_db t) w = Some l \<and> en_now (cx_env ctx) < expiresAt l \<and> userId l = user_id (cx_user ctx))"
    if "quiet s t" for t
    using assms(3) quiet_tables(3) [OF that] by simp
  show ?thesis
  proof (cases "r = CheckpointR")
    case True
    with assms(1) i have w: "w = i" by (simp add: acts_on_def session_routes_def)
    show ?thesis
      unfolding True run_route.simps manualCheckpoint_def i
      by (rule refuses_segment_Some, rule refuses_input, simp)
         (rule memberWorkspace_then_controller, use lease w in blast)
  next
    case False
    with assms(1,2) i have w: "map_option session_workspace (session_row i (cp_db s)) = Some w"
      by (auto simp: acts_on_def session_routes_def controller_routes_def)
    have shut: "refuses (bindC (loadSessionForMember (production sha base) i (user_id (cx_user ctx))) (\<lambda>x.
        bindC (agentInput (production sha base) ctx x a) (f x))) t" if "quiet s t" for t a and f :: "Session \<Rightarrow> _"
      by (rule session_then_controller [of i t w], simp only: w quiet_rights(2) [OF that], rule lease [OF that])
    have input: "r = MessageR \<or> r = ApprovalR \<or> r = CancelR" using False assms(2) by (simp add: controller_routes_def)
    show ?thesis
      by (insert input, elim disjE, simp_all only: run_route.simps postMessage_def postApproval_def postCancel_def i Let_def,
        ((rule refuses_segment_Some) | (rule refuses_segment) | (rule shut, blast intro: quiet_trans quiet_refl)
         | (rule refuses_input, simp)
         | (simp only: split: if_split, intro conjI impI, rule refuses_throw, simp add: field_message_def))+)
  qed
qed

lemma unentitled_refuses:
  fixes s :: "'w cp"
  assumes "\<not> entitled (cp_db s) (en_now (cx_env ctx)) r (cx_params ctx) (cx_user ctx)"
  shows "refuses (run_route r (production sha base) ctx) s"
proof (cases "cx_params ctx ''id''")
  case None
  have "refuses (bindC (liftE (requireSegment (cx_params ctx ''id'') ''id'')) k) s" for k :: "string \<Rightarrow> ('w cp, cp_error, Response) comp"
    by (rule refuses_segment) (simp add: None)
  then show ?thesis
    using assms
    by (cases r) (simp_all add: entitled_def getWorkspace_handler_def deleteWorkspace_handler_def openWorkspace_def
        stopWorkspace_def listSessions_handler_def createSession_handler_def manualCheckpoint_def acquireController_def
        heartbeatController_def releaseController_def getControllerStatus_def postMessage_def postApproval_def
        postCancel_def handleSessionEvents_def)
next
  case (Some i)
  show ?thesis
  proof (cases "\<exists>w. acts_on (cp_db s) r (cx_params ctx) = Some w \<and> owner_of w (cp_db s) = Some (user_id (cx_user ctx))")
    case True
    then obtain w where w: "acts_on (cp_db s) r (cx_params ctx) = Some w" "owner_of w (cp_db s) = Some (user_id (cx_user ctx))"
      by blast
    with assms have "r \<in> controller_routes" "\<not> (\<exists>l. leases_table (cp_db s) w = Some l \<and> en_now (cx_env ctx) < expiresAt l
        \<and> userId l = user_id (cx_user ctx))"
      unfolding entitled_def by blast+
    with w(1) show ?thesis by (intro lease_route_refuses)
  next
    case False
    show ?thesis
    proof (cases "r \<in> session_routes")
      case True
      with False Some have "\<not> (\<exists>w. map_option session_workspace (session_row i (cp_db s)) = Some w
          \<and> owner_of w (cp_db s) = Some (user_id (cx_user ctx)))"
        by (simp only: acts_on_def option.case if_True) blast
      with True Some show ?thesis by (intro session_route_refuses)
    next
      case notses: False
      with False Some have "owner_of i (cp_db s) \<noteq> Some (user_id (cx_user ctx))" by (simp add: acts_on_def)
      moreover have "r \<in> {GetWorkspaceR, DeleteWorkspaceR, OpenR, StopR, ListSessionsR,
          CreateSessionR, CheckpointR, AcquireR, HeartbeatR, ReleaseR, ControllerR}"
        using notses assms by (cases r) (simp_all add: session_routes_def entitled_def)
      ultimately show ?thesis using Some workspace_route_refuses by blast
    qed
  qed
qed

end
