(* ===== verification/Server_Safety.thy ===== *)
theory Server_Safety
  imports Server_Props
begin

text \<open>
  Security of the whole request path of \<open>server.ts\<close> in the composition of production: what an
  unentitled request and a cross-origin mutation can do, and what the latter's guard overlooks.
\<close>

section \<open>Authentication reads the session table\<close>

lemma zoom_db_dbC: "zoom_db (dbC m) = dbq m"
  by (rule ext) (simp add: zoom_db_def dbC_def dbq_def zoomC_def split: prod.split sum.split)

lemma find_outages: "auth_sessions (d\<lparr>outages := os\<rparr>) = auth_sessions d"
  by simp

lemma quiet_auth_sessions: "quiet s t \<Longrightarrow> auth_sessions (cp_db t) = auth_sessions (cp_db s)"
  by (rule quiet_tables(4))

lemma authenticate_calm: "calm (authenticateSession (DbSessionStore sha) now rq)"
  by (auto simp: authenticateSession_def DbSessionStore_def pg_lookupSession_def zoom_db_dbC Let_def
      intro!: calm_bind calm_throw split: option.split)

lemma authenticate_returns:
  assumes "authenticateSession (DbSessionStore sha) now rq s = (Inr u, t)"
  shows "principal sha (cp_db s) now rq = Some u"
proof -
  from assms obtain raw where raw: "parseSessionCookies (rq_headers rq ''cookie'') = [raw]" "raw \<noteq> []"
    by (cases "parseSessionCookies (rq_headers rq ''cookie'')" rule: list.exhaust)
       (auto simp: authenticateSession_def run_simps Let_def length_Suc_conv split: if_splits)
  let ?f = "\<lambda>d. map_option row_session (List.find (\<lambda>r. token_hash r = sha raw \<and> now < auth_expires_at r) (auth_sessions d))"
  from assms raw obtain q v where q: "dbq (select ?f) s = (Inr (Some q), v)" "u = sr_user q"
    by (auto simp: authenticateSession_def DbSessionStore_def pg_lookupSession_def zoom_db_dbC hashToken_def
        returns_simps split: option.splits)
  from dbq_select_returns [OF q(1)] have "?f (cp_db s) = Some q" by auto
  with raw q(2) show ?thesis by (auto simp: principal_def)
qed

section \<open>The path to the routes\<close>

lemma public_segments:
  "path_segments ''/livez'' = [''livez'']" "path_segments ''/readyz'' = [''readyz'']"
  "path_segments ''/auth/login'' = [''auth'', ''login'']" "path_segments ''/auth/callback'' = [''auth'', ''callback'']"
  "path_segments ''/auth/logout'' = [''auth'', ''logout'']" "path_segments ''/auth/session'' = [''auth'', ''session'']"
  by code_simp+

lemma static_segments: "map_of STATIC_ALLOWLIST p \<noteq> None \<Longrightarrow> path_segments p \<noteq> ''v1'' # ss"
proof -
  have "\<forall>p \<in> set (map fst STATIC_ALLOWLIST). path_segments p = [] \<or> hd (path_segments p) \<noteq> ''v1''" by code_simp
  moreover assume "map_of STATIC_ALLOWLIST p \<noteq> None"
  then have "p \<in> set (map fst STATIC_ALLOWLIST)" by (simp add: map_of_eq_None_iff)
  ultimately show ?thesis by fastforce
qed

lemma servePublic_api:
  assumes "path_segments (rq_path rq) = ''v1'' # ss"
  shows "servePublic deps en rq =
     bindC (liftE (checkMutationGuards rq (map_option appOrigin (dp_oauth deps)))) (\<lambda>_. ret None)"
proof -
  have "rq_path rq \<notin> {''/livez'', ''/readyz'', ''/auth/login'', ''/auth/callback'', ''/auth/logout'', ''/auth/session''}"
    using assms public_segments by auto
  moreover have "serveStaticFile deps (rq_method rq) (rq_path rq) = None"
    using static_segments assms by (auto simp: serveStaticFile_def split: option.split)
  ultimately show ?thesis by (simp add: servePublic_def Let_def)
qed

lemma calm_guards [simp]: "calm (liftE (checkMutationGuards rq origin))"
  by (intro calm_liftE) (auto simp: checkMutationGuards_def split: option.splits if_splits)

lemma calm_run: "calm m \<Longrightarrow> m s = (r, t) \<Longrightarrow> quiet s t \<and> (\<forall>e. r = Inl e \<longrightarrow> 400 \<le> error_status e)"
  by (auto simp: calm_def)

lemma toErrorResponse_quiet:
  assumes "toErrorResponse en c e s = (resp, t)" "400 \<le> error_status e"
  shows "quiet s t \<and> 400 \<le> rs_status resp"
  using assms by (cases e) (auto simp: toErrorResponse_def Let_def errorResponse_def json_response_def quiet_def split: err_kind.splits)

lemma match_segments_error: "match_segments ps as params = Inl e \<Longrightarrow> error_status e = 400"
  by (induction ps as params rule: match_segments.induct) (auto split: if_splits option.splits)

lemma match_routes_error: "match_routes rs m segs = Inl e \<Longrightarrow> error_status e = 400"
  by (induction rs m segs rule: match_routes.induct)
     (auto split: if_splits sum.splits option.splits dest: match_segments_error)

text \<open>A request that fails quietly at any point of the path is answered by an error and nothing else.\<close>

lemma fetch_refused:
  assumes "path_segments (rq_path rq) = ''v1'' # ss"
    "createFetchHandler (production sha base) en rq s = (resp, t)"
    "\<And>u r params. principal sha (cp_db s) (en_now en) rq = Some u \<Longrightarrow>
       match_routes routes (rq_method rq) (path_segments (rq_path rq)) = Inr (Some (r, params)) \<Longrightarrow>
       \<not> entitled (cp_db s) (en_now en) r params u"
  shows "quiet s t \<and> 400 \<le> rs_status resp"
proof -
  let ?p = "production sha base"
  let ?fail = "\<lambda>params u. toErrorResponse en (errorContextFromRequest (rq_method rq) (rq_path rq) params u)"
  obtain g a where pub: "servePublic ?p en rq s = (g, a)" by fastforce
  have calmpub: "calm (servePublic ?p en rq)" unfolding servePublic_api [OF assms(1)] by (intro calm_bind) simp_all
  note qa = calm_run [OF calmpub pub]
  show ?thesis
  proof (cases g)
    case (Inl e)
    with pub assms(2) have "?fail Map.empty None e a = (resp, t)" by (simp add: createFetchHandler_def)
    with Inl qa toErrorResponse_quiet show ?thesis by (blast intro: quiet_trans)
  next
    case (Inr x)
    with pub have x: "x = None" by (auto simp: servePublic_api [OF assms(1)] run_simps split: sum.splits)
    obtain h b where au: "authenticateSession (DbSessionStore sha) (en_now en) rq a = (h, b)" by fastforce
    note qb = calm_run [OF authenticate_calm au]
    from qa qb have qab: "quiet s b" by (blast intro: quiet_trans)
    show ?thesis
    proof (cases h)
      case (Inl e)
      with pub Inr x au assms(2) have "?fail Map.empty None e b = (resp, t)" by (simp add: createFetchHandler_def)
      with Inl qb qab toErrorResponse_quiet show ?thesis by (blast intro: quiet_trans)
    next
      case (Inr u)
      note run = pub \<open>g = Inr x\<close> x au Inr assms(2)
      show ?thesis
      proof (cases "match_routes routes (rq_method rq) (path_segments (rq_path rq))")
        case (Inl e)
        with run have "?fail Map.empty (Some u) e b = (resp, t)" by (simp add: createFetchHandler_def)
        moreover have "400 \<le> error_status e" using match_routes_error [OF Inl] by simp
        ultimately show ?thesis using qab toErrorResponse_quiet by (blast intro: quiet_trans)
      next
        case (Inr m)
        show ?thesis
        proof (cases m)
          case None
          with run Inr have "?fail Map.empty (Some u) (no_route rq) b = (resp, t)" by (simp add: createFetchHandler_def)
          moreover have "400 \<le> error_status (no_route rq)" by (simp add: no_route_def)
          ultimately show ?thesis using qab toErrorResponse_quiet by (blast intro: quiet_trans)
        next
          case (Some rp)
          obtain r params where rp: "rp = (r, params)" by (cases rp)
          let ?ctx = "\<lparr>cx_request = rq, cx_params = params, cx_env = en, cx_user = u\<rparr>"
          from authenticate_returns [of sha "en_now en" rq a u b] au \<open>h = Inr u\<close> quiet_rights(4) [of s a] qa
          have "principal sha (cp_db s) (en_now en) rq = Some u" by simp
          from assms(3) [OF this] Inr Some rp quiet_rights(3) [OF qab]
          have "\<not> entitled (cp_db b) (en_now (cx_env ?ctx)) r (cx_params ?ctx) (cx_user ?ctx)" by simp
          from unentitled_refuses [OF this, of sha base] obtain e v
            where e: "run_route r ?p ?ctx b = (Inl e, v)" "quiet b v" "400 \<le> error_status e"
            unfolding refuses_def by blast
          with run Inr Some rp have "?fail params (Some u) e v = (resp, t)" by (simp add: createFetchHandler_def)
          with e qab toErrorResponse_quiet show ?thesis by (blast intro: quiet_trans)
        qed
      qed
    qed
  qed
qed

section \<open>What an unentitled request can do\<close>

text \<open>C25: a request to the API (its first path segment is v1) that is not entitled changes nothing and
  calls nobody: whenever no live session authenticates it, or the workspace it names (itself or by one of its
  sessions) is missing or belongs to another user, or it is an agent input or a checkpoint and its user
  does not hold the unexpired controller lease, the answer is an error status, and the tables, the
  registry of runtime handles, the calls made to handles, agent host and GitHub and the rest of the
  world are as before, whatever statements of the database fail on the way.\<close>

theorem unentitled_changes_nothing:
  assumes "path_segments (rq_path rq) = ''v1'' # ss"
    "\<And>u r params. principal sha (cp_db s) (en_now en) rq = Some u \<Longrightarrow>
       match_routes routes (rq_method rq) (path_segments (rq_path rq)) = Inr (Some (r, params)) \<Longrightarrow>
       \<not> entitled (cp_db s) (en_now en) r params u"
  shows "quiet s (snd (createFetchHandler (production sha base) en rq s))
    \<and> 400 \<le> rs_status (fst (createFetchHandler (production sha base) en rq s))"
  by (rule fetch_refused [OF assms(1) prod.collapse [symmetric] assms(2)])

text \<open>Its witness: the owner of a workspace whose own lease expires at this very millisecond posts a message.\<close>

lemma ascii_segments: "decodeURIComponent ''s'' = Some ''s''" "decodeURIComponent ''w'' = Some ''w''"
  by code_simp+

definition sample_db :: db where
  "sample_db = (empty_db 1000 [])\<lparr>
     workspaces := [\<lparr>row_id = ''w'', owner_id = ''github:7'', repository_owner = ''o'', repository_name = ''r'',
        base_branch = ''main'', instance_name = None, instance_url = None, runtime_state_col = READY,
        last_error = None, last_activity_at = None, created_at = 0, updated_at = 0\<rparr>],
     sessions := [\<lparr>session_row_id = ''s'', session_workspace = ''w'', metadata_col = JObj [],
        session_created_at = 0, session_updated_at = 0\<rparr>],
     leases_table := [''w'' \<mapsto> \<lparr>cl_workspaceId = ''w'', controllerId = ''c'', userId = ''github:7'',
        expiresAt = 1000, updatedAt = 0\<rparr>],
     auth_sessions := [\<lparr>auth_id = ''a'', token_hash = ''t'', auth_user_id = ''github:7'', github_user_id = 7,
        github_login = ''octo'', auth_created_at = 0, auth_expires_at = 5000\<rparr>]\<rparr>"

definition sample_state :: "db \<Rightarrow> unit cp" where
  "sample_state d = \<lparr>cp_db = d, cp_members = [], cp_registry = Map.empty, cp_trace = [], cp_log = [], cp_world = ()\<rparr>"

text \<open>A composition whose runtime is always ready and whose agent host accepts everything.\<close>

definition sample_handle :: "unit RuntimeHandle" where
  "sample_handle = \<lparr>h_open = ret READY, h_stop = (\<lambda>_. ret STOPPED), h_recordActivity = (\<lambda>_. ret ()),
     h_assertAgentInputAllowed = ret (), h_runManualCheckpoint = (\<lambda>_. ret False), h_deleteInstance = ret (),
     h_getInstanceUrl = ret (Some ''https://i''), h_describeInstance = None\<rparr>"

definition sample_deps :: "unit deps" where
  "sample_deps = \<lparr>dp_membership = OwnerMembershipStore, dp_leases = DbLeaseStore, dp_sessions = DbSessionStore id,
     dp_oauth = None, dp_githubAuth = None, dp_authorizer = None, dp_factory = (\<lambda>_. ret ()),
     dp_handle = (\<lambda>_. sample_handle),
     dp_forwarder = Some \<lparr>fw_forward = (\<lambda>_ _ _ _ _ _. ret ()), fw_forwardApproval = (\<lambda>_ _ _ _ _ _. ret ()),
       fw_forwardCancel = (\<lambda>_ _ _ _. ret ())\<rparr>,
     dp_readiness = None, dp_sha = id, dp_others = id, dp_public = Map.empty\<rparr>"

definition sample_env :: env where
  "sample_env = \<lparr>en_now = 1000, en_uuid = ''u'', en_errorId = ''e'', en_state = ''st'', en_verifier = ''v'',
     en_nonce = ''n'', en_token = ''tok''\<rparr>"

definition sample_request :: "string \<Rightarrow> string \<Rightarrow> (string \<rightharpoonup> string) \<Rightarrow> string \<Rightarrow> Request" where
  "sample_request m p h b = \<lparr>rq_method = m, rq_path = p, rq_query = Map.empty, rq_headers = h, rq_body = b\<rparr>"

lemmas samples = sample_db_def sample_state_def sample_env_def sample_request_def empty_db_def

theorem unentitled_changes_nothing_witness:
  "quiet (sample_state sample_db) (snd (createFetchHandler (production id sample_deps) sample_env
       (sample_request ''POST'' ''/v1/sessions/s/messages'' [''cookie'' \<mapsto> ''__Host-dsh_session=t''] []) (sample_state sample_db)))
   \<and> 400 \<le> rs_status (fst (createFetchHandler (production id sample_deps) sample_env
       (sample_request ''POST'' ''/v1/sessions/s/messages'' [''cookie'' \<mapsto> ''__Host-dsh_session=t''] []) (sample_state sample_db)))"
proof (rule unentitled_changes_nothing)
  let ?rq = "sample_request ''POST'' ''/v1/sessions/s/messages'' [''cookie'' \<mapsto> ''__Host-dsh_session=t''] []"
  have segs: "path_segments ''/v1/sessions/s/messages'' = [''v1'', ''sessions'', ''s'', ''messages'']" by code_simp
  then show "path_segments (rq_path ?rq) = ''v1'' # [''sessions'', ''s'', ''messages'']" by (simp add: sample_request_def)
  have found: "match_routes routes ''POST'' [''v1'', ''sessions'', ''s'', ''messages''] = Inr (Some (MessageR, [''id'' \<mapsto> ''s'']))"
    by (simp add: routes_def starts_with_def ascii_segments)
  fix u r params
  assume "match_routes routes (rq_method ?rq) (path_segments (rq_path ?rq)) = Inr (Some (r, params))"
  with segs found have r: "r = MessageR" "params = [''id'' \<mapsto> ''s'']" by (simp_all add: sample_request_def)
  show "\<not> entitled (cp_db (sample_state sample_db)) (en_now sample_env) r params u"
    unfolding r by (simp add: entitled_def acts_on_def controller_routes_def session_routes_def samples session_row_def)
qed

section \<open>Cross-origin mutations\<close>



text \<open>
  The guard compares the path, the router its segments without the empty ones: with a doubled slash
  the request of another origin passes the guard and still reaches the route.
\<close>

lemma doubled_slash_escapes_guard:
  assumes "rq_path rq = ''//v1/workspaces/w/stop''" "rq_method rq = ''POST''"
  shows "checkMutationGuards rq (Some origin) = Inr ()"
    "match_routes routes (rq_method rq) (path_segments (rq_path rq)) = Inr (Some (StopR, [''id'' \<mapsto> ''w'']))"
proof -
  show "checkMutationGuards rq (Some origin) = Inr ()"
    using assms by (simp add: checkMutationGuards_def isMutationTarget_def starts_with_def)
  have "path_segments ''//v1/workspaces/w/stop'' = [''v1'', ''workspaces'', ''w'', ''stop'']" by code_simp
  with assms show "match_routes routes (rq_method rq) (path_segments (rq_path rq)) = Inr (Some (StopR, [''id'' \<mapsto> ''w'']))"
    by (simp add: routes_def starts_with_def ascii_segments)
qed

end
