(* ===== verification/Response_Props.thy ===== *)
theory Response_Props
  imports Server_Safety
begin

text \<open>
  The responses of the whole server: which statuses and bodies a request can be answered with, and
  that an unexpected error is told apart only in the log. \<open>outcome E R m\<close>: \<open>m\<close> throws only errors
  of \<open>E\<close> and returns only values of \<open>R\<close>.
\<close>

section \<open>Outcomes of computations\<close>

definition outcome :: "('e \<Rightarrow> bool) \<Rightarrow> ('a \<Rightarrow> bool) \<Rightarrow> ('s, 'e, 'a) comp \<Rightarrow> bool" where
  "outcome E R m \<longleftrightarrow> (\<forall>s. case fst (m s) of Inl e \<Rightarrow> E e | Inr a \<Rightarrow> R a)"

abbreviation throws_only :: "('e \<Rightarrow> bool) \<Rightarrow> ('s, 'e, 'a) comp \<Rightarrow> bool" where
  "throws_only E m \<equiv> outcome E (\<lambda>_. True) m"

named_theorems outcome_intros "what a computation throws and returns, along its structure"

lemma outcomeI:
  "(\<And>s e t. m s = (Inl e, t) \<Longrightarrow> E e) \<Longrightarrow> (\<And>s a t. m s = (Inr a, t) \<Longrightarrow> R a) \<Longrightarrow> outcome E R m"
  unfolding outcome_def by (metis (no_types, lifting) old.sum.exhaust prod.collapse sum.case)

lemma outcome_Inl: "m s = (Inl e, t) \<Longrightarrow> outcome E R m \<Longrightarrow> E e"
  by (auto simp: outcome_def dest: spec [of _ s])

lemma outcome_Inr: "m s = (Inr a, t) \<Longrightarrow> outcome E R m \<Longrightarrow> R a"
  by (auto simp: outcome_def dest: spec [of _ s])

lemma outcome_ret [outcome_intros]: "R a \<Longrightarrow> outcome E R (ret a)"
  by (simp add: outcome_def run_simps)

lemma outcome_throw [outcome_intros]: "E e \<Longrightarrow> outcome E R (throwC e)"
  by (simp add: outcome_def run_simps)

lemma outcome_state [outcome_intros]: "throws_only E (getC f)" "throws_only E (modifyC g)" "throws_only E (tryC m)"
  by (simp_all add: outcome_def run_simps split: prod.split)

lemma outcome_notes [outcome_intros]: "throws_only E (noteC c)" "throws_only E (logC l fs)"
  by (simp_all add: outcome_def run_simps noteC_def logC_def)

lemma outcome_bind [outcome_intros]:
  "throws_only E m \<Longrightarrow> (\<And>a. outcome E R (f a)) \<Longrightarrow> outcome E R (bindC m f)"
  by (rule outcomeI) (auto simp: run_simps split: prod.splits sum.splits dest: outcome_Inl outcome_Inr)

lemma outcome_then [outcome_intros]: "throws_only E m \<Longrightarrow> outcome E R k \<Longrightarrow> outcome E R (thenC m k)"
  by (simp add: thenC_def outcome_bind)

lemma outcome_bind_try:
  assumes "throws_only D m" "\<And>e. D e \<Longrightarrow> outcome E R (f (Inl e))" "\<And>a. outcome E R (f (Inr a))"
  shows "outcome E R (bindC (tryC m) f)"
proof -
  have next_step: "outcome E R (f r)" if "m s = (r, u)" for s r u
    using assms outcome_Inl [OF _ assms(1)] that by (cases r) blast+
  show ?thesis
    by (rule outcomeI) (auto simp: run_simps split: prod.splits dest: outcome_Inl [OF _ next_step] outcome_Inr [OF _ next_step])
qed

lemma outcome_catch:
  "outcome D R m \<Longrightarrow> (\<And>e. D e \<Longrightarrow> outcome E R (h e)) \<Longrightarrow> outcome E R (catchC m h)"
  by (rule outcomeI) (auto simp: run_simps split: prod.splits sum.splits dest: outcome_Inl outcome_Inr)

lemma outcome_zoom [outcome_intros]: "(\<And>d. E (f d)) \<Longrightarrow> throws_only E (zoomC get put f m)"
  by (simp add: outcome_def zoomC_def split: prod.split sum.split)

lemma outcome_liftE [outcome_intros]: "(\<And>e. r = Inl e \<Longrightarrow> E e) \<Longrightarrow> throws_only E (liftE r)"
  by (simp add: outcome_def run_simps split: sum.split)

lemma outcome_call [outcome_intros]: "throws_only E m \<Longrightarrow> throws_only E (callC c m)"
  unfolding callC_def by (intro outcome_intros)

section \<open>Documented errors\<close>

definition ERROR_CODES :: "(nat \<times> string) list" where
  "ERROR_CODES = [(400, ''bad_request''), (401, ''unauthorized''), (403, ''forbidden''), (404, ''not_found''),
     (409, ''conflict''), (502, ''bad_gateway''), (503, ''unavailable'')]"

fun documented :: "cp_error \<Rightarrow> bool" where
  "documented (ApiError st code _) = ((st, code) \<in> set ERROR_CODES)"
| "documented _ = True"

lemma documented_api [simp, intro]:
  "documented (badRequest m)" "documented (unauthorized m)" "documented (forbidden m)" "documented (notFound m)"
  "documented (conflict m)" "documented (badGateway m)" "documented (unavailable m)" "documented (field_message f m)"
  by (simp_all add: api_errors field_message_def ERROR_CODES_def)

lemma documented_inputs [outcome_intros]:
  "throws_only documented (liftE (requireSegment v n))" "throws_only documented (liftE (parseJsonBody rq))"
  "throws_only documented (liftE (parseOptionalJsonBody rq))" "throws_only documented (liftE (requireString b f))"
  "throws_only documented (liftE (optionalString b f))" "throws_only documented (liftE (optionalObject b f))"
  "throws_only documented (liftE (checkMutationGuards rq origin))" "throws_only documented (liftE (requireOAuth deps))"
  by (auto intro!: outcome_liftE simp: requireSegment_def parseOptionalJsonBody_def parseJsonBody_def requireString_def
      optionalString_def optionalObject_def checkMutationGuards_def requireOAuth_def split: option.splits if_splits json.splits)

lemma documented_stores [outcome_intros]: "throws_only documented (dbq m)" "throws_only documented (leaseC l)"
  unfolding dbq_def leaseC_def by (intro outcome_zoom; simp)+

section \<open>What the collaborators promise\<close>

text \<open>The typed API errors are the control plane's own: its collaborators throw runtime errors and errors of any other kind.\<close>

definition documented_handle :: "'w RuntimeHandle \<Rightarrow> bool" where
  "documented_handle h \<longleftrightarrow> throws_only documented (h_open h) \<and> (\<forall>i. throws_only documented (h_stop h i))
     \<and> (\<forall>a. throws_only documented (h_recordActivity h a)) \<and> throws_only documented (h_assertAgentInputAllowed h)
     \<and> (\<forall>i. throws_only documented (h_runManualCheckpoint h i)) \<and> throws_only documented (h_getInstanceUrl h)"

fun documented_authz :: "authz_error \<Rightarrow> bool" where
  "documented_authz (AuthorizerError e) = documented e" | "documented_authz _ = True"

fun documented_oauth :: "oauth_error \<Rightarrow> bool" where
  "documented_oauth (OtherOAuthError e) = documented e" | "documented_oauth _ = True"

definition documented_collaborators :: "'w deps \<Rightarrow> bool" where
  "documented_collaborators deps \<longleftrightarrow> (\<forall>k. throws_only documented (dp_factory deps k) \<and> documented_handle (dp_handle deps k))
     \<and> (\<forall>can ow r p l. dp_authorizer deps = Some can \<longrightarrow> throws_only documented_authz (can ow r p l))
     \<and> (\<forall>probe. dp_readiness deps = Some probe \<longrightarrow> throws_only documented probe)
     \<and> (\<forall>c. dp_githubAuth deps = Some c \<longrightarrow>
          (\<forall>a b d e. throws_only documented_oauth (gh_exchangeCode c a b d e)) \<and> (\<forall>t. throws_only documented_oauth (gh_getUser c t)))"

section \<open>The handlers\<close>

definition fine :: "Response \<Rightarrow> bool" where
  "fine r \<longleftrightarrow> rs_status r \<in> {200, 201, 202, 302} \<or> (\<exists>m. r = errorResponse 400 ''bad_request'' m)"

lemma fine_status [simp]: "rs_status r = 200 \<or> rs_status r = 201 \<or> rs_status r = 202 \<or> rs_status r = 302 \<Longrightarrow> fine r"
  by (auto simp: fine_def)

lemma fine_bad_request [simp]: "fine (errorResponse 400 ''bad_request'' m)"
  by (auto simp: fine_def)

abbreviation answers :: "('w cp, cp_error, Response) comp \<Rightarrow> bool" where
  "answers m \<equiv> outcome documented fine m"

lemma json_status [simp]: "rs_status (json_response v st) = st" "rs_status (state_response w x st) = st"
  by (simp_all add: json_response_def state_response_def)

lemma outcome_cases [outcome_intros]:
  "(b \<Longrightarrow> outcome E R m) \<Longrightarrow> (\<not> b \<Longrightarrow> outcome E R k) \<Longrightarrow> outcome E R (if b then m else k)"
  "outcome E R n \<Longrightarrow> (\<And>x. outcome E R (g x)) \<Longrightarrow> outcome E R (case v of None \<Rightarrow> n | Some x \<Rightarrow> g x)"
  "(\<And>x. outcome E R (l x)) \<Longrightarrow> (\<And>y. outcome E R (h y)) \<Longrightarrow> outcome E R (case q of Inl x \<Rightarrow> l x | Inr y \<Rightarrow> h y)"
  "(\<And>x y. outcome E R (c x y)) \<Longrightarrow> outcome E R (case p of (x, y) \<Rightarrow> c x y)"
  "outcome E R n' \<Longrightarrow> (\<And>x xs. outcome E R (d x xs)) \<Longrightarrow> outcome E R (case ls of [] \<Rightarrow> n' | x # xs \<Rightarrow> d x xs)"
  "outcome E R n'' \<Longrightarrow> (\<And>x. outcome E R (i x)) \<Longrightarrow> outcome E R (case di of Missing \<Rightarrow> n'' | Present x \<Rightarrow> i x)"
  by (auto split: option.split sum.split prod.split list.split InstanceDiagnostic.split)

lemma outcome_let [outcome_intros]: "outcome E R (f v) \<Longrightarrow> outcome E R (Let v f)"
  by simp

lemma production_store [outcome_intros]:
  "throws_only documented (ms_isMember OwnerMembershipStore w u)" "throws_only documented (ms_addMember OwnerMembershipStore w u)"
  "throws_only documented (ms_removeMember OwnerMembershipStore w u)" "throws_only documented (ms_listMembers OwnerMembershipStore w)"
  "throws_only documented (ms_listWorkspaceIdsForUser OwnerMembershipStore u)"
  by (simp_all add: OwnerMembershipStore_def owner_isMember_def) (intro outcome_intros; simp)+

lemma owner_checks [outcome_intros]: "throws_only documented (assertMember OwnerMembershipStore w u)"
  unfolding assertMember_def by (intro outcome_intros) simp_all

lemma zoom_db_documented: "throws_only documented (zoom_db m)" if "throws_only documented m"
  by (rule outcomeI) (auto simp: zoom_db_def zoomC_def split: prod.splits sum.splits dest: outcome_Inl [OF _ that])

lemma documented_dbC [outcome_intros]: "throws_only documented (dbC m)"
  unfolding dbC_def by (intro outcome_zoom) simp

lemma session_store_documented [outcome_intros]:
  "throws_only documented (ss_createSession (DbSessionStore sha) u now raw i)"
  "throws_only documented (ss_lookupSession (DbSessionStore sha) raw now)"
  "throws_only documented (ss_revokeSession (DbSessionStore sha) raw)"
  "throws_only documented (ss_createLoginFlow (DbSessionStore sha) st f now)"
  "throws_only documented (ss_consumeLoginFlow (DbSessionStore sha) st now)"
  unfolding DbSessionStore_def SessionStore.simps pg_createSession_def pg_lookupSession_def pg_revokeSession_def
    pg_createLoginFlow_def pg_consumeLoginFlow_def
  by (intro zoom_db_documented outcome_intros; simp)+

lemma loads_documented [outcome_intros]:
  "throws_only documented (loadWorkspace i)" "throws_only documented (loadSession i)"
  "throws_only documented (loadSessionForMember (production sha base) i u)"
  "throws_only documented (memberWorkspace (production sha base) ctx i)"
  "throws_only documented (requireController (production sha base) now w u)"
  unfolding loadWorkspace_def loadSession_def loadSessionForMember_def memberWorkspace_def requireController_def production_simps
  by (intro outcome_intros; simp add: documented_api)+

lemma authenticate_documented [outcome_intros]:
  "throws_only documented (authenticateSession (DbSessionStore sha) now rq)"
  unfolding authenticateSession_def by (intro outcome_intros; simp)

lemma production_fields [simp]:
  "dp_factory (production sha base) = dp_factory base" "dp_handle (production sha base) = dp_handle base"
  "dp_authorizer (production sha base) = dp_authorizer base" "dp_readiness (production sha base) = dp_readiness base"
  "dp_githubAuth (production sha base) = dp_githubAuth base" "dp_oauth (production sha base) = dp_oauth base"
  by (simp_all add: production_def)

lemma handle_documented [outcome_intros]:
  assumes "documented_collaborators base"
  shows "throws_only documented (dp_factory base k)" "throws_only documented (h_open (dp_handle base k))"
    "throws_only documented (h_stop (dp_handle base k) i)" "throws_only documented (h_recordActivity (dp_handle base k) a)"
    "throws_only documented (h_assertAgentInputAllowed (dp_handle base k))"
    "throws_only documented (h_runManualCheckpoint (dp_handle base k) i)"
    "throws_only documented (h_getInstanceUrl (dp_handle base k))"
  using assms unfolding documented_collaborators_def documented_handle_def by blast+

lemma runtimes_documented [outcome_intros]:
  "documented_collaborators base \<Longrightarrow> throws_only documented (runtimes_get (production sha base) w c)"
  unfolding runtimes_get_def production_fields by (intro outcome_intros; (assumption | simp))

lemma markOrServeWinner_documented [outcome_intros]: "throws_only documented (markOrServeWinner deps w r)"
  unfolding markOrServeWinner_def by (intro outcome_intros; simp)

lemma forget_members_documented [outcome_intros]: "throws_only documented (forget_members deps i us)"
  by (induction us) (auto intro!: outcome_intros)

lemma helpers_documented [outcome_intros]:
  "throws_only documented (recordInRequestOpenFailureBestEffort i e)"
  "throws_only documented (probeInstanceFailureOnce deps w)"
  unfolding recordInRequestOpenFailureBestEffort_def probeInstanceFailureOnce_def Let_def
  by (intro outcome_intros; simp)+

lemma stale_documented [outcome_intros]: "throws_only documented (failStaleStartingWorkspace deps now w)"
  unfolding failStaleStartingWorkspace_def by (intro outcome_intros; simp)

lemma authorize_documented [outcome_intros]:
  assumes "documented_collaborators base"
  shows "throws_only documented (authorizeRepository (production sha base) u ow repo)"
proof -
  have can: "throws_only documented_authz (callC c (can a b p l))" if "dp_authorizer base = Some can" for can c a b p l
    using assms that unfolding documented_collaborators_def by (intro outcome_call) blast
  have api: "documented_authz e \<Longrightarrow> documented (authz_to_api e)" for e by (cases e) simp_all
  have coordinates: "validateRepositoryCoordinates a b = Inl e \<Longrightarrow> documented_authz e" for a b e
    by (auto simp: validateRepositoryCoordinates_def split: if_splits)
  show ?thesis
  proof (cases "dp_authorizer base")
    case None
    then show ?thesis by (simp add: authorizeRepository_def outcome_intros)
  next
    case (Some can)
    then show ?thesis
      unfolding authorizeRepository_def
      by (cases "validateRepositoryCoordinates ow repo")
         (auto intro!: outcome_throw outcome_ret outcome_bind_try [OF can] api dest: coordinates)
  qed
qed

lemma lease_open_documented [outcome_intros]: "throws_only documented (ensureControllerLeaseForOpen deps en w u)"
  unfolding ensureControllerLeaseForOpen_def
  by (intro outcome_bind outcome_cases(2) outcome_ret outcome_bind_try [OF documented_stores(2)] documented_stores)
     (auto intro!: outcome_intros split: cp_error.split lease_error.split)

lemma agentInput_documented [outcome_intros]:
  "documented_collaborators base \<Longrightarrow> throws_only documented (agentInput (production sha base) ctx s a)"
  unfolding agentInput_def production_fields by (intro outcome_intros; (assumption | simp))

lemma appendOne_documented [outcome_intros]: "throws_only documented (appendOne s en ty v)"
  unfolding appendOne_def by (intro outcome_intros; simp)

lemma forwarding_documented [outcome_intros]: "throws_only documented (forwarding line failure m)"
  unfolding forwarding_def by (intro outcome_bind; auto intro!: outcome_intros split: sum.split forward_error.split)

section \<open>Every route\<close>

lemma bad_query: "json_response (JObj [(''error'', JObj [(''code'', JStr ''bad_request''), (''message'', JStr m)])]) 400
    = errorResponse 400 ''bad_request'' m"
  by (simp add: errorResponse_def)

lemma workspace_routes_answer:
  assumes "documented_collaborators base"
  shows "answers (createWorkspace_handler (production sha base) ctx)" "answers (listWorkspaces_handler (production sha base) ctx)"
    "answers (getWorkspace_handler (production sha base) ctx)" "answers (deleteWorkspace_handler (production sha base) ctx)"
    "answers (listSessions_handler (production sha base) ctx)" "answers (createSession_handler (production sha base) ctx)"
    "answers (stopWorkspace (production sha base) ctx)" "answers (manualCheckpoint (production sha base) ctx)"
    "answers (getControllerStatus (production sha base) ctx)"
  unfolding createWorkspace_handler_def listWorkspaces_handler_def getWorkspace_handler_def deleteWorkspace_handler_def
    listSessions_handler_def createSession_handler_def stopWorkspace_def manualCheckpoint_def getControllerStatus_def
    production_fields production_simps
  by (intro outcome_intros assms; simp)+

lemma open_answers:
  assumes "documented_collaborators base"
  shows "answers (openWorkspace (production sha base) ctx)"
proof -
  have calls: "throws_only documented (catchC (callC (OpenCall k) (h_open (dp_handle base k)))
      (\<lambda>e. thenC (recordInRequestOpenFailureBestEffort i e) (throwC e)))" for k i
    by (rule outcome_catch [OF outcome_call [OF handle_documented(2) [OF assms]]]) (intro outcome_intros)
  show ?thesis
    unfolding openWorkspace_def production_fields
    by (intro outcome_intros calls assms; simp)
qed

text \<open>The lease routes translate the errors of the lease service they expect and pass on the others.\<close>

lemma lease_catch:
  assumes "\<And>e. documented e \<Longrightarrow> throws_only documented (h e)"
  shows "throws_only documented (catchC (leaseC m) h)"
  by (rule outcome_catch [OF documented_stores(2) assms])

lemma lease_routes_answer:
  "answers (acquireController (production sha base) ctx)" "answers (heartbeatController (production sha base) ctx)"
  "answers (releaseController (production sha base) ctx)"
  unfolding acquireController_def heartbeatController_def releaseController_def
  by (intro outcome_bind outcome_then lease_catch outcome_intros; auto simp: not_owned_def intro!: outcome_throw split: cp_error.split lease_error.split)+

lemma forward_answers:
  "(\<And>fw u. throws_only documented (g fw u)) \<Longrightarrow>
     throws_only documented (case p of (Some fw, Some u) \<Rightarrow> g fw u | _ \<Rightarrow> ret ())"
  by (auto intro!: outcome_ret split: prod.split option.split)

lemma input_routes_answer:
  assumes "documented_collaborators base"
  shows "answers (postMessage (production sha base) ctx)" "answers (postApproval (production sha base) ctx)"
    "answers (postCancel (production sha base) ctx)"
  unfolding postMessage_def postApproval_def postCancel_def
  by (intro outcome_intros forward_answers assms; simp)+

lemma events_answer: "answers (handleSessionEvents (production sha base) ctx)"
  unfolding handleSessionEvents_def bad_query
  by (intro outcome_bind outcome_intros; auto intro!: outcome_ret split: option.split)

lemma routes_answer: "documented_collaborators base \<Longrightarrow> answers (run_route r (production sha base) ctx)"
  by (cases r; simp only: run_route.simps; intro workspace_routes_answer open_answers lease_routes_answer input_routes_answer events_answer)

section \<open>The whole server\<close>

lemma outcome_pass: "outcome E Q m \<Longrightarrow> (\<And>a. Q a \<Longrightarrow> R (g a)) \<Longrightarrow> outcome E R (bindC m (\<lambda>a. ret (g a)))"
  by (rule outcomeI) (auto simp: run_simps split: prod.splits sum.splits dest: outcome_Inl outcome_Inr)

lemma callback_answers:
  assumes "documented_collaborators base"
  shows "answers (handleAuthCallback (production sha base) en rq)"
proof -
  have github: "throws_only documented_oauth (bindC (callC (ExchangeCall c v) (gh_exchangeCode cl c v cb cf))
      (\<lambda>token. callC ProfileCall (gh_getUser cl token)))" if "dp_githubAuth base = Some cl" for cl c v cb cf
    using assms that unfolding documented_collaborators_def by (intro outcome_intros) blast+
  show ?thesis
  proof (cases "requireOAuth (production sha base)")
    case (Inl e)
    then show ?thesis
      by (auto simp: handleAuthCallback_def liftE_def requireOAuth_def outcome_def run_simps split: option.splits)
  next
    case (Inr cc)
    then obtain cfg cl where cl: "cc = (cfg, cl)" "dp_githubAuth base = Some cl"
      by (auto simp: requireOAuth_def split: option.splits)
    show ?thesis
      unfolding handleAuthCallback_def Inr cl(1) liftE_def sum.case bindC_ret prod.case production_simps
      by (intro outcome_bind outcome_cases(1,2) outcome_let outcome_bind_try [OF github [OF cl(2)]] session_store_documented)
         (auto simp: redirect_def intro!: outcome_intros split: oauth_error.split)
  qed
qed

lemma revoke_all_documented [outcome_intros]: "throws_only documented (revoke_all (production sha base) rs)"
  by (induction rs) (auto intro!: outcome_intros)

lemma auth_routes_answer:
  "answers (handleAuthLogin (production sha base) en rq)" "answers (handleAuthLogout (production sha base) rq)"
  "answers (handleAuthSession (production sha base) en rq)"
  unfolding handleAuthLogin_def handleAuthLogout_def handleAuthSession_def production_simps
  by (intro outcome_intros; simp add: redirect_def)+

definition public_answer :: "Response option \<Rightarrow> bool" where
  "public_answer v \<longleftrightarrow> (\<forall>r. v = Some r \<longrightarrow> fine r \<or> r = status_response ''not_ready'' 503)"

lemma static_fine: "serveStaticFile deps m p = Some r \<Longrightarrow> fine r"
  by (auto simp: serveStaticFile_def split: if_splits option.splits)

lemma public_answers:
  assumes "documented_collaborators base"
  shows "outcome documented public_answer (servePublic (production sha base) en rq)"
proof -
  have probe: "throws_only documented p" if "dp_readiness base = Some p" for p
    using assms that unfolding documented_collaborators_def by blast
  have some: "outcome documented public_answer (bindC h (\<lambda>r. ret (Some r)))" if "answers h" for h :: "('a cp, cp_error, Response) comp"
    by (rule outcome_pass [OF that]) (simp add: public_answer_def)
  have given: "outcome documented public_answer (ret v)" if "\<And>r. v = Some r \<Longrightarrow> fine r \<or> r = status_response ''not_ready'' 503" for v
    using that by (intro outcome_ret) (simp add: public_answer_def)
  have status: "fine (status_response x 200)" for x by (simp add: status_response_def)
  have ready: "outcome documented public_answer (case dp_readiness base of
      None \<Rightarrow> ret (Some (status_response ''ready'' 200))
    | Some p \<Rightarrow> bindC p (\<lambda>(ready, reason). if ready then ret (Some (status_response ''ready'' 200))
         else thenC (logC ''readyz.not_ready'' [(''reason'', reason)]) (ret (Some (status_response ''not_ready'' 503)))))"
    using status by (cases "dp_readiness base") (auto intro!: outcome_intros probe given)
  have files: "outcome documented public_answer (case serveStaticFile (production sha base) m p of Some r \<Rightarrow> ret (Some r) | None \<Rightarrow> k)"
    if "outcome documented public_answer k" for m p k
    using that static_fine by (auto intro!: given split: option.split)
  show ?thesis
    unfolding servePublic_def Let_def production_fields
    by (intro outcome_cases(1) ready outcome_bind documented_inputs files some auth_routes_answer callback_answers assms given)
       (auto simp: status)
qed

lemma match_segments_bad: "match_segments ps as params = Inl e \<Longrightarrow> \<exists>m. e = badRequest m"
  by (induction ps as params rule: match_segments.induct) (auto split: if_splits option.splits)

lemma match_routes_bad: "match_routes rs m segs = Inl e \<Longrightarrow> \<exists>m. e = badRequest m"
  by (induction rs m segs rule: match_routes.induct)
     (auto split: if_splits sum.splits option.splits dest: match_segments_bad)

text \<open>The one answer of an unexpected error.\<close>

definition internal_response :: "string \<Rightarrow> Response" where
  "internal_response i = json_response (JObj [(''error'', JObj [(''code'', JStr ''internal''),
     (''message'', JStr ''internal server error''), (''errorId'', JStr i)])]) 500"

definition documented_answer :: "env \<Rightarrow> Response \<Rightarrow> 'w cp \<Rightarrow> bool" where
  "documented_answer en r t \<longleftrightarrow> fine r \<or> r = status_response ''not_ready'' 503
     \<or> (\<exists>(st, code) \<in> set ERROR_CODES. \<exists>m. r = errorResponse st code m)
     \<or> (r = internal_response (en_errorId en) \<and> cp_log t \<noteq> []
        \<and> (\<exists>n m c. last (cp_log t) = (''http.unexpected_error'',
              [(''errorId'', en_errorId en), (''errorName'', n), (''errorMessage'', m)] @ c)))"

lemma toErrorResponse_documented:
  assumes "documented e"
  shows "case toErrorResponse en c e s of (r, t) \<Rightarrow> documented_answer en r t"
proof (cases e)
  case (ApiError st code m)
  with assms have "\<exists>(st, code) \<in> set ERROR_CODES. \<exists>m. errorResponse (api_status e) (api_code e) m' = errorResponse st code m" for m'
    by (intro bexI [of _ "(st, code)"]) auto
  with ApiError show ?thesis by (simp add: toErrorResponse_def documented_answer_def)
next
  case (RuntimeError k)
  then show ?thesis
    by (cases k) (auto simp: toErrorResponse_def documented_answer_def internal_response_def ERROR_CODES_def)
qed (auto simp: toErrorResponse_def documented_answer_def internal_response_def)

text \<open>C27: while the collaborators throw no typed API errors of their own, every request in every state,
  with statements of the database failing anywhere, is answered by a success (200, 201, 202, 302), the
  fixed not-ready answer, or an error object whose status and code are one of the seven documented
  pairs; every other failure is the same 500 answer that differs only in its error id, and the last
  line of the log carries this id.\<close>

theorem every_answer_documented:
  fixes s :: "'w cp"
  assumes "documented_collaborators base"
  shows "case createFetchHandler (production sha base) en rq s of (r, t) \<Rightarrow>
      documented_answer en r t \<and> (rs_status r = 500 \<longrightarrow> r = internal_response (en_errorId en))"
proof -
  let ?p = "production sha base"
  have shape: "documented_answer en r t \<Longrightarrow> rs_status r = 500 \<Longrightarrow> r = internal_response (en_errorId en)" for r t
    by (auto simp: documented_answer_def fine_def errorResponse_def status_response_def ERROR_CODES_def)
  note pub = public_answers [OF assms, of sha en rq] and au = authenticate_documented [of sha "en_now en" rq]
  have bad: "documented_answer en (fst (toErrorResponse en c e v)) (snd (toErrorResponse en c e v))" if "documented e" for c e v
    using toErrorResponse_documented [OF that, of en c v] by (simp add: case_prod_beta)
  have pass: "documented_answer en r t" if "fine r \<or> r = status_response ''not_ready'' 503" for r and t :: "'w cp"
    using that by (auto simp: documented_answer_def)
  have "documented_answer en (fst v) (snd v)" if v: "v = createFetchHandler ?p en rq s" for v
  proof (cases "servePublic ?p en rq s")
    case (Pair g a)
    note p = Pair
    show ?thesis
    proof (cases g)
      case (Inl e)
      with pub p have "documented e" by (blast intro: outcome_Inl)
      with bad p Inl show ?thesis unfolding v by (simp add: createFetchHandler_def)
    next
      case (Inr x)
      note x = Inr
      show ?thesis
      proof (cases x)
        case (Some r)
        with outcome_Inr [OF _ pub, of s x a] p x have "fine r \<or> r = status_response ''not_ready'' 503" by (simp add: public_answer_def)
        with p x Some show ?thesis unfolding v by (simp add: createFetchHandler_def pass)
      next
        case None
        obtain h b where h: "authenticateSession (DbSessionStore sha) (en_now en) rq a = (h, b)" by fastforce
        show ?thesis
        proof (cases h)
          case (Inl e)
          with au h have "documented e" by (blast intro: outcome_Inl)
          with p x None h Inl bad show ?thesis unfolding v by (simp add: createFetchHandler_def)
        next
          case (Inr u)
          note run = p x None h Inr
          show ?thesis
          proof (cases "match_routes routes (rq_method rq) (path_segments (rq_path rq))")
            case (Inl e)
            with match_routes_bad [OF Inl] have "documented e" by auto
            with run Inl bad show ?thesis unfolding v by (simp add: createFetchHandler_def)
          next
            case (Inr m)
            note m = Inr
            show ?thesis
            proof (cases m)
              case None
              have "documented (no_route rq)" by (simp add: no_route_def)
              with run m None bad show ?thesis unfolding v by (simp add: createFetchHandler_def)
            next
              case (Some rp)
              obtain r params where rp: "rp = (r, params)" by fastforce
              let ?ctx = "\<lparr>cx_request = rq, cx_params = params, cx_env = en, cx_user = u\<rparr>"
              obtain o' w where o: "run_route r ?p ?ctx b = (o', w)" by fastforce
              note ans = routes_answer [OF assms, of r sha ?ctx]
              show ?thesis
              proof (cases o')
                case (Inl e)
                with ans o have "documented e" by (blast intro: outcome_Inl)
                with run m Some rp o Inl bad show ?thesis unfolding v by (simp add: createFetchHandler_def)
              next
                case (Inr resp)
                with ans o have "fine resp" by (blast intro: outcome_Inr)
                with run m Some rp o Inr pass show ?thesis unfolding v by (simp add: createFetchHandler_def)
              qed
            qed
          qed
        qed
      qed
    qed
  qed
  then have "case createFetchHandler ?p en rq s of (r, t) \<Rightarrow> documented_answer en r t" by (auto simp: case_prod_beta)
  with shape show ?thesis by (auto simp: case_prod_beta)
qed

text \<open>Its witness: a message that the database cannot be asked about, since its first statement fails.\<close>

lemma sample_documented: "documented_collaborators sample_deps"
  by (auto simp: documented_collaborators_def sample_deps_def documented_handle_def sample_handle_def intro!: outcome_ret)

theorem every_answer_documented_witness:
  "case createFetchHandler (production id sample_deps) sample_env
       (sample_request ''GET'' ''/v1/workspaces'' [''cookie'' \<mapsto> ''__Host-dsh_session=t''] []) (sample_state (sample_db\<lparr>outages := [True]\<rparr>)) of
     (r, t) \<Rightarrow> documented_answer sample_env r t \<and> (rs_status r = 500 \<longrightarrow> r = internal_response (en_errorId sample_env))"
  by (rule every_answer_documented [OF sample_documented])

end
