(* ===== verification/Message_Props.thy ===== *)
theory Message_Props
  imports Server_Safety
begin

text \<open>
  What becomes of a posted message (\<open>postMessage\<close> of \<open>handlers.ts\<close>): it is recorded and then forwarded, once,
  or neither, and the answer tells which.
\<close>

section \<open>What is recorded and what is sent\<close>

text \<open>
  Of the state this is about the events of the sessions and the calls made. The runtime handles write
  no session event; the agent host may append to the log as soon as a message was forwarded to it.
\<close>

definition is_forward :: "call \<Rightarrow> bool" where
  "is_forward c \<longleftrightarrow> (case c of ForwardMessage _ _ _ _ _ _ \<Rightarrow> True | ForwardApproval _ _ _ _ _ _ \<Rightarrow> True
     | ForwardCancel _ _ _ _ \<Rightarrow> True | _ \<Rightarrow> False)"

definition same_logs :: "'w cp \<Rightarrow> 'w cp \<Rightarrow> bool" where
  "same_logs s t \<longleftrightarrow> session_events (cp_db t) = session_events (cp_db s) \<and> cp_trace t = cp_trace s"

definition log_grows :: "'w cp \<Rightarrow> 'w cp \<Rightarrow> bool" where
  "log_grows s t \<longleftrightarrow> cp_trace t = cp_trace s \<and> (\<forall>i. prefix (events_of i (cp_db s)) (events_of i (cp_db t)))"

definition nothing_sent :: "'w cp \<Rightarrow> 'w cp \<Rightarrow> bool" where
  "nothing_sent s t \<longleftrightarrow> session_events (cp_db t) = session_events (cp_db s)
     \<and> (\<exists>cs. cp_trace t = cp_trace s @ cs \<and> filter is_forward cs = [])"

definition log_discipline :: "'w deps \<Rightarrow> bool" where
  "log_discipline deps \<longleftrightarrow>
     (\<forall>k. keeps same_logs (dp_factory deps k) \<and> keeps same_logs (h_assertAgentInputAllowed (dp_handle deps k))
        \<and> (\<forall>a. keeps same_logs (h_recordActivity (dp_handle deps k) a)) \<and> keeps same_logs (h_getInstanceUrl (dp_handle deps k)))
     \<and> (\<forall>fw u w i n m who. dp_forwarder deps = Some fw \<longrightarrow> keeps log_grows (fw_forward fw u w i n m who))"

lemma nothing_sent_refl [simp]: "nothing_sent s s"
  by (simp add: nothing_sent_def)

lemma nothing_sent_trans: "nothing_sent s t \<Longrightarrow> nothing_sent t u \<Longrightarrow> nothing_sent s u"
  by (auto simp: nothing_sent_def)

lemma nothing_sent_rel [simp]: "reflp nothing_sent" "transp nothing_sent"
  by (auto simp: reflp_def transp_def intro: nothing_sent_trans)

lemma quiet_nothing_sent: "quiet s t \<Longrightarrow> nothing_sent s t"
  by (auto simp: nothing_sent_def quiet_tables(5)) (simp add: quiet_def)

lemma same_logs_nothing_sent: "same_logs s t \<Longrightarrow> nothing_sent s t"
  by (simp add: same_logs_def nothing_sent_def)

lemma keeps_mono: "keeps R m \<Longrightarrow> (\<And>s t. R s t \<Longrightarrow> Q s t) \<Longrightarrow> keeps Q m"
  by (simp add: keeps_def)

lemma calm_keeps: "calm m \<Longrightarrow> keeps nothing_sent m"
  by (rule keepsI) (metis calm_run prod.collapse quiet_nothing_sent)

lemma note_keeps: "\<not> is_forward c \<Longrightarrow> keeps nothing_sent (noteC c)"
  by (simp add: keeps_def noteC_def modifyC_def nothing_sent_def)

lemma call_keeps: "\<not> is_forward c \<Longrightarrow> keeps nothing_sent m \<Longrightarrow> keeps nothing_sent (callC c m)"
  by (simp add: callC_def keeps_then note_keeps)

lemma calm_requireController [simp]: "calm (requireController (production sha base) now w u)"
  unfolding requireController_def
  by (rule calm_bind) (use getActive_reads in \<open>fastforce simp: calm_def\<close>, auto intro!: calm_throw split: option.split)

lemma same_logs_rel [simp]: "reflp same_logs" "transp same_logs"
  by (auto simp: reflp_def transp_def same_logs_def)

lemma quiet_same_logs: "quiet s t \<Longrightarrow> same_logs s t"
  unfolding same_logs_def by (simp add: quiet_tables(5)) (simp add: quiet_def)

lemma calm_same_logs: "calm m \<Longrightarrow> m s = (r, t) \<Longrightarrow> same_logs s t"
  by (auto dest: calm_run intro: quiet_same_logs)

lemma discipline:
  assumes "log_discipline base"
  shows "keeps same_logs (dp_factory base k)" "keeps same_logs (h_assertAgentInputAllowed (dp_handle base k))"
    "keeps same_logs (h_recordActivity (dp_handle base k) a)" "keeps same_logs (h_getInstanceUrl (dp_handle base k))"
    "dp_forwarder base = Some fw \<Longrightarrow> keeps log_grows (fw_forward fw u w i n m who)"
  using assms unfolding log_discipline_def by blast+

lemma production_handles [simp]:
  "dp_factory (production sha base) = dp_factory base" "dp_handle (production sha base) = dp_handle base"
  "dp_forwarder (production sha base) = dp_forwarder base"
  by (simp_all add: production_def)

lemma keeps_option: "keeps R n \<Longrightarrow> (\<And>x. keeps R (g x)) \<Longrightarrow> keeps R (case v of None \<Rightarrow> n | Some x \<Rightarrow> g x)"
  by (simp split: option.split)

lemma runtimes_same_logs:
  assumes "log_discipline base"
  shows "keeps same_logs (runtimes_get (production sha base) w c)"
  unfolding runtimes_get_def production_handles
  by (intro keeps_bind keeps_get keeps_option keeps_then keeps_ret keeps_modify discipline [OF assms])
     (simp_all add: same_logs_def)

lemma call_run:
  assumes "callC c m s = (r, t)" "keeps same_logs m"
  shows "session_events (cp_db t) = session_events (cp_db s) \<and> cp_trace t = cp_trace s @ [c]"
proof -
  from assms(1) have "m (s\<lparr>cp_trace := cp_trace s @ [c]\<rparr>) = (r, t)"
    by (simp add: callC_def noteC_def run_simps)
  with assms(2) have "same_logs (s\<lparr>cp_trace := cp_trace s @ [c]\<rparr>) t" by (rule keeps_run)
  then show ?thesis by (simp add: same_logs_def)
qed

lemma agentInput_sends:
  assumes "log_discipline base" "agentInput (production sha base) ctx x a s = (r, t)"
  shows "nothing_sent s t"
proof -
  note seen = same_logs_nothing_sent
  have "keeps nothing_sent (agentInput (production sha base) ctx x a)"
    unfolding agentInput_def production_handles
    by (intro keeps_bind keeps_then calm_keeps call_keeps keeps_if keeps_ret keeps_throw
          keeps_mono [OF runtimes_same_logs [OF assms(1)] seen] keeps_mono [OF discipline(2) [OF assms(1)] seen]
          keeps_mono [OF discipline(3) [OF assms(1)] seen] keeps_mono [OF discipline(4) [OF assms(1)] seen])
       (simp_all add: is_forward_def)
  with assms(2) show ?thesis by (blast intro: keeps_run)
qed

lemma agentInput_asks:
  assumes "log_discipline base" "dp_forwarder base = Some fw"
    "agentInput (production sha base) ctx x a s = (Inr (w, url), t)"
  shows "w_id w = s_workspaceId x
    \<and> (\<exists>u k. url = Some u \<and> cp_trace t = cp_trace s @ [GateCall k, ActivityCall k a, UrlCall k])"
proof -
  from assms(3) obtain l s1 s2 k s3 s4 s5 s6 where
    one: "requireController (production sha base) (en_now (cx_env ctx)) (s_workspaceId x) (user_id (cx_user ctx)) s = (Inr l, s1)"
    and two: "loadWorkspace (s_workspaceId x) s1 = (Inr w, s2)"
    and three: "runtimes_get (production sha base) w None s2 = (Inr k, s3)"
    and four: "callC (GateCall k) (h_assertAgentInputAllowed (dp_handle base k)) s3 = (Inr (), s4)"
    and five: "callC (ActivityCall k a) (h_recordActivity (dp_handle base k) a) s4 = (Inr (), s5)"
    and six: "callC (UrlCall k) (h_getInstanceUrl (dp_handle base k)) s5 = (Inr url, s6)"
    and url: "url \<noteq> None" "t = s6"
    unfolding agentInput_def production_handles returns_simps
    by (elim exE conjE) (auto simp: assms(2) returns_simps split: if_splits, blast)
  from one two three have "cp_trace s3 = cp_trace s"
    using calm_same_logs [OF calm_requireController one] calm_same_logs [OF calm_loads(1) two]
      keeps_run [OF runtimes_same_logs [OF assms(1)] three] by (simp add: same_logs_def)
  with call_run [OF four discipline(2) [OF assms(1)]] call_run [OF five discipline(3) [OF assms(1)]]
    call_run [OF six discipline(4) [OF assms(1)]] url
  have "cp_trace t = cp_trace s @ [GateCall k, ActivityCall k a, UrlCall k]" by simp
  with loadWorkspace_returns [OF two] url(1) show ?thesis by blast
qed

text \<open>An append of one event records it at the end of its log or leaves the log alone.\<close>

lemma appendOne_records:
  assumes "contiguous (s_id x) (cp_db s)" "appendOne x en ty v s = (r, t)"
  shows "cp_trace t = cp_trace s \<and>
     ((\<exists>e. r = Inl e) \<and> session_events (cp_db t) = session_events (cp_db s) \<or>
      (\<exists>n. n = length (events_of (s_id x) (cp_db s)) \<and>
         r = Inr (persisted_event (s_id x) n \<lparr>eventType = ty, eventTime = en_now en, data = v, sourceEventSeqs = None, surfaceOp = None\<rparr>) \<and>
         events_of (s_id x) (cp_db t) = events_of (s_id x) (cp_db s) @
           [event_row (s_id x) n \<lparr>eventType = ty, eventTime = en_now en, data = v, sourceEventSeqs = None, surfaceOp = None\<rparr>]))"
proof -
  let ?e = "\<lparr>eventType = ty, eventTime = en_now en, data = v, sourceEventSeqs = None, surfaceOp = None\<rparr>"
  obtain q d where q: "append_events (s_id x) [?e] (cp_db s) = (q, d)" by fastforce
  show ?thesis
  proof (cases q)
    case (Inl e)
    with q have "\<exists>os. d = (cp_db s)\<lparr>outages := os\<rparr>" by (auto simp: append_events_def dest: transaction_throws)
    with assms(2) q Inl show ?thesis by (auto simp: appendOne_def dbq_def zoomC_def run_simps)
  next
    case (Inr ps)
    from append_returns [OF assms(1)] q Inr obtain os where ps: "ps = persisted_events (s_id x) (length (events_of (s_id x) (cp_db s))) [?e]"
      "d = (cp_db s)\<lparr>session_events := session_events (cp_db s) @ event_rows (s_id x) (length (events_of (s_id x) (cp_db s))) [?e], outages := os\<rparr>"
      by blast
    with events_appended [OF assms(1) refl, of "s_id x" "[?e]"]
    have "events_of (s_id x) d = events_of (s_id x) (cp_db s) @ event_rows (s_id x) (length (events_of (s_id x) (cp_db s))) [?e]"
      by simp
    with assms(2) q Inr ps(1) show ?thesis by (auto simp: appendOne_def dbq_def zoomC_def run_simps)
  qed
qed

section \<open>The outcome of a message\<close>

definition message_event :: "int \<Rightarrow> string \<Rightarrow> NewSessionEvent" where
  "message_event now content = \<lparr>eventType = ''user_message'', eventTime = now, data = JObj [(''content'', JStr content)],
     sourceEventSeqs = None, surfaceOp = None\<rparr>"

definition message_lost :: cp_error where
  "message_lost = badGateway (''message recorded but the workspace instance did not accept it '' @ em_dash
     @ '' the turn did not start'')"

lemma forwarding_answers:
  assumes "forwarding line failure (callC c m) s = (r, t)" "keeps log_grows m"
  shows "cp_trace t = cp_trace s @ [c] \<and> prefix (events_of i (cp_db s)) (events_of i (cp_db t))
     \<and> (r = Inr () \<or> (\<exists>msg. r = Inl (conflict msg)) \<or> r = Inl (badGateway failure))"
proof -
  obtain q v where q: "m (s\<lparr>cp_trace := cp_trace s @ [c]\<rparr>) = (q, v)" by fastforce
  with assms(2) have grows: "log_grows (s\<lparr>cp_trace := cp_trace s @ [c]\<rparr>) v" by (rule keeps_run)
  from q have run: "callC c m s = (q, v)" by (simp add: callC_def noteC_def run_simps)
  have kept: "cp_trace t = cp_trace v \<and> cp_db t = cp_db v \<and>
      (r = Inr () \<or> (\<exists>msg. r = Inl (conflict msg)) \<or> r = Inl (badGateway failure))"
    using assms(1) run
    by (cases q; (cases "projl q")?) (auto simp: forwarding_def run_simps logC_def split: forward_error.splits)
  with grows show ?thesis by (simp add: log_grows_def)
qed

text \<open>C28: a message is recorded if and only if it is forwarded, and exactly once, in this order. Either
  the answer is an error, no event was written and nothing was sent to the agent host; or the body's content was
  recorded as the next event of the session and then, after the runtime accepted agent input, the
  activity was reported and the URL was found, sent with its number and the caller's identity. Then the
  answer is 201 with the event, or the host's refusal as a conflict, or the 502 that says that the
  message is recorded and the turn did not start. Statements of the database may fail anywhere.\<close>

theorem message_recorded_then_forwarded:
  assumes "log_discipline base" "dp_forwarder base = Some fw" "cx_params ctx ''id'' = Some i" "contiguous i (cp_db s)"
    "run_route MessageR (production sha base) ctx s = (r, t)"
  shows "(\<exists>e. r = Inl e) \<and> nothing_sent s t \<or>
    (\<exists>body content n k u w. parseJsonBody (cx_request ctx) = Inr body \<and> requireString body ''content'' = Inr content
       \<and> n = length (events_of i (cp_db s))
       \<and> prefix (events_of i (cp_db s) @ [event_row i n (message_event (en_now (cx_env ctx)) content)]) (events_of i (cp_db t))
       \<and> cp_trace t = cp_trace s @ [GateCall k, ActivityCall k user_message, UrlCall k,
           ForwardMessage u w i n content (identity (cx_user ctx))]
       \<and> (r = Inr (json_response (toEventDto (persisted_event i n (message_event (en_now (cx_env ctx)) content))) 201)
          \<or> (\<exists>m. r = Inl (conflict m)) \<or> r = Inl message_lost))"
  using assms(5) unfolding run_route.simps postMessage_def production_handles
proof (cases rule: bind_cases)
  case (throws e)
  then show ?thesis by (simp add: run_simps)
next
  case (returns a s0)
  from requireSegment_returns [OF returns(1)] assms(3) have [simp]: "a = i" "s0 = s" by simp_all
  from returns(2) show ?thesis
  proof (cases rule: bind_cases)
    case (throws e)
    then show ?thesis by (simp add: run_simps)
  next
    case (returns body s0)
    then have body: "parseJsonBody (cx_request ctx) = Inr body" "s0 = s" by (simp_all add: run_simps)
    from returns(2) show ?thesis
    proof (cases rule: bind_cases)
      case (throws e)
      with body show ?thesis by (simp add: run_simps)
    next
      case (returns content s0')
      with body(2) have content: "requireString body ''content'' = Inr content" "s0' = s" by (simp_all add: run_simps)
      from returns(2) show ?thesis
      proof (cases rule: bind_cases)
        case (throws e)
        with content calm_same_logs [OF calm_loadSessionForMember throws(1)] show ?thesis by (simp add: same_logs_nothing_sent)
      next
        case (returns x s1)
        with content(2) have x: "s_id x = i" by (auto dest: loadSessionForMember_returns)
        from calm_same_logs [OF calm_loadSessionForMember returns(1)] content(2) have s1: "same_logs s s1" by simp
        from returns(2) show ?thesis
        proof (cases rule: bind_cases)
          case (throws e)
          with nothing_sent_trans [OF same_logs_nothing_sent [OF s1] agentInput_sends [OF assms(1) throws(1)]]
          show ?thesis by blast
        next
          case (returns wu s2)
          obtain w url where wu: "wu = (w, url)" by fastforce
          from agentInput_asks [OF assms(1,2)] returns(1) wu obtain u k where
            asked: "url = Some u" "cp_trace s2 = cp_trace s1 @ [GateCall k, ActivityCall k user_message, UrlCall k]" by blast
          note s2 = nothing_sent_trans [OF same_logs_nothing_sent [OF s1] agentInput_sends [OF assms(1) returns(1)]]
          from s2 have same: "events_of i (cp_db s2) = events_of i (cp_db s)" by (simp add: nothing_sent_def events_of_def)
          with assms(4) x have con: "contiguous (s_id x) (cp_db s2)" by (simp add: contiguous_def)
          from returns(2) show ?thesis unfolding wu prod.case
          proof (cases rule: bind_cases)
            case (throws e)
            with appendOne_records [OF con throws(1)] s2 show ?thesis by (auto simp: nothing_sent_def)
          next
            case (returns e s3)
            from appendOne_records [OF con returns(1)] have rec: "cp_trace s3 = cp_trace s2"
              "e = persisted_event i (length (events_of i (cp_db s))) (message_event (en_now (cx_env ctx)) content)"
              "events_of i (cp_db s3) = events_of i (cp_db s) @
                 [event_row i (length (events_of i (cp_db s))) (message_event (en_now (cx_env ctx)) content)]"
              by (auto simp: x same message_event_def)
            have trace: "cp_trace s3 = cp_trace s @ [GateCall k, ActivityCall k user_message, UrlCall k]"
              using rec(1) asked(2) s1 by (simp add: same_logs_def)
            have number: "seq e = length (events_of i (cp_db s))" by (simp add: rec(2) persisted_event_def)
            from returns(2) show ?thesis unfolding asked(1) assms(2) prod.case option.case
            proof (cases rule: then_cases)
              case (throws m)
              note f = forwarding_answers [OF throws(1) discipline(5) [OF assms(1,2)], of i]
              show ?thesis
                by (intro disjI2 exI [of _ body] exI [of _ content] exI [of _ "length (events_of i (cp_db s))"] exI [of _ k] exI [of _ u] exI [of _ "w_id w"]) (use f throws(2) trace rec(3) number body content x in \<open>simp add: message_lost_def\<close>)
            next
              case (returns a s4)
              note f = forwarding_answers [OF returns(1) discipline(5) [OF assms(1,2)], of i]
              from returns(2) have "r = Inr (json_response (toEventDto e) 201)" "t = s4" by (simp_all add: run_simps)
              then show ?thesis
                by (intro disjI2 exI [of _ body] exI [of _ content] exI [of _ "length (events_of i (cp_db s))"] exI [of _ k] exI [of _ u] exI [of _ "w_id w"]) (use f trace rec(2,3) number body content x in \<open>simp\<close>)
            qed
          qed
        qed
      qed
    qed
  qed
qed

text \<open>Its witness: the controller posts ``hi'' to a ready workspace.\<close>

definition sample_post :: RouteContext where
  "sample_post = \<lparr>cx_request = sample_request ''POST'' ''/v1/sessions/s/messages'' [''content-type'' \<mapsto> ''application/json'']
       (''{'' @ [CHR 0x22] @ ''content'' @ [CHR 0x22] @ '':'' @ [CHR 0x22] @ ''hi'' @ [CHR 0x22] @ ''}''),
     cx_params = [''id'' \<mapsto> ''s''], cx_env = sample_env\<lparr>en_now := 999\<rparr>,
     cx_user = \<lparr>user_id = ''github:7'', providerUserId = ''7'', user_login = ''octo''\<rparr>\<rparr>"

abbreviation sample_run :: "(cp_error + Response) \<times> unit cp" where
  "sample_run \<equiv> run_route MessageR (production id sample_deps) sample_post (sample_state sample_db)"

lemma sample_discipline: "log_discipline sample_deps"
  unfolding log_discipline_def sample_deps_def sample_handle_def
  by (auto simp: same_logs_def log_grows_def intro!: keeps_ret reflpI)

theorem message_recorded_then_forwarded_witness:
  "\<exists>body content n k u w. parseJsonBody (cx_request sample_post) = Inr body \<and> requireString body ''content'' = Inr content
     \<and> n = length (events_of ''s'' sample_db)
     \<and> prefix (events_of ''s'' sample_db @ [event_row ''s'' n (message_event 999 content)]) (events_of ''s'' (cp_db (snd sample_run)))
     \<and> cp_trace (snd sample_run) = [GateCall k, ActivityCall k user_message, UrlCall k,
          ForwardMessage u w ''s'' n content (''github:7'', ''octo'')]
     \<and> (fst sample_run = Inr (json_response (toEventDto (persisted_event ''s'' n (message_event 999 content))) 201)
        \<or> (\<exists>m. fst sample_run = Inl (conflict m)) \<or> fst sample_run = Inl message_lost)"
proof -
  have "\<not> (case fst sample_run of Inl _ \<Rightarrow> True | Inr _ \<Rightarrow> False)" by code_simp
  then have ok: "\<not> (\<exists>e. fst sample_run = Inl e)" by auto
  have fw: "\<exists>fw. dp_forwarder sample_deps = Some fw" by (simp add: sample_deps_def)
  then obtain fw where fw: "dp_forwarder sample_deps = Some fw" by blast
  have i: "cx_params sample_post ''id'' = Some ''s''" by (simp add: sample_post_def)
  have c: "contiguous ''s'' (cp_db (sample_state sample_db))" by (simp add: samples contiguous_def events_of_def)
  have base: "cp_db (sample_state sample_db) = sample_db" "cp_trace (sample_state sample_db) = []"
    "identity (cx_user sample_post) = (''github:7'', ''octo'')" "en_now (cx_env sample_post) = 999"
    by (simp_all add: sample_state_def sample_post_def identity_def)
  show ?thesis
    using message_recorded_then_forwarded [OF sample_discipline fw i c prod.collapse [symmetric]] ok
    unfolding base append_Nil by blast
qed

end
