(* ===== verification/Sse_Props.thy ===== *)
theory Sse_Props
  imports Sse
begin

text \<open>
  What a client of the event stream (\<open>sse.ts\<close>) receives: the events of the session from its cursor on,
  each once and in order, with comments in between, until the first read that fails or the abort.
\<close>

section \<open>Frames and comments\<close>

text \<open>A chunk whose first character is a colon is a comment; the others carry an event.\<close>

definition frames :: "sse \<Rightarrow> string list" where
  "frames q = filter (\<lambda>c. \<not> starts_with '':'' c) (sse_sent q)"

definition frame :: "EventRow \<Rightarrow> string" where
  "frame r = formatSseEvent (rowToEvent r)"

lemma frame_no_comment [simp]: "\<not> starts_with '':'' (formatSseEvent e)"
  by (simp add: formatSseEvent_def starts_with_def)

lemma comments [simp]: "starts_with '':'' ('': ping'' @ u)" "starts_with '':'' ('': stream open'' @ u)"
  by (simp_all add: starts_with_def)

lemma write_frames:
  "\<not> sse_closed q \<Longrightarrow> frames (sse_write (formatSseEvent e) q) = frames q @ [formatSseEvent e]"
  "frames (sse_write (CHR '':'' # u) q) = frames q"
  "sse_next (sse_write c q) = sse_next q" "sse_closed (sse_write c q) = sse_closed q"
  by (simp_all add: sse_write_def frames_def starts_with_def formatSseEvent_def)

lemma frames_fields [simp]:
  "frames (q\<lparr>sse_lastEmit := t\<rparr>) = frames q" "frames (q\<lparr>sse_next := n\<rparr>) = frames q" "frames (q\<lparr>sse_closed := b\<rparr>) = frames q"
  by (simp_all add: frames_def)

section \<open>One poll\<close>

definition readable :: "db \<Rightarrow> bool" where
  "readable d \<longleftrightarrow> (case outages d of True # _ \<Rightarrow> False | _ \<Rightarrow> True)"

lemma read_cases:
  "readable d \<Longrightarrow> \<exists>d'. readEvents i (Some n) d = (Inr (map rowToEvent (filter (\<lambda>e. n \<le> ev_seq e) (events_of i d))), d')"
  "\<not> readable d \<Longrightarrow> \<exists>e d'. readEvents i (Some n) d = (Inl e, d')"
  by (auto simp: readable_def readEvents_def select_def sql_def getC_def split: list.splits bool.splits)

text \<open>The log holds every number once, in order, so a read from a number is the rest of the log.\<close>

lemma rest_of_log: "map ev_seq es = [k..<k + length es] \<Longrightarrow> filter (\<lambda>e. n \<le> ev_seq e) es = drop (n - k) es"
proof (induction es arbitrary: k)
  case (Cons e es)
  have "[k..<k + length (e # es)] = k # [Suc k..<Suc k + length es]" by (simp add: upt_conv_Cons del: upt_Suc)
  with Cons.prems have e: "ev_seq e = k" "map ev_seq es = [Suc k..<Suc k + length es]"
    by (simp_all only: list.map list.inject)
  show ?case
  proof (cases "n \<le> k")
    case True
    then have "filter (\<lambda>e. n \<le> ev_seq e) es = es" using Cons.IH [OF e(2)] by simp
    with True e(1) show ?thesis by simp
  next
    case False
    then have "n - k = Suc (n - Suc k)" by simp
    with False e(1) Cons.IH [OF e(2)] show ?thesis by simp
  qed
qed simp

lemma contiguous_rest: "contiguous i d \<Longrightarrow> filter (\<lambda>e. n \<le> ev_seq e) (events_of i d) = drop n (events_of i d)"
  using rest_of_log [of "events_of i d" 0 n] by (simp add: contiguous_def)

lemma emit_open:
  "\<not> sse_closed q \<Longrightarrow> frames (sse_emit now es q) = frames q @ map formatSseEvent es \<and> \<not> sse_closed (sse_emit now es q)
     \<and> sse_next (sse_emit now es q) = (if es = [] then sse_next q else Suc (seq (last es)))"
  by (induction es arbitrary: q) (simp_all add: write_frames)

text \<open>
  \<open>up_to i c d q\<close>: the stream is open and has sent what the log of \<open>d\<close> holds from the cursor \<open>c\<close> on.
\<close>

definition up_to :: "string \<Rightarrow> nat \<Rightarrow> db \<Rightarrow> sse \<Rightarrow> bool" where
  "up_to i c d q \<longleftrightarrow> frames q = map frame (drop c (events_of i d)) \<and> sse_next q = max c (length (events_of i d))
     \<and> \<not> sse_closed q"

lemma poll_sends_rest:
  assumes "contiguous i d" "readable d" "\<not> sse_closed q"
    "frames q = map frame (drop c (take m (events_of i d)))" "sse_next q = max c m" "m \<le> length (events_of i d)"
  shows "up_to i c d (fst (sse_poll i now q d))"
proof -
  let ?L = "events_of i d" and ?n = "sse_next q"
  obtain d' where "readEvents i (Some ?n) d = (Inr (map rowToEvent (drop ?n ?L)), d')"
    using read_cases(1) [OF assms(2)] contiguous_rest [OF assms(1)] by metis
  then have poll: "fst (sse_poll i now q d) = sse_emit now (map rowToEvent (drop ?n ?L)) q" by (simp add: sse_poll_def)
  have split: "drop c (take m ?L) @ drop ?n ?L = drop c ?L"
    using append_take_drop_id [of "m - c" "drop c ?L"] unfolding assms(5)
    by (cases "m \<le> c") (simp_all add: drop_take max_def)
  have last: "seq (last (map rowToEvent (drop ?n ?L))) = length ?L - 1" if "drop ?n ?L \<noteq> []"
  proof -
    from that have "?L \<noteq> []" by auto
    then have "map ev_seq ?L ! (length ?L - 1) = length ?L - 1" using assms(1) by (simp add: contiguous_def)
    with \<open>?L \<noteq> []\<close> have "ev_seq (last ?L) = length ?L - 1" by (simp add: last_conv_nth)
    with that show ?thesis by (simp add: last_map rowToEvent_def)
  qed
  note emit = emit_open [OF assms(3), of now "map rowToEvent (drop ?n ?L)"]
  have "map frame (drop c ?L) = frames q @ map formatSseEvent (map rowToEvent (drop ?n ?L))"
    by (simp add: split [symmetric] assms(4) frame_def)
  with emit have "frames (fst (sse_poll i now q d)) = map frame (drop c ?L)" "\<not> sse_closed (fst (sse_poll i now q d))"
    unfolding poll by simp_all
  moreover have "sse_next (fst (sse_poll i now q d)) = max c (length ?L)"
  proof (cases "drop ?n ?L = []")
    case True
    then have "length ?L \<le> max c m" using assms(5) by simp
    with True emit assms(5,6) show ?thesis unfolding poll by simp
  next
    case False
    then have "max c m < length ?L" using assms(5) by (simp add: not_le)
    with False emit last [OF False] show ?thesis unfolding poll by simp
  qed
  ultimately show ?thesis by (simp add: up_to_def)
qed

section \<open>The whole stream\<close>

text \<open>The databases a run reads from before the client aborts or a read fails.\<close>

fun served :: "sse_event list \<Rightarrow> db list" where
  "served [] = []"
| "served (Abort # es) = []"
| "served (Tick now d # es) = (if readable d then d # served es else [])"

lemma closed_stays: "sse_closed q \<Longrightarrow> sse_run i hb es q = q"
  by (induction i hb es q rule: sse_run.induct) (simp_all add: sse_tick_def)

lemma closed_poll: "\<not> readable d \<Longrightarrow> fst (sse_poll i now q d) = q\<lparr>sse_closed := True\<rparr>"
  using read_cases(2) [of d i "sse_next q"] by (auto simp: sse_poll_def)

lemma tick_up_to:
  assumes "up_to i c d0 q" "contiguous i d" "readable d" "prefix (events_of i d0) (events_of i d)"
  shows "up_to i c d (fst (sse_tick i hb now q d))"
proof -
  let ?p = "if now - sse_lastEmit q \<ge> hb then (sse_write ('': ping'' @ [newline, newline]) q)\<lparr>sse_lastEmit := now\<rparr> else q"
  from assms(4) have "take (length (events_of i d0)) (events_of i d) = events_of i d0" "length (events_of i d0) \<le> length (events_of i d)"
    by (auto simp: prefix_def)
  with assms(1) have "up_to i c d (fst (sse_poll i now ?p d))"
    by (intro poll_sends_rest [OF assms(2,3), of _ c "length (events_of i d0)"]) (simp_all add: up_to_def write_frames)
  with assms(1) show ?thesis by (simp add: sse_tick_def up_to_def)
qed

lemma run_up_to:
  assumes "up_to i c d0 q" "\<forall>d \<in> set (served es). contiguous i d"
    "successively (\<lambda>d d'. prefix (events_of i d) (events_of i d')) (d0 # served es)"
  shows "frames (sse_run i hb es q) = map frame (drop c (events_of i (last (d0 # served es))))
    \<and> sse_closed (sse_run i hb es q) = (length (served es) < length es)"
  using assms
proof (induction es arbitrary: q d0)
  case Nil
  then show ?case by (simp add: up_to_def)
next
  case (Cons e es)
  show ?case
  proof (cases e)
    case Abort
    with Cons.prems show ?thesis by (simp add: closed_stays up_to_def)
  next
    case (Tick now d)
    show ?thesis
    proof (cases "readable d")
      case True
      with Cons.prems Tick have "up_to i c d (fst (sse_tick i hb now q d))" by (intro tick_up_to [of _ _ d0]) simp_all
      with Cons.IH [of d] Cons.prems True Tick show ?thesis by (simp add: successively_Cons)
    next
      case False
      with Cons.prems Tick have "fst (sse_tick i hb now q d) = (let p = (if now - sse_lastEmit q \<ge> hb
          then (sse_write ('': ping'' @ [newline, newline]) q)\<lparr>sse_lastEmit := now\<rparr> else q) in p\<lparr>sse_closed := True\<rparr>)"
        by (simp add: sse_tick_def up_to_def closed_poll)
      with Cons.prems Tick False show ?thesis by (simp add: closed_stays up_to_def write_frames Let_def)
    qed
  qed
qed

text \<open>The stream of a session delivers, in order and each once, exactly the events numbered from the
  cursor on that the log held at the last poll that answered, whatever is appended between the polls and
  however pings fall; it ends exactly when the client aborts or a read fails, and then a client that
  reconnects with the next number misses nothing.\<close>

theorem stream_delivers_log:
  assumes "readable d0" "\<forall>d \<in> set (d0 # served es). contiguous i d"
    "successively (\<lambda>d d'. prefix (events_of i d) (events_of i d')) (d0 # served es)"
  shows "frames (sse_run i hb es (fst (sse_start i cursor now d0)))
      = map (formatSseEvent \<circ> rowToEvent) (drop cursor (events_of i (last (d0 # served es))))
    \<and> sse_closed (sse_run i hb es (fst (sse_start i cursor now d0))) = (length (served es) < length es)"
proof -
  let ?q = "\<lparr>sse_next = cursor, sse_lastEmit = now, sse_sent = [], sse_closed = False\<rparr>"
  have "up_to i cursor d0 (fst (sse_poll i now ?q d0))"
    using assms(1,2) by (intro poll_sends_rest [of _ _ _ _ 0]) (simp_all add: frames_def)
  then have "up_to i cursor d0 (fst (sse_start i cursor now d0))"
    by (simp add: sse_start_def up_to_def write_frames case_prod_beta)
  from run_up_to [OF this] assms(2,3) show ?thesis by (simp add: frame_def comp_def)
qed

text \<open>Its witness: an event arrives between two polls, then the database fails.\<close>

definition sample_log :: "string list \<Rightarrow> bool list \<Rightarrow> db" where
  "sample_log ms os = (empty_db 0 os)\<lparr>session_events := map (\<lambda>(n, m). \<lparr>ev_session = ''s'', ev_seq = n,
     ev_type = ''user_message'', ev_time = 0, ev_data = JStr m, ev_sources = None, ev_surface = None\<rparr>) (enumerate 0 ms)\<rparr>"

theorem stream_delivers_log_witness:
  "frames (sse_run ''s'' 15000 [Tick 20000 (sample_log [''a'', ''b''] []), Tick 20500 (sample_log [''a'', ''b'', ''c''] [True])]
      (fst (sse_start ''s'' 1 0 (sample_log [''a''] []))))
     = map (formatSseEvent \<circ> rowToEvent) (drop 1 (events_of ''s'' (last [sample_log [''a''] [], sample_log [''a'', ''b''] []])))
   \<and> sse_closed (sse_run ''s'' 15000 [Tick 20000 (sample_log [''a'', ''b''] []), Tick 20500 (sample_log [''a'', ''b'', ''c''] [True])]
      (fst (sse_start ''s'' 1 0 (sample_log [''a''] []))))"
  using stream_delivers_log [of "sample_log [''a''] []" "[Tick 20000 (sample_log [''a'', ''b''] []), Tick 20500 (sample_log [''a'', ''b'', ''c''] [True])]"
      "''s''" 15000 1 0]
  by (simp add: sample_log_def empty_db_def readable_def contiguous_def events_of_def enumerate_simps)

end
