(* ===== verification/Connection.thy ===== *)
theory Connection
  imports Encoding
begin

text \<open>
  The database connections (\<open>packages/session-persistence-postgres/src/connection.ts\<close>): the pool budget read from
  the environment, the reading of a connection string, in which a Cloud SQL socket is a form of its own, the
  errors that must not hold the password, and the isolation of the environment while a client is made. An
  environment is a map of names; the URL parser and the constructor of clients are parameters.
\<close>

section \<open>The pool\<close>

text \<open>\<open>Number.parseInt(s, 10)\<close>: white space, a sign, digits; \<open>None\<close> is NaN. The value is exact here.\<close>

definition parse_int10 :: "string \<Rightarrow> int option" where
  "parse_int10 s =
     (let t = trim_start s; neg = starts_with ''-'' t;
          u = (if neg \<or> starts_with ''+'' t then tl t else t); ds = takeWhile is_digit u in
      if ds = [] then None else Some (if neg then - int (digits_nat ds) else int (digits_nat ds)))"

type_synonym environment = "string \<rightharpoonup> string"

record BunSqlPoolOptions =
  pool_max :: int
  idleTimeout :: int
  connectionTimeout :: int

definition DEFAULT_DB_POOL_MAX :: int where
  "DEFAULT_DB_POOL_MAX = 5"

definition DEFAULT_DB_POOL_IDLE_TIMEOUT :: int where
  "DEFAULT_DB_POOL_IDLE_TIMEOUT = 30"

definition readPoolInt :: "string option \<Rightarrow> string \<Rightarrow> int \<Rightarrow> int \<Rightarrow> string + int" where
  "readPoolInt raw name fallback least =
     (let trimmed = map_option trim raw in
      if trimmed = None \<or> trimmed = Some [] then Inr fallback
      else
        (let refused = Inl (''invalid '' @ name @ '': '' @ show_string (the raw) @ '' (want an integer >= '' @ show_int least @ '')'') in
         case parse_int10 (the trimmed) of
           None \<Rightarrow> refused
         | Some n \<Rightarrow> if n < least then refused else Inr n))"

definition resolveBunSqlPoolOptions :: "environment \<Rightarrow> string + BunSqlPoolOptions" where
  "resolveBunSqlPoolOptions e =
     (case readPoolInt (e ''DB_POOL_MAX'') ''DB_POOL_MAX'' DEFAULT_DB_POOL_MAX 1 of
        Inl m \<Rightarrow> Inl m
      | Inr a \<Rightarrow> (case readPoolInt (e ''DB_POOL_IDLE_TIMEOUT'') ''DB_POOL_IDLE_TIMEOUT'' DEFAULT_DB_POOL_IDLE_TIMEOUT 0 of
            Inl m \<Rightarrow> Inl m
          | Inr b \<Rightarrow> (case readPoolInt (e ''DB_POOL_CONNECTION_TIMEOUT'') ''DB_POOL_CONNECTION_TIMEOUT'' 30 0 of
                Inl m \<Rightarrow> Inl m
              | Inr c \<Rightarrow> Inr \<lparr>pool_max = a, idleTimeout = b, connectionTimeout = c\<rparr>)))"

section \<open>Connection strings\<close>

record socket_fields =
  username :: string
  password :: string
  database :: string

datatype BunSqlConnectionTarget = TcpTarget string | SocketTarget string socket_fields

definition SOCKET_DSN_EXAMPLE :: string where
  "SOCKET_DSN_EXAMPLE = ''postgresql://<user>:<password>@/<database>?host=/cloudsql/<project>:<region>:<instance>''"

definition safeDecode :: "string \<Rightarrow> string \<Rightarrow> string + string" where
  "safeDecode component what =
     (case decodeURIComponent component of
        None \<Rightarrow> Inl (''invalid DATABASE_URL: '' @ what @ '' is not valid percent-encoding'')
      | Some s \<Rightarrow> Inr s)"

text \<open>The text up to the first \<open>c\<close>, and what follows it.\<close>

definition cut_first :: "char \<Rightarrow> string \<Rightarrow> string \<times> string option" where
  "cut_first c s = (takeWhile (\<lambda>x. x \<noteq> c) s,
     case dropWhile (\<lambda>x. x \<noteq> c) s of [] \<Rightarrow> None | _ # t \<Rightarrow> Some t)"

text \<open>The last occurrence of a pattern: what is before it, and from it on.\<close>

fun cut_last :: "string \<Rightarrow> string \<Rightarrow> (string \<times> string) option" where
  "cut_last p [] = None"
| "cut_last p (c # s) =
     (case cut_last p s of
        Some (a, b) \<Rightarrow> Some (c # a, b)
      | None \<Rightarrow> if starts_with p (c # s) then Some ([], c # s) else None)"

fun query_pairs :: "string list \<Rightarrow> (string \<times> string) list \<Rightarrow> string + (string \<times> string) list" where
  "query_pairs [] out = Inr out"
| "query_pairs (pair # pairs) out =
     (if pair = [] then query_pairs pairs out
      else
        (case cut_first (CHR ''='') pair of (rawKey, rest) \<Rightarrow>
           (case safeDecode rawKey ''query parameter name'' of
              Inl m \<Rightarrow> Inl m
            | Inr key \<Rightarrow>
                if map_of out key \<noteq> None then query_pairs pairs out
                else (case safeDecode (case rest of None \<Rightarrow> [] | Some v \<Rightarrow> v) (''query parameter '' @ show_string key) of
                    Inl m \<Rightarrow> Inl m
                  | Inr v \<Rightarrow> query_pairs pairs (out @ [(key, v)])))))"

definition parseQueryPairs :: "string \<Rightarrow> string + (string \<times> string) list" where
  "parseQueryPairs query = query_pairs (split_at (CHR ''&'') query) []"

definition first_of :: "(string \<times> string) list \<Rightarrow> string list \<Rightarrow> string" where
  "first_of params keys = (case List.map_filter (map_of params) keys of [] \<Rightarrow> [] | v # _ \<Rightarrow> v)"

definition complete :: "socket_fields \<Rightarrow> bool" where
  "complete f \<longleftrightarrow> username f \<noteq> [] \<and> database f \<noteq> []"

text \<open>One reading of a connection string; an incomplete one is kept, for the error message.\<close>

definition socketFields :: "string \<Rightarrow> string \<Rightarrow> (string \<times> string) list \<Rightarrow> string + socket_fields" where
  "socketFields userinfo pathPart params =
     (case cut_first (CHR '':'') userinfo of (rawUser, rawPassword) \<Rightarrow>
        (case safeDecode rawUser ''username'' of
           Inl m \<Rightarrow> Inl m
         | Inr u \<Rightarrow> (case safeDecode (case rawPassword of None \<Rightarrow> [] | Some p \<Rightarrow> p) ''password'' of
               Inl m \<Rightarrow> Inl m
             | Inr p \<Rightarrow>
                 (let segments = filter (\<lambda>s. s \<noteq> []) (split_at slash pathPart) in
                  case (case segments of [] \<Rightarrow> Inr [] | s # _ \<Rightarrow> safeDecode s ''database name'') of
                    Inl m \<Rightarrow> Inl m
                  | Inr d \<Rightarrow>
                      Inr \<lparr>username = (if u = [] then first_of params [''user'', ''username''] else u),
                        password = (if p = [] then first_of params [''password''] else p),
                        database = (if d = [] then first_of params [''dbname'', ''database''] else d)\<rparr>))))"

definition readings :: "string \<Rightarrow> (string \<times> string) list" where
  "readings beforeQuery =
     (case cut_last ''@/'' beforeQuery of
        Some (userinfo, rest) \<Rightarrow> [(userinfo, tl rest)]
      | None \<Rightarrow>
          (let authority = takeWhile (\<lambda>c. c \<noteq> slash) beforeQuery;
               pathPart = dropWhile (\<lambda>c. c \<noteq> slash) beforeQuery in
           case cut_last ''@'' authority of
             Some (userinfo, _) \<Rightarrow> [(userinfo, pathPart)]
           | None \<Rightarrow>
               [([], pathPart)]
               @ (case cut_last ''@'' pathPart of
                    None \<Rightarrow> []
                  | Some (a, b) \<Rightarrow>
                      if CHR '':'' \<in> set (authority @ a)
                      then [(authority @ a, dropWhile (\<lambda>c. c \<noteq> slash) (tl b))] else [])))"

fun first_complete :: "(string \<times> string) list \<Rightarrow> (string \<times> string) list \<Rightarrow> string + socket_fields option" where
  "first_complete params [] = Inr None"
| "first_complete params ((u, p) # cs) =
     (case socketFields u p params of
        Inl m \<Rightarrow> Inl m
      | Inr f \<Rightarrow> if complete f then Inr (Some f) else first_complete params cs)"

definition scheme_length :: "string \<Rightarrow> nat option" where
  "scheme_length s =
     (if starts_with ''postgres://'' (lower s) then Some 11
      else if starts_with ''postgresql://'' (lower s) then Some 13 else None)"

text \<open>The text before \<open>://\<close>.\<close>

fun before_mark :: "string \<Rightarrow> string option" where
  "before_mark [] = None"
| "before_mark (c # s) = (if starts_with ''://'' (c # s) then Some [] else map_option ((#) c) (before_mark s))"

definition resolveBunSqlTarget :: "string \<Rightarrow> string + BunSqlConnectionTarget" where
  "resolveBunSqlTarget databaseUrl =
     (let raw = trim databaseUrl in
      if raw = []
      then Inl (''invalid DATABASE_URL: must be a non-empty connection string ('' @ SOCKET_DSN_EXAMPLE @ '' for Cloud SQL sockets)'')
      else (case scheme_length raw of
          None \<Rightarrow> Inl (''invalid DATABASE_URL: ''
            @ (case before_mark raw of None \<Rightarrow> ''missing scheme'' | Some a \<Rightarrow> ''unsupported scheme '' @ show_string a)
            @ '' (want postgresql:// or postgres://)'')
        | Some n \<Rightarrow>
            (case cut_first (CHR ''?'') (takeWhile (\<lambda>c. c \<noteq> CHR ''#'') (drop n raw)) of (beforeQuery, query) \<Rightarrow>
               (case parseQueryPairs (case query of None \<Rightarrow> [] | Some q \<Rightarrow> q) of
                  Inl m \<Rightarrow> Inl m
                | Inr params \<Rightarrow>
                    (let socketPath = first_of params [''host'', ''socket'']; cs = readings beforeQuery in
                     if \<not> starts_with ''/'' socketPath then Inr (TcpTarget databaseUrl)
                     else (case first_complete params cs of
                         Inl m \<Rightarrow> Inl m
                       | Inr (Some f) \<Rightarrow> Inr (SocketTarget socketPath f)
                       | Inr None \<Rightarrow>
                           (case socketFields (fst (hd cs)) (snd (hd cs)) params of
                              Inl m \<Rightarrow> Inl m
                            | Inr f \<Rightarrow>
                                Inl (''invalid DATABASE_URL: Cloud SQL socket form requires a ''
                                  @ (if username f = [] then ''username ('' else ''database name ('') @ SOCKET_DSN_EXAMPLE @ '')'')))))))) "

section \<open>Errors\<close>

text \<open>\<open>urlParts\<close>: protocol, user, host and path of \<open>new URL(s)\<close>, \<open>None\<close> when it throws.\<close>

definition describeConnectionTarget :: "(string \<Rightarrow> (string \<times> string \<times> string \<times> string) option) \<Rightarrow> BunSqlConnectionTarget \<Rightarrow> string" where
  "describeConnectionTarget urlParts target =
     (case target of
        SocketTarget sock f \<Rightarrow> ''postgresql://'' @ username f @ '':[REDACTED]@/'' @ database f @ ''?host='' @ sock
      | TcpTarget s \<Rightarrow> (case urlParts s of
            None \<Rightarrow> ''the configured database URL''
          | Some (protocol, user, host, pathname) \<Rightarrow>
              protocol @ ''//'' @ (if user = [] then [] else user @ '':[REDACTED]@'') @ host @ pathname))"

definition safeErrorCode :: "string option \<Rightarrow> string option" where
  "safeErrorCode code = (case code of None \<Rightarrow> None | Some c \<Rightarrow> if c \<noteq> [] \<and> js_length c \<le> 64 then Some c else None)"

text \<open>The message; the code of the failure is all that is kept of it.\<close>

definition toBunSqlConnectionError ::
  "(string \<Rightarrow> (string \<times> string \<times> string \<times> string) option) \<Rightarrow> string option \<Rightarrow> BunSqlConnectionTarget \<Rightarrow> string" where
  "toBunSqlConnectionError urlParts code target =
     ''failed to initialize the database client for '' @ describeConnectionTarget urlParts target
     @ (case safeErrorCode code of None \<Rightarrow> [] | Some c \<Rightarrow> '' ('' @ c @ '')'') @ ''.''
     @ (case target of
          SocketTarget sock _ \<Rightarrow> '' check that the Cloud SQL socket exists at '' @ sock @ '' (cloudSqlInstance volume mounted?)''
        | TcpTarget _ \<Rightarrow> '' check that the database host is reachable and the URL is valid'')"

section \<open>The environment of a new client\<close>

definition BUN_SQL_ENV_URL_KEYS :: "string list" where
  "BUN_SQL_ENV_URL_KEYS = [''DATABASE_URL'', ''DATABASEURL'', ''TLS_DATABASE_URL'', ''POSTGRES_URL'', ''PGURL'', ''PG_URL'',
     ''TLS_POSTGRES_DATABASE_URL'', ''MYSQL_URL'', ''MYSQLURL'', ''TLS_MYSQL_DATABASE_URL'', ''MARIADB_URL'', ''MARIADBURL'',
     ''TLS_MARIADB_DATABASE_URL'', ''SQLITE_URL'', ''SQLITEURL'']"

fun hide_keys :: "string list \<Rightarrow> environment \<Rightarrow> (string \<times> string option) list \<times> environment" where
  "hide_keys [] e = ([], e)"
| "hide_keys (k # ks) e = (case hide_keys ks (e(k := None)) of (saved, e') \<Rightarrow> ((k, e k) # saved, e'))"

fun restore_keys :: "(string \<times> string option) list \<Rightarrow> environment \<Rightarrow> environment" where
  "restore_keys [] e = e"
| "restore_keys ((k, v) # saved) e = restore_keys saved (e(k := v))"

text \<open>\<open>fn\<close> returns or throws, and may change the environment.\<close>

definition withIsolatedBunSqlEnv :: "(environment, 'e, 'a) comp \<Rightarrow> (environment, 'e, 'a) comp" where
  "withIsolatedBunSqlEnv fn =
     (\<lambda>e. case hide_keys BUN_SQL_ENV_URL_KEYS e of (saved, e0) \<Rightarrow>
        (case fn e0 of (r, e1) \<Rightarrow> (r, restore_keys saved e1)))"

text \<open>All three knobs are set, as \<open>resolveBunSqlPoolOptions\<close> gives them, or none.\<close>

definition createBunSqlClient ::
  "(BunSqlConnectionTarget \<Rightarrow> BunSqlPoolOptions option \<Rightarrow> (environment, 'e, 'a) comp)
   \<Rightarrow> BunSqlConnectionTarget \<Rightarrow> BunSqlPoolOptions option \<Rightarrow> (environment, 'e, 'a) comp" where
  "createBunSqlClient ctor target pool = withIsolatedBunSqlEnv (ctor target pool)"

end
