(* ===== verification/Instance_Client.thy ===== *)
theory Instance_Client
  imports Encoding
begin

text \<open>
  The client of the Cloud Run Instances API (\<open>packages/cloud-run-instance-client/src/index.ts\<close>). The
  transport is a parameter on a state \<open>'n\<close>; it throws a message or answers a status and perhaps a body.
  \<open>urlProtocol\<close> stands for the URL parser: the protocol of \<open>new URL(s)\<close>, \<open>None\<close> when it throws.
\<close>

section \<open>Configuration\<close>

datatype RestartPolicy = OnFailure | Never | Always

datatype InstanceLaunchStage = ALPHA | BETA | GA

datatype InstanceProfileName = Small | Standard | Large

record InstanceConfig =
  ic_cpu :: nat
  ic_memory :: string
  ic_restartPolicy :: RestartPolicy
  ic_sandboxLauncher :: bool
  ic_port :: int
  ic_launchStage :: "InstanceLaunchStage option"

datatype instance_error =
    InvalidBasePathError string
  | InvalidRestartPolicyError
  | ProfileNotAvailableError InstanceProfileName
  | InstanceNotFoundError string
  | InstanceAlreadyExistsError string
  | PermissionDeniedError string
  | MissingCloudSqlConnectionNameError
  | InstanceClientError string nat
  | TransportError string

definition DEFAULT_INSTANCES_API_BASE_URL :: string where
  "DEFAULT_INSTANCES_API_BASE_URL = ''https://run.googleapis.com/v2''"

definition strip_slashes :: "string \<Rightarrow> string" where
  "strip_slashes s = rev (dropWhile (\<lambda>c. c = slash) (rev s))"

definition buildInstancesBasePath :: "string \<Rightarrow> string \<Rightarrow> string \<Rightarrow> string" where
  "buildInstancesBasePath apiBaseUrl projectId region =
     strip_slashes apiBaseUrl @ ''/projects/'' @ projectId @ ''/locations/'' @ region"

definition assertAbsoluteBasePath :: "(string \<Rightarrow> string option) \<Rightarrow> string \<Rightarrow> instance_error + unit" where
  "assertAbsoluteBasePath urlProtocol p =
     (case urlProtocol p of
        None \<Rightarrow> Inl (InvalidBasePathError p)
      | Some protocol \<Rightarrow> if protocol \<noteq> ''https:'' \<and> protocol \<noteq> ''http:'' then Inl (InvalidBasePathError p) else Inr ())"

fun toApiRestartPolicy :: "RestartPolicy \<Rightarrow> string" where
  "toApiRestartPolicy OnFailure = ''ON_FAILURE''"
| "toApiRestartPolicy Never = ''NEVER''"
| "toApiRestartPolicy Always = ''ALWAYS''"

fun stage_text :: "InstanceLaunchStage \<Rightarrow> string" where
  "stage_text ALPHA = ''ALPHA''"
| "stage_text BETA = ''BETA''"
| "stage_text GA = ''GA''"

definition DEFAULT_INSTANCE_LAUNCH_STAGE :: InstanceLaunchStage where
  "DEFAULT_INSTANCE_LAUNCH_STAGE = BETA"

fun LAUNCH_STAGE_RANK :: "InstanceLaunchStage \<Rightarrow> nat" where
  "LAUNCH_STAGE_RANK ALPHA = 1"
| "LAUNCH_STAGE_RANK BETA = 2"
| "LAUNCH_STAGE_RANK GA = 3"

definition meetsSandboxLaunchStageRequirement :: "InstanceLaunchStage \<Rightarrow> bool" where
  "meetsSandboxLaunchStageRequirement stage \<longleftrightarrow> LAUNCH_STAGE_RANK BETA \<le> LAUNCH_STAGE_RANK stage"

definition DEFAULT_INSTANCE_CONFIG :: InstanceConfig where
  "DEFAULT_INSTANCE_CONFIG = \<lparr>ic_cpu = 4, ic_memory = ''8Gi'', ic_restartPolicy = OnFailure, ic_sandboxLauncher = True,
     ic_port = 8080, ic_launchStage = Some DEFAULT_INSTANCE_LAUNCH_STAGE\<rparr>"

fun INSTANCE_PROFILES :: "InstanceProfileName \<Rightarrow> InstanceConfig" where
  "INSTANCE_PROFILES Small = DEFAULT_INSTANCE_CONFIG\<lparr>ic_cpu := 2, ic_memory := ''4Gi''\<rparr>"
| "INSTANCE_PROFILES Standard = DEFAULT_INSTANCE_CONFIG"
| "INSTANCE_PROFILES Large = DEFAULT_INSTANCE_CONFIG\<lparr>ic_cpu := 8, ic_memory := ''16Gi''\<rparr>"

definition AVAILABLE_PROFILES :: "InstanceProfileName list" where
  "AVAILABLE_PROFILES = [Standard]"

definition configForProfile :: "InstanceProfileName \<Rightarrow> instance_error + InstanceConfig" where
  "configForProfile p =
     (if p \<notin> set AVAILABLE_PROFILES then Inl (ProfileNotAvailableError p) else Inr (INSTANCE_PROFILES p))"

definition CLOUD_SQL_VOLUME_NAME :: string where
  "CLOUD_SQL_VOLUME_NAME = ''cloudsql''"

definition CLOUD_SQL_MOUNT_PATH :: string where
  "CLOUD_SQL_MOUNT_PATH = ''/cloudsql''"

section \<open>The client\<close>

record InstanceRequest =
  hq_method :: string
  hq_url :: string
  hq_body :: "json option"

record InstanceResponse =
  hp_status :: nat
  hp_body :: "json option"

type_synonym 'n transport = "InstanceRequest \<Rightarrow> ('n, string, InstanceResponse) comp"

record 'n CloudRunInstanceClient =
  ci_transport :: "'n transport"
  ci_basePath :: string
  ci_config :: InstanceConfig
  ci_image :: "string option"
  ci_serviceAccount :: "string option"
  ci_cloudSqlConnectionName :: "string option"
  ci_env :: "(string \<times> string) list"

text \<open>The options of the constructor: a profile goes before an explicit configuration.\<close>

record 'n CloudRunInstanceClientOptions =
  co_transport :: "'n transport"
  co_basePath :: string
  co_config :: "InstanceConfig option"
  co_profile :: "InstanceProfileName option"
  co_image :: "string option"
  co_serviceAccount :: "string option"
  co_cloudSqlConnectionName :: "string option"
  co_env :: "(string \<times> string) list"

definition nonempty :: "string option \<Rightarrow> string option" where
  "nonempty s = (if s = Some [] then None else s)"

definition resolved_config :: "'n CloudRunInstanceClientOptions \<Rightarrow> instance_error + InstanceConfig" where
  "resolved_config opts =
     (case co_profile opts of
        Some p \<Rightarrow> configForProfile p
      | None \<Rightarrow> Inr (case co_config opts of Some c \<Rightarrow> c | None \<Rightarrow> DEFAULT_INSTANCE_CONFIG))"

definition newCloudRunInstanceClient ::
  "(string \<Rightarrow> string option) \<Rightarrow> 'n CloudRunInstanceClientOptions \<Rightarrow> instance_error + 'n CloudRunInstanceClient" where
  "newCloudRunInstanceClient urlProtocol opts =
     (case assertAbsoluteBasePath urlProtocol (co_basePath opts) of
        Inl e \<Rightarrow> Inl e
      | Inr _ \<Rightarrow> (case resolved_config opts of
            Inl e \<Rightarrow> Inl e
          | Inr c \<Rightarrow>
              if ic_restartPolicy c = Always then Inl InvalidRestartPolicyError
              else
                (let stage = (case ic_launchStage c of None \<Rightarrow> DEFAULT_INSTANCE_LAUNCH_STAGE | Some st \<Rightarrow> st);
                     floored = (if ic_sandboxLauncher c \<and> \<not> meetsSandboxLaunchStageRequirement stage
                                then DEFAULT_INSTANCE_LAUNCH_STAGE else stage);
                     base = co_basePath opts in
                 Inr \<lparr>ci_transport = co_transport opts,
                   ci_basePath = (if ends_with ''/'' base then butlast base else base),
                   ci_config = c\<lparr>ic_launchStage := Some floored\<rparr>, ci_image = co_image opts,
                   ci_serviceAccount = co_serviceAccount opts,
                   ci_cloudSqlConnectionName = nonempty (map_option trim (co_cloudSqlConnectionName opts)),
                   ci_env = co_env opts\<rparr>)))"

section \<open>Reading answers\<close>

fun truthy_object :: "json option \<Rightarrow> bool" where
  "truthy_object (Some (JObj _)) = True"
| "truthy_object (Some (JArr _)) = True"
| "truthy_object _ = False"

definition formatErrorQualifier :: "json \<Rightarrow> string" where
  "formatErrorQualifier err = join_with '', ''
     ((case json_field err ''status'' of Some (JStr s) \<Rightarrow> [''status: '' @ s] | _ \<Rightarrow> [])
      @ (case json_field err ''code'' of
           Some c \<Rightarrow> if js_number c then [''code: '' @ js_string c] else []
         | None \<Rightarrow> []))"

definition extractApiErrorMessage :: "json option \<Rightarrow> string option" where
  "extractApiErrorMessage body =
     (case body of
        None \<Rightarrow> None
      | Some (JStr s) \<Rightarrow> if s = [] then None else Some s
      | Some v \<Rightarrow>
          (let legacy = (case json_field v ''message'' of Some (JStr m) \<Rightarrow> Some m | _ \<Rightarrow> None) in
           case json_field v ''error'' of
             Some err \<Rightarrow> (case json_field err ''message'' of
                 Some (JStr m) \<Rightarrow>
                   (let q = formatErrorQualifier err in Some (if q = [] then m else m @ '' ('' @ q @ '')''))
               | _ \<Rightarrow> legacy)
           | None \<Rightarrow> legacy))"

definition handleErrorStatus :: "InstanceResponse \<Rightarrow> string \<Rightarrow> instance_error + unit" where
  "handleErrorStatus res instanceName =
     (let st = hp_status res;
          message = (case extractApiErrorMessage (hp_body res) of
              Some m \<Rightarrow> m | None \<Rightarrow> ''request failed with status '' @ show_nat st) in
      if 200 \<le> st \<and> st < 300 then Inr ()
      else if st = 404 then Inl (InstanceNotFoundError instanceName)
      else if st = 409 then Inl (InstanceAlreadyExistsError instanceName)
      else if st = 403 then Inl (PermissionDeniedError message)
      else Inl (InstanceClientError message st))"

record InstanceInfo =
  ii_name :: string
  ii_url :: "string option"
  ii_state :: string

definition parseInstanceState :: "json \<Rightarrow> string" where
  "parseInstanceState v =
     (case json_field v ''state'' of
        Some (JStr s) \<Rightarrow> s
      | _ \<Rightarrow>
          (case json_field v ''terminalCondition'' of
             Some c \<Rightarrow> (case json_field c ''state'' of
                 Some (JStr s) \<Rightarrow>
                   if s = ''CONDITION_SUCCEEDED'' then ''READY''
                   else if s = ''CONDITION_FAILED'' then ''FAILED''
                   else if s = ''CONDITION_PENDING'' \<or> s = ''CONDITION_RECONCILING'' then ''PENDING''
                   else ''UNKNOWN''
               | _ \<Rightarrow> ''UNKNOWN'')
           | None \<Rightarrow> ''UNKNOWN''))"

definition parseInstanceInfo :: "json option \<Rightarrow> instance_error + InstanceInfo" where
  "parseInstanceInfo body =
     (if \<not> truthy_object body then Inl (InstanceClientError ''invalid instance response'' 500)
      else
        (let v = the body;
             name = (case json_field v ''name'' of Some (JStr n) \<Rightarrow> n | _ \<Rightarrow> []);
             url = (case json_field v ''urls'' of
                 Some (JArr (JStr u # _)) \<Rightarrow> Some u
               | _ \<Rightarrow> (case json_field v ''url'' of Some (JStr u) \<Rightarrow> Some u | _ \<Rightarrow> None)) in
         if name = [] then Inl (InstanceClientError ''missing instance name in response'' 500)
         else Inr \<lparr>ii_name = name, ii_url = url, ii_state = parseInstanceState v\<rparr>))"

definition parseCreateResponse :: "'n CloudRunInstanceClient \<Rightarrow> json option \<Rightarrow> string \<Rightarrow> instance_error + InstanceInfo" where
  "parseCreateResponse c body instanceName =
     (case body of
        Some (JObj fs) \<Rightarrow>
          (case map_of fs ''done'' of
             None \<Rightarrow> parseInstanceInfo body
           | Some d \<Rightarrow>
               if d \<noteq> JBool True
               then Inr \<lparr>ii_name = ci_basePath c @ ''/instances/'' @ instanceName, ii_url = None, ii_state = ''PENDING''\<rparr>
               else if truthy_object (map_of fs ''error'')
               then
                 (let err = the (map_of fs ''error'');
                      raw = (case json_field err ''message'' of
                          None \<Rightarrow> json_show err | Some JNull \<Rightarrow> json_show err | Some m \<Rightarrow> js_string m);
                      q = formatErrorQualifier err in
                  Inl (InstanceClientError (''create failed: '' @ raw @ (if q = [] then [] else '' ('' @ q @ '')'')) 500))
               else parseInstanceInfo (map_of fs ''response''))
      | _ \<Rightarrow> parseInstanceInfo body)"

section \<open>Operations\<close>

text \<open>\<open>Object.keys(env).sort()\<close>: names by their bytes.\<close>

fun name_le :: "string \<Rightarrow> string \<Rightarrow> bool" where
  "name_le [] t = True"
| "name_le (c # s) [] = False"
| "name_le (c # s) (d # t) = (byte c < byte d \<or> c = d \<and> name_le s t)"

fun insert_name :: "string \<times> string \<Rightarrow> (string \<times> string) list \<Rightarrow> (string \<times> string) list" where
  "insert_name p [] = [p]"
| "insert_name p (q # qs) = (if name_le (fst p) (fst q) then p # q # qs else q # insert_name p qs)"

definition sort_names :: "(string \<times> string) list \<Rightarrow> (string \<times> string) list" where
  "sort_names ps = foldr insert_name ps []"

definition buildCreateBody :: "'n CloudRunInstanceClient \<Rightarrow> json" where
  "buildCreateBody c =
     (let cfg = ci_config c;
          env = sort_names (ci_env c);
          container = JObj
            ([(''image'', JStr (case ci_image c of None \<Rightarrow> [] | Some i \<Rightarrow> i)),
              (''resources'', JObj [(''limits'', JObj [(''cpu'', JStr (show_nat (ic_cpu cfg))), (''memory'', JStr (ic_memory cfg))])]),
              (''ports'', JArr [JObj [(''containerPort'', JNum (ic_port cfg))]]),
              (''volumeMounts'', JArr [JObj [(''name'', JStr CLOUD_SQL_VOLUME_NAME), (''mountPath'', JStr CLOUD_SQL_MOUNT_PATH)]])]
             @ (if ic_sandboxLauncher cfg then [(''sandboxLauncher'', JBool True)] else [])
             @ (if env = [] then []
                else [(''env'', JArr (map (\<lambda>(n, v). JObj [(''name'', JStr n), (''value'', JStr v)]) env))])) in
      JObj
        ([(''containers'', JArr [container]),
          (''restartPolicy'', JStr (toApiRestartPolicy (ic_restartPolicy cfg))),
          (''launchStage'', JStr (stage_text (case ic_launchStage cfg of None \<Rightarrow> DEFAULT_INSTANCE_LAUNCH_STAGE | Some s \<Rightarrow> s))),
          (''volumes'', JArr [JObj [(''name'', JStr CLOUD_SQL_VOLUME_NAME),
             (''cloudSqlInstance'', JObj [(''instances'',
                JArr [JStr (case ci_cloudSqlConnectionName c of None \<Rightarrow> [] | Some n \<Rightarrow> n)])])]])]
         @ (case nonempty (ci_serviceAccount c) of None \<Rightarrow> [] | Some a \<Rightarrow> [(''serviceAccount'', JStr a)])))"

definition send :: "'n CloudRunInstanceClient \<Rightarrow> InstanceRequest \<Rightarrow> ('n, instance_error, InstanceResponse) comp" where
  "send c rq = zoomC (\<lambda>s. s) (\<lambda>s _. s) TransportError (ci_transport c rq)"

definition call_instance ::
  "'n CloudRunInstanceClient \<Rightarrow> string \<Rightarrow> string \<Rightarrow> string \<Rightarrow> json option \<Rightarrow> ('n, instance_error, json option) comp" where
  "call_instance c method instanceName verb body =
     bindC (send c \<lparr>hq_method = method,
         hq_url = ci_basePath c @ ''/instances/'' @ encodeURIComponent instanceName @ verb, hq_body = body\<rparr>) (\<lambda>res.
     thenC (liftE (handleErrorStatus res instanceName)) (ret (hp_body res)))"

text \<open>\<open>validate\<close> is \<open>options.validateOnly\<close>, \<open>w\<close> and \<open>name\<close> the workspace's id and instance name.\<close>

definition client_create ::
  "'n CloudRunInstanceClient \<Rightarrow> string \<Rightarrow> string option \<Rightarrow> bool \<Rightarrow> ('n, instance_error, InstanceInfo) comp" where
  "client_create c w name validate =
     (if (case ci_image c of None \<Rightarrow> True | Some i \<Rightarrow> trim i = [])
      then throwC (InstanceClientError (''create requires an image (v2 containers[].image) '' @ em_dash
             @ '' supply `image` when constructing CloudRunInstanceClient'') 400)
      else if ci_cloudSqlConnectionName c = None then throwC MissingCloudSqlConnectionNameError
      else
        (let instanceName = (case name of Some n \<Rightarrow> n | None \<Rightarrow> ''dsh-'' @ w);
             query = search_params ([(''instanceId'', instanceName)] @ (if validate then [(''validateOnly'', ''true'')] else [])) in
         bindC (send c \<lparr>hq_method = ''POST'', hq_url = ci_basePath c @ ''/instances?'' @ query,
             hq_body = Some (buildCreateBody c)\<rparr>) (\<lambda>res.
         thenC (liftE (handleErrorStatus res instanceName))
           (liftE (parseCreateResponse c (hp_body res) instanceName)))))"

definition client_start :: "'n CloudRunInstanceClient \<Rightarrow> string \<Rightarrow> ('n, instance_error, unit) comp" where
  "client_start c name = bindC (call_instance c ''POST'' name '':start'' (Some (JObj []))) (\<lambda>_. ret ())"

definition client_stop :: "'n CloudRunInstanceClient \<Rightarrow> string \<Rightarrow> ('n, instance_error, unit) comp" where
  "client_stop c name = bindC (call_instance c ''POST'' name '':stop'' (Some (JObj []))) (\<lambda>_. ret ())"

definition client_get :: "'n CloudRunInstanceClient \<Rightarrow> string \<Rightarrow> ('n, instance_error, InstanceInfo) comp" where
  "client_get c name = bindC (call_instance c ''GET'' name [] None) (\<lambda>body. liftE (parseInstanceInfo body))"

definition client_delete :: "'n CloudRunInstanceClient \<Rightarrow> string \<Rightarrow> ('n, instance_error, unit) comp" where
  "client_delete c name = bindC (call_instance c ''DELETE'' name [] None) (\<lambda>_. ret ())"

end
