(* ===== verification/Config.thy ===== *)
theory Config
  imports Connection Instance_Client Repository
begin

text \<open>
  The environments of the two programs (\<open>apps/control-plane/src/config.ts\<close>, \<open>apps/agent-host/src/config.ts\<close>)
  and the environment the control plane gives an instance it creates (\<open>buildInstanceEnv\<close> and
  \<open>assertCloudSqlSocketConsistency\<close> of \<open>apps/control-plane/src/runtime-factory.ts\<close>). Errors are their messages;
  \<open>urlProtocol\<close> stands for the URL parser, as in \<open>Instance_Client\<close>. An environment variable of an instance is
  a pair of its name and value.
\<close>

section \<open>Reading\<close>

definition unset :: "string option \<Rightarrow> bool" where
  "unset v = (case v of None \<Rightarrow> True | Some s \<Rightarrow> trim s = [])"

text \<open>\<open>env[k]!.trim()\<close>, after the check that the variable is there; and \<open>env[k]?.trim() || fallback\<close>.\<close>

definition trimmed :: "environment \<Rightarrow> string \<Rightarrow> string" where
  "trimmed e k = (case e k of None \<Rightarrow> [] | Some s \<Rightarrow> trim s)"

definition trimmed_or :: "environment \<Rightarrow> string \<Rightarrow> string \<Rightarrow> string" where
  "trimmed_or e k fallback = (if unset (e k) then fallback else trimmed e k)"

definition trimmed_option :: "environment \<Rightarrow> string \<Rightarrow> string option" where
  "trimmed_option e k = (if unset (e k) then None else Some (trimmed e k))"

definition missing_env :: "string list \<Rightarrow> environment \<Rightarrow> string list" where
  "missing_env keys e = filter (\<lambda>k. unset (e k)) keys"

definition MissingRequiredEnvError :: "string list \<Rightarrow> string" where
  "MissingRequiredEnvError missing = ''missing required environment variables: '' @ join_with '', '' missing"

definition DEFAULT_PORT :: int where
  "DEFAULT_PORT = 8080"

text \<open>The text of \<open>portRaw\<close> in the message is that of an absent value when there is none; it is there then.\<close>

definition read_port :: "environment \<Rightarrow> string + int" where
  "read_port e =
     (if unset (e ''PORT'') then Inr DEFAULT_PORT
      else (case parse_int10 (trimmed e ''PORT'') of
          None \<Rightarrow> Inl (''invalid PORT: '' @ trimmed e ''PORT'')
        | Some n \<Rightarrow> if n \<le> 0 \<or> n > 65535 then Inl (''invalid PORT: '' @ trimmed e ''PORT'') else Inr n))"

definition absolute_url :: "(string \<Rightarrow> string option) \<Rightarrow> string \<Rightarrow> bool" where
  "absolute_url urlProtocol s = (urlProtocol s = Some ''https:'' \<or> urlProtocol s = Some ''http:'')"

definition readInstancesApiBaseUrl :: "(string \<Rightarrow> string option) \<Rightarrow> environment \<Rightarrow> string + string" where
  "readInstancesApiBaseUrl urlProtocol e =
     (if unset (e ''INSTANCES_API_BASE_URL'') then Inr DEFAULT_INSTANCES_API_BASE_URL
      else
        (let raw = trimmed e ''INSTANCES_API_BASE_URL'' in
         if absolute_url urlProtocol raw then Inr raw
         else Inl (''invalid INSTANCES_API_BASE_URL: '' @ show_string raw @ '' (want an absolute http(s) URL like ''
                @ DEFAULT_INSTANCES_API_BASE_URL @ '')'')))"

section \<open>The control plane\<close>

definition CONTROL_PLANE_ENV_KEYS :: "string list" where
  "CONTROL_PLANE_ENV_KEYS = [''DATABASE_URL'', ''GCP_PROJECT_ID'', ''GCP_REGION'', ''AGENT_HOST_IMAGE'',
     ''AGENT_HOST_SERVICE_ACCOUNT'', ''CHECKPOINT_BUCKET'', ''AGENT_HOST_DATABASE_URL'', ''GITHUB_APP_ID'',
     ''GITHUB_APP_PRIVATE_KEY_PEM'', ''OPENROUTER_API_KEY'', ''CLOUD_SQL_CONNECTION_NAME'']"

datatype LlmApprovalPolicy = AskPolicy | NeverPolicy

fun policy_text :: "LlmApprovalPolicy \<Rightarrow> string" where
  "policy_text AskPolicy = ''ask''"
| "policy_text NeverPolicy = ''never''"

definition read_policy :: "string \<Rightarrow> string + LlmApprovalPolicy" where
  "read_policy raw =
     (if raw = ''ask'' then Inr AskPolicy else if raw = ''never'' then Inr NeverPolicy
      else Inl (''invalid LLM_APPROVAL_POLICY: '' @ raw @ '' (want '' @ show_string ''ask'' @ '' or '' @ show_string ''never'' @ '')''))"

record LoginConfig =
  lc_appOrigin :: string
  lc_clientId :: string
  lc_clientSecret :: string

record LlmOverrides =
  lo_baseUrl :: "string option"
  lo_model :: "string option"
  lo_approvalPolicy :: "LlmApprovalPolicy option"

record ControlPlaneConfig =
  cc_port :: int
  cc_databaseUrl :: string
  cc_pool :: BunSqlPoolOptions
  cc_gcpProjectId :: string
  cc_gcpRegion :: string
  cc_instancesApiBaseUrl :: string
  cc_agentHostImage :: string
  cc_agentHostServiceAccount :: string
  cc_checkpointBucket :: string
  cc_agentHostDatabaseUrl :: string
  cc_githubAppId :: string
  cc_githubAppPrivateKeyPem :: string
  cc_openrouterApiKey :: string
  cc_cloudSqlConnectionName :: string
  cc_llm :: LlmOverrides
  cc_oauth :: "LoginConfig option"
  cc_gcIntervalMs :: int
  cc_gcStaleAfterMs :: int
  cc_gcMaxDeletesPerSweep :: int

definition oauth_invalid :: "string \<Rightarrow> string" where
  "oauth_invalid origin = ''invalid APP_ORIGIN: '' @ show_string origin @ '' (want an absolute http(s) URL)''"

definition readOAuthConfig :: "(string \<Rightarrow> string option) \<Rightarrow> environment \<Rightarrow> string + LoginConfig option" where
  "readOAuthConfig urlProtocol e =
     (let keys = [''APP_ORIGIN'', ''GITHUB_APP_CLIENT_ID'', ''GITHUB_APP_CLIENT_SECRET'']; missing = missing_env keys e in
      if missing = keys then Inr None
      else if missing \<noteq> [] then
        Inl (''partial GitHub OAuth configuration: missing '' @ join_with '', '' missing
          @ '' (set APP_ORIGIN, GITHUB_APP_CLIENT_ID and GITHUB_APP_CLIENT_SECRET together, or none)'')
      else if \<not> absolute_url urlProtocol (trimmed e ''APP_ORIGIN'') then Inl (oauth_invalid (trimmed e ''APP_ORIGIN''))
      else Inr (Some \<lparr>lc_appOrigin = trimmed e ''APP_ORIGIN'', lc_clientId = trimmed e ''GITHUB_APP_CLIENT_ID'',
                  lc_clientSecret = trimmed e ''GITHUB_APP_CLIENT_SECRET''\<rparr>))"

text \<open>The same reading as that of the pool options.\<close>

definition readOptionalMs :: "string option \<Rightarrow> string \<Rightarrow> int \<Rightarrow> int \<Rightarrow> string + int" where
  "readOptionalMs raw name fallback least =
     (if unset raw then Inr fallback
      else
        (let refused = Inl (''invalid '' @ name @ '': '' @ show_string (the raw) @ '' (want an integer >= '' @ show_int least @ '')'') in
         case parse_int10 (trim (the raw)) of
           None \<Rightarrow> refused
         | Some n \<Rightarrow> if n < least then refused else Inr n))"

definition readLlmOverrides :: "environment \<Rightarrow> string + LlmOverrides" where
  "readLlmOverrides e =
     (let result = \<lambda>p. \<lparr>lo_baseUrl = trimmed_option e ''LLM_BASE_URL'', lo_model = trimmed_option e ''LLM_MODEL'',
        lo_approvalPolicy = p\<rparr> in
      if unset (e ''LLM_APPROVAL_POLICY'') then Inr (result None)
      else (case read_policy (trimmed e ''LLM_APPROVAL_POLICY'') of Inl m \<Rightarrow> Inl m | Inr p \<Rightarrow> Inr (result (Some p))))"

definition readControlPlaneConfig :: "(string \<Rightarrow> string option) \<Rightarrow> environment \<Rightarrow> string + ControlPlaneConfig" where
  "readControlPlaneConfig urlProtocol e =
     (if missing_env CONTROL_PLANE_ENV_KEYS e \<noteq> [] then Inl (MissingRequiredEnvError (missing_env CONTROL_PLANE_ENV_KEYS e))
      else
        andThen (read_port e) (\<lambda>p.
        andThen (resolveBunSqlPoolOptions e) (\<lambda>pool.
        andThen (readInstancesApiBaseUrl urlProtocol e) (\<lambda>api.
        andThen (readLlmOverrides e) (\<lambda>llm.
        andThen (readOAuthConfig urlProtocol e) (\<lambda>oauth.
        andThen (readOptionalMs (e ''INSTANCE_GC_INTERVAL_MS'') ''INSTANCE_GC_INTERVAL_MS'' 3600000 0) (\<lambda>interval.
        andThen (readOptionalMs (e ''INSTANCE_GC_STALE_AFTER_MS'') ''INSTANCE_GC_STALE_AFTER_MS'' 2592000000 3600000) (\<lambda>stale.
        andThen (readOptionalMs (e ''INSTANCE_GC_MAX_DELETES_PER_SWEEP'') ''INSTANCE_GC_MAX_DELETES_PER_SWEEP'' 10 1) (\<lambda>cap.
          Inr \<lparr>cc_port = p, cc_databaseUrl = trimmed e ''DATABASE_URL'', cc_pool = pool,
            cc_gcpProjectId = trimmed e ''GCP_PROJECT_ID'', cc_gcpRegion = trimmed e ''GCP_REGION'', cc_instancesApiBaseUrl = api,
            cc_agentHostImage = trimmed e ''AGENT_HOST_IMAGE'', cc_agentHostServiceAccount = trimmed e ''AGENT_HOST_SERVICE_ACCOUNT'',
            cc_checkpointBucket = trimmed e ''CHECKPOINT_BUCKET'', cc_agentHostDatabaseUrl = trimmed e ''AGENT_HOST_DATABASE_URL'',
            cc_githubAppId = trimmed e ''GITHUB_APP_ID'', cc_githubAppPrivateKeyPem = the (e ''GITHUB_APP_PRIVATE_KEY_PEM''),
            cc_openrouterApiKey = trimmed e ''OPENROUTER_API_KEY'', cc_cloudSqlConnectionName = trimmed e ''CLOUD_SQL_CONNECTION_NAME'',
            cc_llm = llm, cc_oauth = oauth, cc_gcIntervalMs = interval, cc_gcStaleAfterMs = stale,
            cc_gcMaxDeletesPerSweep = cap\<rparr>)))))))))"

section \<open>The agent host\<close>

definition AGENT_HOST_ENV_KEYS :: "string list" where
  "AGENT_HOST_ENV_KEYS = [''WORKSPACE_ID'', ''CHECKPOINT_BUCKET'', ''DATABASE_URL'', ''GITHUB_APP_ID'',
     ''GITHUB_APP_PRIVATE_KEY_PEM'', ''REPOSITORY_OWNER'', ''REPOSITORY_NAME'', ''BASE_BRANCH'', ''CONTROLLER_ID'',
     ''USER_ID'', ''INSTANCE_NAME'', ''GCP_PROJECT_ID'', ''GCP_REGION'']"

record LlmConfig =
  llmBaseUrl :: string
  llmApiKeyEnv :: string
  llmModel :: string
  llmApprovalPolicy :: LlmApprovalPolicy

record AgentHostConfig =
  ac_workspaceId :: string
  ac_port :: int
  ac_workspaceRoot :: string
  ac_checkpointBucket :: string
  ac_checkpointKey :: string
  ac_databaseUrl :: string
  ac_pool :: BunSqlPoolOptions
  ac_githubAppId :: string
  ac_githubAppPrivateKeyPem :: string
  ac_repositoryOwner :: string
  ac_repositoryName :: string
  ac_baseBranch :: string
  ac_controllerId :: string
  ac_userId :: string
  ac_instanceName :: string
  ac_gcpProjectId :: string
  ac_gcpRegion :: string
  ac_instancesApiBaseUrl :: string
  ac_sandboxCliPath :: string
  ac_allowEgress :: bool
  ac_llm :: LlmConfig

definition DEFAULT_LLM_BASE_URL :: string where
  "DEFAULT_LLM_BASE_URL = ''https://openrouter.ai/api/v1''"

definition DEFAULT_LLM_API_KEY_ENV :: string where
  "DEFAULT_LLM_API_KEY_ENV = ''OPENROUTER_API_KEY''"

definition DEFAULT_LLM_MODEL :: string where
  "DEFAULT_LLM_MODEL = ''deepseek/deepseek-v4-flash''"

definition DEFAULT_WORKSPACE_ROOT :: string where
  "DEFAULT_WORKSPACE_ROOT = ''/workspace''"

definition DEFAULT_SANDBOX_CLI_PATH :: string where
  "DEFAULT_SANDBOX_CLI_PATH = ''/usr/local/gcp/bin/sandbox''"

definition defaultCheckpointKey :: "string \<Rightarrow> string" where
  "defaultCheckpointKey w = ''workspaces/'' @ w @ ''/checkpoint.bin''"

definition readLlmConfig :: "environment \<Rightarrow> string + LlmConfig" where
  "readLlmConfig e =
     (let model = trimmed_or e ''LLM_MODEL'' DEFAULT_LLM_MODEL in
      if model = [] then Inl ''invalid LLM_MODEL: must be a non-empty model id''
      else andThen (read_policy (trimmed_or e ''LLM_APPROVAL_POLICY'' ''ask'')) (\<lambda>p.
        Inr \<lparr>llmBaseUrl = trimmed_or e ''LLM_BASE_URL'' DEFAULT_LLM_BASE_URL,
          llmApiKeyEnv = trimmed_or e ''LLM_API_KEY_ENV'' DEFAULT_LLM_API_KEY_ENV, llmModel = model, llmApprovalPolicy = p\<rparr>))"

definition readAgentHostConfig :: "(string \<Rightarrow> string option) \<Rightarrow> environment \<Rightarrow> string + AgentHostConfig" where
  "readAgentHostConfig urlProtocol e =
     (if missing_env AGENT_HOST_ENV_KEYS e \<noteq> [] then Inl (MissingRequiredEnvError (missing_env AGENT_HOST_ENV_KEYS e))
      else
        andThen (resolveBunSqlPoolOptions e) (\<lambda>pool.
        andThen (read_port e) (\<lambda>p.
        andThen (readInstancesApiBaseUrl urlProtocol e) (\<lambda>api.
        andThen (readLlmConfig e) (\<lambda>llm.
          Inr \<lparr>ac_workspaceId = trimmed e ''WORKSPACE_ID'', ac_port = p,
            ac_workspaceRoot = trimmed_or e ''WORKSPACE_ROOT'' DEFAULT_WORKSPACE_ROOT,
            ac_checkpointBucket = trimmed e ''CHECKPOINT_BUCKET'',
            ac_checkpointKey = trimmed_or e ''CHECKPOINT_KEY'' (defaultCheckpointKey (trimmed e ''WORKSPACE_ID'')),
            ac_databaseUrl = trimmed e ''DATABASE_URL'', ac_pool = pool, ac_githubAppId = trimmed e ''GITHUB_APP_ID'',
            ac_githubAppPrivateKeyPem = the (e ''GITHUB_APP_PRIVATE_KEY_PEM''), ac_repositoryOwner = trimmed e ''REPOSITORY_OWNER'',
            ac_repositoryName = trimmed e ''REPOSITORY_NAME'', ac_baseBranch = trimmed e ''BASE_BRANCH'',
            ac_controllerId = trimmed e ''CONTROLLER_ID'', ac_userId = trimmed e ''USER_ID'',
            ac_instanceName = trimmed e ''INSTANCE_NAME'', ac_gcpProjectId = trimmed e ''GCP_PROJECT_ID'',
            ac_gcpRegion = trimmed e ''GCP_REGION'', ac_instancesApiBaseUrl = api,
            ac_sandboxCliPath = trimmed_or e ''SANDBOX_CLI_PATH'' DEFAULT_SANDBOX_CLI_PATH,
            ac_allowEgress = (map_option trim (e ''SANDBOX_ALLOW_EGRESS'') \<noteq> Some ''false''), ac_llm = llm\<rparr>)))))"

section \<open>The environment of an instance\<close>

definition instance_env :: "ControlPlaneConfig \<Rightarrow> Workspace \<Rightarrow> string \<Rightarrow> string \<Rightarrow> (string \<times> string) list" where
  "instance_env c w name ctl =
     [(''WORKSPACE_ID'', w_id w), (''CHECKPOINT_BUCKET'', cc_checkpointBucket c),
      (''DATABASE_URL'', cc_agentHostDatabaseUrl c), (''DB_POOL_MAX'', show_int (pool_max (cc_pool c))),
      (''DB_POOL_IDLE_TIMEOUT'', show_int (idleTimeout (cc_pool c))),
      (''DB_POOL_CONNECTION_TIMEOUT'', show_int (connectionTimeout (cc_pool c))), (''GITHUB_APP_ID'', cc_githubAppId c),
      (''GITHUB_APP_PRIVATE_KEY_PEM'', cc_githubAppPrivateKeyPem c), (''OPENROUTER_API_KEY'', cc_openrouterApiKey c)]
     @ (case lo_baseUrl (cc_llm c) of None \<Rightarrow> [] | Some u \<Rightarrow> [(''LLM_BASE_URL'', u)])
     @ (case lo_model (cc_llm c) of None \<Rightarrow> [] | Some m \<Rightarrow> [(''LLM_MODEL'', m)])
     @ (case lo_approvalPolicy (cc_llm c) of None \<Rightarrow> [] | Some p \<Rightarrow> [(''LLM_APPROVAL_POLICY'', policy_text p)])
     @ [(''REPOSITORY_OWNER'', repositoryOwner w), (''REPOSITORY_NAME'', repositoryName w), (''BASE_BRANCH'', baseBranch w),
      (''CONTROLLER_ID'', ctl), (''USER_ID'', ownerId w), (''INSTANCE_NAME'', name),
      (''GCP_PROJECT_ID'', cc_gcpProjectId c), (''GCP_REGION'', cc_gcpRegion c)]"

definition buildInstanceEnv :: "ControlPlaneConfig \<Rightarrow> Workspace \<Rightarrow> string \<Rightarrow> string \<Rightarrow> string + (string \<times> string) list" where
  "buildInstanceEnv c w name ctl =
     (if trim (cc_openrouterApiKey c) = [] then
        Inl (''cannot build instance env: OPENROUTER_API_KEY is not configured '' @ em_dash
          @ '' set it on the control plane so created Instances can call the LLM ''
          @ ''(refusing to create a credential-less Instance that would fail its first turn)'')
      else Inr (instance_env c w name ctl))"

text \<open>Only the \<open>host\<close> parameter of the query is read; \<open>None\<close> is \<open>undefined\<close>.\<close>

fun host_param :: "string list \<Rightarrow> string option" where
  "host_param [] = None"
| "host_param (p # ps) =
     (case cut_first (CHR ''='') p of (key, v) \<Rightarrow>
        if key \<noteq> ''host'' then host_param ps
        else (let raw = (case v of None \<Rightarrow> [] | Some x \<Rightarrow> x) in
              Some (case decodeURIComponent raw of None \<Rightarrow> raw | Some d \<Rightarrow> d)))"

definition extractDatabaseUrlHostParam :: "string \<Rightarrow> string option" where
  "extractDatabaseUrlHostParam dsn =
     (case cut_first (CHR ''?'') dsn of (_, None) \<Rightarrow> None | (_, Some q) \<Rightarrow> host_param (split_at (CHR ''&'') q))"

definition assertCloudSqlSocketConsistency :: "string \<Rightarrow> string \<Rightarrow> string + unit" where
  "assertCloudSqlSocketConsistency dsn connectionName =
     (let conn = trim connectionName; expected = CLOUD_SQL_MOUNT_PATH @ ''/'' @ conn; actual = extractDatabaseUrlHostParam dsn in
      if conn = [] then
        Inl (''cannot build instance client: CLOUD_SQL_CONNECTION_NAME is not configured '' @ em_dash
          @ '' set it to the `sql_connection_name` Terraform output (<project>:<region>:<instance>) ''
          @ ''so created Instances get their cloudSqlInstance volume (refusing to create a ''
          @ ''volumeless Instance that would crash-loop with ERR_POSTGRES_CONNECTION_REFUSED)'')
      else if actual \<noteq> Some expected then
        Inl (''cannot build instance client: AGENT_HOST_DATABASE_URL host (''
          @ (case actual of None \<Rightarrow> ''(no host= parameter)'' | Some h \<Rightarrow> show_string h)
          @ '') does not match CLOUD_SQL_CONNECTION_NAME ('' @ show_string conn @ ''; want host='' @ show_string expected
          @ ''). Derive both from the same `sql_connection_name` Terraform output (`...?host=/cloudsql/<connection-name>`) ''
          @ em_dash @ '' refusing to create an Instance whose socket path would not exist'')
      else Inr ())"

end
