(* ===== verification/Connection_Props.thy ===== *)
theory Connection_Props
  imports Connection Json_Show
begin

text \<open>
  Percent encoding is undone by decoding; a socket connection string built from encoded parts resolves to exactly
  those parts; and making a client leaves the environment as it was.
\<close>

section \<open>Percent encoding\<close>

lemma upper_hex_digit: "n < 16 \<Longrightarrow> hex_digit (upper_hex n) = Some n"
by (erule nibble_cases) (simp add: upt_rec upper_hex_def hex_digit_def in_range_def byte_def)

lemma byte_halves: "byte c div 16 < 16" "byte c mod 16 < 16" "char_of (byte c div 16 * 16 + byte c mod 16) = c"
proof -
  have "byte c < 256" by simp
  then show "byte c div 16 < 16" by linarith
  show "byte c mod 16 < 16" by simp
  have "byte c div 16 * 16 + byte c mod 16 = byte c" by (rule div_mult_mod_eq)
  then show "char_of (byte c div 16 * 16 + byte c mod 16) = c" by (simp add: byte_def)
qed

lemma percent_decode_uri_char: "percent_decode (uri_char c @ s) = map_option ((#) c) (percent_decode s)"
proof (cases "alnum c \<or> c \<in> set ''-_.!~*()'' \<or> c = single_quote")
  case True
  then have "c \<noteq> CHR ''%''" by (auto simp: alnum_def letter_def is_digit_def in_range_def byte_def)
  moreover have "uri_char c = [c]" unfolding uri_char_def using True by (rule if_P)
  ultimately show ?thesis by simp
next
  case False
  then have "uri_char c = [CHR ''%'', upper_hex (byte c div 16), upper_hex (byte c mod 16)]" unfolding uri_char_def by (rule if_not_P)
  then show ?thesis using byte_halves [of c] by (simp add: upper_hex_digit)
qed

lemma percent_roundtrip: "percent_decode (encodeURIComponent s) = Some s"
  by (induction s) (simp_all add: encodeURIComponent_def percent_decode_uri_char)

lemma uri_roundtrip: "utf8 s \<Longrightarrow> decodeURIComponent (encodeURIComponent s) = Some s"
  by (simp add: decodeURIComponent_def percent_roundtrip)

definition uri_delimiter :: "char \<Rightarrow> bool" where
  "uri_delimiter c \<longleftrightarrow> c \<in> {CHR ''#'', CHR ''?'', CHR ''&'', CHR ''@'', CHR '':'', CHR ''='', slash} \<or> is_space c"

lemma upper_hex_plain: "n < 16 \<Longrightarrow> \<not> uri_delimiter (upper_hex n)"
by (erule nibble_cases) (simp add: upt_rec upper_hex_def uri_delimiter_def is_space_def in_range_def byte_def)

lemma encoded_plain: "c \<in> set (encodeURIComponent s) \<Longrightarrow> \<not> uri_delimiter c"
proof -
  have "\<not> uri_delimiter c" if "c \<in> set (uri_char d)" for d
  proof (cases "alnum d \<or> d \<in> set ''-_.!~*()'' \<or> d = single_quote")
    case True
    then have "uri_char d = [d]" unfolding uri_char_def by (rule if_P)
    with that True show ?thesis by (auto simp: uri_delimiter_def alnum_def letter_def is_digit_def is_space_def in_range_def byte_def)
  next
    case False
    then have "uri_char d = [CHR ''%'', upper_hex (byte d div 16), upper_hex (byte d mod 16)]" unfolding uri_char_def by (rule if_not_P)
    with that upper_hex_plain byte_halves(1,2) [of d] show ?thesis
      by (auto simp: uri_delimiter_def is_space_def in_range_def byte_def)
  qed
  then show "c \<in> set (encodeURIComponent s) \<Longrightarrow> \<not> uri_delimiter c" by (auto simp: encodeURIComponent_def)
qed

lemma encoded_ne: "s \<noteq> [] \<Longrightarrow> encodeURIComponent s \<noteq> []"
  by (cases s) (simp_all add: encodeURIComponent_def uri_char_def)

section \<open>Connection strings\<close>

lemma cut_first_at: "c \<notin> set a \<Longrightarrow> cut_first c (a @ c # b) = (a, Some b)"
  by (simp add: cut_first_def) (induction a, auto)

lemma cut_first_none: "c \<notin> set a \<Longrightarrow> cut_first c a = (a, None)"
  by (simp add: cut_first_def) (induction a, auto)

lemma cut_last_none: "CHR ''@'' \<notin> set b \<Longrightarrow> cut_last ''@/'' b = None"
  by (induction b) (auto simp: starts_with_def)

lemma cut_last_at: "CHR ''@'' \<notin> set b \<Longrightarrow> cut_last ''@/'' (a @ ''@/'' @ b) = Some (a, ''@/'' @ b)"
proof (induction a)
  case Nil
  then have "cut_last ''@/'' (slash # b) = None" by (intro cut_last_none) simp
  then show ?case by (simp add: starts_with_def)
qed simp

definition plain_socket :: "string \<Rightarrow> bool" where
  "plain_socket h \<longleftrightarrow> starts_with ''/'' h \<and> utf8 h
     \<and> (\<forall>c \<in> set h. c \<noteq> CHR ''%'' \<and> c \<noteq> CHR ''&'' \<and> c \<noteq> CHR ''#'' \<and> \<not> is_space c)"

lemma plain_socketD:
  assumes "plain_socket h"
  shows "starts_with ''/'' h" "utf8 h" "CHR ''%'' \<notin> set h" "CHR ''&'' \<notin> set h" "CHR ''#'' \<notin> set h" "h \<noteq> []" "\<not> is_space (last h)"
proof -
  show sw: "starts_with ''/'' h" "utf8 h" "CHR ''%'' \<notin> set h" "CHR ''&'' \<notin> set h" "CHR ''#'' \<notin> set h"
    using assms unfolding plain_socket_def by blast+
  from sw(1) show "h \<noteq> []" by (auto simp: starts_with_def)
  then show "\<not> is_space (last h)" using assms last_in_set unfolding plain_socket_def by blast
qed

definition socket_dsn :: "string \<Rightarrow> string \<Rightarrow> string \<Rightarrow> string \<Rightarrow> string" where
  "socket_dsn u p d h = ''postgresql://'' @ encodeURIComponent u @ '':'' @ encodeURIComponent p @ ''@/''
     @ encodeURIComponent d @ ''?host='' @ h"

lemma percent_decode_plain: "CHR ''%'' \<notin> set h \<Longrightarrow> percent_decode h = Some h"
  by (induction h) auto

lemma trim_id: "s \<noteq> [] \<Longrightarrow> \<not> is_space (hd s) \<Longrightarrow> \<not> is_space (last s) \<Longrightarrow> trim s = s"
proof -
  have "trim_start t = t" if "t \<noteq> []" "\<not> is_space (hd t)" for t
    using that by (cases t) (simp_all add: trim_start_def)
  then show "s \<noteq> [] \<Longrightarrow> \<not> is_space (hd s) \<Longrightarrow> \<not> is_space (last s) \<Longrightarrow> trim s = s"
    by (simp add: trim_def hd_rev)
qed

lemma takeWhile_all: "\<forall>c \<in> set s. P c \<Longrightarrow> takeWhile P s = s"
  by (induction s) auto

lemma dsn_query:
  assumes "plain_socket h"
  shows "parseQueryPairs (''host='' @ h) = Inr [(''host'', h)]"
proof -
  have "CHR ''&'' \<notin> set (''host='' @ h)" using plain_socketD [OF assms] by simp
  from split_at_no [OF this] have "split_at (CHR ''&'') (''host='' @ h) = [''host='' @ h]" .
  moreover have "cut_first (CHR ''='') (''host='' @ h) = (''host'', Some h)" by (simp add: cut_first_def)
  moreover have "utf8 ''host''" by (rule utf8_ascii) (simp add: byte_def)
  then have "decodeURIComponent ''host'' = Some ''host''"
    using percent_decode_plain [of "''host''"] by (simp add: decodeURIComponent_def)
  moreover have "decodeURIComponent h = Some h"
    using plain_socketD [OF assms] percent_decode_plain [of h] by (simp add: decodeURIComponent_def)
  ultimately show ?thesis by (simp add: parseQueryPairs_def safeDecode_def)
qed

lemma dsn_reading:
  assumes "utf8 u" "utf8 p" "utf8 d" "u \<noteq> []" "d \<noteq> []"
  shows "first_complete params (readings (encodeURIComponent u @ '':'' @ encodeURIComponent p @ ''@/'' @ encodeURIComponent d))
       = Inr (Some \<lparr>username = u, password = (if p = [] then first_of params [''password''] else p), database = d\<rparr>)"
proof -
  have no: "c \<notin> set (encodeURIComponent s)" if "uri_delimiter c" for c s using encoded_plain that by blast
  have at: "CHR ''@'' \<notin> set (encodeURIComponent s)" and colon: "CHR '':'' \<notin> set (encodeURIComponent s)"
    and sl: "slash \<notin> set (encodeURIComponent s)" for s
    by (rule no, simp add: uri_delimiter_def)+
  have "cut_last ''@/'' ((encodeURIComponent u @ '':'' @ encodeURIComponent p) @ ''@/'' @ encodeURIComponent d)
      = Some (encodeURIComponent u @ '':'' @ encodeURIComponent p, ''@/'' @ encodeURIComponent d)"
    by (rule cut_last_at [OF at])
  then have r: "readings (encodeURIComponent u @ '':'' @ encodeURIComponent p @ ''@/'' @ encodeURIComponent d)
      = [(encodeURIComponent u @ '':'' @ encodeURIComponent p, ''/'' @ encodeURIComponent d)]"
    by (simp add: readings_def)
  have "cut_first (CHR '':'') (encodeURIComponent u @ '':'' @ encodeURIComponent p) = (encodeURIComponent u, Some (encodeURIComponent p))"
    using cut_first_at [OF colon] by simp
  moreover have "filter (\<lambda>s. s \<noteq> []) (split_at slash (''/'' @ encodeURIComponent d)) = [encodeURIComponent d]"
    using split_at_no [OF sl, of d] encoded_ne [OF assms(5)] by simp
  ultimately have "socketFields (encodeURIComponent u @ '':'' @ encodeURIComponent p) (''/'' @ encodeURIComponent d) params
      = Inr \<lparr>username = u, password = (if p = [] then first_of params [''password''] else p), database = d\<rparr>"
    using assms by (simp add: socketFields_def safeDecode_def uri_roundtrip Let_def)
  with assms r show ?thesis by (simp add: complete_def)
qed

text \<open>C35: credentials survive a connection string: whatever characters user, password and database hold, the Cloud SQL
  socket string built from their percent encodings resolves to the socket with exactly these three.\<close>

theorem socket_dsn_roundtrip:
  assumes "utf8 u" "utf8 p" "utf8 d" "u \<noteq> []" "d \<noteq> []" "plain_socket h"
  shows "resolveBunSqlTarget (socket_dsn u p d h) = Inr (SocketTarget h \<lparr>username = u, password = p, database = d\<rparr>)"
proof -
  let ?before = "encodeURIComponent u @ '':'' @ encodeURIComponent p @ ''@/'' @ encodeURIComponent d"
  note h = plain_socketD [OF assms(6)]
  have no: "c \<notin> set ?before" if "c = CHR ''#'' \<or> c = CHR ''?''" for c
    using that encoded_plain [of c] by (auto simp: uri_delimiter_def)
  have trimmed: "trim (socket_dsn u p d h) = socket_dsn u p d h"
    using h by (intro trim_id) (simp_all add: socket_dsn_def is_space_def in_range_def byte_def)
  have scheme: "scheme_length (socket_dsn u p d h) = Some 13" "drop 13 (socket_dsn u p d h) = ?before @ ''?host='' @ h"
    by (simp_all add: scheme_length_def socket_dsn_def lower_def lower_char_def in_range_def byte_def starts_with_def)
  have fragment: "takeWhile (\<lambda>c. c \<noteq> CHR ''#'') (?before @ ''?host='' @ h) = ?before @ ''?host='' @ h"
    using no [of "CHR ''#''"] h(5) by (intro takeWhile_all) auto
  have cut: "cut_first (CHR ''?'') (?before @ ''?host='' @ h) = (?before, Some (''host='' @ h))"
    using cut_first_at [of "CHR ''?''" ?before "''host='' @ h"] no [of "CHR ''?''"] by simp
  have cuts: "cut_first (CHR ''?'') (takeWhile (\<lambda>c. c \<noteq> CHR ''#'') (drop 13 (socket_dsn u p d h))) = (?before, Some (''host='' @ h))"
    by (simp only: scheme(2) fragment cut)
  have "socket_dsn u p d h \<noteq> []" by (simp add: socket_dsn_def)
  then show ?thesis
    unfolding resolveBunSqlTarget_def Let_def trimmed scheme(1) option.case if_not_P [OF \<open>socket_dsn u p d h \<noteq> []\<close>]
      cuts prod.case dsn_query [OF assms(6)] sum.case dsn_reading [OF assms(1-5)]
    using h(1) by (simp add: first_of_def map_filter_simps)
qed

theorem socket_dsn_roundtrip_witness:
  "resolveBunSqlTarget (socket_dsn ''app'' ''p@ss/w?rd'' ''dsh'' ''/cloudsql/p:r:i'')
     = Inr (SocketTarget ''/cloudsql/p:r:i'' \<lparr>username = ''app'', password = ''p@ss/w?rd'', database = ''dsh''\<rparr>)"
  by (rule socket_dsn_roundtrip)
     (simp_all add: plain_socket_def utf8_ascii byte_def starts_with_def is_space_def in_range_def)

section \<open>The environment\<close>

lemma restore_other: "k \<notin> fst ` set saved \<Longrightarrow> restore_keys saved e k = e k"
  by (induction saved e rule: restore_keys.induct) auto

lemma hide_spec:
  "hide_keys ks e = (saved, e') \<Longrightarrow> map fst saved = ks \<and> (\<forall>k. e' k = (if k \<in> set ks then None else e k))"
  by (induction ks arbitrary: e saved e') (fastforce split: prod.splits)+

lemma restore_hidden:
  "distinct ks \<Longrightarrow> hide_keys ks e = (saved, e') \<Longrightarrow> k \<in> set ks \<Longrightarrow> restore_keys saved e1 k = e k"
proof (induction ks arbitrary: e saved e' e1)
  case (Cons j ks)
  then obtain sv where sv: "hide_keys ks (e(j := None)) = (sv, e')" "saved = (j, e j) # sv"
    by (auto split: prod.splits)
  from hide_spec [OF sv(1)] have keys: "fst ` set sv = set ks" by (metis set_map)
  show ?case
  proof (cases "k = j")
    case True
    then show ?thesis using sv(2) keys Cons.prems(1) restore_other [of k sv] by simp
  next
    case False
    then show ?thesis using Cons.IH [OF _ sv(1)] Cons.prems sv(2) by simp
  qed
qed simp

text \<open>While the client is made no URL variable is seen; afterwards each of them is what it was, whatever the
  constructor did, and the other variables are as the constructor left them.\<close>

theorem environment_is_restored:
  "\<exists>e0. withIsolatedBunSqlEnv fn e = (fst (fn e0), snd (withIsolatedBunSqlEnv fn e))
      \<and> (\<forall>k. e0 k = (if k \<in> set BUN_SQL_ENV_URL_KEYS then None else e k))
      \<and> (\<forall>k. snd (withIsolatedBunSqlEnv fn e) k = (if k \<in> set BUN_SQL_ENV_URL_KEYS then e k else snd (fn e0) k))"
proof -
  obtain saved e0 where h: "hide_keys BUN_SQL_ENV_URL_KEYS e = (saved, e0)" by fastforce
  have "distinct BUN_SQL_ENV_URL_KEYS" by (simp add: BUN_SQL_ENV_URL_KEYS_def)
  note restored = restore_hidden [OF this h]
  have "fst ` set saved = set BUN_SQL_ENV_URL_KEYS" using hide_spec [OF h] by (metis set_map)
  then have "restore_keys saved e1 k = e1 k" if "k \<notin> set BUN_SQL_ENV_URL_KEYS" for e1 k using restore_other that by metis
  with restored hide_spec [OF h] show ?thesis
    by (intro exI [of _ e0]) (auto simp: withIsolatedBunSqlEnv_def h split: prod.splits)
qed

section \<open>What the messages tell\<close>

text \<open>
  The message for a string without a scheme quotes the text before the first \<open>://\<close>, which may be inside the password.
\<close>

lemma password_in_message:
  "resolveBunSqlTarget ''u:se://cret@/db?host=/s''
     = Inl (''invalid DATABASE_URL: unsupported scheme '' @ show_string ''u:se'' @ '' (want postgresql:// or postgres://)'')"
  by code_simp

end
