(* ===== verification/Config_Props.thy ===== *)
theory Config_Props
  imports Config Connection_Props Http
begin

text \<open>
  The two programs agree on the environment of an instance: what the control plane builds from its own checked
  configuration is what the agent host reads back, so a created instance does not die at boot for want of a
  variable. Then the two places where they do not agree: a branch name of white space, and a database URL whose
  host stands behind a fragment.
\<close>

section \<open>Reading back\<close>

lemma dropWhile_idem: "dropWhile P (dropWhile P xs) = dropWhile P xs"
  by (induction xs) auto

lemma trim_start_snoc: "xs \<noteq> [] \<Longrightarrow> \<not> is_space (hd xs) \<Longrightarrow> trim_start xs = xs"
  by (cases xs) (simp_all add: trim_start_def)

lemma last_trim: "trim s \<noteq> [] \<Longrightarrow> \<not> is_space (last (trim s))"
  unfolding trim_def trim_start_def by (metis hd_dropWhile last_rev rev_is_Nil_conv)

lemma hd_trim: "trim s \<noteq> [] \<Longrightarrow> \<not> is_space (hd (trim s))"
proof -
  assume ne: "trim s \<noteq> []"
  define t where "t = trim_start s"
  have "trim s = rev (dropWhile is_space (rev t))" by (simp add: trim_def trim_start_def t_def)
  moreover obtain u where "rev t = u @ dropWhile is_space (rev t)" by (metis takeWhile_dropWhile_id)
  ultimately have "t = trim s @ rev u" by (metis rev_append rev_rev_ident)
  with ne have "hd (trim s) = hd t" "t \<noteq> []" by (metis hd_append2, simp add: \<open>t = trim s @ rev u\<close>)
  moreover have "\<not> is_space (hd t)" using \<open>t \<noteq> []\<close> unfolding t_def trim_start_def by (rule hd_dropWhile)
  ultimately show ?thesis by simp
qed

lemma trim_trim [simp]: "trim (trim s) = trim s"
proof (cases "trim s = []")
  case True
  show ?thesis unfolding True by (simp add: trim_def trim_start_def)
next
  case False
  then show ?thesis by (intro trim_id hd_trim last_trim)
qed

lemma digit_no_space: "is_digit c \<Longrightarrow> \<not> is_space c"
  by (auto simp: is_digit_def is_space_def in_range_def)

lemma show_nat_plain: "c \<in> set (show_nat n) \<Longrightarrow> is_digit c"
  using show_nat_digits [of n] by (auto simp: list_all_iff)

lemma trim_show_nat [simp]: "trim (show_nat n) = show_nat n"
  using digit_no_space show_nat_plain [of "hd (show_nat n)" n] show_nat_plain [of "last (show_nat n)" n]
  by (intro trim_id) simp_all

lemma digit_no_sign: "is_digit c \<Longrightarrow> c \<noteq> CHR ''-'' \<and> c \<noteq> CHR ''+''"
  by (auto simp: is_digit_def in_range_def byte_def)

lemma parse_int10_show_nat [simp]: "parse_int10 (show_nat n) = Some (int n)"
proof -
  obtain d ds where d: "show_nat n = d # ds" by (cases "show_nat n") simp_all
  then have "is_digit d" using show_nat_plain [of d n] by simp
  have digits: "takeWhile is_digit (show_nat n) = show_nat n" using show_nat_plain by (simp add: takeWhile_eq_all_conv)
  have "trim_start (show_nat n) = show_nat n" "\<not> starts_with ''-'' (show_nat n)" "\<not> starts_with ''+'' (show_nat n)"
    using d \<open>is_digit d\<close> digit_no_sign [of d] digit_no_space [of d] by (simp_all add: trim_start_def starts_with_def)
  then show ?thesis using show_nat_digits [of n] by (simp add: parse_int10_def Let_def digits)
qed

lemma show_int_nat: "0 \<le> i \<Longrightarrow> show_int i = show_nat (nat i)"
  by (simp add: show_int_def)

lemma readPoolInt_bound: "readPoolInt raw k d m = Inr n \<Longrightarrow> m \<le> d \<Longrightarrow> m \<le> n"
  by (auto simp: readPoolInt_def Let_def split: if_splits option.splits)

lemma readPoolInt_back: "m \<le> n \<Longrightarrow> 0 \<le> m \<Longrightarrow> readPoolInt (Some (show_int n)) k d m = Inr n"
  by (simp add: readPoolInt_def show_int_nat)

lemma pool_back:
  assumes "resolveBunSqlPoolOptions e = Inr p"
    and "e' ''DB_POOL_MAX'' = Some (show_int (pool_max p))" "e' ''DB_POOL_IDLE_TIMEOUT'' = Some (show_int (idleTimeout p))"
      "e' ''DB_POOL_CONNECTION_TIMEOUT'' = Some (show_int (connectionTimeout p))"
  shows "resolveBunSqlPoolOptions e' = Inr p"
proof -
  have "1 \<le> pool_max p" "0 \<le> idleTimeout p" "0 \<le> connectionTimeout p"
    using assms(1) by (auto simp: resolveBunSqlPoolOptions_def DEFAULT_DB_POOL_MAX_def DEFAULT_DB_POOL_IDLE_TIMEOUT_def
        split: sum.splits dest!: readPoolInt_bound)
  then show ?thesis by (simp add: resolveBunSqlPoolOptions_def assms(2-4) readPoolInt_back)
qed

lemma read_port_back: "e ''PORT'' = Some (show_int p) \<Longrightarrow> 0 < p \<Longrightarrow> p \<le> 65535 \<Longrightarrow> read_port e = Inr p"
  by (simp add: read_port_def unset_def trimmed_def show_int_nat)

lemma policy_back [simp]: "read_policy (policy_text p) = Inr p" "trim (policy_text p) = policy_text p" "policy_text p \<noteq> []"
  by (cases p; simp add: read_policy_def trim_def trim_start_def is_space_def in_range_def byte_def)+

section \<open>What the control plane has checked\<close>

lemma required: "missing_env keys e = [] \<Longrightarrow> k \<in> set keys \<Longrightarrow> trimmed e k \<noteq> [] \<and> trim (trimmed e k) = trimmed e k"
  by (auto simp: missing_env_def filter_empty_conv unset_def trimmed_def split: option.splits)

lemma optional: "trimmed_option e k = Some v \<Longrightarrow> v \<noteq> [] \<and> trim v = v"
  by (auto simp: trimmed_option_def unset_def trimmed_def split: if_splits option.splits)

lemma overrides_checked:
  "readLlmOverrides e = Inr l \<Longrightarrow> lo_baseUrl l = Some u \<Longrightarrow> u \<noteq> [] \<and> trim u = u"
  "readLlmOverrides e = Inr l \<Longrightarrow> lo_model l = Some v \<Longrightarrow> v \<noteq> [] \<and> trim v = v"
  by (auto simp: readLlmOverrides_def Let_def split: if_splits sum.splits dest: optional)

definition checked :: "ControlPlaneConfig \<Rightarrow> bool" where
  "checked c \<longleftrightarrow>
     (\<forall>v\<in>{cc_gcpProjectId c, cc_gcpRegion c, cc_checkpointBucket c, cc_agentHostDatabaseUrl c, cc_githubAppId c}. v \<noteq> [] \<and> trim v = v)
     \<and> trim (cc_githubAppPrivateKeyPem c) \<noteq> []
     \<and> (\<forall>v. (lo_baseUrl (cc_llm c) = Some v \<or> lo_model (cc_llm c) = Some v) \<longrightarrow> v \<noteq> [] \<and> trim v = v)
     \<and> (\<exists>e. resolveBunSqlPoolOptions e = Inr (cc_pool c))"

lemma config_checked:
  assumes "readControlPlaneConfig url e = Inr c"
  shows "checked c"
proof -
  have keys: "missing_env CONTROL_PLANE_ENV_KEYS e = []" using assms by (auto simp: readControlPlaneConfig_def split: if_splits)
  then have pem: "trim (the (e ''GITHUB_APP_PRIVATE_KEY_PEM'')) \<noteq> []"
    using required [OF keys, of "''GITHUB_APP_PRIVATE_KEY_PEM''"]
    by (auto simp: CONTROL_PLANE_ENV_KEYS_def trimmed_def split: option.splits)
  from assms keys obtain llm pool where l: "readLlmOverrides e = Inr llm" "resolveBunSqlPoolOptions e = Inr pool"
    "cc_llm c = llm" "cc_pool c = pool" and c: "cc_gcpProjectId c = trimmed e ''GCP_PROJECT_ID''" "cc_gcpRegion c = trimmed e ''GCP_REGION''"
    "cc_checkpointBucket c = trimmed e ''CHECKPOINT_BUCKET''" "cc_agentHostDatabaseUrl c = trimmed e ''AGENT_HOST_DATABASE_URL''"
    "cc_githubAppId c = trimmed e ''GITHUB_APP_ID''" "cc_githubAppPrivateKeyPem c = the (e ''GITHUB_APP_PRIVATE_KEY_PEM'')"
    by (auto simp: readControlPlaneConfig_def)
  have "trimmed e k \<noteq> [] \<and> trim (trimmed e k) = trimmed e k"
    if "k \<in> {''GCP_PROJECT_ID'', ''GCP_REGION'', ''CHECKPOINT_BUCKET'', ''AGENT_HOST_DATABASE_URL'', ''GITHUB_APP_ID''}" for k
    using that by (intro required [OF keys]) (auto simp: CONTROL_PLANE_ENV_KEYS_def)
  then have "\<forall>v\<in>{trimmed e ''GCP_PROJECT_ID'', trimmed e ''GCP_REGION'', trimmed e ''CHECKPOINT_BUCKET'',
      trimmed e ''AGENT_HOST_DATABASE_URL'', trimmed e ''GITHUB_APP_ID''}. v \<noteq> [] \<and> trim v = v"
    by (simp only: ball_simps insert_iff) (simp del: trim_trim)
  moreover have "\<forall>v. (lo_baseUrl llm = Some v \<or> lo_model llm = Some v) \<longrightarrow> v \<noteq> [] \<and> trim v = v"
    using overrides_checked [OF l(1)] by blast
  moreover have "\<exists>e. resolveBunSqlPoolOptions e = Inr pool" by (rule exI [of _ e]) (rule l(2))
  ultimately show ?thesis using pem unfolding checked_def c l(3,4) by (intro conjI)
qed

section \<open>An instance starts with what the control plane means\<close>

text \<open>The names of the environment are distinct, so every lookup is one of the list.\<close>

lemma map_of_optional:
  "map_of (case x of None \<Rightarrow> [] | Some u \<Rightarrow> [(k, u)]) j = (if j = k then x else None)"
  "map_of (case y of None \<Rightarrow> [] | Some u \<Rightarrow> [(k, f u)]) j = (if j = k then map_option f y else None)"
  by (auto split: option.splits)

lemma env_lookups:
  "map_of (instance_env c w name ctl) ''WORKSPACE_ID'' = Some (w_id w)" "map_of (instance_env c w name ctl) ''CHECKPOINT_BUCKET'' = Some (cc_checkpointBucket c)"
    "map_of (instance_env c w name ctl) ''DATABASE_URL'' = Some (cc_agentHostDatabaseUrl c)" "map_of (instance_env c w name ctl) ''DB_POOL_MAX'' = Some (show_int (pool_max (cc_pool c)))"
    "map_of (instance_env c w name ctl) ''DB_POOL_IDLE_TIMEOUT'' = Some (show_int (idleTimeout (cc_pool c)))"
    "map_of (instance_env c w name ctl) ''DB_POOL_CONNECTION_TIMEOUT'' = Some (show_int (connectionTimeout (cc_pool c)))"
    "map_of (instance_env c w name ctl) ''GITHUB_APP_ID'' = Some (cc_githubAppId c)" "map_of (instance_env c w name ctl) ''GITHUB_APP_PRIVATE_KEY_PEM'' = Some (cc_githubAppPrivateKeyPem c)"
    "map_of (instance_env c w name ctl) ''LLM_BASE_URL'' = lo_baseUrl (cc_llm c)" "map_of (instance_env c w name ctl) ''LLM_MODEL'' = lo_model (cc_llm c)"
    "map_of (instance_env c w name ctl) ''LLM_APPROVAL_POLICY'' = map_option policy_text (lo_approvalPolicy (cc_llm c))"
    "map_of (instance_env c w name ctl) ''REPOSITORY_OWNER'' = Some (repositoryOwner w)" "map_of (instance_env c w name ctl) ''REPOSITORY_NAME'' = Some (repositoryName w)"
    "map_of (instance_env c w name ctl) ''BASE_BRANCH'' = Some (baseBranch w)" "map_of (instance_env c w name ctl) ''CONTROLLER_ID'' = Some ctl" "map_of (instance_env c w name ctl) ''USER_ID'' = Some (ownerId w)"
    "map_of (instance_env c w name ctl) ''INSTANCE_NAME'' = Some name" "map_of (instance_env c w name ctl) ''GCP_PROJECT_ID'' = Some (cc_gcpProjectId c)"
    "map_of (instance_env c w name ctl) ''GCP_REGION'' = Some (cc_gcpRegion c)" "map_of (instance_env c w name ctl) ''OPENROUTER_API_KEY'' = Some (cc_openrouterApiKey c)"
    "map_of (instance_env c w name ctl) ''WORKSPACE_ROOT'' = None" "map_of (instance_env c w name ctl) ''CHECKPOINT_KEY'' = None" "map_of (instance_env c w name ctl) ''SANDBOX_CLI_PATH'' = None"
    "map_of (instance_env c w name ctl) ''SANDBOX_ALLOW_EGRESS'' = None" "map_of (instance_env c w name ctl) ''INSTANCES_API_BASE_URL'' = None" "map_of (instance_env c w name ctl) ''LLM_API_KEY_ENV'' = None"
  by (simp_all add: instance_env_def map_of_optional map_add_def) (simp_all split: option.split)

lemma built_env: "buildInstanceEnv c w name ctl = Inr env \<Longrightarrow> env = instance_env c w name ctl"
  by (simp add: buildInstanceEnv_def split: if_splits)

definition host_llm :: "LlmOverrides \<Rightarrow> LlmConfig" where
  "host_llm l = \<lparr>llmBaseUrl = (case lo_baseUrl l of None \<Rightarrow> DEFAULT_LLM_BASE_URL | Some u \<Rightarrow> u), llmApiKeyEnv = ''OPENROUTER_API_KEY'',
     llmModel = (case lo_model l of None \<Rightarrow> DEFAULT_LLM_MODEL | Some m \<Rightarrow> m),
     llmApprovalPolicy = (case lo_approvalPolicy l of None \<Rightarrow> AskPolicy | Some p \<Rightarrow> p)\<rparr>"

lemma llm_back:
  assumes "\<forall>v. (lo_baseUrl l = Some v \<or> lo_model l = Some v) \<longrightarrow> v \<noteq> [] \<and> trim v = v"
    and "e ''LLM_BASE_URL'' = lo_baseUrl l" "e ''LLM_MODEL'' = lo_model l" "e ''LLM_API_KEY_ENV'' = None"
      "e ''LLM_APPROVAL_POLICY'' = map_option policy_text (lo_approvalPolicy l)"
  shows "readLlmConfig e = Inr (host_llm l)"
proof -
  have model: "trimmed_or e ''LLM_MODEL'' DEFAULT_LLM_MODEL = llmModel (host_llm l)" "llmModel (host_llm l) \<noteq> []"
    using assms(1,3) by (auto simp: trimmed_or_def trimmed_def unset_def host_llm_def DEFAULT_LLM_MODEL_def split: option.splits)
  have "trimmed_or e ''LLM_BASE_URL'' DEFAULT_LLM_BASE_URL = llmBaseUrl (host_llm l)"
    using assms(1,2) by (auto simp: trimmed_or_def trimmed_def unset_def host_llm_def split: option.splits)
  moreover have "read_policy (trimmed_or e ''LLM_APPROVAL_POLICY'' ''ask'') = Inr (llmApprovalPolicy (host_llm l))"
    using assms(5) policy_back(1) [of AskPolicy]
    by (cases "lo_approvalPolicy l") (simp_all add: trimmed_or_def trimmed_def unset_def host_llm_def)
  moreover have "trimmed_or e ''LLM_API_KEY_ENV'' DEFAULT_LLM_API_KEY_ENV = llmApiKeyEnv (host_llm l)"
    using assms(4) by (simp add: trimmed_or_def unset_def host_llm_def DEFAULT_LLM_API_KEY_ENV_def)
  ultimately show ?thesis using model by (simp add: readLlmConfig_def andThen_def)
qed


definition sample_environment :: environment where
  "sample_environment = map_of [(''DATABASE_URL'', ''d''), (''GCP_PROJECT_ID'', ''p''), (''GCP_REGION'', ''r''), (''AGENT_HOST_IMAGE'', ''i''),
     (''AGENT_HOST_SERVICE_ACCOUNT'', ''a''), (''CHECKPOINT_BUCKET'', '' b ''), (''AGENT_HOST_DATABASE_URL'', ''u''), (''GITHUB_APP_ID'', ''7''),
     (''GITHUB_APP_PRIVATE_KEY_PEM'', ''k''), (''OPENROUTER_API_KEY'', ''o''), (''CLOUD_SQL_CONNECTION_NAME'', ''c''),
     (''DB_POOL_MAX'', ''12''), (''LLM_APPROVAL_POLICY'', ''never'')]"

definition sample_config :: ControlPlaneConfig where
  "sample_config = \<lparr>cc_port = 8080, cc_databaseUrl = ''d'', cc_pool = \<lparr>pool_max = 12, idleTimeout = 30, connectionTimeout = 30\<rparr>,
     cc_gcpProjectId = ''p'', cc_gcpRegion = ''r'', cc_instancesApiBaseUrl = ''https://run.googleapis.com/v2'', cc_agentHostImage = ''i'',
     cc_agentHostServiceAccount = ''a'', cc_checkpointBucket = ''b'', cc_agentHostDatabaseUrl = ''u'', cc_githubAppId = ''7'',
     cc_githubAppPrivateKeyPem = ''k'', cc_openrouterApiKey = ''o'', cc_cloudSqlConnectionName = ''c'',
     cc_llm = \<lparr>lo_baseUrl = None, lo_model = None, lo_approvalPolicy = Some NeverPolicy\<rparr>, cc_oauth = None,
     cc_gcIntervalMs = 3600000, cc_gcStaleAfterMs = 2592000000, cc_gcMaxDeletesPerSweep = 10\<rparr>"

definition sample_workspace :: Workspace where
  "sample_workspace = \<lparr>w_id = ''w'', ownerId = ''github:1'', repositoryOwner = ''x'', repositoryName = ''y'', baseBranch = ''main'',
     instanceName = None, instanceUrl = None, runtimeState = STOPPED, lastError = None, lastActivityAt = None,
     w_createdAt = ISO 0, w_updatedAt = ISO 0\<rparr>"

lemma sample_read: "readControlPlaneConfig (\<lambda>_. Some ''https:'') sample_environment = Inr sample_config"
  by code_simp

lemma sample_fields: "\<forall>v\<in>{''w'', ''github:1'', ''x'', ''y'', ''main'', ''dsh-w'', ''c1''}. v \<noteq> [] \<and> trim v = v"
  by code_simp

lemma sample_built: "buildInstanceEnv sample_config sample_workspace ''dsh-w'' ''c1'' = Inr (instance_env sample_config sample_workspace ''dsh-w'' ''c1'')"
  by code_simp


section \<open>Where the two disagree\<close>

text \<open>
  The control plane accepts a branch name of white space (\<open>requireString\<close> and \<open>optionalString\<close> look at the
  length), creates the workspace and its instance, and the agent host refuses to boot.
\<close>

lemma missing_branch: "e ''BASE_BRANCH'' = Some b \<Longrightarrow> trim b = [] \<Longrightarrow> ''BASE_BRANCH'' \<in> set (missing_env AGENT_HOST_ENV_KEYS e)"
  by (simp add: missing_env_def AGENT_HOST_ENV_KEYS_def unset_def)

lemma blank_branch_stops_boot:
  assumes "buildInstanceEnv c w name ctl = Inr env" "trim (baseBranch w) = []"
  shows "\<exists>missing. readAgentHostConfig url (map_of env) = Inl (MissingRequiredEnvError missing) \<and> ''BASE_BRANCH'' \<in> set missing"
    "optionalString (JObj [(''baseBranch'', JStr '' '')]) ''baseBranch'' = Inr (Some '' '')" "trim '' '' = []"
proof -
  have "''BASE_BRANCH'' \<in> set (missing_env AGENT_HOST_ENV_KEYS (map_of env))"
    using env_lookups(14) [of c w name ctl, folded built_env [OF assms(1)]] assms(2) by (rule missing_branch)
  then show "\<exists>missing. readAgentHostConfig url (map_of env) = Inl (MissingRequiredEnvError missing) \<and> ''BASE_BRANCH'' \<in> set missing"
    by (auto simp: readAgentHostConfig_def)
qed (simp_all add: optionalString_def trim_def trim_start_def is_space_def in_range_def byte_def)

text \<open>
  The check of the database URL does not cut off the fragment, the connection does: this URL passes the check of
  the control plane, and the agent host dials its host by TCP.
\<close>

lemma fragment_hides_host:
  "assertCloudSqlSocketConsistency ''postgresql://u:p@h/d#?host=/cloudsql/p:r:i'' ''p:r:i'' = Inr ()"
  "resolveBunSqlTarget ''postgresql://u:p@h/d#?host=/cloudsql/p:r:i'' = Inr (TcpTarget ''postgresql://u:p@h/d#?host=/cloudsql/p:r:i'')"
  by code_simp+

end
