(* ===== verification/Sse_Client.thy ===== *)
theory Sse_Client
  imports Sse_Props Config_Props
begin

text \<open>
  The reader of the event stream in the browser (\<open>apps/control-plane/public/sse.js\<close>), and the stream from the event log to
  the reader: however the text is cut on the way, the reader gets the events of the log.
\<close>

section \<open>The reader\<close>

text \<open>The fields read since the last blank line, and the highest number dispatched.\<close>

record sse_reader =
  sr_id :: "string option"
  sr_event :: "string option"
  sr_dataLines :: "string list"
  sr_lastSeq :: int

record sse_parser =
  sp_buffer :: string
  sp_reader :: sse_reader

datatype sse_data = Parsed json | RawText string

record client_event =
  cv_seq :: "nat option"
  cv_eventType :: "string option"
  cv_data :: sse_data
  cv_rawData :: string

record sse_out =
  so_events :: "client_event list"
  so_gaps :: "(int \<times> nat) list"
  so_duplicates :: nat

definition no_out :: sse_out where
  "no_out = \<lparr>so_events = [], so_gaps = [], so_duplicates = 0\<rparr>"

definition createSseParser :: sse_parser where
  "createSseParser = \<lparr>sp_buffer = [], sp_reader = \<lparr>sr_id = None, sr_event = None, sr_dataLines = [], sr_lastSeq = -1\<rparr>\<rparr>"

definition freshPending :: "sse_reader \<Rightarrow> sse_reader" where
  "freshPending r = r\<lparr>sr_id := None, sr_event := None, sr_dataLines := []\<rparr>"

definition data_value :: "string \<Rightarrow> sse_data" where
  "data_value raw = (if raw = [] then RawText [] else case json_parse raw of Some v \<Rightarrow> Parsed v | None \<Rightarrow> RawText raw)"

definition pending_seq :: "sse_reader \<Rightarrow> nat option" where
  "pending_seq r = (case sr_id r of None \<Rightarrow> None | Some i \<Rightarrow> if i = [] then None else seq_number i)"

definition dispatchPending :: "sse_reader \<times> sse_out \<Rightarrow> sse_reader \<times> sse_out" where
  "dispatchPending x = (case x of (r, out) \<Rightarrow>
     (let raw = join_with [newline] (sr_dataLines r);
          ev = \<lparr>cv_seq = pending_seq r, cv_eventType = sr_event r, cv_data = data_value raw, cv_rawData = raw\<rparr>;
          sent = out\<lparr>so_events := so_events out @ [ev]\<rparr> in
      if sr_id r = None \<and> sr_event r = None \<and> sr_dataLines r = [] then (freshPending r, out)
      else (case pending_seq r of
          None \<Rightarrow> (freshPending r, sent)
        | Some n \<Rightarrow>
            if int n \<le> sr_lastSeq r then (freshPending r, out\<lparr>so_duplicates := Suc (so_duplicates out)\<rparr>)
            else ((freshPending r)\<lparr>sr_lastSeq := int n\<rparr>,
              if sr_lastSeq r \<noteq> -1 \<and> int n \<noteq> sr_lastSeq r + 1
              then sent\<lparr>so_gaps := so_gaps out @ [(sr_lastSeq r + 1, n)]\<rparr> else sent))))"

definition sse_field :: "string \<Rightarrow> string \<times> string" where
  "sse_field line =
     (let v = tl (dropWhile (\<lambda>c. c \<noteq> CHR '':'') line) in
      (takeWhile (\<lambda>c. c \<noteq> CHR '':'') line, if starts_with '' '' v then tl v else v))"

definition sse_line :: "string \<Rightarrow> sse_reader \<times> sse_out \<Rightarrow> sse_reader \<times> sse_out" where
  "sse_line rawLine x = (case x of (r, out) \<Rightarrow>
     (let line = (if rawLine \<noteq> [] \<and> last rawLine = CHR 0x0D then butlast rawLine else rawLine) in
      if line = [] then dispatchPending (r, out)
      else if starts_with '':'' line then (r, out)
      else (case sse_field line of (field, v) \<Rightarrow>
        if field = ''id'' then (r\<lparr>sr_id := Some v\<rparr>, out)
        else if field = ''event'' then (r\<lparr>sr_event := Some v\<rparr>, out)
        else if field = ''data'' then (r\<lparr>sr_dataLines := sr_dataLines r @ [v]\<rparr>, out)
        else (r, out))))"

definition parseSseChunks :: "sse_parser \<Rightarrow> string \<Rightarrow> sse_parser \<times> sse_out" where
  "parseSseChunks p chunk =
     (let parts = split_at newline (sp_buffer p @ chunk) in
      case fold sse_line (butlast parts) (sp_reader p, no_out) of
        (r, out) \<Rightarrow> (\<lparr>sp_buffer = last parts, sp_reader = r\<rparr>, out))"

text \<open>What a page has been given after a list of chunks.\<close>

definition both_outs :: "sse_out \<Rightarrow> sse_out \<Rightarrow> sse_out" where
  "both_outs a b = \<lparr>so_events = so_events a @ so_events b, so_gaps = so_gaps a @ so_gaps b,
     so_duplicates = so_duplicates a + so_duplicates b\<rparr>"

fun read_chunks :: "sse_parser \<Rightarrow> string list \<Rightarrow> sse_parser \<times> sse_out" where
  "read_chunks p [] = (p, no_out)"
| "read_chunks p (c # cs) =
     (case parseSseChunks p c of (p', out) \<Rightarrow> case read_chunks p' cs of (q, rest) \<Rightarrow> (q, both_outs out rest))"

definition resumed :: "nat \<Rightarrow> sse_parser" where
  "resumed cursor = createSseParser\<lparr>sp_reader := (sp_reader createSseParser)\<lparr>sr_lastSeq := int cursor - 1\<rparr>\<rparr>"

section \<open>The cuts do not matter\<close>

lemma both_outs_simps [simp]: "both_outs no_out a = a" "both_outs a no_out = a" "both_outs (both_outs a b) c = both_outs a (both_outs b c)"
  by (simp_all add: both_outs_def no_out_def)

lemma line_adds: "sse_line l (r, both_outs a b) = map_prod id (both_outs a) (sse_line l (r, b))"
  by (auto simp: sse_line_def dispatchPending_def both_outs_def Let_def split: prod.splits option.splits)

lemma lines_add: "fold sse_line ls (r, both_outs a b) = map_prod id (both_outs a) (fold sse_line ls (r, b))"
proof (induction ls arbitrary: r b)
  case (Cons l ls)
  obtain r' o' where "sse_line l (r, b) = (r', o')" by fastforce
  with Cons line_adds [of l r a b] show ?case by simp
qed simp

lemma split_append: "split_at c (x @ y) = butlast (split_at c x) @ split_at c (last (split_at c x) @ y)"
proof (induction x)
  case (Cons d x)
  obtain p ps where p: "split_at c x = p # ps" by (cases "split_at c x") auto
  with Cons show ?case by (cases "ps = []") auto
qed simp

lemma parse_append:
  "parseSseChunks p (a @ b) =
     (case parseSseChunks p a of (q, x) \<Rightarrow> case parseSseChunks q b of (q', y) \<Rightarrow> (q', both_outs x y))"
proof -
  let ?s = "split_at newline (sp_buffer p @ a)"
  let ?t = "split_at newline (last ?s @ b)"
  obtain r x where f: "fold sse_line (butlast ?s) (sp_reader p, no_out) = (r, x)" by fastforce
  obtain r' y where g: "fold sse_line (butlast ?t) (r, no_out) = (r', y)" by fastforce
  have "split_at newline (sp_buffer p @ a @ b) = butlast ?s @ ?t"
    using split_append [of newline "sp_buffer p @ a" b] by simp
  then have "parseSseChunks p (a @ b) = (case fold sse_line (butlast ?t) (r, x) of (r, out) \<Rightarrow> (\<lparr>sp_buffer = last ?t, sp_reader = r\<rparr>, out))"
    using f by (simp add: parseSseChunks_def Let_def butlast_append last_append)
  also have "fold sse_line (butlast ?t) (r, x) = (r', both_outs x y)"
    using lines_add [of "butlast ?t" r x no_out] g by simp
  finally show ?thesis using f g by (simp add: parseSseChunks_def Let_def)
qed

lemma parse_nothing: "newline \<notin> set (sp_buffer p) \<Longrightarrow> parseSseChunks p [] = (p, no_out)"
  by (simp add: parseSseChunks_def split_at_no)

lemma parse_buffer: "newline \<notin> set (sp_buffer (fst (parseSseChunks p c)))"
  using split_at_pieces [OF last_in_set [OF split_at_ne]] by (auto simp: parseSseChunks_def Let_def split: prod.split)

lemma read_concat: "newline \<notin> set (sp_buffer p) \<Longrightarrow> read_chunks p cs = parseSseChunks p (concat cs)"
proof (induction cs arbitrary: p)
  case (Cons c cs)
  with parse_buffer [of p c] show ?case by (simp add: parse_append case_prod_beta)
qed (simp add: parse_nothing)

section \<open>One event\<close>

definition printable :: "string \<Rightarrow> bool" where
  "printable s \<longleftrightarrow> (\<forall>c \<in> set s. 0x20 \<le> byte c)"

lemma printable_simps [simp]: "printable []" "printable (c # s) \<longleftrightarrow> 0x20 \<le> byte c \<and> printable s"
    "printable (s @ t) \<longleftrightarrow> printable s \<and> printable t"
  by (auto simp: printable_def)

lemma printable_no_break: "printable s \<Longrightarrow> newline \<notin> set s \<and> CHR 0x0D \<notin> set s"
  by (auto simp: printable_def byte_def)

lemma printable_nat: "printable (show_nat n)"
  using show_nat_digits [of n] by (auto simp: printable_def list_all_iff is_digit_def in_range_def)

lemma printable_hex: "printable [hex_char n]"
proof -
  have "list_all (\<lambda>n. 0x20 \<le> byte (hex_char n)) [0..<16]" by code_simp
  moreover have "hex_char n = hex_char (n mod 16)" by (simp add: hex_char_def)
  ultimately show ?thesis by (simp add: list_all_iff)
qed

lemma printable_char: "printable (show_char c)"
proof (cases "byte c < 0x20")
  case True
  then show ?thesis using printable_hex unfolding show_char_def by (auto simp: byte_def)
next
  case False
  then show ?thesis by (simp add: show_char_def) (simp add: byte_def)
qed

lemma printable_string: "printable (show_string s)"
proof -
  have "printable (concat (map show_char s))" by (induction s) (simp_all add: printable_char)
  then show ?thesis by (simp add: show_string_def) (simp add: byte_def)
qed

lemma printable_join: "printable sep \<Longrightarrow> list_all printable ss \<Longrightarrow> printable (join_with sep ss)"
  by (induction sep ss rule: join_with.induct) auto

lemma printable_json: "plain v \<Longrightarrow> printable (json_show v)"
proof (induction v)
  case (JArr vs)
  then have "list_all printable (map json_show vs)" by (auto simp: list_all_iff)
  then have "printable (join_with '','' (map json_show vs))" by (rule printable_join [rotated]) (simp add: byte_def)
  then show ?case by (simp add: byte_def)
next
  case (JObj fs)
  have "printable (show_member p)" if "p \<in> set fs" for p
    using JObj that printable_string by (cases p) (fastforce simp: show_member_def list_all_iff byte_def)
  then have "list_all printable (map show_member fs)" by (auto simp: list_all_iff)
  then have "printable (join_with '','' (map show_member fs))" by (rule printable_join [rotated]) (simp add: byte_def)
  then show ?case by (simp add: show_member_def) (simp add: byte_def)
qed (auto simp: printable_string show_int_def printable_nat byte_def)

lemma digits_prefix: "starts_with [c, d] (show_nat n) \<Longrightarrow> is_digit d"
proof -
  assume "starts_with [c, d] (show_nat n)"
  then have "take 2 (show_nat n) = [c, d]" by (simp add: starts_with_def numeral_2_eq_2)
  then have "d \<in> set (show_nat n)" by (metis in_set_takeD list.set_intros(1,2))
  then show ?thesis using show_nat_digits [of n] by (auto simp: list_all_iff)
qed

lemma seq_number_shown: "seq_number (show_nat n) = Some n"
proof -
  have radix: "\<not> starts_with [CHR ''0'', d] (show_nat n)" if "\<not> is_digit d" for d using digits_prefix that by blast
  have letters: "\<not> is_digit (CHR ''x'')" "\<not> is_digit (CHR ''X'')" "\<not> is_digit (CHR ''o'')" "\<not> is_digit (CHR ''O'')"
      "\<not> is_digit (CHR ''b'')" "\<not> is_digit (CHR ''B'')" by code_simp+
  have sign: "\<not> starts_with ''-'' (show_nat n)" "\<not> starts_with ''+'' (show_nat n)"
  proof -
    obtain d ds where d: "show_nat n = d # ds" by (cases "show_nat n") auto
    with show_nat_digits [of n] have "is_digit d" by simp
    moreover have "\<not> is_digit (CHR ''-'')" "\<not> is_digit (CHR ''+'')" by code_simp+
    ultimately have "d \<noteq> CHR ''-''" "d \<noteq> CHR ''+''" by blast+
    with d show "\<not> starts_with ''-'' (show_nat n)" "\<not> starts_with ''+'' (show_nat n)" by (simp_all add: starts_with_def)
  qed
  have "takeWhile digit (show_nat n) = show_nat n"
    using show_nat_digits [of n] take_digits [of "show_nat n" "[]"] by (simp add: stops_def del: takeWhile_eq_all_conv)
  moreover have "parse_exponent [] = Some (0, [])" using stops_number [of "[]"] by (simp add: stops_def)
  moreover have "digits_value (show_nat n) = int n" using show_nat_digits [of n] by (simp add: digits_value_nat)
  ultimately have "decimal_value (show_nat n) = Some (int n)"
    by (simp add: decimal_value_def Let_def starts_with_def del: takeWhile_eq_all_conv)
  with radix letters sign show ?thesis by (simp add: seq_number_def Let_def)
qed

lemma field_read: "CHR '':'' \<notin> set f \<Longrightarrow> sse_field (f @ '': '' @ v) = (f, v)"
  by (simp add: sse_field_def Let_def starts_with_def takeWhile_append dropWhile_append)

definition line_safe :: "string \<Rightarrow> bool" where
  "line_safe s \<longleftrightarrow> newline \<notin> set s \<and> (s = [] \<or> last s \<noteq> CHR 0x0D)"

lemma printable_safe: "printable s \<Longrightarrow> line_safe s"
  unfolding line_safe_def by (metis printable_no_break last_in_set)

lemma line_read:
  assumes "CHR '':'' \<notin> set f" "f \<noteq> []" "line_safe v"
  shows "sse_line (f @ '': '' @ v) (r, out) =
     (if f = ''id'' then (r\<lparr>sr_id := Some v\<rparr>, out) else if f = ''event'' then (r\<lparr>sr_event := Some v\<rparr>, out)
      else if f = ''data'' then (r\<lparr>sr_dataLines := sr_dataLines r @ [v]\<rparr>, out) else (r, out))"
proof -
  have "last (f @ '': '' @ v) \<noteq> CHR 0x0D" using assms(3) by (cases "v = []") (auto simp: line_safe_def)
  moreover have "\<not> starts_with '':'' (f @ '': '' @ v)" using assms(1,2) by (cases f) (auto simp: starts_with_def)
  ultimately show ?thesis using assms(2) field_read [OF assms(1), of v] by (auto simp: sse_line_def)
qed

text \<open>What the reader makes of an event of the log.\<close>

definition seen :: "SessionEvent \<Rightarrow> client_event" where
  "seen e = \<lparr>cv_seq = Some (seq e), cv_eventType = Some (eventType e), cv_data = Parsed (data e), cv_rawData = json_show (data e)\<rparr>"

definition clean :: "sse_reader \<Rightarrow> bool" where
  "clean r \<longleftrightarrow> sr_id r = None \<and> sr_event r = None \<and> sr_dataLines r = []"

definition sendable :: "SessionEvent \<Rightarrow> bool" where
  "sendable e \<longleftrightarrow> line_safe (eventType e) \<and> plain (data e)"

lemma event_read:
  assumes "clean r" "sendable e" "int (seq e) = sr_lastSeq r + 1"
  shows "parseSseChunks \<lparr>sp_buffer = [], sp_reader = r\<rparr> (formatSseEvent e)
    = (\<lparr>sp_buffer = [], sp_reader = r\<lparr>sr_lastSeq := int (seq e)\<rparr>\<rparr>, no_out\<lparr>so_events := [seen e]\<rparr>)"
proof -
  let ?id = "show_nat (seq e)" and ?data = "json_show (data e)"
  have plain: "plain (data e)" and safe: "line_safe (eventType e)" using assms(2) by (simp_all add: sendable_def)
  have breaks: "newline \<notin> set ?id" "newline \<notin> set ?data" "line_safe ?id" "line_safe ?data"
    using printable_no_break [OF printable_nat [of "seq e"]] printable_no_break [OF printable_json [OF plain]]
      printable_safe [OF printable_nat [of "seq e"]] printable_safe [OF printable_json [OF plain]] by simp_all
  have cut: "split_at newline (formatSseEvent e) = [''id: '' @ ?id, ''event: '' @ eventType e, ''data: '' @ ?data, [], []]"
  proof -
    have "newline \<notin> set (''id: '' @ ?id)" "newline \<notin> set (''event: '' @ eventType e)" "newline \<notin> set (''data: '' @ ?data)"
      using breaks safe by (auto simp: line_safe_def)
    then have "split_at newline ((''id: '' @ ?id) @ newline # (''event: '' @ eventType e) @ newline # (''data: '' @ ?data) @ newline # [newline])
        = [''id: '' @ ?id, ''event: '' @ eventType e, ''data: '' @ ?data, [], []]"
      by (simp only: split_at_append split_at.simps if_True simp_thms)
    then show ?thesis by (simp add: formatSseEvent_def)
  qed
  have id_line: "sse_line (''id: '' @ ?id) (r, no_out) = (r\<lparr>sr_id := Some ?id\<rparr>, no_out)"
    using line_read [of "''id''" ?id r no_out] breaks by simp
  have event_line: "sse_line (''event: '' @ eventType e) (q, no_out) = (q\<lparr>sr_event := Some (eventType e)\<rparr>, no_out)" for q
    using line_read [of "''event''" "eventType e" q no_out] safe by simp
  have data_line: "sse_line (''data: '' @ ?data) (q, no_out) = (q\<lparr>sr_dataLines := sr_dataLines q @ [?data]\<rparr>, no_out)" for q
    using line_read [of "''data''" ?data q no_out] breaks by simp
  have "?data \<noteq> []" by (rule shown_head [OF plain]) simp
  then have parsed: "data_value ?data = Parsed (data e)" using json_roundtrip [OF plain] by (simp add: data_value_def)
  let ?q = "r\<lparr>sr_id := Some ?id, sr_event := Some (eventType e), sr_dataLines := [?data]\<rparr>"
  have "pending_seq ?q = Some (seq e)" by (simp add: pending_seq_def seq_number_shown)
  then have "sse_line [] (?q, no_out) = (r\<lparr>sr_lastSeq := int (seq e)\<rparr>, no_out\<lparr>so_events := [seen e]\<rparr>)"
    using assms(1,3) parsed by (simp add: sse_line_def dispatchPending_def freshPending_def seen_def clean_def no_out_def Let_def)
  then have blank: "sse_line [] (?q, no_out) = (r\<lparr>sr_lastSeq := int (seq e)\<rparr>, no_out\<lparr>so_events := [seen e]\<rparr>)" by simp
  have filled: "r\<lparr>sr_id := Some ?id, sr_event := Some (eventType e), sr_dataLines := sr_dataLines (r\<lparr>sr_id := Some ?id, sr_event := Some (eventType e)\<rparr>) @ [?data]\<rparr> = ?q"
    using assms(1) by (simp add: clean_def)
  have "fold sse_line [''id: '' @ ?id, ''event: '' @ eventType e, ''data: '' @ ?data, []] (r, no_out)
      = (r\<lparr>sr_lastSeq := int (seq e)\<rparr>, no_out\<lparr>so_events := [seen e]\<rparr>)"
    by (simp only: fold_simps id_line event_line data_line filled blank)
  moreover have "butlast [''id: '' @ ?id, ''event: '' @ eventType e, ''data: '' @ ?data, [], []]
      = [''id: '' @ ?id, ''event: '' @ eventType e, ''data: '' @ ?data, []]" by simp
  ultimately have "fold sse_line (butlast (split_at newline (formatSseEvent e))) (r, no_out)
      = (r\<lparr>sr_lastSeq := int (seq e)\<rparr>, no_out\<lparr>so_events := [seen e]\<rparr>)" by (simp only: cut)
  moreover have "last (split_at newline (formatSseEvent e)) = []" unfolding cut by simp
  ultimately show ?thesis by (simp add: parseSseChunks_def Let_def)
qed

lemma comment_read:
  assumes "clean r" "newline \<notin> set c"
  shows "parseSseChunks \<lparr>sp_buffer = [], sp_reader = r\<rparr> ('':'' @ c @ [newline, newline]) = (\<lparr>sp_buffer = [], sp_reader = r\<rparr>, no_out)"
proof -
  have "split_at newline (('':'' @ c) @ newline # [newline]) = ['':'' @ c, [], []]"
    using assms(2) by (subst split_at_append) simp_all
  then have "split_at newline ('':'' @ c @ [newline, newline]) = ['':'' @ c, [], []]" by simp
  moreover have "sse_line ('':'' @ c) (r, no_out) = (r, no_out)"
    by (cases c rule: rev_cases) (auto simp: sse_line_def Let_def starts_with_def)
  moreover have "sse_line [] (r, no_out) = (r, no_out)"
    using assms(1) by (simp add: sse_line_def dispatchPending_def freshPending_def clean_def Let_def)
  ultimately show ?thesis by (simp add: parseSseChunks_def Let_def)
qed

section \<open>The whole stream\<close>

definition comment :: "string \<Rightarrow> bool" where
  "comment x \<longleftrightarrow> (\<exists>c. newline \<notin> set c \<and> x = '':'' @ c @ [newline, newline])"

definition tame :: "sse \<Rightarrow> bool" where
  "tame q \<longleftrightarrow> (\<forall>x \<in> set (sse_sent q). starts_with '':'' x \<longrightarrow> comment x)"

lemma comments_sent [simp]: "comment ('': ping'' @ [newline, newline])" "comment ('': stream open'' @ [newline, newline])"
proof -
  show "comment ('': ping'' @ [newline, newline])" unfolding comment_def by (intro exI [of _ "'' ping''"]) simp
  show "comment ('': stream open'' @ [newline, newline])" unfolding comment_def by (intro exI [of _ "'' stream open''"]) simp
qed

lemma tame_write: "tame q \<Longrightarrow> starts_with '':'' x \<longrightarrow> comment x \<Longrightarrow> tame (sse_write x q)"
  by (simp add: tame_def sse_write_def)

lemma tame_fields [simp]: "tame (q\<lparr>sse_lastEmit := t\<rparr>) = tame q" "tame (q\<lparr>sse_closed := b\<rparr>) = tame q" "tame (q\<lparr>sse_next := n\<rparr>) = tame q"
  by (simp_all add: tame_def)

lemma tame_emit: "tame q \<Longrightarrow> tame (sse_emit now es q)"
  by (induction now es q rule: sse_emit.induct) (simp_all add: tame_write)

lemma tame_poll: "tame q \<Longrightarrow> tame (fst (sse_poll i now q d))"
  by (auto simp: sse_poll_def tame_emit split: prod.split sum.split)

lemma tame_tick: "tame q \<Longrightarrow> tame (fst (sse_tick i hb now q d))"
  using tame_write [OF _ comments_sent(1) [THEN impI]] by (simp add: sse_tick_def tame_poll)

lemma tame_run: "tame q \<Longrightarrow> tame (sse_run i hb es q)"
  by (induction i hb es q rule: sse_run.induct) (simp_all add: tame_tick)

lemma tame_start: "tame (fst (sse_start i cursor now d))"
proof -
  have "tame (fst (sse_poll i now \<lparr>sse_next = cursor, sse_lastEmit = now, sse_sent = [], sse_closed = False\<rparr> d))"
    by (rule tame_poll) (simp add: tame_def)
  then show ?thesis using tame_write [OF _ comments_sent(2) [THEN impI]] by (simp add: sse_start_def case_prod_beta)
qed

lemma items_read:
  assumes "\<forall>x \<in> set xs. starts_with '':'' x \<longrightarrow> comment x"
    and "filter (\<lambda>x. \<not> starts_with '':'' x) xs = map formatSseEvent es" "\<forall>e \<in> set es. sendable e"
    and "clean r" "map (int \<circ> seq) es = map (\<lambda>k. sr_lastSeq r + 1 + int k) [0..<length es]"
  shows "\<exists>r'. parseSseChunks \<lparr>sp_buffer = [], sp_reader = r\<rparr> (concat xs)
    = (\<lparr>sp_buffer = [], sp_reader = r'\<rparr>, no_out\<lparr>so_events := map seen es\<rparr>)"
  using assms
proof (induction xs arbitrary: es r)
  case Nil
  then show ?case using parse_nothing [of "\<lparr>sp_buffer = [], sp_reader = r\<rparr>"] by (simp add: no_out_def)
next
  case (Cons x xs)
  show ?case
  proof (cases "starts_with '':'' x")
    case True
    with Cons.prems obtain c where c: "newline \<notin> set c" "x = '':'' @ c @ [newline, newline]" by (auto simp: comment_def)
    from Cons.IH [of es r] Cons.prems True obtain r' where
      "parseSseChunks \<lparr>sp_buffer = [], sp_reader = r\<rparr> (concat xs) = (\<lparr>sp_buffer = [], sp_reader = r'\<rparr>, no_out\<lparr>so_events := map seen es\<rparr>)"
      by auto
    with comment_read [OF Cons.prems(4) c(1)] show ?thesis
      by (simp only: concat.simps parse_append c(2) prod.case both_outs_simps) blast
  next
    case False
    with Cons.prems(2) obtain e es' where e: "es = e # es'" "x = formatSseEvent e"
        "filter (\<lambda>x. \<not> starts_with '':'' x) xs = map formatSseEvent es'" by (cases es) auto
    have seqs: "int (seq e) = sr_lastSeq r + 1" "map (int \<circ> seq) es' = map (\<lambda>k. int (seq e) + 1 + int k) [0..<length es']"
    proof -
      have nth: "int (seq (es ! k)) = sr_lastSeq r + 1 + int k" if "k < length es" for k
        using arg_cong [OF Cons.prems(5), of "\<lambda>ks. ks ! k"] that by simp
      show first: "int (seq e) = sr_lastSeq r + 1" using nth [of 0] e(1) by simp
      show "map (int \<circ> seq) es' = map (\<lambda>k. int (seq e) + 1 + int k) [0..<length es']"
        using nth [of "Suc k" for k] first e(1) by (intro nth_equalityI) simp_all
    qed
    let ?r = "r\<lparr>sr_lastSeq := int (seq e)\<rparr>"
    have "clean ?r" using Cons.prems(4) by (simp add: clean_def)
    moreover have "\<forall>x \<in> set xs. starts_with '':'' x \<longrightarrow> comment x" "\<forall>e \<in> set es'. sendable e" using Cons.prems(1,3) e(1) by simp_all
    ultimately have "\<exists>r'. parseSseChunks \<lparr>sp_buffer = [], sp_reader = ?r\<rparr> (concat xs)
        = (\<lparr>sp_buffer = [], sp_reader = r'\<rparr>, no_out\<lparr>so_events := map seen es'\<rparr>)"
      using e(3) seqs(2) by (intro Cons.IH) (simp_all add: o_def)
    then obtain r' where
      "parseSseChunks \<lparr>sp_buffer = [], sp_reader = ?r\<rparr> (concat xs) = (\<lparr>sp_buffer = [], sp_reader = r'\<rparr>, no_out\<lparr>so_events := map seen es'\<rparr>)" by blast
    moreover have "parseSseChunks \<lparr>sp_buffer = [], sp_reader = r\<rparr> x = (\<lparr>sp_buffer = [], sp_reader = ?r\<rparr>, no_out\<lparr>so_events := [seen e]\<rparr>)"
      using event_read [OF Cons.prems(4) _ seqs(1)] Cons.prems(3) e by simp
    moreover have "both_outs (no_out\<lparr>so_events := [seen e]\<rparr>) (no_out\<lparr>so_events := map seen es'\<rparr>) = no_out\<lparr>so_events := map seen es\<rparr>"
      by (simp add: both_outs_def no_out_def e(1))
    ultimately show ?thesis by (simp only: concat.simps parse_append prod.case) blast
  qed
qed

lemma rest_numbers: "contiguous i d \<Longrightarrow> map (int \<circ> seq \<circ> rowToEvent) (drop c (events_of i d))
    = map (\<lambda>k. int c + int k) [0..<length (drop c (events_of i d))]"
proof -
  assume "contiguous i d"
  then have "map ev_seq (events_of i d) ! k = [0..<length (events_of i d)] ! k" for k by (simp add: contiguous_def)
  then have "k < length (events_of i d) \<Longrightarrow> ev_seq (events_of i d ! k) = k" for k by (metis nth_map nth_upt add_0 diff_zero)
  then show ?thesis by (intro nth_equalityI) (simp_all add: rowToEvent_def)
qed

text \<open>C40: from the table to the page: whatever is appended while the stream runs, however the pings fall, however the network cuts
  what was sent, and wherever it breaks off, a browser that reads from the cursor on has been given exactly the events of the
  log from there, each once, in order, with its type and its data, and sees no gap and no duplicate; and all of
  them when everything has arrived.\<close>

theorem browser_reads_log:
  assumes "readable d0" "\<forall>d \<in> set (d0 # served es). contiguous i d"
    "successively (\<lambda>d d'. prefix (events_of i d) (events_of i d')) (d0 # served es)"
    and "L = map rowToEvent (drop cursor (events_of i (last (d0 # served es))))" "\<forall>e \<in> set L. sendable e"
    and "S = concat (sse_sent (sse_run i hb es (fst (sse_start i cursor now d0))))" "prefix (concat chunks) S"
    and "read_chunks (resumed cursor) chunks = (p, out)"
  shows "so_gaps out = [] \<and> so_duplicates out = 0 \<and> prefix (so_events out) (map seen L)
    \<and> (concat chunks = S \<longrightarrow> so_events out = map seen L)"
proof -
  let ?q = "sse_run i hb es (fst (sse_start i cursor now d0))"
  have "tame ?q" by (rule tame_run) (rule tame_start)
  moreover have "frames ?q = map formatSseEvent L" using stream_delivers_log [OF assms(1-3), of hb cursor now] assms(4) by simp
  moreover have "contiguous i (last (d0 # served es))" by (rule bspec [OF assms(2)], rule last_in_set) simp
  ultimately have "\<exists>r'. parseSseChunks (resumed cursor) S = (\<lparr>sp_buffer = [], sp_reader = r'\<rparr>, no_out\<lparr>so_events := map seen L\<rparr>)"
    unfolding assms(6) resumed_def createSseParser_def sse_parser.simps
    using assms(5) rest_numbers [of i "last (d0 # served es)" cursor]
    by (intro items_read) (simp_all add: tame_def frames_def clean_def assms(4) o_def)
  then obtain r' where all: "parseSseChunks (resumed cursor) S = (\<lparr>sp_buffer = [], sp_reader = r'\<rparr>, no_out\<lparr>so_events := map seen L\<rparr>)" by blast
  obtain t where t: "S = concat chunks @ t" using assms(7) by (auto simp: prefix_def)
  have some: "parseSseChunks (resumed cursor) (concat chunks) = (p, out)"
    using assms(8) read_concat [of "resumed cursor" chunks] by (simp add: resumed_def createSseParser_def)
  then obtain q x where "parseSseChunks p t = (q, x)" "no_out\<lparr>so_events := map seen L\<rparr> = both_outs out x"
    using all unfolding t parse_append by (auto split: prod.splits)
  then have "so_gaps out = []" "so_duplicates out = 0" "map seen L = so_events out @ so_events x"
    by (auto simp: both_outs_def no_out_def)
  moreover have "so_events out = map seen L" if "concat chunks = S" using all some that by (auto simp: no_out_def)
  ultimately show ?thesis by simp
qed

text \<open>Its witness: an event arrives between two polls, then the database fails; what was sent arrives in two pieces.\<close>

definition sample_ticks :: "sse_event list" where
  "sample_ticks = [Tick 20000 (sample_log [''a'', ''b''] []), Tick 20500 (sample_log [''a'', ''b'', ''c''] [True])]"

definition sample_stream :: string where
  "sample_stream = concat (sse_sent (sse_run ''s'' 15000 sample_ticks (fst (sse_start ''s'' 1 0 (sample_log [''a''] [])))))"

lemma sample_served: "served sample_ticks = [sample_log [''a'', ''b''] []]"
  by (simp add: sample_ticks_def sample_log_def empty_db_def readable_def)

lemma sample_tail: "drop 1 (events_of ''s'' (last (sample_log [''a''] [] # served sample_ticks)))
    = [\<lparr>ev_session = ''s'', ev_seq = 1, ev_type = ''user_message'', ev_time = 0, ev_data = JStr ''b'', ev_sources = None, ev_surface = None\<rparr>]"
  unfolding sample_served by (simp add: sample_log_def empty_db_def events_of_def enumerate_simps)

lemma sample_column: "decodeColumn (JStr ''b'') = JStr ''b''"
  by code_simp

theorem browser_reads_log_witness:
  "so_events (snd (read_chunks (resumed 1) [take 20 sample_stream, drop 20 sample_stream]))
     = [\<lparr>cv_seq = Some 1, cv_eventType = Some ''user_message'', cv_data = Parsed (JStr ''b''), cv_rawData = json_show (JStr ''b'')\<rparr>]"
proof -
  let ?L = "map rowToEvent (drop 1 (events_of ''s'' (last (sample_log [''a''] [] # served sample_ticks))))"
  have "readable (sample_log [''a''] [])" by (simp add: sample_log_def empty_db_def readable_def)
  moreover have "\<forall>d \<in> set (sample_log [''a''] [] # served sample_ticks). contiguous ''s'' d"
    "successively (\<lambda>d d'. prefix (events_of ''s'' d) (events_of ''s'' d')) (sample_log [''a''] [] # served sample_ticks)"
    unfolding sample_served by (simp_all add: sample_log_def empty_db_def contiguous_def events_of_def enumerate_simps)
  moreover have "\<forall>e \<in> set ?L. sendable e"
    unfolding sample_tail by (simp add: rowToEvent_def sendable_def line_safe_def byte_def sample_column)
  ultimately show ?thesis
    using browser_reads_log [of "sample_log [''a''] []" sample_ticks "''s''" ?L 1 sample_stream 15000 0
      "[take 20 sample_stream, drop 20 sample_stream]" "fst (read_chunks (resumed 1) [take 20 sample_stream, drop 20 sample_stream])"
      "snd (read_chunks (resumed 1) [take 20 sample_stream, drop 20 sample_stream])"]
    unfolding sample_tail by (simp add: sample_stream_def rowToEvent_def seen_def sample_column)
qed

end
