(* ===== verification/Auth_Props.thy ===== *)
theory Auth_Props
  imports Auth_Session
begin

text \<open>
  The contract of a session store as a locale, its interpretations on the in-memory and on the
  PostgreSQL store, and what follows for histories of logins, revocations and clean-ups: a session
  authenticates only what a login created, until it expires or is revoked; a login flow is consumed
  at most once.
\<close>

section \<open>The contract of a session store\<close>

text \<open>
  \<open>sess s h\<close> holds the users and expiry times stored under the hash \<open>h\<close>, \<open>flows s h\<close> the login flows.
  \<open>expired_only\<close>: the second holds a part of the first, and what is missing had expired.
\<close>

definition expired_only :: "int \<Rightarrow> (string \<Rightarrow> ('a \<times> int) set) \<Rightarrow> (string \<Rightarrow> ('a \<times> int) set) \<Rightarrow> bool" where
  "expired_only now A B \<longleftrightarrow> (\<forall>h. B h \<subseteq> A h \<and> (\<forall>(x, e) \<in> A h - B h. e \<le> now))"

lemma expired_only_refl [simp]: "expired_only now A A"
  by (simp add: expired_only_def)

lemma expired_only_trans: "expired_only now A B \<Longrightarrow> expired_only now B C \<Longrightarrow> expired_only now A C"
  unfolding expired_only_def by fast

lemma expired_onlyD: "expired_only now A B \<Longrightarrow> x \<in> B h \<Longrightarrow> x \<in> A h"
  unfolding expired_only_def by blast

text \<open>Calls of a store in sequence, each with how it ended.\<close>

datatype auth_op =
    CreateS nat string int string string
  | LookupS string int
  | RevokeS string
  | CreateF string ConsumedLoginFlow int
  | ConsumeF string int
  | RevokeF string
  | CleanupS int nat

definition ended :: "('e + 'a) \<times> 's \<Rightarrow> bool \<times> 's" where
  "ended p = (case p of (Inl e, s) \<Rightarrow> (False, s) | (Inr a, s) \<Rightarrow> (True, s))"

fun auth_step :: "'s SessionStore \<Rightarrow> auth_op \<Rightarrow> 's \<Rightarrow> bool \<times> 's" where
  "auth_step S (CreateS n l now raw i) s = ended (ss_createSession S (githubUser (show_nat n) l) now raw i s)"
| "auth_step S (LookupS raw now) s = ended (ss_lookupSession S raw now s)"
| "auth_step S (RevokeS raw) s = ended (ss_revokeSession S raw s)"
| "auth_step S (CreateF st f now) s = ended (ss_createLoginFlow S st f now s)"
| "auth_step S (ConsumeF st now) s = ended (ss_consumeLoginFlow S st now s)"
| "auth_step S (RevokeF st) s = ended (ss_revokeLoginFlow S st s)"
| "auth_step S (CleanupS now limit) s = ended (ss_cleanupExpired S now limit s)"

fun auth_run :: "'s SessionStore \<Rightarrow> auth_op list \<Rightarrow> 's \<Rightarrow> (auth_op \<times> bool) list \<times> 's" where
  "auth_run S [] s = ([], s)"
| "auth_run S (p # ps) s = (case auth_step S p s of (b, s') \<Rightarrow>
     (case auth_run S ps s' of (hist, t) \<Rightarrow> ((p, b) # hist, t)))"

text \<open>
  What a history grants under a hash: a login grants its user until it expires, also one that
  failed (its statement may have been committed); a revocation that returned takes all of it.
\<close>

fun granted :: "(string \<Rightarrow> string) \<Rightarrow> (auth_op \<times> bool) list \<Rightarrow> string \<Rightarrow> (AuthenticatedUser \<times> int) set \<Rightarrow> (AuthenticatedUser \<times> int) set" where
  "granted sha [] h A = A"
| "granted sha ((CreateS n l now raw i, b) # hist) h A =
     granted sha hist h (if sha raw = h then insert (githubUser (show_nat n) l, now + SESSION_LIFETIME_MS) A else A)"
| "granted sha ((RevokeS raw, b) # hist) h A = granted sha hist h (if b \<and> raw \<noteq> [] \<and> sha raw = h then {} else A)"
| "granted sha ((_, b) # hist) h A = granted sha hist h A"

lemma granted_explicit:
  "(u, e) \<in> granted sha hist h A \<Longrightarrow>
     (u, e) \<in> A \<or> (\<exists>before n l t raw i b after. hist = before @ (CreateS n l t raw i, b) # after \<and> sha raw = h
       \<and> u = githubUser (show_nat n) l \<and> e = t + SESSION_LIFETIME_MS
       \<and> (\<forall>raw'. raw' \<noteq> [] \<longrightarrow> sha raw' = h \<longrightarrow> (RevokeS raw', True) \<notin> set after))"
  (is "_ \<Longrightarrow> _ \<or> ?login hist")
proof (induction hist arbitrary: A rule: rev_induct)
  case (snoc x hist)
  obtain p b where x: "x = (p, b)" by fastforce
  have split: "granted sha (hist @ [x]) h A = granted sha [x] h (granted sha hist h A)"
    by (induction sha hist h A rule: granted.induct) simp_all
  show ?case
  proof (cases "(u, e) \<in> granted sha hist h A \<and> (\<forall>raw'. raw' \<noteq> [] \<longrightarrow> sha raw' = h \<longrightarrow> x \<noteq> (RevokeS raw', True))")
    case True
    from snoc.IH [OF conjunct1 [OF True]] show ?thesis
    proof
      assume "?login hist"
      then obtain before n l t raw i b' after where "hist = before @ (CreateS n l t raw i, b') # after" "sha raw = h"
        "u = githubUser (show_nat n) l" "e = t + SESSION_LIFETIME_MS"
        "\<forall>raw'. raw' \<noteq> [] \<longrightarrow> sha raw' = h \<longrightarrow> (RevokeS raw', True) \<notin> set after" by blast
      with True have "hist @ [x] = before @ (CreateS n l t raw i, b') # (after @ [x])"
        "\<forall>raw'. raw' \<noteq> [] \<longrightarrow> sha raw' = h \<longrightarrow> (RevokeS raw', True) \<notin> set (after @ [x])" by auto
      then show ?thesis using \<open>sha raw = h\<close> \<open>u = _\<close> \<open>e = _\<close> by blast
    qed simp
  next
    case False
    from snoc.prems have "(u, e) \<in> granted sha [x] h (granted sha hist h A)" unfolding split .
    with False obtain n l t raw i where "p = CreateS n l t raw i" "sha raw = h"
      "u = githubUser (show_nat n) l" "e = t + SESSION_LIFETIME_MS"
      unfolding x by (cases p) (auto split: if_splits)
    then show ?thesis unfolding x by fastforce
  qed
qed simp

lemma granted_mono: "A \<subseteq> B \<Longrightarrow> granted sha hist h A \<subseteq> granted sha hist h B"
proof (induction sha hist h A arbitrary: B rule: granted.induct)
  case (2 sha n l now raw i b hist h A)
  from "2.prems" have "(if sha raw = h then insert (githubUser (show_nat n) l, now + SESSION_LIFETIME_MS) A else A)
      \<subseteq> (if sha raw = h then insert (githubUser (show_nat n) l, now + SESSION_LIFETIME_MS) B else B)"
    by auto
  from "2.IH" [OF this] show ?case by simp
qed simp_all

lemma endedD: "ended p = (b, s) \<Longrightarrow> (\<exists>r. p = (r, s) \<and> b = (\<exists>a. r = Inr a))"
  by (cases p) (auto simp: ended_def split: sum.splits)

fun logs_in :: "(string \<Rightarrow> string) \<Rightarrow> string \<Rightarrow> auth_op \<Rightarrow> bool" where
  "logs_in sha h (CreateF st f now) = (sha st = h)"
| "logs_in sha h _ = False"

locale session_store =
  fixes S :: "'s SessionStore" and sha :: "string \<Rightarrow> string" and ok :: "'s \<Rightarrow> bool"
    and sess :: "'s \<Rightarrow> string \<Rightarrow> (AuthenticatedUser \<times> int) set"
    and flows :: "'s \<Rightarrow> string \<Rightarrow> (ConsumedLoginFlow \<times> int) set"
  assumes create_adds: "ok s \<Longrightarrow> ss_createSession S (githubUser (show_nat n) l) now raw i s = (rc, s') \<Longrightarrow>
        ok s' \<and> flows s' = flows s \<and> (\<forall>h. h \<noteq> sha raw \<longrightarrow> sess s' h = sess s h) \<and>
        sess s' (sha raw) \<subseteq> insert (githubUser (show_nat n) l, now + SESSION_LIFETIME_MS) (sess s (sha raw))"
    and create_stores: "ok s \<Longrightarrow> ss_createSession S (githubUser (show_nat n) l) now raw i s = (Inr c, s') \<Longrightarrow>
        cs_rawToken c = raw \<and> (githubUser (show_nat n) l, now + SESSION_LIFETIME_MS) \<in> sess s' (sha raw)"
    and lookup_reads: "ok s \<Longrightarrow> ss_lookupSession S raw now s = (rl, s') \<Longrightarrow> ok s' \<and> sess s' = sess s \<and> flows s' = flows s"
    and lookup_hit: "ok s \<Longrightarrow> ss_lookupSession S raw now s = (Inr (Some q), s') \<Longrightarrow>
        (sr_user q, sr_expiresAt q) \<in> sess s (sha raw) \<and> now < sr_expiresAt q"
    and lookup_miss: "ok s \<Longrightarrow> ss_lookupSession S raw now s = (Inr None, s') \<Longrightarrow> raw \<noteq> [] \<Longrightarrow>
        \<forall>(u, e) \<in> sess s (sha raw). e \<le> now"
    and revoke_only: "ok s \<Longrightarrow> ss_revokeSession S raw s = (rv, s') \<Longrightarrow>
        ok s' \<and> flows s' = flows s \<and> (\<forall>h. h \<noteq> sha raw \<longrightarrow> sess s' h = sess s h) \<and> sess s' (sha raw) \<subseteq> sess s (sha raw)"
    and revoke_ends: "ok s \<Longrightarrow> ss_revokeSession S raw s = (Inr v, s') \<Longrightarrow> raw \<noteq> [] \<Longrightarrow> sess s' (sha raw) = {}"
    and cleanup_expired: "ok s \<Longrightarrow> ss_cleanupExpired S now limit s = (rx, s') \<Longrightarrow>
        ok s' \<and> expired_only now (sess s) (sess s') \<and> expired_only now (flows s) (flows s')"
    and flow_adds: "ok s \<Longrightarrow> ss_createLoginFlow S st f now s = (rf, s') \<Longrightarrow> ok s' \<and> expired_only now (sess s) (sess s') \<and>
        (\<forall>h. h \<noteq> sha st \<longrightarrow> flows s' h \<subseteq> flows s h)"
    and consume_hit: "ok s \<Longrightarrow> ss_consumeLoginFlow S st now s = (Inr (Some g), s') \<Longrightarrow>
        (\<exists>e. (g, e) \<in> flows s (sha st) \<and> now < e)"
    and consume_takes: "ok s \<Longrightarrow> ss_consumeLoginFlow S st now s = (Inr og, s') \<Longrightarrow> st \<noteq> [] \<Longrightarrow>
        (\<forall>(f, e) \<in> flows s' (sha st). e \<le> now)"
    and consume_only: "ok s \<Longrightarrow> ss_consumeLoginFlow S st now s = (rg, s') \<Longrightarrow>
        ok s' \<and> sess s' = sess s \<and> (\<forall>h. flows s' h \<subseteq> flows s h)"
    and revoke_flow_only: "ok s \<Longrightarrow> ss_revokeLoginFlow S st s = (rw, s') \<Longrightarrow>
        ok s' \<and> sess s' = sess s \<and> (\<forall>h. flows s' h \<subseteq> flows s h)"
begin

lemma authenticated:
  assumes "ok s" "authenticateSession S now rq s = (Inr u, s')"
  shows "\<exists>raw e. parseSessionCookies (rq_headers rq ''cookie'') = [raw] \<and> raw \<noteq> [] \<and> (u, e) \<in> sess s (sha raw) \<and> now < e"
proof -
  let ?p = "parseSessionCookies (rq_headers rq ''cookie'')"
  from assms(2) have one: "length ?p = 1" "hd ?p \<noteq> []"
    by (auto simp: authenticateSession_def Let_def throwC_def split: if_splits)
  then obtain raw where raw: "?p = [raw]" "raw \<noteq> []" by (cases ?p) auto
  with assms(2) obtain r where "ss_lookupSession S raw now s = (Inr (Some r), s')" "u = sr_user r"
    by (auto simp: authenticateSession_def Let_def returns_simps split: option.splits)
  with lookup_hit [OF assms(1)] raw show ?thesis by blast
qed

lemma step_keeps:
  assumes "ok s" "auth_step S p s = (b, s')"
  shows "ok s' \<and> sess s' h \<subseteq> granted sha [(p, b)] h (sess s h)"
proof (cases p)
  case (CreateS n l now raw i)
  with assms(2) obtain r where "ss_createSession S (githubUser (show_nat n) l) now raw i s = (r, s')" by (auto dest: endedD)
  from create_adds [OF assms(1) this] CreateS show ?thesis by auto
next
  case (LookupS raw now)
  with assms(2) obtain r where "ss_lookupSession S raw now s = (r, s')" by (auto dest: endedD)
  from lookup_reads [OF assms(1) this] LookupS show ?thesis by auto
next
  case (RevokeS raw)
  with assms(2) obtain r where r: "ss_revokeSession S raw s = (r, s')" "b = (\<exists>a. r = Inr a)" by (auto dest: endedD)
  have sub: "sess s' h \<subseteq> sess s h"
    using revoke_only [OF assms(1) r(1)] by (cases "h = sha raw") auto
  have "b \<Longrightarrow> raw \<noteq> [] \<Longrightarrow> sess s' (sha raw) = {}"
    using revoke_ends [OF assms(1)] r by auto
  with sub revoke_only [OF assms(1) r(1)] show ?thesis unfolding RevokeS by auto
next
  case (CreateF st f now)
  with assms(2) obtain r where "ss_createLoginFlow S st f now s = (r, s')" by (auto dest: endedD)
  from flow_adds [OF assms(1) this] CreateF show ?thesis by (auto simp: expired_only_def)
next
  case (ConsumeF st now)
  with assms(2) obtain r where "ss_consumeLoginFlow S st now s = (r, s')" by (auto dest: endedD)
  from consume_only [OF assms(1) this] ConsumeF show ?thesis by auto
next
  case (RevokeF st)
  with assms(2) obtain r where "ss_revokeLoginFlow S st s = (r, s')" by (auto dest: endedD)
  from revoke_flow_only [OF assms(1) this] RevokeF show ?thesis by auto
next
  case (CleanupS now limit)
  with assms(2) obtain r where "ss_cleanupExpired S now limit s = (r, s')" by (auto dest: endedD)
  from cleanup_expired [OF assms(1) this] CleanupS show ?thesis by (auto simp: expired_only_def)
qed

lemma granted_Cons: "granted sha (x # hist) h A = granted sha hist h (granted sha [x] h A)"
  by (cases x; cases "fst x") auto

lemma run_keeps:
  "ok s \<Longrightarrow> auth_run S ps s = (hist, t) \<Longrightarrow> ok t \<and> sess t h \<subseteq> granted sha hist h (sess s h)"
proof (induction ps arbitrary: s hist)
  case (Cons p ps)
  obtain b u where b: "auth_step S p s = (b, u)" by fastforce
  with Cons.prems(2) obtain rest where rest: "auth_run S ps u = (rest, t)" "hist = (p, b) # rest"
    by (auto split: prod.splits)
  note one = step_keeps [OF Cons.prems(1) b]
  then have "ok t \<and> sess t h \<subseteq> granted sha rest h (sess u h)" using Cons.IH [OF _ rest(1)] by blast
  with one granted_mono [of "sess u h" "granted sha [(p, b)] h (sess s h)" sha rest h] show ?case
    by (auto simp: rest granted_Cons [of "(p, b)" rest])
qed simp

text \<open>A request is authenticated only as the history granted.\<close>

lemma authenticated_granted:
  assumes "ok s" "\<forall>h. sess s h = {}" "auth_run S ps s = (hist, t)" "authenticateSession S now rq t = (Inr u, t')"
  shows "\<exists>raw e. parseSessionCookies (rq_headers rq ''cookie'') = [raw] \<and> raw \<noteq> []
    \<and> (u, e) \<in> granted sha hist (sha raw) {} \<and> now < e"
  using authenticated [OF conjunct1 [OF run_keeps [OF assms(1,3)]] assms(4)] run_keeps [OF assms(1,3)] assms(2)
  by (metis subsetD)

text \<open>Flows that have expired by \<open>t0\<close> stay so until one is created under their hash.\<close>

lemma step_flows:
  assumes "ok s" "auth_step S p s = (b, s')" "\<not> logs_in sha h p"
  shows "flows s' h \<subseteq> flows s h"
proof (cases p)
  case (CreateS n l now raw i)
  with assms(2) obtain r where "ss_createSession S (githubUser (show_nat n) l) now raw i s = (r, s')" by (auto dest: endedD)
  from create_adds [OF assms(1) this] show ?thesis by auto
next
  case (LookupS raw now)
  with assms(2) obtain r where "ss_lookupSession S raw now s = (r, s')" by (auto dest: endedD)
  from lookup_reads [OF assms(1) this] show ?thesis by auto
next
  case (RevokeS raw)
  with assms(2) obtain r where "ss_revokeSession S raw s = (r, s')" by (auto dest: endedD)
  from revoke_only [OF assms(1) this] show ?thesis by auto
next
  case (CreateF st f now)
  with assms(2) obtain r where "ss_createLoginFlow S st f now s = (r, s')" by (auto dest: endedD)
  from flow_adds [OF assms(1) this] CreateF assms(3) show ?thesis by auto
next
  case (ConsumeF st now)
  with assms(2) obtain r where "ss_consumeLoginFlow S st now s = (r, s')" by (auto dest: endedD)
  from consume_only [OF assms(1) this] show ?thesis by auto
next
  case (RevokeF st)
  with assms(2) obtain r where "ss_revokeLoginFlow S st s = (r, s')" by (auto dest: endedD)
  from revoke_flow_only [OF assms(1) this] show ?thesis by auto
next
  case (CleanupS now limit)
  with assms(2) obtain r where "ss_cleanupExpired S now limit s = (r, s')" by (auto dest: endedD)
  from cleanup_expired [OF assms(1) this] show ?thesis by (auto simp: expired_only_def)
qed

lemma run_flows:
  "ok s \<Longrightarrow> auth_run S ps s = (hist, t) \<Longrightarrow> \<forall>p \<in> set ps. \<not> logs_in sha h p \<Longrightarrow> flows t h \<subseteq> flows s h"
proof (induction ps arbitrary: s hist)
  case (Cons p ps)
  obtain b u where b: "auth_step S p s = (b, u)" by fastforce
  with Cons.prems(2) obtain rest where "auth_run S ps u = (rest, t)" by (auto split: prod.splits)
  then have "flows t h \<subseteq> flows u h"
    using Cons.IH [of u rest] Cons.prems(3) step_keeps [OF Cons.prems(1) b] by auto
  also have "\<dots> \<subseteq> flows s h" using step_flows [OF Cons.prems(1) b] Cons.prems(3) by auto
  finally show ?case .
qed simp

lemma consumed_once:
  assumes "ok s" "ss_consumeLoginFlow S st t1 s = (Inr og, s1)" "auth_run S ps s1 = (hist, s2)"
    "\<forall>p \<in> set ps. \<not> logs_in sha (sha st) p" "t1 \<le> t2" "st \<noteq> []"
  shows "fst (ss_consumeLoginFlow S st t2 s2) \<noteq> Inr (Some g)"
proof
  assume "fst (ss_consumeLoginFlow S st t2 s2) = Inr (Some g)"
  then obtain s3 where "ss_consumeLoginFlow S st t2 s2 = (Inr (Some g), s3)" by (metis prod.collapse)
  moreover have ok: "ok s1" using consume_only [OF assms(1,2)] by blast
  ultimately obtain e where "(g, e) \<in> flows s2 (sha st)" "t2 < e"
    using consume_hit run_keeps [OF ok assms(3)] by blast
  with run_flows [OF ok assms(3,4)] consume_takes [OF assms(1,2,6)] assms(5) show False by fastforce
qed

end

section \<open>The in-memory store keeps it\<close>

definition mem_ok :: "mem_sessions \<Rightarrow> bool" where
  "mem_ok s \<longleftrightarrow> distinct (map fst (ms_sessions s)) \<and> distinct (map fst (ms_flows s))"

definition mem_sess :: "mem_sessions \<Rightarrow> string \<Rightarrow> (AuthenticatedUser \<times> int) set" where
  "mem_sess s h = (case map_of (ms_sessions s) (hex h) of None \<Rightarrow> {} | Some r \<Rightarrow> {(sr_user r, sr_expiresAt r)})"

definition mem_flows :: "mem_sessions \<Rightarrow> string \<Rightarrow> (ConsumedLoginFlow \<times> int) set" where
  "mem_flows s h = (case map_of (ms_flows s) (hex h) of None \<Rightarrow> {} | Some fe \<Rightarrow> {fe})"

lemma drop_expired_part:
  assumes "drop_expired dead n xs = (k, ys)"
  shows "set ys \<subseteq> set xs" "\<forall>x \<in> set xs - set ys. dead x" "distinct (map f xs) \<Longrightarrow> distinct (map f ys)"
proof -
  have "set ys \<subseteq> set xs \<and> (\<forall>x \<in> set xs - set ys. dead x) \<and> (distinct (map f xs) \<longrightarrow> distinct (map f ys))"
    using assms
  proof (induction dead n xs arbitrary: k ys rule: drop_expired.induct)
    case (3 dead n x xs)
    show ?case
    proof (cases "dead x")
      case True
      obtain k' ys' where eq: "drop_expired dead n xs = (k', ys')" by fastforce
      note IH = "3.IH"(1) [OF True eq]
      from "3.prems" True eq have "ys = ys'" by simp
      with IH True show ?thesis by auto
    next
      case False
      obtain k' ys' where eq: "drop_expired dead (Suc n) xs = (k', ys')" by fastforce
      note IH = "3.IH"(2) [OF False eq]
      from "3.prems" False eq have "ys = x # ys'" by simp
      with IH show ?thesis by auto
    qed
  qed auto
  then show "set ys \<subseteq> set xs" "\<forall>x \<in> set xs - set ys. dead x" "distinct (map f xs) \<Longrightarrow> distinct (map f ys)" by auto
qed

lemma map_of_part:
  assumes "distinct (map fst xs)" "set ys \<subseteq> set xs" "distinct (map fst ys)"
  shows "map_of ys k = (case map_of xs k of None \<Rightarrow> None | Some v \<Rightarrow> if (k, v) \<in> set ys then Some v else None)"
proof (cases "map_of ys k")
  case None
  then show ?thesis by (auto simp: map_of_eq_None_iff image_iff split: option.split)
next
  case (Some v)
  then have "(k, v) \<in> set ys" by (rule map_of_SomeD)
  then have "map_of xs k = Some v" using assms(1,2) by (auto intro: map_of_is_SomeI)
  with Some \<open>(k, v) \<in> set ys\<close> show ?thesis by simp
qed

lemma mem_cleanup:
  assumes "mem_ok s" "mem_cleanupExpired now limit s = (r, s')"
  shows "mem_ok s' \<and> expired_only now (mem_sess s) (mem_sess s') \<and> expired_only now (mem_flows s) (mem_flows s')"
proof -
  obtain n ss where ss: "drop_expired (\<lambda>(k, r). sr_expiresAt r \<le> now) limit (ms_sessions s) = (n, ss)" by fastforce
  obtain m fs where fs: "drop_expired (\<lambda>(k, f, e). e \<le> now) limit (ms_flows s) = (m, fs)" by fastforce
  have s': "s' = s\<lparr>ms_sessions := ss, ms_flows := fs\<rparr>"
    using assms(2) by (simp add: mem_cleanupExpired_def ss fs Let_def)
  have d: "distinct (map fst (ms_sessions s))" "distinct (map fst (ms_flows s))" using assms(1) by (simp_all add: mem_ok_def)
  have ds: "distinct (map fst ss)" "distinct (map fst fs)"
    using drop_expired_part(3) [OF ss d(1)] drop_expired_part(3) [OF fs d(2)] .
  have "expired_only now (mem_sess s) (mem_sess s')"
    using drop_expired_part(2) [OF ss]
    by (auto simp: expired_only_def mem_sess_def s' map_of_part [OF d(1) drop_expired_part(1) [OF ss] ds(1)]
        split: option.splits if_splits prod.splits dest!: map_of_SomeD)
  moreover have "expired_only now (mem_flows s) (mem_flows s')"
    using drop_expired_part(2) [OF fs]
    by (auto simp: expired_only_def mem_flows_def s' map_of_part [OF d(2) drop_expired_part(1) [OF fs] ds(2)]
        split: option.splits if_splits prod.splits dest!: map_of_SomeD)
  ultimately show ?thesis using ds by (simp add: mem_ok_def s')
qed

lemmas mem_defs = InMemorySessionStore_def mem_createSession_def mem_lookupSession_def mem_revokeSession_def
  mem_createLoginFlow_def mem_consumeLoginFlow_def mem_revokeLoginFlow_def mem_sess_def mem_flows_def hashToken_def

lemma mem_observe [simp]:
  "mem_sess (s\<lparr>ms_flows := fs\<rparr>) = mem_sess s" "mem_flows (s\<lparr>ms_sessions := ss\<rparr>) = mem_flows s"
  by (simp_all add: mem_sess_def mem_flows_def fun_eq_iff)

interpretation mem_auth: session_store "InMemorySessionStore sha" sha mem_ok mem_sess mem_flows
proof unfold_locales
  fix s s' now limit and r :: "cp_error + nat \<times> nat"
  assume "mem_ok s" "ss_cleanupExpired (InMemorySessionStore sha) now limit s = (r, s')"
  then show "mem_ok s' \<and> expired_only now (mem_sess s) (mem_sess s') \<and> expired_only now (mem_flows s) (mem_flows s')"
    using mem_cleanup by (simp add: InMemorySessionStore_def)
qed (auto simp: mem_defs run_simps mem_ok_def update_conv' delete_conv' distinct_update distinct_delete
       simp del: map_of_eq_Some_iff Some_eq_map_of_iff split: option.splits if_splits)

section \<open>The PostgreSQL store keeps it\<close>

definition pg_sess :: "db \<Rightarrow> string \<Rightarrow> (AuthenticatedUser \<times> int) set" where
  "pg_sess d h = {(sr_user (row_session r), auth_expires_at r) |r. r \<in> set (auth_sessions d) \<and> token_hash r = h}"

definition pg_flows :: "db \<Rightarrow> string \<Rightarrow> (ConsumedLoginFlow \<times> int) set" where
  "pg_flows d h = {(row_flow r, flow_expires_at r) |r. r \<in> set (oauth_login_flows d) \<and> state_hash r = h}"

lemma dbC_run: "dbC m d = (case m d of (Inl e, d') \<Rightarrow> (Inl (RepositoryError e), d') | (Inr a, d') \<Rightarrow> (Inr a, d'))"
  by (simp add: dbC_def zoomC_def)

text \<open>A statement that fails for an outage changes no table; otherwise it does what it says.\<close>

lemma dbC_cases:
  assumes "dbC (sql f) d = (r, d')"
  obtains (down) e os where "r = Inl e" "d' = d\<lparr>outages := os\<rparr>"
  | (up) os q where "f (d\<lparr>outages := os\<rparr>) = (q, d')" "r = map_sum RepositoryError id q"
proof (cases "outages d")
  case Nil
  then have same: "d\<lparr>outages := []\<rparr> = d" by simp
  obtain q u where f: "f d = (q, u)" by fastforce
  with assms Nil have "u = d'" "r = map_sum RepositoryError id q"
    by (auto simp: dbC_run sql_def split: sum.splits)
  with f same up [of "[]" q] show thesis by simp
next
  case (Cons b os)
  obtain q u where f: "f (d\<lparr>outages := os\<rparr>) = (q, u)" by fastforce
  show thesis
  proof (cases b)
    case True
    with assms Cons down show thesis by (auto simp: dbC_run sql_def)
  next
    case False
    with assms Cons f have "u = d'" "r = map_sum RepositoryError id q"
      by (auto simp: dbC_run sql_def split: sum.splits)
    with f up show thesis by blast
  qed
qed

lemma pg_observe [simp]:
  "pg_sess (d\<lparr>outages := os\<rparr>) = pg_sess d" "pg_flows (d\<lparr>outages := os\<rparr>) = pg_flows d"
  "pg_sess (d\<lparr>oauth_login_flows := fs\<rparr>) = pg_sess d" "pg_flows (d\<lparr>auth_sessions := ss\<rparr>) = pg_flows d"
  by (simp_all add: pg_sess_def pg_flows_def fun_eq_iff)

lemma row_session_simps [simp]: "sr_expiresAt (row_session r) = auth_expires_at r"
  by (simp add: row_session_def)

lemma find_same: "List.find P xs = Some x \<Longrightarrow> x \<in> set xs \<and> P x" "List.find P xs = None \<Longrightarrow> \<forall>x \<in> set xs. \<not> P x"
  by (auto dest: find_row simp: find_None_iff)

lemma pg_create_cases:
  assumes "pg_createSession sha (githubUser (show_nat n) l) now raw i d = (r, d')"
  obtains (failed) e os where "r = Inl e" "d' = d\<lparr>outages := os\<rparr>"
  | (stored) os where "i \<notin> auth_id ` set (auth_sessions d)" "r = Inr \<lparr>cs_id = i, cs_rawToken = raw, cs_expiresAt = now + SESSION_LIFETIME_MS\<rparr>"
      "d' = d\<lparr>outages := os, auth_sessions := auth_sessions d @ [\<lparr>auth_id = i, token_hash = sha raw,
         auth_user_id = user_id (githubUser (show_nat n) l), github_user_id = n, github_login = l,
         auth_created_at = now, auth_expires_at = now + SESSION_LIFETIME_MS\<rparr>]\<rparr>"
proof -
  have pid: "providerUserId (githubUser (show_nat n) l) = show_nat n" "user_login (githubUser (show_nat n) l) = l"
    by (simp_all add: githubUser_def)
  show thesis
    using assms that unfolding pg_createSession_def
    by (fastforce simp: run_simps pid hashToken_def violates_def elim!: dbC_cases split: sum.splits prod.splits if_splits)
qed

text \<open>A delete of the rows that satisfy a condition.\<close>

lemma pg_delete_sessions:
  "dbC (sql (modifyC (\<lambda>d. d\<lparr>auth_sessions := filter P (auth_sessions d)\<rparr>))) d = (r, d') \<Longrightarrow>
     pg_flows d' = pg_flows d \<and> (\<forall>h. pg_sess d' h \<subseteq> pg_sess d h)
     \<and> (\<forall>v. r = Inr v \<longrightarrow> auth_sessions d' = filter P (auth_sessions d))"
  by (erule dbC_cases) (auto simp: run_simps pg_sess_def pg_flows_def)

lemma pg_delete_flows:
  "dbC (sql (\<lambda>d. (Inr (g d), d\<lparr>oauth_login_flows := filter P (oauth_login_flows d)\<rparr>))) d = (r, d') \<Longrightarrow>
     pg_sess d' = pg_sess d \<and> (\<forall>h. pg_flows d' h \<subseteq> pg_flows d h)
     \<and> (\<forall>v. r = Inr v \<longrightarrow> oauth_login_flows d' = filter P (oauth_login_flows d) \<and> (\<exists>os. v = g (d\<lparr>outages := os\<rparr>)))"
  by (erule dbC_cases) (auto simp: run_simps pg_sess_def pg_flows_def)

lemma victims_dead: "r \<in> set (victims ex now limit rows) \<Longrightarrow> ex r < now \<and> r \<in> set rows"
  by (auto simp: victims_def dest!: in_set_takeD)

text \<open>The sub-selects go by key, so the key must be unique for a clean-up to spare the rest.\<close>

definition pg_ok :: "db \<Rightarrow> bool" where
  "pg_ok d \<longleftrightarrow> distinct (map auth_id (auth_sessions d)) \<and> distinct (map state_hash (oauth_login_flows d))"

lemma pg_ok_outages [simp]: "pg_ok (d\<lparr>outages := os\<rparr>) = pg_ok d"
  by (simp add: pg_ok_def)

lemma key_unique: "distinct (map f xs) \<Longrightarrow> x \<in> set xs \<Longrightarrow> y \<in> set xs \<Longrightarrow> f x = f y \<Longrightarrow> x = y"
  by (auto simp: distinct_map dest: inj_onD)

lemma dead_by_key:
  assumes "distinct (map key rows)" "r \<in> set rows" "key r \<in> key ` set (victims ex now limit rows)"
  shows "ex r < now"
proof -
  from assms(3) obtain x where x: "x \<in> set (victims ex now limit rows)" "key x = key r" by auto
  from victims_dead [OF x(1)] have "ex x < now" "x \<in> set rows" by auto
  with key_unique [OF assms(1)] assms(2) x(2) show ?thesis by metis
qed

lemma dead_sessions:
  assumes "pg_ok d" "dbC (delete_dead_sessions now limit) d = (q, u)"
  shows "pg_ok u \<and> expired_only now (pg_sess d) (pg_sess u) \<and> pg_flows u = pg_flows d"
  using assms(2) unfolding delete_dead_sessions_def
proof (cases rule: dbC_cases)
  case (up os q')
  let ?dead = "auth_id ` set (victims auth_expires_at now limit (auth_sessions d))"
  have u: "u = d\<lparr>outages := os, auth_sessions := filter (\<lambda>r. auth_id r \<notin> ?dead) (auth_sessions d)\<rparr>"
    using up(1) by (simp add: Let_def)
  have "auth_expires_at r < now" if "r \<in> set (auth_sessions d)" "auth_id r \<in> ?dead" for r
    using dead_by_key [OF _ that(1), of auth_id auth_expires_at now limit] that(2) assms(1) by (simp add: pg_ok_def)
  then have "expired_only now (pg_sess d) (pg_sess u)"
    by (fastforce simp: expired_only_def pg_sess_def u)
  then show ?thesis using assms(1) by (simp add: pg_ok_def u distinct_map_filter)
qed (use assms in simp)

lemma dead_flows:
  assumes "pg_ok d" "dbC (delete_dead_flows now limit) d = (q, u)"
  shows "pg_ok u \<and> expired_only now (pg_flows d) (pg_flows u) \<and> pg_sess u = pg_sess d"
  using assms(2) unfolding delete_dead_flows_def
proof (cases rule: dbC_cases)
  case (up os q')
  let ?dead = "state_hash ` set (victims flow_expires_at now limit (oauth_login_flows d))"
  have u: "u = d\<lparr>outages := os, oauth_login_flows := filter (\<lambda>r. state_hash r \<notin> ?dead) (oauth_login_flows d)\<rparr>"
    using up(1) by (simp add: Let_def)
  have "flow_expires_at r < now" if "r \<in> set (oauth_login_flows d)" "state_hash r \<in> ?dead" for r
    using dead_by_key [OF _ that(1), of state_hash flow_expires_at now limit] that(2) assms(1) by (simp add: pg_ok_def)
  then have "expired_only now (pg_flows d) (pg_flows u)"
    by (fastforce simp: expired_only_def pg_flows_def u)
  then show ?thesis using assms(1) by (simp add: pg_ok_def u distinct_map_filter)
qed (use assms in simp)

lemma pg_cleanup:
  assumes "pg_ok d" "pg_cleanupExpired now limit d = (r, d')"
  shows "pg_ok d' \<and> expired_only now (pg_sess d) (pg_sess d') \<and> expired_only now (pg_flows d) (pg_flows d')"
proof -
  obtain q u where q: "dbC (delete_dead_sessions now limit) d = (q, u)" by fastforce
  obtain p v where p: "dbC (delete_dead_flows now limit) u = (p, v)" by fastforce
  note one = dead_sessions [OF assms(1) q]
  then have "pg_ok u" by blast
  note two = dead_flows [OF this p]
  from assms(2) q p have "d' = u \<or> d' = v"
    by (auto simp: pg_cleanupExpired_def run_simps split: sum.splits)
  with one two show ?thesis by auto
qed

lemma pg_flow_adds:
  assumes "pg_ok d" "pg_createLoginFlow sha st f now d = (r, d')"
  shows "pg_ok d' \<and> expired_only now (pg_sess d) (pg_sess d') \<and> (\<forall>h. h \<noteq> sha st \<longrightarrow> pg_flows d' h \<subseteq> pg_flows d h)"
proof -
  obtain q u where q: "pg_cleanupExpired now CLEANUP_DEFAULT_LIMIT d = (q, u)" by fastforce
  note c = pg_cleanup [OF assms(1) q]
  then have sub: "expired_only now (pg_sess d) (pg_sess u)" "pg_flows u h \<subseteq> pg_flows d h" for h
    by (auto simp: expired_only_def)
  let ?ins = "\<lambda>d. if \<exists>r \<in> set (oauth_login_flows d). state_hash r = hashToken sha st
         then violates ''oauth_login_flows_pkey'' d
         else (Inr (), d\<lparr>oauth_login_flows := oauth_login_flows d @ [\<lparr>state_hash = hashToken sha st,
             code_verifier = cf_codeVerifier f, return_to = cf_returnTo f,
             binding_hash = Some (from_hex (cf_bindingHash f)),
             flow_expires_at = now + LOGIN_FLOW_LIFETIME_MS\<rparr>]\<rparr>)"
  obtain p v where p: "dbC (sql ?ins) u = (p, v)" by fastforce
  have v: "d' = v"
    using assms(2) q p by (auto simp: pg_createLoginFlow_def run_simps split: sum.splits)
  from p have "pg_ok v \<and> pg_sess v = pg_sess u \<and> (\<forall>h. h \<noteq> sha st \<longrightarrow> pg_flows v h = pg_flows u h)"
  proof (cases rule: dbC_cases)
    case (up os q')
    let ?row = "\<lparr>state_hash = sha st, code_verifier = cf_codeVerifier f, return_to = cf_returnTo f,
             binding_hash = Some (from_hex (cf_bindingHash f)), flow_expires_at = now + LOGIN_FLOW_LIFETIME_MS\<rparr>"
    from up have "v = u\<lparr>outages := os\<rparr> \<or> sha st \<notin> state_hash ` set (oauth_login_flows u)
        \<and> v = u\<lparr>outages := os, oauth_login_flows := oauth_login_flows u @ [?row]\<rparr>"
      by (auto simp: violates_def run_simps hashToken_def split: if_splits)
    then show ?thesis using c
    proof (elim disjE conjE)
      assume "v = u\<lparr>outages := os\<rparr>"
      then show ?thesis using c by simp
    next
      assume "sha st \<notin> state_hash ` set (oauth_login_flows u)" "v = u\<lparr>outages := os, oauth_login_flows := oauth_login_flows u @ [?row]\<rparr>"
      then show ?thesis using c by (auto simp: pg_ok_def pg_sess_def pg_flows_def)
    qed
  qed (use c in simp)
  then show ?thesis using v sub by auto
qed

lemmas pg_defs = PostgresSessionStore_def pg_lookupSession_def pg_revokeSession_def pg_consumeLoginFlow_def
  pg_revokeLoginFlow_def hashToken_def

lemma pg_create:
  assumes "pg_ok s" "pg_createSession sha (githubUser (show_nat n) l) now raw i s = (rc, s')"
  shows "pg_ok s' \<and> pg_flows s' = pg_flows s \<and> (\<forall>h. h \<noteq> sha raw \<longrightarrow> pg_sess s' h = pg_sess s h) \<and>
          pg_sess s' (sha raw) \<subseteq> insert (githubUser (show_nat n) l, now + SESSION_LIFETIME_MS) (pg_sess s (sha raw))"
    and "rc = Inr c \<Longrightarrow> cs_rawToken c = raw \<and> (githubUser (show_nat n) l, now + SESSION_LIFETIME_MS) \<in> pg_sess s' (sha raw)"
  using assms(2)
  by (cases rule: pg_create_cases; use assms(1) in \<open>force simp: pg_ok_def pg_sess_def row_session_def\<close>)+

lemma pg_lookup:
  assumes "pg_lookupSession sha raw now s = (rl, s')"
  shows "pg_ok s' = pg_ok s \<and> pg_sess s' = pg_sess s \<and> pg_flows s' = pg_flows s"
    and "rl = Inr (Some q) \<Longrightarrow> (sr_user q, sr_expiresAt q) \<in> pg_sess s (sha raw) \<and> now < sr_expiresAt q"
    and "rl = Inr None \<Longrightarrow> raw \<noteq> [] \<Longrightarrow> \<forall>(u, e) \<in> pg_sess s (sha raw). e \<le> now"
proof -
  let ?f = "\<lambda>d. map_option row_session (List.find (\<lambda>r. token_hash r = sha raw \<and> now < auth_expires_at r) (auth_sessions d))"
  have "raw = [] \<and> rl = Inr None \<and> s' = s \<or> (raw \<noteq> [] \<and> (\<exists>os. s' = s\<lparr>outages := os\<rparr> \<and> ((\<exists>e. rl = Inl e) \<or> rl = Inr (?f s))))"
    using assms unfolding pg_lookupSession_def hashToken_def select_def
    by (cases "raw = []") (auto simp: run_simps elim!: dbC_cases)
  then show "pg_ok s' = pg_ok s \<and> pg_sess s' = pg_sess s \<and> pg_flows s' = pg_flows s"
    "rl = Inr (Some q) \<Longrightarrow> (sr_user q, sr_expiresAt q) \<in> pg_sess s (sha raw) \<and> now < sr_expiresAt q"
    "rl = Inr None \<Longrightarrow> raw \<noteq> [] \<Longrightarrow> \<forall>(u, e) \<in> pg_sess s (sha raw). e \<le> now"
    by (auto simp: pg_sess_def eq_commute [of "Some q"] eq_commute [of None] dest!: find_same)
qed

lemma pg_revoke:
  assumes "pg_ok s" "pg_revokeSession sha raw s = (rv, s')"
  shows "pg_ok s' \<and> pg_flows s' = pg_flows s \<and> (\<forall>h. h \<noteq> sha raw \<longrightarrow> pg_sess s' h = pg_sess s h) \<and> pg_sess s' (sha raw) \<subseteq> pg_sess s (sha raw)"
    and "rv = Inr v \<Longrightarrow> raw \<noteq> [] \<Longrightarrow> pg_sess s' (sha raw) = {}"
proof -
  have "raw = [] \<and> s' = s \<or> (\<exists>os. s' = s\<lparr>outages := os\<rparr>) \<and> (\<exists>e. rv = Inl e)
      \<or> (\<exists>os. s' = s\<lparr>outages := os, auth_sessions := filter (\<lambda>r. token_hash r \<noteq> sha raw) (auth_sessions s)\<rparr>)"
    using assms(2) unfolding pg_revokeSession_def hashToken_def
    by (cases "raw = []") (auto simp: run_simps elim!: dbC_cases)
  then show "pg_ok s' \<and> pg_flows s' = pg_flows s \<and> (\<forall>h. h \<noteq> sha raw \<longrightarrow> pg_sess s' h = pg_sess s h) \<and> pg_sess s' (sha raw) \<subseteq> pg_sess s (sha raw)"
    "rv = Inr v \<Longrightarrow> raw \<noteq> [] \<Longrightarrow> pg_sess s' (sha raw) = {}"
    using assms(1) by (auto simp: pg_ok_def pg_sess_def distinct_map_filter)
qed

lemma pg_consume:
  assumes "pg_ok s" "pg_consumeLoginFlow sha st now s = (rg, s')"
  shows "pg_ok s' \<and> pg_sess s' = pg_sess s \<and> (\<forall>h. pg_flows s' h \<subseteq> pg_flows s h)"
    and "rg = Inr (Some g) \<Longrightarrow> \<exists>e. (g, e) \<in> pg_flows s (sha st) \<and> now < e"
    and "rg = Inr og \<Longrightarrow> st \<noteq> [] \<Longrightarrow> \<forall>(f, e) \<in> pg_flows s' (sha st). e \<le> now"
proof -
  let ?hit = "\<lambda>r. state_hash r = sha st \<and> now < flow_expires_at r"
  have "st = [] \<and> s' = s \<and> rg = Inr None \<or> (\<exists>os. s' = s\<lparr>outages := os\<rparr>) \<and> (\<exists>e. rg = Inl e)
      \<or> (\<exists>os. s' = s\<lparr>outages := os, oauth_login_flows := filter (\<lambda>r. \<not> ?hit r) (oauth_login_flows s)\<rparr>)
        \<and> rg = Inr (map_option row_flow (List.find ?hit (oauth_login_flows s)))"
    using assms(2) unfolding pg_consumeLoginFlow_def hashToken_def
    by (cases "st = []") (auto simp: run_simps Let_def elim!: dbC_cases)
  then show "pg_ok s' \<and> pg_sess s' = pg_sess s \<and> (\<forall>h. pg_flows s' h \<subseteq> pg_flows s h)"
    "rg = Inr (Some g) \<Longrightarrow> \<exists>e. (g, e) \<in> pg_flows s (sha st) \<and> now < e"
    "rg = Inr og \<Longrightarrow> st \<noteq> [] \<Longrightarrow> \<forall>(f, e) \<in> pg_flows s' (sha st). e \<le> now"
    using assms(1) by (auto simp: pg_ok_def pg_flows_def distinct_map_filter eq_commute [of "Some g"] dest!: find_same)
qed

lemma pg_revoke_flow:
  assumes "pg_ok s" "pg_revokeLoginFlow sha st s = (rw, s')"
  shows "pg_ok s' \<and> pg_sess s' = pg_sess s \<and> (\<forall>h. pg_flows s' h \<subseteq> pg_flows s h)"
proof -
  have "s' = s \<or> (\<exists>os. s' = s\<lparr>outages := os\<rparr>)
      \<or> (\<exists>os. s' = s\<lparr>outages := os, oauth_login_flows := filter (\<lambda>r. state_hash r \<noteq> sha st) (oauth_login_flows s)\<rparr>)"
    using assms(2) unfolding pg_revokeLoginFlow_def hashToken_def
    by (cases "st = []") (auto simp: run_simps elim!: dbC_cases)
  then show ?thesis using assms(1) by (auto simp: pg_ok_def pg_flows_def distinct_map_filter)
qed

lemma pg_store_fields:
  "ss_createSession (PostgresSessionStore sha) = pg_createSession sha"
  "ss_lookupSession (PostgresSessionStore sha) = pg_lookupSession sha"
  "ss_revokeSession (PostgresSessionStore sha) = pg_revokeSession sha"
  "ss_createLoginFlow (PostgresSessionStore sha) = pg_createLoginFlow sha"
  "ss_consumeLoginFlow (PostgresSessionStore sha) = pg_consumeLoginFlow sha"
  "ss_revokeLoginFlow (PostgresSessionStore sha) = pg_revokeLoginFlow sha"
  "ss_cleanupExpired (PostgresSessionStore sha) = pg_cleanupExpired"
  by (simp_all add: PostgresSessionStore_def)

interpretation pg_auth: session_store "PostgresSessionStore sha" sha pg_ok pg_sess pg_flows
proof (unfold_locales, unfold pg_store_fields)
qed (rule pg_create(1), assumption+, rule pg_create(2), assumption, assumption, simp,
     metis pg_lookup(1), metis pg_lookup(2), metis pg_lookup(3), metis pg_revoke(1), metis pg_revoke(2),
     metis pg_cleanup, metis pg_flow_adds, metis pg_consume(2), metis pg_consume(3), metis pg_consume(1),
     metis pg_revoke_flow)

section \<open>What the stores guarantee\<close>

text \<open>C21: a request is authenticated by the PostgreSQL session store only as a user who has logged in:
  after any calls of the store, failing ones included, on a database with no session, a request that
  authenticates presents exactly one non-empty session cookie; the history holds a login of exactly
  the user it is authenticated as, under the hash of that cookie, less than the session lifetime
  (7 days) ago, and no revocation of that hash has returned since.\<close>

theorem authenticated_has_login:
  assumes "pg_ok d" "auth_sessions d = []" "auth_run (PostgresSessionStore sha) ps d = (hist, t)"
    and "authenticateSession (PostgresSessionStore sha) now rq t = (Inr u, t')"
  shows "\<exists>raw. parseSessionCookies (rq_headers rq ''cookie'') = [raw] \<and> raw \<noteq> [] \<and>
    (\<exists>before n l t0 raw0 i b after. hist = before @ (CreateS n l t0 raw0 i, b) # after \<and> sha raw0 = sha raw
      \<and> u = githubUser (show_nat n) l \<and> now < t0 + SESSION_LIFETIME_MS
      \<and> (\<forall>raw'. raw' \<noteq> [] \<longrightarrow> sha raw' = sha raw \<longrightarrow> (RevokeS raw', True) \<notin> set after))"
proof -
  have "\<forall>h. pg_sess d h = {}" using assms(2) by (simp add: pg_sess_def)
  from pg_auth.authenticated_granted [OF assms(1) this assms(3,4)]
  obtain raw e where raw: "parseSessionCookies (rq_headers rq ''cookie'') = [raw]" "raw \<noteq> []"
    "(u, e) \<in> granted sha hist (sha raw) {}" "now < e" by blast
  from granted_explicit [OF raw(3)] obtain before n l t0 raw0 i b after where
    "hist = before @ (CreateS n l t0 raw0 i, b) # after" "sha raw0 = sha raw" "u = githubUser (show_nat n) l"
    "e = t0 + SESSION_LIFETIME_MS" "\<forall>raw'. raw' \<noteq> [] \<longrightarrow> sha raw' = sha raw \<longrightarrow> (RevokeS raw', True) \<notin> set after"
    unfolding empty_iff by (elim disjE FalseE exE conjE) rule
  with raw(1,2,4) show ?thesis
    by (intro exI [of _ raw] exI [of _ before] exI [of _ n] exI [of _ l] exI [of _ t0] exI [of _ raw0] exI [of _ i]
        exI [of _ b] exI [of _ after] conjI) (assumption | simp only:)+
qed

lemma mem_authenticated_has_login:
  assumes "mem_ok s" "ms_sessions s = []" "auth_run (InMemorySessionStore sha) ps s = (hist, t)"
    and "authenticateSession (InMemorySessionStore sha) now rq t = (Inr u, t')"
  shows "\<exists>raw e. parseSessionCookies (rq_headers rq ''cookie'') = [raw] \<and> raw \<noteq> []
    \<and> (u, e) \<in> granted sha hist (sha raw) {} \<and> now < e"
  using mem_auth.authenticated_granted [OF assms(1) _ assms(3,4)] assms(2) by (simp add: mem_sess_def)

definition cookie_request :: "string \<Rightarrow> Request" where
  "cookie_request c = \<lparr>rq_method = ''GET'', rq_path = ''/'', rq_query = Map.empty,
     rq_headers = [''cookie'' \<mapsto> c], rq_body = []\<rparr>"

definition sample_logins :: "auth_op list" where
  "sample_logins = [CreateS 7 ''octo'' 5 ''s3cret'' ''a'', CleanupS 50 10, RevokeS ''other'', LookupS ''s3cret'' 60]"

theorem authenticated_has_login_witness:
  "\<exists>raw. parseSessionCookies (rq_headers (cookie_request ''__Host-dsh_session=s3cret'') ''cookie'') = [raw] \<and> raw \<noteq> [] \<and>
    (\<exists>before n l t0 raw0 i b after.
      fst (auth_run (PostgresSessionStore id) sample_logins (empty_db 0 [False, False, True]))
        = before @ (CreateS n l t0 raw0 i, b) # after \<and> id raw0 = id raw
      \<and> githubUser ''7'' ''octo'' = githubUser (show_nat n) l \<and> 100 < t0 + SESSION_LIFETIME_MS
      \<and> (\<forall>raw'. raw' \<noteq> [] \<longrightarrow> id raw' = id raw \<longrightarrow> (RevokeS raw', True) \<notin> set after))"
proof (rule authenticated_has_login [OF _ _ prod.collapse [symmetric]])
  let ?r = "authenticateSession (PostgresSessionStore id) 100 (cookie_request ''__Host-dsh_session=s3cret'')
     (snd (auth_run (PostgresSessionStore id) sample_logins (empty_db 0 [False, False, True])))"
  have "fst ?r = Inr (githubUser ''7'' ''octo'')" by code_simp
  then show "?r = (Inr (githubUser ''7'' ''octo''), snd ?r)" by (metis prod.collapse)
qed (simp_all add: empty_db_def pg_ok_def)

text \<open>C22: a login flow is consumed at most once: once a call that consumes the flow of a state parameter
  has returned (with the flow or with none), no later call with that state returns a flow, at
  the same or a later time of the clock, whatever calls run in between, as long as no new flow is
  created under the hash of the state. It holds of the PostgreSQL store and of the in-memory store.\<close>

theorem login_flow_consumed_once:
  assumes "st \<noteq> []" "t1 \<le> t2" "\<forall>p \<in> set ps. \<not> logs_in sha (sha st) p"
  shows "(pg_ok d \<longrightarrow> ss_consumeLoginFlow (PostgresSessionStore sha) st t1 d = (Inr og, d1) \<longrightarrow>
      auth_run (PostgresSessionStore sha) ps d1 = (hist, d2) \<longrightarrow>
      fst (ss_consumeLoginFlow (PostgresSessionStore sha) st t2 d2) \<noteq> Inr (Some g))
    \<and> (mem_ok m \<longrightarrow> ss_consumeLoginFlow (InMemorySessionStore sha) st t1 m = (Inr og', m1) \<longrightarrow>
      auth_run (InMemorySessionStore sha) ps m1 = (hist', m2) \<longrightarrow>
      fst (ss_consumeLoginFlow (InMemorySessionStore sha) st t2 m2) \<noteq> Inr (Some g))"
  using pg_auth.consumed_once [OF _ _ _ assms(3,2,1)] mem_auth.consumed_once [OF _ _ _ assms(3,2,1)] by blast

theorem login_flow_consumed_once_witness:
  "(let flow = \<lparr>cf_codeVerifier = ''v'', cf_returnTo = None, cf_bindingHash = ''00''\<rparr>;
        made = snd (pg_createLoginFlow id ''st'' flow 0 (empty_db 0 []));
        taken = pg_consumeLoginFlow id ''st'' 5 made;
        after = snd (auth_run (PostgresSessionStore id) [CreateF ''other'' flow 6] (snd taken)) in
    fst taken = Inr (Some flow) \<and> fst (pg_consumeLoginFlow id ''st'' 7 after) \<noteq> Inr (Some flow))"
proof -
  define flow where "flow = \<lparr>cf_codeVerifier = ''v'', cf_returnTo = None, cf_bindingHash = ''00''\<rparr>"
  define made where "made = snd (pg_createLoginFlow id ''st'' flow 0 (empty_db 0 []))"
  have "pg_ok (empty_db 0 [])" by (simp add: pg_ok_def empty_db_def)
  then have ok: "pg_ok made"
    unfolding made_def using pg_flow_adds [of "empty_db 0 []" id "''st''" flow 0] by (metis prod.collapse)
  have hit: "fst (pg_consumeLoginFlow id ''st'' 5 made) = Inr (Some flow)"
    unfolding made_def flow_def by code_simp
  then have once: "pg_consumeLoginFlow id ''st'' 5 made = (Inr (Some flow), snd (pg_consumeLoginFlow id ''st'' 5 made))"
    by (metis prod.collapse)
  have "fst (pg_consumeLoginFlow id ''st'' 7 (snd (auth_run (PostgresSessionStore id) [CreateF ''other'' flow 6]
      (snd (pg_consumeLoginFlow id ''st'' 5 made))))) \<noteq> Inr (Some flow)"
    using login_flow_consumed_once [of "''st''" 5 7 "[CreateF ''other'' flow 6]" id made "Some flow"] ok once
    by (simp add: pg_store_fields del: auth_run.simps) (metis prod.collapse)
  with hit show ?thesis unfolding Let_def made_def flow_def by simp
qed

end
