(* ===== verification/Broker.thy ===== *)
theory Broker
  imports Encoding Handlers
begin

text \<open>
  The GitHub App credential broker and the repository authorizer
  (\<open>packages/github-credential-broker/src/index.ts\<close>). The secret provider, the HTTP transport, the RSA
  signature, \<open>Date.parse\<close> (whose accepted texts depend on the engine) and the engine's error messages are
  parameters; the clock is a function of the world. A transport that never answers throws \<open>Pending\<close>:
  nothing but a timeout catches it.
\<close>

section \<open>Data\<close>

record Repository =
  repo_owner :: string
  repo_name :: string

record TemporaryToken =
  tok :: string
  tok_expiresAt :: string

definition TOKEN_CACHE_SAFETY_MARGIN_MS :: int where
  "TOKEN_CACHE_SAFETY_MARGIN_MS = 5 * 60 * 1000"

definition GITHUB_APP_JWT_LIFETIME_MS :: int where
  "GITHUB_APP_JWT_LIFETIME_MS = 10 * 60 * 1000"

record GitHubAppSecrets =
  appId :: string
  privateKeyPem :: string

record HttpRequest =
  hq_method :: string
  hq_url :: string
  hq_headers :: "(string \<times> string) list"

record HttpResponse =
  hr_status :: nat
  hr_body :: string

datatype broker_error = PlainError string | TransientError string | InputError string | Pending

text \<open>The effective expiry of an entry is \<open>None\<close> for \<open>NaN\<close>.\<close>

record CacheEntry =
  ce_token :: TemporaryToken
  ce_cachedUntil :: "int option"

record 'w GitHubCredentialBrokerOptions =
  secretProvider :: "('w, broker_error, GitHubAppSecrets) comp"
  transport :: "HttpRequest \<Rightarrow> ('w, broker_error, HttpResponse) comp"
  br_clock :: "'w \<Rightarrow> int"
  br_sign :: "string \<Rightarrow> string \<Rightarrow> broker_error + string"
  br_parse_date :: "string \<Rightarrow> int option"
  br_syntaxError :: "string \<Rightarrow> string"
  br_typeError :: string
  br_apiBaseUrl :: "string option"
  br_timeoutMs :: nat

text \<open>The state of a broker: its cache, the requests it has sent, and the world.\<close>

record 'w broker =
  br_cache :: "string \<rightharpoonup> CacheEntry"
  br_sent :: "HttpRequest list"
  br_world :: 'w

type_synonym ('w, 'a) brokered = "('w broker, broker_error, 'a) comp"

definition in_world :: "('w, broker_error, 'a) comp \<Rightarrow> ('w, 'a) brokered" where
  "in_world m = zoomC br_world (\<lambda>w s. s\<lparr>br_world := w\<rparr>) (\<lambda>e. e) m"

definition send :: "'w GitHubCredentialBrokerOptions \<Rightarrow> HttpRequest \<Rightarrow> ('w, HttpResponse) brokered" where
  "send opts rq = thenC (modifyC (\<lambda>s. s\<lparr>br_sent := br_sent s @ [rq]\<rparr>)) (in_world (transport opts rq))"

section \<open>The token cache\<close>

definition cache_key :: "Repository \<Rightarrow> string" where
  "cache_key r = repo_owner r @ ''/'' @ repo_name r"

definition cache_get :: "'w GitHubCredentialBrokerOptions \<Rightarrow> Repository \<Rightarrow> ('w, TemporaryToken option) brokered" where
  "cache_get opts r = bindC (getC (\<lambda>s. (br_cache s (cache_key r), br_clock opts (br_world s)))) (\<lambda>(found, now).
     case found of
       None \<Rightarrow> ret None
     | Some e \<Rightarrow> (case ce_cachedUntil e of
           Some until \<Rightarrow>
             if now \<ge> until then thenC (modifyC (\<lambda>s. s\<lparr>br_cache := (br_cache s)(cache_key r := None)\<rparr>)) (ret None)
             else ret (Some (ce_token e))
         | None \<Rightarrow> ret (Some (ce_token e))))"

definition cache_set :: "'w GitHubCredentialBrokerOptions \<Rightarrow> Repository \<Rightarrow> TemporaryToken \<Rightarrow> ('w, unit) brokered" where
  "cache_set opts r t = modifyC (\<lambda>s. s\<lparr>br_cache := (br_cache s)(cache_key r \<mapsto>
     \<lparr>ce_token = t, ce_cachedUntil = map_option (\<lambda>ms. ms - TOKEN_CACHE_SAFETY_MARGIN_MS) (br_parse_date opts (tok_expiresAt t))\<rparr>)\<rparr>)"

definition cache_clear :: "Repository \<Rightarrow> ('w, unit) brokered" where
  "cache_clear r = modifyC (\<lambda>s. s\<lparr>br_cache := (br_cache s)(cache_key r := None)\<rparr>)"

definition cache_clearAll :: "('w, unit) brokered" where
  "cache_clearAll = modifyC (\<lambda>s. s\<lparr>br_cache := Map.empty\<rparr>)"

section \<open>The App JWT\<close>

definition createGitHubAppJwt :: "'w GitHubCredentialBrokerOptions \<Rightarrow> GitHubAppSecrets \<Rightarrow> int \<Rightarrow> broker_error + string" where
  "createGitHubAppJwt opts secrets nowMs =
     (let nowSec = nowMs div 1000;
          header = JObj [(''alg'', JStr ''RS256''), (''typ'', JStr ''JWT'')];
          payload = JObj [(''iat'', JNum (nowSec - 60)), (''exp'', JNum (nowSec + GITHUB_APP_JWT_LIFETIME_MS div 1000 - 30)),
                          (''iss'', JStr (appId secrets))];
          signingInput = base64Url (json_show header) @ ''.'' @ base64Url (json_show payload) in
      case br_sign opts (privateKeyPem secrets) signingInput of
        Inl e \<Rightarrow> Inl e
      | Inr signature \<Rightarrow> Inr (signingInput @ ''.'' @ base64Url signature))"

section \<open>Issuing a token\<close>

definition api_base :: "'w GitHubCredentialBrokerOptions \<Rightarrow> string" where
  "api_base opts = rev (dropWhile (\<lambda>c. c = slash) (rev
     (case br_apiBaseUrl opts of None \<Rightarrow> ''https://api.github.com'' | Some u \<Rightarrow> u)))"

definition github_request :: "string \<Rightarrow> string \<Rightarrow> string \<Rightarrow> HttpRequest" where
  "github_request method url bearer = \<lparr>hq_method = method, hq_url = url,
     hq_headers = [(''Authorization'', ''Bearer '' @ bearer), (''Accept'', ''application/vnd.github+json''),
                   (''X-GitHub-Api-Version'', ''2022-11-28'')]\<rparr>"

text \<open>\<open>JSON.parse\<close> of a response body and then a property access, which fails on \<open>null\<close>.\<close>

definition parse_body :: "'w GitHubCredentialBrokerOptions \<Rightarrow> string \<Rightarrow> broker_error + json" where
  "parse_body opts b = (case json_parse b of
       None \<Rightarrow> Inl (PlainError (br_syntaxError opts b))
     | Some v \<Rightarrow> if v = JNull then Inl (PlainError (br_typeError opts)) else Inr v)"

definition installation_url :: "'w GitHubCredentialBrokerOptions \<Rightarrow> Repository \<Rightarrow> string" where
  "installation_url opts r = api_base opts @ ''/repos/'' @ encodeURIComponent (repo_owner r) @ ''/''
     @ encodeURIComponent (repo_name r) @ ''/installation''"

definition fetchInstallationId :: "'w GitHubCredentialBrokerOptions \<Rightarrow> Repository \<Rightarrow> string \<Rightarrow> ('w, string) brokered" where
  "fetchInstallationId opts r jwt =
     bindC (send opts (github_request ''GET'' (installation_url opts r) jwt)) (\<lambda>res.
       if hr_status res \<noteq> 200 then throwC (PlainError (''Failed to resolve installation for '' @ repo_owner r @ ''/''
          @ repo_name r @ '': '' @ show_nat (hr_status res) @ '' '' @ hr_body res))
       else bindC (liftE (parse_body opts (hr_body res))) (\<lambda>v. case json_field v ''id'' of
           Some i \<Rightarrow> if js_number i then ret (js_string i) else throwC (PlainError ''Invalid installation response: missing id'')
         | None \<Rightarrow> throwC (PlainError ''Invalid installation response: missing id'')))"

definition token_url :: "'w GitHubCredentialBrokerOptions \<Rightarrow> string \<Rightarrow> string" where
  "token_url opts i = api_base opts @ ''/app/installations/'' @ i @ ''/access_tokens''"

definition createInstallationToken :: "'w GitHubCredentialBrokerOptions \<Rightarrow> string \<Rightarrow> string \<Rightarrow> ('w, TemporaryToken) brokered" where
  "createInstallationToken opts i jwt =
     bindC (send opts (github_request ''POST'' (token_url opts i) jwt)) (\<lambda>res.
       if hr_status res \<noteq> 201 \<and> hr_status res \<noteq> 200
       then throwC (PlainError (''Failed to create installation token: '' @ show_nat (hr_status res) @ '' '' @ hr_body res))
       else bindC (liftE (parse_body opts (hr_body res))) (\<lambda>v.
         case (json_field v ''token'', json_field v ''expires_at'') of
           (Some t, Some x) \<Rightarrow>
             if \<not> truthy t \<or> \<not> truthy x then throwC (PlainError ''Invalid token response'')
             else ret \<lparr>tok = js_string t, tok_expiresAt = js_string x\<rparr>
         | _ \<Rightarrow> throwC (PlainError ''Invalid token response'')))"

definition issueToken :: "'w GitHubCredentialBrokerOptions \<Rightarrow> Repository \<Rightarrow> ('w, TemporaryToken) brokered" where
  "issueToken opts r =
     bindC (in_world (secretProvider opts)) (\<lambda>secrets.
     bindC (getC (\<lambda>s. br_clock opts (br_world s))) (\<lambda>now.
     bindC (liftE (createGitHubAppJwt opts secrets now)) (\<lambda>jwt.
     bindC (fetchInstallationId opts r jwt) (\<lambda>i.
     bindC (createInstallationToken opts i jwt) (\<lambda>t.
       thenC (cache_set opts r t) (ret t))))))"

definition getInstallationToken :: "'w GitHubCredentialBrokerOptions \<Rightarrow> Repository \<Rightarrow> ('w, TemporaryToken) brokered" where
  "getInstallationToken opts r =
     bindC (cache_get opts r) (\<lambda>cached. case cached of
         Some t \<Rightarrow> ret t
       | None \<Rightarrow> issueToken opts r)"

definition withInstallationToken ::
  "'w GitHubCredentialBrokerOptions \<Rightarrow> Repository \<Rightarrow> (string \<Rightarrow> ('w, 'a) brokered) \<Rightarrow> ('w, 'a) brokered" where
  "withInstallationToken opts r f = bindC (getInstallationToken opts r) (\<lambda>t. f (tok t))"

section \<open>Tokens for git\<close>

definition gitAuthArgs :: "string \<Rightarrow> string list" where
  "gitAuthArgs token = [''-c'', ''http.https://github.com/.extraheader=Authorization: Basic ''
     @ base64 (''x-access-token:'' @ token)]"

definition gitAuthEnv :: "string \<Rightarrow> (string \<times> string) list" where
  "gitAuthEnv token = []"

definition buildSafeRemoteUrl :: "Repository \<Rightarrow> string" where
  "buildSafeRemoteUrl r = ''https://github.com/'' @ repo_owner r @ ''/'' @ repo_name r @ ''.git''"

definition token_char_re :: rx where
  "token_char_re = Plus (Cls (\<lambda>c. alnum c \<or> c = CHR ''_''))"

definition assertNoTokenInValue :: "string \<Rightarrow> string option \<Rightarrow> broker_error + unit" where
  "assertNoTokenInValue v token =
     (if (case token of None \<Rightarrow> False | Some t \<Rightarrow> t \<noteq> [] \<and> contains t v)
      then Inl (PlainError (''Token detected in persisted value '' @ em_dash @ '' this is forbidden''))
      else if rx_test (Cat (lit ''ghs_'') token_char_re) [] v \<or> rx_test (Cat (lit ''github_pat_'') token_char_re) [] v
      then Inl (PlainError ''Token-like pattern detected in persisted value'')
      else if contains ''x-access-token:'' v
         \<or> rx_test (Cat (lit ''https://'') (Cat (Plus (Cls (\<lambda>c. c \<noteq> CHR ''@''))) (lit ''@github.com''))) [] v
      then Inl (PlainError (''Token-embedded remote URL detected '' @ em_dash @ '' use http.extraheader instead''))
      else Inr ())"

section \<open>The repository authorizer\<close>

definition SUFFICIENT_PERMISSIONS :: "string list" where
  "SUFFICIENT_PERMISSIONS = [''admin'', ''maintain'', ''write'', ''triage'', ''read'']"

definition race_timeout :: "nat \<Rightarrow> string \<Rightarrow> ('w, 'a) brokered \<Rightarrow> ('w, 'a) brokered" where
  "race_timeout ms label m = catchC m (\<lambda>e. case e of
       Pending \<Rightarrow> throwC (TransientError (label @ '' timed out after '' @ show_nat ms @ ''ms''))
     | _ \<Rightarrow> throwC e)"

record permission_outcome =
  po_status :: nat
  po_permission :: "string option"
  po_userId :: "string option"

definition read_permission :: "json \<Rightarrow> permission_outcome" where
  "read_permission v = \<lparr>po_status = 200,
     po_permission = (case json_field v ''permission'' of Some (JStr p) \<Rightarrow> Some p | _ \<Rightarrow> None),
     po_userId = (case json_field v ''user'' of
         Some u \<Rightarrow> (case json_field u ''id'' of Some i \<Rightarrow> if js_number i then Some (js_string i) else None | None \<Rightarrow> None)
       | None \<Rightarrow> None)\<rparr>"

definition permissionLevel ::
  "'w GitHubCredentialBrokerOptions \<Rightarrow> string \<Rightarrow> string \<Rightarrow> ('w, permission_outcome) brokered" where
  "permissionLevel opts token url =
     bindC (catchC (race_timeout (br_timeoutMs opts) ''GitHub permission lookup'' (send opts (github_request ''GET'' url token)))
              (\<lambda>e. case e of
                  PlainError m \<Rightarrow> throwC (TransientError (''GitHub permission lookup failed: '' @ take 120 m))
                | InputError m \<Rightarrow> throwC (TransientError (''GitHub permission lookup failed: '' @ take 120 m))
                | _ \<Rightarrow> throwC e)) (\<lambda>res.
       if hr_status res \<noteq> 200 then ret \<lparr>po_status = hr_status res, po_permission = None, po_userId = None\<rparr>
       else (case json_parse (hr_body res) of
           None \<Rightarrow> throwC (TransientError ''GitHub permission lookup answered non-JSON'')
         | Some v \<Rightarrow> ret (read_permission v)))"

text \<open>The test \<open>/:\s*404(\s|$)/\<close>.\<close>

fun says_404 :: "string \<Rightarrow> bool" where
  "says_404 [] = False"
| "says_404 (c # s) =
     (let t = dropWhile is_space s in
      c = CHR '':'' \<and> take 3 t = ''404'' \<and> (drop 3 t = [] \<or> is_space (hd (drop 3 t))) \<or> says_404 s)"

definition permission_url :: "'w GitHubCredentialBrokerOptions \<Rightarrow> string \<Rightarrow> string \<Rightarrow> string \<Rightarrow> string" where
  "permission_url opts owner repo login = api_base opts @ ''/repos/'' @ encodeURIComponent owner @ ''/''
     @ encodeURIComponent repo @ ''/collaborators/'' @ encodeURIComponent login @ ''/permission''"

fun of_validation :: "authz_error + unit \<Rightarrow> broker_error + unit" where
  "of_validation (Inr u) = Inr u"
| "of_validation (Inl (RepositoryInputError m)) = Inl (InputError m)"
| "of_validation (Inl _) = Inl (PlainError [])"

definition canReadRepository ::
  "'w GitHubCredentialBrokerOptions \<Rightarrow> string \<Rightarrow> string \<Rightarrow> string \<Rightarrow> string \<Rightarrow> ('w, bool) brokered" where
  "canReadRepository opts owner repo githubId login =
     thenC (liftE (of_validation (validateRepositoryCoordinates owner repo)))
    (if login = [] \<or> githubId = [] then throwC (InputError ''github user identity is required'')
     else bindC (tryC (race_timeout (br_timeoutMs opts) ''GitHub repository authorization''
              (withInstallationToken opts \<lparr>repo_owner = owner, repo_name = repo\<rparr>
                 (\<lambda>token. permissionLevel opts token (permission_url opts owner repo login))))) (\<lambda>r. case r of
         Inl (PlainError m) \<Rightarrow>
           if says_404 m then ret False
           else throwC (TransientError (''GitHub authorization check failed: '' @ take 120 m))
       | Inl e \<Rightarrow> throwC e
       | Inr outcome \<Rightarrow>
           if po_status outcome = 404 then ret False
           else if po_status outcome \<noteq> 200
           then throwC (TransientError (''GitHub permission lookup answered '' @ show_nat (po_status outcome)))
           else if po_userId outcome \<noteq> Some githubId then ret False
           else ret (case po_permission outcome of None \<Rightarrow> False | Some p \<Rightarrow> p \<in> set SUFFICIENT_PERMISSIONS)))"

end
