(* ===== verification/Sql_Store.thy ===== *)
theory Sql_Store
  imports Broker Runtime_World
begin

text \<open>
  The rest of \<open>apps/control-plane/src/prod-adapters.ts\<close>: the transactional state store over the table
  of workspaces, which meets the same contract as the in-memory store of the tests, and the cached
  readiness probe of the database.
\<close>

section \<open>The state store over SQL\<close>

text \<open>
  What a persist callback asks to be written: a bundle reference, or a value that is none. The column holds
  one of the ten states. A failing statement is an \<open>Error\<close> that is no runtime error.
\<close>

datatype persist_payload = Bundle string string | NoBundle

type_synonym sql_callback = "TransitionRecord \<Rightarrow> (string \<times> persist_payload) list \<times> (thrown + unit)"

definition sql_error :: "repo_error \<Rightarrow> thrown" where
  "sql_error e = throw_new (External (repo_message e))"

definition dbt :: "'a sql \<Rightarrow> (db, thrown, 'a) comp" where
  "dbt m = zoomC (\<lambda>d. d) (\<lambda>d _. d) sql_error m"

definition stored_state :: "string \<Rightarrow> db \<Rightarrow> runtime_state option" where
  "stored_state w d = map_option runtime_state_col (workspace_row w d)"

definition sql_load :: "string \<Rightarrow> (db, thrown, runtime_state option) comp" where
  "sql_load w = dbt (select (stored_state w))"

text \<open>The statements of one callback, in order; each row gets a fresh id.\<close>

fun sql_persist :: "string \<Rightarrow> (string \<times> persist_payload) list \<Rightarrow> (db, thrown, unit) comp" where
  "sql_persist w [] = ret ()"
| "sql_persist w ((uuid, Bundle sha obj) # ps) =
     thenC (dbt (insert_checkpoint \<lparr>ck_id = uuid, ck_workspace = w, ck_base_commit = sha, ck_gcs_object = obj, ck_created_at = 0\<rparr>))
       (sql_persist w ps)"
| "sql_persist w ((_, NoBundle) # ps) = throwC (throw_new (External
     ''persist payload must be { baseCommitSha: string; gcsObject: string } (workspace_checkpoints schema)''))"

definition sql_transaction :: "(db, thrown, 'a) comp \<Rightarrow> (db, thrown, 'a) comp" where
  "sql_transaction body = (\<lambda>d. case body d of
       (Inl e, d') \<Rightarrow> (Inl e, d\<lparr>outages := outages d'\<rparr>)
     | (Inr a, d') \<Rightarrow> (case dbt (sql (ret ())) d' of
           (Inl e, d'') \<Rightarrow> (Inl e, d\<lparr>outages := outages d''\<rparr>)
         | (Inr _, d'') \<Rightarrow> (Inr a, d'')))"

definition sql_apply ::
  "int \<Rightarrow> string option \<Rightarrow> sql_callback option \<Rightarrow> string \<Rightarrow> runtime_state \<Rightarrow> runtime_state \<Rightarrow> (db, thrown, unit) comp" where
  "sql_apply now reason persist w from to = sql_transaction
     (bindC (dbt (select (stored_state w))) (\<lambda>current.
        if current \<noteq> Some from
        then throwC (throw_new (IllegalTransitionError (case current of None \<Rightarrow> STOPPED | Some c \<Rightarrow> c) to))
        else thenC (dbt (update_workspace w (\<lambda>r. r\<lparr>runtime_state_col := to\<rparr>)))
          (case persist of
             None \<Rightarrow> ret ()
           | Some f \<Rightarrow>
               (case f \<lparr>tr_workspaceId = w, tr_from = from, tr_to = to, tr_at = now, tr_reason = reason\<rparr> of (ps, outcome) \<Rightarrow>
                  thenC (sql_persist w ps) (liftE outcome)))))"

subsection \<open>It meets the contract\<close>

definition sql_row :: "db \<Rightarrow> string \<Rightarrow> runtime_state" where
  "sql_row d w = (case stored_state w d of None \<Rightarrow> STOPPED | Some st \<Rightarrow> st)"

lemma stored_outages [simp]: "stored_state w (d\<lparr>outages := os\<rparr>) = stored_state w d"
  by (simp add: stored_state_def)

lemma sql_row_outages [simp]: "sql_row (d\<lparr>outages := os\<rparr>) = sql_row d"
  by (simp add: sql_row_def fun_eq_iff)

lemma dbt_select:
  assumes "dbt (select q) d = (r, d')"
  shows "(\<exists>os. d' = d\<lparr>outages := os\<rparr>) \<and> (\<forall>a. r = Inr a \<longrightarrow> (\<exists>os. a = q (d\<lparr>outages := os\<rparr>)))"
proof -
  from select_run [of q d] obtain os v where v: "select q d = (v, d\<lparr>outages := os\<rparr>)" "v = Inr (q (d\<lparr>outages := os\<rparr>)) \<or> (\<exists>e. v = Inl e)"
    by blast
  with assms show ?thesis by (auto simp: dbt_def zoomC_def)
qed

lemma dbt_returns: "dbt m d = (Inr a, d') \<Longrightarrow> m d = (Inr a, d')"
  by (auto simp: dbt_def zoomC_def split: prod.splits sum.splits)

lemma transaction_rolls_back: "sql_transaction m d = (Inl e, d') \<Longrightarrow> \<exists>os. d' = d\<lparr>outages := os\<rparr>"
  by (auto simp: sql_transaction_def split: prod.splits sum.splits)

lemma find_map_id:
  "(\<And>r. row_id (f r) = row_id r) \<Longrightarrow> List.find (\<lambda>r. row_id r = x) (map f rs) = map_option f (List.find (\<lambda>r. row_id r = x) rs)"
  by (induction rs) simp_all

lemma update_state:
  assumes "dbt (update_workspace w (\<lambda>r. r\<lparr>runtime_state_col := to\<rparr>)) d = (Inr u, d')"
  shows "stored_state x d' = (if x = w then map_option (\<lambda>_. to) (stored_state w d) else stored_state x d)"
proof -
  note os = assms [THEN dbt_returns, unfolded update_workspace_def, THEN sql_returns, THEN exE]
  show ?thesis
  proof (cases "workspace_row w d")
    case None
    have "stored_state w d = None" by (simp add: stored_state_def None)
    moreover obtain os where "d' = d\<lparr>outages := os\<rparr>" by (rule os) (auto simp: None)
    ultimately show ?thesis by simp
  next
    case (Some r)
    obtain os t where "d' = d\<lparr>outages := os, workspaces := map (\<lambda>r. if row_id r = w
             then r\<lparr>runtime_state_col := to, updated_at := t\<rparr> else r) (workspaces d)\<rparr>"
      by (rule os, use Some in \<open>auto simp: violates_def throwC_def split: if_splits\<close>)
    then have row: "workspace_row x d' = map_option (\<lambda>r. if row_id r = w
             then r\<lparr>runtime_state_col := to, updated_at := t\<rparr> else r) (workspace_row x d)"
      by (simp add: workspace_row_def find_map_id)
    have "row_id q = x" if "workspace_row x d = Some q" for q
      using that by (auto simp: workspace_row_def find_Some_iff)
    then show ?thesis
      unfolding stored_state_def row by (cases "workspace_row x d") (auto simp del: workspace_row_iff)
  qed
qed

lemma insert_checkpoint_keeps: "dbt (insert_checkpoint c) d = (r, d') \<Longrightarrow> stored_state x d' = stored_state x d"
  by (auto simp: dbt_def zoomC_def insert_checkpoint_def sql_def violates_def throwC_def stored_state_def workspace_row_def Let_def
      split: list.splits bool.splits if_splits sum.splits)

lemma sql_persist_keeps: "sql_persist w ps d = (r, d') \<Longrightarrow> stored_state x d' = stored_state x d"
proof (induction w ps arbitrary: d rule: sql_persist.induct)
  case (2 w uuid sha obj ps)
  then show ?case
    by (auto simp: run_simps split: sum.splits prod.splits dest: insert_checkpoint_keeps)
qed (auto simp: run_simps)

lemma transaction_commits:
  "sql_transaction m d = (Inr a, d') \<Longrightarrow> \<exists>u os. m d = (Inr a, u) \<and> d' = u\<lparr>outages := os\<rparr>"
  by (fastforce simp: sql_transaction_def dbt_def zoomC_def ret_def split: sum.splits prod.splits dest: sql_returns)

lemma sql_apply_moves:
  assumes "sql_apply now reason persist w from to d = (Inr u, d')"
  shows "stored_state w d = Some from" and "stored_state x d' = (if x = w then Some to else stored_state x d)"
proof -
  let ?rec = "\<lparr>tr_workspaceId = w, tr_from = from, tr_to = to, tr_at = now, tr_reason = reason\<rparr>"
  from transaction_commits [OF assms [unfolded sql_apply_def]] obtain v os where d': "d' = v\<lparr>outages := os\<rparr>" and
    body: "bindC (dbt (select (stored_state w))) (\<lambda>current.
        if current \<noteq> Some from
        then throwC (throw_new (IllegalTransitionError (case current of None \<Rightarrow> STOPPED | Some c \<Rightarrow> c) to))
        else thenC (dbt (update_workspace w (\<lambda>r. r\<lparr>runtime_state_col := to\<rparr>)))
          (case persist of None \<Rightarrow> ret () | Some f \<Rightarrow>
               (case f ?rec of (ps, outcome) \<Rightarrow> thenC (sql_persist w ps) (liftE outcome)))) d = (Inr u, v)"
    by blast
  from body obtain d1 where one: "dbt (select (stored_state w)) d = (Inr (Some from), d1)" and
    rest: "thenC (dbt (update_workspace w (\<lambda>r. r\<lparr>runtime_state_col := to\<rparr>)))
          (case persist of None \<Rightarrow> ret () | Some f \<Rightarrow>
               (case f ?rec of (ps, outcome) \<Rightarrow> thenC (sql_persist w ps) (liftE outcome))) d1 = (Inr u, v)"
    by (auto simp: returns_simps split: if_splits)
  from dbt_select [OF one] obtain os1 where d1: "d1 = d\<lparr>outages := os1\<rparr>" and at: "stored_state w d = Some from" by auto
  show "stored_state w d = Some from" by (rule at)
  from rest obtain d2 where two: "dbt (update_workspace w (\<lambda>r. r\<lparr>runtime_state_col := to\<rparr>)) d1 = (Inr (), d2)" and
    three: "(case persist of None \<Rightarrow> ret () | Some f \<Rightarrow>
               (case f ?rec of (ps, outcome) \<Rightarrow> thenC (sql_persist w ps) (liftE outcome))) d2 = (Inr u, v)"
    by (auto simp: returns_simps)
  from three have "stored_state x v = stored_state x d2" for x
    by (auto simp: run_simps dest: sql_persist_keeps split: option.splits prod.splits sum.splits)
  then show "stored_state x d' = (if x = w then Some to else stored_state x d)"
    using update_state [OF two, of x] at d1 d' by auto
qed

lemmas sql_apply_states = sql_apply_moves(2)

interpretation sql_store: transactional_store sql_load "sql_apply now reason persist" sql_row
proof
  fix w d d' st a b u e and r :: "thrown + runtime_state option"
  show "sql_load w d = (Inr (Some st), d') \<Longrightarrow> sql_row d w = st"
    unfolding sql_load_def by (frule dbt_select) (auto simp: sql_row_def eq_commute [of "Some st"])
  show "sql_load w d = (Inr None, d') \<Longrightarrow> sql_row d w = STOPPED"
    unfolding sql_load_def by (frule dbt_select) (auto simp: sql_row_def eq_commute [of None])
  show "sql_load w d = (r, d') \<Longrightarrow> sql_row d' = sql_row d"
    unfolding sql_load_def by (frule dbt_select) auto
  show "sql_apply now reason persist w a b d = (Inr u, d') \<Longrightarrow> sql_row d w = a"
    by (drule sql_apply_moves(1)) (simp add: sql_row_def)
  show "sql_apply now reason persist w a b d = (Inr u, d') \<Longrightarrow> sql_row d' = (sql_row d)(w := b)"
    by (simp add: sql_row_def fun_eq_iff sql_apply_states [of now reason persist w a b d u d'])
  show "sql_apply now reason persist w a b d = (Inl e, d') \<Longrightarrow> sql_row d' = sql_row d"
    unfolding sql_apply_def by (drule transaction_rolls_back) auto
qed

text \<open>
  The two stores agree on what is there: one transaction of each, from the same rows.
\<close>

lemma sql_callback_ok:
  assumes "sql_apply now reason persist w from to d = (Inr u, d')"
  shows "\<exists>ps. (case persist of None \<Rightarrow> ([], Inr ()) | Some f \<Rightarrow>
      f \<lparr>tr_workspaceId = w, tr_from = from, tr_to = to, tr_at = now, tr_reason = reason\<rparr>) = (ps, Inr ())"
  using transaction_commits [OF assms [unfolded sql_apply_def]]
  by (auto simp: returns_simps liftE_def split: if_splits option.splits prod.splits sum.splits)



text \<open>
  Where the two stores differ: a workspace without a row counts as STOPPED for the in-memory store, which
  moves it; over SQL every transition of it is refused.
\<close>

lemma missing_row_differs:
  assumes "stored_state w d = None" "outages d = []" "states s w = None"
  shows "sql_apply now reason persist w STOPPED to d = (Inl (throw_new (IllegalTransitionError STOPPED to)), d)"
    and "\<exists>s'. store_apply now w STOPPED to reason None s = (Inr (), s')"
  using assms by (simp_all add: sql_apply_def sql_transaction_def dbt_def zoomC_def select_def sql_def run_simps store_apply_def Let_def)

section \<open>The readiness probe\<close>

definition DB_READINESS_NOT_READY_REASON :: string where
  "DB_READINESS_NOT_READY_REASON = ''database unreachable: readiness probe (SELECT 1) failed or timed out''"

text \<open>How the race of the query against the timer ends; the last report and when it was made; the lines logged.\<close>

datatype probe_race = Answered | QueryFailed string | ProbeTimedOut

record probe_state =
  pb_cached :: "((bool \<times> string option) \<times> int) option"
  pb_log :: "string list"
  pb_queries :: nat

definition runDbProbe :: "probe_race \<Rightarrow> probe_state \<Rightarrow> (bool \<times> string option) \<times> probe_state" where
  "runDbProbe race s =
     (let s = s\<lparr>pb_queries := Suc (pb_queries s)\<rparr>;
          failed = (\<lambda>m. ((False, Some DB_READINESS_NOT_READY_REASON), s\<lparr>pb_log := pb_log s @ [m]\<rparr>)) in
      case race of
        Answered \<Rightarrow> ((True, None), s)
      | QueryFailed m \<Rightarrow> failed m
      | ProbeTimedOut \<Rightarrow> failed ''readiness probe timed out'')"

text \<open>The clock is read when the probe is asked (\<open>now\<close>) and when the query is done (\<open>after\<close>).\<close>

definition createDbReadinessProbe ::
  "int \<Rightarrow> int \<Rightarrow> int \<Rightarrow> probe_race \<Rightarrow> probe_state \<Rightarrow> (bool \<times> string option) \<times> probe_state" where
  "createDbReadinessProbe cacheTtlMs now after race s =
     (case pb_cached s of
        Some (report, at) \<Rightarrow>
          if now - at < cacheTtlMs then (report, s)
          else (case runDbProbe race s of (report, t) \<Rightarrow> (report, t\<lparr>pb_cached := Some (report, after)\<rparr>))
      | None \<Rightarrow> (case runDbProbe race s of (report, t) \<Rightarrow> (report, t\<lparr>pb_cached := Some (report, after)\<rparr>)))"

end
