(* ===== verification/Broker_Props.thy ===== *)
theory Broker_Props
  imports Broker
begin

text \<open>
  What the broker and the authorizer promise: a token from the cache was issued for the same repository
  and does not expire within the margin, over any sequence of calls; and access is granted only on
  GitHub's own word about the very user.
\<close>

section \<open>Sequences of calls\<close>

datatype 'w broker_op = Get Repository | ClearRepo Repository | ClearAll | Outside "'w \<Rightarrow> 'w"

record got =
  got_repo :: Repository
  got_now :: int
  got_result :: "broker_error + TemporaryToken"
  got_sent :: "HttpRequest list"

fun broker_run :: "'w GitHubCredentialBrokerOptions \<Rightarrow> 'w broker_op list \<Rightarrow> 'w broker \<Rightarrow> got list \<times> 'w broker" where
  "broker_run opts [] s = ([], s)"
| "broker_run opts (Get r # ops) s =
     (case getInstallationToken opts r (s\<lparr>br_sent := []\<rparr>) of (q, t) \<Rightarrow>
        (case broker_run opts ops t of (h, u) \<Rightarrow>
           (\<lparr>got_repo = r, got_now = br_clock opts (br_world s), got_result = q, got_sent = br_sent t\<rparr> # h, u)))"
| "broker_run opts (ClearRepo r # ops) s = broker_run opts ops (snd (cache_clear r s))"
| "broker_run opts (ClearAll # ops) s = broker_run opts ops (snd (cache_clearAll s))"
| "broker_run opts (Outside f # ops) s = broker_run opts ops (s\<lparr>br_world := f (br_world s)\<rparr>)"

section \<open>Issuing\<close>

definition entry_for :: "'w GitHubCredentialBrokerOptions \<Rightarrow> TemporaryToken \<Rightarrow> CacheEntry" where
  "entry_for opts t = \<lparr>ce_token = t,
     ce_cachedUntil = map_option (\<lambda>ms. ms - TOKEN_CACHE_SAFETY_MARGIN_MS) (br_parse_date opts (tok_expiresAt t))\<rparr>"

definition cache_kept :: "'w broker \<Rightarrow> 'w broker \<Rightarrow> bool" where
  "cache_kept s t \<longleftrightarrow> br_cache t = br_cache s \<and> (\<exists>more. br_sent t = br_sent s @ more)"

lemma cache_kept_rel [simp]: "reflp cache_kept" "transp cache_kept"
  by (auto simp: reflp_def transp_def cache_kept_def)

lemma world_kept: "keeps cache_kept (in_world m)"
  by (auto simp: keeps_def in_world_def zoomC_def cache_kept_def split: prod.split sum.split)

lemma send_kept: "keeps cache_kept (send opts rq)"
  unfolding send_def by (intro keeps_then keeps_modify world_kept) (simp_all add: cache_kept_def)

lemma liftE_kept: "keeps cache_kept (liftE r)"
  by (cases r) (simp_all add: liftE_def keeps_ret keeps_throw)

lemma option_kept: "keeps R n \<Longrightarrow> (\<And>x. keeps R (g x)) \<Longrightarrow> keeps R (case v of None \<Rightarrow> n | Some x \<Rightarrow> g x)"
  by (simp split: option.split)

lemma pair_kept: "(\<And>x y. keeps R (g x y)) \<Longrightarrow> keeps R (case p of (x, y) \<Rightarrow> g x y)"
  by (simp split: prod.split)

lemmas kept_intros = keeps_bind keeps_then keeps_if keeps_ret keeps_throw keeps_get option_kept pair_kept liftE_kept
  send_kept world_kept

lemma requests_kept: "keeps cache_kept (fetchInstallationId opts r jwt)" "keeps cache_kept (createInstallationToken opts i jwt)"
  unfolding fetchInstallationId_def createInstallationToken_def by (intro kept_intros; simp)+

lemma send_adds: "send opts rq s = (q, t) \<Longrightarrow> br_sent t = br_sent s @ [rq]"
  by (auto simp: send_def in_world_def zoomC_def run_simps split: prod.splits sum.splits)

lemma fetch_sends:
  assumes "fetchInstallationId opts r jwt s = (q, t)"
  shows "br_sent t \<noteq> [] \<and> br_cache t = br_cache s"
proof -
  obtain q1 t1 where one: "send opts (github_request ''GET'' (installation_url opts r) jwt) s = (q1, t1)" by fastforce
  have "br_sent t \<noteq> []"
    using assms send_adds [OF one] one
    by (auto simp: fetchInstallationId_def run_simps split: sum.splits if_splits option.splits)
  with keeps_run [OF requests_kept(1) assms] show ?thesis by (simp add: cache_kept_def)
qed

lemma issue_cases:
  assumes "issueToken opts r s = (q, t)"
  shows "br_cache t = br_cache s \<and> (\<exists>e. q = Inl e)
     \<or> (\<exists>tk. q = Inr tk \<and> br_cache t = (br_cache s)(cache_key r \<mapsto> entry_for opts tk) \<and> br_sent t \<noteq> [])"
proof -
  obtain q1 t1 where one: "in_world (secretProvider opts) s = (q1, t1)" by fastforce
  from keeps_run [OF world_kept one] have c1: "br_cache t1 = br_cache s" by (simp add: cache_kept_def)
  show ?thesis
  proof (cases q1)
    case (Inl e)
    with assms one c1 show ?thesis by (auto simp: issueToken_def run_simps)
  next
    case (Inr secrets)
    let ?j = "createGitHubAppJwt opts secrets (br_clock opts (br_world t1))"
    show ?thesis
    proof (cases ?j)
      case (Inl e)
      with assms one Inr c1 show ?thesis by (auto simp: issueToken_def run_simps)
    next
      case jwt: (Inr jwt)
      obtain q2 t2 where two: "fetchInstallationId opts r jwt t1 = (q2, t2)" by fastforce
      note f = fetch_sends [OF two]
      show ?thesis
      proof (cases q2)
        case (Inl e)
        with assms one Inr jwt two f c1 show ?thesis by (auto simp: issueToken_def run_simps)
      next
        case i: (Inr i)
        obtain q3 t3 where three: "createInstallationToken opts i jwt t2 = (q3, t3)" by fastforce
        from keeps_run [OF requests_kept(2) three] have c3: "br_cache t3 = br_cache t2" "br_sent t3 \<noteq> []"
          using f by (auto simp: cache_kept_def)
        with assms one Inr jwt two i three f c1 show ?thesis
          by (cases q3) (auto simp: issueToken_def run_simps cache_set_def entry_for_def)
      qed
    qed
  qed
qed

text \<open>A call of the broker: served from the cache with time to spare, or issued anew, or failed.\<close>

lemma get_cases:
  assumes "getInstallationToken opts r (s\<lparr>br_sent := []\<rparr>) = (q, t)"
  shows "(\<exists>e. br_cache s (cache_key r) = Some e \<and> q = Inr (ce_token e) \<and> br_cache t = br_cache s \<and> br_sent t = []
        \<and> (\<forall>until. ce_cachedUntil e = Some until \<longrightarrow> br_clock opts (br_world s) < until))
     \<or> (\<exists>c. (c = br_cache s \<or> c = (br_cache s)(cache_key r := None)) \<and>
          (br_cache t = c \<and> (\<exists>e. q = Inl e)
           \<or> (\<exists>tk. q = Inr tk \<and> br_cache t = c(cache_key r \<mapsto> entry_for opts tk) \<and> br_sent t \<noteq> [])))"
proof (cases "br_cache s (cache_key r)")
  case None
  with assms have "issueToken opts r (s\<lparr>br_sent := []\<rparr>) = (q, t)" by (simp add: getInstallationToken_def cache_get_def run_simps)
  from issue_cases [OF this] show ?thesis by auto
next
  case (Some e)
  show ?thesis
  proof (cases "\<exists>until. ce_cachedUntil e = Some until \<and> until \<le> br_clock opts (br_world s)")
    case True
    with assms Some have "issueToken opts r (s\<lparr>br_sent := [], br_cache := (br_cache s)(cache_key r := None)\<rparr>) = (q, t)"
      by (auto simp: getInstallationToken_def cache_get_def run_simps)
    from issue_cases [OF this] show ?thesis by auto
  next
    case False
    with assms Some have "q = Inr (ce_token e) \<and> t = s\<lparr>br_sent := []\<rparr>"
      by (auto simp: getInstallationToken_def cache_get_def run_simps split: option.splits)
    with Some False show ?thesis by auto
  qed
qed

section \<open>The cache over any sequence\<close>

text \<open>\<open>backed opts h s\<close>: every entry of the cache was issued by a call of the history \<open>h\<close>.\<close>

definition issued_by :: "'w GitHubCredentialBrokerOptions \<Rightarrow> got list \<Rightarrow> string \<Rightarrow> CacheEntry \<Rightarrow> bool" where
  "issued_by opts h k e \<longleftrightarrow> e = entry_for opts (ce_token e)
     \<and> (\<exists>g \<in> set h. cache_key (got_repo g) = k \<and> got_result g = Inr (ce_token e) \<and> got_sent g \<noteq> [])"

definition backed :: "'w GitHubCredentialBrokerOptions \<Rightarrow> got list \<Rightarrow> 'w broker \<Rightarrow> bool" where
  "backed opts h s \<longleftrightarrow> (\<forall>k e. br_cache s k = Some e \<longrightarrow> issued_by opts h k e)"

lemma issued_mono: "issued_by opts h k e \<Longrightarrow> set h \<subseteq> set h' \<Longrightarrow> issued_by opts h' k e"
  by (auto simp: issued_by_def)

lemma get_backed:
  assumes "backed opts h s" "getInstallationToken opts r (s\<lparr>br_sent := []\<rparr>) = (q, t)"
  defines "g \<equiv> \<lparr>got_repo = r, got_now = br_clock opts (br_world s), got_result = q, got_sent = br_sent t\<rparr>"
  shows "backed opts (h @ [g]) t"
proof -
  have old: "issued_by opts (h @ [g]) k e" if "br_cache s k = Some e" for k e
    using assms(1) that issued_mono [of opts h k e "h @ [g]"] by (simp add: backed_def subset_insertI)
  show ?thesis
    unfolding backed_def
  proof (intro allI impI)
    fix k e
    assume "br_cache t k = Some e"
    with get_cases [OF assms(2)] have "br_cache s k = Some e
        \<or> (\<exists>tk. k = cache_key r \<and> e = entry_for opts tk \<and> q = Inr tk \<and> br_sent t \<noteq> [])"
      by (auto split: if_splits)
    then show "issued_by opts (h @ [g]) k e"
      using old by (auto simp: issued_by_def entry_for_def g_def)
  qed
qed

lemma run_fresh:
  assumes "backed opts past s" "broker_run opts ops s = (hist, u)"
    "hist = before @ g # after" "got_result g = Inr t" "got_sent g = []"
  shows "issued_by opts (past @ before) (cache_key (got_repo g)) (entry_for opts t)
    \<and> (\<forall>ms. br_parse_date opts (tok_expiresAt t) = Some ms \<longrightarrow> got_now g < ms - TOKEN_CACHE_SAFETY_MARGIN_MS)"
  using assms(1-3)
proof (induction opts ops s arbitrary: past hist before rule: broker_run.induct)
  case (1 opts s)
  then show ?case by simp
next
  case (2 opts r ops s)
  obtain q v where q: "getInstallationToken opts r (s\<lparr>br_sent := []\<rparr>) = (q, v)" by fastforce
  obtain h u' where h: "broker_run opts ops v = (h, u')" by fastforce
  let ?g = "\<lparr>got_repo = r, got_now = br_clock opts (br_world s), got_result = q, got_sent = br_sent v\<rparr>"
  from "2.prems"(2) q h have hist: "hist = ?g # h" "u' = u" by auto
  show ?case
  proof (cases before)
    case Nil
    with hist "2.prems"(3) have g: "g = ?g" by simp
    with get_cases [OF q] assms(4,5) obtain e where
      e: "br_cache s (cache_key r) = Some e" "t = ce_token e"
        "\<forall>until. ce_cachedUntil e = Some until \<longrightarrow> br_clock opts (br_world s) < until"
      by auto
    with "2.prems"(1) have i: "issued_by opts past (cache_key r) e" by (auto simp: backed_def)
    then have "e = entry_for opts t" by (simp add: issued_by_def e(2))
    with i e(3) g Nil show ?thesis by (simp add: entry_for_def)
  next
    case (Cons b bs)
    with hist "2.prems"(3) have "h = bs @ g # after" "b = ?g" by simp_all
    with "2.IH" [OF q [symmetric] get_backed [OF "2.prems"(1) q]] h hist Cons show ?thesis by simp
  qed
next
  case (3 opts r ops s)
  have "backed opts past (snd (cache_clear r s))"
    using "3.prems"(1) by (auto simp: cache_clear_def modifyC_def backed_def split: if_splits)
  with "3.IH" "3.prems" show ?case by simp
next
  case (4 opts ops s)
  have "backed opts past (snd (cache_clearAll s))" by (simp add: cache_clearAll_def modifyC_def backed_def)
  with "4.IH" "4.prems" show ?case by simp
next
  case (5 opts f ops s)
  have "backed opts past (s\<lparr>br_world := f (br_world s)\<rparr>)" using "5.prems"(1) by (simp add: backed_def)
  with "5.IH" "5.prems" show ?case by simp
qed

lemma cache_key_inj:
  assumes "cache_key r = cache_key r'" "slash \<notin> set (repo_owner r)" "slash \<notin> set (repo_owner r')"
  shows "r = r'"
proof -
  have "takeWhile (\<lambda>c. c \<noteq> slash) (cache_key x) = repo_owner x" if "slash \<notin> set (repo_owner x)" for x
    using that by (auto simp: cache_key_def takeWhile_append1 takeWhile_tail)
  with assms have "repo_owner r = repo_owner r'" by metis
  with assms(1) show ?thesis by (cases r; cases r') (simp add: cache_key_def)
qed

text \<open>A GitHub that answers every request of user 7, for the witnesses; its world is the time.\<close>

definition quoted :: "string \<Rightarrow> string" where
  "quoted s = [CHR 0x22] @ s @ [CHR 0x22]"

definition id_body :: string where
  "id_body = ''{'' @ quoted ''id'' @ '':5}''"

definition token_body :: string where
  "token_body = ''{'' @ quoted ''token'' @ '':'' @ quoted ''tk'' @ '','' @ quoted ''expires_at'' @ '':'' @ quoted ''T'' @ ''}''"

definition permission_body :: string where
  "permission_body = ''{'' @ quoted ''permission'' @ '':'' @ quoted ''read'' @ '','' @ quoted ''user'' @ '':{'' @ quoted ''id'' @ '':7}}''"

definition sample_answer :: "HttpRequest \<Rightarrow> HttpResponse" where
  "sample_answer rq =
     (if hq_method rq = ''POST'' then \<lparr>hr_status = 201, hr_body = token_body\<rparr>
      else \<lparr>hr_status = 200, hr_body = (if ends_with ''installation'' (hq_url rq) then id_body else permission_body)\<rparr>)"

definition sample_github :: "int GitHubCredentialBrokerOptions" where
  "sample_github = \<lparr>secretProvider = ret \<lparr>appId = ''1'', privateKeyPem = ''k''\<rparr>, transport = (\<lambda>rq. ret (sample_answer rq)),
     br_clock = id, br_sign = (\<lambda>k x. Inr (take 3 x)), br_parse_date = (\<lambda>x. if x = ''T'' then Some 3600000 else None),
     br_syntaxError = id, br_typeError = [], br_apiBaseUrl = None, br_timeoutMs = 10000\<rparr>"

definition sample_broker :: "int broker" where
  "sample_broker = \<lparr>br_cache = Map.empty, br_sent = [], br_world = 1000\<rparr>"

abbreviation sample_repo :: Repository where "sample_repo \<equiv> \<lparr>repo_owner = ''o'', repo_name = ''r''\<rparr>"

definition sample_gets :: "got list" where
  "sample_gets = fst (broker_run sample_github [Get sample_repo, Outside (\<lambda>w. w + 1000), Get sample_repo] sample_broker)"

lemma sample_bodies:
  "json_parse id_body = Some (JObj [(''id'', JNum 5)])"
  "json_parse token_body = Some (JObj [(''token'', JStr ''tk''), (''expires_at'', JStr ''T'')])"
  "json_parse permission_body = Some (JObj [(''permission'', JStr ''read''), (''user'', JObj [(''id'', JNum 7)])])"
  "show_nat 7 = ''7''"
  by code_simp+

lemma sample_urls:
  "ends_with ''installation'' (installation_url sample_github sample_repo)"
  "\<not> ends_with ''installation'' (permission_url sample_github ''o'' ''r'' ''octo'')"
  by code_simp+

lemma sample_send: "send sample_github rq s = (Inr (sample_answer rq), s\<lparr>br_sent := br_sent s @ [rq]\<rparr>)"
  by (simp add: send_def in_world_def zoomC_def run_simps sample_github_def)

lemma sample_issue:
  "\<exists>a b. issueToken sample_github sample_repo s = (Inr \<lparr>tok = ''tk'', tok_expiresAt = ''T''\<rparr>,
     s\<lparr>br_sent := br_sent s @ [a, b], br_cache := (br_cache s)(cache_key sample_repo \<mapsto>
       entry_for sample_github \<lparr>tok = ''tk'', tok_expiresAt = ''T''\<rparr>)\<rparr>)"
proof -
  obtain j where j: "createGitHubAppJwt sample_github \<lparr>appId = ''1'', privateKeyPem = ''k''\<rparr> (br_world s) = Inr j"
    by (simp add: createGitHubAppJwt_def sample_github_def Let_def)
  have secret: "in_world (secretProvider sample_github) s = (Inr \<lparr>appId = ''1'', privateKeyPem = ''k''\<rparr>, s)"
    "br_clock sample_github = id"
    by (simp_all add: in_world_def zoomC_def sample_github_def run_simps)
  show ?thesis
    by (intro exI [of _ "github_request ''GET'' (installation_url sample_github sample_repo) j"]
              exI [of _ "github_request ''POST'' (token_url sample_github (show_int 5)) j"])
       (simp add: issueToken_def run_simps secret j fetchInstallationId_def createInstallationToken_def sample_send
        sample_answer_def github_request_def sample_urls sample_bodies parse_body_def cache_set_def entry_for_def truthy_def)
qed

text \<open>C29: over any sequence of calls, cache clearings and changes of the world, starting with an empty
  cache: a token that is returned without any request to GitHub was issued by an earlier call for the
  very same repository, and at the time of the call it has more than five minutes left, if its
  expiry is a date at all. Owners hold no slash, as GitHub's names do not.\<close>

theorem cached_token_is_fresh:
  assumes "broker_run opts ops s = (before @ g # after, u)" "br_cache s = Map.empty"
    "got_result g = Inr t" "got_sent g = []" "\<forall>x \<in> set (before @ [g]). slash \<notin> set (repo_owner (got_repo x))"
  shows "(\<exists>x \<in> set before. got_repo x = got_repo g \<and> got_result x = Inr t \<and> got_sent x \<noteq> [])
    \<and> (\<forall>ms. br_parse_date opts (tok_expiresAt t) = Some ms \<longrightarrow> got_now g < ms - 5 * 60 * 1000)"
proof -
  from assms(2) have "backed opts [] s" by (simp add: backed_def)
  from run_fresh [OF this assms(1) refl assms(3,4)] show ?thesis
    using assms(5) cache_key_inj by (fastforce simp: issued_by_def entry_for_def TOKEN_CACHE_SAFETY_MARGIN_MS_def)
qed

theorem cached_token_is_fresh_witness:
  "(\<exists>x \<in> set [sample_gets ! 0]. got_repo x = got_repo (sample_gets ! 1) \<and>
      got_result x = Inr \<lparr>tok = ''tk'', tok_expiresAt = ''T''\<rparr> \<and> got_sent x \<noteq> [])
   \<and> got_now (sample_gets ! 1) < 3600000 - 5 * 60 * 1000"
proof -
  let ?run = "broker_run sample_github [Get sample_repo, Outside (\<lambda>w. w + 1000), Get sample_repo] sample_broker"
  let ?tk = "\<lparr>tok = ''tk'', tok_expiresAt = ''T''\<rparr>"
  obtain a b where "issueToken sample_github sample_repo sample_broker = (Inr ?tk,
     sample_broker\<lparr>br_sent := [a, b], br_cache := [cache_key sample_repo \<mapsto> entry_for sample_github ?tk]\<rparr>)"
    using sample_issue [of sample_broker] by (auto simp: sample_broker_def)
  then obtain g h where gets: "sample_gets = [g, h]" "got_result h = Inr ?tk" "got_sent h = []"
      "got_repo g = sample_repo" "got_repo h = sample_repo"
    by (simp add: sample_gets_def getInstallationToken_def cache_get_def run_simps sample_broker_def entry_for_def
        sample_github_def TOKEN_CACHE_SAFETY_MARGIN_MS_def)
  have facts: "length sample_gets = 2" "got_result (sample_gets ! 1) = Inr ?tk" "got_sent (sample_gets ! 1) = []"
    "repo_owner (got_repo (sample_gets ! 0)) = ''o''" "repo_owner (got_repo (sample_gets ! 1)) = ''o''"
    unfolding gets(1) by (simp_all add: gets(2-))
  have date: "br_parse_date sample_github ''T'' = Some 3600000" by (simp add: sample_github_def)
  have "sample_gets = [sample_gets ! 0] @ sample_gets ! 1 # []"
    unfolding gets(1) by simp
  then have run: "?run = ([sample_gets ! 0] @ sample_gets ! 1 # [], snd ?run)"
    by (metis sample_gets_def prod.collapse)
  have empty: "br_cache sample_broker = Map.empty" by (simp add: sample_broker_def)
  have owners: "\<forall>x \<in> set ([sample_gets ! 0] @ [sample_gets ! 1]). slash \<notin> set (repo_owner (got_repo x))"
    using facts(4,5) by simp
  show ?thesis
    using cached_token_is_fresh [OF run empty facts(2,3) owners] date by simp
qed

text \<open>An expiry that is no date never ends.\<close>

lemma unreadable_expiry_never_ends:
  assumes "br_cache s (cache_key r) = Some (entry_for opts t)" "br_parse_date opts (tok_expiresAt t) = None"
  shows "getInstallationToken opts r s = (Inr t, s)"
  using assms by (simp add: getInstallationToken_def cache_get_def entry_for_def run_simps)

section \<open>The authorizer\<close>

text \<open>C30: access is granted only on GitHub's own word: if the authorizer returns true, the coordinates
  were valid, the last request was the permission lookup of this repository and this login with an
  installation token, and GitHub answered it 200 with a JSON body whose user has exactly the numeric id
  of the session and whose permission is one of the five that can read.\<close>

theorem access_only_when_confirmed:
  assumes "canReadRepository opts owner repo githubId login s = (Inr True, t)"
  shows "validateRepositoryCoordinates owner repo = Inr () \<and> githubId \<noteq> []
    \<and> (\<exists>token w res v p u i w'. last (br_sent t) = github_request ''GET'' (permission_url opts owner repo login) token
        \<and> transport opts (last (br_sent t)) w = (Inr res, w') \<and> w' = br_world t
        \<and> hr_status res = 200 \<and> json_parse (hr_body res) = Some v
        \<and> json_field v ''permission'' = Some (JStr p) \<and> p \<in> set SUFFICIENT_PERMISSIONS
        \<and> json_field v ''user'' = Some u \<and> json_field u ''id'' = Some i \<and> js_number i \<and> js_string i = githubId)"
proof -
  let ?r = "\<lparr>repo_owner = owner, repo_name = repo\<rparr>" and ?url = "permission_url opts owner repo login"
  have valid: "validateRepositoryCoordinates owner repo = Inr ()"
  proof (cases "validateRepositoryCoordinates owner repo")
    case (Inl e)
    with assms show ?thesis by (cases e) (auto simp: canReadRepository_def run_simps)
  qed simp
  let ?work = "race_timeout (br_timeoutMs opts) ''GitHub repository authorization''
      (withInstallationToken opts ?r (\<lambda>token. permissionLevel opts token ?url))"
  obtain q v where q: "?work s = (q, v)" by fastforce
  with assms valid obtain outcome where outcome: "q = Inr outcome" "v = t" "po_status outcome = 200"
    "po_userId outcome = Some githubId" "githubId \<noteq> []" "\<exists>p. po_permission outcome = Some p \<and> p \<in> set SUFFICIENT_PERMISSIONS"
    by (auto simp: canReadRepository_def run_simps split: if_splits sum.splits broker_error.splits option.splits)
  from q outcome(1,2) obtain tk s1 where
    "getInstallationToken opts ?r s = (Inr tk, s1)" and level: "permissionLevel opts (tok tk) ?url s1 = (Inr outcome, t)"
    by (auto simp: race_timeout_def withInstallationToken_def run_simps split: sum.splits prod.splits broker_error.splits)
  let ?rq = "github_request ''GET'' ?url (tok tk)"
  from level obtain res where sent: "send opts ?rq s1 = (Inr res, t)" and
    answer: "(if hr_status res \<noteq> 200 then ret \<lparr>po_status = hr_status res, po_permission = None, po_userId = None\<rparr>
       else (case json_parse (hr_body res) of
           None \<Rightarrow> throwC (TransientError ''GitHub permission lookup answered non-JSON'')
         | Some v \<Rightarrow> ret (read_permission v))) t = (Inr outcome, t)"
    by (auto simp: permissionLevel_def race_timeout_def run_simps split: sum.splits prod.splits broker_error.splits if_splits option.splits)
  from answer outcome(3,4) obtain v where v: "hr_status res = 200" "json_parse (hr_body res) = Some v" "outcome = read_permission v"
    by (auto simp: run_simps split: if_splits option.splits)
  from sent obtain w where w: "transport opts ?rq w = (Inr res, br_world t)"
    by (auto simp: send_def in_world_def zoomC_def run_simps split: prod.splits sum.splits)
  have last: "last (br_sent t) = ?rq" using send_adds [OF sent] by simp
  from v(3) outcome(6) obtain p where p: "json_field v ''permission'' = Some (JStr p)" "p \<in> set SUFFICIENT_PERMISSIONS"
    by (auto simp: read_permission_def split: option.splits json.splits)
  from v(3) outcome(4) obtain u i where u: "json_field v ''user'' = Some u" "json_field u ''id'' = Some i" "js_number i" "js_string i = githubId"
    by (auto simp: read_permission_def split: option.splits if_splits)
  show ?thesis
    unfolding last
    by (intro conjI valid outcome(5) exI [of _ "tok tk"] exI [of _ w] exI [of _ res] exI [of _ v] exI [of _ p] exI [of _ u]
          exI [of _ i] exI [of _ "br_world t"] refl w v(1,2) p u)
qed

theorem access_only_when_confirmed_witness:
  "\<exists>token w res v p u i w'.
      last (br_sent (snd (canReadRepository sample_github ''o'' ''r'' ''7'' ''octo'' sample_broker)))
        = github_request ''GET'' (permission_url sample_github ''o'' ''r'' ''octo'') token
      \<and> transport sample_github (last (br_sent (snd (canReadRepository sample_github ''o'' ''r'' ''7'' ''octo'' sample_broker)))) w = (Inr res, w')
      \<and> hr_status res = 200 \<and> json_parse (hr_body res) = Some v
      \<and> json_field v ''permission'' = Some (JStr p) \<and> p \<in> set SUFFICIENT_PERMISSIONS
      \<and> json_field v ''user'' = Some u \<and> json_field u ''id'' = Some i \<and> js_number i \<and> js_string i = ''7''"
proof -
  have valid: "validateRepositoryCoordinates ''o'' ''r'' = Inr ()" by code_simp
  obtain a b where "issueToken sample_github sample_repo sample_broker = (Inr \<lparr>tok = ''tk'', tok_expiresAt = ''T''\<rparr>,
     sample_broker\<lparr>br_sent := [a, b], br_cache := [cache_key sample_repo \<mapsto> entry_for sample_github \<lparr>tok = ''tk'', tok_expiresAt = ''T''\<rparr>]\<rparr>)"
    using sample_issue [of sample_broker] by (auto simp: sample_broker_def)
  then have "fst (canReadRepository sample_github ''o'' ''r'' ''7'' ''octo'' sample_broker) = Inr True"
    by (simp add: canReadRepository_def valid run_simps race_timeout_def withInstallationToken_def getInstallationToken_def
        cache_get_def sample_broker_def permissionLevel_def sample_send sample_answer_def github_request_def sample_urls
        sample_bodies read_permission_def show_int_def SUFFICIENT_PERMISSIONS_def)
  then have run: "canReadRepository sample_github ''o'' ''r'' ''7'' ''octo'' sample_broker
      = (Inr True, snd (canReadRepository sample_github ''o'' ''r'' ''7'' ''octo'' sample_broker))"
    by (metis prod.collapse)
  from access_only_when_confirmed [OF run] show ?thesis by blast
qed

text \<open>
  A server error whose text holds a colon and the number 404 on its own is taken for a missing
  installation: access is denied, as if the repository did not exist, and not reported as transient.
\<close>

lemma server_error_taken_for_denial:
  assumes "validateRepositoryCoordinates owner repo = Inr ()" "githubId \<noteq> []" "login \<noteq> []"
    "getInstallationToken opts \<lparr>repo_owner = owner, repo_name = repo\<rparr> s = (Inl (PlainError m), t)" "says_404 m"
  shows "canReadRepository opts owner repo githubId login s = (Inr False, t)"
    and "says_404 (''Failed to create installation token: 502 upstream: 404'')"
  using assms by (simp add: canReadRepository_def run_simps race_timeout_def withInstallationToken_def) code_simp

end
