(* ===== verification/Replay.thy ===== *)
theory Replay
  imports Encoding Repository
begin

text \<open>
  The resume source of the agent host (\<open>apps/agent-host/src/session-persistence.ts\<close>): the stored rows of
  a session are turned back into the events of the agent's own log. The classes \<open>SessionHeader\<close> and
  \<open>SessionInspection\<close> of the harness are the records the code fills in. A number of a citation that is no
  integer of at most \<open>2 ^ 53\<close> counts as no integer.
\<close>

section \<open>Data\<close>

record DshEvent =
  d_type :: string
  d_seq :: nat
  d_time :: int
  d_data :: json
  d_sources :: "nat list option"
  d_surface :: "json option"

datatype item = Verbatim SessionEvent | User SessionEvent

datatype resume_error =
    ResumeError string
  | SessionNotFound string
  | ResumeRepo repo_error
  | BadOffset

fun item_row :: "item \<Rightarrow> SessionEvent" where
  "item_row (Verbatim r) = r"
| "item_row (User r) = r"

fun is_verbatim :: "item \<Rightarrow> bool" where
  "is_verbatim (Verbatim _) = True"
| "is_verbatim (User _) = False"

definition cannot_resume :: "string \<Rightarrow> string \<Rightarrow> resume_error" where
  "cannot_resume i why = ResumeError (''cannot resume session '' @ i @ '': '' @ why)"

section \<open>The replay order\<close>

text \<open>
  The first loop: \<open>seen\<close> is \<open>stepSeenReplay\<close>, \<open>pending\<close> the queued user messages.
\<close>

fun replay_order :: "bool \<Rightarrow> SessionEvent list \<Rightarrow> SessionEvent list \<Rightarrow> item list" where
  "replay_order seen pending [] = map User pending"
| "replay_order seen pending (r # rs) =
     (if eventType r = ''user_message'' then replay_order seen (pending @ [r]) rs
      else if eventType r = ''approval'' \<or> eventType r = ''cancel'' then replay_order seen pending rs
      else if eventType r = ''turn/start'' then Verbatim r # replay_order False pending rs
      else if eventType r = ''step/start''
      then Verbatim r # (if \<not> seen then map User pending @ replay_order True [] rs
                         else replay_order seen pending rs)
      else Verbatim r # replay_order seen pending rs)"

section \<open>Citations\<close>

definition NEVER_CITED_AUDIT :: "string list" where
  "NEVER_CITED_AUDIT = [''approval/asked'', ''approval/decided'']"

definition citable :: "item \<Rightarrow> bool" where
  "citable it \<longleftrightarrow> is_verbatim it \<and> eventType (item_row it) \<notin> set NEVER_CITED_AUDIT"

fun find_index :: "('a \<Rightarrow> bool) \<Rightarrow> 'a list \<Rightarrow> nat option" where
  "find_index p [] = None"
| "find_index p (x # xs) = (if p x then Some 0 else map_option Suc (find_index p xs))"

text \<open>The walk backwards from the citing row, until \<open>k\<close> positions are found; \<open>i\<close> is one past the next.\<close>

fun rank_walk :: "item list \<Rightarrow> nat \<Rightarrow> nat \<Rightarrow> nat list \<Rightarrow> nat list" where
  "rank_walk ordered k 0 acc = acc"
| "rank_walk ordered k (Suc i) acc =
     (if k \<le> length acc then acc
      else rank_walk ordered k i (if citable (ordered ! i) then i # acc else acc))"

text \<open>The first element that is no integer, if there is one.\<close>

fun cited_ints :: "json list \<Rightarrow> json + int list" where
  "cited_ints [] = Inr []"
| "cited_ints (JNum n # vs) = map_sum id ((#) n) (cited_ints vs)"
| "cited_ints (v # vs) = Inl v"

text \<open>Every neighbour is less than the next.\<close>

fun ascending :: "int list \<Rightarrow> bool" where
  "ascending (a # b # ns) = (a < b \<and> ascending (b # ns))"
| "ascending _ = True"

definition assertCitationKinds :: "item list \<Rightarrow> string \<Rightarrow> nat \<Rightarrow> string \<Rightarrow> nat list \<Rightarrow> resume_error + unit" where
  "assertCitationKinds ordered i rowSeq citerType predecessors =
     (let types = map (\<lambda>j. eventType (item_row (ordered ! j))) predecessors in
      if citerType = ''assistant/message''
      then if list_all (\<lambda>t. t = ''assistant/chunk'') types then Inr ()
           else Inl (cannot_resume i (''assistant/message at seq '' @ show_nat rowSeq @ '' cites non-chunk events (''
                       @ join_with '','' types @ '')''))
      else if citerType = ''tool/result''
      then if length types \<noteq> 1 \<or> hd types \<noteq> ''tool/call''
           then Inl (cannot_resume i (''tool/result at seq '' @ show_nat rowSeq @ '' does not cite its call (''
                       @ join_with '','' types @ '')''))
           else Inr ()
      else Inl (cannot_resume i (''unsupported citing event '' @ citerType @ '' at seq '' @ show_nat rowSeq)))"

definition remapCitations :: "item list \<Rightarrow> string \<Rightarrow> nat \<Rightarrow> string \<Rightarrow> json \<Rightarrow> resume_error + nat list" where
  "remapCitations ordered i rowSeq citerType citations =
     (case citations of
        JArr (v # vs) \<Rightarrow>
          (case cited_ints (v # vs) of
             Inl c \<Rightarrow> Inl (cannot_resume i (''corrupt seq citation '' @ js_string c))
           | Inr ns \<Rightarrow>
               if \<not> ascending ns then Inl (cannot_resume i (''non-ascending citations at seq '' @ show_nat rowSeq))
               else
                 (let citerIndex = find_index (\<lambda>it. is_verbatim it \<and> seq (item_row it) = rowSeq) ordered;
                      predecessors = rank_walk ordered (length ns) (case citerIndex of None \<Rightarrow> 0 | Some n \<Rightarrow> n) [] in
                  if length predecessors < length ns
                  then Inl (cannot_resume i (''dangling seq citation at seq '' @ show_nat rowSeq))
                  else map_sum id (\<lambda>_. predecessors) (assertCitationKinds ordered i rowSeq citerType predecessors)))
      | _ \<Rightarrow> Inl (cannot_resume i (''corrupt sourceEventSeqs at seq '' @ show_nat rowSeq)))"

section \<open>Conversion\<close>

definition convertedUserMessage :: "string \<Rightarrow> SessionEvent \<Rightarrow> nat \<Rightarrow> resume_error + DshEvent" where
  "convertedUserMessage i r n =
     (case json_field (data r) ''content'' of
        Some (JStr content) \<Rightarrow> Inr \<lparr>d_type = ''user/message'', d_seq = n, d_time = eventTime r,
          d_data = JObj [(''id'', JStr (''resumed-'' @ i @ ''-'' @ show_nat (seq r))), (''role'', JStr ''user''),
             (''content'', JArr [JObj [(''type'', JStr ''text''), (''text'', JStr content)]]),
             (''source'', JObj [(''kind'', JStr ''user'')])],
          d_sources = None, d_surface = Some (JStr ''append'')\<rparr>
      | _ \<Rightarrow> Inl (cannot_resume i (''corrupt user_message at seq '' @ show_nat (seq r))))"

definition remapSurfaceOp :: "string \<Rightarrow> nat \<Rightarrow> json \<Rightarrow> resume_error + json" where
  "remapSurfaceOp i rowSeq op =
     (let kept = (if json_field op ''op'' = Some (JStr ''replace'')
            then Inl (cannot_resume i (''compaction replace ops are not supported at seq '' @ show_nat rowSeq))
            else Inr op) in
      case op of
        JStr _ \<Rightarrow> Inr op
      | JObj _ \<Rightarrow> kept
      | JArr _ \<Rightarrow> kept
      | _ \<Rightarrow> Inl (cannot_resume i (''corrupt surfaceOp at seq '' @ show_nat rowSeq)))"

text \<open>A column that is \<open>undefined\<close> or \<open>null\<close> is left out.\<close>

definition present :: "json option \<Rightarrow> json option" where
  "present c = (if c = Some JNull then None else c)"

definition convert_item :: "item list \<Rightarrow> string \<Rightarrow> nat \<Rightarrow> item \<Rightarrow> resume_error + DshEvent" where
  "convert_item ordered i n it =
     (case it of
        User r \<Rightarrow> convertedUserMessage i r n
      | Verbatim r \<Rightarrow>
          (case (case present (sourceEventSeqs r) of
                   None \<Rightarrow> Inr None
                 | Some v \<Rightarrow> map_sum id Some (remapCitations ordered i (seq r) (eventType r) v)) of
             Inl e \<Rightarrow> Inl e
           | Inr cites \<Rightarrow>
               (case (case present (surfaceOp r) of
                        None \<Rightarrow> Inr None
                      | Some v \<Rightarrow> map_sum id Some (remapSurfaceOp i (seq r) v)) of
                  Inl e \<Rightarrow> Inl e
                | Inr s \<Rightarrow> Inr \<lparr>d_type = eventType r, d_seq = n, d_time = eventTime r, d_data = data r,
                     d_sources = cites, d_surface = s\<rparr>)))"

fun convert_items :: "item list \<Rightarrow> string \<Rightarrow> nat \<Rightarrow> item list \<Rightarrow> resume_error + DshEvent list" where
  "convert_items ordered i n [] = Inr []"
| "convert_items ordered i n (it # its) =
     (case convert_item ordered i n it of
        Inl e \<Rightarrow> Inl e
      | Inr e \<Rightarrow> map_sum id ((#) e) (convert_items ordered i (Suc n) its))"

definition toDshEvents :: "string \<Rightarrow> SessionEvent list \<Rightarrow> resume_error + DshEvent list" where
  "toDshEvents i rows = (let ordered = replay_order True [] rows in convert_items ordered i 0 ordered)"

section \<open>The persistence service\<close>

text \<open>
  The harness's format version is left out of the header. Log lines are not modelled.
\<close>

record persistence =
  ps_workspaceId :: string
  ps_workspaceRoot :: string

record SessionHeader =
  h_id :: string
  h_createdAt :: int
  h_cwd :: string
  h_isSeeded :: bool

record SessionInspection =
  in_meta :: SessionHeader
  in_inherited :: nat
  in_events :: "DshEvent list"

definition in_repo :: "'a sql \<Rightarrow> (db, resume_error, 'a) comp" where
  "in_repo m = zoomC (\<lambda>d. d) (\<lambda>d _. d) ResumeRepo m"

definition toHeader :: "persistence \<Rightarrow> Session \<Rightarrow> resume_error + SessionHeader" where
  "toHeader P row =
     (case s_createdAt row of
        Unreadable t \<Rightarrow> Inl (cannot_resume (s_id row) (''corrupt createdAt '' @ t))
      | ISO n \<Rightarrow> Inr \<lparr>h_id = s_id row, h_createdAt = n, h_cwd = ps_workspaceRoot P, h_isSeeded = False\<rparr>)"

fun stored_contiguous :: "string \<Rightarrow> nat \<Rightarrow> SessionEvent list \<Rightarrow> resume_error + unit" where
  "stored_contiguous i n [] = Inr ()"
| "stored_contiguous i n (r # rs) =
     (if seq r \<noteq> n
      then Inl (cannot_resume i (''gap in stored log (expected seq '' @ show_nat n @ '', found '' @ show_nat (seq r) @ '')''))
      else stored_contiguous i (Suc n) rs)"

definition readStored :: "persistence \<Rightarrow> string \<Rightarrow> (db, resume_error, Session \<times> SessionEvent list) comp" where
  "readStored P i =
     bindC (in_repo (getSession i)) (\<lambda>row. case row of
         None \<Rightarrow> throwC (SessionNotFound i)
       | Some row \<Rightarrow>
           if s_workspaceId row \<noteq> ps_workspaceId P
           then throwC (cannot_resume i (''belongs to workspace '' @ s_workspaceId row))
           else bindC (in_repo (readEvents i None)) (\<lambda>stored.
                  thenC (liftE (stored_contiguous i 0 stored)) (ret (row, stored))))"

definition load_session :: "persistence \<Rightarrow> string \<Rightarrow> (db, resume_error, SessionInspection) comp" where
  "load_session P i =
     bindC (readStored P i) (\<lambda>(row, stored).
     bindC (liftE (toHeader P row)) (\<lambda>meta.
     bindC (liftE (toDshEvents (s_id row) stored)) (\<lambda>events.
       ret \<lparr>in_meta = meta, in_inherited = 0, in_events = events\<rparr>)))"

definition inspect :: "persistence \<Rightarrow> string \<Rightarrow> (db, resume_error, SessionInspection) comp" where
  "inspect P i = load_session P i"

text \<open>\<open>readFrom\<close>: the offset has to be a non-negative safe integer.\<close>

definition readFrom :: "persistence \<Rightarrow> string \<Rightarrow> int \<Rightarrow> (db, resume_error, SessionInspection \<times> nat) comp" where
  "readFrom P i offset =
     (if offset < 0 \<or> offset \<ge> 2 ^ 53 then throwC BadOffset
      else bindC (load_session P i) (\<lambda>loaded.
        ret (loaded\<lparr>in_events := drop (nat offset) (in_events loaded)\<rparr>, nat offset)))"

definition revisionFor :: "string \<Rightarrow> SessionEvent list \<Rightarrow> string" where
  "revisionFor i rows = i @ '':'' @ show_nat (length rows) @ '':''
     @ (if rows = [] then ''empty'' else show_nat (seq (last rows)) @ '':'' @ show_int (eventTime (last rows)))"

text \<open>
  \<open>create\<close> only checks that the row is there and of this workspace; the live events given to \<open>append\<close>
  are those of the harness, and user messages are left to the control plane.
\<close>

definition create_session :: "persistence \<Rightarrow> string \<Rightarrow> (db, resume_error, unit) comp" where
  "create_session P i =
     bindC (in_repo (getSession i)) (\<lambda>row. case row of
         None \<Rightarrow> throwC (SessionNotFound i)
       | Some row \<Rightarrow>
           if s_workspaceId row \<noteq> ps_workspaceId P
           then throwC (ResumeError (''cannot persist session '' @ i @ '': belongs to workspace '' @ s_workspaceId row))
           else ret ())"

definition append_dsh :: "string \<Rightarrow> NewSessionEvent list \<Rightarrow> (db, resume_error, unit) comp" where
  "append_dsh i events =
     (let rows = filter (\<lambda>e. eventType e \<noteq> ''user/message'') events in
      if rows = [] then ret () else bindC (in_repo (append_events i rows)) (\<lambda>_. ret ()))"

fun headers :: "persistence \<Rightarrow> Session list \<Rightarrow> resume_error + SessionHeader list" where
  "headers P [] = Inr []"
| "headers P (s # ss) = (case toHeader P s of Inl e \<Rightarrow> Inl e | Inr h \<Rightarrow> map_sum id ((#) h) (headers P ss))"

definition list_headers :: "persistence \<Rightarrow> (db, resume_error, SessionHeader list) comp" where
  "list_headers P = bindC (in_repo (listSessions (ps_workspaceId P))) (\<lambda>ss. liftE (headers P ss))"

fun snapshots :: "persistence \<Rightarrow> Session list \<Rightarrow> (db, resume_error, (SessionHeader \<times> string) list) comp" where
  "snapshots P [] = ret []"
| "snapshots P (s # ss) =
     bindC (in_repo (readEvents (s_id s) None)) (\<lambda>stored.
     bindC (liftE (toHeader P s)) (\<lambda>h.
     bindC (snapshots P ss) (\<lambda>rest. ret ((h, revisionFor (s_id s) stored) # rest))))"

definition listSnapshots :: "persistence \<Rightarrow> (db, resume_error, (SessionHeader \<times> string) list) comp" where
  "listSnapshots P = bindC (in_repo (listSessions (ps_workspaceId P))) (\<lambda>ss. snapshots P ss)"

end
