(* ===== verification/Turn.thy ===== *)
theory Turn
  imports Replay Repository_Log
begin

text \<open>
  The turn starter of the agent host (\<open>apps/agent-host/src/turn.ts\<close>). The agents themselves are the
  harness's: creating and resuming one is a call that ends well or not, and what an agent does reaches the
  host as events. Every step below is one uninterrupted piece of the code; between them anything may happen.
\<close>

section \<open>Data\<close>

datatype ApprovalOutcome = AllowedOnce | Rejected | Cancelled

datatype ApprovalDecision = Approve | Reject

text \<open>One ask of an agent: a promise, with the outcome it was resolved with.\<close>

record PendingApproval =
  pd_session :: string
  pd_call :: "string option"
  pd_outcome :: "ApprovalOutcome option"

record AskedLink =
  al_session :: string
  al_call :: "string option"

datatype turn_error =
    TurnSessionMissing string
  | AgentFailed string
  | TurnRepo repo_error

text \<open>
  The fields of \<open>HarnessTurnStarter\<close>, the database behind its repository, and what it did to the agents:
  \<open>agents\<close> the live ones, \<open>inbox\<close> the messages queued, \<open>cancels\<close> the agents cancelled, \<open>answers\<close> how the
  calls of \<open>startTurn\<close> ended. A pending creation keeps the calls that wait for it.
\<close>

record turn_host =
  th_db :: db
  agents :: "string list"
  creating :: "string \<rightharpoonup> (nat \<times> string) list"
  inbox :: "(string \<times> string) list"
  cancels :: "string list"
  answers :: "(nat \<times> (turn_error + unit)) list"
  askedLinks :: "string \<rightharpoonup> AskedLink"
  pendingByCall :: "string \<rightharpoonup> nat"
  pendingAnonymous :: "string \<Rightarrow> nat list"
  earlyDecisions :: "string \<rightharpoonup> ApprovalOutcome"
  asks :: "PendingApproval list"
  appendTails :: "string \<Rightarrow> NewSessionEvent list"
  th_log :: "string list"

definition new_host :: "db \<Rightarrow> turn_host" where
  "new_host d = \<lparr>th_db = d, agents = [], creating = Map.empty, inbox = [], cancels = [], answers = [],
     askedLinks = Map.empty, pendingByCall = Map.empty, pendingAnonymous = (\<lambda>_. []),
     earlyDecisions = Map.empty, asks = [], appendTails = (\<lambda>_. []), th_log = []\<rparr>"

section \<open>The approval bridge\<close>

definition unpend :: "string \<Rightarrow> string option \<Rightarrow> nat \<Rightarrow> turn_host \<Rightarrow> turn_host" where
  "unpend sid call k s =
     (case call of
        Some c \<Rightarrow>
          if pendingByCall s c = Some k then s\<lparr>pendingByCall := (pendingByCall s)(c := None)\<rparr>
          else s\<lparr>pendingAnonymous := (pendingAnonymous s)(sid := remove1 k (pendingAnonymous s sid))\<rparr>
      | None \<Rightarrow> s\<lparr>pendingAnonymous := (pendingAnonymous s)(sid := remove1 k (pendingAnonymous s sid))\<rparr>)"

text \<open>\<open>settle\<close>, the \<open>resolve\<close> of an entry: only the first one counts.\<close>

definition settle :: "nat \<Rightarrow> ApprovalOutcome \<Rightarrow> turn_host \<Rightarrow> turn_host" where
  "settle k oc s =
     (let p = asks s ! k in
      if length (asks s) \<le> k \<or> pd_outcome p \<noteq> None then s
      else unpend (pd_session p) (pd_call p) k (s\<lparr>asks := (asks s)[k := p\<lparr>pd_outcome := Some oc\<rparr>]\<rparr>))"

definition onApprovalRequest :: "string \<Rightarrow> string option \<Rightarrow> bool \<Rightarrow> turn_host \<Rightarrow> turn_host" where
  "onApprovalRequest sid call aborted s =
     (let k = length (asks s) in
      case (case call of None \<Rightarrow> None | Some c \<Rightarrow> earlyDecisions s c) of
        Some oc \<Rightarrow> s\<lparr>earlyDecisions := (case call of None \<Rightarrow> earlyDecisions s | Some c \<Rightarrow> (earlyDecisions s)(c := None)),
                     asks := asks s @ [\<lparr>pd_session = sid, pd_call = call, pd_outcome = Some oc\<rparr>]\<rparr>
      | None \<Rightarrow>
          (let t = s\<lparr>asks := asks s @ [\<lparr>pd_session = sid, pd_call = call, pd_outcome = None\<rparr>]\<rparr>;
               u = (case call of
                      Some c \<Rightarrow> t\<lparr>pendingByCall := (pendingByCall t)(c \<mapsto> k)\<rparr>
                    | None \<Rightarrow> t\<lparr>pendingAnonymous := (pendingAnonymous t)(sid := pendingAnonymous t sid @ [k])\<rparr>) in
           if aborted then settle k Cancelled u else u))"

definition unsettled :: "turn_host \<Rightarrow> nat \<Rightarrow> bool" where
  "unsettled s k \<longleftrightarrow> k < length (asks s) \<and> pd_outcome (asks s ! k) = None"

definition settleCallId :: "string \<Rightarrow> ApprovalOutcome \<Rightarrow> turn_host \<Rightarrow> bool \<times> turn_host" where
  "settleCallId c oc s =
     (case pendingByCall s c of
        Some k \<Rightarrow> if unsettled s k then (True, settle k oc s) else (False, s)
      | None \<Rightarrow> (False, s))"

definition settleAnonymous :: "string \<Rightarrow> ApprovalOutcome \<Rightarrow> turn_host \<Rightarrow> bool \<times> turn_host" where
  "settleAnonymous sid oc s =
     (case List.find (unsettled s) (pendingAnonymous s sid) of
        Some k \<Rightarrow> (True, settle k oc s)
      | None \<Rightarrow> (False, s))"

fun outcome_of :: "ApprovalDecision \<Rightarrow> ApprovalOutcome" where
  "outcome_of Approve = AllowedOnce"
| "outcome_of Reject = Rejected"

definition resolveApproval :: "string \<Rightarrow> ApprovalDecision \<Rightarrow> turn_host \<Rightarrow> bool \<times> turn_host" where
  "resolveApproval a dec s =
     (let oc = outcome_of dec; (direct, s1) = settleCallId a oc s in
      if direct then (True, s1)
      else
        (case askedLinks s1 a of
           Some l \<Rightarrow>
             (let (linked, s2) = (case al_call l of Some c \<Rightarrow> settleCallId c oc s1 | None \<Rightarrow> (False, s1)) in
              if linked then (True, s2)
              else
                (let (anon, s3) = settleAnonymous (al_session l) oc s2 in
                 if anon then (True, s3)
                 else (True, s3\<lparr>earlyDecisions := (case al_call l of
                           None \<Rightarrow> (earlyDecisions s3)(a \<mapsto> oc)
                         | Some c \<Rightarrow> (earlyDecisions s3)(a \<mapsto> oc, c \<mapsto> oc))\<rparr>)))
         | None \<Rightarrow> (False, s1\<lparr>earlyDecisions := (earlyDecisions s1)(a \<mapsto> oc),
                            th_log := th_log s1 @ [''turn.approval_unknown_id'']\<rparr>)))"

section \<open>Turns\<close>

definition followup :: "nat \<times> string \<Rightarrow> string \<Rightarrow> turn_host \<Rightarrow> turn_host" where
  "followup rc sid s = s\<lparr>inbox := inbox s @ [(sid, snd rc)], answers := answers s @ [(fst rc, Inr ())],
     th_log := th_log s @ [''turn.started'']\<rparr>"

definition startTurn :: "nat \<Rightarrow> string \<Rightarrow> string \<Rightarrow> turn_host \<Rightarrow> turn_host" where
  "startTurn n sid content s =
     (case getSession sid (th_db s) of (found, d) \<Rightarrow>
        (let t = s\<lparr>th_db := d\<rparr> in
         case found of
           Inl e \<Rightarrow> t\<lparr>answers := answers t @ [(n, Inl (TurnRepo e))]\<rparr>
         | Inr None \<Rightarrow> t\<lparr>answers := answers t @ [(n, Inl (TurnSessionMissing sid))]\<rparr>
         | Inr (Some _) \<Rightarrow>
             if sid \<in> set (agents t) then followup (n, content) sid t
             else t\<lparr>creating := (creating t)(sid \<mapsto> (case creating t sid of None \<Rightarrow> [] | Some ws \<Rightarrow> ws) @ [(n, content)])\<rparr>))"

text \<open>
  The end of a creation: the calls that wait are served in order, or all get its error. A call finds no
  creation under way when none was asked for.
\<close>

definition agentCreated :: "string \<Rightarrow> turn_error option \<Rightarrow> turn_host \<Rightarrow> turn_host" where
  "agentCreated sid failure s =
     (case creating s sid of
        None \<Rightarrow> s
      | Some ws \<Rightarrow>
          (let t = s\<lparr>creating := (creating s)(sid := None)\<rparr> in
           case failure of
             None \<Rightarrow> fold (\<lambda>rc. followup rc sid) ws (t\<lparr>agents := agents t @ [sid]\<rparr>)
           | Some e \<Rightarrow> t\<lparr>answers := answers t @ map (\<lambda>rc. (fst rc, Inl e)) ws\<rparr>))"

definition cancelTurn :: "string option \<Rightarrow> turn_host \<Rightarrow> nat \<times> turn_host" where
  "cancelTurn sid s =
     (case sid of
        Some i \<Rightarrow>
          if i \<notin> set (agents s) then (0, s)
          else (1, s\<lparr>cancels := cancels s @ [i], th_log := th_log s @ [''turn.cancelled'']\<rparr>)
      | None \<Rightarrow> (length (agents s), s\<lparr>cancels := cancels s @ agents s, th_log := th_log s @ [''turn.cancelled_all'']\<rparr>))"

text \<open>\<open>agentLoop.resume\<close> of each id is a parameter: the error it fails with, or a live agent.\<close>

fun resumeSessions :: "(string \<Rightarrow> 'e option) \<Rightarrow> string list \<Rightarrow> turn_host \<Rightarrow> ('e + string list) \<times> turn_host" where
  "resumeSessions resume [] s = (Inr [], s)"
| "resumeSessions resume (i # is) s =
     (if i \<in> set (agents s)
      then resumeSessions resume is (s\<lparr>th_log := th_log s @ [''turn.resume.skipped_live'']\<rparr>)
      else (case resume i of
          Some e \<Rightarrow> (Inl e, s)
        | None \<Rightarrow>
            (case resumeSessions resume is (s\<lparr>agents := agents s @ [i], th_log := th_log s @ [''turn.resumed'']\<rparr>) of
               (Inl e, t) \<Rightarrow> (Inl e, t)
             | (Inr ids, t) \<Rightarrow> (Inr (i # ids), t))))"

section \<open>Persisting what an agent logs\<close>

text \<open>
  \<open>enqueueAppend\<close> chains the append of an event behind those of its session; the chain runs one append at
  a time and goes on after a failure, which is logged.
\<close>

definition askedLink :: "string \<Rightarrow> NewSessionEvent \<Rightarrow> turn_host \<Rightarrow> turn_host" where
  "askedLink sid e s =
     (if eventType e = ''approval/asked''
      then (case json_field (data e) ''id'' of
          Some (JStr i) \<Rightarrow> s\<lparr>askedLinks := (askedLinks s)(i \<mapsto> \<lparr>al_session = sid,
              al_call = (case json_field (data e) ''callId'' of Some (JStr c) \<Rightarrow> Some c | _ \<Rightarrow> None)\<rparr>)\<rparr>
        | _ \<Rightarrow> s)
      else s)"

definition enqueueAppend :: "string \<Rightarrow> NewSessionEvent \<Rightarrow> turn_host \<Rightarrow> turn_host" where
  "enqueueAppend sid e s =
     (if eventType e = ''user/message'' then s
      else s\<lparr>appendTails := (appendTails s)(sid := appendTails s sid @ [e])\<rparr>)"

definition onSessionEvent :: "string \<Rightarrow> NewSessionEvent \<Rightarrow> turn_host \<Rightarrow> turn_host" where
  "onSessionEvent sid e s = enqueueAppend sid e (askedLink sid e s)"

text \<open>The append at the head of a chain runs: \<open>appendOne\<close>.\<close>

definition appendOne_turn :: "string \<Rightarrow> turn_host \<Rightarrow> turn_host" where
  "appendOne_turn sid s =
     (case appendTails s sid of
        [] \<Rightarrow> s
      | e # es \<Rightarrow>
          (case append_events sid [e] (th_db s) of
             (Inl err, d) \<Rightarrow> s\<lparr>th_db := d, appendTails := (appendTails s)(sid := es), th_log := th_log s @ [''turn.persist_failed'']\<rparr>
           | (Inr _, d) \<Rightarrow> s\<lparr>th_db := d, appendTails := (appendTails s)(sid := es)\<rparr>))"

text \<open>A drain is over when the chain of its session is empty.\<close>

definition drained :: "string \<Rightarrow> turn_host \<Rightarrow> bool" where
  "drained sid s \<longleftrightarrow> appendTails s sid = []"

section \<open>Steps\<close>

text \<open>\<open>Outside\<close> is what the control plane and other hosts do to the tables meanwhile.\<close>

datatype host_step =
    StartTurn nat string string
  | Created string "turn_error option"
  | CancelTurn "string option"
  | Decide string ApprovalDecision
  | Ask string "string option" bool
  | Abort nat
  | Emit string NewSessionEvent
  | AppendNext string
  | Outside repo_op

fun run_step :: "host_step \<Rightarrow> turn_host \<Rightarrow> turn_host" where
  "run_step (StartTurn n sid c) s = startTurn n sid c s"
| "run_step (Created sid failure) s = agentCreated sid failure s"
| "run_step (CancelTurn sid) s = snd (cancelTurn sid s)"
| "run_step (Decide a dec) s = snd (resolveApproval a dec s)"
| "run_step (Ask sid call aborted) s = onApprovalRequest sid call aborted s"
| "run_step (Abort k) s = settle k Cancelled s"
| "run_step (Emit sid e) s = onSessionEvent sid e s"
| "run_step (AppendNext sid) s = appendOne_turn sid s"
| "run_step (Outside op) s = s\<lparr>th_db := run_op op (th_db s)\<rparr>"

definition host_run :: "host_step list \<Rightarrow> turn_host \<Rightarrow> turn_host" where
  "host_run xs s = fold run_step xs s"

end
