(* ===== verification/Replay_Props.thy ===== *)
theory Replay_Props
  imports Replay
begin

text \<open>
  What a resumed agent gets back: every stored row once and in order, every user message once and in order,
  numbered without a gap, and citations that point to the very events the live log cited.
\<close>

section \<open>Lists\<close>

text \<open>The last \<open>k\<close> elements.\<close>

definition last_n :: "nat \<Rightarrow> 'a list \<Rightarrow> 'a list" where
  "last_n k xs = rev (take k (rev xs))"

lemma map_last_n: "map f (last_n k xs) = last_n k (map f xs)"
  by (simp add: last_n_def rev_map take_map)

lemma length_last_n [simp]: "length (last_n k xs) = min k (length xs)"
  by (simp add: last_n_def)

lemma set_last_n: "set (last_n k xs) \<subseteq> set xs"
  by (auto simp: last_n_def dest: in_set_takeD)

lemma split_filter:
  assumes "n < length (filter P xs)"
  obtains us vs where "xs = us @ filter P xs ! n # vs" "filter P us = take n (filter P xs)"
proof -
  have "\<exists>us vs. xs = us @ filter P xs ! n # vs \<and> filter P us = take n (filter P xs)"
    using assms
  proof (induction xs arbitrary: n)
    case (Cons x xs)
    show ?case
    proof (cases "P x \<and> n = 0")
      case True
      then show ?thesis by (intro exI [of _ "[]"] exI [of _ xs]) simp
    next
      case False
      let ?m = "if P x then n - 1 else n"
      from Cons.prems False have "?m < length (filter P xs)" by (auto split: if_splits)
      from Cons.IH [OF this] obtain us vs where "xs = us @ filter P xs ! ?m # vs" "filter P us = take ?m (filter P xs)" by blast
      with False show ?thesis
        by (intro exI [of _ "x # us"] exI [of _ vs]) (auto simp: nth_Cons' take_Cons')
    qed
  qed simp
  then show ?thesis using that by blast
qed

lemma filter_nth: "map (f \<circ> nth xs) (filter (\<lambda>j. P (xs ! j)) [0..<n]) = map f (filter P (take n xs))" if "n \<le> length xs"
proof -
  have "take n xs = map (nth xs) [0..<n]"
    using that by (simp add: list_eq_iff_nth_eq)
  then show ?thesis by (simp add: filter_map comp_def)
qed

lemma map_sum_returns [simp]: "map_sum id f m = Inr b \<longleftrightarrow> (\<exists>a. m = Inr a \<and> b = f a)"
  by (cases m) auto

section \<open>The order\<close>

definition row_kept :: "SessionEvent \<Rightarrow> bool" where
  "row_kept r \<longleftrightarrow> eventType r \<notin> {''user_message'', ''approval'', ''cancel''}"

lemma order_verbatim: "map item_row (filter is_verbatim (replay_order seen p rs)) = filter row_kept rs"
  by (induction seen p rs rule: replay_order.induct) (auto simp: row_kept_def comp_def)

lemma order_users:
  "map item_row (filter (\<lambda>it. \<not> is_verbatim it) (replay_order seen p rs)) = p @ filter (\<lambda>r. eventType r = ''user_message'') rs"
  by (induction seen p rs rule: replay_order.induct) (auto simp: comp_def)

section \<open>The walk\<close>

lemma rank_walk_last:
  "length acc \<le> k \<Longrightarrow> rank_walk ordered k i acc = last_n (k - length acc) (filter (\<lambda>j. citable (ordered ! j)) [0..<i]) @ acc"
  by (induction ordered k i acc rule: rank_walk.induct) (auto simp: last_n_def take_Cons' Suc_diff_Suc split: if_splits)

lemma find_index_at:
  "p < length xs \<Longrightarrow> P (xs ! p) \<Longrightarrow> (\<And>q. q < p \<Longrightarrow> \<not> P (xs ! q)) \<Longrightarrow> find_index P xs = Some p"
proof (induction xs arbitrary: p)
  case (Cons x xs)
  show ?case
  proof (cases p)
    case (Suc p')
    have "\<not> P x" using Cons.prems(3) [of 0] Suc by simp
    moreover have "find_index P xs = Some p'"
      using Cons.IH [of p'] Cons.prems Suc by force
    ultimately show ?thesis using Suc by simp
  qed (use Cons.prems in simp)
qed simp

section \<open>The conversion\<close>

lemma convert_items_nth:
  assumes "convert_items ordered i n its = Inr es"
  shows "length es = length its" and "j < length its \<Longrightarrow> convert_item ordered i (n + j) (its ! j) = Inr (es ! j)"
proof -
  have "length es = length its \<and> (j < length its \<longrightarrow> convert_item ordered i (n + j) (its ! j) = Inr (es ! j))"
    using assms
  proof (induction its arbitrary: n j es)
    case (Cons it its)
    from Cons.prems obtain e fs where e: "convert_item ordered i n it = Inr e" "convert_items ordered i (Suc n) its = Inr fs" "es = e # fs"
      by (auto split: sum.splits)
    from Cons.IH [OF e(2), of "j - 1"] e(1,3) show ?case
      by (cases j) auto
  qed auto
  then show "length es = length its" "j < length its \<Longrightarrow> convert_item ordered i (n + j) (its ! j) = Inr (es ! j)" by auto
qed

section \<open>What an event says\<close>

type_synonym content = "string \<times> int \<times> json"

definition row_content :: "SessionEvent \<Rightarrow> content" where
  "row_content r = (eventType r, eventTime r, data r)"

definition dsh_content :: "DshEvent \<Rightarrow> content" where
  "dsh_content e = (d_type e, d_time e, d_data e)"

definition of_agent :: "DshEvent \<Rightarrow> bool" where
  "of_agent e \<longleftrightarrow> d_type e \<noteq> ''user/message''"

definition audit :: "string \<Rightarrow> bool" where
  "audit t \<longleftrightarrow> t \<in> set NEVER_CITED_AUDIT"

lemma convert_verbatim:
  assumes "convert_item ordered i n (Verbatim r) = Inr e"
  shows "dsh_content e = row_content r" and "d_seq e = n"
    and "d_surface e = present (surfaceOp r)"
    and "present (sourceEventSeqs r) = None \<Longrightarrow> d_sources e = None"
    and "present (sourceEventSeqs r) = Some v \<Longrightarrow> \<exists>ps. remapCitations ordered i (seq r) (eventType r) v = Inr ps \<and> d_sources e = Some ps"
proof -
  have surface: "remapSurfaceOp i k v = Inr w \<Longrightarrow> w = v" for k v w
    by (auto simp: remapSurfaceOp_def Let_def split: json.splits if_splits)
  from assms show "dsh_content e = row_content r" "d_seq e = n" "d_surface e = present (surfaceOp r)"
    "present (sourceEventSeqs r) = None \<Longrightarrow> d_sources e = None"
    "present (sourceEventSeqs r) = Some v \<Longrightarrow> \<exists>ps. remapCitations ordered i (seq r) (eventType r) v = Inr ps \<and> d_sources e = Some ps"
    by (auto simp: convert_item_def dsh_content_def row_content_def dest: surface split: sum.splits option.splits)
qed

lemma convert_user:
  assumes "convert_item ordered i n (User r) = Inr e"
  shows "d_type e = ''user/message''" and "d_seq e = n" and "d_sources e = None" and "d_time e = eventTime r"
    and "\<exists>c. json_field (data r) ''content'' = Some (JStr c) \<and> json_field (d_data e) ''content'' = Some (JArr [JObj [(''type'', JStr ''text''), (''text'', JStr c)]])"
  using assms by (auto simp: convert_item_def convertedUserMessage_def split: option.splits json.splits)

text \<open>A citation that is accepted has the right length, is the walk's, and its kinds were checked.\<close>

lemma remap_accepted:
  assumes "remapCitations ordered i n t v = Inr ps"
  obtains vs ns where "v = JArr vs" "cited_ints vs = Inr ns" "length ps = length vs"
    "ps = last_n (length vs) (filter (\<lambda>j. citable (ordered ! j))
       [0..<(case find_index (\<lambda>it. is_verbatim it \<and> seq (item_row it) = n) ordered of None \<Rightarrow> 0 | Some c \<Rightarrow> c)])"
    "assertCitationKinds ordered i n t ps = Inr ()"
proof -
  have ints: "cited_ints vs = Inr ns \<Longrightarrow> length ns = length vs" for vs ns
    by (induction vs arbitrary: ns rule: cited_ints.induct) auto
  from assms obtain v' vs ns where "v = JArr (v' # vs)" "cited_ints (v' # vs) = Inr ns"
    by (auto simp: remapCitations_def split: json.splits list.splits sum.splits)
  with assms ints [OF this(2)] show ?thesis
    by (intro that [of "v' # vs" ns]) (auto simp: remapCitations_def rank_walk_last Let_def split: if_splits)
qed

section \<open>The log before the citing row\<close>

lemma distinct_filter_nth:
  assumes "distinct (map f (filter P xs))" "q < p" "p < length xs" "P (xs ! q)" "P (xs ! p)"
  shows "f (xs ! q) \<noteq> f (xs ! p)"
proof
  assume same: "f (xs ! q) = f (xs ! p)"
  have "xs = take p xs @ xs ! p # drop (Suc p) xs" using assms(3) by (rule id_take_nth_drop)
  then have "map f (filter P xs) = map f (filter P (take p xs)) @ map f (filter P (xs ! p # drop (Suc p) xs))"
    by (metis filter_append map_append)
  with assms(1,5) have "f (xs ! p) \<notin> f ` set (filter P (take p xs))" by auto
  moreover have "xs ! q \<in> set (filter P (take p xs))" using assms(2-4) by (auto simp: in_set_conv_nth)
  ultimately show False unfolding same [symmetric] by blast
qed

lemma citing_index:
  assumes "distinct (map seq rows)" "replay_order True [] rows = us @ Verbatim r # vs"
  shows "find_index (\<lambda>it. is_verbatim it \<and> seq (item_row it) = seq r) (us @ Verbatim r # vs) = Some (length us)"
proof (rule find_index_at)
  have "map (seq \<circ> item_row) (filter is_verbatim (us @ Verbatim r # vs)) = map seq (filter row_kept rows)"
    by (metis assms(2) order_verbatim list.map_comp)
  then have "distinct (map (seq \<circ> item_row) (filter is_verbatim (us @ Verbatim r # vs)))"
    using assms(1) by (simp add: distinct_map_filter)
  from distinct_filter_nth [OF this, of _ "length us"]
  show "\<not> (is_verbatim ((us @ Verbatim r # vs) ! q) \<and> seq (item_row ((us @ Verbatim r # vs) ! q)) = seq r)"
    if "q < length us" for q
    using that by fastforce
qed simp_all

text \<open>
  The contents of the citable items before the citing one, given the contents of the verbatim items there.
\<close>

lemma citable_contents:
  "map row_content (map item_row (filter citable its))
     = filter (\<lambda>c. \<not> audit (fst c)) (map row_content (map item_row (filter is_verbatim its)))"
  by (induction its) (auto simp: citable_def audit_def row_content_def)

text \<open>The replayed log follows the order: what the agent itself logged is what was stored of it.\<close>

definition replays :: "item \<Rightarrow> DshEvent \<Rightarrow> bool" where
  "replays it e \<longleftrightarrow> is_verbatim it = of_agent e \<and> (is_verbatim it \<longrightarrow> dsh_content e = row_content (item_row it))"

lemma replays_all:
  assumes conv: "convert_items ordered i 0 ordered = Inr es" and "ordered = replay_order True [] rows"
    and own: "\<And>r. r \<in> set rows \<Longrightarrow> eventType r \<noteq> ''user/message''"
  shows "list_all2 replays ordered es"
proof (rule list_all2_all_nthI)
  note nth = convert_items_nth [OF conv, simplified]
  show "length ordered = length es" by (simp add: nth(1))
  fix j assume j: "j < length ordered"
  show "replays (ordered ! j) (es ! j)"
  proof (cases "ordered ! j")
    case (User r)
    with nth(2) [OF j] convert_user(1) show ?thesis by (auto simp: replays_def of_agent_def)
  next
    case (Verbatim r)
    then have "Verbatim r \<in> set (filter is_verbatim ordered)" using nth_mem [OF j] by simp
    then have "r \<in> set (map item_row (filter is_verbatim ordered))" by force
    then have "eventType r \<noteq> ''user/message''" using own assms(2) by (simp add: order_verbatim)
    with Verbatim nth(2) [OF j] convert_verbatim(1) [of ordered i j r "es ! j"] show ?thesis
      by (auto simp: replays_def of_agent_def dsh_content_def row_content_def)
  qed
qed

lemma replays_contents:
  "list_all2 replays its es \<Longrightarrow>
   map dsh_content (filter of_agent es) = map row_content (map item_row (filter is_verbatim its))"
  by (induction its es rule: list_all2_induct) (auto simp: replays_def)

text \<open>Where the \<open>n\<close>-th event of the agent stands.\<close>

lemma replayed_at:
  assumes kind: "list_all2 replays ordered es" and n: "n < length (filter is_verbatim ordered)"
  obtains us r vs fs e gs where "ordered = us @ Verbatim r # vs" "es = fs @ e # gs" "length fs = length us"
    "list_all2 replays us fs" "filter of_agent es ! n = e"
    "map item_row (filter is_verbatim us) = take n (map item_row (filter is_verbatim ordered))"
    "map item_row (filter is_verbatim ordered) ! n = r"
proof -
  from n obtain us vs where split: "ordered = us @ filter is_verbatim ordered ! n # vs"
      "filter is_verbatim us = take n (filter is_verbatim ordered)"
    by (rule split_filter)
  have "is_verbatim (filter is_verbatim ordered ! n)"
    using nth_mem [OF n] unfolding set_filter by blast
  then obtain r where r: "filter is_verbatim ordered ! n = Verbatim r"
    by (rule is_verbatim.elims(2))
  have O: "ordered = us @ Verbatim r # vs" using split(1) r by simp
  obtain fs e gs where E: "es = fs @ e # gs" "length fs = length us"
    using kind unfolding O list_all2_append1 list_all2_Cons1 by blast
  have rel: "list_all2 replays us fs" "replays (Verbatim r) e"
    using kind unfolding O E(1) by (simp_all add: list_all2_append E(2))
  have "length (filter of_agent fs) = n"
    using replays_contents [OF rel(1)] split(2) n by (metis length_map length_take min_absorb2 less_imp_le)
  then have "filter of_agent es ! n = e"
    using rel(2) by (simp add: E(1) nth_append replays_def)
  moreover have "map item_row (filter is_verbatim us) = take n (map item_row (filter is_verbatim ordered))"
    by (simp only: split(2) take_map)
  ultimately show ?thesis
    using O E rel(1) nth_map [OF n, of item_row] r by (intro that) simp_all
qed

text \<open>The citations of that event point to the last citable contents before it.\<close>

lemma cited_contents:
  assumes "ordered = us @ vs" "es = fs @ gs" "list_all2 replays us fs"
  shows "map (dsh_content \<circ> nth es) (filter (\<lambda>j. citable (ordered ! j)) [0..<length us])
    = filter (\<lambda>c. \<not> audit (fst c)) (map row_content (map item_row (filter is_verbatim us)))"
proof -
  note len = list_all2_lengthD [OF assms(3)]
  have same: "dsh_content (es ! j) = row_content (item_row (ordered ! j))" if "j < length us" "citable (ordered ! j)" for j
    using list_all2_nthD [OF assms(3), of j] that len by (simp add: assms(1,2) citable_def replays_def nth_append)
  have "map (dsh_content \<circ> nth es) (filter (\<lambda>j. citable (ordered ! j)) [0..<length us])
      = map ((row_content \<circ> item_row) \<circ> nth ordered) (filter (\<lambda>j. citable (ordered ! j)) [0..<length us])"
    using same by simp
  also have "\<dots> = map (row_content \<circ> item_row) (filter citable us)"
    by (subst filter_nth) (simp_all add: assms(1))
  finally show ?thesis using citable_contents [of us] by simp
qed

text \<open>What the \<open>n\<close>-th event of the agent looks like after a replay.\<close>

lemma replayed_event:
  assumes "toDshEvents i rows = Inr es" "distinct (map seq rows)"
    and own: "\<And>r. r \<in> set rows \<Longrightarrow> eventType r \<noteq> ''user/message''"
    and n: "n < length (filter row_kept rows)"
  defines "R \<equiv> filter row_kept rows" and "V \<equiv> filter of_agent es"
  shows "present (sourceEventSeqs (R ! n)) = None \<Longrightarrow> d_sources (V ! n) = None"
    and "present (sourceEventSeqs (R ! n)) = Some v \<Longrightarrow> \<exists>js vs. v = JArr vs \<and> d_sources (V ! n) = Some js
      \<and> map (dsh_content \<circ> nth es) js = last_n (length vs) (filter (\<lambda>c. \<not> audit (fst c)) (take n (map row_content R)))"
proof -
  let ?O = "replay_order True [] rows"
  have R: "map item_row (filter is_verbatim ?O) = R" by (simp add: R_def order_verbatim)
  from assms(1) have conv: "convert_items ?O i 0 ?O = Inr es" by (simp add: toDshEvents_def Let_def)
  from n have "n < length (filter is_verbatim ?O)" by (metis R R_def length_map)
  from replayed_at [OF replays_all [OF conv refl own] this] obtain us r vs fs e gs where
    O: "?O = us @ Verbatim r # vs" and E: "es = fs @ e # gs" "length fs = length us" "list_all2 replays us fs" and
    at: "filter of_agent es ! n = e" "map item_row (filter is_verbatim us) = take n R" "R ! n = r"
    unfolding R by metis
  have "convert_item ?O i (length us) (Verbatim r) = Inr e"
    using convert_items_nth(2) [OF conv, of "length us"] O E(1,2) by (simp add: nth_append)
  note verb = convert_verbatim(4,5) [OF this]
  show "present (sourceEventSeqs (R ! n)) = None \<Longrightarrow> d_sources (V ! n) = None"
    using verb(1) by (simp add: at V_def)
  assume "present (sourceEventSeqs (R ! n)) = Some v"
  then obtain js where js: "remapCitations ?O i (seq r) (eventType r) v = Inr js" "d_sources e = Some js"
    using verb(2) by (auto simp: at)
  from js(1) obtain ws where "v = JArr ws" "js = last_n (length ws) (filter (\<lambda>j. citable (?O ! j)) [0..<length us])"
    by (rule remap_accepted) (simp add: citing_index [OF assms(2) O] O)
  then show "\<exists>js vs. v = JArr vs \<and> d_sources (V ! n) = Some js
      \<and> map (dsh_content \<circ> nth es) js = last_n (length vs) (filter (\<lambda>c. \<not> audit (fst c)) (take n (map row_content R)))"
    using js(2) cited_contents [OF O E(1,3)] by (simp add: at V_def map_last_n take_map)
qed

section \<open>The live log\<close>

text \<open>
  The log of the running agent, an event per position; the events of the users are among it and are not
  stored by the host. \<open>adjacent\<close> is what the harness is relied on for: an event cites the events right
  before it, user messages and approval audits aside.
\<close>

definition live_content :: "NewSessionEvent \<Rightarrow> content" where
  "live_content e = (eventType e, eventTime e, data e)"

definition own_event :: "NewSessionEvent \<Rightarrow> bool" where
  "own_event e \<longleftrightarrow> eventType e \<noteq> ''user/message''"

definition adjacent :: "NewSessionEvent list \<Rightarrow> bool" where
  "adjacent L \<longleftrightarrow> (\<forall>q < length L. \<forall>vs. sourceEventSeqs (L ! q) = Some (JArr vs) \<longrightarrow>
     vs = map (\<lambda>j. JNum (int j)) (last_n (length vs) (filter (\<lambda>j. own_event (L ! j) \<and> \<not> audit (eventType (L ! j))) [0..<q])))"

text \<open>What an event of the live log cites, and what a replayed one does.\<close>

definition live_cited :: "NewSessionEvent list \<Rightarrow> NewSessionEvent \<Rightarrow> content list option" where
  "live_cited L e = (case sourceEventSeqs e of
       Some (JArr vs) \<Rightarrow> Some (concat (map (\<lambda>v. case v of JNum n \<Rightarrow> [live_content (L ! nat n)] | _ \<Rightarrow> []) vs))
     | _ \<Rightarrow> None)"

definition replay_cited :: "DshEvent list \<Rightarrow> DshEvent \<Rightarrow> content list option" where
  "replay_cited es e = map_option (map (\<lambda>j. dsh_content (es ! j))) (d_sources e)"

text \<open>The rows hold the live log: what the host stores is there, in order, and the control plane's rows between.\<close>

definition stores :: "SessionEvent list \<Rightarrow> NewSessionEvent list \<Rightarrow> bool" where
  "stores rows L \<longleftrightarrow> map (\<lambda>r. (row_content r, present (sourceEventSeqs r))) (filter row_kept rows)
     = map (\<lambda>e. (live_content e, present (sourceEventSeqs e))) (filter own_event L)"

lemma live_cited_adjacent:
  assumes "adjacent L" "n < length (filter own_event L)" "sourceEventSeqs (filter own_event L ! n) = Some (JArr vs)"
  shows "live_cited L (filter own_event L ! n)
    = Some (last_n (length vs) (filter (\<lambda>c. \<not> audit (fst c)) (take n (map live_content (filter own_event L)))))"
proof -
  from assms(2) obtain us ws where L: "L = us @ filter own_event L ! n # ws" "filter own_event us = take n (filter own_event L)"
    by (rule split_filter)
  let ?P = "\<lambda>e. own_event e \<and> \<not> audit (eventType e)"
  let ?js = "last_n (length vs) (filter (\<lambda>j. ?P (L ! j)) [0..<length us])"
  have "length us < length L" "L ! length us = filter own_event L ! n"
    by (subst L(1), simp)+
  with assms(1,3) have vs: "vs = map (\<lambda>j. JNum (int j)) ?js" by (auto simp: adjacent_def)
  have split: "concat (map (\<lambda>v. case v of JNum n \<Rightarrow> [live_content (L ! nat n)] | _ \<Rightarrow> []) (map (\<lambda>j. JNum (int j)) js))
      = map (live_content \<circ> nth L) js" for js
    by (induction js) simp_all
  have "concat (map (\<lambda>v. case v of JNum n \<Rightarrow> [live_content (L ! nat n)] | _ \<Rightarrow> []) vs) = map (live_content \<circ> nth L) ?js"
    by (subst vs) (rule split)
  also have "\<dots> = last_n (length vs) (map live_content (filter ?P (take (length us) L)))"
    unfolding map_last_n by (subst filter_nth) (subst L(1), simp_all)
  also have "take (length us) L = us" by (subst L(1)) simp
  also have "map live_content (filter ?P us) = filter (\<lambda>c. \<not> audit (fst c)) (map live_content (filter own_event us))"
    by (induction us) (auto simp: live_content_def)
  finally show ?thesis
    using assms(3) L(2) by (simp add: live_cited_def take_map)
qed

section \<open>A resumed log\<close>

lemma stores_own:
  assumes "stores rows L" "r \<in> set rows"
  shows "eventType r \<noteq> ''user/message''"
proof (cases "row_kept r")
  case True
  with assms(2) have "(row_content r, present (sourceEventSeqs r)) \<in> set (map (\<lambda>r. (row_content r, present (sourceEventSeqs r))) (filter row_kept rows))"
    by auto
  with assms(1) show ?thesis
    unfolding stores_def by (auto simp: row_content_def live_content_def own_event_def)
qed (auto simp: row_kept_def)


text \<open>A turn with a tool call: the live log counts two user messages the table never sees.\<close>

definition live_event :: "string \<Rightarrow> int list \<Rightarrow> NewSessionEvent" where
  "live_event t cites = \<lparr>eventType = t, eventTime = 7, data = JStr t,
     sourceEventSeqs = (if cites = [] then None else Some (JArr (map JNum cites))), surfaceOp = None\<rparr>"

definition sample_live :: "NewSessionEvent list" where
  "sample_live = [live_event ''turn/start'' [], live_event ''step/start'' [], live_event ''user/message'' [],
     live_event ''user/message'' [], live_event ''assistant/chunk'' [], live_event ''assistant/message'' [4],
     live_event ''tool/call'' [], live_event ''approval/asked'' [], live_event ''tool/result'' [6]]"

definition stored_row :: "nat \<Rightarrow> NewSessionEvent \<Rightarrow> SessionEvent" where
  "stored_row n e = NewSessionEvent.extend e \<lparr>e_sessionId = ''s'', seq = n\<rparr>"

definition sample_rows :: "SessionEvent list" where
  "sample_rows = map (\<lambda>(n, e). stored_row n e) (zip [0..<9]
     ((live_event ''user_message'' [])\<lparr>data := JObj [(''content'', JStr ''hi'')]\<rparr> # live_event ''approval'' []
        # filter own_event sample_live))"


definition row_text :: "SessionEvent \<Rightarrow> string option" where
  "row_text r = (case json_field (data r) ''content'' of Some (JStr c) \<Rightarrow> Some c | _ \<Rightarrow> None)"

definition event_text :: "DshEvent \<Rightarrow> string option" where
  "event_text e = (case json_field (d_data e) ''content'' of
       Some (JArr [v]) \<Rightarrow> (case json_field v ''text'' of Some (JStr c) \<Rightarrow> Some c | _ \<Rightarrow> None)
     | _ \<Rightarrow> None)"

lemma replayed_users:
  assumes conv: "convert_items ordered i 0 ordered = Inr es" and "list_all2 replays ordered es"
  shows "map (\<lambda>e. (d_time e, event_text e)) (filter (\<lambda>e. \<not> of_agent e) es)
    = map (\<lambda>r. (eventTime r, row_text r)) (map item_row (filter (\<lambda>it. \<not> is_verbatim it) ordered))"
proof -
  have says: "d_time e = eventTime r \<and> event_text e = row_text r" if "convert_item ordered i n (User r) = Inr e" for n r e
    using convert_user(4,5) [OF that] by (auto simp: event_text_def row_text_def)
  have "list_all2 (\<lambda>it e. is_verbatim it = of_agent e \<and> (\<not> is_verbatim it \<longrightarrow> d_time e = eventTime (item_row it) \<and> event_text e = row_text (item_row it))) ordered es"
    (is "list_all2 ?rel _ _")
  proof (rule list_all2_all_nthI)
    fix j assume j: "j < length ordered"
    from list_all2_nthD [OF assms(2) j] convert_items_nth(2) [OF conv j] says show "?rel (ordered ! j) (es ! j)"
      by (cases "ordered ! j") (auto simp: replays_def)
  qed (use convert_items_nth(1) [OF conv] in simp)
  then show ?thesis
    by (induction ordered es rule: list_all2_induct) auto
qed

lemma find_index_le: "p < length xs \<Longrightarrow> P (xs ! p) \<Longrightarrow> \<exists>c \<le> p. find_index P xs = Some c"
proof (induction xs arbitrary: p)
  case (Cons x xs)
  show ?case
  proof (cases "P x \<or> p = 0")
    case False
    with Cons.IH [of "p - 1"] Cons.prems obtain c where "c \<le> p - 1" "find_index P xs = Some c" by (cases p) auto
    with False show ?thesis by (intro exI [of _ "Suc c"]) auto
  qed (use Cons.prems in auto)
qed simp

lemma cites_earlier:
  assumes conv: "convert_items ordered i 0 ordered = Inr es" and "j < length ordered" "d_sources (es ! j) = Some js" "c \<in> set js"
  shows "c < j"
proof -
  note at = convert_items_nth(2) [OF conv assms(2), simplified]
  from at assms(3) convert_user(3) obtain r where r: "ordered ! j = Verbatim r" by (cases "ordered ! j") auto
  with at assms(3) convert_verbatim(4,5) [of ordered i j r "es ! j"] obtain v where
    "remapCitations ordered i (seq r) (eventType r) v = Inr js"
    by (cases "present (sourceEventSeqs r)") auto
  then obtain k where "js = last_n k (filter (\<lambda>j. citable (ordered ! j))
       [0..<(case find_index (\<lambda>it. is_verbatim it \<and> seq (item_row it) = seq r) ordered of None \<Rightarrow> 0 | Some c \<Rightarrow> c)])"
    by (rule remap_accepted) blast
  moreover obtain f where "f \<le> j" "find_index (\<lambda>it. is_verbatim it \<and> seq (item_row it) = seq r) ordered = Some f"
    using find_index_le [of j ordered "\<lambda>it. is_verbatim it \<and> seq (item_row it) = seq r"] assms(2) r by auto
  ultimately show ?thesis using assms(4) set_last_n by fastforce
qed

text \<open>C32: a replay loses and invents nothing: whenever the rows can be replayed, the events are numbered from
  0 without a gap, the agent's own events are exactly the stored ones, in order, byte for byte, every user message
  comes back once, in order, with its time and text, approvals and cancels do not, and every citation points to
  an earlier event.\<close>

theorem replay_keeps_log:
  assumes "toDshEvents i rows = Inr es" and "\<forall>r \<in> set rows. eventType r \<noteq> ''user/message''"
  shows "map d_seq es = [0..<length es]
    \<and> map dsh_content (filter of_agent es) = map row_content (filter row_kept rows)
    \<and> map (\<lambda>e. (d_time e, event_text e)) (filter (\<lambda>e. \<not> of_agent e) es)
        = map (\<lambda>r. (eventTime r, row_text r)) (filter (\<lambda>r. eventType r = ''user_message'') rows)
    \<and> (\<forall>j < length es. \<forall>js. d_sources (es ! j) = Some js \<longrightarrow> (\<forall>c \<in> set js. c < j))"
proof (intro conjI)
  let ?O = "replay_order True [] rows"
  from assms(1) have conv: "convert_items ?O i 0 ?O = Inr es" by (simp add: toDshEvents_def Let_def)
  have own: "\<And>r. r \<in> set rows \<Longrightarrow> eventType r \<noteq> ''user/message''" using assms(2) by blast
  note kind = replays_all [OF conv refl own]
  have seq: "d_seq (es ! j) = j" if "j < length ?O" for j
  proof (cases "?O ! j")
    case (User r)
    with convert_items_nth(2) [OF conv that] show ?thesis by (simp add: convert_user(2))
  next
    case (Verbatim r)
    with convert_items_nth(2) [OF conv that] show ?thesis by (simp add: convert_verbatim(2))
  qed
  show "map d_seq es = [0..<length es]"
    by (rule nth_equalityI) (simp_all add: seq convert_items_nth(1) [OF conv])
  show "map dsh_content (filter of_agent es) = map row_content (filter row_kept rows)"
    using replays_contents [OF kind] by (simp add: order_verbatim)
  show "map (\<lambda>e. (d_time e, event_text e)) (filter (\<lambda>e. \<not> of_agent e) es)
        = map (\<lambda>r. (eventTime r, row_text r)) (filter (\<lambda>r. eventType r = ''user_message'') rows)"
    using replayed_users [OF conv kind] by (simp add: order_users)
  show "\<forall>j < length es. \<forall>js. d_sources (es ! j) = Some js \<longrightarrow> (\<forall>c \<in> set js. c < j)"
    using cites_earlier [OF conv] convert_items_nth(1) [OF conv] by auto
qed

theorem replay_keeps_log_witness:
  "\<exists>es. toDshEvents ''s'' sample_rows = Inr es \<and> map d_seq es = [0..<length es]
     \<and> map dsh_content (filter of_agent es) = map row_content (filter row_kept sample_rows)
     \<and> map (\<lambda>e. (d_time e, event_text e)) (filter (\<lambda>e. \<not> of_agent e) es) = [(7, Some ''hi'')]"
proof -
  have "\<not> isl (toDshEvents ''s'' sample_rows)" by code_simp
  then obtain es where es: "toDshEvents ''s'' sample_rows = Inr es" by (cases "toDshEvents ''s'' sample_rows") auto
  have "list_all (\<lambda>r. eventType r \<noteq> ''user/message'') sample_rows" by code_simp
  then have own: "\<forall>r \<in> set sample_rows. eventType r \<noteq> ''user/message''" by (simp add: list_all_iff)
  have "map (\<lambda>r. (eventTime r, row_text r)) (filter (\<lambda>r. eventType r = ''user_message'') sample_rows) = [(7, Some ''hi'')]"
    by code_simp
  with replay_keeps_log [OF es own] es show ?thesis by auto
qed

text \<open>
  Rank is not identity: of two tool calls in a row, the result of the first is replayed as the result of the
  second, and with both results there the session cannot be resumed at all.
\<close>

definition parallel_calls :: "SessionEvent list" where
  "parallel_calls = map (\<lambda>(n, e). stored_row n e) (zip [0..<4]
     [live_event ''tool/call'' [], live_event ''tool/call'' [], live_event ''tool/result'' [0], live_event ''tool/result'' [1]])"

lemma parallel_calls_miscited:
  "map_sum id (map d_sources) (toDshEvents ''s'' (take 3 parallel_calls)) = Inr [None, None, Some [1]]"
  "isl (toDshEvents ''s'' parallel_calls)"
  by code_simp+

end
