(* ===== verification/Turn_Props.thy ===== *)
theory Turn_Props
  imports Turn Replay_Props "HOL-Library.Sublist"
begin

text \<open>
  The turn starter under every interleaving of its steps: an agent's ask ends once and is never allowed
  without a decision that names it, and what the agents log reaches the table in order.
\<close>

section \<open>Approvals\<close>

text \<open>
  What a history of steps says: an event linked an asked id to a session and perhaps a call; a decision
  approved an id; an ask was granted by one of them.
\<close>

definition linked :: "host_step set \<Rightarrow> string \<Rightarrow> AskedLink \<Rightarrow> bool" where
  "linked D a l \<longleftrightarrow> (\<exists>e. Emit (al_session l) e \<in> D \<and> eventType e = ''approval/asked''
     \<and> json_field (data e) ''id'' = Some (JStr a)
     \<and> al_call l = (case json_field (data e) ''callId'' of Some (JStr c) \<Rightarrow> Some c | _ \<Rightarrow> None))"

definition approved :: "host_step set \<Rightarrow> string \<Rightarrow> bool" where
  "approved D c \<longleftrightarrow> Decide c Approve \<in> D \<or> (\<exists>a l. Decide a Approve \<in> D \<and> linked D a l \<and> al_call l = Some c)"

definition granted :: "host_step set \<Rightarrow> PendingApproval \<Rightarrow> bool" where
  "granted D p \<longleftrightarrow> (case pd_call p of
       Some c \<Rightarrow> approved D c
     | None \<Rightarrow> \<exists>a l. Decide a Approve \<in> D \<and> linked D a l \<and> al_session l = pd_session p)"

lemma history_mono:
  assumes "D \<subseteq> E"
  shows "linked D a l \<Longrightarrow> linked E a l" and "approved D c \<Longrightarrow> approved E c" and "granted D p \<Longrightarrow> granted E p"
proof -
  show l: "linked D a l \<Longrightarrow> linked E a l" for a l using assms by (auto simp: linked_def)
  then show a: "approved D c \<Longrightarrow> approved E c" for c using assms by (auto simp: approved_def)
  show "granted D p \<Longrightarrow> granted E p" using l a assms by (cases "pd_call p") (auto simp: granted_def, blast)
qed

text \<open>The maps of the bridge point to asks they are about, and what is kept for later was decided.\<close>

definition bridge_ok :: "host_step set \<Rightarrow> turn_host \<Rightarrow> bool" where
  "bridge_ok D s \<longleftrightarrow>
     (\<forall>p \<in> set (asks s). pd_outcome p = Some AllowedOnce \<longrightarrow> granted D p)
   \<and> (\<forall>c. earlyDecisions s c = Some AllowedOnce \<longrightarrow> approved D c)
   \<and> (\<forall>a l. askedLinks s a = Some l \<longrightarrow> linked D a l)
   \<and> (\<forall>c k. pendingByCall s c = Some k \<longrightarrow> k < length (asks s) \<and> pd_call (asks s ! k) = Some c)
   \<and> (\<forall>sid. \<forall>k \<in> set (pendingAnonymous s sid). k < length (asks s) \<and> pd_call (asks s ! k) = None \<and> pd_session (asks s ! k) = sid)"

lemma bridge_mono: "D \<subseteq> E \<Longrightarrow> bridge_ok D s \<Longrightarrow> bridge_ok E s"
  unfolding bridge_ok_def by (meson history_mono)

lemma settle_frame [simp]:
  "earlyDecisions (settle k oc s) = earlyDecisions s" "askedLinks (settle k oc s) = askedLinks s"
  "appendTails (settle k oc s) = appendTails s" "th_db (settle k oc s) = th_db s" "th_log (settle k oc s) = th_log s"
  "asks (settle k oc s) = (if unsettled s k then (asks s)[k := (asks s ! k)\<lparr>pd_outcome := Some oc\<rparr>] else asks s)"
  by (auto simp: settle_def unpend_def unsettled_def Let_def split: option.split)

lemma settle_pending:
  "pendingByCall (settle k oc s) c = Some j \<Longrightarrow> pendingByCall s c = Some j"
  "j \<in> set (pendingAnonymous (settle k oc s) sid) \<Longrightarrow> j \<in> set (pendingAnonymous s sid)"
  by (auto simp: settle_def unpend_def Let_def split: option.splits if_splits dest: set_remove1_subset [THEN subsetD])

lemma granted_outcome [simp]: "granted D (p\<lparr>pd_outcome := x\<rparr>) = granted D p"
  by (simp add: granted_def split: option.split)

lemma bridge_settle:
  assumes "bridge_ok D s" "oc = AllowedOnce \<Longrightarrow> k < length (asks s) \<Longrightarrow> granted D (asks s ! k)"
  shows "bridge_ok D (settle k oc s)"
proof -
  have "\<forall>p \<in> set (asks (settle k oc s)). pd_outcome p = Some AllowedOnce \<longrightarrow> granted D p"
    using assms by (auto simp: bridge_ok_def unsettled_def dest!: set_update_subset_insert [THEN subsetD])
  moreover have "length (asks (settle k oc s)) = length (asks s)"
    "pd_call (asks (settle k oc s) ! j) = pd_call (asks s ! j)" "pd_session (asks (settle k oc s) ! j) = pd_session (asks s ! j)" for j
    by (simp_all add: unsettled_def nth_list_update split: if_splits)
  ultimately show ?thesis
    using assms(1) by (auto simp: bridge_ok_def dest: settle_pending)
qed

lemma bridge_settleCall:
  assumes "bridge_ok D s" "oc = AllowedOnce \<Longrightarrow> approved D c"
  shows "bridge_ok D (snd (settleCallId c oc s))"
  using assms by (auto simp: settleCallId_def split: option.split intro!: bridge_settle) (auto simp: bridge_ok_def granted_def)

lemma bridge_settleAnonymous:
  assumes "bridge_ok D s" "oc = AllowedOnce \<Longrightarrow> \<exists>a l. Decide a Approve \<in> D \<and> linked D a l \<and> al_session l = sid"
  shows "bridge_ok D (snd (settleAnonymous sid oc s))"
proof (cases "List.find (unsettled s) (pendingAnonymous s sid)")
  case (Some k)
  then have "k \<in> set (pendingAnonymous s sid)" by (auto dest: find_row)
  with assms(1) have "pd_call (asks s ! k) = None" "pd_session (asks s ! k) = sid" by (auto simp: bridge_ok_def)
  with assms(2) have "oc = AllowedOnce \<Longrightarrow> granted D (asks s ! k)" by (simp add: granted_def)
  with Some bridge_settle [OF assms(1)] show ?thesis by (simp add: settleAnonymous_def)
qed (use assms(1) in \<open>simp add: settleAnonymous_def\<close>)

lemma bridge_early:
  assumes "bridge_ok D s" "oc = AllowedOnce \<Longrightarrow> approved D c"
  shows "bridge_ok D (s\<lparr>earlyDecisions := (earlyDecisions s)(c \<mapsto> oc)\<rparr>)"
  using assms by (auto simp: bridge_ok_def)

lemma bridge_log [simp]: "bridge_ok D (s\<lparr>th_log := ls\<rparr>) = bridge_ok D s"
  by (simp add: bridge_ok_def)

text \<open>A decision settles one ask, directly or through its link, or is kept for later.\<close>

lemma settle_failed: "settleCallId c oc s = (False, t) \<Longrightarrow> t = s" "settleAnonymous sid oc s = (False, t) \<Longrightarrow> t = s"
  by (auto simp: settleCallId_def settleAnonymous_def split: option.splits if_splits)

lemma resolve_cases:
  assumes "resolveApproval a dec s = (r, t)"
  obtains (direct) "settleCallId a (outcome_of dec) s = (True, t)" "r"
  | (linked) l c where "askedLinks s a = Some l" "al_call l = Some c" "settleCallId c (outcome_of dec) s = (True, t)" "r"
  | (anonymous) l where "askedLinks s a = Some l" "settleAnonymous (al_session l) (outcome_of dec) s = (True, t)" "r"
  | (parked) l where "askedLinks s a = Some l" "r" "t = s\<lparr>earlyDecisions := (case al_call l of
        None \<Rightarrow> (earlyDecisions s)(a \<mapsto> outcome_of dec)
      | Some c \<Rightarrow> (earlyDecisions s)(a \<mapsto> outcome_of dec, c \<mapsto> outcome_of dec))\<rparr>"
  | (unknown) "askedLinks s a = None" "\<not> r" "t = s\<lparr>earlyDecisions := (earlyDecisions s)(a \<mapsto> outcome_of dec),
        th_log := th_log s @ [''turn.approval_unknown_id'']\<rparr>"
proof (cases "settleCallId a (outcome_of dec) s")
  case d: (Pair b s1)
  show ?thesis
  proof (cases "b \<or> askedLinks s a = None")
    case True
    have "b \<or> s1 = s" using d by (cases b) (auto dest: settle_failed)
    with True assms d show ?thesis
      by (cases b) (auto simp: resolveApproval_def Let_def intro: direct unknown)
  next
    case False
    with d have "s1 = s" by (simp add: settle_failed)
    from False obtain l where l: "askedLinks s a = Some l" by auto
    obtain b2 s2 where m: "(case al_call l of Some c \<Rightarrow> settleCallId c (outcome_of dec) s | None \<Rightarrow> (False, s)) = (b2, s2)" by fastforce
    obtain b3 s3 where n: "settleAnonymous (al_session l) (outcome_of dec) s2 = (b3, s3)" by fastforce
    have "b2 \<or> s2 = s" using m by (cases b2) (auto split: option.splits dest: settle_failed)
    then consider "b2" | "s2 = s" "\<not> b2" "b3" | "s2 = s" "\<not> b2" "\<not> b3" "s3 = s" using n by (cases b2; cases b3) (auto dest: settle_failed)
    then show ?thesis
    proof cases
      case 1
      with assms d False l m \<open>s1 = s\<close> show ?thesis
        by (cases "al_call l") (auto simp: resolveApproval_def Let_def intro: linked)
    next
      case 2
      with assms d False l m n \<open>s1 = s\<close> show ?thesis
        by (auto simp: resolveApproval_def Let_def intro: anonymous)
    next
      case 3
      with assms d False l m n \<open>s1 = s\<close> show ?thesis
        by (intro parked [of l]) (auto simp: resolveApproval_def Let_def split: option.splits)
    qed
  qed
qed

lemma bridge_resolve:
  assumes "bridge_ok D s" and dec: "Decide a dec \<in> D"
  shows "bridge_ok D (snd (resolveApproval a dec s))"
proof -
  let ?oc = "outcome_of dec"
  have direct: "?oc = AllowedOnce \<Longrightarrow> approved D a" using dec by (cases dec) (auto simp: approved_def)
  have link: "linked D a l" if "askedLinks s a = Some l" for l using assms(1) that by (simp add: bridge_ok_def)
  have called: "?oc = AllowedOnce \<Longrightarrow> approved D c" if "askedLinks s a = Some l" "al_call l = Some c" for l c
    using dec link [OF that(1)] that(2) by (cases dec) (auto simp: approved_def)
  have anon: "?oc = AllowedOnce \<Longrightarrow> \<exists>a l'. Decide a Approve \<in> D \<and> linked D a l' \<and> al_session l' = al_session l"
    if "askedLinks s a = Some l" for l
    using dec link [OF that] by (cases dec) auto
  obtain r t where run: "resolveApproval a dec s = (r, t)" by fastforce
  then show ?thesis
  proof (cases rule: resolve_cases)
    case direct
    with bridge_settleCall [OF assms(1) \<open>?oc = AllowedOnce \<Longrightarrow> approved D a\<close>] run show ?thesis by (metis snd_conv)
  next
    case (linked l c)
    with bridge_settleCall [OF assms(1) called [OF linked(1,2)]] run show ?thesis by (metis snd_conv)
  next
    case (anonymous l)
    with bridge_settleAnonymous [OF assms(1) anon [OF anonymous(1)]] run show ?thesis by (metis snd_conv)
  next
    case (parked l)
    with run bridge_early [OF assms(1) \<open>?oc = AllowedOnce \<Longrightarrow> approved D a\<close>] called [OF parked(1)] show ?thesis
      by (cases "al_call l") (auto simp: bridge_ok_def)
  next
    case unknown
    with run bridge_early [OF assms(1) \<open>?oc = AllowedOnce \<Longrightarrow> approved D a\<close>] show ?thesis by simp
  qed
qed

lemma bridge_ask:
  assumes "bridge_ok D s"
  shows "bridge_ok D (onApprovalRequest sid call aborted s)"
proof (cases "case call of None \<Rightarrow> None | Some c \<Rightarrow> earlyDecisions s c")
  case (Some oc)
  then obtain c where c: "call = Some c" "earlyDecisions s c = Some oc" by (cases call) auto
  with assms show ?thesis
    by (auto simp: onApprovalRequest_def Let_def bridge_ok_def granted_def nth_append intro: less_SucI)
next
  case None
  let ?t = "s\<lparr>asks := asks s @ [\<lparr>pd_session = sid, pd_call = call, pd_outcome = None\<rparr>]\<rparr>"
  let ?u = "case call of
      Some c \<Rightarrow> ?t\<lparr>pendingByCall := (pendingByCall ?t)(c \<mapsto> length (asks s))\<rparr>
    | None \<Rightarrow> ?t\<lparr>pendingAnonymous := (pendingAnonymous ?t)(sid := pendingAnonymous ?t sid @ [length (asks s)])\<rparr>"
  have "bridge_ok D ?u"
    using assms by (cases call) (auto simp: bridge_ok_def nth_append less_Suc_eq)
  with None show ?thesis
    by (auto simp: onApprovalRequest_def Let_def intro: bridge_settle)
qed

text \<open>The steps of turns and appends do not touch the bridge.\<close>

definition same_bridge :: "turn_host \<Rightarrow> turn_host \<Rightarrow> bool" where
  "same_bridge s t \<longleftrightarrow> asks t = asks s \<and> earlyDecisions t = earlyDecisions s \<and> askedLinks t = askedLinks s
     \<and> pendingByCall t = pendingByCall s \<and> pendingAnonymous t = pendingAnonymous s"

lemma bridge_sameD: "same_bridge s t \<Longrightarrow> bridge_ok D s \<Longrightarrow> bridge_ok D t"
  by (simp add: same_bridge_def bridge_ok_def)

lemma same_bridge_followups: "same_bridge s (fold (\<lambda>rc. followup rc sid) ws s)"
  by (induction ws arbitrary: s) (auto simp: same_bridge_def followup_def)

lemma same_bridge_steps:
  "same_bridge s (startTurn n sid c s)" "same_bridge s (agentCreated sid failure s)" "same_bridge s (snd (cancelTurn i s))"
  "same_bridge s (appendOne_turn sid s)" "same_bridge s (enqueueAppend sid e s)" "same_bridge s (run_step (Outside op) s)"
proof -
  show "same_bridge s (startTurn n sid c s)"
    by (auto simp: same_bridge_def startTurn_def followup_def Let_def split: prod.split sum.split option.split)
  show "same_bridge s (agentCreated sid failure s)"
    using same_bridge_followups [of "s\<lparr>creating := (creating s)(sid := None), agents := agents s @ [sid]\<rparr>" sid]
    by (auto simp: same_bridge_def agentCreated_def Let_def split: option.split)
  show "same_bridge s (snd (cancelTurn i s))" "same_bridge s (appendOne_turn sid s)" "same_bridge s (enqueueAppend sid e s)"
    "same_bridge s (run_step (Outside op) s)"
    by (auto simp: same_bridge_def cancelTurn_def appendOne_turn_def enqueueAppend_def split: option.split list.split prod.split sum.split)
qed

lemma askedLink_cases:
  obtains "askedLink sid e s = s"
  | i where "eventType e = ''approval/asked''" "json_field (data e) ''id'' = Some (JStr i)"
      "askedLink sid e s = s\<lparr>askedLinks := (askedLinks s)(i \<mapsto>
         \<lparr>al_session = sid, al_call = (case json_field (data e) ''callId'' of Some (JStr c) \<Rightarrow> Some c | _ \<Rightarrow> None)\<rparr>)\<rparr>"
proof (cases "eventType e = ''approval/asked''")
  case True
  show ?thesis
  proof (cases "json_field (data e) ''id''")
    case (Some v)
    with True that show ?thesis by (cases v) (simp_all add: askedLink_def)
  qed (use True that in \<open>simp add: askedLink_def\<close>)
qed (use that in \<open>simp add: askedLink_def\<close>)

lemma bridge_step: "bridge_ok D s \<Longrightarrow> x \<in> D \<Longrightarrow> bridge_ok D (run_step x s)"
proof (induction x)
  case (Decide a dec)
  then show ?case by (simp add: bridge_resolve)
next
  case (Ask sid call aborted)
  then show ?case by (simp add: bridge_ask)
next
  case (Abort k)
  then have "bridge_ok D (settle k Cancelled s)" by (intro bridge_settle) auto
  then show ?case by simp
next
  case (Emit sid e)
  let ?link = "\<lparr>al_session = sid, al_call = (case json_field (data e) ''callId'' of Some (JStr c) \<Rightarrow> Some c | _ \<Rightarrow> None)\<rparr>"
  have "bridge_ok D (askedLink sid e s)"
  proof (cases rule: askedLink_cases [of sid e s])
    case 1
    with Emit show ?thesis by simp
  next
    case (2 i)
    with Emit(2) have "linked D i ?link" by (auto simp: linked_def)
    with Emit(1) show ?thesis unfolding 2(3) by (simp add: bridge_ok_def)
  qed
  moreover have "same_bridge (askedLink sid e s) (enqueueAppend sid e (askedLink sid e s))" by (rule same_bridge_steps)
  ultimately show ?case by (simp add: onSessionEvent_def bridge_sameD)
next
  case (Outside op)
  then show ?case by (metis bridge_sameD same_bridge_steps(6))
qed (simp_all add: bridge_sameD [OF same_bridge_steps(1)] bridge_sameD [OF same_bridge_steps(2)]
       bridge_sameD [OF same_bridge_steps(3)] bridge_sameD [OF same_bridge_steps(4)])

lemma bridge_run: "bridge_ok (set xs) (host_run xs (new_host d))"
proof (induction xs rule: rev_induct)
  case Nil
  show ?case by (simp add: host_run_def bridge_ok_def new_host_def)
next
  case (snoc x xs)
  then have "bridge_ok (set (xs @ [x])) (host_run xs (new_host d))" by (rule bridge_mono [rotated]) auto
  then show ?case by (simp add: host_run_def bridge_step)
qed

text \<open>An ask keeps its session and call, and an outcome it has.\<close>

definition keeps_asks :: "turn_host \<Rightarrow> turn_host \<Rightarrow> bool" where
  "keeps_asks s t \<longleftrightarrow> length (asks s) \<le> length (asks t)
     \<and> (\<forall>k < length (asks s). pd_outcome (asks s ! k) = None \<or> asks t ! k = asks s ! k)"

lemma keeps_asks_trans: "keeps_asks s t \<Longrightarrow> keeps_asks t u \<Longrightarrow> keeps_asks s u"
  by (auto simp: keeps_asks_def) (metis order_less_le_trans)

lemma keeps_asks_settle [simp]: "keeps_asks s (settle k oc s)"
  by (auto simp: keeps_asks_def unsettled_def nth_list_update)

lemma keeps_asks_refl [simp]: "keeps_asks s s" "asks t = asks s \<Longrightarrow> keeps_asks s t"
  by (simp_all add: keeps_asks_def)

lemma keeps_asks_call: "keeps_asks s (snd (settleCallId c oc s))" "keeps_asks s (snd (settleAnonymous sid oc s))"
  by (auto simp: settleCallId_def settleAnonymous_def split: option.split)

lemma keeps_asks_resolve: "keeps_asks s (snd (resolveApproval a dec s))"
proof -
  obtain r t where run: "resolveApproval a dec s = (r, t)" by fastforce
  then have "keeps_asks s t"
    by (cases rule: resolve_cases) (use keeps_asks_call in \<open>metis snd_conv\<close>, use keeps_asks_call in \<open>metis snd_conv\<close>,
      use keeps_asks_call in \<open>metis snd_conv\<close>, auto simp: keeps_asks_def)
  with run show ?thesis by simp
qed

lemma keeps_asks_step: "keeps_asks s (run_step x s)"
proof (cases x)
  case (Ask sid call aborted)
  have "keeps_asks s (s\<lparr>asks := asks s @ [p]\<rparr>)" for p by (simp add: keeps_asks_def nth_append)
  then show ?thesis
    by (auto simp: Ask onApprovalRequest_def Let_def keeps_asks_def unsettled_def nth_append nth_list_update split: option.split)
next
  case (Emit sid e)
  have "asks (onSessionEvent sid e s) = asks s"
    by (auto simp: onSessionEvent_def askedLink_def enqueueAppend_def split: option.split json.split)
  then show ?thesis by (simp add: Emit)
qed (use same_bridge_steps [of s] in \<open>auto simp: same_bridge_def keeps_asks_resolve\<close>)

lemma keeps_asks_run: "keeps_asks s (host_run xs s)"
proof (induction xs arbitrary: s)
  case (Cons x xs)
  have "host_run (x # xs) s = host_run xs (run_step x s)" by (simp add: host_run_def)
  with Cons.IH [of "run_step x s"] keeps_asks_step [of s x] show ?case by (simp add: keeps_asks_trans)
qed (simp add: host_run_def)


definition asked :: "string \<Rightarrow> string option \<Rightarrow> NewSessionEvent" where
  "asked i c = \<lparr>eventType = ''approval/asked'', eventTime = 0,
     data = JObj ((''id'', JStr i) # (case c of None \<Rightarrow> [] | Some c \<Rightarrow> [(''callId'', JStr c)])),
     sourceEventSeqs = None, surfaceOp = None\<rparr>"


text \<open>
  Three ways a decision misses. A second decision on an ask that has ended is kept for its call, and answers a
  later ask of the same call id without the user. It settles the oldest ask without a call of the session, if
  there is one. A decision that names an asked id before its event came is kept under that id, where no ask looks.
\<close>

lemma decision_misses:
  "map pd_outcome (asks (host_run [Emit ''s'' (asked ''i'' (Some ''c'')), Ask ''s'' (Some ''c'') False, Decide ''i'' Approve,
     Decide ''i'' Approve, Ask ''s'' (Some ''c'') False] (new_host (sample_db READY)))) = [Some AllowedOnce, Some AllowedOnce]"
  "map pd_outcome (asks (host_run [Emit ''s'' (asked ''i'' (Some ''c'')), Ask ''s'' (Some ''c'') False, Decide ''i'' Approve,
     Ask ''s'' None False, Decide ''i'' Approve] (new_host (sample_db READY)))) = [Some AllowedOnce, Some AllowedOnce]"
  "map pd_outcome (asks (host_run [Decide ''i'' Approve, Emit ''s'' (asked ''i'' (Some ''c'')), Ask ''s'' (Some ''c'') False]
     (new_host (sample_db READY)))) = [None]"
  by code_simp+

section \<open>The feed\<close>

text \<open>What the agents of a session logged, and what of it the host is to store.\<close>

fun emitted :: "string \<Rightarrow> host_step list \<Rightarrow> NewSessionEvent list" where
  "emitted sid [] = []"
| "emitted sid (Emit i e # xs) = (if i = sid then e # emitted sid xs else emitted sid xs)"
| "emitted sid (_ # xs) = emitted sid xs"

text \<open>
  An event as the harness logs it: its type is none of the control plane's, its data is no bare string, and
  its citations are a list. Meanwhile others may do anything but delete a workspace, or append rows of other
  types than the control plane's to this session.
\<close>

definition agent_event :: "NewSessionEvent \<Rightarrow> bool" where
  "agent_event e \<longleftrightarrow> eventType e \<notin> {''user_message'', ''approval'', ''cancel''} \<and> (\<forall>t. data e \<noteq> JStr t)
     \<and> (case sourceEventSeqs e of None \<Rightarrow> True | Some v \<Rightarrow> (case v of JArr _ \<Rightarrow> True | _ \<Rightarrow> False))"

fun fair_step :: "string \<Rightarrow> host_step \<Rightarrow> bool" where
  "fair_step sid (Emit i e) = agent_event e"
| "fair_step sid (Outside (DeleteWorkspace w)) = False"
| "fair_step sid (Outside (Append i es)) =
     (i = sid \<longrightarrow> (\<forall>e \<in> set es. eventType e \<in> {''user_message'', ''approval'', ''cancel''}))"
| "fair_step sid _ = True"

definition pair_of :: "NewSessionEvent \<Rightarrow> content \<times> json option" where
  "pair_of e = (live_content e, present (sourceEventSeqs e))"

definition kept_pairs :: "string \<Rightarrow> db \<Rightarrow> (content \<times> json option) list" where
  "kept_pairs sid d = map (\<lambda>r. (row_content r, present (sourceEventSeqs r))) (filter row_kept (map rowToEvent (events_of sid d)))"

lemma kept_outages [simp]: "kept_pairs sid (d\<lparr>outages := os\<rparr>) = kept_pairs sid d"
  by (simp add: kept_pairs_def)

lemma kept_same_events: "session_events d' = session_events d \<Longrightarrow> kept_pairs sid d' = kept_pairs sid d"
  by (simp add: kept_pairs_def events_of_def)

text \<open>The rows of an append, as they are read back.\<close>

lemma pair_read:
  assumes "agent_event e"
  shows "row_kept (as_read (persisted_event i n e))"
    and "(row_content (as_read (persisted_event i n e)), present (sourceEventSeqs (as_read (persisted_event i n e)))) = pair_of e"
  using assms
  by (auto simp: agent_event_def row_kept_def as_read_def persisted_event_def row_content_def pair_of_def live_content_def
      nullable_def present_def decodeColumn_def truthy_def split: option.splits json.splits)

lemma append_kept:
  assumes "db_ok d" "append_events i es d = (r, d')"
  shows "db_ok d'"
    and "sid \<noteq> i \<Longrightarrow> kept_pairs sid d' = kept_pairs sid d"
    and "r = Inl x \<Longrightarrow> kept_pairs i d' = kept_pairs i d"
    and "r = Inr ps \<Longrightarrow> \<forall>e \<in> set es. agent_event e \<Longrightarrow> kept_pairs i d' = kept_pairs i d @ map pair_of es"
    and "\<forall>e \<in> set es. eventType e \<in> {''user_message'', ''approval'', ''cancel''} \<Longrightarrow> kept_pairs i d' = kept_pairs i d"
proof -
  show "db_ok d'" using keepsD [OF preserves_append [of i es], of d] assms by simp
  have failed: "kept_pairs j d' = kept_pairs j d" if "r = Inl x" for j x
  proof -
    from that assms(2) obtain os where "d' = d\<lparr>outages := os\<rparr>"
      by (cases "es = []") (auto simp: append_events_def ret_def dest!: transaction_throws)
    then show ?thesis by simp
  qed
  then show "r = Inl x \<Longrightarrow> kept_pairs i d' = kept_pairs i d" by simp
  have rows: "kept_pairs i d' = kept_pairs i d @ map (\<lambda>r. (row_content r, present (sourceEventSeqs r)))
      (filter row_kept (map as_read (persisted_events i (length (events_of i d)) es)))" if "r = Inr ps" for ps
    using append_ok [OF assms(1), of i es ps d'] assms(2) that
    by (simp add: kept_pairs_def rows_read)
  have agent: "map (\<lambda>r. (row_content r, present (sourceEventSeqs r))) (filter row_kept (map as_read (persisted_events i n es))) = map pair_of es"
    if "\<forall>e \<in> set es. agent_event e" for n
    using that by (induction es arbitrary: n) (simp_all add: pair_read)
  then show "r = Inr ps \<Longrightarrow> \<forall>e \<in> set es. agent_event e \<Longrightarrow> kept_pairs i d' = kept_pairs i d @ map pair_of es"
    using rows by simp
  have control: "filter row_kept (map as_read (persisted_events i n es)) = []"
    if "\<forall>e \<in> set es. eventType e \<in> {''user_message'', ''approval'', ''cancel''}" for n
    using that by (induction es arbitrary: n) (auto simp: row_kept_def as_read_def persisted_event_def)
  show "\<forall>e \<in> set es. eventType e \<in> {''user_message'', ''approval'', ''cancel''} \<Longrightarrow> kept_pairs i d' = kept_pairs i d"
    using rows control failed by (cases r) auto
  show "sid \<noteq> i \<Longrightarrow> kept_pairs sid d' = kept_pairs sid d"
    using failed append_ok(4) [OF assms(1), of i es _ d'] assms(2) by (cases r) (auto simp: kept_pairs_def)
qed

text \<open>The other operations leave the events alone.\<close>

abbreviation same_events :: "db \<Rightarrow> db \<Rightarrow> bool" where
  "same_events d d' \<equiv> session_events d' = session_events d"

lemma same_events_sql: "(\<And>d. session_events (snd (f d)) = session_events d) \<Longrightarrow> keeps same_events (sql f)"
  by (rule keeps_sql) (auto simp: transp_def)

lemma same_events_rel [simp, intro]: "reflp same_events" "transp same_events"
  by (auto simp: reflp_def transp_def)

lemma same_events_statements [intro]:
  "keeps same_events (select q)" "keeps same_events (insert_workspace r)" "keeps same_events (update_workspace i f)"
  "keeps same_events (insert_session t)" "keeps same_events (insert_checkpoint c)" "keeps same_events (sql (throwC x))"
  unfolding select_def insert_workspace_def update_workspace_def insert_session_def insert_checkpoint_def
  by (rule same_events_sql; auto simp: getC_def violates_def throwC_def Let_def split: option.split)+

lemma same_events_transaction [intro]:
  assumes "keeps same_events body" shows "keeps same_events (transactionC body)"
proof (rule keepsI)
  fix d
  have "session_events (snd (body d)) = session_events d" using assms by (rule keepsD)
  moreover have "keeps same_events (sql (ret () :: unit sql))" by (rule same_events_sql) (simp add: ret_def)
  then have "session_events (snd (sql (ret () :: unit sql) (snd (body d)))) = session_events (snd (body d))" by (rule keepsD)
  ultimately show "session_events (snd (transactionC body d)) = session_events d"
    by (auto simp: transactionC_def split: sum.split prod.split)
qed

lemma same_events_fetch [intro]: "keeps same_events (fetchOr m i)" "keeps same_events (fetchIf i b)"
  unfolding fetchIf_def fetchOr_def getWorkspace_def
  by (auto intro!: keeps_bind keeps_then keeps_ret keeps_throw split: option.split)

lemma same_events_op:
  assumes "fair_step sid (Outside op)" "\<nexists>i es. op = Append i es"
  shows "session_events (run_op op d) = session_events d"
proof -
  have "keeps same_events (createWorkspace inp)" "keeps same_events (updateWorkspace i p)"
    "keeps same_events (markRestoreFailedIfStarting i e)" "keeps same_events (recordRestoreErrorIfFailed i e)"
    "keeps same_events (createSession i w m)" "keeps same_events (recordCheckpoint u w sha g)" for inp i p e w m u sha g
    unfolding createWorkspace_def updateWorkspace_def markRestoreFailedIfStarting_def recordRestoreErrorIfFailed_def
      createSession_def getSession_def recordCheckpoint_def
    by (auto intro!: keeps_bind keeps_then keeps_ret keeps_throw same_events_transaction split: option.split list.split)
  from this [THEN keepsD] show ?thesis using assms by (cases op) simp_all
qed

text \<open>Steps that neither log for an agent nor write for the host.\<close>

definition same_feed :: "turn_host \<Rightarrow> turn_host \<Rightarrow> bool" where
  "same_feed s t \<longleftrightarrow> (\<exists>os. th_db t = (th_db s)\<lparr>outages := os\<rparr>) \<and> appendTails t = appendTails s
     \<and> set (th_log s) \<subseteq> set (th_log t)"

lemma same_feedI: "th_db t = th_db s \<Longrightarrow> appendTails t = appendTails s \<Longrightarrow> set (th_log s) \<subseteq> set (th_log t) \<Longrightarrow> same_feed s t"
  by (auto simp: same_feed_def intro: exI [of _ "outages (th_db s)"])

lemma same_feed_followups: "same_feed s (fold (\<lambda>rc. followup rc sid) ws s)"
proof (induction ws arbitrary: s)
  case (Cons rc ws)
  have "same_feed s (followup rc sid s)" by (rule same_feedI) (auto simp: followup_def)
  with Cons.IH [of "followup rc sid s"] show ?case by (auto simp: same_feed_def)
qed (simp add: same_feedI)

lemma same_feed_resolve: "same_feed s (snd (resolveApproval a dec s))"
proof -
  have settles: "settleCallId c oc s = (b, t) \<Longrightarrow> same_feed s t" "settleAnonymous i oc s = (b, t) \<Longrightarrow> same_feed s t" for c i oc b t
    by (auto simp: settleCallId_def settleAnonymous_def intro!: same_feedI split: option.splits if_splits)
  obtain r t where run: "resolveApproval a dec s = (r, t)" by fastforce
  then have "same_feed s t"
    by (cases rule: resolve_cases) (auto intro: settles same_feedI)
  with run show ?thesis by simp
qed

lemma same_feed_steps:
  "same_feed s (startTurn n sid c s)" "same_feed s (agentCreated sid failure s)" "same_feed s (snd (cancelTurn i s))"
  "same_feed s (onApprovalRequest sid call aborted s)" "same_feed s (settle k oc s)"
proof -
  obtain r d where g: "getSession sid (th_db s) = (r, d)" by fastforce
  then obtain os where "d = (th_db s)\<lparr>outages := os\<rparr>"
    unfolding getSession_def
    using select_run [of "\<lambda>d. map_option (rowToSession \<circ> decode_metadata) (session_row sid d)" "th_db s"] by auto
  with g show "same_feed s (startTurn n sid c s)"
    by (auto simp: same_feed_def startTurn_def followup_def Let_def split: sum.split option.split)
  show "same_feed s (agentCreated sid failure s)"
    using same_feed_followups [of "s\<lparr>creating := (creating s)(sid := None), agents := agents s @ [sid]\<rparr>" sid]
    by (auto simp: same_feed_def agentCreated_def Let_def split: option.split intro: exI [of _ "outages (th_db s)"])
  show "same_feed s (snd (cancelTurn i s))" "same_feed s (onApprovalRequest sid call aborted s)" "same_feed s (settle k oc s)"
    by (auto intro!: same_feedI simp: cancelTurn_def onApprovalRequest_def Let_def split: option.split)
qed

text \<open>
  The invariant of the feed: the table holds, in order, some of the events logged, those still waiting come
  after them, and if no write failed none is missing.
\<close>

definition feed_ok :: "string \<Rightarrow> NewSessionEvent list \<Rightarrow> turn_host \<Rightarrow> bool" where
  "feed_ok sid L s \<longleftrightarrow> db_ok (th_db s) \<and> (\<forall>i. \<forall>e \<in> set (appendTails s i). agent_event e) \<and>
     (\<exists>es. kept_pairs sid (th_db s) = map pair_of es \<and> (\<forall>e \<in> set es. own_event e) \<and> subseq (es @ appendTails s sid) (filter own_event L)
        \<and> (''turn.persist_failed'' \<notin> set (th_log s) \<longrightarrow> es @ appendTails s sid = filter own_event L))"

lemma feed_same: "feed_ok sid L s \<Longrightarrow> same_feed s t \<Longrightarrow> feed_ok sid L t"
  unfolding feed_ok_def same_feed_def by auto

lemma feed_append:
  assumes "feed_ok sid L s"
  shows "feed_ok sid L (appendOne_turn i s)"
proof (cases "appendTails s i")
  case Nil
  with assms show ?thesis by (simp add: appendOne_turn_def)
next
  case (Cons e es)
  obtain r d where run: "append_events i [e] (th_db s) = (r, d)" by fastforce
  from assms Cons obtain old where old: "db_ok (th_db s)" "\<forall>i. \<forall>e \<in> set (appendTails s i). agent_event e"
      "kept_pairs sid (th_db s) = map pair_of old" "\<forall>e \<in> set old. own_event e" "subseq (old @ appendTails s sid) (filter own_event L)"
      "''turn.persist_failed'' \<notin> set (th_log s) \<Longrightarrow> old @ appendTails s sid = filter own_event L"
    by (auto simp: feed_ok_def)
  note kept = append_kept [OF old(1) run]
  have own: "own_event e" if "i = sid"
  proof -
    from that Cons have "e \<in> set (old @ appendTails s sid)" by simp
    with old(5) have "e \<in> set (filter own_event L)" by (meson subseq_order.trans subseq_singleton_left)
    then show ?thesis by simp
  qed
  have agent: "agent_event e" using old(2) Cons by (metis list.set_intros(1))
  have tails: "\<forall>j. \<forall>x \<in> set (((appendTails s)(i := es)) j). agent_event x"
    using old(2) Cons by (auto simp: fun_upd_def) (metis list.set_intros(2))
  show ?thesis
  proof (cases "i = sid")
    case False
    with old kept(1,2) tails run Cons show ?thesis
      by (auto simp: feed_ok_def appendOne_turn_def split: sum.split)
  next
    case same: True
    show ?thesis
    proof (cases r)
      case (Inl x)
      have "subseq (old @ es) (old @ e # es)" by (simp add: subseq_append' subseq_Cons')
      with old(5) Cons same have "subseq (old @ es) (filter own_event L)" by (metis subseq_order.trans)
      with Inl old kept(1) kept(3) tails run Cons same show ?thesis
        by (auto simp: feed_ok_def appendOne_turn_def)
    next
      case (Inr ps)
      with agent have "kept_pairs sid d = map pair_of (old @ [e])" using kept(4) old(3) same by simp
      with Inr old kept(1) tails run Cons same own show ?thesis
        by (auto simp: feed_ok_def appendOne_turn_def intro!: exI [of _ "old @ [e]"])
    qed
  qed
qed

lemma emitted_append: "emitted sid (xs @ ys) = emitted sid xs @ emitted sid ys"
  by (induction sid xs rule: emitted.induct) simp_all

lemma feed_emit:
  assumes "feed_ok sid L s" "agent_event e"
  shows "feed_ok sid (L @ emitted sid [Emit i e]) (onSessionEvent i e s)"
proof -
  have "same_feed s (askedLink i e s)" by (cases rule: askedLink_cases [of i e s]) (auto intro: same_feedI)
  with assms(1) have "feed_ok sid L (askedLink i e s)" by (rule feed_same)
  then obtain es where es: "kept_pairs sid (th_db (askedLink i e s)) = map pair_of es" "\<forall>e \<in> set es. own_event e"
      "subseq (es @ appendTails (askedLink i e s) sid) (filter own_event L)"
      "''turn.persist_failed'' \<notin> set (th_log (askedLink i e s)) \<Longrightarrow> es @ appendTails (askedLink i e s) sid = filter own_event L"
    and frame: "db_ok (th_db (askedLink i e s))" "\<forall>j. \<forall>x \<in> set (appendTails (askedLink i e s) j). agent_event x"
    by (auto simp: feed_ok_def)
  have more: "subseq ((es @ appendTails (askedLink i e s) sid) @ [e]) (filter own_event L @ [e])"
    using es(3) by (rule list_emb_append_mono) simp
  show ?thesis
    unfolding onSessionEvent_def feed_ok_def
    using es frame more assms(2) by (intro conjI exI [of _ es]) (auto simp: enqueueAppend_def own_event_def)
qed

lemma feed_step:
  assumes "feed_ok sid L s" "fair_step sid x"
  shows "feed_ok sid (L @ emitted sid [x]) (run_step x s)"
proof (cases x)
  case (Outside op)
  have "db_ok (run_op op (th_db s))" using assms(1) run_op_ok by (simp add: feed_ok_def)
  moreover have "kept_pairs sid (run_op op (th_db s)) = kept_pairs sid (th_db s)"
  proof (cases "\<exists>i es. op = Append i es")
    case True
    then obtain i es where "op = Append i es" by blast
    with append_kept(2,5) [of "th_db s" i es] assms Outside show ?thesis
      by (cases "i = sid"; cases "append_events i es (th_db s)") (auto simp: feed_ok_def)
  next
    case False
    with assms(2) Outside show ?thesis by (intro kept_same_events same_events_op) auto
  qed
  ultimately show ?thesis using assms(1) Outside by (simp add: feed_ok_def)
next
  case (Emit i e)
  with assms feed_emit [OF assms(1), of e i] show ?thesis by simp
next
  case (AppendNext i)
  with feed_append [OF assms(1)] show ?thesis by simp
qed (use feed_same [OF assms(1)] same_feed_steps [of s] same_feed_resolve [of s] in simp_all)

lemma feed_run:
  assumes "db_ok d" "kept_pairs sid d = []" "\<forall>x \<in> set xs. fair_step sid x"
  shows "feed_ok sid (emitted sid xs) (host_run xs (new_host d))"
  using assms(3)
proof (induction xs rule: rev_induct)
  case Nil
  show ?case using assms(1,2) by (simp add: host_run_def feed_ok_def new_host_def)
next
  case (snoc x xs)
  then show ?case by (simp add: host_run_def emitted_append feed_step)
qed

lemma feed_stores:
  "kept_pairs sid d = map pair_of es \<Longrightarrow> \<forall>e \<in> set es. own_event e \<Longrightarrow> stores (map rowToEvent (events_of sid d)) es"
  by (simp add: stores_def kept_pairs_def pair_of_def cong: map_cong)

text \<open>C34: what the agents log is what the table holds: whatever turns, decisions, failing statements and writes
  of others come between (deleting the workspace and foreign agent rows aside), the rows of a session store,
  in order and numbered apart, a subsequence of the events its agent logged, user messages left out; and once
  the chain is drained and no write has failed they store the log itself.\<close>

theorem agent_log_is_stored:
  assumes "db_ok d" "kept_pairs sid d = []" "\<forall>x \<in> set xs. fair_step sid x"
    and "readEvents sid None (th_db (host_run xs (new_host d))) = (Inr rows, d')"
  shows "distinct (map seq rows)
    \<and> (\<exists>es. stores rows es \<and> subseq es (filter own_event (emitted sid xs)))
    \<and> (''turn.persist_failed'' \<notin> set (th_log (host_run xs (new_host d))) \<and> drained sid (host_run xs (new_host d))
         \<longrightarrow> stores rows (emitted sid xs))"
proof -
  let ?s = "host_run xs (new_host d)"
  from feed_run [OF assms(1-3)] obtain es where ok: "db_ok (th_db ?s)" and es: "kept_pairs sid (th_db ?s) = map pair_of es"
      "\<forall>e \<in> set es. own_event e" "subseq (es @ appendTails ?s sid) (filter own_event (emitted sid xs))"
      "''turn.persist_failed'' \<notin> set (th_log ?s) \<Longrightarrow> es @ appendTails ?s sid = filter own_event (emitted sid xs)"
    by (auto simp: feed_ok_def)
  from assms(4) obtain os where "rows = map rowToEvent (events_of sid ((th_db ?s)\<lparr>outages := os\<rparr>))"
    unfolding readEvents_def by (auto dest: select_returns)
  then have rows: "rows = map rowToEvent (events_of sid (th_db ?s))" by simp
  have "map seq rows = map ev_seq (events_of sid (th_db ?s))" by (simp add: rows rowToEvent_def)
  then have "distinct (map seq rows)" using ok by (simp add: db_ok_def contiguous_def)
  moreover have "stores rows es" unfolding rows using es(1,2) by (rule feed_stores)
  moreover have "subseq (es @ []) (es @ appendTails ?s sid)"
    by (rule list_emb_append_mono) simp_all
  then have "subseq es (filter own_event (emitted sid xs))" using es(3) by (simp add: subseq_order.trans [of es])
  moreover have "stores rows (emitted sid xs)" if "''turn.persist_failed'' \<notin> set (th_log ?s)" "drained sid ?s"
  proof -
    have "es = filter own_event (emitted sid xs)" using es(4) [OF that(1)] that(2) by (simp add: drained_def)
    with \<open>stores rows es\<close> show ?thesis by (simp add: stores_def)
  qed
  ultimately show ?thesis by blast
qed

definition sample_steps :: "host_step list" where
  "sample_steps = [Outside (Append ''s'' [(live_event ''user_message'' [])\<lparr>data := JObj [(''content'', JStr ''hi'')]\<rparr>]),
     StartTurn 1 ''s'' ''hi'', Created ''s'' None, Emit ''s'' ((live_event ''turn/start'' [])\<lparr>data := JObj []\<rparr>),
     Emit ''s'' ((live_event ''user/message'' [])\<lparr>data := JObj []\<rparr>), AppendNext ''s'']"

theorem agent_log_is_stored_witness:
  "\<exists>rows. stores rows [(live_event ''turn/start'' [])\<lparr>data := JObj []\<rparr>, (live_event ''user/message'' [])\<lparr>data := JObj []\<rparr>]
     \<and> map eventType rows = [''user_message'', ''turn/start''] \<and> distinct (map seq rows)"
proof -
  let ?s = "host_run sample_steps (new_host (sample_db READY))"
  have kept: "kept_pairs ''s'' (sample_db READY) = []" by (simp add: kept_pairs_def sample_db_def empty_db_def events_of_def)
  have fair: "\<forall>x \<in> set sample_steps. fair_step ''s'' x"
    by (simp add: sample_steps_def agent_event_def live_event_def)
  have log: "''turn.persist_failed'' \<notin> set (th_log ?s)" by code_simp
  have drained: "drained ''s'' ?s" by code_simp
  have emitted: "emitted ''s'' sample_steps = [(live_event ''turn/start'' [])\<lparr>data := JObj []\<rparr>, (live_event ''user/message'' [])\<lparr>data := JObj []\<rparr>]"
    by (simp add: sample_steps_def)
  have "map_sum id (map eventType) (fst (readEvents ''s'' None (th_db ?s))) = Inr [''user_message'', ''turn/start'']" by code_simp
  then obtain rows d' where rows: "readEvents ''s'' None (th_db ?s) = (Inr rows, d')" "map eventType rows = [''user_message'', ''turn/start'']"
    by (cases "readEvents ''s'' None (th_db ?s)") auto
  from agent_log_is_stored [OF sample_db_ok kept fair rows(1)] log drained emitted rows(2) show ?thesis by auto
qed

end
