(* ===== verification/Gateway.thy ===== *)
theory Gateway
  imports Http Idle Turn Scheduler Lease_Props
begin

text \<open>
  The gateway of the agent host (\<open>apps/agent-host/src/gateway.ts\<close>): the HTTP server inside an Instance,
  behind which stand the runtime, the controller lease and the turn starter. These are parameters, acting
  on the state \<open>'h\<close> of the host. Bodies that cannot be read are not modelled, and an integer beyond
  \<open>2 ^ 53\<close> counts as no integer.
\<close>

section \<open>Collaborators\<close>

datatype gateway_error = GwRuntime thrown | GwLease lease_error | GwOther string

definition gw_message :: "gateway_error \<Rightarrow> string" where
  "gw_message e =
     (case e of
        GwRuntime (Error k _) \<Rightarrow> snd (runtime_error_text k)
      | GwRuntime (NonError m) \<Rightarrow> m
      | GwLease l \<Rightarrow> snd (lease_error_text l)
      | GwOther m \<Rightarrow> m)"

record AgentTurnInput =
  ti_workspaceId :: string
  ti_sessionId :: string
  ti_seq :: int
  ti_content :: string

text \<open>The optional methods are \<open>None\<close> when absent.\<close>

record 'h TurnStarter =
  st_startTurn :: "AgentTurnInput \<Rightarrow> ('h, gateway_error, unit) comp"
  st_cancelTurn :: "(string option \<Rightarrow> ('h, gateway_error, nat) comp) option"
  st_resolveApproval :: "(string \<Rightarrow> ApprovalDecision \<Rightarrow> ('h, gateway_error, bool) comp) option"

text \<open>The wait of \<open>prepareStop\<close> may never end: then it returns \<open>None\<close>.\<close>

record 'h AgentGatewayDeps =
  gd_workspaceId :: string
  gd_controllerId :: string
  gd_health :: "'h \<Rightarrow> HealthStatus"
  gd_getActive :: "('h, gateway_error, ControllerLeaseRecord option) comp"
  gd_getState :: "'h \<Rightarrow> runtime_state"
  gd_assertAgentInputAllowed :: "('h, gateway_error, unit) comp"
  gd_recordActivity :: "ActivityKind \<Rightarrow> 'h \<Rightarrow> 'h"
  gd_prepareStop :: "('h, gateway_error, runtime_state option) comp"
  gd_runCheckpoint :: "('h, gateway_error, LifecycleResult) comp \<Rightarrow> ('h, gateway_error, LifecycleResult) comp"
  gd_turnStarter :: "'h TurnStarter option"
  gd_manualCheckpoint :: "('h, gateway_error, LifecycleResult) comp option"

text \<open>The host, and the lines logged: event and fields.\<close>

record 'h gateway =
  gw_host :: 'h
  gw_log :: "(string \<times> (string \<times> string) list) list"

definition on_host :: "('h, 'e, 'a) comp \<Rightarrow> ('h gateway, 'e, 'a) comp" where
  "on_host m = zoomC gw_host (\<lambda>h s. s\<lparr>gw_host := h\<rparr>) (\<lambda>e. e) m"

definition gw_logs :: "string \<Rightarrow> (string \<times> string) list \<Rightarrow> ('h gateway, 'e, unit) comp" where
  "gw_logs e fs = modifyC (\<lambda>s. s\<lparr>gw_log := gw_log s @ [(e, fs)]\<rparr>)"

definition optional :: "string \<Rightarrow> 'a option \<Rightarrow> (string \<times> 'a) list" where
  "optional k v = (case v of None \<Rightarrow> [] | Some x \<Rightarrow> [(k, x)])"

section \<open>Routes\<close>

definition DSH_USER_ID_HEADER :: string where
  "DSH_USER_ID_HEADER = ''x-dsh-user-id''"

definition AGENT_HOST_HEALTH_PATH :: string where
  "AGENT_HOST_HEALTH_PATH = ''/readyz''"

definition gateway_actions :: "string list" where
  "gateway_actions = [''messages'', ''approvals'', ''cancel'', ''events'', ''prepare-stop'', ''checkpoint'']"

text \<open>The groups of \<open>GATEWAY_ROUTE_RE\<close>: workspace, session, action.\<close>

definition GATEWAY_ROUTE_RE :: "string \<Rightarrow> (string \<times> string option \<times> string) option" where
  "GATEWAY_ROUTE_RE p =
     (case split_at slash p of
        [[], a, w, x] \<Rightarrow>
          if a = ''workspaces'' \<and> w \<noteq> [] \<and> x \<in> set gateway_actions then Some (w, None, x) else None
      | [[], a, w, b, i, x] \<Rightarrow>
          if a = ''workspaces'' \<and> w \<noteq> [] \<and> b = ''sessions'' \<and> i \<noteq> [] \<and> x \<in> set gateway_actions
          then Some (w, Some i, x) else None
      | _ \<Rightarrow> None)"

definition caller :: "Request \<Rightarrow> string option" where
  "caller rq = (case rq_headers rq DSH_USER_ID_HEADER of
       None \<Rightarrow> None | Some u \<Rightarrow> if u = [] then None else Some u)"

definition tryParseRouteIds :: "Request \<Rightarrow> (string \<times> string) list" where
  "tryParseRouteIds rq =
     (case GATEWAY_ROUTE_RE (rq_path rq) of
        None \<Rightarrow> []
      | Some (w, i, _) \<Rightarrow> (''workspaceId'', w) # optional ''sessionId'' i)
     @ optional ''userId'' (caller rq)"

definition gw_json :: "nat \<Rightarrow> (string \<times> json) list \<Rightarrow> Response" where
  "gw_json st fs = \<lparr>rs_status = st, rs_body = JsonBody (JObj fs),
     rs_headers = [(''Content-Type'', ''application/json'')]\<rparr>"

definition methodNotAllowed :: Response where
  "methodNotAllowed = gw_json 405 [(''error'', JStr ''method not allowed'')]"

fun health_text :: "HealthStatus \<Rightarrow> string" where
  "health_text Health_RESTORING = ''RESTORING''"
| "health_text Health_READY = ''READY''"
| "health_text Health_RESTORE_FAILED = ''RESTORE_FAILED''"

definition healthResponse :: "HealthStatus \<Rightarrow> string \<Rightarrow> Response" where
  "healthResponse st w = gw_json (nat (healthResponse_status st))
     [(''status'', JStr (health_text st)), (''workspaceId'', JStr w)]"

section \<open>Bodies\<close>

record forwarded =
  fb_sessionId :: "string option"
  fb_seq :: int
  fb_content :: string

definition readForwardedBody :: "Request \<Rightarrow> string + forwarded option" where
  "readForwardedBody rq =
     (let t = decodeText (rq_body rq) in
      if trim t = [] then Inr None
      else (case json_parse t of
          None \<Rightarrow> Inl ''request body must be JSON''
        | Some v \<Rightarrow>
            if \<not> (case v of JObj _ \<Rightarrow> True | JArr _ \<Rightarrow> True | _ \<Rightarrow> False) then Inl ''request body must be a JSON object''
            else (case (json_field v ''seq'', json_field v ''content'') of
                (Some q, Some c) \<Rightarrow>
                  (case (q, c, json_field v ''sessionId'') of
                     (JNum n, JStr text, None) \<Rightarrow> Inr (Some \<lparr>fb_sessionId = None, fb_seq = n, fb_content = text\<rparr>)
                   | (JNum n, JStr text, Some (JStr i)) \<Rightarrow> Inr (Some \<lparr>fb_sessionId = Some i, fb_seq = n, fb_content = text\<rparr>)
                   | (JNum n, JStr text, _) \<Rightarrow> Inl (''field '' @ [single_quote] @ ''sessionId'' @ [single_quote] @ '' must be a string'')
                   | (JNum n, _, _) \<Rightarrow> Inl (''field '' @ [single_quote] @ ''content'' @ [single_quote] @ '' must be a string'')
                   | _ \<Rightarrow> Inl (''field '' @ [single_quote] @ ''seq'' @ [single_quote] @ '' must be an integer''))
              | _ \<Rightarrow> Inl (''request body must carry the forwarded event ('' @ [single_quote] @ ''seq'' @ [single_quote]
                       @ '' and '' @ [single_quote] @ ''content'' @ [single_quote] @ '')''))))"

definition readApprovalBody :: "Request \<Rightarrow> (string \<times> ApprovalDecision) option" where
  "readApprovalBody rq =
     (let t = decodeText (rq_body rq) in
      if trim t = [] then None
      else (case json_parse t of
          None \<Rightarrow> None
        | Some v \<Rightarrow>
            (case json_field v ''approvalId'' of
               Some (JStr a) \<Rightarrow>
                 if a = [] then None
                 else (case json_field v ''decision'' of
                     None \<Rightarrow> Some (a, Approve)
                   | Some (JStr x) \<Rightarrow>
                       if x = ''approved'' then Some (a, Approve)
                       else if x = ''rejected'' then Some (a, Reject) else None
                   | _ \<Rightarrow> None)
             | _ \<Rightarrow> None)))"

section \<open>The routes of a session\<close>

definition startTurn_route ::
  "'h AgentGatewayDeps \<Rightarrow> string \<Rightarrow> Request \<Rightarrow> string \<Rightarrow> string \<Rightarrow> string \<Rightarrow> ('h gateway, gateway_error, Response) comp" where
  "startTurn_route d errorId rq w i u =
     (case readForwardedBody rq of
        Inl m \<Rightarrow> ret (gw_json 400 [(''error'', JStr m)])
      | Inr parsed \<Rightarrow>
          if (case parsed of None \<Rightarrow> False | Some b \<Rightarrow> fb_sessionId b \<noteq> None \<and> fb_sessionId b \<noteq> Some i)
          then ret (gw_json 400 [(''error'', JStr ''sessionId mismatch between path and body'')])
          else
            (let n = (case parsed of None \<Rightarrow> -1 | Some b \<Rightarrow> fb_seq b);
                 c = (case parsed of None \<Rightarrow> [] | Some b \<Rightarrow> fb_content b) in
             case gd_turnStarter d of
               None \<Rightarrow> thenC (gw_logs ''gateway.turn.not_implemented'' [(''userId'', u), (''workspaceId'', w), (''sessionId'', i)])
                 (ret (gw_json 503 [(''error'', JStr ''turn not implemented: no TurnStarter is wired (issue #21)''),
                    (''code'', JStr ''turn_not_implemented''), (''sessionId'', JStr i)]))
             | Some st \<Rightarrow>
                 bindC (tryC (on_host (st_startTurn st \<lparr>ti_workspaceId = w, ti_sessionId = i, ti_seq = n, ti_content = c\<rparr>)))
                   (\<lambda>r. case r of
                      Inl e \<Rightarrow> thenC (gw_logs ''gateway.turn.failed'' [(''errorId'', errorId), (''userId'', u),
                          (''workspaceId'', w), (''sessionId'', i), (''error'', gw_message e)])
                        (ret (gw_json 500 [(''error'', JStr ''turn failed to start''), (''errorId'', JStr errorId)]))
                    | Inr _ \<Rightarrow> thenC (on_host (modifyC (gd_recordActivity d user_message)))
                        (thenC (gw_logs ''gateway.request.accepted'' [(''userId'', u), (''sessionId'', i), (''event_detail'', ''user_message'')])
                        (ret (gw_json 202 [(''accepted'', JBool True), (''sessionId'', JStr i),
                           (''activity'', JStr ''user_message''), (''turnStarted'', JBool True), (''seq'', JNum n)]))))))"

definition turn_effect_failed ::
  "string \<Rightarrow> string option \<Rightarrow> string \<Rightarrow> gateway_error \<Rightarrow> ('h gateway, gateway_error, (string \<times> json) list) comp" where
  "turn_effect_failed w i what e =
     thenC (gw_logs ''gateway.turn_effect.failed''
       ([(''workspaceId'', w)] @ optional ''sessionId'' i @ [(''event_detail'', what), (''error'', gw_message e)])) (ret [])"

datatype input_kind = MessageInput | ApprovalInput | CancelInput

fun input_activity :: "input_kind \<Rightarrow> ActivityKind" where
  "input_activity MessageInput = user_message"
| "input_activity ApprovalInput = approval"
| "input_activity CancelInput = workspace_operation"

fun input_text :: "input_kind \<Rightarrow> string" where
  "input_text MessageInput = ''user_message''"
| "input_text ApprovalInput = ''approval''"
| "input_text CancelInput = ''workspace_operation''"

text \<open>The effect of an approval or a cancel on the turns of the agent.\<close>

definition applyTurnEffect ::
  "'h AgentGatewayDeps \<Rightarrow> Request \<Rightarrow> string \<Rightarrow> string option \<Rightarrow> input_kind
   \<Rightarrow> ('h gateway, gateway_error, (string \<times> json) list) comp" where
  "applyTurnEffect d rq w i k =
     (case (k = ApprovalInput, i) of
        (True, Some sid) \<Rightarrow>
          (case gd_turnStarter d of
             None \<Rightarrow> ret []
           | Some st \<Rightarrow> (case st_resolveApproval st of
                 None \<Rightarrow> ret []
               | Some resolve \<Rightarrow> (case readApprovalBody rq of
                     None \<Rightarrow> thenC (gw_logs ''gateway.approval.ignored'' [(''workspaceId'', w), (''sessionId'', sid)]) (ret [])
                   | Some (a, dec) \<Rightarrow>
                       bindC (tryC (on_host (resolve a dec))) (\<lambda>r. case r of
                           Inl e \<Rightarrow> turn_effect_failed w i ''approval'' e
                         | Inr b \<Rightarrow> ret [(''approvalResolved'', JBool b)]))))
      | (True, None) \<Rightarrow> ret []
      | (False, _) \<Rightarrow>
          (case gd_turnStarter d of
             None \<Rightarrow> ret []
           | Some st \<Rightarrow> (case st_cancelTurn st of
                 None \<Rightarrow> ret []
               | Some cancel \<Rightarrow>
                   bindC (tryC (on_host (cancel i))) (\<lambda>r. case r of
                       Inl e \<Rightarrow> turn_effect_failed w i ''workspace_operation'' e
                     | Inr n \<Rightarrow> ret [(''turnsCancelled'', JNum (int n))]))))"

definition agentInput_route ::
  "'h AgentGatewayDeps \<Rightarrow> string \<Rightarrow> Request \<Rightarrow> string \<Rightarrow> string option \<Rightarrow> string \<Rightarrow> input_kind
   \<Rightarrow> ('h gateway, gateway_error, Response) comp" where
  "agentInput_route d errorId rq w i u k =
     (if i = None \<and> k \<noteq> CancelInput then ret (gw_json 400 [(''error'', JStr ''sessionId required'')])
      else bindC (tryC (on_host (gd_assertAgentInputAllowed d))) (\<lambda>r. case r of
          Inl e \<Rightarrow>
            (case e of
               GwRuntime (Error (AgentInputRefusedError st) _) \<Rightarrow>
                 ret (gw_json 409 [(''error'', JStr (''agent input refused in state '' @ state_text st))])
             | _ \<Rightarrow> throwC e)
        | Inr _ \<Rightarrow>
            (case (k, i) of
               (MessageInput, Some sid) \<Rightarrow> startTurn_route d errorId rq w sid u
             | _ \<Rightarrow>
                 thenC (on_host (modifyC (gd_recordActivity d (input_activity k))))
                 (bindC (applyTurnEffect d rq w i k) (\<lambda>effect.
                  thenC (gw_logs ''gateway.request.accepted''
                     ([(''userId'', u)] @ optional ''sessionId'' i @ [(''event_detail'', input_text k)]))
                  (ret (gw_json 202 ([(''accepted'', JBool True)] @ optional ''sessionId'' (map_option JStr i)
                     @ [(''activity'', JStr (input_text k))] @ effect))))))))"

section \<open>The routes of the lifecycle\<close>

definition prepareStop_route :: "'h AgentGatewayDeps \<Rightarrow> string \<Rightarrow> string \<Rightarrow> ('h gateway, gateway_error, Response option) comp" where
  "prepareStop_route d w u =
     (let refused = (\<lambda>k. bindC (getC (\<lambda>s. gd_getState d (gw_host s))) (\<lambda>st.
            ret (Some (gw_json 409 [(''prepared'', JBool False), (''state'', JStr (state_text st)),
              (''error'', JStr (snd (runtime_error_text k)))])))) in
      bindC (tryC (on_host (gd_prepareStop d))) (\<lambda>r. case r of
          Inl e \<Rightarrow>
            (case e of
               GwRuntime (Error (InvalidOperationError op st) _) \<Rightarrow> refused (InvalidOperationError op st)
             | GwRuntime (Error (IllegalTransitionError a b) _) \<Rightarrow> refused (IllegalTransitionError a b)
             | _ \<Rightarrow> throwC e)
        | Inr None \<Rightarrow> ret None
        | Inr (Some st) \<Rightarrow>
            if st = CHECKPOINT_FAILED
            then thenC (gw_logs ''gateway.prepare_stop.checkpoint_failed'' [(''userId'', u), (''workspaceId'', w), (''state'', state_text st)])
              (ret (Some (gw_json 502 [(''prepared'', JBool False), (''state'', JStr (state_text st)),
                 (''error'', JStr (''lifecycle checkpoint failed '' @ em_dash @ '' the workspace was not saved, instance stop refused''))])))
            else thenC (gw_logs ''gateway.prepare_stop.prepared'' [(''userId'', u), (''workspaceId'', w), (''state'', state_text st)])
              (ret (Some (gw_json 200 [(''prepared'', JBool True), (''state'', JStr (state_text st))])))))"

definition manualCheckpoint_route :: "'h AgentGatewayDeps \<Rightarrow> string \<Rightarrow> string \<Rightarrow> ('h gateway, gateway_error, Response) comp" where
  "manualCheckpoint_route d w u =
     (case gd_manualCheckpoint d of
        None \<Rightarrow> thenC (gw_logs ''gateway.checkpoint.not_implemented'' [(''userId'', u), (''workspaceId'', w)])
          (ret (gw_json 503 [(''error'', JStr ''checkpoint not implemented: no checkpoint trigger is wired''),
             (''code'', JStr ''checkpoint_not_implemented''), (''checkpointed'', JBool False)]))
      | Some trigger \<Rightarrow>
          bindC (tryC (on_host (gd_runCheckpoint d trigger))) (\<lambda>r.
          bindC (getC (\<lambda>s. state_text (gd_getState d (gw_host s)))) (\<lambda>st.
            case r of
              Inl e \<Rightarrow>
                (case e of
                   GwRuntime (Error (AgentInputRefusedError b) _) \<Rightarrow>
                     ret (gw_json 409 [(''checkpointed'', JBool False), (''state'', JStr st),
                       (''error'', JStr (gw_message e))])
                 | _ \<Rightarrow> throwC e)
            | Inr (LifecycleFailed m) \<Rightarrow>
                thenC (gw_logs ''gateway.checkpoint.failed'' [(''userId'', u), (''workspaceId'', w), (''state'', st), (''error'', m)])
                  (ret (gw_json 502 [(''checkpointed'', JBool False), (''state'', JStr st),
                     (''error'', JStr (''lifecycle checkpoint failed '' @ em_dash @ '' no durable snapshot was written''))]))
            | Inr (LifecycleOk skipped) \<Rightarrow>
                thenC (gw_logs ''gateway.checkpoint.completed'' [(''userId'', u), (''workspaceId'', w), (''state'', st)])
                  (ret (gw_json 200 [(''checkpointed'', JBool True), (''skipped'', JBool skipped), (''state'', JStr st)])))))"

section \<open>The stream\<close>

definition sseStream :: "string \<Rightarrow> string \<Rightarrow> ('h gateway, 'e, Response) comp" where
  "sseStream i u =
     thenC (gw_logs ''gateway.sse.opened'' [(''userId'', u), (''sessionId'', i)])
       (ret \<lparr>rs_status = 200, rs_body = HeartbeatStream i,
          rs_headers = [(''Content-Type'', ''text/event-stream''), (''Cache-Control'', ''no-cache''), (''Connection'', ''keep-alive'')]\<rparr>)"

text \<open>The first frame, and one beat of the timer with the frame it sends.\<close>

definition open_frame :: "string \<Rightarrow> string" where
  "open_frame i = ''event: open'' @ [newline] @ ''data: '' @ i @ [newline, newline]"

definition gateway_beat :: "'h AgentGatewayDeps \<Rightarrow> 'h gateway \<Rightarrow> string \<times> 'h gateway" where
  "gateway_beat d s = ('': heartbeat'' @ [newline, newline], s\<lparr>gw_host := gd_recordActivity d sse_heartbeat (gw_host s)\<rparr>)"

section \<open>The request\<close>

definition assertControllerLease :: "'h AgentGatewayDeps \<Rightarrow> ('h gateway, gateway_error, Response option) comp" where
  "assertControllerLease d =
     bindC (on_host (gd_getActive d)) (\<lambda>l.
       ret (if l = None \<or> controllerId (the l) \<noteq> gd_controllerId d
            then Some (gw_json 409 [(''error'', JStr ''controller lease not held by this host'')]) else None))"

definition post_action ::
  "'h AgentGatewayDeps \<Rightarrow> string \<Rightarrow> Request \<Rightarrow> string \<Rightarrow> string option \<Rightarrow> string \<Rightarrow> string
   \<Rightarrow> ('h gateway, gateway_error, Response option) comp" where
  "post_action d errorId rq w i u x =
     (let some = (\<lambda>m. bindC m (\<lambda>r. ret (Some r))) in
      if x = ''messages'' then some (agentInput_route d errorId rq w i u MessageInput)
      else if x = ''approvals'' then some (agentInput_route d errorId rq w i u ApprovalInput)
      else if x = ''cancel'' then some (agentInput_route d errorId rq w i u CancelInput)
      else if x = ''prepare-stop'' then prepareStop_route d w u
      else if x = ''checkpoint'' then some (manualCheckpoint_route d w u)
      else ret (Some (gw_json 404 [(''error'', JStr ''not found'')])))"

definition gateway_route ::
  "'h AgentGatewayDeps \<Rightarrow> string \<Rightarrow> Request \<Rightarrow> ('h gateway, gateway_error, Response option) comp" where
  "gateway_route d errorId rq =
     (if rq_path rq = AGENT_HOST_HEALTH_PATH
      then (if rq_method rq \<noteq> ''GET'' then ret (Some methodNotAllowed)
            else getC (\<lambda>s. Some (healthResponse (gd_health d (gw_host s)) (gd_workspaceId d))))
      else (case caller rq of
          None \<Rightarrow> ret (Some (gw_json 401 [(''error'', JStr ''unauthenticated: missing DSH caller identity'')]))
        | Some u \<Rightarrow>
            (case GATEWAY_ROUTE_RE (rq_path rq) of
               None \<Rightarrow> ret (Some (gw_json 404 [(''error'', JStr ''not found'')]))
             | Some (w, i, x) \<Rightarrow>
                 if w \<noteq> gd_workspaceId d then ret (Some (gw_json 403 [(''error'', JStr ''workspace mismatch'')]))
                 else if rq_method rq = ''GET'' \<and> x = ''events''
                 then bindC (sseStream (case i of None \<Rightarrow> ''default'' | Some sid \<Rightarrow> sid) u) (\<lambda>r. ret (Some r))
                 else if rq_method rq \<noteq> ''POST'' then ret (Some methodNotAllowed)
                 else bindC (assertControllerLease d) (\<lambda>refused. case refused of
                     Some r \<Rightarrow> ret (Some r)
                   | None \<Rightarrow> post_action d errorId rq w i u x))))"

text \<open>\<open>errorId\<close> is the random identifier of the request, should it fail. \<open>None\<close>: no answer is ever sent.\<close>

definition gateway_handle ::
  "'h AgentGatewayDeps \<Rightarrow> string \<Rightarrow> Request \<Rightarrow> 'h gateway \<Rightarrow> Response option \<times> 'h gateway" where
  "gateway_handle d errorId rq s =
     (case gateway_route d errorId rq s of
        (Inr r, t) \<Rightarrow> (r, t)
      | (Inl e, t) \<Rightarrow>
          (Some (gw_json 500 [(''error'', JStr ''internal server error''), (''errorId'', JStr errorId)]),
           t\<lparr>gw_log := gw_log t @ [(''gateway.unexpected_error'',
              [(''errorId'', errorId), (''errorMessage'', gw_message e)] @ tryParseRouteIds rq)]\<rparr>))"

end
