(* ===== verification/Token_Cache.thy ===== *)
theory Token_Cache
  imports Encoding
begin

text \<open>
  What the two token providers of the program share (\<open>RefreshingIdTokenProvider\<close> in
  \<open>apps/control-plane/src/forwarding.ts\<close>, \<open>RefreshingGcsTokenProvider\<close> in
  \<open>packages/gcp-token-provider/src/index.ts\<close>): a token is kept until a minute before it expires, and callers
  that come while it is being refreshed wait for the same refresh. A refresh is split at its wait: \<open>token_ask\<close> is a
  call up to there, \<open>token_settled\<close> the end of the refresh, and between the two anything may happen.
\<close>

definition TOKEN_REFRESH_MARGIN_MS :: int where
  "TOKEN_REFRESH_MARGIN_MS = 60000"

definition TOKEN_DEFAULT_EXPIRES_IN_S :: int where
  "TOKEN_DEFAULT_EXPIRES_IN_S = 3600"

definition ENV_TOKEN_LIFETIME_S :: int where
  "ENV_TOKEN_LIFETIME_S = 300"

text \<open>
  Keys are audiences (one key only, for the access tokens). \<open>inflight\<close> keeps the callers that wait, \<open>tc_answers\<close> what
  each caller got: an error, or a token.
\<close>

record ('k, 'e) token_cache =
  tc_cached :: "'k \<rightharpoonup> string \<times> int"
  tc_inflight :: "'k \<rightharpoonup> nat list"
  tc_answers :: "(nat \<times> 'k \<times> ('e + string)) list"
  tc_refreshes :: "'k list"

definition new_token_cache :: "('k, 'e) token_cache" where
  "new_token_cache = \<lparr>tc_cached = Map.empty, tc_inflight = Map.empty, tc_answers = [], tc_refreshes = []\<rparr>"

definition token_hit :: "int \<Rightarrow> 'k \<Rightarrow> ('k, 'e) token_cache \<Rightarrow> string option" where
  "token_hit now k s =
     (case tc_cached s k of
        None \<Rightarrow> None
      | Some (token, expiresAtMs) \<Rightarrow> if now < expiresAtMs - TOKEN_REFRESH_MARGIN_MS then Some token else None)"

text \<open>Caller \<open>n\<close> asks: it is served, or joins the refresh under way, or starts one.\<close>

definition token_ask :: "int \<Rightarrow> nat \<Rightarrow> 'k \<Rightarrow> ('k, 'e) token_cache \<Rightarrow> ('k, 'e) token_cache" where
  "token_ask now n k s =
     (case token_hit now k s of
        Some token \<Rightarrow> s\<lparr>tc_answers := tc_answers s @ [(n, k, Inr token)]\<rparr>
      | None \<Rightarrow>
          (case tc_inflight s k of
             Some ns \<Rightarrow> s\<lparr>tc_inflight := (tc_inflight s)(k \<mapsto> ns @ [n])\<rparr>
           | None \<Rightarrow> s\<lparr>tc_inflight := (tc_inflight s)(k \<mapsto> [n]), tc_refreshes := tc_refreshes s @ [k]\<rparr>))"

text \<open>The refresh for \<open>k\<close> ends, with a token and its lifetime in seconds, or an error.\<close>

definition token_settled :: "int \<Rightarrow> 'k \<Rightarrow> 'e + string \<times> int \<Rightarrow> ('k, 'e) token_cache \<Rightarrow> ('k, 'e) token_cache" where
  "token_settled now k r s =
     (case tc_inflight s k of
        None \<Rightarrow> s
      | Some ns \<Rightarrow>
          s\<lparr>tc_cached := (case r of
               Inl _ \<Rightarrow> tc_cached s
             | Inr (token, expiresInS) \<Rightarrow> (tc_cached s)(k \<mapsto> (token, now + expiresInS * 1000))),
            tc_inflight := (tc_inflight s)(k := None),
            tc_answers := tc_answers s @ map (\<lambda>n. (n, k, map_sum id fst r)) ns\<rparr>)"

datatype ('k, 'e) token_step = AskToken nat 'k | SettleToken 'k "'e + string \<times> int"

fun run_token :: "('k, 'e) token_cache \<Rightarrow> int \<times> ('k, 'e) token_step \<Rightarrow> ('k, 'e) token_cache" where
  "run_token s (now, AskToken n k) = token_ask now n k s"
| "run_token s (now, SettleToken k r) = token_settled now k r s"

definition token_run :: "(int \<times> ('k, 'e) token_step) list \<Rightarrow> ('k, 'e) token_cache \<Rightarrow> ('k, 'e) token_cache" where
  "token_run xs s = foldl run_token s xs"

end
