(* ===== verification/Forwarding.thy ===== *)
theory Forwarding
  imports Token_Cache Handlers
begin

text \<open>
  The way from the control plane to the agent host (\<open>apps/control-plane/src/forwarding.ts\<close>): the ID tokens of
  the metadata server and \<open>HttpAgentHostForwarder\<close>. \<open>fetch\<close> is a parameter on the state \<open>'n\<close> of the network,
  everything behind it included. A body that cannot be read is an empty one. Log lines are not modelled.
\<close>

section \<open>Requests\<close>

datatype fetch_failure = TimedOut | FetchFailed string

record OutgoingRequest =
  or_method :: string
  or_url :: string
  or_headers :: "(string \<times> string) list"
  or_body :: string

record HostResponse =
  an_status :: nat
  an_text :: string

type_synonym 'n fetch = "OutgoingRequest \<Rightarrow> ('n, fetch_failure, HostResponse) comp"

definition response_ok :: "HostResponse \<Rightarrow> bool" where
  "response_ok res \<longleftrightarrow> 200 \<le> an_status res \<and> an_status res < 300"

section \<open>ID tokens\<close>

definition ID_TOKEN_METADATA_BASE :: string where
  "ID_TOKEN_METADATA_BASE =
     ''http://metadata.google.internal/computeMetadata/v1/instance/service-accounts/default/identity''"

definition buildIdTokenUrl :: "string \<Rightarrow> string" where
  "buildIdTokenUrl audience = ID_TOKEN_METADATA_BASE @ ''?audience='' @ encodeURIComponent audience"

text \<open>
  The \<open>exp\<close> claim; one that is no integer a double holds counts as none.
\<close>

definition parseJwtExpSeconds :: "string \<Rightarrow> int option" where
  "parseJwtExpSeconds token =
     (case split_at (CHR ''.'') token of
        [_, payload, _] \<Rightarrow>
          (case json_parse (scrub (from_base64 (map (\<lambda>c. if c = CHR ''-'' then CHR ''+'' else if c = CHR ''_'' then slash else c) payload))) of
             Some v \<Rightarrow> (case json_field v ''exp'' of Some (JNum n) \<Rightarrow> Some n | _ \<Rightarrow> None)
           | None \<Rightarrow> None)
      | _ \<Rightarrow> None)"

record 'n IdTokenDeps =
  id_fetch :: "'n fetch"
  id_now :: "'n \<Rightarrow> int"
  id_env :: "string option"

text \<open>The metadata server: a token with its lifetime in seconds, or a reason code.\<close>

definition id_fetchFromMetadataServer :: "'n IdTokenDeps \<Rightarrow> string \<Rightarrow> ('n, string, string \<times> int) comp" where
  "id_fetchFromMetadataServer D audience =
     bindC (tryC (id_fetch D \<lparr>or_method = ''GET'', or_url = buildIdTokenUrl audience,
         or_headers = [(''Metadata-Flavor'', ''Google'')], or_body = []\<rparr>)) (\<lambda>r. case r of
         Inl TimedOut \<Rightarrow> throwC ''timeout''
       | Inl (FetchFailed m) \<Rightarrow> throwC ''unreachable''
       | Inr res \<Rightarrow>
           if \<not> response_ok res then throwC (''http-'' @ show_nat (an_status res))
           else
             (let token = trim (decodeText (an_text res)) in
              if token = [] \<or> CHR ''.'' \<notin> set token then throwC ''bad-response''
              else bindC (getC (id_now D)) (\<lambda>now.
                (let nowSec = now div 1000 in
                 ret (token, case parseJwtExpSeconds token of
                     Some e \<Rightarrow> if nowSec < e then e - nowSec else TOKEN_DEFAULT_EXPIRES_IN_S
                   | None \<Rightarrow> TOKEN_DEFAULT_EXPIRES_IN_S)))))"

definition no_id_token :: string where
  "no_id_token = ''no ID token source available (metadata-server unreachable and GCP_ID_TOKEN is not set). ''
     @ ''On Cloud Run the metadata server must be reachable; locally set GCP_ID_TOKEN.''"

definition id_refresh :: "'n IdTokenDeps \<Rightarrow> string \<Rightarrow> ('n, string, string \<times> int) comp" where
  "id_refresh D audience =
     catchC (id_fetchFromMetadataServer D audience) (\<lambda>_.
       (let envToken = (case id_env D of None \<Rightarrow> [] | Some t \<Rightarrow> trim t) in
        if envToken \<noteq> [] then ret (envToken, ENV_TOKEN_LIFETIME_S) else throwC no_id_token))"

text \<open>\<open>getToken\<close> of a caller that nobody comes between, over a cache.\<close>

definition id_getToken ::
  "'n IdTokenDeps \<Rightarrow> string \<Rightarrow> ((string, string) token_cache \<times> 'n, string, string) comp" where
  "id_getToken D audience =
     (let aud = trim audience in
      if aud = [] then throwC ''ID token audience must be a non-empty URL''
      else bindC (getC (\<lambda>(s, n). token_hit (id_now D n) aud s)) (\<lambda>hit. case hit of
          Some token \<Rightarrow> ret token
        | None \<Rightarrow>
            bindC (zoomC snd (\<lambda>n (s, _). (s, n)) id (id_refresh D aud)) (\<lambda>(token, expiresInS).
            thenC (modifyC (\<lambda>(s, n). (s\<lparr>tc_cached := (tc_cached s)(aud \<mapsto> (token, id_now D n + expiresInS * 1000))\<rparr>, n)))
              (ret token))))"

section \<open>The forwarder\<close>

record 'n HttpAgentHostForwarder =
  hf_idTokenProvider :: "string \<Rightarrow> ('n, string, string) comp"
  hf_fetch :: "'n fetch"
  hf_timeoutMs :: nat

text \<open>\<open>slice\<close> counts UTF-16 units; a character of two units that the cut would split is left out.\<close>

fun js_take :: "nat \<Rightarrow> string \<Rightarrow> string" where
  "js_take n [] = []"
| "js_take n (c # s) = (if js_length [c] \<le> n then c # js_take (n - js_length [c]) s else [])"

definition truncate_text :: "string \<Rightarrow> string" where
  "truncate_text t = (if js_length t \<le> 200 then t else js_take 200 t @ [CHR 0xE2, CHR 0x80, CHR 0xA6])"

definition safeText :: "HostResponse \<Rightarrow> string" where
  "safeText res = trim (decodeText (an_text res))"

definition safeJson :: "HostResponse \<Rightarrow> json option" where
  "safeJson res =
     (case json_parse (decodeText (an_text res)) of
        Some (JObj fs) \<Rightarrow> Some (JObj fs)
      | Some (JArr vs) \<Rightarrow> Some (JArr vs)
      | _ \<Rightarrow> None)"

definition host_base :: "string \<Rightarrow> string" where
  "host_base hostUrl = (if ends_with ''/'' hostUrl then butlast hostUrl else hostUrl)"

definition host_request :: "string \<Rightarrow> string \<Rightarrow> json \<Rightarrow> ForwardIdentity \<Rightarrow> string \<Rightarrow> OutgoingRequest" where
  "host_request base route body who idToken =
     \<lparr>or_method = ''POST'', or_url = base @ route,
      or_headers = [(''content-type'', ''application/json''), (''authorization'', ''Bearer '' @ idToken),
        (''x-dsh-user-id'', fst who), (''x-dsh-user-login'', snd who)],
      or_body = json_show body\<rparr>"

text \<open>The answer of a host, classified.\<close>

definition classify :: "bool \<Rightarrow> HostResponse \<Rightarrow> forward_error + HostResponse" where
  "classify requireTurnStarted res =
     (if an_status res = 409 \<or> an_status res = 403
      then Inl (AgentHostConflictError (''agent-host refused the request (status '' @ show_nat (an_status res) @ ''): ''
             @ truncate_text (safeText res)))
      else if \<not> response_ok res
      then Inl (AgentHostForwardError (''agent-host answered '' @ show_nat (an_status res) @ '': '' @ truncate_text (safeText res)))
      else if requireTurnStarted
        \<and> (case json_parse (decodeText (an_text res)) of Some v \<Rightarrow> json_field v ''turnStarted'' = Some (JBool False) | None \<Rightarrow> False)
      then Inl (AgentHostForwardError (''agent-host accepted the request but reported turnStarted:false '' @ em_dash
             @ '' the turn did not start''))
      else Inr res)"

definition postToHost ::
  "'n HttpAgentHostForwarder \<Rightarrow> string \<Rightarrow> string \<Rightarrow> json \<Rightarrow> ForwardIdentity \<Rightarrow> bool \<Rightarrow> ('n, forward_error, HostResponse) comp" where
  "postToHost F hostUrl route body who requireTurnStarted =
     (let base = host_base hostUrl in
      bindC (tryC (hf_idTokenProvider F base)) (\<lambda>t. case t of
          Inl m \<Rightarrow> throwC (AgentHostForwardError (''cannot mint ID token for the workspace instance: '' @ m))
        | Inr idToken \<Rightarrow>
            bindC (tryC (hf_fetch F (host_request base route body who idToken))) (\<lambda>r. case r of
                Inl f \<Rightarrow> throwC (AgentHostForwardError (''workspace instance unreachable at '' @ base @ '' (''
                   @ (case f of TimedOut \<Rightarrow> ''timed out after '' @ show_nat (hf_timeoutMs F) @ ''ms'' | FetchFailed m \<Rightarrow> m) @ '')''))
              | Inr res \<Rightarrow> liftE (classify requireTurnStarted res))))"

definition session_path :: "string \<Rightarrow> string \<Rightarrow> string \<Rightarrow> string" where
  "session_path w i action = ''/workspaces/'' @ encodeURIComponent w @ ''/sessions/'' @ encodeURIComponent i @ ''/'' @ action"

definition workspace_path :: "string \<Rightarrow> string \<Rightarrow> string" where
  "workspace_path w action = ''/workspaces/'' @ encodeURIComponent w @ ''/'' @ action"

definition forward :: "'n HttpAgentHostForwarder \<Rightarrow> string \<Rightarrow> string \<Rightarrow> string \<Rightarrow> nat \<Rightarrow> string \<Rightarrow> ForwardIdentity
   \<Rightarrow> ('n, forward_error, nat) comp" where
  "forward F hostUrl w i n content who =
     bindC (postToHost F hostUrl (session_path w i ''messages'')
        (JObj [(''workspaceId'', JStr w), (''sessionId'', JStr i), (''seq'', JNum (int n)), (''content'', JStr content)])
        who True) (\<lambda>res. ret (an_status res))"

definition forwardApproval :: "'n HttpAgentHostForwarder \<Rightarrow> string \<Rightarrow> string \<Rightarrow> string \<Rightarrow> string \<Rightarrow> string \<Rightarrow> ForwardIdentity
   \<Rightarrow> ('n, forward_error, nat) comp" where
  "forwardApproval F hostUrl w i a decision who =
     bindC (postToHost F hostUrl (session_path w i ''approvals'')
        (JObj [(''approvalId'', JStr a), (''decision'', JStr decision)]) who False) (\<lambda>res. ret (an_status res))"

definition forwardCancel :: "'n HttpAgentHostForwarder \<Rightarrow> string \<Rightarrow> string \<Rightarrow> string \<Rightarrow> ForwardIdentity
   \<Rightarrow> ('n, forward_error, nat) comp" where
  "forwardCancel F hostUrl w i who =
     bindC (postToHost F hostUrl (session_path w i ''cancel'') (JObj [(''sessionId'', JStr i)]) who False)
       (\<lambda>res. ret (an_status res))"

definition reported_state :: "json \<Rightarrow> string" where
  "reported_state v = (case json_field v ''state'' of None \<Rightarrow> [] | Some JNull \<Rightarrow> [] | Some x \<Rightarrow> js_string x)"

definition forwardPrepareStop :: "'n HttpAgentHostForwarder \<Rightarrow> string \<Rightarrow> string \<Rightarrow> ForwardIdentity
   \<Rightarrow> ('n, forward_error, nat \<times> string) comp" where
  "forwardPrepareStop F hostUrl w who =
     bindC (postToHost F hostUrl (workspace_path w ''prepare-stop'') (JObj [(''workspaceId'', JStr w)]) who False) (\<lambda>res.
       case safeJson res of
         Some v \<Rightarrow>
           if json_field v ''prepared'' = Some (JBool True) then ret (an_status res, reported_state v)
           else throwC (AgentHostForwardError (''agent-host answered 200 but reported prepared:false '' @ em_dash
                  @ '' refusing the instance stop''))
       | None \<Rightarrow> throwC (AgentHostForwardError (''agent-host answered 200 but reported prepared:false '' @ em_dash
                  @ '' refusing the instance stop'')))"

definition forwardCheckpoint :: "'n HttpAgentHostForwarder \<Rightarrow> string \<Rightarrow> string \<Rightarrow> ForwardIdentity
   \<Rightarrow> ('n, forward_error, nat \<times> bool \<times> string) comp" where
  "forwardCheckpoint F hostUrl w who =
     bindC (postToHost F hostUrl (workspace_path w ''checkpoint'') (JObj [(''workspaceId'', JStr w)]) who False) (\<lambda>res.
       let failure = throwC (AgentHostForwardError (''agent-host answered 200 but reported checkpointed:false '' @ em_dash
              @ '' no durable snapshot was written'')) in
       case safeJson res of
         Some v \<Rightarrow>
           if json_field v ''checkpointed'' = Some (JBool True)
           then ret (an_status res, json_field v ''skipped'' = Some (JBool True), reported_state v) else failure
       | None \<Rightarrow> failure)"

end
