(* ===== verification/Runtime_Factory.thy ===== *)
theory Runtime_Factory
  imports Config Forwarding Sql_Store Iso_Date
begin

text \<open>
  The runtime handles of production (\<open>apps/control-plane/src/runtime-factory.ts\<close>,
  \<open>WorkspaceRuntimeHandleAdapter\<close> of \<open>apps/control-plane/src/deps.ts\<close>): for each workspace an instance client,
  a workspace runtime over the database, and the lifecycle steps that reach the agent host. \<open>'n\<close> is everything
  outside the process but the database; every call of a client or of the forwarder may change both, as other
  processes do. Random ids are arguments.
\<close>

section \<open>The state of a handle\<close>

record 'n outside =
  out_db :: db
  out_net :: 'n

text \<open>The two boxes of the closure: \<open>pendingIdentity\<close> and \<open>lastKnownUrl\<close>.\<close>

record 'n handle_world =
  hw_out :: "'n outside"
  hw_identity :: "ForwardIdentity option"
  hw_url :: "string option"

datatype factory_error =
    FyThrown thrown
  | FyInstance instance_error
  | FyRepo repo_error
  | FyForward forward_error
  | FyApi cp_error
  | FyOther string

definition profile_text :: "InstanceProfileName \<Rightarrow> string" where
  "profile_text p = (case p of Small \<Rightarrow> ''Small'' | Standard \<Rightarrow> ''Standard'' | Large \<Rightarrow> ''Large'')"

fun instance_error_text :: "instance_error \<Rightarrow> string" where
  "instance_error_text (InvalidBasePathError p) =
     ''CloudRunInstanceClient basePath must be an absolute URL including the API host and version, ''
     @ ''e.g. '' @ show_string ''https://run.googleapis.com/v2/projects/<project>/locations/<region>'' @ '' (got '' @ show_string p @ ''). ''
     @ ''A relative '' @ show_string ''projects/<project>/locations/<region>'' @ '' cannot be fetched '' @ em_dash
     @ '' build it with buildInstancesBasePath() or set INSTANCES_API_BASE_URL (issue #47).''"
| "instance_error_text InvalidRestartPolicyError =
     ''restartPolicy '' @ show_string ''always'' @ '' is not allowed '' @ em_dash @ '' known Preview issue (spec section 23); use ''
     @ show_string ''on-failure'' @ '' or '' @ show_string ''never''"
| "instance_error_text (ProfileNotAvailableError p) = ''profile '' @ profile_text p @ '' is not available in v1 (only Standard)''"
| "instance_error_text (InstanceNotFoundError n) = ''instance not found: '' @ n"
| "instance_error_text (InstanceAlreadyExistsError n) = ''instance already exists: '' @ n"
| "instance_error_text (PermissionDeniedError m) = m"
| "instance_error_text MissingCloudSqlConnectionNameError =
     ''create requires a Cloud SQL connection name (<project>:<region>:<instance>) '' @ em_dash
     @ '' supply `cloudSqlConnectionName` when constructing CloudRunInstanceClient (the control plane reads it from ''
     @ ''CLOUD_SQL_CONNECTION_NAME, sourced from the `sql_connection_name` Terraform output). Without it the Instance ''
     @ ''would boot with no /cloudsql socket and crash-loop with ERR_POSTGRES_CONNECTION_REFUSED (issue #56).''"
| "instance_error_text (InstanceClientError m _) = m"
| "instance_error_text (TransportError m) = m"

fun forward_error_text :: "forward_error \<Rightarrow> string" where
  "forward_error_text (AgentHostConflictError m) = m"
| "forward_error_text (AgentHostForwardError m) = m"

text \<open>
  What a lifecycle step throws reaches the runtime, which keeps the error object and reads only whether it is one
  of its own; what a handle throws reaches the handlers, to which the errors of the clients are unexpected ones.
\<close>

fun to_thrown :: "factory_error \<Rightarrow> thrown" where
  "to_thrown (FyThrown e) = e"
| "to_thrown (FyInstance e) = throw_new (External (instance_error_text e))"
| "to_thrown (FyRepo e) = throw_new (External (repo_message e))"
| "to_thrown (FyForward e) = throw_new (External (forward_error_text e))"
| "to_thrown (FyApi (ApiError _ _ m)) = throw_new (External m)"
| "to_thrown (FyApi _) = throw_new (External [])"
| "to_thrown (FyOther m) = throw_new (External m)"

fun to_cp_error :: "factory_error \<Rightarrow> cp_error" where
  "to_cp_error (FyThrown (Error k _)) = RuntimeError k"
| "to_cp_error (FyThrown (NonError m)) = OtherError m"
| "to_cp_error (FyInstance e) = OtherError (instance_error_text e)"
| "to_cp_error (FyRepo e) = RepositoryError e"
| "to_cp_error (FyForward e) = OtherError (forward_error_text e)"
| "to_cp_error (FyApi e) = e"
| "to_cp_error (FyOther m) = OtherError m"

definition on_out :: "('d \<Rightarrow> 'e) \<Rightarrow> ('n outside, 'd, 'a) comp \<Rightarrow> ('n handle_world, 'e, 'a) comp" where
  "on_out f m = zoomC hw_out (\<lambda>o' s. s\<lparr>hw_out := o'\<rparr>) f m"

definition on_db :: "('d \<Rightarrow> 'e) \<Rightarrow> (db, 'd, 'a) comp \<Rightarrow> ('n handle_world, 'e, 'a) comp" where
  "on_db f m = on_out f (zoomC out_db (\<lambda>d o'. o'\<lparr>out_db := d\<rparr>) id m)"

section \<open>The instance, created when it is missing\<close>

definition defaultInstanceName :: "Workspace \<Rightarrow> string" where
  "defaultInstanceName w = (case instanceName w of Some n \<Rightarrow> n | None \<Rightarrow> ''dsh-'' @ w_id w)"

type_synonym 'n client = "'n outside CloudRunInstanceClient"

definition rename_instance :: "string \<Rightarrow> string \<Rightarrow> ('n handle_world, factory_error, unit) comp" where
  "rename_instance w name = bindC (on_db FyRepo (updateWorkspace w (no_patch\<lparr>p_instanceName := Some (Some name)\<rparr>))) (\<lambda>_. ret ())"

definition ensureCreated_start :: "'n client \<Rightarrow> Workspace \<Rightarrow> string \<Rightarrow> ('n handle_world, factory_error, unit) comp" where
  "ensureCreated_start c w name =
     bindC (tryC (on_out id (client_get c name))) (\<lambda>g.
     thenC (case g of
         Inr _ \<Rightarrow> ret ()
       | Inl (InstanceNotFoundError _) \<Rightarrow>
           thenC (bindC (tryC (on_out id (client_create c (w_id w) (Some name) False))) (\<lambda>r. case r of
                    Inl (InstanceAlreadyExistsError _) \<Rightarrow> ret ()
                  | Inl e \<Rightarrow> throwC (FyInstance e)
                  | Inr _ \<Rightarrow> ret ()))
             (rename_instance (w_id w) name)
       | Inl e \<Rightarrow> throwC (FyInstance e))
     (on_out FyInstance (client_start c name)))"

definition absent_is_done :: "('n outside, instance_error, unit) comp \<Rightarrow> ('n handle_world, factory_error, unit) comp" where
  "absent_is_done m =
     bindC (tryC (on_out id m)) (\<lambda>r. case r of
         Inr _ \<Rightarrow> ret ()
       | Inl (InstanceNotFoundError _) \<Rightarrow> ret ()
       | Inl e \<Rightarrow> throwC (FyInstance e))"

definition ensureCreated_stop :: "'n client \<Rightarrow> string \<Rightarrow> ('n handle_world, factory_error, unit) comp" where
  "ensureCreated_stop c name = absent_is_done (client_stop c name)"

definition deleteInstance_fn :: "'n client \<Rightarrow> string \<Rightarrow> ('n handle_world, factory_error, unit) comp" where
  "deleteInstance_fn c name = absent_is_done (client_delete c name)"

definition describeInstance_fn :: "'n client \<Rightarrow> string \<Rightarrow> ('n handle_world, factory_error, InstanceDiagnostic) comp" where
  "describeInstance_fn c name =
     bindC (tryC (on_out id (client_get c name))) (\<lambda>r. case r of
         Inr info \<Rightarrow> ret (Present (ii_state info))
       | Inl (InstanceNotFoundError _) \<Rightarrow> ret Missing
       | Inl e \<Rightarrow> throwC (FyInstance e))"

section \<open>The URL of the instance\<close>

definition save_url :: "string \<Rightarrow> string option \<Rightarrow> ('n handle_world, repo_error, unit) comp" where
  "save_url w u = bindC (on_db id (updateWorkspace w (no_patch\<lparr>p_instanceUrl := Some u\<rparr>))) (\<lambda>_. ret ())"

definition stored_url :: "string \<Rightarrow> ('n handle_world, 'e, string option) comp" where
  "stored_url w =
     bindC (getC hw_url) (\<lambda>known.
       if nonempty known \<noteq> None then ret known
       else bindC (tryC (on_db id (getWorkspace w))) (\<lambda>r.
         let u = (case r of Inl (_ :: repo_error) \<Rightarrow> None | Inr None \<Rightarrow> None | Inr (Some row) \<Rightarrow> instanceUrl row) in
         thenC (modifyC (\<lambda>s. s\<lparr>hw_url := u\<rparr>)) (ret u)))"

text \<open>A failure to save a new URL is caught by the same handler as a failed lookup.\<close>

definition instanceUrlProvider :: "'n client \<Rightarrow> Workspace \<Rightarrow> string \<Rightarrow> ('n handle_world, 'e, string option) comp" where
  "instanceUrlProvider c w name =
     bindC (tryC (on_out id (client_get c name))) (\<lambda>r. case r of
         Inr info \<Rightarrow>
           (case nonempty (ii_url info) of
              None \<Rightarrow> ret None
            | Some u \<Rightarrow>
                bindC (getC hw_url) (\<lambda>known.
                  if known = Some u then ret (Some u)
                  else thenC (modifyC (\<lambda>s. s\<lparr>hw_url := Some u\<rparr>))
                    (bindC (tryC (save_url (w_id w) (Some u))) (\<lambda>saved. case saved of
                         Inr _ \<Rightarrow> ret (Some u)
                       | Inl (_ :: repo_error) \<Rightarrow> stored_url (w_id w)))))
       | Inl (InstanceNotFoundError _) \<Rightarrow>
           thenC (modifyC (\<lambda>s. s\<lparr>hw_url := None\<rparr>))
             (bindC (tryC (save_url (w_id w) None)) (\<lambda>(_ :: repo_error + unit). ret None))
       | Inl _ \<Rightarrow> stored_url (w_id w))"

section \<open>The remote steps\<close>

type_synonym 'n forwarder = "'n outside HttpAgentHostForwarder"

definition runRemotePrepareStop ::
  "'n client \<Rightarrow> 'n forwarder option \<Rightarrow> Workspace \<Rightarrow> string \<Rightarrow> ('n handle_world, factory_error, unit) comp" where
  "runRemotePrepareStop c F w name =
     (case F of
        None \<Rightarrow> ret ()
      | Some fwd \<Rightarrow>
          bindC (instanceUrlProvider c w name) (\<lambda>url.
            if nonempty url = None then ret ()
            else bindC (getC hw_identity) (\<lambda>who. case who of
                None \<Rightarrow> throwC (FyOther (''control-plane stop requires the caller'' @ [single_quote] @ ''s identity to prepare ''
                   @ ''the agent-host stop (issue #72) '' @ em_dash @ '' refusing to stop a potentially-dirty workspace faceless''))
              | Some u \<Rightarrow> bindC (on_out FyForward (forwardPrepareStop fwd (the url) (w_id w) u)) (\<lambda>_. ret ()))))"

definition runRemoteCheckpoint ::
  "'n client \<Rightarrow> 'n forwarder \<Rightarrow> Workspace \<Rightarrow> string \<Rightarrow> ('n handle_world, factory_error, bool) comp" where
  "runRemoteCheckpoint c fwd w name =
     bindC (instanceUrlProvider c w name) (\<lambda>url.
       if nonempty url = None
       then throwC (FyApi (conflict (''workspace instance is not running '' @ em_dash @ '' open the workspace first, then retry'')))
       else bindC (getC hw_identity) (\<lambda>who. case who of
           None \<Rightarrow> throwC (FyOther (''manual checkpoint requires the caller'' @ [single_quote] @ ''s identity (issue #75) ''
              @ em_dash @ '' refusing a faceless checkpoint''))
         | Some u \<Rightarrow> bindC (on_out FyForward (forwardCheckpoint fwd (the url) (w_id w) u)) (\<lambda>(_, skipped, _). ret skipped)))"

text \<open>\<open>put\<close> is the upload to the checkpoint bucket: key and bytes.\<close>

definition marker_key :: "string \<Rightarrow> int \<Rightarrow> string" where
  "marker_key w now = ''workspaces/'' @ w @ ''/manual-checkpoints/''
     @ map (\<lambda>c. if c = CHR '':'' \<or> c = CHR ''.'' then CHR ''-'' else c) (iso_string now) @ ''.json''"

definition buildManualCheckpointFn ::
  "(string \<Rightarrow> string \<Rightarrow> ('n outside, string, unit) comp) \<Rightarrow> string \<Rightarrow> ('n outside \<Rightarrow> int)
   \<Rightarrow> ('n handle_world, factory_error, bool) comp option \<Rightarrow> ('n handle_world, factory_error, bool) comp" where
  "buildManualCheckpointFn put w now remote =
     bindC (case remote of None \<Rightarrow> ret None | Some m \<Rightarrow> bindC m (\<lambda>b. ret (Some b))) (\<lambda>skipped.
     bindC (getC (\<lambda>s. now (hw_out s))) (\<lambda>requestedAt.
     thenC (on_out FyOther (put (marker_key w requestedAt) (json_show (JObj
         ([(''kind'', JStr ''manual-checkpoint-request''), (''workspaceId'', JStr w), (''requestedAt'', JStr (iso_string requestedAt))]
          @ (case skipped of None \<Rightarrow> [] | Some b \<Rightarrow> [(''checkpointSkipped'', JBool b)]))))))
       (ret (skipped = Some True))))"

section \<open>The factory\<close>

record 'n ProductionRuntimeOptions =
  po_config :: ControlPlaneConfig
  po_transport :: "'n outside transport"
  po_put :: "string \<Rightarrow> string \<Rightarrow> ('n outside, string, unit) comp"
  po_forwarder :: "'n forwarder option"
  po_now :: "'n outside \<Rightarrow> int"
  po_urlProtocol :: "string \<Rightarrow> string option"

definition buildInstancesBasePathForConfig :: "ControlPlaneConfig \<Rightarrow> string" where
  "buildInstancesBasePathForConfig c = buildInstancesBasePath (cc_instancesApiBaseUrl c) (cc_gcpProjectId c) (cc_gcpRegion c)"

definition instance_client :: "'n ProductionRuntimeOptions \<Rightarrow> Workspace \<Rightarrow> string \<Rightarrow> factory_error + 'n client" where
  "instance_client opts w ctl =
     (let c = po_config opts in
      case assertCloudSqlSocketConsistency (cc_agentHostDatabaseUrl c) (cc_cloudSqlConnectionName c) of
        Inl m \<Rightarrow> Inl (FyOther m)
      | Inr _ \<Rightarrow> (case buildInstanceEnv c w (defaultInstanceName w) ctl of
            Inl m \<Rightarrow> Inl (FyOther m)
          | Inr vars \<Rightarrow> (case newCloudRunInstanceClient (po_urlProtocol opts)
                \<lparr>co_transport = po_transport opts, co_basePath = buildInstancesBasePathForConfig c, co_config = None, co_profile = None,
                  co_image = Some (cc_agentHostImage c), co_serviceAccount = Some (cc_agentHostServiceAccount c),
                  co_cloudSqlConnectionName = Some (cc_cloudSqlConnectionName c), co_env = vars\<rparr> of
              Inl e \<Rightarrow> Inl (FyInstance e)
            | Inr client \<Rightarrow> Inr client)))"

definition production_step ::
  "'n client \<Rightarrow> 'n forwarder option \<Rightarrow> Workspace \<Rightarrow> lifecycle_step \<Rightarrow> ('n handle_world, factory_error, unit) comp" where
  "production_step c F w x =
     (if x = runLifecycleCheckpoint then runRemotePrepareStop c F w (defaultInstanceName w) else ret ())"

definition throws :: "('s, factory_error, 'a) comp \<Rightarrow> ('s, thrown, 'a) comp" where
  "throws m = zoomC (\<lambda>s. s) (\<lambda>t _. t) to_thrown m"

definition production_deps ::
  "'n ProductionRuntimeOptions \<Rightarrow> 'n client \<Rightarrow> Workspace \<Rightarrow> 'n handle_world WorkspaceRuntimeDeps" where
  "production_deps opts c w = \<lparr>
     d_load = (\<lambda>i. on_db id (sql_load i)),
     d_apply = (\<lambda>i f t reason s. on_db id (sql_apply (po_now opts (hw_out s)) (Some reason) None i f t) s),
     d_instanceStart = throws (ensureCreated_start c w (defaultInstanceName w)),
     d_instanceStop = throws (ensureCreated_stop c (defaultInstanceName w)),
     d_step = (\<lambda>x. throws (production_step c (po_forwarder opts) w x)),
     d_nowMs = (\<lambda>s. po_now opts (hw_out s))\<rparr>"

text \<open>A handle: its runtime, with the world in it, and what it is built from.\<close>

record 'n handle_parts =
  hp_client :: "'n client"
  hp_workspace :: Workspace
  hp_opts :: "'n ProductionRuntimeOptions"

definition createHandle ::
  "'n ProductionRuntimeOptions \<Rightarrow> Workspace \<Rightarrow> string option \<Rightarrow> string \<Rightarrow> 'n outside
   \<Rightarrow> factory_error + 'n handle_parts \<times> 'n handle_world runtime" where
  "createHandle opts w ctl uuid out =
     (case instance_client opts w (case ctl of Some i \<Rightarrow> i | None \<Rightarrow> uuid) of
        Inl e \<Rightarrow> Inl e
      | Inr c \<Rightarrow> Inr (\<lparr>hp_client = c, hp_workspace = w, hp_opts = opts\<rparr>,
          newRuntime (w_id w) \<lparr>hw_out = out, hw_identity = None, hw_url = instanceUrl w\<rparr>))"

section \<open>The handle\<close>

type_synonym ('n, 'a) handled = "('n handle_world runtime, factory_error, 'a) comp"

definition handle_deps :: "'n handle_parts \<Rightarrow> 'n handle_world WorkspaceRuntimeDeps" where
  "handle_deps h = production_deps (hp_opts h) (hp_client h) (hp_workspace h)"

definition on_runtime :: "('n handle_world runtime, thrown, 'a) comp \<Rightarrow> ('n, 'a) handled" where
  "on_runtime m = zoomC (\<lambda>s. s) (\<lambda>t _. t) FyThrown m"

definition in_world :: "('w, 'e, 'a) comp \<Rightarrow> ('w runtime, 'e, 'a) comp" where
  "in_world m = zoomC (\<lambda>s. wd (env s)) (\<lambda>x s. s\<lparr>env := (env s)\<lparr>wd := x\<rparr>\<rparr>) id m"

definition identitySink :: "ForwardIdentity option \<Rightarrow> ('n, unit) handled" where
  "identitySink who = in_world (modifyC (\<lambda>x. case who of None \<Rightarrow> x | Some u \<Rightarrow> x\<lparr>hw_identity := Some u\<rparr>))"

definition adapter_open :: "'n handle_parts \<Rightarrow> ('n, runtime_state) handled" where
  "adapter_open h = thenC (on_runtime (doStartInstancePhase (handle_deps h))) (on_runtime (reloadState (handle_deps h)))"

text \<open>\<open>es\<close>: what the other calls of this handle do while the stop waits; \<open>None\<close> when it waits for ever.\<close>

definition adapter_stop ::
  "'n handle_parts \<Rightarrow> rt_event list \<Rightarrow> ForwardIdentity option \<Rightarrow> 'n handle_world runtime
   \<Rightarrow> ((thrown + runtime_state) \<times> 'n handle_world runtime) option" where
  "adapter_stop h es who s = doStop (handle_deps h) es (snd (identitySink who s))"

definition rt_runCheckpoint ::
  "'w WorkspaceRuntimeDeps \<Rightarrow> (thrown \<Rightarrow> 'e) \<Rightarrow> ('w, 'e, 'a) comp \<Rightarrow> ('w runtime, 'e, 'a) comp" where
  "rt_runCheckpoint d f fn =
     (let own = (\<lambda>m. zoomC (\<lambda>s. s) (\<lambda>t _. t) f m) in
      thenC (own (beginTracked d CheckpointOp))
        (bindC (tryC (in_world fn)) (\<lambda>r. thenC (own (endTracked d CheckpointOp (isOk r))) (liftE r))))"

definition adapter_runManualCheckpoint :: "'n handle_parts \<Rightarrow> ForwardIdentity option \<Rightarrow> ('n, bool) handled" where
  "adapter_runManualCheckpoint h who =
     (let opts = hp_opts h; w = hp_workspace h; c = hp_client h in
      thenC (identitySink who)
        (rt_runCheckpoint (handle_deps h) FyThrown
          (buildManualCheckpointFn (po_put opts) (w_id w) (po_now opts)
            (map_option (\<lambda>fwd. runRemoteCheckpoint c fwd w (defaultInstanceName w)) (po_forwarder opts)))))"

definition adapter_getInstanceUrl :: "'n handle_parts \<Rightarrow> ('n, string option) handled" where
  "adapter_getInstanceUrl h = in_world (instanceUrlProvider (hp_client h) (hp_workspace h) (defaultInstanceName (hp_workspace h)))"

definition adapter_deleteInstance :: "'n handle_parts \<Rightarrow> ('n, unit) handled" where
  "adapter_deleteInstance h = in_world (deleteInstance_fn (hp_client h) (defaultInstanceName (hp_workspace h)))"

definition adapter_describeInstance :: "'n handle_parts \<Rightarrow> ('n, InstanceDiagnostic) handled" where
  "adapter_describeInstance h = in_world (describeInstance_fn (hp_client h) (defaultInstanceName (hp_workspace h)))"

definition adapter_recordActivity :: "'n handle_parts \<Rightarrow> ActivityKind \<Rightarrow> ('n, unit) handled" where
  "adapter_recordActivity h k = on_runtime (rt_recordActivity (handle_deps h) k)"

definition adapter_assertAgentInputAllowed :: "'n handle_parts \<Rightarrow> ('n, unit) handled" where
  "adapter_assertAgentInputAllowed h = on_runtime (assertAgentInputAllowed (handle_deps h))"

end
