(* ===== verification/Agent_Host.thy ===== *)
theory Agent_Host
  imports Gateway Runtime_Factory Control_Leases
begin

text \<open>
  The agent host as it is composed (\<open>composeAgentHost\<close> of \<open>apps/agent-host/src/composition.ts\<close>): the gateway over
  the workspace runtime, the turn starter and the controller lease of one workspace, which share the database
  with the control plane; and the wire between the two, on which a request or its answer can be lost, or the
  platform in front of the container can answer instead. An await of a request is one step here: what other tasks do
  meanwhile is given by the dependencies.
\<close>

section \<open>The state of a host\<close>

text \<open>The database is that of the runtime's world; the turn starter works on the same one.\<close>

record 'x host_state =
  hs_db :: db
  hs_rest :: 'x

record 'x agent_host =
  ah_runtime :: "'x host_state runtime"
  ah_turns :: turn_host
  ah_health :: HealthStatus

definition host_db :: "'x agent_host \<Rightarrow> db" where
  "host_db h = hs_db (wd (env (ah_runtime h)))"

definition set_host_db :: "db \<Rightarrow> 'x agent_host \<Rightarrow> 'x agent_host" where
  "set_host_db d h = h\<lparr>ah_runtime := (ah_runtime h)\<lparr>env := (env (ah_runtime h))\<lparr>wd := (wd (env (ah_runtime h)))\<lparr>hs_db := d\<rparr>\<rparr>\<rparr>\<rparr>"

text \<open>
  \<open>create\<close>: how the creation of the agent of a session ends. \<open>tasks\<close>: what other tasks of the host do while a stop
  preparation waits.
\<close>

record 'x AgentHostDependencies =
  ho_config :: AgentHostConfig
  ho_runtime :: "'x host_state WorkspaceRuntimeDeps"
  ho_create :: "string \<Rightarrow> 'x agent_host \<Rightarrow> turn_error option"
  ho_tasks :: "'x agent_host \<Rightarrow> rt_event list"
  ho_checkpoint :: "('x agent_host, gateway_error, LifecycleResult) comp"

section \<open>The collaborators of the gateway\<close>

definition host_runs :: "('x host_state runtime, thrown, 'a) comp \<Rightarrow> ('x agent_host, gateway_error, 'a) comp" where
  "host_runs m = zoomC ah_runtime (\<lambda>r h. h\<lparr>ah_runtime := r\<rparr>) GwRuntime m"

definition on_turns :: "(turn_host \<Rightarrow> 'a \<times> turn_host) \<Rightarrow> 'x agent_host \<Rightarrow> 'a \<times> 'x agent_host" where
  "on_turns f h = (case f ((ah_turns h)\<lparr>th_db := host_db h\<rparr>) of (a, t) \<Rightarrow> (a, set_host_db (th_db t) (h\<lparr>ah_turns := t\<rparr>)))"

fun turn_error_text :: "turn_error \<Rightarrow> string" where
  "turn_error_text (TurnSessionMissing i) = ''cannot start turn: session not found: '' @ i"
| "turn_error_text (AgentFailed m) = m"
| "turn_error_text (TurnRepo e) = repo_message e"

text \<open>
  \<open>startTurn\<close> waits for the creation of the agent, its own or one already under way; the answer is the one this call
  gets. Numbers of calls are drawn from the answers so far and the calls that wait.
\<close>

definition awaited :: "string \<Rightarrow> turn_error option \<Rightarrow> turn_host \<Rightarrow> turn_host" where
  "awaited i failure t = (if creating t i = None then t else agentCreated i failure t)"

definition turn_answer :: "nat \<Rightarrow> turn_host \<Rightarrow> turn_host \<Rightarrow> turn_error + unit" where
  "turn_answer n s t = (case map_of (drop (length (answers s)) (answers t)) n of Some r \<Rightarrow> r | None \<Rightarrow> Inr ())"

definition host_startTurn :: "'x AgentHostDependencies \<Rightarrow> AgentTurnInput \<Rightarrow> ('x agent_host, gateway_error, unit) comp" where
  "host_startTurn D i = (\<lambda>h.
     case on_turns (\<lambda>s.
         let waiting = (case creating s (ti_sessionId i) of None \<Rightarrow> [] | Some ws \<Rightarrow> map fst ws);
             n = Suc (Max (set (0 # waiting)));
             t = awaited (ti_sessionId i) (ho_create D (ti_sessionId i) h) (startTurn n (ti_sessionId i) (ti_content i) s) in
         (turn_answer n s t, t)) h of
       (Inl e, h') \<Rightarrow> (Inl (GwOther (turn_error_text e)), h')
     | (Inr _, h') \<Rightarrow> (Inr (), h'))"

definition host_turnStarter :: "'x AgentHostDependencies \<Rightarrow> 'x agent_host TurnStarter" where
  "host_turnStarter D = \<lparr>st_startTurn = host_startTurn D,
     st_cancelTurn = Some (\<lambda>i h. case on_turns (cancelTurn i) h of (n, h') \<Rightarrow> (Inr n, h')),
     st_resolveApproval = Some (\<lambda>a dec h. case on_turns (resolveApproval a dec) h of (b, h') \<Rightarrow> (Inr b, h'))\<rparr>"

text \<open>The lease store of the host is the same table.\<close>

definition on_leases :: "(unit cp, lease_error, 'a) comp \<Rightarrow> ('x agent_host, gateway_error, 'a) comp" where
  "on_leases m = zoomC
     (\<lambda>h. \<lparr>cp_db = host_db h, cp_members = [], cp_registry = Map.empty, cp_trace = [], cp_log = [], cp_world = ()\<rparr>)
     (\<lambda>c h. set_host_db (cp_db c) h) GwLease m"

definition host_nowMs :: "'x AgentHostDependencies \<Rightarrow> 'x agent_host \<Rightarrow> int" where
  "host_nowMs D h = d_nowMs (ho_runtime D) (wd (env (ah_runtime h)))"

definition host_prepareStop :: "'x AgentHostDependencies \<Rightarrow> ('x agent_host, gateway_error, runtime_state option) comp" where
  "host_prepareStop D = (\<lambda>h.
     case doPrepareStop (ho_runtime D) (ho_tasks D h) (ah_runtime h) of
       None \<Rightarrow> (Inr None, h)
     | Some (Inl e, r) \<Rightarrow> (Inl (GwRuntime e), h\<lparr>ah_runtime := r\<rparr>)
     | Some (Inr st, r) \<Rightarrow> (Inr (Some st), h\<lparr>ah_runtime := r\<rparr>))"

definition host_runCheckpoint ::
  "'x AgentHostDependencies \<Rightarrow> ('x agent_host, gateway_error, 'a) comp \<Rightarrow> ('x agent_host, gateway_error, 'a) comp" where
  "host_runCheckpoint D trigger =
     thenC (host_runs (beginTracked (ho_runtime D) CheckpointOp))
       (bindC (tryC trigger) (\<lambda>r. thenC (host_runs (endTracked (ho_runtime D) CheckpointOp (isOk r))) (liftE r)))"

definition composeAgentHost :: "'x AgentHostDependencies \<Rightarrow> 'x agent_host AgentGatewayDeps" where
  "composeAgentHost D = \<lparr>gd_workspaceId = ac_workspaceId (ho_config D), gd_controllerId = ac_controllerId (ho_config D),
     gd_health = ah_health,
     gd_getActive = (\<lambda>h. on_leases (getActive DbLeaseStore (host_nowMs D h) (ac_workspaceId (ho_config D))) h),
     gd_getState = (\<lambda>h. getState (ah_runtime h)),
     gd_assertAgentInputAllowed = host_runs (assertAgentInputAllowed (ho_runtime D)),
     gd_recordActivity = (\<lambda>k h. h\<lparr>ah_runtime := snd (rt_recordActivity (ho_runtime D) k (ah_runtime h))\<rparr>),
     gd_prepareStop = host_prepareStop D,
     gd_runCheckpoint = host_runCheckpoint D,
     gd_turnStarter = Some (host_turnStarter D),
     gd_manualCheckpoint = Some (ho_checkpoint D)\<rparr>"

section \<open>The wire\<close>

text \<open>
  Everything outside the control plane but the database: the host with its gateway, and the rest, which decides
  what happens to a request. The front of the platform answers in the place of the container with an error only.
\<close>

record ('x, 'r) wire =
  wr_gateway :: "'x agent_host gateway"
  wr_rest :: 'r

datatype fault = Delivered | RequestLost fetch_failure | ReplyLost fetch_failure | FrontAnswers nat string

record ('x, 'r) Network =
  nw_host :: "'x AgentHostDependencies"
  nw_url :: string
  nw_fault :: "OutgoingRequest \<Rightarrow> 'r \<Rightarrow> fault \<times> 'r"
  nw_errorId :: "'r \<Rightarrow> string"

text \<open>What \<open>Bun.serve\<close> hands to the gateway: the path of the URL as it was sent.\<close>

definition received :: "string \<Rightarrow> OutgoingRequest \<Rightarrow> Request" where
  "received base rq = \<lparr>rq_method = or_method rq, rq_path = drop (length base) (or_url rq), rq_query = Map.empty,
     rq_headers = map_of (or_headers rq), rq_body = or_body rq\<rparr>"

definition answered :: "Response \<Rightarrow> HostResponse" where
  "answered r = \<lparr>an_status = rs_status r, an_text = (case rs_body r of JsonBody v \<Rightarrow> json_show v | _ \<Rightarrow> [])\<rparr>"

definition host_serves :: "('x, 'r) Network \<Rightarrow> Request \<Rightarrow> ('x, 'r) wire outside \<Rightarrow> Response option \<times> ('x, 'r) wire outside" where
  "host_serves N rq o' =
     (let g = wr_gateway (out_net o') in
      case gateway_handle (composeAgentHost (nw_host N)) (nw_errorId N (wr_rest (out_net o'))) rq
             (g\<lparr>gw_host := set_host_db (out_db o') (gw_host g)\<rparr>) of
        (r, g') \<Rightarrow> (r, o'\<lparr>out_db := host_db (gw_host g'), out_net := (out_net o')\<lparr>wr_gateway := g'\<rparr>\<rparr>))"

definition front_status :: "nat \<Rightarrow> nat" where
  "front_status st = (if 200 \<le> st \<and> st < 300 then 503 else st)"

definition wire_fetch :: "('x, 'r) Network \<Rightarrow> ('x, 'r) wire outside fetch" where
  "wire_fetch N rq = (\<lambda>o'.
     case nw_fault N rq (wr_rest (out_net o')) of (f, rest) \<Rightarrow>
       (let sent = o'\<lparr>out_net := (out_net o')\<lparr>wr_rest := rest\<rparr>\<rparr> in
        if \<not> starts_with (nw_url N) (or_url rq) then (Inl (FetchFailed ''Unable to connect''), sent)
        else (case f of
            RequestLost e \<Rightarrow> (Inl e, sent)
          | FrontAnswers st t \<Rightarrow> (Inr \<lparr>an_status = front_status st, an_text = t\<rparr>, sent)
          | ReplyLost e \<Rightarrow> (Inl e, snd (host_serves N (received (nw_url N) rq) sent))
          | Delivered \<Rightarrow> (case host_serves N (received (nw_url N) rq) sent of
                (None, o2) \<Rightarrow> (Inl TimedOut, o2)
              | (Some r, o2) \<Rightarrow> (Inr (answered r), o2)))))"

text \<open>ID tokens and the Instances API are the business of the rest.\<close>

definition on_rest :: "('r, 'e, 'a) comp \<Rightarrow> (('x, 'r) wire outside, 'e, 'a) comp" where
  "on_rest m = zoomC (\<lambda>o'. wr_rest (out_net o')) (\<lambda>r o'. o'\<lparr>out_net := (out_net o')\<lparr>wr_rest := r\<rparr>\<rparr>) id m"

definition wire_forwarder ::
  "('x, 'r) Network \<Rightarrow> (string \<Rightarrow> ('r, string, string) comp) \<Rightarrow> nat \<Rightarrow> ('x, 'r) wire forwarder" where
  "wire_forwarder N tokens timeoutMs = \<lparr>hf_idTokenProvider = (\<lambda>aud. on_rest (tokens aud)), hf_fetch = wire_fetch N, hf_timeoutMs = timeoutMs\<rparr>"

end
