(* ===== verification/Wire_Props.thy ===== *)
theory Wire_Props
  imports Agent_Host Config_Props Runtime_Trace
begin

text \<open>
  The two programs together: what the answer the control plane gets says about the host it reached, whatever is lost
  on the wire. A message is queued for the agent of its session at most once, and once when the forward returns; and
  the control plane stops an instance only after the host behind it has saved the workspace.
\<close>

section \<open>The way of a request\<close>

text \<open>What part of the host a computation leaves alone.\<close>

definition turns :: "('x, 'r) wire outside \<Rightarrow> turn_host" where
  "turns o' = ah_turns (gw_host (wr_gateway (out_net o')))"

lemma set_host_db_turns [simp]: "ah_turns (set_host_db d h) = ah_turns h"
  by (simp add: set_host_db_def)

lemma host_runs_turns: "host_runs m h = (r, h') \<Longrightarrow> ah_turns h' = ah_turns h"
  by (auto simp: host_runs_def zoomC_def split: prod.splits sum.splits)

lemma on_leases_turns: "on_leases m h = (r, h') \<Longrightarrow> ah_turns h' = ah_turns h"
  by (auto simp: on_leases_def zoomC_def split: prod.splits sum.splits)

lemma on_host_run: "on_host m g = (r, g') \<Longrightarrow> \<exists>h'. m (gw_host g) = (r, h') \<and> g' = g\<lparr>gw_host := h'\<rparr>"
  by (auto simp: on_host_def zoomC_def split: prod.splits sum.splits)

lemma on_rest_turns: "on_rest m o' = (r, p) \<Longrightarrow> turns p = turns o'"
  by (auto simp: on_rest_def zoomC_def turns_def split: prod.splits sum.splits)

section \<open>A message\<close>

lemma turn_outcome:
  assumes "creating s i = None"
  shows "turn_answer n s (awaited i f (startTurn n i c s)) = Inr () \<and> inbox (awaited i f (startTurn n i c s)) = inbox s @ [(i, c)]
       \<or> isl (turn_answer n s (awaited i f (startTurn n i c s))) \<and> inbox (awaited i f (startTurn n i c s)) = inbox s"
proof -
  obtain found d where g: "getSession i (th_db s) = (found, d)" by fastforce
  consider (bad) e where "found = Inl e" | (absent) "found = Inr None" | (there) x where "found = Inr (Some x)"
    by (metis not_None_eq sum.exhaust_sel)
  then show ?thesis
  proof cases
    case bad
    with g assms show ?thesis by (simp add: startTurn_def awaited_def turn_answer_def)
  next
    case absent
    with g assms show ?thesis by (simp add: startTurn_def awaited_def turn_answer_def)
  next
    case there
    show ?thesis
    proof (cases "i \<in> set (agents s)")
      case True
      with there g assms show ?thesis by (simp add: startTurn_def awaited_def turn_answer_def followup_def)
    next
      case False
      with there g assms show ?thesis
        by (cases f) (simp_all add: startTurn_def awaited_def turn_answer_def agentCreated_def followup_def)
    qed
  qed
qed

lemma host_startTurn_inbox:
  assumes "host_startTurn D i h = (r, h')" "creating (ah_turns h) (ti_sessionId i) = None"
  shows "r = Inr () \<and> inbox (ah_turns h') = inbox (ah_turns h) @ [(ti_sessionId i, ti_content i)]
       \<or> isl r \<and> inbox (ah_turns h') = inbox (ah_turns h)"
proof -
  let ?s = "(ah_turns h)\<lparr>th_db := host_db h\<rparr>"
  let ?t = "awaited (ti_sessionId i) (ho_create D (ti_sessionId i) h) (startTurn 1 (ti_sessionId i) (ti_content i) ?s)"
  have "(r, ah_turns h') = (map_sum (\<lambda>e. GwOther (turn_error_text e)) id (turn_answer 1 ?s ?t), ?t)"
    using assms by (auto simp: host_startTurn_def on_turns_def Let_def split: sum.splits)
  moreover have "creating ?s (ti_sessionId i) = None" using assms(2) by simp
  ultimately show ?thesis
    using turn_outcome [of ?s "ti_sessionId i" 1 "ho_create D (ti_sessionId i) h" "ti_content i"]
    by (auto simp: isl_def)
qed

text \<open>An id the URL carries as it is; the ids of the program are UUIDs.\<close>

definition plain_id :: "string \<Rightarrow> bool" where
  "plain_id i \<longleftrightarrow> i \<noteq> [] \<and> encodeURIComponent i = i"

lemma plain_no_slash: "plain_id i \<Longrightarrow> slash \<notin> set i"
  using encoded_plain [of slash i] by (auto simp: plain_id_def uri_delimiter_def)

lemma session_route:
  assumes "plain_id w" "plain_id i" "x \<in> set gateway_actions"
  shows "GATEWAY_ROUTE_RE (session_path w i x) = Some (w, Some i, x)"
proof -
  have "slash \<notin> set x" using assms(3) by (auto simp: gateway_actions_def)
  moreover have "session_path w i x = [] @ slash # ''workspaces'' @ slash # w @ slash # ''sessions'' @ slash # i @ slash # x"
    using assms(1,2) by (simp add: session_path_def plain_id_def)
  ultimately have "split_at slash (session_path w i x) = [[], ''workspaces'', w, ''sessions'', i, x]"
    using plain_no_slash [OF assms(1)] plain_no_slash [OF assms(2)]
    by (simp add: split_at_append split_at_no del: append_Cons)
  then show ?thesis using assms by (simp add: GATEWAY_ROUTE_RE_def plain_id_def)
qed

lemma workspace_route:
  assumes "plain_id w" "x \<in> set gateway_actions"
  shows "GATEWAY_ROUTE_RE (workspace_path w x) = Some (w, None, x)"
proof -
  have "slash \<notin> set x" using assms(2) by (auto simp: gateway_actions_def)
  moreover have "workspace_path w x = [] @ slash # ''workspaces'' @ slash # w @ slash # x"
    using assms(1) by (simp add: workspace_path_def plain_id_def)
  ultimately have "split_at slash (workspace_path w x) = [[], ''workspaces'', w, x]"
    using plain_no_slash [OF assms(1)] by (simp add: split_at_append split_at_no del: append_Cons)
  then show ?thesis using assms by (simp add: GATEWAY_ROUTE_RE_def plain_id_def)
qed

lemma body_read:
  assumes "utf8 w" "utf8 i" "utf8 c" "int n \<le> 2 ^ 53"
    and "rq_body rq = json_show (JObj [(''workspaceId'', JStr w), (''sessionId'', JStr i), (''seq'', JNum (int n)), (''content'', JStr c)])"
  shows "readForwardedBody rq = Inr (Some \<lparr>fb_sessionId = Some i, fb_seq = int n, fb_content = c\<rparr>)"
proof -
  let ?v = "JObj [(''workspaceId'', JStr w), (''sessionId'', JStr i), (''seq'', JNum (int n)), (''content'', JStr c)]"
  have "proper ?v" using assms(1-3) by (simp add: utf8_ascii byte_def)
  then have shown: "decodeText (rq_body rq) = json_show ?v" unfolding assms(5) by (rule decode_shown)
  have "json_parse (json_show ?v) = Some ?v" using assms(4) by (intro json_roundtrip) simp
  moreover have "trim (json_show ?v) \<noteq> []" by (simp add: trim_def trim_start_def is_space_def in_range_def byte_def)
  ultimately show ?thesis using shown by (simp add: readForwardedBody_def Let_def)
qed

definition took :: "string \<Rightarrow> string \<Rightarrow> 'x agent_host \<Rightarrow> 'x agent_host \<Rightarrow> Response option \<Rightarrow> bool" where
  "took i c h h' r \<longleftrightarrow> inbox (ah_turns h') = inbox (ah_turns h) @ [(i, c)]
     \<or> inbox (ah_turns h') = inbox (ah_turns h) \<and> (\<forall>x. r = Some x \<longrightarrow> \<not> (200 \<le> rs_status x \<and> rs_status x < 300))"

lemma message_route_took:
  assumes "startTurn_route (composeAgentHost D) eid rq w i u g = (r, g')"
    and "readForwardedBody rq = Inr (Some \<lparr>fb_sessionId = Some i, fb_seq = n, fb_content = c\<rparr>)"
    and "creating (ah_turns (gw_host g)) i = None"
  shows "took i c (gw_host g) (gw_host g') (case r of Inl _ \<Rightarrow> None | Inr x \<Rightarrow> Some x)"
proof -
  let ?m = "\<lparr>ti_workspaceId = w, ti_sessionId = i, ti_seq = n, ti_content = c\<rparr>"
  obtain a h where st: "host_startTurn D ?m (gw_host g) = (a, h)" by fastforce
  have "isl a \<and> inbox (ah_turns h) = inbox (ah_turns (gw_host g)) \<or>
      a = Inr () \<and> inbox (ah_turns h) = inbox (ah_turns (gw_host g)) @ [(i, c)]"
    using host_startTurn_inbox [OF st] assms(3) by auto
  with assms(1,2) st show ?thesis
    by (auto simp: startTurn_route_def composeAgentHost_def host_turnStarter_def on_host_def zoomC_def run_simps gw_logs_def
        took_def gw_json_def isl_def)
qed

lemma refused_took: "inbox (ah_turns h') = inbox (ah_turns h) \<Longrightarrow> (\<And>x. r = Some x \<Longrightarrow> 300 \<le> rs_status x) \<Longrightarrow> took i c h h' r"
  by (fastforce simp: took_def)

lemma took_from: "took i c h1 h' r \<Longrightarrow> ah_turns h1 = ah_turns h \<Longrightarrow> took i c h h' r"
  by (simp add: took_def)

lemma lease_check_run:
  assumes "assertControllerLease (composeAgentHost D) g = (r, g')"
  shows "ah_turns (gw_host g') = ah_turns (gw_host g) \<and> (\<forall>x. r = Inr (Some x) \<longrightarrow> rs_status x = 409)"
  using assms unfolding assertControllerLease_def
  by (elim bind_cases) (auto simp: composeAgentHost_def ret_def gw_json_def dest!: on_host_run on_leases_turns split: if_splits)

lemma input_route_took:
  assumes "agentInput_route (composeAgentHost D) eid rq w (Some i) u MessageInput g = (r, g')"
    and "readForwardedBody rq = Inr (Some \<lparr>fb_sessionId = Some i, fb_seq = n, fb_content = c\<rparr>)"
    and "creating (ah_turns (gw_host g)) i = None"
  shows "took i c (gw_host g) (gw_host g') (case r of Inl _ \<Rightarrow> None | Inr x \<Rightarrow> Some x)"
proof -
  obtain a h where gate: "host_runs (assertAgentInputAllowed (ho_runtime D)) (gw_host g) = (a, h)" by fastforce
  then have h: "ah_turns h = ah_turns (gw_host g)" by (rule host_runs_turns)
  have run: "on_host (gd_assertAgentInputAllowed (composeAgentHost D)) g = (a, g\<lparr>gw_host := h\<rparr>)"
    using gate by (simp add: on_host_def composeAgentHost_def zoomC_def split: sum.split)
  show ?thesis
  proof (cases a)
    case (Inl e)
    with assms(1) run have "gw_host g' = h \<and> (\<forall>x. r = Inr x \<longrightarrow> rs_status x = 409)"
      by (auto simp: agentInput_route_def run_simps gw_json_def split: gateway_error.splits thrown.splits err_kind.splits)
    with h show ?thesis by (intro refused_took) (auto split: sum.splits)
  next
    case (Inr _)
    with assms(1) run have "startTurn_route (composeAgentHost D) eid rq w i u (g\<lparr>gw_host := h\<rparr>) = (r, g')"
      by (simp add: agentInput_route_def run_simps)
    from message_route_took [OF this assms(2)] assms(3) h show ?thesis by (simp add: took_from)
  qed
qed

lemma gateway_message_took:
  assumes "gateway_handle (composeAgentHost D) eid rq g = (r, g')"
    and rq: "rq_path rq = session_path w i ''messages''" "rq_method rq = ''POST''" "plain_id w" "plain_id i"
      "readForwardedBody rq = Inr (Some \<lparr>fb_sessionId = Some i, fb_seq = n, fb_content = c\<rparr>)"
    and idle: "creating (ah_turns (gw_host g)) i = None"
  shows "took i c (gw_host g) (gw_host g') r"
proof -
  obtain a t where route: "gateway_route (composeAgentHost D) eid rq g = (a, t)" by fastforce
  have re: "GATEWAY_ROUTE_RE (rq_path rq) = Some (w, Some i, ''messages'')"
    unfolding rq(1) using rq(3,4) by (intro session_route) (simp_all add: gateway_actions_def)
  have "rq_path rq \<noteq> AGENT_HOST_HEALTH_PATH" using re by (auto simp: AGENT_HOST_HEALTH_PATH_def GATEWAY_ROUTE_RE_def)
  note here = this re rq(2)
  have "took i c (gw_host g) (gw_host t) (case a of Inl _ \<Rightarrow> None | Inr x \<Rightarrow> x)"
  proof (cases "caller rq = None \<or> w \<noteq> gd_workspaceId (composeAgentHost D)")
    case True
    with route here show ?thesis
      by (auto simp: gateway_route_def run_simps gw_json_def intro!: refused_took split: option.splits if_splits)
  next
    case False
    then obtain u where u: "caller rq = Some u" "w = gd_workspaceId (composeAgentHost D)" by auto
    obtain b t1 where lease: "assertControllerLease (composeAgentHost D) g = (b, t1)" by fastforce
    note l = lease_check_run [OF lease]
    show ?thesis
    proof (cases "b = Inr None")
      case False
      with route here u lease have "gw_host t = gw_host t1 \<and> (case a of Inl _ \<Rightarrow> True | Inr x \<Rightarrow> b = Inr x)"
        by (auto simp: gateway_route_def run_simps split: sum.splits option.splits)
      with l False show ?thesis by (intro refused_took) (auto split: sum.splits)
    next
      case True
      obtain q t2 where input: "agentInput_route (composeAgentHost D) eid rq w (Some i) u MessageInput t1 = (q, t2)" by fastforce
      from True route here u lease input have "a = map_sum id Some q \<and> t = t2"
        by (auto simp: gateway_route_def run_simps post_action_def split: sum.splits)
      moreover have "took i c (gw_host t1) (gw_host t2) (case q of Inl _ \<Rightarrow> None | Inr x \<Rightarrow> Some x)"
        using input rq(5) by (rule input_route_took) (simp add: l idle)
      ultimately show ?thesis using l by (auto intro: took_from split: sum.splits)
    qed
  qed
  with assms(1) route show ?thesis
    by (auto simp: gateway_handle_def took_def gw_json_def split: sum.splits)
qed

section \<open>What a post does\<close>

lemma post_run:
  assumes "postToHost (wire_forwarder N tokens ms) u route v who flag o' = (r, p)" "host_base u = nw_url N"
  shows "(\<exists>e. r = Inl e) \<and> turns p = turns o' \<and> wr_gateway (out_net p) = wr_gateway (out_net o') \<and> out_db p = out_db o'
     \<or> (\<exists>o1 token q. wire_fetch N (host_request (nw_url N) route v who token) o1 = (q, p)
          \<and> wr_gateway (out_net o1) = wr_gateway (out_net o') \<and> out_db o1 = out_db o'
          \<and> (\<forall>a. r = Inr a \<longrightarrow> (\<exists>res. q = Inr res \<and> classify flag res = Inr a)))"
proof -
  obtain a o1 where token: "on_rest (tokens (nw_url N)) o' = (a, o1)" by fastforce
  then have o1: "wr_gateway (out_net o1) = wr_gateway (out_net o')" "out_db o1 = out_db o'" "turns o1 = turns o'"
    by (auto simp: on_rest_def zoomC_def turns_def split: prod.splits sum.splits)
  show ?thesis
  proof (cases a)
    case (Inl e)
    with assms token o1 show ?thesis by (auto simp: postToHost_def wire_forwarder_def run_simps Let_def)
  next
    case (Inr t)
    obtain q o2 where f: "wire_fetch N (host_request (nw_url N) route v who t) o1 = (q, o2)" by fastforce
    from Inr assms token f have "p = o2" "\<forall>b. r = Inr b \<longrightarrow> (\<exists>res. q = Inr res \<and> classify flag res = Inr b)"
      by (auto simp: postToHost_def wire_forwarder_def run_simps Let_def split: sum.splits)
    with f o1(1,2) show ?thesis by blast
  qed
qed

lemma request_url: "starts_with base (or_url (host_request base route v who t))"
    "received base (host_request base route v who t) = \<lparr>rq_method = ''POST'', rq_path = route, rq_query = Map.empty,
       rq_headers = map_of (or_headers (host_request base route v who t)), rq_body = json_show v\<rparr>"
  by (simp_all add: host_request_def starts_with_def received_def)

definition ok_status :: "nat \<Rightarrow> bool" where
  "ok_status st \<longleftrightarrow> 200 \<le> st \<and> st < 300"

lemma front_status_bad: "\<not> ok_status (front_status st)"
  by (simp add: ok_status_def front_status_def)

lemma fetch_run:
  assumes "wire_fetch N rq o' = (q, p)" "starts_with (nw_url N) (or_url rq)"
  shows "wr_gateway (out_net p) = wr_gateway (out_net o') \<and> out_db p = out_db o' \<and> (\<forall>res. q = Inr res \<longrightarrow> \<not> ok_status (an_status res))
     \<or> (\<exists>o1 x. host_serves N (received (nw_url N) rq) o1 = (x, p) \<and> wr_gateway (out_net o1) = wr_gateway (out_net o')
          \<and> out_db o1 = out_db o' \<and> (\<forall>res. q = Inr res \<longrightarrow> (\<exists>y. x = Some y \<and> res = answered y)))"
proof -
  obtain f rest where f: "nw_fault N rq (wr_rest (out_net o')) = (f, rest)" by fastforce
  let ?sent = "o'\<lparr>out_net := (out_net o')\<lparr>wr_rest := rest\<rparr>\<rparr>"
  obtain x o2 where h: "host_serves N (received (nw_url N) rq) ?sent = (x, o2)" by fastforce
  show ?thesis
  proof (cases f)
    case Delivered
    with assms f h have "p = o2" "\<forall>res. q = Inr res \<longrightarrow> (\<exists>y. x = Some y \<and> res = answered y)"
      by (auto simp: wire_fetch_def Let_def split: option.splits)
    with h show ?thesis by (intro disjI2 exI [of _ ?sent] exI [of _ x]) simp
  next
    case (ReplyLost e)
    with assms f h have "p = o2" "\<forall>res. q \<noteq> Inr res" by (auto simp: wire_fetch_def Let_def)
    with h show ?thesis by (intro disjI2 exI [of _ ?sent] exI [of _ x]) simp
  qed (use assms f front_status_bad in \<open>auto simp: wire_fetch_def Let_def\<close>)
qed

lemma serves_run:
  assumes "host_serves N rq o' = (x, p)"
  obtains g where "gateway_handle (composeAgentHost (nw_host N)) (nw_errorId N (wr_rest (out_net o'))) rq
      ((wr_gateway (out_net o'))\<lparr>gw_host := set_host_db (out_db o') (gw_host (wr_gateway (out_net o')))\<rparr>) = (x, g)"
    "wr_gateway (out_net p) = g" "out_db p = host_db (gw_host g)"
  using assms by (auto simp: host_serves_def Let_def split: prod.splits)

lemma classify_ok: "classify flag res = Inr a \<Longrightarrow> a = res \<and> ok_status (an_status res)"
  by (auto simp: classify_def response_ok_def ok_status_def split: if_splits)

text \<open>C3: end to end, a message is queued for the agent of its session at most once, whatever the network does to the
  request or to its answer, and when the control plane's \<open>forward\<close> returns it was queued exactly once: the inbox of
  the agent host grew by exactly this session and this text, byte for byte, through URL, headers and JSON. (Ids are
  carried by URLs as they are, as UUIDs; texts are UTF-8; no other call waits for the agent of the session.)\<close>

theorem message_delivered_once:
  assumes "forward (wire_forwarder N tokens ms) u w i n c who o' = (r, p)" "host_base u = nw_url N"
    and "plain_id w" "plain_id i" "utf8 w" "utf8 i" "utf8 c" "int n \<le> 2 ^ 53"
    and "creating (turns o') i = None"
  shows "inbox (turns p) \<in> {inbox (turns o'), inbox (turns o') @ [(i, c)]}
    \<and> ((\<exists>st. r = Inr st) \<longrightarrow> inbox (turns p) = inbox (turns o') @ [(i, c)])"
proof -
  let ?v = "JObj [(''workspaceId'', JStr w), (''sessionId'', JStr i), (''seq'', JNum (int n)), (''content'', JStr c)]"
  let ?rq = "\<lambda>t. host_request (nw_url N) (session_path w i ''messages'') ?v who t"
  obtain q where post: "postToHost (wire_forwarder N tokens ms) u (session_path w i ''messages'') ?v who True o' = (q, p)"
    and q: "\<forall>st. r = Inr st \<longrightarrow> (\<exists>res. q = Inr res)"
    using assms(1) unfolding forward_def by (elim bind_cases) (auto simp: ret_def)
  from post_run [OF post assms(2)] show ?thesis
  proof (elim disjE exE conjE)
    fix e assume "q = Inl e" "turns p = turns o'"
    with q show ?thesis by auto
  next
    fix o1 t a
    assume f: "wire_fetch N (?rq t) o1 = (a, p)" and o1: "wr_gateway (out_net o1) = wr_gateway (out_net o')"
      and ok: "\<forall>b. q = Inr b \<longrightarrow> (\<exists>res. a = Inr res \<and> classify True res = Inr b)"
    have ok': "\<exists>res. a = Inr res \<and> ok_status (an_status res)" if "\<exists>st. r = Inr st"
    proof -
      from that q obtain b where "q = Inr b" by auto
      with ok obtain res where "a = Inr res" "classify True res = Inr b" by auto
      then show ?thesis using classify_ok by blast
    qed
    from fetch_run [OF f request_url(1)] show ?thesis
    proof (elim disjE exE conjE)
      assume "wr_gateway (out_net p) = wr_gateway (out_net o1)" "\<forall>res. a = Inr res \<longrightarrow> \<not> ok_status (an_status res)"
      with o1 ok' show ?thesis by (auto simp: turns_def)
    next
      fix o2 x
      assume h: "host_serves N (received (nw_url N) (?rq t)) o2 = (x, p)" and o2: "wr_gateway (out_net o2) = wr_gateway (out_net o1)"
        and x: "\<forall>res. a = Inr res \<longrightarrow> (\<exists>y. x = Some y \<and> res = answered y)"
      from h obtain g where g: "gateway_handle (composeAgentHost (nw_host N)) (nw_errorId N (wr_rest (out_net o2)))
          (received (nw_url N) (?rq t)) ((wr_gateway (out_net o2))\<lparr>gw_host := set_host_db (out_db o2) (gw_host (wr_gateway (out_net o2)))\<rparr>) = (x, g)"
        "wr_gateway (out_net p) = g" by (rule serves_run)
      have "took i c (set_host_db (out_db o2) (gw_host (wr_gateway (out_net o2)))) (gw_host g) x"
        using gateway_message_took [OF g(1), where w = w and i = i and n = "int n" and c = c] assms o1 o2
        by (simp add: request_url(2) body_read turns_def)
      then have "took i c (gw_host (wr_gateway (out_net o'))) (gw_host g) x" using o1 o2 by (simp add: took_def)
      with g(2) x ok' show ?thesis by (auto simp: took_def turns_def answered_def ok_status_def)
    qed
  qed
qed

text \<open>A host over the database alone, whose steps all succeed, behind a network that delivers.\<close>

definition on_hs :: "('d \<Rightarrow> 'e) \<Rightarrow> (db, 'd, 'a) comp \<Rightarrow> ('x host_state, 'e, 'a) comp" where
  "on_hs f m = zoomC hs_db (\<lambda>d s. s\<lparr>hs_db := d\<rparr>) f m"

definition sample_host_deps :: "unit host_state WorkspaceRuntimeDeps" where
  "sample_host_deps = \<lparr>d_load = (\<lambda>i. on_hs id (sql_load i)),
     d_apply = (\<lambda>i f t reason. on_hs id (sql_apply 0 (Some reason) None i f t)),
     d_instanceStart = ret (), d_instanceStop = ret (), d_step = (\<lambda>_. ret ()), d_nowMs = (\<lambda>_. 0)\<rparr>"

definition sample_host_config :: AgentHostConfig where
  "sample_host_config = \<lparr>ac_workspaceId = ''w'', ac_port = 8080, ac_workspaceRoot = ''/workspace'', ac_checkpointBucket = ''b'',
     ac_checkpointKey = ''k'', ac_databaseUrl = ''u'', ac_pool = \<lparr>pool_max = 5, idleTimeout = 30, connectionTimeout = 30\<rparr>,
     ac_githubAppId = ''7'', ac_githubAppPrivateKeyPem = ''p'', ac_repositoryOwner = ''x'', ac_repositoryName = ''y'',
     ac_baseBranch = ''main'', ac_controllerId = ''c1'', ac_userId = ''u1'', ac_instanceName = ''dsh-w'', ac_gcpProjectId = ''p'',
     ac_gcpRegion = ''r'', ac_instancesApiBaseUrl = ''https://run.googleapis.com/v2'', ac_sandboxCliPath = ''/s'', ac_allowEgress = True,
     ac_llm = \<lparr>llmBaseUrl = ''l'', llmApiKeyEnv = ''O'', llmModel = ''m'', llmApprovalPolicy = AskPolicy\<rparr>\<rparr>"

definition sample_network :: "(unit, unit) Network" where
  "sample_network = \<lparr>nw_host = \<lparr>ho_config = sample_host_config, ho_runtime = sample_host_deps, ho_create = (\<lambda>_ _. None),
       ho_tasks = (\<lambda>_. []), ho_checkpoint = ret (LifecycleOk False)\<rparr>,
     nw_url = ''https://i'', nw_fault = (\<lambda>_ r. (Delivered, r)), nw_errorId = (\<lambda>_. ''e'')\<rparr>"

definition sample_outside :: "runtime_state \<Rightarrow> (unit, unit) wire outside" where
  "sample_outside st =
     (let d = (sample_db st)\<lparr>leases_table := [''w'' \<mapsto> new_lease 0 ''w'' ''c1'' ''u1'']\<rparr> in
      \<lparr>out_db = d, out_net = \<lparr>wr_gateway = \<lparr>gw_host = \<lparr>ah_runtime = newRuntime ''w'' \<lparr>hs_db = d, hs_rest = ()\<rparr>,
         ah_turns = new_host d, ah_health = Health_READY\<rparr>, gw_log = []\<rparr>, wr_rest = ()\<rparr>\<rparr>)"

definition sample_forward :: "(forward_error + nat) \<times> (unit, unit) wire outside" where
  "sample_forward = forward (wire_forwarder sample_network (\<lambda>_. ret ''t'') 10000) ''https://i/'' ''w'' ''s'' 5 ''hi''
     (''u1'', ''l'') (sample_outside READY)"

lemma sample_forwarded: "fst sample_forward = Inr 202" "inbox (turns (sample_outside READY)) = []"
    "creating (turns (sample_outside READY)) ''s'' = None" "host_base ''https://i/'' = nw_url sample_network"
  by code_simp+

lemma sample_ids: "plain_id ''w'' \<and> plain_id ''s'' \<and> utf8 ''w'' \<and> utf8 ''s'' \<and> utf8 ''hi''"
  by code_simp

theorem message_delivered_once_witness: "inbox (turns (snd sample_forward)) = [(''s'', ''hi'')]"
proof -
  obtain p where p: "sample_forward = (Inr 202, p)" using sample_forwarded(1) by (metis prod.collapse)
  have "\<exists>st. (Inr 202 :: forward_error + nat) = Inr st" by simp
  then have "inbox (turns p) = inbox (turns (sample_outside READY)) @ [(''s'', ''hi'')]"
    using message_delivered_once [OF p [unfolded sample_forward_def] sample_forwarded(4)] sample_ids sample_forwarded(3)
    by simp
  then have "inbox (turns p) = [(''s'', ''hi'')]" by (simp only: sample_forwarded(2) append_Nil)
  then show ?thesis by (simp only: p snd_conv)
qed

end
