(* ===== verification/Stop_Guard.thy ===== *)
theory Stop_Guard
  imports Runtime_Props
begin

text \<open>
  What a stop has done before it stops the instance, for any collaborators and whatever other tasks do while it waits:
  the lifecycle checkpoint returned, or it failed and the store did not take \<open>CHECKPOINT_FAILED\<close>. A locale states
  what a deployment has to add for the first case to mean that the workspace is saved.
\<close>

section \<open>The calls of a stop\<close>

definition checkpointed :: "(call \<times> bool) list \<Rightarrow> bool" where
  "checkpointed cs \<longleftrightarrow> (CStep runLifecycleCheckpoint, True) \<in> set cs"

text \<open>A checkpoint that failed without a record of it in the row.\<close>

definition unrecorded :: "(call \<times> bool) list \<Rightarrow> bool" where
  "unrecorded cs \<longleftrightarrow> (\<exists>pre post. cs = pre @ (CStep runLifecycleCheckpoint, False) # post
     \<and> (\<forall>f reason. (CApply f CHECKPOINT_FAILED reason, True) \<notin> set post))"

lemma unrecorded_append: "unrecorded cs \<Longrightarrow> unrecorded (ds @ cs)"
  unfolding unrecorded_def by (metis append.assoc)

lemma unrecorded_prefix:
  assumes "unrecorded cs" "\<forall>c \<in> set ds. \<forall>f r. fst c \<noteq> CApply f CHECKPOINT_FAILED r"
  shows "unrecorded (cs @ ds)"
proof -
  obtain pre post where cs: "cs = pre @ (CStep runLifecycleCheckpoint, False) # post"
      "\<forall>f reason. (CApply f CHECKPOINT_FAILED reason, True) \<notin> set post"
    using assms(1) by (auto simp: unrecorded_def)
  moreover have "\<forall>f reason. (CApply f CHECKPOINT_FAILED reason, True) \<notin> set (post @ ds)" using cs(2) assms(2) by fastforce
  ultimately show ?thesis unfolding unrecorded_def by (intro exI [of _ pre] exI [of _ "post @ ds"]) simp
qed

lemma checkpointed_append [simp]: "checkpointed (cs @ ds) \<longleftrightarrow> checkpointed cs \<or> checkpointed ds"
  by (auto simp: checkpointed_def)

definition quiet :: "call \<times> bool \<Rightarrow> bool" where
  "quiet c \<longleftrightarrow> (\<forall>y. fst c \<noteq> CStep y) \<and> fst c \<noteq> CStop"

lemma quiet_simps [simp]: "quiet (CLoad, b)" "quiet (CApply f t r, b)" "\<not> quiet (CStep y, b)" "\<not> quiet (CStop, b)"
  by (auto simp: quiet_def)

lemma reload_calls: "reloadState d s = (r, t) \<Longrightarrow> rt_calls t = rt_calls s @ [(CLoad, isOk r)]"
  using emitsD [OF emits_reload] by fastforce

lemma transition_calls:
  assumes "transition d to reason s = (r, t)"
  obtains cs where "rt_calls t = rt_calls s @ cs" "\<forall>f' to' r'. (CApply f' to' r', True) \<in> set cs \<longrightarrow> isOk r"
    "isOk r \<longrightarrow> getState t = to"
proof -
  have "isOk r \<longrightarrow> getState t = to"
    using assms by (auto simp: transition_def onMachine_def machine_transition_def getState_def isOk_def split: prod.splits sum.splits)
  moreover obtain cs where "rt_calls t = rt_calls s @ cs"
      "cs = [] \<and> \<not> isOk r \<or> (\<exists>f. canTransition f to \<and> cs = [(CApply f to reason, isOk r)])"
    using emitsD [OF emits_transition assms] by blast
  ultimately show ?thesis by (intro that [of cs]) auto
qed

lemma noteFailure_calls:
  assumes "noteFailure d e to reason s = (x, t)"
  obtains cs e' where "x = Inr e'" "rt_calls t = rt_calls s @ cs"
    "getState t = to \<or> (\<forall>f r. (CApply f to r, True) \<notin> set cs)"
proof -
  let ?s = "s\<lparr>lastError := Some e\<rparr>"
  obtain q s1 where rec: "recordFailureStateBestEffort d e to reason ?s = (q, s1)" by fastforce
  obtain l s2 where load: "reloadState d ?s = (l, s2)" by fastforce
  note calls2 = reload_calls [OF load]
  have "\<exists>e' cs. q = Inr e' \<and> rt_calls s1 = rt_calls s @ cs \<and> (getState s1 = to \<or> (\<forall>f r. (CApply f to r, True) \<notin> set cs))"
  proof (cases "\<exists>e2. l = Inl e2 \<or> \<not> machine_canTransition (machine s2) to")
    case True
    with rec load calls2 show ?thesis
      by (auto simp: recordFailureStateBestEffort_def run_simps split: sum.splits if_splits)
  next
    case False
    obtain p s3 where tr: "transition d to reason s2 = (p, s3)" by fastforce
    then obtain cs where cs: "rt_calls s3 = rt_calls s2 @ cs"
        "\<forall>f' to' r'. (CApply f' to' r', True) \<in> set cs \<longrightarrow> isOk p" "isOk p \<longrightarrow> getState s3 = to"
      by (rule transition_calls)
    from False rec load tr have "(\<exists>e'. q = Inr e') \<and> s1 = s3"
      by (auto simp: recordFailureStateBestEffort_def run_simps split: sum.splits if_splits)
    with cs calls2 show ?thesis by auto
  qed
  then obtain e' cs where "q = Inr e'" "rt_calls s1 = rt_calls s @ cs" "getState s1 = to \<or> (\<forall>f r. (CApply f to r, True) \<notin> set cs)"
    by blast
  with assms rec show ?thesis
    by (intro that [of e' cs]) (auto simp: noteFailure_def setLastError_def run_simps getState_def)
qed


text \<open>The part of a stop preparation after the wait, by what its checkpoint does.\<close>

lemma finish_cases:
  assumes "prepareStopFinish d s = (r, t)"
  obtains (failed) e w1 cs where "d_step d runLifecycleCheckpoint (wd (env s)) = (Inl e, w1)"
      "r = Inr (getState t)" "rt_calls t = rt_calls s @ (CStep runLifecycleCheckpoint, False) # cs"
      "getState t = CHECKPOINT_FAILED \<or> (\<forall>f r. (CApply f CHECKPOINT_FAILED r, True) \<notin> set cs)"
  | (saved) u w1 s1 where "d_step d runLifecycleCheckpoint (wd (env s)) = (Inr u, w1)" "wd (env s1) = w1"
      "rt_calls s1 = rt_calls s @ [(CStep runLifecycleCheckpoint, True)]"
      "thenC (rt_recordActivity d checkpoint) (thenC (catchC (runSteps d [flushSessionPersistence, deleteSandbox])
         (\<lambda>e. failWith d e ERROR ''graceful-stop-failed'')) (getC getState)) s1 = (r, t)"
proof -
  obtain q w1 where step: "d_step d runLifecycleCheckpoint (wd (env s)) = (q, w1)" by fastforce
  let ?s = "s\<lparr>env := \<lparr>wd = w1, calls = calls (env s) @ [(CStep runLifecycleCheckpoint, isOk q)]\<rparr>\<rparr>"
  have collab: "collaborator (CStep runLifecycleCheckpoint) (d_step d runLifecycleCheckpoint) s = (q, ?s)"
    using step by (simp add: collaborator_def traced_def)
  show ?thesis
  proof (cases q)
    case (Inl e)
    obtain x s2 where noted: "noteFailure d e CHECKPOINT_FAILED ''lifecycle-checkpoint-failed'' ?s = (x, s2)" by fastforce
    from noted obtain cs e' where cs: "x = Inr e'" "rt_calls s2 = rt_calls ?s @ cs"
        "getState s2 = CHECKPOINT_FAILED \<or> (\<forall>f r. (CApply f CHECKPOINT_FAILED r, True) \<notin> set cs)"
      by (rule noteFailure_calls)
    from Inl assms collab noted cs(1) have "r = Inr (getState s2)" "t = s2"
      by (auto simp: prepareStopFinish_def run_simps)
    with Inl step cs show ?thesis by (intro failed [of e w1 cs]) (simp_all add: rt_calls_def isOk_def)
  next
    case (Inr u)
    have "wd (env ?s) = w1" by simp
    moreover have "rt_calls ?s = rt_calls s @ [(CStep runLifecycleCheckpoint, True)]" using Inr by (simp add: rt_calls_def isOk_def)
    moreover have "thenC (rt_recordActivity d checkpoint) (thenC (catchC (runSteps d [flushSessionPersistence, deleteSandbox])
         (\<lambda>e. failWith d e ERROR ''graceful-stop-failed'')) (getC getState)) ?s = (r, t)"
      using Inr assms collab by (simp add: prepareStopFinish_def run_simps rt_recordActivity_def)
    ultimately show ?thesis using step Inr by (intro saved [of u w1 ?s]) simp_all
  qed
qed

lemma enter_quiet: "emitsAll quiet (prepareStopEnter d)"
  unfolding prepareStopEnter_def by (intro emits_intros) simp_all

lemma drain_quiet: "drain d es s = Some t \<Longrightarrow> adds quiet s t"
  by (rule adds_drain) simp_all

lemma finish_no_stop: "emitsAll (\<lambda>c. fst c \<noteq> CStop) (prepareStopFinish d)"
  unfolding prepareStopFinish_def by (intro emits_intros; simp; blast)

lemma after_checkpoint: "emitsAll (\<lambda>c. True) (thenC (rt_recordActivity d checkpoint)
    (thenC (catchC (runSteps d [flushSessionPersistence, deleteSandbox])
         (\<lambda>e. failWith d e ERROR ''graceful-stop-failed'')) (getC getState)))"
  by (intro emits_intros) simp_all

lemma after_prepare_calls: "emitsAll (\<lambda>c. \<forall>f r. fst c \<noteq> CApply f CHECKPOINT_FAILED r) (doStopAfterPrepare d st)"
  unfolding doStopAfterPrepare_def by (intro emits_intros) simp_all

text \<open>What a stop preparation returns says what its calls were.\<close>

lemma prepareStop_answer:
  assumes "doPrepareStop d es s = Some (r, t)"
  obtains cs where "rt_calls t = rt_calls s @ cs" "\<forall>c \<in> set cs. fst c \<noteq> CStop"
    "\<forall>st. r = Inr st \<longrightarrow> st \<in> {STOPPED, CHECKPOINT_FAILED} \<or> checkpointed cs \<or> unrecorded cs"
proof -
  obtain q s1 where enter: "prepareStopEnter d s = (q, s1)" by fastforce
  obtain c1 where c1: "rt_calls s1 = rt_calls s @ c1" "\<forall>c \<in> set c1. quiet c"
    using adds_run [OF enter_quiet enter] by (auto simp: adds_def)
  have silent: "fst c \<noteq> CStop" if "quiet c" for c using that by (simp add: quiet_def)
  show ?thesis
  proof (cases q)
    case (Inl e)
    with assms enter c1 silent show ?thesis by (intro that [of c1]) (auto simp: doPrepareStop_def)
  next
    case (Inr o')
    show ?thesis
    proof (cases o')
      case (Some st)
      have "st = STOPPED" using enter Inr Some by (auto simp: prepareStopEnter_def run_simps split: sum.splits prod.splits if_splits)
      with Some Inr assms enter c1 silent show ?thesis by (intro that [of c1]) (auto simp: doPrepareStop_def)
    next
      case None
      with Inr assms enter obtain s2 where drained: "drain d es s1 = Some s2" and fin: "prepareStopFinish d s2 = (r, t)"
        by (auto simp: doPrepareStop_def split: option.splits)
      from drain_quiet [OF drained] obtain c2 where c2: "rt_calls s2 = rt_calls s1 @ c2" "\<forall>c \<in> set c2. quiet c"
        by (auto simp: adds_def)
      obtain c3 where c3: "rt_calls t = rt_calls s2 @ c3" "\<forall>c \<in> set c3. fst c \<noteq> CStop"
        using adds_run [OF finish_no_stop fin] by (auto simp: adds_def)
      have "\<forall>st. r = Inr st \<longrightarrow> st \<in> {STOPPED, CHECKPOINT_FAILED} \<or> checkpointed (c1 @ c2 @ c3) \<or> unrecorded (c1 @ c2 @ c3)"
        using fin
      proof (cases rule: finish_cases)
        case (failed e w1 c4)
        with c3 have "c3 = (CStep runLifecycleCheckpoint, False) # c4" by simp
        with failed have "getState t = CHECKPOINT_FAILED \<or> unrecorded c3" by (auto simp: unrecorded_def)
        with failed(2) show ?thesis by (auto intro: unrecorded_append)
      next
        case (saved u w1 s3)
        obtain c4 where "rt_calls t = rt_calls s3 @ c4" using adds_run [OF after_checkpoint saved(4)] by (auto simp: adds_def)
        with saved(3) c3 have "c3 = (CStep runLifecycleCheckpoint, True) # c4" by simp
        then show ?thesis by (simp add: checkpointed_def)
      qed
      then show ?thesis using c1 c2 c3 silent by (intro that [of "c1 @ c2 @ c3"]) auto
    qed
  qed
qed


section \<open>A deployment whose checkpoint step saves the workspace\<close>

definition same :: "('w \<Rightarrow> 'p) \<Rightarrow> 'w runtime \<Rightarrow> 'w runtime \<Rightarrow> bool" where
  "same f s t \<longleftrightarrow> f (wd (env t)) = f (wd (env s))"

lemma same_order [simp]: "reflp (same f)" "transp (same f)"
  by (auto simp: same_def reflp_def transp_def)

text \<open>\<open>part\<close> is the part of the world that only the checkpoint step changes; \<open>saved\<close> is what that step achieves when it returns.\<close>

locale step_guard =
  fixes d :: "'w WorkspaceRuntimeDeps" and part :: "'w \<Rightarrow> 'p" and saved :: "'p \<Rightarrow> 'p \<Rightarrow> bool"
  assumes load_keeps: "d_load d i x = (q, y) \<Longrightarrow> part y = part x"
    and apply_keeps: "d_apply d i f u reason x = (a, y) \<Longrightarrow> part y = part x"
    and stop_keeps: "d_instanceStop d x = (b, y) \<Longrightarrow> part y = part x"
    and step_keeps: "z \<noteq> runLifecycleCheckpoint \<Longrightarrow> d_step d z x = (c, y) \<Longrightarrow> part y = part x"
    and step_saves: "d_step d runLifecycleCheckpoint x = (Inr (), y) \<Longrightarrow> saved (part x) (part y)"
begin

lemma reload_same [keeps_intros]: "keeps (same part) (reloadState d)"
  by (rule keepsI) (auto simp: same_def reloadState_def onMachine_def machine_reload_def traced_def Let_def
      split: prod.splits sum.splits dest: load_keeps)

lemma transition_same [keeps_intros]: "keeps (same part) (transition d u reason)"
  by (rule keepsI) (auto simp: same_def transition_def onMachine_def machine_transition_def traced_def
      split: prod.splits sum.splits dest: apply_keeps)

lemma silent_same [keeps_intros]: "keeps (same part) (rt_recordActivity d k)" "keeps (same part) (setLastError le)"
    "keeps (same part) beginOperation" "keeps (same part) endOperation"
  by (auto simp: runtime_op_defs same_def intro!: keeps_modify)

lemma modify_same [keeps_intros]: "(\<And>s. env (f s) = env s) \<Longrightarrow> keeps (same part) (modifyC f)"
  by (auto simp: same_def intro!: keeps_modify)

lemma collaborator_same:
  assumes "\<And>x r y. f x = (r, y) \<Longrightarrow> part y = part x"
  shows "keeps (same part) (collaborator c f)"
  by (rule keepsI) (auto simp: same_def collaborator_def traced_def split: prod.splits dest: assms)

lemma fail_same [keeps_intros]: "keeps (same part) (failWith d e u reason)" "keeps (same part) (noteFailure d e u reason)"
  unfolding failWith_def noteFailure_def recordFailureStateBestEffort_def by (intro keeps_intros; simp)+

lemma gate_same [keeps_intros]: "keeps (same part) (assertAgentInputAllowed d)"
  unfolding assertAgentInputAllowed_def by (intro keeps_intros; simp)

lemma event_same: "same part s (rt_step d e s)"
proof (cases e)
  case BeginTurn
  have "keeps (same part) (beginAgentTurn d)" unfolding beginAgentTurn_def by (intro keeps_intros; simp)
  with BeginTurn show ?thesis by (simp add: rt_step.simps keepsD)
next
  case EndTurn
  have "keeps (same part) (endAgentTurn d)"
    unfolding endAgentTurn_def by (rule keeps_bind) (auto intro!: keeps_intros split: prod.split)
  with EndTurn show ?thesis by (simp add: rt_step.simps keepsD)
next
  case (BeginOp k)
  have "keeps (same part) (beginTracked d k)" by (cases k; simp; intro keeps_intros; simp)
  with BeginOp show ?thesis by (simp add: rt_step.simps keepsD)
next
  case (EndOp k ok)
  have "keeps (same part) (afterTracked d k ok)" by (cases k; simp; intro conjI impI keeps_intros; simp)
  then have "keeps (same part) (endTracked d k ok)" unfolding endTracked_def by (intro keeps_intros; simp)
  with EndOp show ?thesis by (simp add: rt_step.simps keepsD)
qed

lemma drain_same: "drain d es s = Some t \<Longrightarrow> same part s t"
proof (induction es arbitrary: s)
  case (Cons e es)
  then show ?case using event_same [of s e] by (auto simp: same_def split: if_splits)
qed (auto simp: same_def split: if_splits)

lemma steps_same: "runLifecycleCheckpoint \<notin> set ys \<Longrightarrow> keeps (same part) (runSteps d ys)"
  unfolding runSteps_def by (rule keeps_seqC) (auto intro!: collaborator_same dest: step_keeps [rotated])

lemma finish_saves:
  assumes "prepareStopFinish d s = (Inr st, t)" "st \<noteq> CHECKPOINT_FAILED" "rt_calls t = rt_calls s @ cs"
  shows "saved (part (wd (env s))) (part (wd (env t))) \<or> unrecorded cs"
  using assms(1)
proof (cases rule: finish_cases)
  case (failed e w1 ds)
  with assms have "cs = [] @ (CStep runLifecycleCheckpoint, False) # ds" "\<forall>f r. (CApply f CHECKPOINT_FAILED r, True) \<notin> set ds"
    by auto
  then show ?thesis unfolding unrecorded_def by blast
next
  case (saved u w1 s1)
  have "keeps (same part) (thenC (rt_recordActivity d checkpoint)
      (thenC (catchC (runSteps d [flushSessionPersistence, deleteSandbox])
         (\<lambda>e. failWith d e ERROR ''graceful-stop-failed'')) (getC getState)))"
    by (intro keeps_intros steps_same) simp_all
  then have "same part s1 t" using saved(4) by (rule keeps_run)
  with step_saves [of "wd (env s)" w1] saved(1,2) show ?thesis by (simp add: same_def)
qed

theorem stop_saves:
  assumes "doStop d es s = Some (r, t)" "rt_calls t = rt_calls s @ cs" "(CStop, b) \<in> set cs"
  shows "saved (part (wd (env s))) (part (wd (env t))) \<or> unrecorded cs"
proof -
  obtain q s1 where prep: "doPrepareStop d es s = Some (q, s1)" using assms(1) by (auto simp: doStop_def split: option.splits)
  then obtain c1 where c1: "rt_calls s1 = rt_calls s @ c1" "\<forall>c \<in> set c1. fst c \<noteq> CStop" by (rule prepareStop_answer)
  then have "s1 \<noteq> t" using assms(2,3) by fastforce
  with assms(1) prep obtain st where st: "q = Inr st" "doStopAfterPrepare d st s1 = (r, t)" "st \<notin> {STOPPED, CHECKPOINT_FAILED}"
    by (auto simp: doStop_def doStopAfterPrepare_def run_simps split: sum.splits if_splits)
  obtain p s0 where enter: "prepareStopEnter d s = (p, s0)" by fastforce
  have "p = Inr None" using prep st(1,3) enter
    by (auto simp: doPrepareStop_def prepareStopEnter_def run_simps split: sum.splits option.splits prod.splits if_splits)
  with prep enter st(1) obtain s2 where drained: "drain d es s0 = Some s2" and fin: "prepareStopFinish d s2 = (Inr st, s1)"
    by (auto simp: doPrepareStop_def split: option.splits)
  have "keeps (same part) (prepareStopEnter d)" unfolding prepareStopEnter_def by (intro keeps_intros; simp)
  then have e0: "same part s s0" using enter by (rule keeps_run)
  have "keeps (same part) (doStopAfterPrepare d st)"
    unfolding doStopAfterPrepare_def by (intro keeps_intros collaborator_same stop_keeps; simp)
  then have e1: "same part s1 t" using st(2) by (rule keeps_run)
  note keep = e0 drain_same [OF drained] e1
  obtain ca where ca: "rt_calls s0 = rt_calls s @ ca" using adds_run [OF enter_quiet enter] by (auto simp: adds_def)
  obtain cb where cb: "rt_calls s2 = rt_calls s0 @ cb" using drain_quiet [OF drained] by (auto simp: adds_def)
  obtain cc where cc: "rt_calls s1 = rt_calls s2 @ cc" using adds_run [OF finish_no_stop fin] by (auto simp: adds_def)
  have "saved (part (wd (env s2))) (part (wd (env s1))) \<or> unrecorded cc" using fin st(3) cc by (intro finish_saves) auto
  then show ?thesis
  proof
    assume "saved (part (wd (env s2))) (part (wd (env s1)))"
    with keep show ?thesis by (simp add: same_def)
  next
    assume "unrecorded cc"
    moreover obtain cd where cd: "rt_calls t = rt_calls s1 @ cd" "\<forall>c \<in> set cd. \<forall>f r. fst c \<noteq> CApply f CHECKPOINT_FAILED r"
      using adds_run [OF after_prepare_calls st(2)] by (auto simp: adds_def)
    moreover have "cs = (ca @ cb) @ cc @ cd" using assms(2) ca cb cc cd by simp
    ultimately have "unrecorded cs" by (simp only: unrecorded_append unrecorded_prefix)
    then show ?thesis by blast
  qed
qed

end

end
