(* ===== verification/Wire_Stop.thy ===== *)
theory Wire_Stop
  imports Wire_Props Stop_Guard
begin

text \<open>
  A stop across the two programs: the control plane stops an instance only after the host behind it has saved the
  workspace. The contract of \<open>Stop_Guard\<close> is met by the handles of production over the wire of \<open>Agent_Host\<close>.
\<close>

section \<open>What the host did\<close>

definition host_calls :: "'x agent_host gateway \<Rightarrow> (call \<times> bool) list" where
  "host_calls g = rt_calls (ah_runtime (gw_host g))"

text \<open>
  Between two states of a host its runtime took a lifecycle checkpoint that returned, or it had none to take because
  the row it read said STOPPED, or the store did not take its \<open>CHECKPOINT_FAILED\<close>.
\<close>

definition host_saved :: "'x agent_host gateway \<Rightarrow> 'x agent_host gateway \<Rightarrow> bool" where
  "host_saved g g' \<longleftrightarrow> (\<exists>cs. host_calls g' = host_calls g @ cs
     \<and> (checkpointed cs \<or> unrecorded cs \<or> getState (ah_runtime (gw_host g')) = STOPPED))"

lemma set_host_db_calls [simp]: "rt_calls (ah_runtime (set_host_db d h)) = rt_calls (ah_runtime h)"
  by (simp add: set_host_db_def rt_calls_def)

lemma lease_check_calls:
  assumes "assertControllerLease (composeAgentHost D) g = (r, g')"
  shows "host_calls g' = host_calls g \<and> (\<forall>x. r = Inr (Some x) \<longrightarrow> rs_status x = 409)"
  using assms
  by (auto simp: assertControllerLease_def composeAgentHost_def run_simps on_host_def on_leases_def zoomC_def gw_json_def
      host_calls_def split: prod.splits sum.splits if_splits)

lemma prepareStop_state:
  assumes "doPrepareStop d es s = Some (Inr st, t)" "st \<noteq> CHECKPOINT_FAILED"
  obtains cs where "rt_calls t = rt_calls s @ cs" "checkpointed cs \<or> unrecorded cs \<or> getState t = STOPPED"
proof -
  obtain cs where cs: "rt_calls t = rt_calls s @ cs" "st = STOPPED \<or> checkpointed cs \<or> unrecorded cs"
    using assms by (auto elim!: prepareStop_answer)
  moreover have "getState t = st"
    using assms(1)
    by (auto simp: doPrepareStop_def prepareStopEnter_def prepareStopFinish_def run_simps reloadState_def onMachine_def
        machine_reload_def getState_def Let_def split: prod.splits sum.splits option.splits if_splits)
  ultimately show ?thesis by (intro that [of cs]) auto
qed

lemma prepareStop_route_saves:
  assumes "prepareStop_route (composeAgentHost D) w u g = (Inr (Some x), g')" "ok_status (rs_status x)"
  shows "host_saved g g'"
proof -
  obtain q h where host: "host_prepareStop D (gw_host g) = (q, h)" by fastforce
  then have run: "on_host (gd_prepareStop (composeAgentHost D)) g = (q, g\<lparr>gw_host := h\<rparr>)"
    by (simp add: on_host_def composeAgentHost_def zoomC_def split: sum.split)
  have "\<exists>st. q = Inr (Some st) \<and> st \<noteq> CHECKPOINT_FAILED \<and> gw_host g' = h"
    using assms run
    by (auto simp: prepareStop_route_def run_simps gw_json_def gw_logs_def ok_status_def Let_def
        split: sum.splits option.splits if_splits gateway_error.splits thrown.splits err_kind.splits)
  then obtain st where st: "q = Inr (Some st)" "st \<noteq> CHECKPOINT_FAILED" "gw_host g' = h" by blast
  with host obtain r where r: "doPrepareStop (ho_runtime D) (ho_tasks D (gw_host g)) (ah_runtime (gw_host g)) = Some (Inr st, r)"
      "h = (gw_host g)\<lparr>ah_runtime := r\<rparr>"
    by (auto simp: host_prepareStop_def split: option.splits prod.splits sum.splits)
  from r(1) st(2) obtain cs where "rt_calls r = rt_calls (ah_runtime (gw_host g)) @ cs"
      "checkpointed cs \<or> unrecorded cs \<or> getState r = STOPPED"
    by (rule prepareStop_state)
  with st(3) r(2) show ?thesis by (auto simp: host_saved_def host_calls_def)
qed

lemma gateway_prepare_saves:
  assumes "gateway_handle (composeAgentHost D) eid rq g = (Some y, g')" "ok_status (rs_status y)"
    and rq: "rq_path rq = workspace_path w ''prepare-stop''" "rq_method rq = ''POST''" "plain_id w"
  shows "host_saved g g'"
proof -
  have route: "gateway_route (composeAgentHost D) eid rq g = (Inr (Some y), g')"
    using assms(1,2) by (auto simp: gateway_handle_def gw_json_def ok_status_def split: prod.splits sum.splits)
  have re: "GATEWAY_ROUTE_RE (rq_path rq) = Some (w, None, ''prepare-stop'')"
    unfolding rq(1) using rq(3) by (intro workspace_route) (simp_all add: gateway_actions_def)
  then have "rq_path rq \<noteq> AGENT_HOST_HEALTH_PATH" by (auto simp: AGENT_HOST_HEALTH_PATH_def GATEWAY_ROUTE_RE_def)
  note here = this re rq(2)
  obtain b t1 where lease: "assertControllerLease (composeAgentHost D) g = (b, t1)" by fastforce
  obtain u where u: "caller rq = Some u" "w = gd_workspaceId (composeAgentHost D)"
    using route here assms(2) by (auto simp: gateway_route_def run_simps gw_json_def ok_status_def split: option.splits if_splits)
  have "b = Inr None"
    using route here u lease lease_check_calls [OF lease] assms(2)
    by (auto simp: gateway_route_def run_simps ok_status_def split: sum.splits option.splits)
  with route here u lease have "prepareStop_route (composeAgentHost D) w u t1 = (Inr (Some y), g')"
    by (simp add: gateway_route_def run_simps post_action_def)
  with assms(2) have "host_saved t1 g'" by (intro prepareStop_route_saves)
  with lease_check_calls [OF lease] show ?thesis by (simp add: host_saved_def)
qed

section \<open>What a forward that returns says about the host\<close>

lemma forward_saves:
  assumes "forwardPrepareStop (wire_forwarder N tokens ms) u w who o' = (Inr x, p)" "host_base u = nw_url N" "plain_id w"
  shows "host_saved (wr_gateway (out_net o')) (wr_gateway (out_net p))"
proof -
  let ?v = "JObj [(''workspaceId'', JStr w)]" and ?path = "workspace_path w ''prepare-stop''"
  let ?rq = "\<lambda>t. host_request (nw_url N) ?path ?v who t"
  obtain res where post: "postToHost (wire_forwarder N tokens ms) u ?path ?v who False o' = (Inr res, p)"
    using assms(1) unfolding forwardPrepareStop_def
    by (elim bind_cases) (auto simp: run_simps split: option.splits if_splits)
  from post_run [OF post assms(2)] obtain o1 t where f: "wire_fetch N (?rq t) o1 = (Inr res, p)"
      "wr_gateway (out_net o1) = wr_gateway (out_net o')" and ok: "ok_status (an_status res)"
    using classify_ok by fastforce
  from fetch_run [OF f(1) request_url(1)] ok obtain o2 y where
      h: "host_serves N (received (nw_url N) (?rq t)) o2 = (Some y, p)" and o2: "wr_gateway (out_net o2) = wr_gateway (out_net o1)"
      and y: "res = answered y"
    by auto
  from h obtain g where g: "gateway_handle (composeAgentHost (nw_host N)) (nw_errorId N (wr_rest (out_net o2)))
      (received (nw_url N) (?rq t)) ((wr_gateway (out_net o2))\<lparr>gw_host := set_host_db (out_db o2) (gw_host (wr_gateway (out_net o2)))\<rparr>) = (Some y, g)"
      "wr_gateway (out_net p) = g" by (rule serves_run)
  have "host_saved ((wr_gateway (out_net o2))\<lparr>gw_host := set_host_db (out_db o2) (gw_host (wr_gateway (out_net o2)))\<rparr>) g"
    using g(1) by (rule gateway_prepare_saves) (use ok y assms(3) in \<open>simp_all add: request_url(2) answered_def\<close>)
  with g(2) o2 f(2) show ?thesis by (simp add: host_saved_def host_calls_def)
qed


section \<open>The handle of the control plane\<close>

text \<open>Options whose transport is the business of the rest and whose forwarder goes over the wire.\<close>

definition wire_options ::
  "('x, 'r) Network \<Rightarrow> 'r transport \<Rightarrow> (string \<Rightarrow> ('r, string, string) comp) \<Rightarrow> nat
   \<Rightarrow> ('x, 'r) wire ProductionRuntimeOptions \<Rightarrow> ('x, 'r) wire ProductionRuntimeOptions" where
  "wire_options N T tokens ms opts =
     opts\<lparr>po_transport := (\<lambda>rq. on_rest (T rq)), po_forwarder := Some (wire_forwarder N tokens ms)\<rparr>"

definition wire_client :: "'r transport \<Rightarrow> ('x, 'r) wire client \<Rightarrow> ('x, 'r) wire client" where
  "wire_client T c = c\<lparr>ci_transport := (\<lambda>rq. on_rest (T rq))\<rparr>"

lemma createHandle_wire:
  assumes "createHandle (wire_options N T tokens ms opts) w ctl uuid out = Inr (h, s)"
  shows "hp_opts h = wire_options N T tokens ms opts \<and> hp_workspace h = w \<and> wire_client T (hp_client h) = hp_client h"
  using assms
  by (auto simp: createHandle_def instance_client_def newCloudRunInstanceClient_def wire_options_def wire_client_def Let_def
      split: sum.splits if_splits option.splits)

text \<open>The gateway of the host, seen from the world of a handle.\<close>

definition far_gateway :: "('x, 'r) wire handle_world \<Rightarrow> 'x agent_host gateway" where
  "far_gateway x = wr_gateway (out_net (hw_out x))"

definition far_same :: "('x, 'r) wire handle_world \<Rightarrow> ('x, 'r) wire handle_world \<Rightarrow> bool" where
  "far_same x y \<longleftrightarrow> far_gateway y = far_gateway x"

lemma far_same_order [simp]: "reflp far_same" "transp far_same"
  by (auto simp: far_same_def reflp_def transp_def)

lemma db_far [keeps_intros]: "keeps far_same (on_db f m)"
  by (rule keepsI) (auto simp: far_same_def far_gateway_def on_db_def on_out_def zoomC_def split: prod.splits sum.splits)

lemma try_far [keeps_intros]: "keeps far_same m \<Longrightarrow> keeps far_same (tryC m)"
  by (auto simp: keeps_def tryC_def split: prod.splits) (metis snd_conv)

lemma far_run: "keeps far_same m \<Longrightarrow> m x = (r, y) \<Longrightarrow> far_gateway y = far_gateway x"
  using keeps_run [of far_same] by (fastforce simp: far_same_def)

definition near :: "('x, 'r) wire outside \<Rightarrow> ('x, 'r) wire outside \<Rightarrow> bool" where
  "near o' p \<longleftrightarrow> wr_gateway (out_net p) = wr_gateway (out_net o')"

lemma near_order [simp]: "reflp near" "transp near"
  by (auto simp: near_def reflp_def transp_def)

lemma out_far [keeps_intros]: "keeps near m \<Longrightarrow> keeps far_same (on_out f m)"
  by (auto simp: keeps_def near_def far_same_def far_gateway_def on_out_def zoomC_def split: prod.splits sum.splits) (metis snd_conv)+

lemma send_near [keeps_intros]: "keeps near (Instance_Client.send (wire_client T c) rq)"
  by (rule keepsI) (auto simp: near_def Instance_Client.send_def wire_client_def on_rest_def zoomC_def split: prod.splits sum.splits)

lemma lift_keeps [keeps_intros]: "reflp R \<Longrightarrow> keeps R (liftE r)"
  by (cases r) (simp_all add: liftE_def keeps_ret keeps_throw)

lemma client_near [keeps_intros]:
  "keeps near (client_get (wire_client T c) name)" "keeps near (client_start (wire_client T c) name)"
  "keeps near (client_stop (wire_client T c) name)" "keeps near (client_create (wire_client T c) i n v)"
  unfolding client_get_def client_start_def client_stop_def client_create_def call_instance_def Let_def
  by (intro keeps_intros; simp)+

lemma stop_far: "keeps far_same (ensureCreated_stop (wire_client T c) name)"
  unfolding ensureCreated_stop_def absent_is_done_def
  by (rule keeps_bind) (auto intro!: keeps_intros split: sum.split instance_error.split)

section \<open>What the checkpoint step of the control plane achieves\<close>

text \<open>The Instances API answers with a URL of the host.\<close>

definition knows_host :: "('x, 'r) Network \<Rightarrow> ('x, 'r) wire client \<Rightarrow> string \<Rightarrow> bool" where
  "knows_host N c name \<longleftrightarrow> (\<forall>o'. \<exists>info u. fst (client_get c name o') = Inr info
     \<and> ii_url info = Some u \<and> u \<noteq> [] \<and> host_base u = nw_url N)"

lemma save_far: "keeps far_same (save_url w u)"
  unfolding save_url_def by (intro keeps_intros; simp)

lemma url_found:
  assumes "instanceUrlProvider (wire_client T c) w name s = (r, t)" "knows_host N (wire_client T c) name"
  shows "\<exists>u. r = Inr (Some u) \<and> u \<noteq> [] \<and> host_base u = nw_url N \<and> far_same s t"
proof -
  obtain q o2 where get: "client_get (wire_client T c) name (hw_out s) = (q, o2)" by fastforce
  with assms(2) obtain info u where u: "q = Inr info" "ii_url info = Some u" "u \<noteq> []" "host_base u = nw_url N"
    unfolding knows_host_def by (metis fst_conv)
  have near: "near (hw_out s) o2" using client_near(1) get by (rule keeps_run)
  let ?s = "s\<lparr>hw_out := o2\<rparr>"
  have asked: "on_out id (client_get (wire_client T c) name) s = (Inr info, ?s)" using get u(1) by (simp add: on_out_def zoomC_def)
  have far: "far_same s ?s" using near by (simp add: near_def far_same_def far_gateway_def)
  show ?thesis
  proof (cases "hw_url s = Some u")
    case True
    with assms(1) asked u far show ?thesis by (auto simp: instanceUrlProvider_def run_simps nonempty_def)
  next
    case False
    let ?s' = "?s\<lparr>hw_url := Some u\<rparr>"
    obtain v s2 where save: "save_url (w_id w) (Some u) ?s' = (v, s2)" by fastforce
    have "far_same ?s' s2" using save_far save by (rule keeps_run)
    moreover have "hw_url s2 = Some u"
      using save by (auto simp: save_url_def on_db_def on_out_def zoomC_def run_simps split: prod.splits sum.splits)
    ultimately show ?thesis using assms(1) asked u far save False
      by (cases v) (auto simp: instanceUrlProvider_def run_simps nonempty_def stored_url_def far_same_def far_gateway_def)
  qed
qed

lemma remote_prepare_saves:
  assumes "runRemotePrepareStop (wire_client T c) (Some (wire_forwarder N tokens ms)) w name s = (Inr (), t)"
    and "knows_host N (wire_client T c) name" "plain_id (w_id w)"
  shows "host_saved (far_gateway s) (far_gateway t)"
proof -
  obtain r :: "factory_error + string option" and s1 where url: "instanceUrlProvider (wire_client T c) w name s = (r, s1)"
    by fastforce
  from url_found [OF url assms(2)] obtain u where u: "r = Inr (Some u)" "u \<noteq> []" "host_base u = nw_url N" "far_same s s1"
    by blast
  with assms(1) url obtain who x o2 where f: "forwardPrepareStop (wire_forwarder N tokens ms) u (w_id w) who (hw_out s1) = (Inr x, o2)"
      "hw_out t = o2"
    by (auto simp: runRemotePrepareStop_def run_simps nonempty_def on_out_def zoomC_def split: option.splits prod.splits sum.splits)
  from forward_saves [OF f(1) u(3) assms(3)] f(2) u(4) show ?thesis by (simp add: far_gateway_def far_same_def)
qed

definition stop_saved :: "('x, 'r) Network \<Rightarrow> ('x, 'r) wire client \<Rightarrow> Workspace \<Rightarrow> 'x agent_host gateway \<Rightarrow> 'x agent_host gateway \<Rightarrow> bool" where
  "stop_saved N c w g g' \<longleftrightarrow> (knows_host N c (defaultInstanceName w) \<and> plain_id (w_id w) \<longrightarrow> host_saved g g')"

interpretation production_guard:
  step_guard "production_deps (wire_options N T tokens ms opts) (wire_client T c) w" far_gateway "stop_saved N (wire_client T c) w"
proof
  let ?d = "production_deps (wire_options N T tokens ms opts) (wire_client T c) w"
  fix i f u reason z and x y :: "('a, 'b) wire handle_world" and q :: "thrown + runtime_state option" and a b e :: "thrown + unit"
  show "d_load ?d i x = (q, y) \<Longrightarrow> far_gateway y = far_gateway x"
    by (rule far_run [OF db_far]) (simp add: production_deps_def)
  show "d_apply ?d i f u reason x = (a, y) \<Longrightarrow> far_gateway y = far_gateway x"
    by (rule far_run [OF db_far]) (simp add: production_deps_def)
  have throws: "keeps far_same m \<Longrightarrow> keeps far_same (throws m)" for m :: "(('a, 'b) wire handle_world, factory_error, unit) comp"
    by (auto simp: keeps_def throws_def zoomC_def split: prod.splits sum.splits) (metis snd_conv)+
  show "d_instanceStop ?d x = (b, y) \<Longrightarrow> far_gateway y = far_gateway x"
    by (rule far_run [OF throws [OF stop_far]]) (simp add: production_deps_def)
  show "z \<noteq> runLifecycleCheckpoint \<Longrightarrow> d_step ?d z x = (e, y) \<Longrightarrow> far_gateway y = far_gateway x"
    by (simp add: production_deps_def production_step_def throws_def zoomC_def ret_def)
  show "d_step ?d runLifecycleCheckpoint x = (Inr (), y) \<Longrightarrow> stop_saved N (wire_client T c) w (far_gateway x) (far_gateway y)"
    by (auto simp: stop_saved_def production_deps_def production_step_def wire_options_def throws_def zoomC_def
        split: prod.splits sum.splits intro: remote_prepare_saves)
qed


text \<open>A stop over the sample network, whose Instances API answers every call.\<close>

definition sample_api :: "unit transport" where
  "sample_api rq = ret \<lparr>hp_status = 200, hp_body = Some (if InstanceRequest.hq_method rq = ''GET''
     then JObj [(''name'', JStr ''dsh-w''), (''url'', JStr ''https://i/'')] else JObj [])\<rparr>"

definition sample_options :: "(unit, unit) wire ProductionRuntimeOptions" where
  "sample_options = wire_options sample_network sample_api (\<lambda>_. ret ''t'') 10000
     \<lparr>po_config = sample_config\<lparr>cc_agentHostDatabaseUrl := ''postgresql://u:p@/d?host=/cloudsql/c''\<rparr>,
      po_transport = (\<lambda>rq. throwC []), po_put = (\<lambda>_ _. ret ()), po_forwarder = None, po_now = (\<lambda>_. 0),
      po_urlProtocol = (\<lambda>_. Some ''https:'')\<rparr>"

definition sample_handle :: "(unit, unit) wire handle_parts \<times> (unit, unit) wire handle_world runtime" where
  "sample_handle = projr (createHandle sample_options sample_workspace None ''c1'' (sample_outside READY))"

definition sample_stop :: "(thrown + runtime_state) \<times> (unit, unit) wire handle_world runtime" where
  "sample_stop = the (adapter_stop (fst sample_handle) [] (Some (''u1'', ''l'')) (snd sample_handle))"


lemma sample_created: "createHandle sample_options sample_workspace None ''c1'' (sample_outside READY) = Inr sample_handle"
proof -
  have "\<not> isl (createHandle sample_options sample_workspace None ''c1'' (sample_outside READY))" by code_simp
  then show ?thesis by (simp add: sample_handle_def)
qed

lemma sample_stopped: "adapter_stop (fst sample_handle) [] (Some (''u1'', ''l'')) (snd sample_handle) = Some sample_stop"
proof -
  have "\<not> Option.is_none (adapter_stop (fst sample_handle) [] (Some (''u1'', ''l'')) (snd sample_handle))" by code_simp
  then show ?thesis by (simp add: sample_stop_def Option.is_none_def)
qed

lemma sample_begins: "rt_calls (snd sample_handle) = []" "plain_id (w_id sample_workspace)"
  by code_simp+

lemma sample_stops: "(CStop, True) \<in> set (rt_calls (snd sample_stop))"
  by code_simp

lemma sample_recorded: "list_all (\<lambda>c. c \<noteq> (CStep runLifecycleCheckpoint, False)) (rt_calls (snd sample_stop))"
  by code_simp

lemma sample_answer: "fst sample_stop = Inr STOPPED"
  by code_simp

lemma sample_known: "knows_host sample_network (wire_client sample_api c) name"
proof -
  have "host_base ''https://i/'' = nw_url sample_network" by code_simp
  then show ?thesis
    by (simp add: knows_host_def client_get_def call_instance_def Instance_Client.send_def wire_client_def on_rest_def zoomC_def
        sample_api_def run_simps handleErrorStatus_def parseInstanceInfo_def Let_def)
qed


end
