(* ===== verification/Observability.thy ===== *)
theory Observability
  imports Restore_Error Json_Show Iso_Date
begin

text \<open>
  Structured logging (\<open>packages/observability/src/index.ts\<close>): the redactor every log value passes, and the line a
  logger writes. Text is ASCII, so that offsets and lengths are the same in bytes and in UTF-16 units.
\<close>

section \<open>The patterns\<close>

definition REDACTED :: string where
  "REDACTED = ''[REDACTED]''"

definition log_pem_re :: rx where
  "log_pem_re = Cat (lit ''-----BEGIN '') (Cat (Opt (lit ''RSA '')) (Cat (lit ''PRIVATE KEY-----'') (Cat (Lazy (Cls (\<lambda>_. True)))
     (Cat (lit ''-----END '') (Cat (Opt (lit ''RSA '')) (lit ''PRIVATE KEY-----''))))))"

definition outside_quotes :: "char \<Rightarrow> bool" where
  "outside_quotes c \<longleftrightarrow> \<not> is_space c \<and> c \<notin> {double_quote, single_quote}"

definition LOG_SECRET_PATTERNS :: "rx list" where
  "LOG_SECRET_PATTERNS =
     [Cat (lit ''ghs_'') (at_least 20 (Cls word_char)), Cat (lit ''ghu_'') (at_least 20 (Cls word_char)),
      Cat (lit ''github_pat_'') (at_least 20 (Cls word_char)), Cat (lit ''ghp_'') (at_least 20 (Cls alnum)),
      api_key_re, bearer_re, Cat (lit_i ''x-access-token:'') (Plus (Cls (\<lambda>c. \<not> is_space c))), log_pem_re,
      Cat (lit_i ''postgres'') (Cat (Opt (lit_i ''ql'')) (Cat (lit ''://'') (Plus (Cls outside_quotes)))),
      Cat (lit_i ''mysql://'') (Plus (Cls outside_quotes))]"

definition log_secret_name_re :: rx where
  "log_secret_name_re = one_of
     [Cat (lit_i ''api'') (Cat dash_or_underscore (lit_i ''key'')), lit_i ''secret'', lit_i ''token'',
      Cat (lit_i ''private'') (Cat dash_or_underscore (lit_i ''key'')), lit_i ''password'', lit_i ''passwd'']"

definition LOG_ASSIGNMENT_RE :: rx where
  "LOG_ASSIGNMENT_RE = Cat (Grp 1 quote_re) (Cat (Grp 2 log_secret_name_re) (Cat (Grp 3 quote_re)
     (Cat (Grp 4 (Cat (Star (Cls is_space)) (Cat (Cls (\<lambda>c. c = CHR '':'' \<or> c = CHR ''='')) (Star (Cls is_space)))))
     (Cat (Grp 5 quote_re) (Plus (Cls (\<lambda>c. unquoted_char c \<and> c \<notin> set ''{},;]'')))))))"

definition token_char :: "char \<Rightarrow> bool" where
  "token_char c \<longleftrightarrow> word_char c \<or> c = CHR ''-''"

definition HIGH_ENTROPY_TOKEN_RE :: rx where
  "HIGH_ENTROPY_TOKEN_RE = at_least 20 (Cls token_char)"

definition lower_letter :: "char \<Rightarrow> bool" where
  "lower_letter c \<longleftrightarrow> in_range 0x61 0x7A c"

definition upper_letter :: "char \<Rightarrow> bool" where
  "upper_letter c \<longleftrightarrow> in_range 0x41 0x5A c"

definition lower_or_digit :: "char \<Rightarrow> bool" where
  "lower_or_digit c \<longleftrightarrow> lower_letter c \<or> is_digit c"

definition hex_letter :: "char \<Rightarrow> bool" where
  "hex_letter c \<longleftrightarrow> is_digit c \<or> in_range 0x61 0x66 c \<or> in_range 0x41 0x46 c"

definition STRICT_PASCAL_CASE_RE :: rx where
  "STRICT_PASCAL_CASE_RE = Cat (Cls upper_letter) (Cat (Plus (Cls lower_letter)) (Plus (Cat (Cls upper_letter) (Plus (Cls lower_or_digit)))))"

definition SNAKE_CASE_RE :: rx where
  "SNAKE_CASE_RE = Cat (Cls lower_letter) (Cat (Star (Cls lower_or_digit)) (Plus (Cat (chr (CHR ''_'')) (Plus (Cls lower_or_digit)))))"

definition COMMIT_SHA_RE :: rx where
  "COMMIT_SHA_RE = Alt (times_rx 40 (Cls hex_letter)) (times_rx 64 (Cls hex_letter))"

definition UUID_SHAPE :: rx where
  "UUID_SHAPE = Cat (times_rx 8 (Cls hex_letter)) (Cat (chr (CHR ''-'')) (Cat (times_rx 4 (Cls hex_letter)) (Cat (chr (CHR ''-''))
     (Cat (Cls (\<lambda>c. in_range 0x31 0x38 c)) (Cat (times_rx 3 (Cls hex_letter)) (Cat (chr (CHR ''-''))
     (Cat (Cls (\<lambda>c. c \<in> set ''89abAB'')) (Cat (times_rx 3 (Cls hex_letter)) (Cat (chr (CHR ''-'')) (times_rx 12 (Cls hex_letter)))))))))))"

definition UUID_FIND_RE :: rx where
  "UUID_FIND_RE = Cat (NotAfter hex_letter) (Cat UUID_SHAPE (NotBefore hex_letter))"

definition SHA_CONTEXT_RADIUS :: nat where
  "SHA_CONTEXT_RADIUS = 40"

definition SHA_CONTEXT_RE :: rx where
  "SHA_CONTEXT_RE = Cat Bnd (Cat (one_of (map lit_i [''commit'', ''sha'', ''revision'', ''digest'', ''checksum'', ''hash''])) Bnd)"

section \<open>Entropy\<close>

text \<open>\<open>shannonEntropy(s) > 3.0\<close>, compared without logarithms.\<close>

definition entropy_above_3 :: "string \<Rightarrow> bool" where
  "entropy_above_3 s \<longleftrightarrow>
     8 ^ length s * prod_list (map (\<lambda>c. int (count_list s c) ^ count_list s c) (remdups s)) < int (length s) ^ length s"

definition isHighEntropyToken :: "string \<Rightarrow> bool" where
  "isHighEntropyToken token \<longleftrightarrow>
     (if length token < 20 then False
      else if rx_whole STRICT_PASCAL_CASE_RE token then False
      else if rx_whole SNAKE_CASE_RE token then False
      else if length (filter (\<lambda>P. list_ex P token) [lower_letter, upper_letter, is_digit]) < 2 then False
      else entropy_above_3 token)"

section \<open>Redaction\<close>

definition redact_token :: "string \<Rightarrow> nat \<Rightarrow> string \<Rightarrow> string" where
  "redact_token full offset m =
     (let remainder = replace_all UUID_FIND_RE (\<lambda>_. []) m;
          begins = offset - SHA_CONTEXT_RADIUS;
          ends = min (length full) (offset + length m + SHA_CONTEXT_RADIUS) in
      if rx_whole UUID_SHAPE m then m
      else if length m > 36 \<and> remainder \<noteq> m \<and> \<not> isHighEntropyToken remainder then m
      else if rx_whole COMMIT_SHA_RE m \<and> rx_test SHA_CONTEXT_RE [] (drop begins (take ends full)) then m
      else if isHighEntropyToken m then REDACTED else m)"

definition redactString :: "string \<Rightarrow> string" where
  "redactString input =
     (let marked = fold (\<lambda>re t. replace_all re (\<lambda>_. REDACTED) t) LOG_SECRET_PATTERNS input;
          assigned = replace_all LOG_ASSIGNMENT_RE (\<lambda>k. k 1 @ k 2 @ k 3 @ k 4 @ k 5 @ REDACTED) marked in
      replace_at HIGH_ENTROPY_TOKEN_RE (redact_token assigned) (Suc (length assigned)) [] assigned)"

text \<open>The words of a key: cut at separators and before a capital that follows a small letter or a digit.\<close>

definition key_separator :: "char \<Rightarrow> bool" where
  "key_separator c \<longleftrightarrow> c \<in> set ''_.-'' \<or> is_space c"

fun key_words :: "string \<Rightarrow> string list" where
  "key_words [] = [[]]"
| "key_words [c] = (if key_separator c then [[], []] else [[c]])"
| "key_words (c # x # s) =
     (let ws = key_words (x # s) in
      if key_separator c then (if key_separator x then ws else [] # ws)
      else if lower_or_digit c \<and> upper_letter x then [c] # ws
      else (c # hd ws) # tl ws)"

definition secret_words :: "string list" where
  "secret_words = [''token'', ''private_key'', ''privatekey'', ''secret'', ''password'', ''passwd'', ''authorization'', ''cookie'',
     ''credential'', ''api_key'', ''apikey'', ''api-key'', ''access_key'', ''accesskey'', ''access-key'', ''connection_string'',
     ''database_url'', ''bearer'']"

definition isProbablySecretKey :: "string \<Rightarrow> bool" where
  "isProbablySecretKey key \<longleftrightarrow>
     list_ex (\<lambda>w. contains w (lower key)) secret_words
     \<or> list_ex (\<lambda>w. lower w \<in> set [''key'', ''keys'', ''pwd'', ''pw'']) (key_words key)"

fun redactValue :: "json \<Rightarrow> json" where
  "redactValue (JStr s) = JStr (redactString s)"
| "redactValue (JArr vs) = JArr (map redactValue vs)"
| "redactValue (JObj fs) = JObj (map (\<lambda>(k, v). (k, if isProbablySecretKey k then JStr REDACTED else redactValue v)) fs)"
| "redactValue v = v"

section \<open>The logger\<close>

text \<open>The fields of a line; \<open>None\<close> is \<open>undefined\<close>, which \<open>JSON.stringify\<close> leaves out.\<close>

type_synonym LogFields = "(string \<times> json option) list"

definition redactLogFields :: "LogFields \<Rightarrow> LogFields" where
  "redactLogFields fs = map (\<lambda>(k, v). (k, if isProbablySecretKey k then Some (JStr REDACTED) else map_option redactValue v)) fs"

definition spread :: "LogFields \<Rightarrow> LogFields \<Rightarrow> LogFields" where
  "spread base over = fold (\<lambda>(k, v) fs. AList.update k v fs) over base"

definition forbiddenKeys :: "string list" where
  "forbiddenKeys = [''argv'', ''args'', ''command'', ''commandLine'', ''env'', ''environment'', ''fullCommand'']"

definition with_argv0 :: "json list \<Rightarrow> LogFields \<Rightarrow> LogFields" where
  "with_argv0 arr fs = AList.update ''argv0''
     (case map_of fs ''argv0'' of Some (Some v) \<Rightarrow> if v = JNull then (case arr of [] \<Rightarrow> None | a # _ \<Rightarrow> Some a) else Some v
      | _ \<Rightarrow> (case arr of [] \<Rightarrow> None | a # _ \<Rightarrow> Some a)) fs"

definition with_count :: "json list \<Rightarrow> LogFields \<Rightarrow> LogFields" where
  "with_count arr fs = AList.update ''argCount'' (Some (JNum (int (length arr)))) fs"

definition strip_key :: "string \<Rightarrow> LogFields \<Rightarrow> LogFields" where
  "strip_key k fs =
     (case map_of fs k of
        None \<Rightarrow> fs
      | Some v \<Rightarrow> AList.delete k
          (case v of
             Some (JArr arr) \<Rightarrow> if k = ''argv'' then with_count arr (with_argv0 arr fs) else if k = ''args'' then with_count arr fs else fs
           | _ \<Rightarrow> fs))"

definition sanitizeFieldsForLogging :: "LogFields \<Rightarrow> LogFields" where
  "sanitizeFieldsForLogging fs = fold strip_key forbiddenKeys fs"

definition log_emit :: "LogFields \<Rightarrow> int \<Rightarrow> LogFields \<Rightarrow> string" where
  "log_emit defaults now given =
     (let redacted = redactLogFields (spread defaults (sanitizeFieldsForLogging given)) in
      json_show (JObj (List.map_filter (\<lambda>(k, v). map_option (Pair k) v)
        (spread [(''timestamp'', Some (JStr (iso_string now)))] redacted))))"

definition log_info :: "LogFields \<Rightarrow> int \<Rightarrow> string \<Rightarrow> LogFields \<Rightarrow> string" where
  "log_info defaults now event given =
     log_emit defaults now (spread given [(''severity'', Some (JStr ''INFO'')), (''event'', Some (JStr event))])"

end
