(* ===== verification/Observability_Props.thy ===== *)
theory Observability_Props
  imports Observability Complex_Main
begin

text \<open>
  What a log line can tell: nothing that stands under a key that names a secret, no command line and no environment.
  And the entropy test of the redactor is the one of the source.
\<close>

section \<open>The entropy test\<close>

definition shannonEntropy :: "string \<Rightarrow> real" where
  "shannonEntropy s = - (\<Sum>c\<in>set s. count_list s c / length s * log 2 (count_list s c / length s))"

lemma log2_prod: "finite A \<Longrightarrow> (\<And>x. x \<in> A \<Longrightarrow> 0 < f x) \<Longrightarrow> log 2 (\<Prod>x\<in>A. f x) = (\<Sum>x\<in>A. log 2 (f x))" for f :: "'a \<Rightarrow> real"
proof (induction A rule: finite_induct)
  case (insert x A)
  then have "0 < (\<Prod>x\<in>A. f x)" "0 < f x" by (auto intro: prod_pos)
  then have "log 2 (f x * (\<Prod>x\<in>A. f x)) = log 2 (f x) + log 2 (\<Prod>x\<in>A. f x)" by (simp only: log_mult_pos)
  with insert show ?case by simp
qed simp

theorem entropy_exact:
  assumes "s \<noteq> []"
  shows "entropy_above_3 s \<longleftrightarrow> shannonEntropy s > 3"
proof -
  let ?n = "real (length s)" and ?c = "\<lambda>c. real (count_list s c)"
  let ?P = "\<Prod>c\<in>set s. ?c c ^ count_list s c"
  have n: "0 < ?n" using assms by simp
  have pos: "0 < ?c c" if "c \<in> set s" for c using that by (metis count_list_0_iff neq0_conv of_nat_0_less_iff)
  then have P: "0 < ?P" by (intro prod_pos) simp
  have logP: "log 2 ?P = (\<Sum>c\<in>set s. ?c c * log 2 (?c c))"
    using pos by (subst log2_prod) (simp_all add: log_nat_power)
  have all: "(\<Sum>c\<in>set s. ?c c) = ?n" by (metis of_nat_sum sum_count_set finite_set subset_refl)
  have "(\<Sum>c\<in>set s. ?c c / ?n * log 2 (?c c / ?n)) = (\<Sum>c\<in>set s. ?c c * log 2 (?c c) / ?n - ?c c * (log 2 ?n / ?n))"
    using pos n by (intro sum.cong) (simp_all add: log_divide right_diff_distrib)
  also have "\<dots> = log 2 ?P / ?n - ?n * (log 2 ?n / ?n)"
    by (simp only: sum_subtractf logP all sum_divide_distrib flip: sum_distrib_right)
  finally have e: "shannonEntropy s = log 2 ?n - log 2 ?P / ?n" using n by (simp add: shannonEntropy_def)
  have "entropy_above_3 s \<longleftrightarrow> real_of_int (8 ^ length s * (\<Prod>c\<in>set s. int (count_list s c) ^ count_list s c))
      < real_of_int (int (length s) ^ length s)"
    by (simp only: entropy_above_3_def of_int_less_iff distinct_remdups set_remdups flip: prod.distinct_set_conv_list)
  also have "\<dots> \<longleftrightarrow> 8 ^ length s * ?P < ?n ^ length s" by simp
  also have "\<dots> \<longleftrightarrow> log 2 (8 ^ length s * ?P) < log 2 (?n ^ length s)" using n P by simp
  also have "\<dots> \<longleftrightarrow> ?n * 3 + log 2 ?P < ?n * log 2 ?n"
  proof -
    have "log 2 (8::real) = 3" using log_pow_cancel [of 2 3] by simp
    moreover have "log 2 (8 ^ length s * ?P) = ?n * log 2 8 + log 2 ?P"
      using P by (subst log_mult_pos) (simp_all only: log_nat_power zero_less_power zero_less_numeral)
    moreover have "log 2 (?n ^ length s) = ?n * log 2 ?n" using n by (simp only: log_nat_power)
    ultimately show ?thesis by simp
  qed
  also have "\<dots> \<longleftrightarrow> shannonEntropy s > 3" unfolding e using n by (simp add: field_simps)
  finally show ?thesis .
qed

section \<open>What a line hides\<close>

text \<open>Two values that differ only under keys that name a secret.\<close>

inductive alike :: "json \<Rightarrow> json \<Rightarrow> bool" where
  alike_same: "alike v v"
| alike_array: "list_all2 alike vs ws \<Longrightarrow> alike (JArr vs) (JArr ws)"
| alike_object: "list_all2 (\<lambda>p q. fst p = fst q \<and> (isProbablySecretKey (fst p) \<or> alike (snd p) (snd q))) fs gs
    \<Longrightarrow> alike (JObj fs) (JObj gs)"

inductive_cases alike_arrayE: "alike (JArr vs) w" "alike v (JArr ws)"

lemma alike_redacted: "alike v w \<Longrightarrow> redactValue v = redactValue w"
proof (induction rule: alike.induct)
  case (alike_array vs ws)
  then have "map redactValue vs = map redactValue ws" by (simp add: list_all2_conv_all_nth list_eq_iff_nth_eq)
  then show ?case by simp
next
  case (alike_object fs gs)
  then show ?case by (simp, induction rule: list_all2_induct) auto
qed simp

text \<open>
  Two fields that a line cannot tell apart while the keys in \<open>K\<close> are still to be stripped: of a command line the
  first word and the number of words remain, of the other stripped fields nothing.
\<close>

definition arrays :: "(json list \<Rightarrow> json list \<Rightarrow> bool) \<Rightarrow> json option \<Rightarrow> json option \<Rightarrow> bool" where
  "arrays R x y \<longleftrightarrow> (\<exists>vs ws. x = Some (JArr vs) \<and> y = Some (JArr ws) \<and> R vs ws)"

definition same_words :: "json list \<Rightarrow> json list \<Rightarrow> bool" where
  "same_words vs ws \<longleftrightarrow> length vs = length ws \<and> (vs = [] \<or> alike (hd vs) (hd ws))"

definition told_alike :: "string \<Rightarrow> json option \<Rightarrow> json option \<Rightarrow> bool" where
  "told_alike k x y \<longleftrightarrow>
     (if k = ''argv'' then arrays same_words x y
      else if k = ''args'' then arrays (\<lambda>vs ws. length vs = length ws) x y else True)"

definition hidden :: "string list \<Rightarrow> string \<times> json option \<Rightarrow> string \<times> json option \<Rightarrow> bool" where
  "hidden K p q \<longleftrightarrow> fst p = fst q
     \<and> (isProbablySecretKey (fst p) \<or> rel_option alike (snd p) (snd q) \<or> fst p \<in> set K \<and> told_alike (fst p) (snd p) (snd q))"

lemma option_alike [simp]: "rel_option alike x x"
  by (cases x) (simp_all add: alike_same)

lemma hidden_key: "hidden K p q \<Longrightarrow> fst p = fst q"
  by (simp add: hidden_def)

lemma hidden_pair: "rel_option alike x y \<Longrightarrow> hidden K (k, x) (k, y)"
  by (simp add: hidden_def)

text \<open>Association lists that are related entry by entry.\<close>

lemma related_update:
  assumes "list_all2 P fs gs" "\<And>p q. P p q \<Longrightarrow> fst p = fst q" "P (k, x) (k, y)"
  shows "list_all2 P (AList.update k x fs) (AList.update k y gs)"
  using assms(1) by (induction rule: list_all2_induct) (use assms(2,3) in force)+

lemma related_lookup:
  assumes "list_all2 P fs gs" "\<And>p q. P p q \<Longrightarrow> fst p = fst q"
  shows "rel_option (\<lambda>x y. P (k, x) (k, y)) (map_of fs k) (map_of gs k)"
  using assms(1) by (induction rule: list_all2_induct) (use assms(2) in force)+

lemma related_delete:
  assumes "list_all2 P fs gs" "\<And>p q. P p q \<Longrightarrow> fst p = fst q" "\<And>p q. P p q \<Longrightarrow> fst p \<noteq> k \<Longrightarrow> Q p q"
  shows "list_all2 Q (AList.delete k fs) (AList.delete k gs)"
  using assms(1) by (induction rule: list_all2_induct) (use assms(2,3) in force)+

lemma hidden_lookup: "list_all2 (hidden K) fs gs \<Longrightarrow> rel_option (\<lambda>x y. hidden K (k, x) (k, y)) (map_of fs k) (map_of gs k)"
  by (rule related_lookup) (auto dest: hidden_key)

lemma hidden_update:
  assumes "list_all2 (hidden K) fs gs" "rel_option alike x y"
  shows "list_all2 (hidden K) (AList.update k x fs) (AList.update k y gs)"
  using assms(1) by (rule related_update) (auto dest: hidden_key intro: hidden_pair assms(2))

lemma hidden_delete:
  assumes "list_all2 (hidden (k # K)) fs gs"
  shows "list_all2 (hidden K) (AList.delete k fs) (AList.delete k gs)"
  using assms by (rule related_delete) (auto simp: hidden_def)

lemma hidden_absent:
  assumes "list_all2 (hidden (k # K)) fs gs" "map_of fs k = None"
  shows "list_all2 (hidden K) fs gs"
proof -
  from hidden_lookup [OF assms(1), where k = k] assms(2) have "map_of gs k = None" by simp
  then have "AList.delete k gs = gs" "AList.delete k fs = fs" using assms(2) by (simp_all add: delete_id map_of_eq_None_iff)
  with hidden_delete [OF assms(1)] show ?thesis by (simp only:)
qed

lemma stripped_keys: "k \<in> set [''argv'', ''args'', ''argv0'', ''argCount''] \<Longrightarrow> \<not> isProbablySecretKey k"
  by (auto; code_simp)

lemma hidden_argv0:
  assumes "list_all2 (hidden K) fs gs" "same_words vs ws" "''argv0'' \<notin> set K"
  shows "list_all2 (hidden K) (with_argv0 vs fs) (with_argv0 ws gs)"
proof -
  have first: "rel_option alike (case vs of [] \<Rightarrow> None | a # _ \<Rightarrow> Some a) (case ws of [] \<Rightarrow> None | a # _ \<Rightarrow> Some a)"
    using assms(2) by (cases vs; cases ws) (auto simp: same_words_def)
  have "\<not> isProbablySecretKey ''argv0''" by (rule stripped_keys) simp
  with hidden_lookup [OF assms(1), where k = "''argv0''"] assms(3)
  have "rel_option (rel_option alike) (map_of fs ''argv0'') (map_of gs ''argv0'')"
    by (auto simp: hidden_def elim!: option.rel_mono_strong)
  moreover have null: "v = JNull \<longleftrightarrow> w = JNull" if "alike v w" for v w using that by (auto elim: alike.cases)
  ultimately show ?thesis unfolding with_argv0_def using first
    by (intro hidden_update [OF assms(1)]) (auto simp: option_rel_Some1 option_rel_Some2 dest: null split: option.split)
qed

lemma first_alike: "list_all2 alike vs ws \<Longrightarrow> vs \<noteq> [] \<Longrightarrow> alike (hd vs) (hd ws)"
  by (cases vs; cases ws) auto

lemma told_cases:
  assumes "rel_option alike x y \<or> told_alike k x y" "k = ''argv'' \<or> k = ''args''"
  obtains (other) "\<nexists>vs. x = Some (JArr vs)" "\<nexists>ws. y = Some (JArr ws)"
  | (words) vs ws where "x = Some (JArr vs)" "y = Some (JArr ws)" "length vs = length ws" "k = ''argv'' \<longrightarrow> same_words vs ws"
proof (cases "\<exists>vs ws. x = Some (JArr vs) \<and> y = Some (JArr ws)")
  case True
  then obtain vs ws where vs: "x = Some (JArr vs)" "y = Some (JArr ws)" by blast
  have "length vs = length ws \<and> (k = ''argv'' \<longrightarrow> same_words vs ws)"
  proof (cases "told_alike k x y")
    case True
    with assms(2) vs show ?thesis by (auto simp: told_alike_def arrays_def same_words_def)
  next
    case False
    with assms(1) vs have "alike (JArr vs) (JArr ws)" by simp
    then have "vs = ws \<or> list_all2 alike vs ws" by (auto elim: alike.cases)
    then show ?thesis by (auto simp: same_words_def alike_same dest: list_all2_lengthD first_alike)
  qed
  with vs words show ?thesis by blast
next
  case False
  have "\<not> told_alike k x y" using False assms(2) by (auto simp: told_alike_def arrays_def)
  with assms(1) False have "\<nexists>vs. x = Some (JArr vs)" "\<nexists>ws. y = Some (JArr ws)"
    by (auto simp: option_rel_Some1 option_rel_Some2 elim!: alike_arrayE)
  then show ?thesis by (rule other)
qed

lemma hidden_strip:
  assumes "list_all2 (hidden (k # K)) fs gs" "''argv0'' \<notin> set (k # K)"
  shows "list_all2 (hidden K) (strip_key k fs) (strip_key k gs)"
proof (cases "map_of fs k")
  case None
  moreover with hidden_lookup [OF assms(1), where k = k] have "map_of gs k = None" by simp
  ultimately show ?thesis using hidden_absent [OF assms(1)] by (simp add: strip_key_def)
next
  case (Some x)
  with hidden_lookup [OF assms(1), where k = k] obtain y where y: "map_of gs k = Some y" "hidden (k # K) (k, x) (k, y)"
    by (auto simp: option_rel_Some1)
  show ?thesis
  proof (cases "k = ''argv'' \<or> k = ''args''")
    case False
    with Some y(1) hidden_delete [OF assms(1)] show ?thesis by (auto simp: strip_key_def split: option.split json.split)
  next
    case True
    then have "\<not> isProbablySecretKey k" using stripped_keys [of k] by auto
    with y(2) have "rel_option alike x y \<or> told_alike k x y" by (auto simp: hidden_def)
    then consider (other) "\<nexists>vs. x = Some (JArr vs)" "\<nexists>ws. y = Some (JArr ws)"
      | (words) vs ws where "x = Some (JArr vs)" "y = Some (JArr ws)" "length vs = length ws" "k = ''argv'' \<longrightarrow> same_words vs ws"
      using True by (rule told_cases)
    then show ?thesis
    proof cases
      case other
      with Some y(1) hidden_delete [OF assms(1)] show ?thesis by (auto simp: strip_key_def split: option.split json.split)
    next
      case words
      then have "list_all2 (hidden (k # K)) (with_count vs fs) (with_count ws gs)"
        unfolding with_count_def by (intro hidden_update [OF assms(1)]) (simp add: alike_same)
      moreover have "k = ''argv'' \<Longrightarrow> list_all2 (hidden (k # K)) (with_count vs (with_argv0 vs fs)) (with_count ws (with_argv0 ws gs))"
        unfolding with_count_def using words assms by (intro hidden_update hidden_argv0) (auto simp: alike_same)
      ultimately show ?thesis using Some y(1) words True by (auto simp: strip_key_def intro!: hidden_delete)
    qed
  qed
qed

lemma hidden_sanitized:
  assumes "list_all2 (hidden (ks @ K)) fs gs" "''argv0'' \<notin> set (ks @ K)"
  shows "list_all2 (hidden K) (fold strip_key ks fs) (fold strip_key ks gs)"
  using assms
proof (induction ks arbitrary: fs gs)
  case (Cons k ks)
  then have "list_all2 (hidden (ks @ K)) (strip_key k fs) (strip_key k gs)" by (intro hidden_strip) simp_all
  with Cons show ?case by simp
qed simp

lemma hidden_spread:
  assumes "list_all2 (hidden []) fs gs"
  shows "list_all2 (hidden []) (spread base fs) (spread base gs)"
proof -
  have "list_all2 (hidden []) (fold (\<lambda>(k, v) fs. AList.update k v fs) fs b) (fold (\<lambda>(k, v) fs. AList.update k v fs) gs c)"
    if "list_all2 (hidden []) b c" for b c
    using assms that
  proof (induction arbitrary: b c rule: list_all2_induct)
    case (Cons p fs q gs)
    then have "list_all2 (hidden []) (AList.update (fst p) (snd p) b) (AList.update (fst q) (snd q) c)"
      using hidden_key [of "[]" p q] by (cases p; cases q) (auto intro!: related_update [OF _ hidden_key])
    with Cons.IH show ?case by (simp add: case_prod_beta)
  qed simp
  then show ?thesis by (simp add: spread_def list.rel_refl hidden_def)
qed

lemma hidden_redacted: "list_all2 (hidden []) fs gs \<Longrightarrow> redactLogFields fs = redactLogFields gs"
  unfolding redactLogFields_def
  by (induction rule: list_all2_induct) (auto simp: hidden_def option_rel_Some1 alike_redacted elim: option.rel_cases)


definition sample_log :: "string \<Rightarrow> LogFields" where
  "sample_log x = [(''event'', Some (JStr ''run'')), (''argv'', Some (JArr [JStr ''git'', JStr x])), (''environment'', Some (JStr x)),
     (''request'', Some (JObj [(''url'', JStr ''/v1''), (''apiKey'', JStr x)]))]"


end
