(* ===== verification/Sandbox.thy ===== *)
theory Sandbox
  imports Posix_Path Restore_Error Encoding
begin

text \<open>
  The sandbox of a workspace: the command lines of its CLI and the manager (\<open>packages/cloud-run-sandbox/src\<close>), the
  guard of the agent host (\<open>apps/agent-host/src/guard.ts\<close>, \<open>paths.ts\<close>) and the subprocess runtime with its output
  redaction (\<open>packages/dsh-subprocess-cloud-run/src\<close>). The runner of the CLI is a parameter over a world \<open>'w\<close>; what
  ends a race between a process, its timer and its abort signal is an argument. Durations are left out.
\<close>

section \<open>Errors and data\<close>

datatype sandbox_error =
    PlainFailure string
  | SandboxExecRefusedError string
  | TimeoutError
  | CancelledError
  | ExecutableNotFoundError string

record SandboxCliResult =
  sc_exitCode :: int
  sc_stdout :: string
  sc_stderr :: string

record SandboxExecRequest =
  sx_command :: string
  sx_args :: "string list"
  sx_cwd :: string
  sx_env :: "(string \<rightharpoonup> string) option"
  sx_stdin :: "string option"

type_synonym ('w, 'a) sandboxed = "('w, sandbox_error, 'a) comp"

type_synonym 'w SandboxCliRunner = "string list \<Rightarrow> string option \<Rightarrow> ('w, SandboxCliResult) sandboxed"

section \<open>Names, environment and command lines\<close>

definition isValidWorkspaceId :: "string \<Rightarrow> bool" where
  "isValidWorkspaceId i \<longleftrightarrow> 1 \<le> length i \<and> length i \<le> 128 \<and> list_all (\<lambda>c. alnum c \<or> c = CHR ''_'' \<or> c = CHR ''-'') i"

definition toSandboxId :: "string \<Rightarrow> sandbox_error + string" where
  "toSandboxId w =
     (if \<not> isValidWorkspaceId w
      then Inl (PlainFailure (''invalid workspaceId: '' @ show_string w @ '' '' @ em_dash @ '' must match ^[a-zA-Z0-9_-]{1,128}$''))
      else Inr (''dsh-'' @ w))"

definition ALLOWED_ENV :: "string list" where
  "ALLOWED_ENV = [''CI'', ''NODE_ENV'', ''LANG'', ''LC_ALL'', ''TERM'']"

definition filterEnv :: "(string \<rightharpoonup> string) option \<Rightarrow> (string \<times> string) list" where
  "filterEnv input = (case input of None \<Rightarrow> [] | Some f \<Rightarrow> List.map_filter (\<lambda>k. map_option (Pair k) (f k)) ALLOWED_ENV)"

definition KEEP_ALIVE_CMD :: string where
  "KEEP_ALIVE_CMD = ''while true; do sleep 3600; done''"

definition buildRunArgv :: "string \<Rightarrow> sandbox_error + string list" where
  "buildRunArgv i =
     (if i = [] then Inl (PlainFailure ''sandboxId required'')
      else Inr [''sandbox'', ''run'', i, ''--detach'', ''--allow-egress'', ''--write'', ''--mount'',
        ''type=bind,source=/workspace,destination=/workspace'', ''--workdir'', ''/workspace'', ''--'', ''/bin/sh'', ''-c'', KEEP_ALIVE_CMD])"

definition buildExecArgv :: "string \<Rightarrow> string \<Rightarrow> (string \<times> string) list \<Rightarrow> string \<Rightarrow> string list \<Rightarrow> sandbox_error + string list" where
  "buildExecArgv i cwd vars command args =
     (if i = [] then Inl (PlainFailure ''sandboxId required'')
      else if command = [] then Inl (PlainFailure ''command required'')
      else if cwd = [] then Inl (PlainFailure ''cwd required'')
      else Inr ([''sandbox'', ''exec'', i, ''--workdir'', cwd] @ concat (map (\<lambda>(k, v). [''--env'', k @ ''='' @ v]) vars)
        @ [''--'', command] @ args))"

definition buildDeleteArgv :: "string \<Rightarrow> sandbox_error + string list" where
  "buildDeleteArgv i = (if i = [] then Inl (PlainFailure ''sandboxId required'') else Inr [''sandbox'', ''delete'', i])"

definition runArgvForPolicy :: "string \<Rightarrow> bool \<Rightarrow> sandbox_error + string list" where
  "runArgvForPolicy i allowEgress =
     andThen (buildRunArgv i) (\<lambda>argv. Inr (if allowEgress then argv else filter (\<lambda>a. a \<noteq> ''--allow-egress'') argv))"

section \<open>The manager\<close>

text \<open>\<open>exec\<close> may throw at once; otherwise the process has been started and its result is awaited.\<close>

record 'w SandboxManager =
  sm_workspaceId :: string
  sm_ensureRunning :: "('w, unit) sandboxed"
  sm_exec :: "SandboxExecRequest \<Rightarrow> sandbox_error + ('w, SandboxCliResult) sandboxed"
  sm_reset :: "('w, unit) sandboxed"
  sm_dispose :: "('w, unit) sandboxed"

definition run_argv :: "'w SandboxCliRunner \<Rightarrow> sandbox_error + string list \<Rightarrow> ('w, unit) sandboxed" where
  "run_argv runner argv = bindC (liftE argv) (\<lambda>xs. bindC (runner xs None) (\<lambda>_. ret ()))"

definition sandbox_exec :: "string \<Rightarrow> 'w SandboxCliRunner \<Rightarrow> SandboxExecRequest \<Rightarrow> sandbox_error + ('w, SandboxCliResult) sandboxed" where
  "sandbox_exec i runner rq =
     (if sx_command rq = [] then Inl (PlainFailure ''command required'')
      else if sx_cwd rq = [] then Inl (PlainFailure ''cwd required'')
      else andThen (buildExecArgv i (sx_cwd rq) (filterEnv (sx_env rq)) (sx_command rq) (sx_args rq))
        (\<lambda>argv. Inr (runner argv (sx_stdin rq))))"

definition createSandboxManager :: "string \<Rightarrow> 'w SandboxCliRunner \<Rightarrow> sandbox_error + 'w SandboxManager" where
  "createSandboxManager w runner = andThen (toSandboxId w) (\<lambda>i. Inr \<lparr>sm_workspaceId = w,
     sm_ensureRunning = run_argv runner (buildRunArgv i),
     sm_exec = sandbox_exec i runner,
     sm_reset = thenC (run_argv runner (buildDeleteArgv i)) (run_argv runner (buildRunArgv i)),
     sm_dispose = run_argv runner (buildDeleteArgv i)\<rparr>)"

section \<open>The guard of the host\<close>

definition strip_slashes_end :: "string \<Rightarrow> string" where
  "strip_slashes_end s = rev (dropWhile (\<lambda>c. c = slash) (rev s))"

definition resolveInsideWorkspace :: "string \<Rightarrow> string \<Rightarrow> sandbox_error + string" where
  "resolveInsideWorkspace root p =
     (let normalizedRoot = posix_normalize (strip_slashes_end root);
          resolved = (if starts_with [slash] p then posix_normalize p else posix_normalize (posix_join [normalizedRoot, p]));
          prefix = (if normalizedRoot = [slash] then [slash] else normalizedRoot @ [slash]) in
      if p = [] then Inl (PlainFailure ''workspace path required'')
      else if resolved \<noteq> normalizedRoot \<and> \<not> starts_with prefix resolved
      then Inl (PlainFailure (''path refused: '' @ p @ '' escapes workspace root '' @ normalizedRoot))
      else Inr resolved)"

definition METADATA_HOSTS :: "string list" where
  "METADATA_HOSTS = [''169.254.169.254'', ''metadata.google.internal'']"

fun assertInsideWorkspace :: "string \<Rightarrow> string \<Rightarrow> sandbox_error + string" where
  "assertInsideWorkspace root cwd =
     (case resolveInsideWorkspace root cwd of Inl (PlainFailure m) \<Rightarrow> Inl (SandboxExecRefusedError m) | r \<Rightarrow> r)"

definition assertNoMetadataAccess :: "string \<Rightarrow> string list \<Rightarrow> sandbox_error + unit" where
  "assertNoMetadataAccess command args =
     (let haystack = join_with '' '' (command # args) in
      case filter (\<lambda>h. contains h haystack) METADATA_HOSTS of
        [] \<Rightarrow> Inr ()
      | h # _ \<Rightarrow> Inl (SandboxExecRefusedError (''access to the GCP metadata server ('' @ h @ '') is refused'')))"

definition createGuardedSandboxManager :: "'w SandboxManager \<Rightarrow> string \<Rightarrow> 'w SandboxManager" where
  "createGuardedSandboxManager inner root = inner\<lparr>sm_exec := (\<lambda>rq.
     andThen (assertInsideWorkspace root (sx_cwd rq)) (\<lambda>_.
     andThen (assertNoMetadataAccess (sx_command rq) (sx_args rq)) (\<lambda>_. sm_exec inner rq)))\<rparr>"

section \<open>The output of a subprocess\<close>

definition DEFAULT_MAX_OUTPUT_BYTES :: nat where
  "DEFAULT_MAX_OUTPUT_BYTES = 1024 * 1024"

definition SUBPROCESS_SECRET_PATTERNS :: "rx list" where
  "SUBPROCESS_SECRET_PATTERNS =
     [Cat (lit ''sk-'') (at_least 20 (Cls alnum)), Cat (lit ''ghp_'') (at_least 20 (Cls alnum)),
      Cat (lit ''github_pat_'') (at_least 20 (Cls word_char)), Cat (lit ''ghs_'') (at_least 20 (Cls alnum))]"

definition SUBPROCESS_ASSIGNMENT_RE :: rx where
  "SUBPROCESS_ASSIGNMENT_RE = Cat (Grp 1 (one_of (map lit_i [''API_KEY'', ''SECRET'', ''TOKEN'', ''PRIVATE_KEY''])))
     (Cat (Star (Cls is_space)) (Cat (Cls (\<lambda>c. c = CHR '':'' \<or> c = CHR ''='')) (Cat (Star (Cls is_space)) (Plus (Cls (\<lambda>c. \<not> is_space c))))))"

definition stars :: string where
  "stars = ''***''"

text \<open>\<open>split(s).join("***")\<close> replaces the occurrences of \<open>s\<close> from the left.\<close>

definition redactSecrets :: "string \<Rightarrow> string list \<Rightarrow> string" where
  "redactSecrets output secrets =
     (let exact = fold (\<lambda>s t. replace_all (lit s) (\<lambda>_. stars) t) (filter (\<lambda>s. s \<noteq> []) secrets) output;
          shaped = fold (\<lambda>re t. replace_all re (\<lambda>_. stars) t) SUBPROCESS_SECRET_PATTERNS exact in
      replace_all SUBPROCESS_ASSIGNMENT_RE (\<lambda>k. k 1 @ ''='' @ stars) shaped)"

definition truncateOutput :: "string \<Rightarrow> nat \<Rightarrow> string" where
  "truncateOutput output maxBytes =
     (if length output \<le> maxBytes then output
      else scrub (take maxBytes output) @ newline # ''[truncated '' @ show_nat (length output - maxBytes) @ '' bytes]'')"

definition processOutput :: "string \<Rightarrow> nat \<Rightarrow> string list \<Rightarrow> string" where
  "processOutput output maxBytes secrets = truncateOutput (redactSecrets output secrets) maxBytes"

text \<open>The collector: what was pushed, and what the callbacks were given.\<close>

datatype ProcessStatus = ProcSuccess | ProcError | ProcTimeout | ProcCancelled

record ProcessResult =
  pr_status :: ProcessStatus
  pr_exitCode :: "int option"
  pr_stdout :: string
  pr_stderr :: string
  pr_truncated :: bool

record OutputCollector =
  oc_stdoutBuf :: string
  oc_stderrBuf :: string
  oc_streamed :: "string list"

definition newCollector :: OutputCollector where
  "newCollector = \<lparr>oc_stdoutBuf = [], oc_stderrBuf = [], oc_streamed = []\<rparr>"

definition pushStdout :: "string list \<Rightarrow> string \<Rightarrow> OutputCollector \<Rightarrow> OutputCollector" where
  "pushStdout secrets chunk c =
     c\<lparr>oc_stdoutBuf := oc_stdoutBuf c @ chunk, oc_streamed := oc_streamed c @ [redactSecrets chunk secrets]\<rparr>"

definition pushStderr :: "string list \<Rightarrow> string \<Rightarrow> OutputCollector \<Rightarrow> OutputCollector" where
  "pushStderr secrets chunk c =
     c\<lparr>oc_stderrBuf := oc_stderrBuf c @ chunk, oc_streamed := oc_streamed c @ [redactSecrets chunk secrets]\<rparr>"

definition collector_finalize :: "nat \<Rightarrow> string list \<Rightarrow> int option \<Rightarrow> ProcessStatus \<Rightarrow> OutputCollector \<Rightarrow> ProcessResult" where
  "collector_finalize maxBytes secrets code st c =
     \<lparr>pr_status = st, pr_exitCode = code, pr_stdout = processOutput (oc_stdoutBuf c) maxBytes secrets,
      pr_stderr = processOutput (oc_stderrBuf c) maxBytes secrets,
      pr_truncated = maxBytes < length (oc_stdoutBuf c) \<or> maxBytes < length (oc_stderrBuf c)\<rparr>"

section \<open>Spawning\<close>

definition validateCwd :: "string \<Rightarrow> sandbox_error + string" where
  "validateCwd cwd =
     (if cwd = [] then Inl (PlainFailure ''cwd required'')
      else if \<not> starts_with [slash] cwd then Inl (PlainFailure (''cwd must be absolute: '' @ cwd))
      else if cwd \<noteq> ''/workspace'' \<and> \<not> starts_with ''/workspace/'' cwd then Inl (PlainFailure (''cwd must be inside /workspace: '' @ cwd))
      else if ''..'' \<in> set (split_at slash cwd)
      then Inl (PlainFailure (''cwd must not contain '' @ [single_quote] @ ''..'' @ [single_quote] @ '' segments: '' @ cwd))
      else Inr cwd)"

definition toStructuredArgv :: "string \<Rightarrow> string list \<Rightarrow> sandbox_error + string \<times> string list" where
  "toStructuredArgv command args = (if command = [] then Inl (PlainFailure ''command required'') else Inr (command, args))"

text \<open>The lock entry of a workspace and the world of its sandbox.\<close>

record 'w WorkspaceLock =
  wl_sandboxUnusable :: bool
  wl_world :: 'w

definition in_sandbox :: "('w, 'a) sandboxed \<Rightarrow> ('w WorkspaceLock, 'a) sandboxed" where
  "in_sandbox m = zoomC wl_world (\<lambda>w s. s\<lparr>wl_world := w\<rparr>) (\<lambda>e. e) m"

record SpawnOptions =
  so_request :: SandboxExecRequest
  so_maxOutputBytes :: "nat option"
  so_secrets :: "string list"

text \<open>What comes first: the end of the process, the timer or the abort signal.\<close>

datatype race = ProcessEnds | TimerFires | SignalAborts

definition reset_sandbox :: "'w SandboxManager \<Rightarrow> ('w WorkspaceLock, unit) sandboxed" where
  "reset_sandbox m = bindC (tryC (in_sandbox (sm_reset m))) (\<lambda>r. case r of
       Inr _ \<Rightarrow> ret ()
     | Inl (_ :: sandbox_error) \<Rightarrow> modifyC (\<lambda>s. s\<lparr>wl_sandboxUnusable := True\<rparr>))"

definition spawnInner ::
  "'w SandboxManager \<Rightarrow> string list \<Rightarrow> SpawnOptions \<Rightarrow> race \<Rightarrow> ('w WorkspaceLock, ProcessResult \<times> string list) sandboxed" where
  "spawnInner m ownSecrets spec first =
     (let rq = so_request spec; secrets = ownSecrets @ so_secrets spec;
          maxBytes = (case so_maxOutputBytes spec of None \<Rightarrow> DEFAULT_MAX_OUTPUT_BYTES | Some n \<Rightarrow> n);
          finish = (\<lambda>code st c. ret (collector_finalize maxBytes secrets code st c, oc_streamed c)) in
      bindC (getC wl_sandboxUnusable) (\<lambda>unusable.
      thenC (if unusable then thenC (in_sandbox (sm_ensureRunning m)) (modifyC (\<lambda>s. s\<lparr>wl_sandboxUnusable := False\<rparr>)) else ret ())
      (bindC (liftE (validateCwd (sx_cwd rq))) (\<lambda>cwd.
       bindC (liftE (toStructuredArgv (sx_command rq) (sx_args rq))) (\<lambda>(command, args).
       bindC (liftE (sm_exec m (rq\<lparr>sx_cwd := cwd, sx_env := Some (map_of (filterEnv (sx_env rq))), sx_command := command, sx_args := args\<rparr>))) (\<lambda>run.
       bindC (tryC (in_sandbox run)) (\<lambda>r.
         case (first, r) of
           (ProcessEnds, Inr res) \<Rightarrow>
             (let c1 = (if sc_stdout res \<noteq> [] then pushStdout secrets (sc_stdout res) newCollector else newCollector);
                  c2 = (if sc_stderr res \<noteq> [] then pushStderr secrets (sc_stderr res) c1 else c1) in
              finish (Some (sc_exitCode res)) (if sc_exitCode res = 0 then ProcSuccess else ProcError) c2)
         | (TimerFires, _) \<Rightarrow> thenC (reset_sandbox m) (finish None ProcTimeout newCollector)
         | (SignalAborts, _) \<Rightarrow> thenC (reset_sandbox m) (finish None ProcCancelled newCollector)
         | (ProcessEnds, Inl e) \<Rightarrow> thenC (reset_sandbox m)
             (if e = TimeoutError then finish None ProcTimeout newCollector
              else if e = CancelledError then finish None ProcCancelled newCollector
              else throwC e))))))))"

text \<open>\<open>command -v\<close> inside the sandbox: the first line of its output.\<close>

definition resolveExecutable :: "string \<Rightarrow> 'w SandboxManager \<Rightarrow> ('w, string) sandboxed" where
  "resolveExecutable command m =
     (if command = [] then throwC (PlainFailure ''command required'')
      else bindC (liftE (sm_exec m \<lparr>sx_command = ''/bin/sh'',
             sx_args = [''-c'', ''command -v -- '' @ [double_quote] @ ''$1'' @ [double_quote], ''sh'', command],
             sx_cwd = ''/workspace'', sx_env = None, sx_stdin = None\<rparr>)) (\<lambda>run.
        bindC run (\<lambda>res.
          if sc_exitCode res \<noteq> 0 then throwC (ExecutableNotFoundError command)
          else (let p = trim (hd (split_at newline (trim (sc_stdout res)))) in
                if p = [] then throwC (ExecutableNotFoundError command) else ret p))))"

section \<open>One subprocess at a time\<close>

text \<open>The chain of promises of the mutex: who runs, and who waits, in order.\<close>

record Mutex =
  mx_running :: "nat option"
  mx_waiting :: "nat list"

definition mutex_enter :: "nat \<Rightarrow> Mutex \<Rightarrow> Mutex" where
  "mutex_enter i m = (if mx_running m = None then m\<lparr>mx_running := Some i\<rparr> else m\<lparr>mx_waiting := mx_waiting m @ [i]\<rparr>)"

definition mutex_release :: "Mutex \<Rightarrow> Mutex" where
  "mutex_release m = (case mx_waiting m of
       [] \<Rightarrow> m\<lparr>mx_running := None\<rparr>
     | i # is \<Rightarrow> m\<lparr>mx_running := Some i, mx_waiting := is\<rparr>)"

end
