(* ===== verification/Sandbox_Props.thy ===== *)
theory Sandbox_Props
  imports Sandbox
begin

text \<open>
  What reaches the sandbox and what leaves it: every command line of the guarded manager, and the output of a
  subprocess without the secrets its caller named.
\<close>

section \<open>What reaches the sandbox\<close>

text \<open>An inner path of the root: the root itself or below it, after normalisation.\<close>

definition inside_root :: "string \<Rightarrow> string \<Rightarrow> bool" where
  "inside_root root p \<longleftrightarrow>
     (let r = posix_normalize (strip_slashes_end root);
          q = (if starts_with [slash] p then posix_normalize p else posix_normalize (posix_join [r, p])) in
      q = r \<or> starts_with (if r = [slash] then [slash] else r @ [slash]) q)"

lemma inside_resolved: "assertInsideWorkspace root p = Inr q \<Longrightarrow> inside_root root p"
  by (auto simp: resolveInsideWorkspace_def inside_root_def Let_def split: sum.splits sandbox_error.splits if_splits)

lemma filtered_env: "(k, v) \<in> set (filterEnv e) \<Longrightarrow> k \<in> set ALLOWED_ENV \<and> (\<exists>f. e = Some f \<and> f k = Some v)"
  by (cases e) (auto simp: filterEnv_def map_filter_def)

lemma no_metadata: "assertNoMetadataAccess c as = Inr u \<Longrightarrow> h \<in> set METADATA_HOSTS \<Longrightarrow> \<not> contains h (join_with '' '' (c # as))"
  by (auto simp: assertNoMetadataAccess_def Let_def filter_empty_conv split: list.splits)

text \<open>C38: whatever a caller asks the guarded manager to execute, either nothing is run and the call throws, or exactly one
  command line reaches the CLI, for the sandbox of this workspace: its working directory lies in the workspace, its
  environment holds allowed names only, with the values of the caller, command and arguments stand unchanged and apart after
  the separator, and none of them names the metadata server.\<close>

theorem guarded_exec_confined:
  assumes "createSandboxManager w runner = Inr m" "sm_exec (createGuardedSandboxManager m root) rq = Inr run"
  shows "isValidWorkspaceId w \<and> inside_root root (sx_cwd rq) \<and> sx_command rq \<noteq> []
    \<and> (\<exists>vars. run = runner ([''sandbox'', ''exec'', ''dsh-'' @ w, ''--workdir'', sx_cwd rq]
           @ concat (map (\<lambda>(k, v). [''--env'', k @ ''='' @ v]) vars) @ [''--'', sx_command rq] @ sx_args rq) (sx_stdin rq)
         \<and> set (map fst vars) \<subseteq> set ALLOWED_ENV \<and> (\<forall>(k, v) \<in> set vars. \<exists>f. sx_env rq = Some f \<and> f k = Some v))
    \<and> (\<forall>h \<in> set METADATA_HOSTS. \<not> contains h (join_with '' '' (sx_command rq # sx_args rq)))"
proof -
  have w: "isValidWorkspaceId w" "sm_exec m = sandbox_exec (''dsh-'' @ w) runner"
    using assms(1) by (auto simp: createSandboxManager_def toSandboxId_def split: if_splits)
  have guard: "\<exists>q. assertInsideWorkspace root (sx_cwd rq) = Inr q" "\<exists>u. assertNoMetadataAccess (sx_command rq) (sx_args rq) = Inr u"
    and exec: "sandbox_exec (''dsh-'' @ w) runner rq = Inr run"
    using assms(2) w(2) by (simp_all add: createGuardedSandboxManager_def del: assertInsideWorkspace.simps)
  have "inside_root root (sx_cwd rq)" using guard(1) inside_resolved by blast
  moreover have "\<forall>h \<in> set METADATA_HOSTS. \<not> contains h (join_with '' '' (sx_command rq # sx_args rq))"
    using guard(2) no_metadata by blast
  moreover have "sx_command rq \<noteq> [] \<and> run = runner ([''sandbox'', ''exec'', ''dsh-'' @ w, ''--workdir'', sx_cwd rq]
      @ concat (map (\<lambda>(k, v). [''--env'', k @ ''='' @ v]) (filterEnv (sx_env rq))) @ [''--'', sx_command rq] @ sx_args rq) (sx_stdin rq)"
    using exec by (auto simp: sandbox_exec_def buildExecArgv_def split: if_splits)
  moreover have "set (map fst (filterEnv (sx_env rq))) \<subseteq> set ALLOWED_ENV"
    "\<forall>(k, v) \<in> set (filterEnv (sx_env rq)). \<exists>f. sx_env rq = Some f \<and> f k = Some v"
    using filtered_env by fastforce+
  ultimately show ?thesis using w(1) by blast
qed

text \<open>A runner that echoes its command line.\<close>

definition echo_runner :: "(string list list) SandboxCliRunner" where
  "echo_runner argv input = (\<lambda>w. (Inr \<lparr>sc_exitCode = 0, sc_stdout = join_with '' '' argv, sc_stderr = []\<rparr>, w @ [argv]))"

definition sample_exec :: SandboxExecRequest where
  "sample_exec = \<lparr>sx_command = ''ls'', sx_args = [''-l; rm x''], sx_cwd = ''/workspace/a/../b'',
     sx_env = Some [''LANG'' \<mapsto> ''C'', ''DATABASE_URL'' \<mapsto> ''postgres://u:p@h''], sx_stdin = None\<rparr>"

definition sample_manager :: "(string list list) SandboxManager" where
  "sample_manager = projr (createSandboxManager ''w'' echo_runner)"

lemma sample_executed: "sm_exec (createGuardedSandboxManager sample_manager ''/workspace/'') sample_exec
    = Inr (echo_runner [''sandbox'', ''exec'', ''dsh-w'', ''--workdir'', ''/workspace/a/../b'', ''--env'', ''LANG=C'', ''--'', ''ls'', ''-l; rm x''] None)"
proof -
  let ?g = "andThen (assertInsideWorkspace ''/workspace/'' (sx_cwd sample_exec)) (\<lambda>_.
     andThen (assertNoMetadataAccess (sx_command sample_exec) (sx_args sample_exec)) (\<lambda>_.
     buildExecArgv ''dsh-w'' (sx_cwd sample_exec) (filterEnv (sx_env sample_exec)) (sx_command sample_exec) (sx_args sample_exec)))"
  have "?g = Inr [''sandbox'', ''exec'', ''dsh-w'', ''--workdir'', ''/workspace/a/../b'', ''--env'', ''LANG=C'', ''--'', ''ls'', ''-l; rm x'']"
    by code_simp
  moreover have "toSandboxId ''w'' = Inr ''dsh-w''" by code_simp
  ultimately show ?thesis
    by (auto simp: createGuardedSandboxManager_def sample_manager_def createSandboxManager_def andThen_def sandbox_exec_def sample_exec_def
        split: sum.splits)
qed

theorem guarded_exec_confined_witness: "inside_root ''/workspace/'' ''/workspace/a/../b'' \<and> \<not> inside_root ''/workspace/'' ''/workspace/../etc''"
proof -
  have m: "createSandboxManager ''w'' echo_runner = Inr sample_manager"
    by (auto simp: sample_manager_def createSandboxManager_def andThen_def toSandboxId_def isValidWorkspaceId_def alnum_def letter_def
        in_range_def byte_def)
  have "\<not> inside_root ''/workspace/'' ''/workspace/../etc''" by code_simp
  with guarded_exec_confined [OF m sample_executed] show ?thesis by (simp add: sample_exec_def)
qed

end
