(* ===== verification/Redaction.thy ===== *)
theory Redaction
  imports Sandbox
begin

text \<open>
  The output of a subprocess does not show the secrets its caller named: no replacement of \<open>redactSecrets\<close> brings
  back a text that an earlier one has removed.
\<close>

section \<open>What a replacement can bring about\<close>

lemma contains_sublist: "contains p s \<longleftrightarrow> sublist p s"
  by (simp add: contains_iff sublist_def)

text \<open>A text that the stars and the equals sign of the redaction cannot complete.\<close>

definition unforged :: "string \<Rightarrow> bool" where
  "unforged p \<longleftrightarrow> CHR ''*'' \<notin> set p \<and> (p = [] \<or> last p \<noteq> CHR ''='')"

lemma unforged_tl: "unforged (c # p) \<Longrightarrow> unforged p"
  by (auto simp: unforged_def)

text \<open>What is put in for a match: a beginning of the text at the match, perhaps an equals sign, and the stars.\<close>

definition stars_for :: "string \<Rightarrow> string \<Rightarrow> bool" where
  "stars_for s t \<longleftrightarrow> (\<exists>c e. t = c @ e @ stars \<and> prefix c s \<and> e \<in> {[], ''=''})"

lemma unforged_prefix:
  assumes "unforged p" "prefix p (c @ e @ stars @ r)" "e \<in> {[], ''=''}"
  shows "prefix p c"
proof -
  have "prefix p ((c @ e) @ CHR ''*'' # ''**'' @ r)" using assms(2) by (simp add: stars_def)
  then have "prefix p (c @ e)" using assms(1) by (auto simp: prefix_append prefix_Cons unforged_def)
  then show ?thesis using assms(1,3) by (auto simp: prefix_append prefix_Cons unforged_def)
qed

lemma sublist_at: "sublist p (xs @ y # ys) \<Longrightarrow> y \<notin> set p \<Longrightarrow> sublist p xs \<or> sublist p ys"
  by (auto simp: sublist_append sublist_Cons_right prefix_Cons)

lemma unforged_sublist:
  assumes "unforged p" "sublist p (c @ e @ stars @ r)" "e \<in> {[], ''=''}"
  shows "sublist p c \<or> sublist p r"
proof -
  have star: "CHR ''*'' \<notin> set p" using assms(1) by (simp add: unforged_def)
  have "sublist p ((c @ e) @ CHR ''*'' # [] @ CHR ''*'' # [] @ CHR ''*'' # r)" using assms(2) by (simp add: stars_def)
  then have "sublist p (c @ e) \<or> sublist p ([] :: string) \<or> sublist p ([] :: string) \<or> sublist p r"
    by (meson sublist_at star)
  then have "sublist p (c @ e) \<or> sublist p r" by auto
  moreover have "sublist p c" if "sublist p (c @ ''='')"
    using that assms(1) by (auto simp: sublist_append sublist_Cons_right unforged_def prefix_Cons suffix_Cons)
  ultimately show ?thesis using assms(3) by auto
qed

text \<open>What begins or stands in the result began or stood in the text.\<close>

definition brings_nothing :: "string \<Rightarrow> string \<Rightarrow> bool" where
  "brings_nothing t s \<longleftrightarrow> (\<forall>p. unforged p \<longrightarrow> (prefix p t \<longrightarrow> prefix p s) \<and> (sublist p t \<longrightarrow> sublist p s))"

lemma brings_nothing_refl: "brings_nothing s s"
  by (simp add: brings_nothing_def)

lemma brings_nothing_trans: "brings_nothing u t \<Longrightarrow> brings_nothing t s \<Longrightarrow> brings_nothing u s"
  by (simp add: brings_nothing_def)

lemma brings_nothing_Cons:
  assumes "brings_nothing t s"
  shows "brings_nothing (c # t) (c # s)"
  unfolding brings_nothing_def
proof (intro allI impI conjI)
  fix p
  assume "unforged p"
  then show tl: "prefix p (c # s)" if "prefix p (c # t)"
    using that assms unforged_tl by (cases p) (auto simp: brings_nothing_def)
  assume "sublist p (c # t)"
  then consider "prefix p (c # t)" | "sublist p t" by (auto simp: sublist_Cons_right)
  then show "sublist p (c # s)"
  proof cases
    case 2
    with assms \<open>unforged p\<close> have "sublist p s" by (simp add: brings_nothing_def)
    then show ?thesis by (simp add: sublist_Cons_right)
  qed (use tl in blast)
qed

lemma brings_nothing_stars:
  assumes "stars_for s t" "brings_nothing r s'" "suffix s' s"
  shows "brings_nothing (t @ r) s"
  unfolding brings_nothing_def
proof (intro allI impI conjI)
  fix p
  assume p: "unforged p"
  from assms(1) obtain c e where t: "t = c @ e @ stars" "prefix c s" "e \<in> {[], ''=''}" by (auto simp: stars_for_def)
  show "prefix p s" if "prefix p (t @ r)"
  proof -
    have "prefix p (c @ e @ stars @ r)" using that t(1) by simp
    then have "prefix p c" using t(3) by (rule unforged_prefix [OF p])
    then show ?thesis using t(2) by (rule prefix_order.trans)
  qed
  assume "sublist p (t @ r)"
  then have "sublist p c \<or> sublist p r" using unforged_sublist [OF p, where r = r] t by simp
  then show "sublist p s"
    using t(2) assms(2,3) p by (auto simp: brings_nothing_def intro: sublist_order.order_trans prefix_imp_sublist suffix_imp_sublist)
qed

lemma replace_brings_nothing:
  assumes "\<And>d s m. m \<in> set (matches r (start_at d s)) \<Longrightarrow> stars_for s (f (m_caps m))"
  shows "brings_nothing (replace_from r f n d s) s"
proof (induction n arbitrary: d s)
  case (Suc n)
  have copy: "brings_nothing (case s of [] \<Rightarrow> [] | c # t \<Rightarrow> c # replace_from r f n (c # d) t) s"
    using Suc.IH by (auto simp: brings_nothing_refl brings_nothing_Cons split: list.split)
  show ?case
  proof (cases "matches r (start_at d s)")
    case Nil
    with copy show ?thesis by simp
  next
    case (Cons m ms)
    then have m: "m \<in> set (matches r (start_at d s))" by simp
    with matches_read_on have "suffix (m_rest m) s" by (fastforce simp: reads_on_def start_at_def)
    with brings_nothing_stars [OF assms [OF m] Suc.IH] brings_nothing_stars [OF assms [OF m] copy] Cons
    show ?thesis by (simp add: Let_def)
  qed
qed (simp add: brings_nothing_refl)

lemma replace_all_brings_nothing:
  "(\<And>d s m. m \<in> set (matches r (start_at d s)) \<Longrightarrow> stars_for s (f (m_caps m))) \<Longrightarrow> brings_nothing (replace_all r f s) s"
  unfolding replace_all_def by (rule replace_brings_nothing)

lemma plain_stars: "stars_for s stars"
  by (simp add: stars_for_def)

lemma fold_brings_nothing: "brings_nothing (fold (\<lambda>x t. replace_all (g x) (\<lambda>_. stars) t) xs s) s"
proof (induction xs arbitrary: s)
  case (Cons x xs)
  have "brings_nothing (replace_all (g x) (\<lambda>_. stars) s) s" by (rule replace_all_brings_nothing) (rule plain_stars)
  with Cons.IH brings_nothing_trans show ?case by (fastforce simp only: fold_simps)
qed (simp add: brings_nothing_refl)

section \<open>The assignment pattern\<close>

primrec no_groups :: "rx \<Rightarrow> bool" where
  "no_groups Eps = True"
| "no_groups (Cls P) = True"
| "no_groups (Cat r q) = (no_groups r \<and> no_groups q)"
| "no_groups (Alt r q) = (no_groups r \<and> no_groups q)"
| "no_groups (Star r) = no_groups r"
| "no_groups (Lazy r) = no_groups r"
| "no_groups (Grp n r) = False"
| "no_groups Bnd = True"
| "no_groups (NotBefore P) = True"
| "no_groups (NotAfter P) = True"

lemma greedy_caps:
  assumes "\<And>m m'. m' \<in> set (step m) \<Longrightarrow> m_caps m' = m_caps m"
  shows "m' \<in> set (greedy step n m) \<Longrightarrow> m_caps m' = m_caps m"
  by (induction n arbitrary: m) (auto simp: assms)

lemma reluctant_caps:
  assumes "\<And>m m'. m' \<in> set (step m) \<Longrightarrow> m_caps m' = m_caps m"
  shows "m' \<in> set (reluctant step n m) \<Longrightarrow> m_caps m' = m_caps m"
  by (induction n arbitrary: m) (auto simp: assms)

lemma caps_kept: "no_groups r \<Longrightarrow> m' \<in> set (matches r m) \<Longrightarrow> m_caps m' = m_caps m"
proof (induction r arbitrary: m m')
  case (Cls P)
  then show ?case by (cases "m_rest m") (auto split: if_splits)
next
  case (Cat r q)
  from Cat.prems(2) obtain x where "x \<in> set (matches r m)" "m' \<in> set (matches q x)" by auto
  with Cat.IH Cat.prems(1) show ?case by simp
next
  case (Star r)
  then have "no_groups r" "m' \<in> set (greedy (matches r) (length (m_rest m)) m)" by simp_all
  with Star.IH show ?case by (blast intro: greedy_caps)
next
  case (Lazy r)
  then have "no_groups r" "m' \<in> set (reluctant (matches r) (length (m_rest m)) m)" by simp_all
  with Lazy.IH show ?case by (blast intro: reluctant_caps)
qed (auto split: if_splits)

lemma first_group:
  assumes "m \<in> set (matches (Cat (Grp 1 r) q) (start_at d s))" "no_groups q"
  shows "prefix (m_caps m 1) s"
  using assms by (auto simp: caps_kept capture_def start_at_def take_is_prefix)

lemma assignment_stars:
  assumes "m \<in> set (matches SUBPROCESS_ASSIGNMENT_RE (start_at d s))"
  shows "stars_for s (m_caps m 1 @ ''='' @ stars)"
proof -
  have "prefix (m_caps m 1) s"
    using assms unfolding SUBPROCESS_ASSIGNMENT_RE_def by (rule first_group) (simp add: Plus_def)
  then show ?thesis by (auto simp: stars_for_def)
qed

section \<open>The secrets of the caller\<close>

lemma literal_removed:
  assumes "s \<noteq> []" "unforged s"
  shows "length t < n \<Longrightarrow> \<not> sublist s (replace_from (lit s) (\<lambda>_. stars) n d t)"
proof (induction n arbitrary: d t)
  case (Suc n)
  let ?more = "replace_from (lit s) (\<lambda>_. stars) n"
  show ?case
  proof (cases "matches (lit s) (start_at d t)")
    case Nil
    then have "\<not> prefix s t" by (auto simp: start_at_def prefix_def split: if_splits)
    moreover have "\<not> prefix s (c # ?more (c # d) u)" if "t = c # u" for c u
    proof
      assume "prefix s (c # ?more (c # d) u)"
      moreover have "brings_nothing (c # ?more (c # d) u) (c # u)"
        by (rule brings_nothing_Cons [OF replace_brings_nothing]) (rule plain_stars)
      ultimately show False using assms(2) \<open>\<not> prefix s t\<close> that by (simp add: brings_nothing_def)
    qed
    ultimately show ?thesis using Nil Suc assms(1) by (auto simp: sublist_Cons_right split: list.split)
  next
    case (Cons m ms)
    then have m: "take (length s) t = s" "m = advance (length s) (start_at d t)" by (auto simp: start_at_def split: if_splits)
    have "length (take (length s) t) = length s" using m(1) by (rule arg_cong)
    then have "0 < length s" "length s \<le> length t" using assms(1) by simp_all
    moreover have "length (m_rest m) = length t - length s" using m(2) by (simp add: start_at_def)
    ultimately have len: "length (m_rest m) < length t" "length (m_rest m) < n" using Suc.prems by linarith+
    have "\<not> sublist s ([] @ [] @ stars @ ?more (m_done m) (m_rest m))"
      using unforged_sublist [OF assms(2), where c = "[]" and e = "[]"] Suc.IH [OF len(2)] assms(1) by auto
    with Cons len(1) show ?thesis by (simp add: Let_def)
  qed
qed simp

lemma exact_removed:
  assumes "s \<in> set xs" "s \<noteq> []" "unforged s"
  shows "\<not> sublist s (fold (\<lambda>x t. replace_all (lit x) (\<lambda>_. stars) t) xs t)"
  using assms(1)
proof (induction xs arbitrary: t)
  case (Cons x xs)
  show ?case
  proof (cases "x = s")
    case True
    have "\<not> sublist s (replace_all (lit s) (\<lambda>_. stars) t)"
      unfolding replace_all_def using literal_removed [OF assms(2,3)] by blast
    with fold_brings_nothing [of lit xs] assms(3) True show ?thesis by (auto simp: brings_nothing_def)
  qed (use Cons in simp)
qed simp

text \<open>C39: a secret that the caller names does not show in the redacted output of a subprocess, wherever it stood and
  whatever the other replacements do around it, unless the secret itself holds a star or ends with an equals sign.\<close>

theorem redaction_complete:
  assumes "s \<in> set secrets" "s \<noteq> []" "CHR ''*'' \<notin> set s" "last s \<noteq> CHR ''=''"
  shows "\<not> contains s (redactSecrets output secrets)"
proof -
  have free: "unforged s" using assms by (simp add: unforged_def)
  let ?exact = "fold (\<lambda>s t. replace_all (lit s) (\<lambda>_. stars) t) (filter (\<lambda>s. s \<noteq> []) secrets) output"
  let ?shaped = "fold (\<lambda>re t. replace_all re (\<lambda>_. stars) t) SUBPROCESS_SECRET_PATTERNS ?exact"
  have "\<not> sublist s ?exact" using assms(1,2) free by (intro exact_removed) simp_all
  moreover have "brings_nothing ?shaped ?exact" using fold_brings_nothing [of "\<lambda>x. x"] by simp
  moreover have "brings_nothing (replace_all SUBPROCESS_ASSIGNMENT_RE (\<lambda>k. k 1 @ ''='' @ stars) ?shaped) ?shaped"
    by (rule replace_all_brings_nothing) (rule assignment_stars)
  ultimately show ?thesis using free by (auto simp: redactSecrets_def contains_sublist brings_nothing_def)
qed

theorem redaction_complete_witness:
  "\<not> contains ''hunter2'' (redactSecrets ''login hunter2; TOKEN : x'' [''hunter2'', ''zz''])
   \<and> redactSecrets ''login hunter2; TOKEN : x'' [''hunter2'', ''zz''] = ''login ***; TOKEN=***''"
proof
  show "\<not> contains ''hunter2'' (redactSecrets ''login hunter2; TOKEN : x'' [''hunter2'', ''zz''])"
    by (rule redaction_complete) simp_all
  show "redactSecrets ''login hunter2; TOKEN : x'' [''hunter2'', ''zz''] = ''login ***; TOKEN=***''" by code_simp
qed

text \<open>A secret that ends with an equals sign can be completed by the pattern for assignments.\<close>

lemma equals_sign_forged: "contains ''KEN='' (redactSecrets ''TOKEN : x'' [''KEN=''])"
  by code_simp

end
