(* ===== verification/Spec2Isabelle.thy ===== *)
theory Spec2Isabelle
  imports Runtime_Open Runtime_Coalesce Lease_Props Scheduler Checkpoint_Disk Instance_GC Response_Props Message_Props Sse_Client Auth_Props
    Sql_Store Broker_Props Turn_Props Gateway Instance_Client Forwarding Config_Props Wire_Stop Observability_Props Sandbox_Props Redaction
begin

text \<open>
  A verification development for \<open>cloud-run-dsh\<close>: coding agents that run in Cloud Run Instances, one per workspace,
  behind a control plane.

  THE PROGRAM AND ITS PARTS. The control plane (\<open>apps/control-plane/src\<close>) is an HTTP server for browsers. It keeps
  workspaces, sessions, event logs, controller leases and logins in PostgreSQL, creates, starts and stops the Instance of a
  workspace through the Instances API, and forwards messages, cancels, approvals, checkpoints and stop preparations to
  the agent host inside it. The agent host (\<open>apps/agent-host/src\<close>) restores the workspace, answers these
  requests, runs turns of the agents and renews the lease. Both use the packages: \<open>workspace-runtime\<close> (the state machine
  of a workspace), \<open>controller-lease\<close>, \<open>workspace-checkpoint\<close>, \<open>session-persistence-postgres\<close>,
  \<open>github-credential-broker\<close>, \<open>cloud-run-instance-client\<close>, \<open>cloud-run-sandbox\<close>, \<open>dsh-subprocess-cloud-run\<close>,
  \<open>gcp-token-provider\<close> and \<open>observability\<close>. The two programs share the database and the environment that the control plane
  gives an Instance, and talk HTTP; no call is atomic over both.

  HOW CODE BECOMES DEFINITIONS. An \<open>async\<close> method that mutates its object is a computation \<open>'s \<Rightarrow> ('e + 'a) \<times> 's\<close>
  (theory \<open>Prelude\<close>): it threads a state and returns a value or the thrown error, and keeps the state it has reached when it
  throws. An object is a record, an injected collaborator a function on an arbitrary world \<open>'w\<close> (\<open>zoomC\<close> runs it on its part
  of a bigger state), an interface with laws a locale. Where the order of concurrent pieces matters the
  operation is cut at its awaits and the pieces are steps of a run: the scheduler, the turn starter, the token
  cache, the drain of a stop, the coalescing of calls, the lease over time, the event stream. JavaScript text is its
  UTF-8 bytes (theory \<open>Text\<close>), so that \<open>TextEncoder\<close> is the identity; JSON values keep the order of their keys (\<open>Json\<close>,
  \<open>Json_Show\<close>); regular expressions are run by a backtracking matcher (\<open>Js_Regex\<close>). Times are integers of milliseconds.

  THE THEORIES, in the order of their dependencies.

  Foundations. \<open>Prelude\<close>: computations, their combinators and the rules that run them. \<open>Text\<close>, \<open>Json\<close>, \<open>Json_Show\<close>,
  \<open>Js_Regex\<close>, \<open>Encoding\<close>, \<open>Posix_Path\<close>, \<open>Iso_Date\<close>: what the source uses of the standard library, with the round trips
  of JSON, base64 and percent encoding.

  Workspace runtime. \<open>Runtime_State\<close> (\<open>state.ts\<close>), \<open>State_Store\<close> (\<open>store.ts\<close>, \<open>machine.ts\<close>; locale
  \<open>transactional_store\<close>), \<open>Idle\<close> (\<open>idle.ts\<close>), \<open>Runtime\<close> (\<open>runtime.ts\<close>), \<open>Runtime_Coalesce\<close> (its slots of running promises).
  \<open>Runtime_Trace\<close> is a small logic of the calls a computation makes, \<open>Runtime_World\<close> a concrete world with scripted
  failures; \<open>Runtime_Drain\<close>, \<open>Runtime_Stop\<close>, \<open>Runtime_Props\<close>, \<open>Runtime_Lifecycle\<close> and \<open>Runtime_Open\<close> show that every
  transition is legal, that a stop refines a specification by its first failing step, that it drains before it saves,
  that READY means that every step has returned, and what open does over two processes. \<open>Stop_Guard\<close>: the order of a
  stop for arbitrary collaborators, with the locale \<open>step_guard\<close>.

  Leases and checkpoints. \<open>Lease\<close>, \<open>Lease_Props\<close> (\<open>controller-lease\<close>, \<open>lease-heartbeat.ts\<close>, \<open>health.ts\<close>; locale
  \<open>lease_store\<close>, interpreted on the memory store, on the SQL store of the host and on the shared database): at any
  time one controller, renewed leases are kept, a takeover fences the old controller. \<open>Scheduler\<close> (\<open>scheduler.ts\<close>,
  \<open>dirty.ts\<close>): one checkpoint at a time, every mutation is saved. \<open>Tar\<close>, \<open>Tar_Roundtrip\<close> (\<open>tar.ts\<close>), \<open>Checkpoint_Bundle\<close>,
  \<open>Bundle_Codec\<close>, \<open>Checkpoint_Props\<close>, \<open>Checkpoint_Disk\<close> (\<open>bundle.ts\<close>, \<open>restore.ts\<close>, \<open>exclusions.ts\<close>): a checkpoint taken,
  stored and restored gives the files back, and no archive writes outside of the workspace.

  Persistence. \<open>Database\<close> (the tables of \<open>infra/migrations\<close> and the statements), \<open>Repository\<close>, \<open>Repository_Props\<close>,
  \<open>Repository_Log\<close> (\<open>repository.ts\<close>): keys, references and gapless logs through every outage, what an append stores, deletions
  that are complete. \<open>Restore_Error\<close> (\<open>restore-error.ts\<close>): failure summaries are bounded, one line, without URLs.
  \<open>Connection\<close>, \<open>Connection_Props\<close> (\<open>connection.ts\<close>). \<open>Instance_GC\<close> (\<open>instance-gc.ts\<close>).

  Control plane. \<open>Http\<close> (\<open>errors.ts\<close>, \<open>validate.ts\<close>, \<open>auth.ts\<close>), \<open>Auth_Session\<close>, \<open>Auth_Props\<close> (\<open>auth-session.ts\<close>; locale
  \<open>session_store\<close>), \<open>Control_State\<close>, \<open>Control_Leases\<close>, \<open>Sql_Store\<close> (\<open>deps.ts\<close>, \<open>membership.ts\<close>, \<open>prod-adapters.ts\<close>; locale
  \<open>membership_store\<close>, and the state store over SQL as a second \<open>transactional_store\<close>), \<open>Handlers\<close>, \<open>Handlers_Runtime\<close>
  (\<open>handlers.ts\<close>), \<open>Auth_Github\<close> (\<open>auth-github.ts\<close>), \<open>Sse\<close>, \<open>Sse_Props\<close> (\<open>sse.ts\<close>), \<open>Sse_Client\<close> (its reader in the browser, \<open>public/sse.js\<close>), \<open>Server\<close> (\<open>server.ts\<close>, \<open>static.ts\<close>), and
  over the composition of production \<open>Server_Props\<close>, \<open>Server_Safety\<close>, \<open>Response_Props\<close>, \<open>Message_Props\<close>: a request
  changes nothing unless session, ownership and lease entitle it, every answer is a documented one, a
  message is recorded and then forwarded. \<open>Broker\<close>, \<open>Broker_Props\<close> (\<open>github-credential-broker\<close>). \<open>Instance_Client\<close>
  (\<open>cloud-run-instance-client\<close>), \<open>Token_Cache\<close>, \<open>Forwarding\<close> (\<open>forwarding.ts\<close>), \<open>Config\<close>, \<open>Config_Props\<close> (both
  \<open>config.ts\<close>), \<open>Runtime_Factory\<close> (\<open>runtime-factory.ts\<close>).

  Agent host. \<open>Replay\<close>, \<open>Replay_Props\<close> (\<open>session-persistence.ts\<close>), \<open>Turn\<close>, \<open>Turn_Props\<close> (\<open>turn.ts\<close>), \<open>Gateway\<close>
  (\<open>gateway.ts\<close>), \<open>Agent_Host\<close> (\<open>composition.ts\<close>), \<open>Sandbox\<close>, \<open>Sandbox_Props\<close>, \<open>Redaction\<close>
  (\<open>cloud-run-sandbox\<close>, \<open>guard.ts\<close>, \<open>paths.ts\<close>, \<open>dsh-subprocess-cloud-run\<close>): commands stay in the workspace, named secrets
  do not show in their output. \<open>Observability\<close>, \<open>Observability_Props\<close>: what a log line can tell.

  Both programs. \<open>Wire_Props\<close> and \<open>Wire_Stop\<close> connect the forwarder of the control plane with the gateway of the host by
  a network that may lose a request or its answer: a message reaches its agent at most once, and exactly once when
  the forward returns; and an Instance is stopped only after its host has saved the workspace, or had nothing to save,
  or could not record that saving failed. The latter interprets \<open>step_guard\<close> on the handles of production.

  BOUNDS AND FUEL. Recursion over text that a regular expression consumes has the length of the text as its fuel, and
  every step consumes a character or moves on by one (\<open>replace_all\<close> starts with one more than the length), so the fuel is
  never the reason to stop. \<open>json_parse\<close> has the length of its input for the same reason, which \<open>json_roundtrip\<close> shows
  to be enough. The reader of archives is a partial function, \<open>None\<close> being a loop that never ends
  (\<open>tar_negative_size_loops\<close>); a drain that never ends is \<open>None\<close> as well. Nothing else is bounded.

  WHAT THE MODEL ASSUMES AND LEAVES OUT INSIDE THESE PARTS. Between two awaits a piece of code is one step. A request
  of the control plane reads its clock once. A statement of SQL has its documented effect or fails, a transaction rolls
  back when it throws. Regular expressions see ASCII letters; text outside the encodings of Unicode does not occur. An
  integer beyond \<open>2 ^ 53\<close> is no integer, another number keeps its token (\<open>JFloat\<close>), \<open>parseInt\<close> and the clocks are exact. The
  URL parser, \<open>Date.parse\<close>, RSA and SHA-256, the texts of the engine's own errors, and the transports are
  parameters. Loggers of the host and metrics are left out where no property is about them. In front of a container
  the platform answers only with errors. A request body that cannot be read is not a value of the gateway model.
  Durations are left out of the sandbox, and what ends the race between a process, its timer and its abort is an argument.

  NOT MODELLED. The adapters of \<open>adapters.ts\<close> and the entry points (\<open>index.ts\<close>, \<open>main.ts\<close>, \<open>dev.ts\<close>): input and output and
  wiring. The harness packages behind \<open>harness.ts\<close>, \<open>harness-real.ts\<close>, \<open>harness-subprocess.ts\<close>: the agent loop is a
  package that is not part of the repository, so its calls are parameters. The migration runner
  (\<open>infra/migrations/runner.ts\<close>): it applies the files in order and is not part of either program. The pages
  of the browser (\<open>apps/control-plane/public\<close>, but for \<open>sse.js\<close>): views over the DOM. Fakes, test suites and scripts. Metrics: every
  implementation in the repository discards them or keeps them for tests. The chain of sources of \<open>gcp-token-provider\<close> (metadata
  server, files of credentials, environment); its cache is that of \<open>Token_Cache\<close>. Terraform and the images of
  the containers are not code of this language.
\<close>

end
